(* ===== verification/Prelude.thy ===== *)
theory Prelude
  imports Main "HOL-Library.Word" "HOL-Library.Multiset" "HOL-Library.Monad_Syntax"
    "HOL-Library.Signed_Division"
begin

unbundle bit_operations_syntax

text \<open>
  Types, status codes, byte buffers and generic lemmas that every component of the
  development shares. Machine integers are words of their C width. A byte buffer is a list of
  bytes; an access outside it is \<open>None\<close>, so that memory safety is a provable statement.
\<close>

section \<open>Types of the code\<close>

type_synonym u8 = "8 word"
type_synonym u16 = "16 word"
type_synonym u32 = "32 word"
type_synonym u64 = "64 word"
type_synonym wchar = "16 word"
type_synonym wstr = "wchar list"
type_synonym ntstatus = "32 word"
type_synonym bytes = "u8 list"

named_theorems state_simps \<open>projections and updates of component states\<close>
named_theorems inv_intros \<open>introduction rules for component invariants\<close>
named_theorems buf_simps \<open>byte buffer reads and writes\<close>

section \<open>Status codes\<close>

text \<open>\<open>NT_SUCCESS\<close> of the Windows headers: the signed reading of the status is not negative.\<close>

definition NT_SUCCESS :: "ntstatus \<Rightarrow> bool" where
  "NT_SUCCESS s \<longleftrightarrow> 0 \<le> sint s"

abbreviation (input) STATUS_SUCCESS :: ntstatus where "STATUS_SUCCESS \<equiv> 0"
abbreviation (input) STATUS_PENDING :: ntstatus where "STATUS_PENDING \<equiv> 0x103"
abbreviation (input) STATUS_REPARSE :: ntstatus where "STATUS_REPARSE \<equiv> 0x104"
abbreviation (input) STATUS_BUFFER_OVERFLOW :: ntstatus where "STATUS_BUFFER_OVERFLOW \<equiv> 0x80000005"
abbreviation (input) STATUS_INVALID_PARAMETER :: ntstatus where "STATUS_INVALID_PARAMETER \<equiv> 0xC000000D"
abbreviation (input) STATUS_INVALID_DEVICE_REQUEST :: ntstatus
  where "STATUS_INVALID_DEVICE_REQUEST \<equiv> 0xC0000010"
abbreviation (input) STATUS_ACCESS_DENIED :: ntstatus where "STATUS_ACCESS_DENIED \<equiv> 0xC0000022"
abbreviation (input) STATUS_OBJECT_NAME_INVALID :: ntstatus
  where "STATUS_OBJECT_NAME_INVALID \<equiv> 0xC0000033"
abbreviation (input) STATUS_OBJECT_NAME_NOT_FOUND :: ntstatus
  where "STATUS_OBJECT_NAME_NOT_FOUND \<equiv> 0xC0000034"
abbreviation (input) STATUS_OBJECT_NAME_COLLISION :: ntstatus
  where "STATUS_OBJECT_NAME_COLLISION \<equiv> 0xC0000035"
abbreviation (input) STATUS_OBJECT_PATH_NOT_FOUND :: ntstatus
  where "STATUS_OBJECT_PATH_NOT_FOUND \<equiv> 0xC000003A"
abbreviation (input) STATUS_INVALID_SID :: ntstatus where "STATUS_INVALID_SID \<equiv> 0xC0000078"
abbreviation (input) STATUS_INSUFFICIENT_RESOURCES :: ntstatus
  where "STATUS_INSUFFICIENT_RESOURCES \<equiv> 0xC000009A"
abbreviation (input) STATUS_FILE_IS_A_DIRECTORY :: ntstatus
  where "STATUS_FILE_IS_A_DIRECTORY \<equiv> 0xC00000BA"
abbreviation (input) STATUS_NOT_A_DIRECTORY :: ntstatus where "STATUS_NOT_A_DIRECTORY \<equiv> 0xC0000103"
abbreviation (input) STATUS_CANCELLED :: ntstatus where "STATUS_CANCELLED \<equiv> 0xC0000120"
abbreviation (input) STATUS_CANNOT_DELETE :: ntstatus where "STATUS_CANNOT_DELETE \<equiv> 0xC0000121"

lemma NT_SUCCESS_0 [simp]: "NT_SUCCESS 0"
  by (simp add: NT_SUCCESS_def)

section \<open>Single bits\<close>

text \<open>The mask with the single bit \<open>k\<close>.\<close>

definition B :: "nat \<Rightarrow> u32" where
  "B k = push_bit k 1"

lemma bit_B: "bit (B k) n \<longleftrightarrow> n = k \<and> k < 32"
  by (auto simp: B_def bit_exp_iff possible_bit_def)

lemma u32_eq_iff: "x = y \<longleftrightarrow> (\<forall>n < 32. bit x n = bit y n)" for x y :: u32
  by (auto intro: bit_word_eqI)

lemma and_B: "x AND B k \<noteq> 0 \<longleftrightarrow> bit x k"
  by (simp add: B_def bit_iff_and_push_bit_not_eq_0)

section \<open>Lists read by C integers\<close>

text \<open>
  An array element at a C \<open>int\<close> index: \<open>None\<close> outside the array, where the C
  access is undefined.
\<close>

definition idx :: "'a list \<Rightarrow> int \<Rightarrow> 'a option" where
  "idx xs i = (if 0 \<le> i \<and> i < int (length xs) then Some (xs ! nat i) else None)"

lemma idx_in [simp]: "0 \<le> i \<Longrightarrow> i < int (length xs) \<Longrightarrow> idx xs i = Some (xs ! nat i)"
  by (simp add: idx_def)

lemma idx_word [simp]:
  assumes "unat w < length xs"
  shows "idx xs (uint w) = Some (xs ! unat w)"
proof -
  have "uint w < int (length xs)"
    using assms unfolding uint_nat [of w] by (simp only: of_nat_less_iff)
  then show ?thesis by (simp add: idx_def)
qed

text \<open>The element at a C index that is known to be in range.\<close>

abbreviation at :: "'a list \<Rightarrow> int \<Rightarrow> 'a" where
  "at xs k \<equiv> xs ! nat k"

lemma idx_None_iff: "idx xs i = None \<longleftrightarrow> i < 0 \<or> int (length xs) \<le> i"
  by (auto simp: idx_def)

section \<open>Evaluating monadic programs\<close>

text \<open>
  Evaluating a monadic program on a concrete input: with this congruence rule the simplifier
  computes the first action of a bind before it looks at the rest.
\<close>

lemma bind_weak_cong: "x = y \<Longrightarrow> Option.bind x f = Option.bind y f"
  by simp

section \<open>Byte buffers\<close>

text \<open>Little-endian reading and writing of machine integers.\<close>

primrec le_dec :: "bytes \<Rightarrow> 'a::len word" where
  "le_dec [] = 0"
| "le_dec (b # bs) = ucast b OR push_bit 8 (le_dec bs)"

primrec le_enc :: "nat \<Rightarrow> 'a::len word \<Rightarrow> bytes" where
  "le_enc 0 w = []"
| "le_enc (Suc n) w = ucast w # le_enc n (drop_bit 8 w)"

lemma length_le_enc [simp]: "length (le_enc n w) = n"
  by (induction n arbitrary: w) auto

lemma bit_le_dec_enc:
  "k < LENGTH('a) \<Longrightarrow>
     bit (le_dec (le_enc n w) :: 'a::len word) k \<longleftrightarrow> k < 8 * n \<and> bit w k"
proof (induction n arbitrary: w k)
  case (Suc n)
  show ?case
  proof (cases "k < 8")
    case True
    with Suc.prems show ?thesis by (simp add: bit_simps)
  next
    case False
    with Suc.IH [of "k - 8" "drop_bit 8 w"] Suc.prems show ?thesis
      by (auto simp: bit_simps not_less)
  qed
qed simp

lemma le_dec_enc: "LENGTH('a) \<le> 8 * n \<Longrightarrow> le_dec (le_enc n w) = (w :: 'a::len word)"
  by (rule bit_word_eqI) (simp add: bit_le_dec_enc)

text \<open>Reading \<open>n\<close> bytes at an offset, and overwriting the bytes at an offset (\<open>memcpy\<close>).\<close>

definition buf_slice :: "bytes \<Rightarrow> nat \<Rightarrow> nat \<Rightarrow> bytes option" where
  "buf_slice b off n = (if off + n \<le> length b then Some (take n (drop off b)) else None)"

definition buf_put :: "bytes \<Rightarrow> nat \<Rightarrow> bytes \<Rightarrow> bytes option" where
  "buf_put b off src =
     (if off + length src \<le> length b
      then Some (take off b @ src @ drop (off + length src) b) else None)"

definition get16 :: "bytes \<Rightarrow> nat \<Rightarrow> u16 option" where
  "get16 b off = map_option le_dec (buf_slice b off 2)"

lemma buf_slice_Some [simp]: "off + n \<le> length b \<Longrightarrow> buf_slice b off n = Some (take n (drop off b))"
  by (simp add: buf_slice_def)

lemma buf_put_Some [simp]:
  "off + length src \<le> length b \<Longrightarrow>
     buf_put b off src = Some (take off b @ src @ drop (off + length src) b)"
  by (simp add: buf_put_def)

lemma buf_put_length: "buf_put b off src = Some b' \<Longrightarrow> length b' = length b"
  by (auto simp: buf_put_def split: if_splits)

text \<open>An array of 32-bit integers laid over bytes.\<close>

fun words32 :: "bytes \<Rightarrow> u32 list" where
  "words32 (a # b # c # d # bs) = le_dec [a, b, c, d] # words32 bs"
| "words32 _ = []"

definition bytes32 :: "u32 list \<Rightarrow> bytes" where
  "bytes32 ws = concat (map (le_enc 4) ws)"

lemma length_bytes32 [simp]: "length (bytes32 ws) = 4 * length ws"
  by (induction ws) (auto simp: bytes32_def)

lemma words32_enc [simp]: "words32 (le_enc 4 w @ bs) = w # words32 bs"
proof -
  have "le_dec (le_enc 4 w) = w" by (rule le_dec_enc) simp
  then show ?thesis by (simp add: numeral_eq_Suc del: le_dec.simps)
qed

lemma words32_bytes32 [simp]: "words32 (bytes32 ws) = ws"
  by (induction ws) (auto simp: bytes32_def)

lemma length_words32: "length (words32 bs) = length bs div 4"
  by (induction bs rule: words32.induct) auto

end
