(* ===== verification/QSort.thy ===== *)
theory QSort
  imports Prelude
begin

text \<open>
  The in-place sort of \<open>src/dll/dirbuf.c\<close> (\<open>FspFileSystemPartitionDirectoryBuffer\<close>,
  \<open>FspFileSystemQSortDirectoryBuffer\<close> and the macros \<open>exch\<close>, \<open>compexch\<close>, \<open>push\<close>,
  \<open>pop\<close>): a non-recursive quicksort with median-of-three pivots and an explicit stack of 64
  ints. The definitions are generic in the comparison \<open>lt\<close> (the macro \<open>less\<close>), as the macros
  are. \<open>None\<close> stands for an access outside the index, an overflow or underflow of the stack,
  or a loop that does not end; the theorems show that none of these happens.
\<close>

section \<open>The code\<close>

definition exch :: "'a list \<Rightarrow> int \<Rightarrow> int \<Rightarrow> 'a list option" where
  "exch xs a b = do {
     x \<leftarrow> idx xs a;
     y \<leftarrow> idx xs b;
     Some (xs[nat a := y, nat b := x]) }"

definition compexch :: "('a \<Rightarrow> 'a \<Rightarrow> bool) \<Rightarrow> 'a list \<Rightarrow> int \<Rightarrow> int \<Rightarrow> 'a list option" where
  "compexch lt xs a b = do {
     x \<leftarrow> idx xs a;
     y \<leftarrow> idx xs b;
     if lt y x then exch xs a b else Some xs }"

text \<open>\<open>while (less(Index[++i], v)) ;\<close> returns the last value of \<open>i\<close>.\<close>

partial_function (option) scan_up :: "('a \<Rightarrow> 'a \<Rightarrow> bool) \<Rightarrow> 'a list \<Rightarrow> 'a \<Rightarrow> int \<Rightarrow> int option" where
  "scan_up lt xs v i = do {
     x \<leftarrow> idx xs (i + 1);
     if lt x v then scan_up lt xs v (i + 1) else Some (i + 1) }"

text \<open>\<open>while (less(v, Index[--j])) if (j == l) break;\<close> returns the last value of \<open>j\<close>.\<close>

partial_function (option) scan_down ::
  "('a \<Rightarrow> 'a \<Rightarrow> bool) \<Rightarrow> 'a list \<Rightarrow> 'a \<Rightarrow> int \<Rightarrow> int \<Rightarrow> int option" where
  "scan_down lt xs v l j = do {
     x \<leftarrow> idx xs (j - 1);
     if lt v x then (if j - 1 = l then Some (j - 1) else scan_down lt xs v l (j - 1))
     else Some (j - 1) }"

partial_function (option) partition_loop ::
  "('a \<Rightarrow> 'a \<Rightarrow> bool) \<Rightarrow> 'a list \<Rightarrow> 'a \<Rightarrow> int \<Rightarrow> int \<Rightarrow> int \<Rightarrow> ('a list \<times> int) option" where
  "partition_loop lt xs v l i j = do {
     i' \<leftarrow> scan_up lt xs v i;
     j' \<leftarrow> scan_down lt xs v l j;
     if j' \<le> i' then Some (xs, i')
     else do {
       xs' \<leftarrow> exch xs i' j';
       partition_loop lt xs' v l i' j' } }"

definition FspFileSystemPartitionDirectoryBuffer ::
  "('a \<Rightarrow> 'a \<Rightarrow> bool) \<Rightarrow> 'a list \<Rightarrow> int \<Rightarrow> int \<Rightarrow> ('a list \<times> int) option" where
  "FspFileSystemPartitionDirectoryBuffer lt xs l r = do {
     v \<leftarrow> idx xs r;
     (xs', i) \<leftarrow> partition_loop lt xs v l (l - 1) r;
     xs'' \<leftarrow> exch xs' i r;
     Some (xs'', i) }"

text \<open>\<open>int stack[64]\<close>: the head of the list is the top of the stack.\<close>

definition push :: "int list \<Rightarrow> int \<Rightarrow> int list option" where
  "push stack i = (if length stack < 64 then Some (i # stack) else None)"

text \<open>
  One iteration of the inner loop body is spent per call; \<open>r \<le> l\<close> and the \<open>break\<close> both
  leave the inner loop for the pop.
\<close>

partial_function (option) qsort_loop ::
  "('a \<Rightarrow> 'a \<Rightarrow> bool) \<Rightarrow> 'a list \<Rightarrow> int \<Rightarrow> int \<Rightarrow> int list \<Rightarrow> 'a list option" where
  "qsort_loop lt xs l r stack =
     (if l < r then do {
        xs \<leftarrow> exch xs ((l + r) sdiv 2) (r - 1);
        xs \<leftarrow> compexch lt xs l (r - 1);
        xs \<leftarrow> compexch lt xs l r;
        xs \<leftarrow> compexch lt xs (r - 1) r;
        if r - 1 \<le> l + 1 then
          (case stack of
             [] \<Rightarrow> Some xs
           | r' # rest \<Rightarrow> (case rest of [] \<Rightarrow> None | l' # rest' \<Rightarrow> qsort_loop lt xs l' r' rest'))
        else do {
          (xs, i) \<leftarrow> FspFileSystemPartitionDirectoryBuffer lt xs (l + 1) (r - 1);
          if r - i < i - l then do {
            stack \<leftarrow> push stack l;
            stack \<leftarrow> push stack (i - 1);
            qsort_loop lt xs (i + 1) r stack }
          else do {
            stack \<leftarrow> push stack (i + 1);
            stack \<leftarrow> push stack r;
            qsort_loop lt xs l (i - 1) stack } } }
      else
        (case stack of
           [] \<Rightarrow> Some xs
         | r' # rest \<Rightarrow> (case rest of [] \<Rightarrow> None | l' # rest' \<Rightarrow> qsort_loop lt xs l' r' rest')))"

definition FspFileSystemQSortDirectoryBuffer ::
  "('a \<Rightarrow> 'a \<Rightarrow> bool) \<Rightarrow> 'a list \<Rightarrow> int \<Rightarrow> int \<Rightarrow> 'a list option" where
  "FspFileSystemQSortDirectoryBuffer lt xs l r = qsort_loop lt xs l r []"

declare scan_up.simps [code] scan_down.simps [code] partition_loop.simps [code]
  qsort_loop.simps [code]

lemmas qsort_exec = FspFileSystemQSortDirectoryBuffer_def
  FspFileSystemPartitionDirectoryBuffer_def qsort_loop.simps partition_loop.simps
  scan_up.simps scan_down.simps push_def exch_def compexch_def idx_def signed_divide_int_def

section \<open>Rearranging a segment\<close>

text \<open>
  \<open>seg_perm l r xs ys\<close>: \<open>ys\<close> is \<open>xs\<close> with the elements at \<open>l..r\<close> rearranged.
\<close>

definition seg_perm :: "int \<Rightarrow> int \<Rightarrow> 'a list \<Rightarrow> 'a list \<Rightarrow> bool" where
  "seg_perm l r xs ys \<longleftrightarrow>
     length ys = length xs \<and> mset ys = mset xs \<and>
     (\<forall>k. 0 \<le> k \<longrightarrow> (k < l \<or> r < k) \<longrightarrow> at ys k = at xs k) \<and>
     (\<forall>k. l \<le> k \<longrightarrow> k \<le> r \<longrightarrow> (\<exists>k'. l \<le> k' \<and> k' \<le> r \<and> at ys k = at xs k'))"

lemma seg_perm_refl [simp]: "seg_perm l r xs xs"
  by (auto simp: seg_perm_def)

lemma seg_perm_length: "seg_perm l r xs ys \<Longrightarrow> length ys = length xs"
  by (simp add: seg_perm_def)

lemma seg_perm_mset: "seg_perm l r xs ys \<Longrightarrow> mset ys = mset xs"
  by (simp add: seg_perm_def)

lemma seg_perm_outside: "seg_perm l r xs ys \<Longrightarrow> 0 \<le> k \<Longrightarrow> k < l \<or> r < k \<Longrightarrow> at ys k = at xs k"
  unfolding seg_perm_def by blast

lemma seg_perm_inside:
  assumes "seg_perm l r xs ys" "l \<le> k" "k \<le> r"
  obtains k' where "l \<le> k'" "k' \<le> r" "at ys k = at xs k'"
  using assms unfolding seg_perm_def by blast

lemma seg_perm_trans:
  assumes 1: "seg_perm l r xs ys" and 2: "seg_perm l r ys zs"
  shows "seg_perm l r xs zs"
proof -
  have "\<exists>k'. l \<le> k' \<and> k' \<le> r \<and> at zs k = at xs k'" if k: "l \<le> k" "k \<le> r" for k
    using seg_perm_inside [OF 2 k] seg_perm_inside [OF 1] by metis
  moreover have "at zs k = at xs k" if "0 \<le> k" "k < l \<or> r < k" for k
    using that seg_perm_outside [OF 1] seg_perm_outside [OF 2] by metis
  ultimately show ?thesis
    using 1 2 unfolding seg_perm_def by simp
qed

lemma seg_perm_mono:
  assumes 1: "seg_perm l r xs ys" and le: "l' \<le> l" "r \<le> r'" and nn: "0 \<le> l'"
  shows "seg_perm l' r' xs ys"
proof -
  have "\<exists>k'. l' \<le> k' \<and> k' \<le> r' \<and> at ys k = at xs k'" if k: "l' \<le> k" "k \<le> r'" for k
  proof (cases "l \<le> k \<and> k \<le> r")
    case True
    with 1 le show ?thesis by (meson order.trans seg_perm_inside)
  next
    case False
    with 1 k nn have "at ys k = at xs k" by (auto intro: seg_perm_outside)
    with k show ?thesis by blast
  qed
  with 1 le show ?thesis unfolding seg_perm_def by auto
qed

lemma exch_ok:
  assumes "0 \<le> a" "a < int (length xs)" "0 \<le> b" "b < int (length xs)"
  obtains ys where "exch xs a b = Some ys" "length ys = length xs" "mset ys = mset xs"
    "at ys a = at xs b" "at ys b = at xs a"
    "\<And>k. 0 \<le> k \<Longrightarrow> k \<noteq> a \<Longrightarrow> k \<noteq> b \<Longrightarrow> at ys k = at xs k"
proof
  show "exch xs a b = Some (xs[nat a := at xs b, nat b := at xs a])"
    using assms by (simp add: exch_def)
  show "mset (xs[nat a := at xs b, nat b := at xs a]) = mset xs"
    using assms by (intro mset_swap) auto
qed (use assms in \<open>auto simp: nth_list_update nat_eq_iff\<close>)

lemma exch_seg_perm:
  assumes "exch xs a b = Some ys" "l \<le> a" "a \<le> r" "l \<le> b" "b \<le> r" "0 \<le> l" "r < int (length xs)"
  shows "seg_perm l r xs ys"
proof -
  have "0 \<le> a" "a < int (length xs)" "0 \<le> b" "b < int (length xs)"
    using assms by auto
  then obtain ys' where ys': "exch xs a b = Some ys'" "length ys' = length xs" "mset ys' = mset xs"
    "at ys' a = at xs b" "at ys' b = at xs a"
    "\<And>k. 0 \<le> k \<Longrightarrow> k \<noteq> a \<Longrightarrow> k \<noteq> b \<Longrightarrow> at ys' k = at xs k"
    by (rule exch_ok) blast
  have "\<exists>k'. l \<le> k' \<and> k' \<le> r \<and> at ys' k = at xs k'" if "l \<le> k" "k \<le> r" for k
    using that assms ys'(4-6) by (cases "k = a"; cases "k = b") force+
  with ys' assms show ?thesis by (auto simp: seg_perm_def)
qed

section \<open>Comparisons\<close>

text \<open>
  What the sort needs of its comparison: \<open>lt\<close> is the strict part of a total preorder. The
  order \<open>le\<close> is the one the result is sorted by.
\<close>

locale weak_order =
  fixes lt :: "'a \<Rightarrow> 'a \<Rightarrow> bool"
  assumes asym: "lt x y \<Longrightarrow> \<not> lt y x"
    and neg_trans: "\<not> lt y x \<Longrightarrow> \<not> lt z y \<Longrightarrow> \<not> lt z x"
begin

abbreviation le :: "'a \<Rightarrow> 'a \<Rightarrow> bool" where
  "le x y \<equiv> \<not> lt y x"

lemma irrefl [simp]: "\<not> lt x x"
  using asym by blast

lemma le_lt_trans: "le x y \<Longrightarrow> lt y z \<Longrightarrow> lt x z"
  using neg_trans by blast

lemma lt_le_trans: "lt x y \<Longrightarrow> le y z \<Longrightarrow> lt x z"
  using neg_trans by blast

section \<open>The scans\<close>

lemma scan_up_ok:
  assumes "0 \<le> i + 1" "i < R" "R < int (length xs)" "at xs R = v"
  shows "\<exists>i'. scan_up lt xs v i = Some i' \<and> i < i' \<and> i' \<le> R \<and>
           (\<forall>k. i < k \<longrightarrow> k < i' \<longrightarrow> lt (at xs k) v) \<and> le v (at xs i')"
  using assms
proof (induction "nat (R - i)" arbitrary: i rule: less_induct)
  case less
  show ?case
  proof (cases "lt (at xs (i + 1)) v")
    case False
    with less.prems show ?thesis by (subst scan_up.simps) force
  next
    case True
    with less.prems have "i + 1 \<noteq> R" by auto
    with less.prems have "i + 1 < R" "0 \<le> i + 1 + 1" by auto
    with less.hyps [of "i + 1"] less.prems obtain i' where i':
      "scan_up lt xs v (i + 1) = Some i'" "i + 1 < i'" "i' \<le> R"
      "\<forall>k. i + 1 < k \<longrightarrow> k < i' \<longrightarrow> lt (at xs k) v" "le v (at xs i')"
      by auto
    moreover have "scan_up lt xs v i = Some i'"
      using True less.prems i'(1) by (subst scan_up.simps) simp
    moreover have "lt (at xs k) v" if "i < k" "k < i'" for k
      using that True i'(4) by (cases "k = i + 1") auto
    ultimately show ?thesis by force
  qed
qed

lemma scan_down_ok:
  assumes "0 \<le> l" "l < j" "j \<le> int (length xs)"
  shows "\<exists>j'. scan_down lt xs v l j = Some j' \<and> l \<le> j' \<and> j' < j \<and>
           (\<forall>k. j' < k \<longrightarrow> k < j \<longrightarrow> lt v (at xs k)) \<and> (le (at xs j') v \<or> j' = l)"
  using assms
proof (induction "nat (j - l)" arbitrary: j rule: less_induct)
  case less
  show ?case
  proof (cases "lt v (at xs (j - 1)) \<and> j - 1 \<noteq> l")
    case False
    with less.prems show ?thesis by (subst scan_down.simps) force
  next
    case True
    with less.prems have "l < j - 1" by auto
    with less.hyps [of "j - 1"] less.prems obtain j' where j':
      "scan_down lt xs v l (j - 1) = Some j'" "l \<le> j'" "j' < j - 1"
      "\<forall>k. j' < k \<longrightarrow> k < j - 1 \<longrightarrow> lt v (at xs k)" "le (at xs j') v \<or> j' = l"
      by auto
    moreover have "scan_down lt xs v l j = Some j'"
      using True less.prems j'(1) by (subst scan_down.simps) simp
    moreover have "lt v (at xs k)" if "j' < k" "k < j" for k
      using that True j'(4) by (cases "k = j - 1") auto
    ultimately show ?thesis by force
  qed
qed

section \<open>Partitioning\<close>

text \<open>
  What holds at the top of the partition loop: the elements up to \<open>i\<close> are not above the
  pivot \<open>v\<close>, those from \<open>j\<close> on are not below it, and the pivot waits at \<open>r\<close>.
\<close>

definition part_inv :: "'a list \<Rightarrow> 'a \<Rightarrow> int \<Rightarrow> int \<Rightarrow> int \<Rightarrow> int \<Rightarrow> bool" where
  "part_inv xs v l r i j \<longleftrightarrow> l - 1 \<le> i \<and> i < j \<and> l < j \<and> j \<le> r \<and> at xs r = v \<and>
     (\<forall>k. l \<le> k \<longrightarrow> k \<le> i \<longrightarrow> le (at xs k) v) \<and> (\<forall>k. j \<le> k \<longrightarrow> k \<le> r \<longrightarrow> le v (at xs k))"

lemma partition_loop_ok:
  assumes "0 \<le> l" "r < int (length xs)" "part_inv xs v l r i j"
  shows "\<exists>ys i'. partition_loop lt xs v l i j = Some (ys, i') \<and> seg_perm l (r - 1) xs ys \<and>
           l \<le> i' \<and> i' \<le> r \<and> at ys r = v \<and>
           (\<forall>k. l \<le> k \<longrightarrow> k < i' \<longrightarrow> le (at ys k) v) \<and>
           (\<forall>k. i' \<le> k \<longrightarrow> k \<le> r \<longrightarrow> le v (at ys k))"
  using assms
proof (induction "nat (j - i)" arbitrary: xs i j rule: less_induct)
  case less
  note inv = less.prems(3) [unfolded part_inv_def]
  obtain i' where i': "scan_up lt xs v i = Some i'" "i < i'" "i' \<le> r"
    "\<And>k. i < k \<Longrightarrow> k < i' \<Longrightarrow> lt (at xs k) v" "le v (at xs i')"
    using scan_up_ok [of i r xs v] less.prems inv by auto
  obtain j' where j': "scan_down lt xs v l j = Some j'" "l \<le> j'" "j' < j"
    "\<And>k. j' < k \<Longrightarrow> k < j \<Longrightarrow> lt v (at xs k)" "le (at xs j') v \<or> j' = l"
    using scan_down_ok [of l j xs v] less.prems inv by auto
  have low: "le (at xs k) v" if "l \<le> k" "k < i'" for k
    using that inv i'(4) asym by (cases "k \<le> i") auto
  have high: "le v (at xs k)" if "j' < k" "k \<le> r" for k
    using that inv j'(4) asym by (cases "j \<le> k") auto
  show ?case
  proof (cases "j' \<le> i'")
    case True
    have "le v (at xs k)" if "i' \<le> k" "k \<le> r" for k
      using that high i'(5) True by (cases "k = i'") auto
    moreover have "partition_loop lt xs v l i j = Some (xs, i')"
      using i'(1) j'(1) True by (subst partition_loop.simps) simp
    ultimately show ?thesis
      using low i' inv by auto
  next
    case False
    then have ij: "0 \<le> i'" "i' < j'" "j' < r" "l \<le> i'"
      using i' j' inv less.prems by auto
    then obtain ys where ys: "exch xs i' j' = Some ys" "length ys = length xs"
      "mset ys = mset xs" "at ys i' = at xs j'" "at ys j' = at xs i'"
      "\<And>k. 0 \<le> k \<Longrightarrow> k \<noteq> i' \<Longrightarrow> k \<noteq> j' \<Longrightarrow> at ys k = at xs k"
      using less.prems by (elim exch_ok [of i' xs j', rotated 4]) auto
    have "le (at ys k) v" if "l \<le> k" "k \<le> i'" for k
      using that low ys(4) ys(6) [of k] j'(5) ij less.prems by (cases "k = i'") auto
    moreover have "le v (at ys k)" if "j' \<le> k" "k \<le> r" for k
      using that high ys(5) ys(6) [of k] i'(5) ij by (cases "k = j'") auto
    ultimately have "part_inv ys v l r i' j'"
      using ij ys(6) [of r] inv by (auto simp: part_inv_def)
    then obtain zs i'' where zs: "partition_loop lt ys v l i' j' = Some (zs, i'')"
      "seg_perm l (r - 1) ys zs" "l \<le> i''" "i'' \<le> r" "at zs r = v"
      "\<forall>k. l \<le> k \<longrightarrow> k < i'' \<longrightarrow> le (at zs k) v"
      "\<forall>k. i'' \<le> k \<longrightarrow> k \<le> r \<longrightarrow> le v (at zs k)"
      using less.hyps [of j' i' ys] less.prems ys(2) i'(2) j'(3) ij by auto
    have "seg_perm l (r - 1) xs ys"
      using ij less.prems by (intro exch_seg_perm [OF ys(1)]) auto
    then have "seg_perm l (r - 1) xs zs"
      using zs(2) by (rule seg_perm_trans)
    moreover have "partition_loop lt xs v l i j = Some (zs, i'')"
      using i'(1) j'(1) False ys(1) zs(1) by (subst partition_loop.simps) simp
    ultimately show ?thesis using zs by blast
  qed
qed

lemma partition_ok:
  assumes "0 \<le> l" "l < r" "r < int (length xs)"
  obtains ys i where "FspFileSystemPartitionDirectoryBuffer lt xs l r = Some (ys, i)"
    "seg_perm l r xs ys" "l \<le> i" "i \<le> r" "at ys i = at xs r"
    "\<And>k. l \<le> k \<Longrightarrow> k < i \<Longrightarrow> le (at ys k) (at ys i)"
    "\<And>k. i < k \<Longrightarrow> k \<le> r \<Longrightarrow> le (at ys i) (at ys k)"
proof -
  have "part_inv xs (at xs r) l r (l - 1) r"
    using assms by (auto simp: part_inv_def)
  from partition_loop_ok [OF assms(1,3) this]
  obtain zs i where zs: "partition_loop lt xs (at xs r) l (l - 1) r = Some (zs, i)"
    "seg_perm l (r - 1) xs zs" "l \<le> i" "i \<le> r" "at zs r = at xs r"
    "\<And>k. l \<le> k \<Longrightarrow> k < i \<Longrightarrow> le (at zs k) (at xs r)"
    "\<And>k. i \<le> k \<Longrightarrow> k \<le> r \<Longrightarrow> le (at xs r) (at zs k)"
    by blast
  have len: "length zs = length xs" using zs(2) by (rule seg_perm_length)
  obtain ys where ys: "exch zs i r = Some ys" "at ys i = at zs r" "at ys r = at zs i"
      "\<And>k. 0 \<le> k \<Longrightarrow> k \<noteq> i \<Longrightarrow> k \<noteq> r \<Longrightarrow> at ys k = at zs k"
    using exch_ok [of i zs r] zs(3,4) len assms by auto
  have "seg_perm l r zs ys"
    using zs(3,4) len assms by (intro exch_seg_perm [OF ys(1)]) auto
  moreover have "seg_perm l r xs zs"
    using zs(2) assms by (elim seg_perm_mono) auto
  ultimately have perm: "seg_perm l r xs ys" by (blast intro: seg_perm_trans)
  have "le (at ys i) (at ys k)" if "i < k" "k \<le> r" for k
    using that zs(3,5,7) ys(2-4) assms by (cases "k = r") auto
  moreover have "le (at ys k) (at ys i)" if "l \<le> k" "k < i" for k
    using that zs(3-6) ys(2,4) assms by auto
  moreover have "FspFileSystemPartitionDirectoryBuffer lt xs l r = Some (ys, i)"
    using assms zs(1) ys(1) by (simp add: FspFileSystemPartitionDirectoryBuffer_def)
  ultimately show ?thesis
    using that perm zs(3,4,5) ys(2) by simp
qed

end

section \<open>Median of three\<close>

definition median3 :: "('a \<Rightarrow> 'a \<Rightarrow> bool) \<Rightarrow> 'a list \<Rightarrow> int \<Rightarrow> int \<Rightarrow> 'a list option" where
  "median3 lt xs l r = do {
     xs \<leftarrow> exch xs ((l + r) sdiv 2) (r - 1);
     xs \<leftarrow> compexch lt xs l (r - 1);
     xs \<leftarrow> compexch lt xs l r;
     compexch lt xs (r - 1) r }"

text \<open>The segments that wait on the stack, the topmost first.\<close>

fun stack_segs :: "int list \<Rightarrow> (int \<times> int) list" where
  "stack_segs (r # l # stack) = (l, r) # stack_segs stack"
| "stack_segs _ = []"

abbreviation in_seg :: "int \<Rightarrow> int \<times> int \<Rightarrow> bool" where
  "in_seg k p \<equiv> fst p \<le> k \<and> k \<le> snd p"

abbreviation seg_size :: "int \<times> int \<Rightarrow> nat" where
  "seg_size p \<equiv> nat (snd p - fst p + 1)"

text \<open>The smaller part is sorted first, so the sizes on the stack at least double downwards.\<close>

fun depth_ok :: "nat \<Rightarrow> (int \<times> int) list \<Rightarrow> bool" where
  "depth_ok N [] = True"
| "depth_ok N (p # ps) = (seg_size p * 2 ^ length ps \<le> N \<and> depth_ok N ps)"

definition seg_work :: "(int \<times> int) list \<Rightarrow> nat" where
  "seg_work ps = (\<Sum>p\<leftarrow>ps. 2 * seg_size p + 1)"

lemma length_stack_segs: "even (length stack) \<Longrightarrow> 2 * length (stack_segs stack) = length stack"
  by (induction stack rule: stack_segs.induct) auto

lemma depth_room:
  assumes "depth_ok N (p # stack_segs stack)" "4 \<le> seg_size p" "N < 2 ^ 33" "even (length stack)"
  shows "length stack + 2 \<le> 64"
proof -
  have "4 * 2 ^ length (stack_segs stack) \<le> seg_size p * 2 ^ length (stack_segs stack)"
    using assms(2) by (intro mult_le_mono1)
  also have "\<dots> \<le> N" using assms(1) by simp
  finally have "(2::nat) ^ (length (stack_segs stack) + 2) < 2 ^ 33"
    using assms(3) by (simp add: power_add)
  then have "length (stack_segs stack) + 2 < 33"
    by (rule power_less_imp_less_exp [rotated]) simp
  with length_stack_segs [OF assms(4)] show ?thesis by simp
qed

context weak_order
begin

lemma compexch_ok:
  assumes "0 \<le> a" "a < int (length xs)" "0 \<le> b" "b < int (length xs)"
  obtains ys where "compexch lt xs a b = Some ys" "ys = xs \<and> le (at xs a) (at xs b)"
  | ys where "compexch lt xs a b = Some ys" "exch xs a b = Some ys" "lt (at xs b) (at xs a)"
proof -
  obtain ys where "exch xs a b = Some ys"
    using exch_ok [OF assms] by blast
  with that assms show thesis
    by (cases "lt (at xs b) (at xs a)") (auto simp: compexch_def)
qed

lemma compexch_sorts:
  assumes "l \<le> a" "a \<le> b" "b \<le> r" "0 \<le> l" "r < int (length xs)"
  shows "\<exists>ys. compexch lt xs a b = Some ys \<and> seg_perm l r xs ys \<and> le (at ys a) (at ys b) \<and>
           le (at ys a) (at xs a) \<and> le (at xs b) (at ys b) \<and>
           (at ys a = at xs a \<or> at ys a = at xs b) \<and> (at ys b = at xs a \<or> at ys b = at xs b) \<and>
           (\<forall>k. 0 \<le> k \<longrightarrow> k \<noteq> a \<longrightarrow> k \<noteq> b \<longrightarrow> at ys k = at xs k)"
proof -
  have "0 \<le> a" "a < int (length xs)" "0 \<le> b" "b < int (length xs)"
    using assms by auto
  then show ?thesis
  proof (cases rule: compexch_ok)
    case (1 ys)
    then show ?thesis by auto
  next
    case (2 ys)
    have "seg_perm l r xs ys"
      using assms by (intro exch_seg_perm [OF 2(2)]) auto
    moreover obtain ys' where "exch xs a b = Some ys'" "at ys' a = at xs b" "at ys' b = at xs a"
      "\<And>k. 0 \<le> k \<Longrightarrow> k \<noteq> a \<Longrightarrow> k \<noteq> b \<Longrightarrow> at ys' k = at xs k"
      using exch_ok [of a xs b] assms by auto
    ultimately show ?thesis using 2 asym by auto
  qed
qed

lemma median3_ok:
  assumes "0 \<le> l" "l < r" "r < int (length xs)"
  obtains ys where "median3 lt xs l r = Some ys" "seg_perm l r xs ys"
    "le (at ys l) (at ys (r - 1))" "le (at ys (r - 1)) (at ys r)"
proof -
  have mid: "l \<le> (l + r) sdiv 2" "(l + r) sdiv 2 \<le> r"
    using assms by (auto simp: signed_divide_int_def sgn_if)
  obtain x1 where x1: "exch xs ((l + r) sdiv 2) (r - 1) = Some x1"
    using exch_ok [of "(l + r) sdiv 2" xs "r - 1"] mid assms by auto
  have p1: "seg_perm l r xs x1"
    using mid assms by (intro exch_seg_perm [OF x1]) auto
  note len1 = seg_perm_length [OF p1]
  obtain x2 where x2: "compexch lt x1 l (r - 1) = Some x2" "seg_perm l r x1 x2"
      "le (at x2 l) (at x2 (r - 1))"
    using compexch_sorts [of l l "r - 1" r x1] assms len1 by auto
  note len2 = seg_perm_length [OF x2(2)]
  obtain x3 where x3: "compexch lt x2 l r = Some x3" "seg_perm l r x2 x3"
      "le (at x3 l) (at x3 r)" "le (at x3 l) (at x2 l)"
      "\<And>k. 0 \<le> k \<Longrightarrow> k \<noteq> l \<Longrightarrow> k \<noteq> r \<Longrightarrow> at x3 k = at x2 k"
    using compexch_sorts [of l l r r x2] assms len1 len2 by auto
  note len3 = seg_perm_length [OF x3(2)]
  have l3: "le (at x3 l) (at x3 (r - 1))"
    using neg_trans [OF x3(4) x2(3)] x3(5) [of "r - 1"] assms by (cases "r - 1 = l") auto
  obtain x4 where x4: "compexch lt x3 (r - 1) r = Some x4" "seg_perm l r x3 x4"
      "le (at x4 (r - 1)) (at x4 r)"
      "at x4 (r - 1) = at x3 (r - 1) \<or> at x4 (r - 1) = at x3 r"
      "\<And>k. 0 \<le> k \<Longrightarrow> k \<noteq> r - 1 \<Longrightarrow> k \<noteq> r \<Longrightarrow> at x4 k = at x3 k"
    using compexch_sorts [of l "r - 1" r r x3] assms len1 len2 len3 by auto
  have "le (at x4 l) (at x4 (r - 1))"
    using l3 x3(3) x4(4,5) assms by (cases "r - 1 = l") auto
  moreover have "seg_perm l r xs x4"
    using p1 x2(2) x3(2) x4(2) by (blast intro: seg_perm_trans)
  moreover have "median3 lt xs l r = Some x4"
    by (simp add: median3_def x1 x2(1) x3(1) x4(1))
  ultimately show ?thesis using that x4(3) by blast
qed

section \<open>The whole sort\<close>

text \<open>
  The invariant of the loop over the segments that are still to be sorted (the current one and
  those on the stack): two elements that are out of order lie in the same segment.
\<close>

definition segs_inv :: "'a list \<Rightarrow> (int \<times> int) list \<Rightarrow> bool" where
  "segs_inv xs ps \<longleftrightarrow>
     (\<forall>p \<in> set ps. 0 \<le> fst p \<and> snd p < int (length xs)) \<and>
     sorted_wrt (\<lambda>p q. \<forall>k. \<not> (in_seg k p \<and> in_seg k q)) ps \<and>
     (\<forall>a b. 0 \<le> a \<longrightarrow> a < b \<longrightarrow> b < int (length xs) \<longrightarrow>
        (\<exists>p \<in> set ps. in_seg a p \<and> in_seg b p) \<or> le (at xs a) (at xs b))"

lemma segs_inv_refine:
  assumes inv: "segs_inv xs ((l, r) # ps)" and perm: "seg_perm l r xs ys"
    and new: "\<And>p k. p \<in> set qs \<Longrightarrow> in_seg k p \<Longrightarrow> l \<le> k \<and> k \<le> r"
    and bnd: "\<And>p. p \<in> set qs \<Longrightarrow> 0 \<le> fst p \<and> snd p < int (length xs)"
    and dis: "sorted_wrt (\<lambda>p q. \<forall>k. \<not> (in_seg k p \<and> in_seg k q)) qs"
    and ord: "\<And>a b. l \<le> a \<Longrightarrow> a < b \<Longrightarrow> b \<le> r \<Longrightarrow>
       (\<exists>p \<in> set qs. in_seg a p \<and> in_seg b p) \<or> le (at ys a) (at ys b)"
  shows "segs_inv ys (qs @ ps)"
proof -
  have lr: "0 \<le> l" "r < int (length xs)" using inv by (auto simp: segs_inv_def)
  have apart: "\<not> (in_seg k (l, r) \<and> in_seg k p)" if "p \<in> set ps" for k p
    using inv that by (auto simp: segs_inv_def)
  have old: "(\<exists>p \<in> set ps. in_seg a p \<and> in_seg b p) \<or> le (at xs a) (at xs b)"
    if "0 \<le> a" "a < b" "b < int (length xs)" "\<not> (in_seg a (l, r) \<and> in_seg b (l, r))" for a b
  proof -
    have "(\<exists>p \<in> set ((l, r) # ps). in_seg a p \<and> in_seg b p) \<or> le (at xs a) (at xs b)"
      using inv that(1-3) unfolding segs_inv_def by blast
    with that(4) show ?thesis by auto
  qed
  have "(\<exists>p \<in> set (qs @ ps). in_seg a p \<and> in_seg b p) \<or> le (at ys a) (at ys b)"
    if ab: "0 \<le> a" "a < b" "b < int (length ys)" for a b
  proof -
    have b: "b < int (length xs)" using ab seg_perm_length [OF perm] by simp
    consider (both) "l \<le> a" "b \<le> r" | (left) "l \<le> a" "a \<le> r" "r < b"
      | (right) "a < l" "l \<le> b" "b \<le> r" | (none) "a < l \<or> r < a" "b < l \<or> r < b"
      using ab by linarith
    then show ?thesis
    proof cases
      case both
      with ord ab show ?thesis by auto
    next
      case left
      then obtain a' where a': "l \<le> a'" "a' \<le> r" "at ys a = at xs a'"
        using perm by (meson seg_perm_inside)
      with old [of a' b] left b apart lr have "le (at xs a') (at xs b)" by force
      with a'(3) seg_perm_outside [OF perm, of b] left ab show ?thesis by simp
    next
      case right
      then obtain b' where b': "l \<le> b'" "b' \<le> r" "at ys b = at xs b'"
        using perm by (meson seg_perm_inside)
      with old [of a b'] right ab b apart lr have "le (at xs a) (at xs b')" by force
      with b'(3) seg_perm_outside [OF perm, of a] right ab show ?thesis by simp
    next
      case none
      with old [of a b] ab b seg_perm_outside [OF perm] show ?thesis by auto
    qed
  qed
  moreover have "\<forall>k. \<not> (in_seg k p \<and> in_seg k q)" if "p \<in> set qs" "q \<in> set ps" for p q
    using new [OF that(1)] apart [OF that(2)] by fastforce
  ultimately show ?thesis
    using inv bnd dis seg_perm_length [OF perm]
    by (auto simp: segs_inv_def sorted_wrt_append)
qed

lemma segs_inv_sorted: "segs_inv xs [] \<Longrightarrow> sorted_wrt le xs"
proof (unfold sorted_wrt_iff_nth_less, intro allI impI)
  fix i j assume "segs_inv xs []" "i < j" "j < length xs"
  then show "le (xs ! i) (xs ! j)"
    unfolding segs_inv_def by (elim conjE allE [of _ "int i"] allE [of _ "int j"]) auto
qed

end

text \<open>The loop with its median-of-three steps folded, and the pop it ends an iteration with.\<close>

definition qsort_pop :: "('a \<Rightarrow> 'a \<Rightarrow> bool) \<Rightarrow> 'a list \<Rightarrow> int list \<Rightarrow> 'a list option" where
  "qsort_pop lt xs stack =
     (case stack of
        [] \<Rightarrow> Some xs
      | r' # rest \<Rightarrow> (case rest of [] \<Rightarrow> None | l' # rest' \<Rightarrow> qsort_loop lt xs l' r' rest'))"

lemma qsort_loop_eq:
  "qsort_loop lt xs l r stack =
     (if l < r then do {
        xs \<leftarrow> median3 lt xs l r;
        if r - 1 \<le> l + 1 then qsort_pop lt xs stack
        else do {
          (xs, i) \<leftarrow> FspFileSystemPartitionDirectoryBuffer lt xs (l + 1) (r - 1);
          if r - i < i - l then do {
            stack \<leftarrow> push stack l;
            stack \<leftarrow> push stack (i - 1);
            qsort_loop lt xs (i + 1) r stack }
          else do {
            stack \<leftarrow> push stack (i + 1);
            stack \<leftarrow> push stack r;
            qsort_loop lt xs l (i - 1) stack } } }
      else qsort_pop lt xs stack)"
  unfolding median3_def qsort_pop_def by (subst qsort_loop.simps) simp

context weak_order
begin

lemma partition_step:
  assumes "0 \<le> l" "r < int (length xs)" "l + 1 < r - 1"
    and med: "median3 lt xs l r = Some xs1" "seg_perm l r xs xs1"
      "le (at xs1 l) (at xs1 (r - 1))" "le (at xs1 (r - 1)) (at xs1 r)"
  obtains ys i where
    "FspFileSystemPartitionDirectoryBuffer lt xs1 (l + 1) (r - 1) = Some (ys, i)"
    "seg_perm l r xs ys" "l + 1 \<le> i" "i \<le> r - 1"
    "\<And>a b. l \<le> a \<Longrightarrow> a < b \<Longrightarrow> b \<le> r \<Longrightarrow>
       in_seg a (l, i - 1) \<and> in_seg b (l, i - 1) \<or> in_seg a (i + 1, r) \<and> in_seg b (i + 1, r) \<or>
       le (at ys a) (at ys b)"
proof -
  note len = seg_perm_length [OF med(2)]
  obtain ys i where p: "FspFileSystemPartitionDirectoryBuffer lt xs1 (l + 1) (r - 1) = Some (ys, i)"
    "seg_perm (l + 1) (r - 1) xs1 ys" "l + 1 \<le> i" "i \<le> r - 1" "at ys i = at xs1 (r - 1)"
    "\<And>k. l + 1 \<le> k \<Longrightarrow> k < i \<Longrightarrow> le (at ys k) (at ys i)"
    "\<And>k. i < k \<Longrightarrow> k \<le> r - 1 \<Longrightarrow> le (at ys i) (at ys k)"
    using partition_ok [of "l + 1" "r - 1" xs1] assms len by auto
  have low: "le (at ys k) (at ys i)" if "l \<le> k" "k < i" for k
    using that p(5,6) med(3) seg_perm_outside [OF p(2), of l] assms by (cases "k = l") auto
  have high: "le (at ys i) (at ys k)" if "i < k" "k \<le> r" for k
    using that p(5,7) med(4) seg_perm_outside [OF p(2), of r] assms by (cases "k = r") auto
  have "seg_perm l r xs1 ys"
    using p(2) assms by (elim seg_perm_mono) auto
  with med(2) have perm: "seg_perm l r xs ys" by (rule seg_perm_trans)
  have "le (at ys a) (at ys b)" if "l \<le> a" "b \<le> r" "a \<le> i" "i \<le> b" "a < b" for a b
  proof -
    have "a = i \<or> le (at ys a) (at ys i)" "b = i \<or> le (at ys i) (at ys b)"
      using that low [of a] high [of b] by linarith+
    then show ?thesis using neg_trans by auto
  qed
  then have "in_seg a (l, i - 1) \<and> in_seg b (l, i - 1) \<or>
      in_seg a (i + 1, r) \<and> in_seg b (i + 1, r) \<or> le (at ys a) (at ys b)"
    if "l \<le> a" "a < b" "b \<le> r" for a b
    using that by fastforce
  with that p(1,3,4) perm show thesis by blast
qed

lemma qsort_loop_ok:
  assumes "segs_inv xs ((l, r) # stack_segs stack)" "depth_ok N ((l, r) # stack_segs stack)"
    "N < 2 ^ 33" "even (length stack)"
  shows "\<exists>ys. qsort_loop lt xs l r stack = Some ys \<and> mset ys = mset xs \<and> sorted_wrt le ys"
  using assms
proof (induction "seg_work ((l, r) # stack_segs stack)" arbitrary: xs l r stack rule: less_induct)
  case less
  have lr: "0 \<le> l" "r < int (length xs)" using less.prems(1) by (auto simp: segs_inv_def)
  have pop: "\<exists>ys. qsort_pop lt zs stack = Some ys \<and> mset ys = mset zs \<and> sorted_wrt le ys"
    if zs: "segs_inv zs (stack_segs stack)" for zs
  proof (cases stack rule: stack_segs.cases)
    case (1 r' l' rest)
    with less.hyps [of l' r' rest zs] zs less.prems show ?thesis
      by (simp add: qsort_pop_def seg_work_def)
  qed (use zs less.prems(4) in \<open>auto simp: qsort_pop_def intro: segs_inv_sorted\<close>)
  show ?case
  proof (cases "l < r")
    case False
    have "segs_inv xs ([] @ stack_segs stack)"
      using False by (intro segs_inv_refine [OF less.prems(1)]) auto
    with pop False show ?thesis by (subst qsort_loop_eq) simp
  next
    case True
    then obtain xs1 where med: "median3 lt xs l r = Some xs1" "seg_perm l r xs xs1"
      "le (at xs1 l) (at xs1 (r - 1))" "le (at xs1 (r - 1)) (at xs1 r)"
      using median3_ok lr by blast
    show ?thesis
    proof (cases "r - 1 \<le> l + 1")
      case small: True
      have "le (at xs1 a) (at xs1 b)" if "l \<le> a" "a < b" "b \<le> r" for a b
      proof -
        have "a = l \<and> b = r - 1 \<or> a = l \<and> b = r \<or> a = r - 1 \<and> b = r"
          using that small True by linarith
        with med(3,4) neg_trans show ?thesis by blast
      qed
      then have "segs_inv xs1 ([] @ stack_segs stack)"
        by (intro segs_inv_refine [OF less.prems(1) med(2)]) auto
      then obtain ys where "qsort_pop lt xs1 stack = Some ys" "mset ys = mset xs1"
          "sorted_wrt le ys"
        using pop by auto
      with seg_perm_mset [OF med(2)] show ?thesis
        using True small med(1) by (subst qsort_loop_eq) simp
    next
      case False
      then have big: "l + 1 < r - 1" by simp
      obtain ys i where p:
        "FspFileSystemPartitionDirectoryBuffer lt xs1 (l + 1) (r - 1) = Some (ys, i)"
        "seg_perm l r xs ys" "l + 1 \<le> i" "i \<le> r - 1"
        and ord: "\<And>a b. l \<le> a \<Longrightarrow> a < b \<Longrightarrow> b \<le> r \<Longrightarrow>
          in_seg a (l, i - 1) \<and> in_seg b (l, i - 1) \<or>
          in_seg a (i + 1, r) \<and> in_seg b (i + 1, r) \<or> le (at ys a) (at ys b)"
        using partition_step [OF lr big med] by blast
      have segs: "segs_inv ys ([c, q] @ stack_segs stack)"
        if cq: "{c, q} = {(l, i - 1), (i + 1, r)}" for c q
      proof (rule segs_inv_refine [OF less.prems(1) p(2)])
        fix a b assume "l \<le> a" "a < b" "b \<le> r"
        from ord [OF this] show "(\<exists>p \<in> set [c, q]. in_seg a p \<and> in_seg b p) \<or> le (at ys a) (at ys b)"
          using cq by (simp only: doubleton_eq_iff) auto
      qed (use cq p(3,4) lr in \<open>auto simp: doubleton_eq_iff\<close>)
      have room: "length stack + 2 \<le> 64"
        using less.prems big by (intro depth_room [of N "(l, r)"]) auto
      have dep: "depth_ok N (c # q # stack_segs stack)"
        if "2 * seg_size c \<le> seg_size (l, r)" "seg_size q \<le> seg_size (l, r)" for c q
      proof -
        have N: "seg_size (l, r) * 2 ^ length (stack_segs stack) \<le> N"
          using less.prems(2) by simp
        have "seg_size c * 2 ^ Suc (length (stack_segs stack)) \<le> N"
          using order.trans [OF mult_le_mono1 [OF that(1)] N] by (simp add: ac_simps)
        moreover have "seg_size q * 2 ^ length (stack_segs stack) \<le> N"
          using order.trans [OF mult_le_mono1 [OF that(2)] N] .
        ultimately show ?thesis using less.prems(2) by simp
      qed
      have mset: "mset ys = mset xs" using p(2) by (rule seg_perm_mset)
      show ?thesis
      proof (cases "r - i < i - l")
        case right: True
        have "\<exists>zs. qsort_loop lt ys (i + 1) r ((i - 1) # l # stack) = Some zs \<and>
            mset zs = mset ys \<and> sorted_wrt le zs"
          using segs [of "(i + 1, r)" "(l, i - 1)"] dep [of "(i + 1, r)" "(l, i - 1)"]
            less.prems(3,4) right p(3,4)
          by (intro less.hyps) (auto simp: seg_work_def)
        with True False right med(1) p(1) room mset show ?thesis
          by (subst qsort_loop_eq) (auto simp: push_def)
      next
        case left: False
        have "\<exists>zs. qsort_loop lt ys l (i - 1) (r # (i + 1) # stack) = Some zs \<and>
            mset zs = mset ys \<and> sorted_wrt le zs"
          using segs [of "(l, i - 1)" "(i + 1, r)"] dep [of "(l, i - 1)" "(i + 1, r)"]
            less.prems(3,4) left p(3,4)
          by (intro less.hyps) (auto simp: seg_work_def)
        with True False left med(1) p(1) room mset show ?thesis
          by (subst qsort_loop_eq) (auto simp: push_def)
      qed
    qed
  qed
qed

lemma qsort_ok:
  assumes "length xs < 2 ^ 33"
  shows "\<exists>ys. FspFileSystemQSortDirectoryBuffer lt xs 0 (int (length xs) - 1) = Some ys \<and>
           mset ys = mset xs \<and> sorted_wrt le ys"
  unfolding FspFileSystemQSortDirectoryBuffer_def
  by (rule qsort_loop_ok [of _ _ _ _ "length xs"]) (use assms in \<open>auto simp: segs_inv_def\<close>)

end

end
