(* ===== verification/Minimal.thy ===== *)
theory Minimal
  imports Prelude
begin

text \<open>
  The string routines of \<open>src/shared/um/minimal.h\<close> that the DLL uses instead of the C library:
  comparisons (\<open>WINFSP_SHARED_MINIMAL_STRCMP\<close>, \<open>WINFSP_SHARED_MINIMAL_STRNCMP\<close>),
  \<open>invariant_toupper\<close> and integer parsing (\<open>WINFSP_SHARED_MINIMAL_STRTOINT\<close>). A pointer into
  a string is the list of the characters from there on; the terminating zero is the read past
  the end of the list (\<open>hd0\<close>), and a zero inside the list ends the string as it does in C. The
  macros' parameters (the character type and its conversion) are arguments of the definitions.
\<close>

definition hd0 :: "'a::zero list \<Rightarrow> 'a" where
  "hd0 s = (case s of [] \<Rightarrow> 0 | c # _ \<Rightarrow> c)"

lemma hd0_simps [simp]: "hd0 [] = 0" "hd0 (c # s) = c"
  by (simp_all add: hd0_def)

definition invariant_toupper :: "u32 \<Rightarrow> u32" where
  "invariant_toupper c = (if 0x61 \<le> c \<and> c \<le> 0x7a then c AND NOT 0x20 else c)"

function minimal_strcmp :: "('c::zero \<Rightarrow> u32) \<Rightarrow> 'c list \<Rightarrow> 'c list \<Rightarrow> int" where
  "minimal_strcmp conv s t =
     (let v = conv (hd0 s) - conv (hd0 t)
      in if v = 0 \<and> hd0 t \<noteq> 0 then minimal_strcmp conv (tl s) (tl t) else sint v)"
  by pat_completeness auto
termination
  by (relation "measure (\<lambda>(_, _, t). length t)") (auto simp: hd0_def split: list.splits)

declare minimal_strcmp.simps [simp del]

fun minimal_strncmp :: "('c::zero \<Rightarrow> u32) \<Rightarrow> 'c list \<Rightarrow> 'c list \<Rightarrow> nat \<Rightarrow> int" where
  "minimal_strncmp conv s t 0 = 0"
| "minimal_strncmp conv s t (Suc n) =
     (let v = conv (hd0 s) - conv (hd0 t)
      in if v = 0 \<and> hd0 t \<noteq> 0 then minimal_strncmp conv (tl s) (tl t) n else sint v)"

text \<open>The instances: \<open>char\<close> is signed, so its conversion to \<open>unsigned\<close> extends the sign.\<close>

abbreviation invariant_strcmp :: "u8 list \<Rightarrow> u8 list \<Rightarrow> int" where
  "invariant_strcmp \<equiv> minimal_strcmp scast"
abbreviation invariant_wcscmp :: "wstr \<Rightarrow> wstr \<Rightarrow> int" where
  "invariant_wcscmp \<equiv> minimal_strcmp ucast"
abbreviation invariant_wcsicmp :: "wstr \<Rightarrow> wstr \<Rightarrow> int" where
  "invariant_wcsicmp \<equiv> minimal_strcmp (\<lambda>c. invariant_toupper (ucast c))"
abbreviation invariant_wcsncmp :: "wstr \<Rightarrow> wstr \<Rightarrow> nat \<Rightarrow> int" where
  "invariant_wcsncmp \<equiv> minimal_strncmp ucast"

definition lstrlen :: "'c::zero list \<Rightarrow> nat" where
  "lstrlen s = length (takeWhile (\<lambda>c. c \<noteq> 0) s)"

section \<open>Integer parsing\<close>

text \<open>
  The loop of \<open>WINFSP_SHARED_MINIMAL_STRTOINT\<close>: \<open>val\<close> reads a character as the C \<open>int\<close> it
  promotes to; the accumulator has the width of the result type and wraps.
\<close>

fun strtoint_loop ::
  "('c::zero \<Rightarrow> int) \<Rightarrow> int \<Rightarrow> int \<Rightarrow> int \<Rightarrow> 'v::len word \<Rightarrow> 'c list \<Rightarrow> 'v word \<times> 'c list" where
  "strtoint_loop val base maxdig maxalp v [] = (v, [])"
| "strtoint_loop val base maxdig maxalp v (p # ps) =
     (if p = 0 then (v, p # ps)
      else let c = val p in
        if 0x30 \<le> c \<and> c \<le> maxdig
        then strtoint_loop val base maxdig maxalp (of_int base * v + of_int (c - 0x30)) ps
        else let c = c OR 0x20 in
          if 0x61 \<le> c \<and> c \<le> maxalp
          then strtoint_loop val base maxdig maxalp (of_int base * v + of_int (c - 0x61) + 10) ps
          else (v, p # ps))"

definition strtoint ::
  "('c::zero \<Rightarrow> int) \<Rightarrow> 'c list \<Rightarrow> int \<Rightarrow> bool \<Rightarrow> 'v::len word \<times> 'c list" where
  "strtoint val p base is_signed =
     (let (sign, p) =
        (if is_signed then
           (if val (hd0 p) = 0x2b then (1, tl p)
            else if val (hd0 p) = 0x2d then (-1, tl p) else (1, p))
         else (1, p));
        (base, p) =
        (if base = 0 then
           (if val (hd0 p) = 0x30 then
              (let p = tl p in
               if val (hd0 p) = 0x78 \<or> val (hd0 p) = 0x58 then (16, tl p) else (8, p))
            else (10, p))
         else (base, p));
        maxdig = (if 10 < base then 0x39 else (base - 1) + 0x30);
        maxalp = (if 10 < base then (base - 1 - 10) + 0x61 else 0);
        (v, endp) = strtoint_loop val base maxdig maxalp 0 p
      in (sign * v, endp))"

abbreviation strtollint :: "u8 list \<Rightarrow> int \<Rightarrow> bool \<Rightarrow> u64 \<times> u8 list" where
  "strtollint \<equiv> strtoint sint"
abbreviation wcstouint :: "wstr \<Rightarrow> int \<Rightarrow> bool \<Rightarrow> u32 \<times> wstr" where
  "wcstouint \<equiv> strtoint uint"

end
