(* ===== verification/DirBuf.thy ===== *)
theory DirBuf
  imports QSort Minimal "HOL-Library.List_Lexorder" "HOL-Library.Product_Lexorder"
begin

text \<open>
  The directory buffer of \<open>src/dll/dirbuf.c\<close>, byte for byte. A buffer holds variable-size
  \<open>FSP_FSCTL_DIR_INFO\<close> entries from offset 0 up to \<open>LoMark\<close> and an array of \<open>ULONG\<close> offsets
  to them from \<open>HiMark\<close> up to \<open>Capacity\<close>, the newest entry first. Filling appends an entry and
  its index element, releasing sorts the index, reading copies the entries that follow a marker.
  A result \<open>None\<close> is an access outside the buffer (or a wait on a lock that is held).
\<close>

section \<open>Adding an entry to an output buffer (\<open>src/dll/fsop.c\<close>)\<close>

definition FSP_FSCTL_ALIGN_UP :: "u32 \<Rightarrow> u32 \<Rightarrow> u32" where
  "FSP_FSCTL_ALIGN_UP x s = (x + (s - 1)) AND NOT (s - 1)"

abbreviation FSP_FSCTL_DEFAULT_ALIGN_UP :: "u32 \<Rightarrow> u32" where
  "FSP_FSCTL_DEFAULT_ALIGN_UP x \<equiv> FSP_FSCTL_ALIGN_UP x 8"

text \<open>
  \<open>FspFileSystemAddXxxInfo\<close>: \<open>Info\<close> is the structure to add (its first two bytes are its
  size) or \<open>None\<close> for the null pointer that asks for the terminating zero entry. The result
  is the C result, the output buffer and \<open>*PBytesTransferred\<close>.
\<close>

definition FspFileSystemAddXxxInfo ::
  "bytes option \<Rightarrow> bytes \<Rightarrow> u32 \<Rightarrow> u32 \<Rightarrow> (bool \<times> bytes \<times> u32) option" where
  "FspFileSystemAddXxxInfo Info Buffer Length BytesTransferred = do {
     (SrcLength, DstLength) \<leftarrow>
       (case Info of
          Some info \<Rightarrow> do {
            Size \<leftarrow> get16 info 0;
            Some (ucast Size :: u32, FSP_FSCTL_DEFAULT_ALIGN_UP (ucast Size)) }
        | None \<Rightarrow> Some (2, 2));
     if unat Length < unat BytesTransferred + unat DstLength
     then Some (False, Buffer, BytesTransferred)
     else do {
       src \<leftarrow> (case Info of Some info \<Rightarrow> buf_slice info 0 (unat SrcLength) | None \<Rightarrow> Some [0, 0]);
       Buffer' \<leftarrow> buf_put Buffer (unat BytesTransferred) src;
       Some (True, Buffer', BytesTransferred + DstLength) } }"

abbreviation FspFileSystemAddDirInfo ::
  "bytes option \<Rightarrow> bytes \<Rightarrow> u32 \<Rightarrow> u32 \<Rightarrow> (bool \<times> bytes \<times> u32) option" where
  "FspFileSystemAddDirInfo \<equiv> FspFileSystemAddXxxInfo"

section \<open>State\<close>

datatype srwlock = Unlocked | Exclusive | Shared nat

record dirbuf =
  Lock :: srwlock
  InitialCapacity :: u32
  Capacity :: u32
  LoMark :: u32
  HiMark :: u32
  Buffer :: "bytes option"

text \<open>
  The process heap: which requests succeed, and what bytes fresh memory holds. Both are
  arbitrary; a reallocation keeps the old bytes, as \<open>HeapReAlloc\<close> does.
\<close>

record heap_env =
  alloc_ok :: "nat \<Rightarrow> bool"
  fresh_byte :: "nat \<Rightarrow> u8"

definition MemAlloc :: "heap_env \<Rightarrow> nat \<Rightarrow> bytes option" where
  "MemAlloc h n = (if alloc_ok h n then Some (map (fresh_byte h) [0..<n]) else None)"

definition MemRealloc :: "heap_env \<Rightarrow> bytes \<Rightarrow> nat \<Rightarrow> bytes option" where
  "MemRealloc h b n =
     (if alloc_ok h n then Some (take n b @ map (fresh_byte h) [length b..<n]) else None)"

definition bufbytes :: "dirbuf \<Rightarrow> bytes" where
  "bufbytes db = (case Buffer db of None \<Rightarrow> [] | Some b \<Rightarrow> b)"

text \<open>The index: the \<open>ULONG\<close> array that \<open>DirBuffer->Buffer + DirBuffer->HiMark\<close> points to.\<close>

definition Index :: "dirbuf \<Rightarrow> u32 list" where
  "Index db = words32 (drop (unat (HiMark db)) (bufbytes db))"

definition Count :: "dirbuf \<Rightarrow> u32" where
  "Count db = (Capacity db - HiMark db) div 4"

section \<open>Comparing names\<close>

definition dots :: "wstr \<Rightarrow> int \<Rightarrow> wstr" where
  "dots a alen =
     (if alen = 1 then (if hd0 a = 0x2e then [1] else a)
      else if alen = 2 then (if hd0 a = 0x2e \<and> hd0 (tl a) = 0x2e then [1, 1] else a)
      else a)"

definition FspFileSystemDirectoryBufferFileNameCmp :: "wstr \<Rightarrow> int \<Rightarrow> wstr \<Rightarrow> int \<Rightarrow> int" where
  "FspFileSystemDirectoryBufferFileNameCmp a alen b blen =
     (let alen = (if alen = -1 then int (lstrlen a) else alen);
          blen = (if blen = -1 then int (lstrlen b) else blen);
          len = (if alen < blen then alen else blen);
          res = invariant_wcsncmp (dots a alen) (dots b blen) (nat len)
      in if res = 0 then alen - blen else res)"

text \<open>
  \<open>DirInfo->FileNameBuf\<close> with its length: the 16-bit characters after the 104 bytes of the
  fixed part, up to \<open>DirInfo->Size\<close>.
\<close>

fun wchars :: "bytes \<Rightarrow> wstr" where
  "wchars (a # b # bs) = le_dec [a, b] # wchars bs"
| "wchars _ = []"

definition DirInfo_Size :: "bytes \<Rightarrow> nat" where
  "DirInfo_Size info = unat (le_dec (take 2 info) :: u16)"

definition DirInfo_FileName :: "bytes \<Rightarrow> wstr" where
  "DirInfo_FileName info = wchars (take (DirInfo_Size info - 104) (drop 104 info))"

text \<open>The entry at an offset of the buffer, as \<open>(FSP_FSCTL_DIR_INFO *)(Buffer + a)\<close>.\<close>

definition entry_at :: "bytes \<Rightarrow> u32 \<Rightarrow> bytes" where
  "entry_at buf a = take (DirInfo_Size (drop (unat a) buf)) (drop (unat a) buf)"

definition name_at :: "bytes \<Rightarrow> u32 \<Rightarrow> wstr" where
  "name_at buf a = DirInfo_FileName (drop (unat a) buf)"

definition FspFileSystemDirectoryBufferLess :: "bytes \<Rightarrow> u32 \<Rightarrow> u32 \<Rightarrow> bool" where
  "FspFileSystemDirectoryBufferLess buf a b \<longleftrightarrow>
     FspFileSystemDirectoryBufferFileNameCmp
       (name_at buf a) (int (length (name_at buf a)))
       (name_at buf b) (int (length (name_at buf b))) < 0"

section \<open>Search\<close>

text \<open>
  The binary search: its result is the C result and \<open>*PIndexNum\<close>, which receives the \<open>int\<close>
  \<open>Hi\<close> when the marker is not found (all ones for \<open>-1\<close>).
\<close>

partial_function (option) search_loop ::
  "bytes \<Rightarrow> u32 list \<Rightarrow> wstr \<Rightarrow> int \<Rightarrow> int \<Rightarrow> int \<Rightarrow> (bool \<times> u32) option" where
  "search_loop buf index Marker MarkerLen Lo Hi =
     (if Lo \<le> Hi then do {
        let Mi = uint (drop_bit 1 (word_of_int (Lo + Hi) :: u32));
        a \<leftarrow> idx index Mi;
        let CmpResult = FspFileSystemDirectoryBufferFileNameCmp
          (name_at buf a) (int (length (name_at buf a))) Marker MarkerLen;
        if CmpResult < 0 then search_loop buf index Marker MarkerLen (Mi + 1) Hi
        else if 0 < CmpResult then search_loop buf index Marker MarkerLen Lo (Mi - 1)
        else Some (True, word_of_int Mi) }
      else Some (False, word_of_int Hi))"

declare search_loop.simps [code]

definition FspFileSystemSearchDirectoryBuffer :: "dirbuf \<Rightarrow> wstr \<Rightarrow> int \<Rightarrow> (bool \<times> u32) option" where
  "FspFileSystemSearchDirectoryBuffer db Marker MarkerLen =
     search_loop (bufbytes db) (Index db) Marker MarkerLen 0 (sint (Count db - 1))"

definition FspFileSystemSortDirectoryBuffer :: "dirbuf \<Rightarrow> dirbuf option" where
  "FspFileSystemSortDirectoryBuffer db = do {
     index \<leftarrow> FspFileSystemQSortDirectoryBuffer (FspFileSystemDirectoryBufferLess (bufbytes db))
       (Index db) 0 (sint (Count db - 1));
     buf \<leftarrow> buf_put (bufbytes db) (unat (HiMark db)) (bytes32 index);
     Some (case Buffer db of None \<Rightarrow> db | Some _ \<Rightarrow> db\<lparr>Buffer := Some buf\<rparr>) }"

section \<open>Acquire, fill, release, read\<close>

abbreviation (input) FspFileSystemDirectoryBufferLoBound :: u32
  where "FspFileSystemDirectoryBufferLoBound \<equiv> 256"
abbreviation (input) FspFileSystemDirectoryBufferHiBound :: u32
  where "FspFileSystemDirectoryBufferHiBound \<equiv> 0x100000"
abbreviation (input) FspFileSystemDirectoryBufferLoFactor :: u32
  where "FspFileSystemDirectoryBufferLoFactor \<equiv> 4"
abbreviation (input) FspFileSystemDirectoryBufferHiFactor :: u32
  where "FspFileSystemDirectoryBufferHiFactor \<equiv> 2"

text \<open>
  \<open>_BitScanReverse\<close> of the compiler: the position of the highest set bit, \<open>None\<close> for 0. The
  shift \<open>1 << (1 + bitidx)\<close> takes its count modulo 32, as the processors do.
\<close>

definition BitScanReverse :: "u32 \<Rightarrow> nat option" where
  "BitScanReverse w = (if w = 0 then None else Some (Max (set (filter (bit w) [0..<32]))))"

definition capacity_hint :: "u32 \<Rightarrow> u32" where
  "capacity_hint CapacityHint =
     (let CapacityHint = (case BitScanReverse (CapacityHint - 1) of
            Some bitidx \<Rightarrow> push_bit ((1 + bitidx) mod 32) 1
          | None \<Rightarrow> CapacityHint);
          CapacityHint = (if CapacityHint < FspFileSystemDirectoryBufferLoBound
            then FspFileSystemDirectoryBufferLoBound else CapacityHint)
      in if FspFileSystemDirectoryBufferHiBound < CapacityHint
         then FspFileSystemDirectoryBufferHiBound else CapacityHint)"

definition AcquireExclusive :: "dirbuf \<Rightarrow> dirbuf option" where
  "AcquireExclusive db = (if Lock db = Unlocked then Some (db\<lparr>Lock := Exclusive\<rparr>) else None)"

text \<open>
  \<open>FspFileSystemAcquireDirectoryBufferEx\<close>: \<open>p1\<close> and \<open>p2\<close> are what the two loads of
  \<open>*PDirBuffer\<close> see; the second is made under the creation lock, so it differs from the first
  only when another thread has created a buffer in between. The structure is allocated with
  \<open>struct_size\<close> bytes. The result is \<open>*PResult\<close>, the C result and the new \<open>*PDirBuffer\<close>.
\<close>

definition FspFileSystemAcquireDirectoryBufferEx ::
  "heap_env \<Rightarrow> nat \<Rightarrow> dirbuf option \<Rightarrow> dirbuf option \<Rightarrow> bool \<Rightarrow> u32 \<Rightarrow>
   ((ntstatus \<times> bool) \<times> dirbuf option) option" where
  "FspFileSystemAcquireDirectoryBufferEx h struct_size p1 p2 Reset CapacityHint =
     (let reset = (\<lambda>db. if Reset then do {
            db \<leftarrow> AcquireExclusive db;
            Some ((STATUS_SUCCESS, True), Some (db\<lparr>LoMark := 0, HiMark := Capacity db\<rparr>)) }
          else Some ((STATUS_SUCCESS, False), Some db))
      in case p1 of
        Some db \<Rightarrow> reset db
      | None \<Rightarrow>
          (if \<not> alloc_ok h struct_size
           then Some ((STATUS_INSUFFICIENT_RESOURCES, False), None)
           else (case p2 of
             Some db \<Rightarrow> reset db
           | None \<Rightarrow> Some ((STATUS_SUCCESS, True),
               Some \<lparr>Lock = Exclusive, InitialCapacity = capacity_hint CapacityHint,
                 Capacity = 0, LoMark = 0, HiMark = 0, Buffer = None\<rparr>))))"

definition FspFileSystemAcquireDirectoryBuffer ::
  "heap_env \<Rightarrow> nat \<Rightarrow> dirbuf option \<Rightarrow> dirbuf option \<Rightarrow> bool \<Rightarrow>
   ((ntstatus \<times> bool) \<times> dirbuf option) option" where
  "FspFileSystemAcquireDirectoryBuffer h struct_size p1 p2 Reset =
     FspFileSystemAcquireDirectoryBufferEx h struct_size p1 p2 Reset 0"

text \<open>The growth step: \<open>MemRealloc\<close>, then the index is moved to the end of the larger buffer.\<close>

definition grow :: "heap_env \<Rightarrow> dirbuf \<Rightarrow> bytes \<Rightarrow> (dirbuf option) option" where
  "grow h db buf =
     (let Factor = (if Capacity db < FspFileSystemDirectoryBufferHiBound
            then FspFileSystemDirectoryBufferLoFactor else FspFileSystemDirectoryBufferHiFactor);
          NewCapacity = Capacity db * Factor
      in case MemRealloc h buf (unat NewCapacity) of
           None \<Rightarrow> Some None
         | Some buf' \<Rightarrow>
             (let IndexSize = Capacity db - HiMark db;
                  NewHiMark = NewCapacity - IndexSize
              in do {
                src \<leftarrow> buf_slice buf' (unat (HiMark db)) (unat IndexSize);
                buf'' \<leftarrow> buf_put buf' (unat NewHiMark) src;
                Some (Some (db\<lparr>Capacity := NewCapacity, HiMark := NewHiMark,
                  Buffer := Some buf''\<rparr>)) }))"

partial_function (option) FspFileSystemFillDirectoryBuffer ::
  "heap_env \<Rightarrow> bytes option \<Rightarrow> dirbuf \<Rightarrow> ((ntstatus \<times> bool) \<times> dirbuf) option" where
  "FspFileSystemFillDirectoryBuffer h DirInfo db =
     (case DirInfo of
        None \<Rightarrow> Some ((STATUS_INVALID_PARAMETER, False), db)
      | Some info \<Rightarrow> do {
          (ok, buf, LoMark') \<leftarrow> FspFileSystemAddDirInfo (Some info) (bufbytes db)
            (if 4 < HiMark db then HiMark db - 4 else HiMark db) (LoMark db);
          if ok then do {
            let HiMark' = HiMark db - 4;
            buf \<leftarrow> buf_put buf (unat HiMark') (le_enc 4 (LoMark db));
            Some ((STATUS_SUCCESS, True),
              db\<lparr>LoMark := LoMark', HiMark := HiMark', Buffer := Some buf\<rparr>) }
          else (case Buffer db of
            None \<Rightarrow>
              (case MemAlloc h (unat (InitialCapacity db)) of
                 None \<Rightarrow> Some ((STATUS_INSUFFICIENT_RESOURCES, False), db)
               | Some buf' \<Rightarrow> FspFileSystemFillDirectoryBuffer h DirInfo
                   (db\<lparr>Capacity := InitialCapacity db, LoMark := LoMark',
                     HiMark := InitialCapacity db, Buffer := Some buf'\<rparr>))
          | Some buf' \<Rightarrow> do {
              grown \<leftarrow> grow h db buf';
              (case grown of
                 None \<Rightarrow> Some ((STATUS_INSUFFICIENT_RESOURCES, False), db)
               | Some db' \<Rightarrow> FspFileSystemFillDirectoryBuffer h DirInfo
                   (db'\<lparr>LoMark := LoMark'\<rparr>)) }) })"

declare FspFileSystemFillDirectoryBuffer.simps [code]

text \<open>
  The compaction loop of \<open>FspFileSystemReleaseDirectoryBuffer\<close>: \<open>I\<close> runs down from
  \<open>Count - 1\<close> and ends the loop when it wraps below 0.
\<close>

abbreviation (input) FspFileSystemDirectoryBufferEntryInvalid :: u32
  where "FspFileSystemDirectoryBufferEntryInvalid \<equiv> 0xffffffff"

partial_function (option) compact_loop :: "u32 list \<Rightarrow> u32 \<Rightarrow> u32 \<Rightarrow> u32 \<Rightarrow> (u32 list \<times> u32) option" where
  "compact_loop index cnt I J =
     (if I < cnt then do {
        x \<leftarrow> idx index (uint I);
        if x = FspFileSystemDirectoryBufferEntryInvalid then compact_loop index cnt (I - 1) J
        else do {
          let J = J - 1;
          _ \<leftarrow> idx index (uint J);
          compact_loop (index[unat J := x]) cnt (I - 1) J } }
      else Some (index, J))"

declare compact_loop.simps [code]

definition compact :: "dirbuf \<Rightarrow> dirbuf option" where
  "compact db = do {
     (index, J) \<leftarrow> compact_loop (Index db) (Count db) (Count db - 1) (Count db);
     buf \<leftarrow> buf_put (bufbytes db) (unat (HiMark db)) (bytes32 index);
     Some (db\<lparr>HiMark := HiMark db + 4 * J,
       Buffer := (case Buffer db of None \<Rightarrow> None | Some _ \<Rightarrow> Some buf)\<rparr>) }"

definition FspFileSystemReleaseDirectoryBuffer :: "dirbuf \<Rightarrow> dirbuf option" where
  "FspFileSystemReleaseDirectoryBuffer db = do {
     db \<leftarrow> compact db;
     db \<leftarrow> FspFileSystemSortDirectoryBuffer db;
     if Lock db = Exclusive then Some (db\<lparr>Lock := Unlocked\<rparr>) else None }"

text \<open>
  The copy loop of \<open>FspFileSystemReadDirectoryBuffer\<close>: the flag tells whether every entry fit.
\<close>

partial_function (option) read_loop ::
  "dirbuf \<Rightarrow> u32 \<Rightarrow> bytes \<Rightarrow> u32 \<Rightarrow> u32 \<Rightarrow> (bool \<times> bytes \<times> u32) option" where
  "read_loop db IndexNum Out Length BytesTransferred =
     (if IndexNum < Count db then do {
        a \<leftarrow> idx (Index db) (uint IndexNum);
        (ok, Out, BytesTransferred) \<leftarrow>
          FspFileSystemAddDirInfo (Some (drop (unat a) (bufbytes db))) Out Length BytesTransferred;
        if ok then read_loop db (IndexNum + 1) Out Length BytesTransferred
        else Some (False, Out, BytesTransferred) }
      else Some (True, Out, BytesTransferred))"

declare read_loop.simps [code]

text \<open>
  \<open>FspFileSystemReadDirectoryBuffer\<close>: the result is the output buffer and
  \<open>*PBytesTransferred\<close>. The lock is taken shared and given back, so it must not be held
  exclusively; the buffer itself does not change.
\<close>

definition FspFileSystemReadDirectoryBuffer ::
  "dirbuf option \<Rightarrow> wstr option \<Rightarrow> bytes \<Rightarrow> u32 \<Rightarrow> u32 \<Rightarrow> (bytes \<times> u32) option" where
  "FspFileSystemReadDirectoryBuffer PDirBuffer Marker Out Length BytesTransferred = do {
     (all, Out, BytesTransferred) \<leftarrow>
       (case PDirBuffer of
          None \<Rightarrow> Some (True, Out, BytesTransferred)
        | Some db \<Rightarrow>
            (if Lock db = Exclusive then None
             else do {
               IndexNum \<leftarrow>
                 (case Marker of
                    None \<Rightarrow> Some 0
                  | Some m \<Rightarrow> do {
                      (_, IndexNum) \<leftarrow> FspFileSystemSearchDirectoryBuffer db m (int (lstrlen m));
                      Some (IndexNum + 1) });
               read_loop db IndexNum Out Length BytesTransferred }));
     if all then do {
       (_, Out, BytesTransferred) \<leftarrow> FspFileSystemAddDirInfo None Out Length BytesTransferred;
       Some (Out, BytesTransferred) }
     else Some (Out, BytesTransferred) }"

definition FspFileSystemDeleteDirectoryBuffer :: "dirbuf option \<Rightarrow> dirbuf option" where
  "FspFileSystemDeleteDirectoryBuffer PDirBuffer = None"

definition FspFileSystemPeekInDirectoryBuffer :: "dirbuf \<Rightarrow> bytes \<times> u32 list \<times> u32" where
  "FspFileSystemPeekInDirectoryBuffer db = (bufbytes db, Index db, Count db)"

end
