(* ===== verification/DirBufOrder.thy ===== *)
theory DirBufOrder
  imports DirBuf
begin

text \<open>
  The order of names that the directory buffer sorts by. A name is mapped to a key, the
  characters up to and including the first zero with the special names \<open>.\<close> and \<open>..\<close>
  replaced, paired with the length; the comparison of \<open>src/dll/dirbuf.c\<close> is the lexicographic
  order of the keys. So it is a total preorder, which interprets the sort's locale.
\<close>

section \<open>The key of a name\<close>

fun nulkey :: "wstr \<Rightarrow> wstr" where
  "nulkey [] = []"
| "nulkey (c # s) = (if c = 0 then [0] else c # nulkey s)"

definition name_key :: "wstr \<Rightarrow> wstr \<times> nat" where
  "name_key a = (nulkey (dots a (int (length a))), length a)"

definition name_cmp :: "wstr \<Rightarrow> wstr \<Rightarrow> int" where
  "name_cmp a b = FspFileSystemDirectoryBufferFileNameCmp a (int (length a)) b (int (length b))"

lemma sint_ucast_diff: "sint (ucast c - ucast d :: u32) = uint c - uint d" for c d :: wchar
proof -
  have eq: "(ucast c - ucast d :: u32) = word_of_int (uint c - uint d)"
    by (simp only: ucast_eq wi_hom_sub)
  have "uint c < 65536" "uint d < 65536" "0 \<le> uint c" "0 \<le> uint d"
    using uint_lt2p [of c] uint_lt2p [of d] by simp_all
  then have "- 2147483648 \<le> uint c - uint d" "uint c - uint d < 2147483648"
    by linarith+
  then have "signed_take_bit 31 (uint c - uint d) = uint c - uint d"
    using signed_take_bit_int_eq_self [of 31 "uint c - uint d"] by simp
  then show ?thesis unfolding eq sint_sbintrunc' by simp
qed

lemma ucast_diff_0: "(ucast c - ucast d :: u32) = 0 \<longleftrightarrow> c = d" for c d :: wchar
  using sint_ucast_diff [of c d] by (metis eq_iff_diff_eq_0 signed_0 word_uint_eq_iff)

lemma wcsncmp_key:
  "(let r = invariant_wcsncmp x y (min (length x) (length y))
    in (r < 0 \<or> r = 0 \<and> length x < length y) = ((nulkey x, length x) < (nulkey y, length y)) \<and>
       (r = 0 \<and> length x = length y) = ((nulkey x, length x) = (nulkey y, length y)))"
proof (induction x y rule: list_induct2')
  case (2 c x)
  then show ?case by simp
next
  case (3 d y)
  then show ?case by simp
next
  case (4 c x d y)
  have "sint (ucast c - ucast d :: u32) < 0 \<longleftrightarrow> c < d"
    by (simp add: sint_ucast_diff word_less_def)
  moreover have "sint (ucast c - ucast d :: u32) = 0 \<longleftrightarrow> c = d"
    by (simp add: sint_ucast_diff word_uint_eq_iff)
  moreover have "0 < c" "0 < d" if "c \<noteq> 0" "d \<noteq> 0"
    using that by (simp_all add: word_gt_0)
  ultimately show ?case
    using 4 by (cases "c = 0"; cases "d = 0") (auto simp: Let_def ucast_diff_0 word_gt_0)
qed simp

lemma length_dots: "alen = int (length a) \<Longrightarrow> length (dots a alen) = length a"
  by (cases a) (auto simp: dots_def length_Suc_conv numeral_2_eq_2)

lemma name_cmp_eq:
  "name_cmp a b =
     (let x = dots a (int (length a)); y = dots b (int (length b));
          r = invariant_wcsncmp x y (min (length x) (length y))
      in if r = 0 then int (length a) - int (length b) else r)"
proof -
  have "nat (if int (length a) < int (length b) then int (length a) else int (length b)) =
      min (length a) (length b)"
    by auto
  then show ?thesis
    by (simp add: name_cmp_def FspFileSystemDirectoryBufferFileNameCmp_def Let_def length_dots
        del: of_nat_less_iff)
qed

lemma name_cmp_less: "name_cmp a b < 0 \<longleftrightarrow> name_key a < name_key b"
  using wcsncmp_key [of "dots a (int (length a))" "dots b (int (length b))"]
  by (auto simp: name_cmp_eq name_key_def Let_def length_dots split: if_splits)

lemma name_cmp_zero: "name_cmp a b = 0 \<longleftrightarrow> name_key a = name_key b"
  using wcsncmp_key [of "dots a (int (length a))" "dots b (int (length b))"]
  by (auto simp: name_cmp_eq name_key_def Let_def length_dots split: if_splits)

lemma name_cmp_greater: "0 < name_cmp a b \<longleftrightarrow> name_key b < name_key a"
  using name_cmp_less [of a b] name_cmp_zero [of a b] by (auto simp: not_less_iff_gr_or_eq)

end
