(* ===== verification/DirBufProps.thy ===== *)
theory DirBufProps
  imports DirBufOrder
begin

text \<open>
  Correctness of the directory buffer: the invariant of its memory layout, the entries it holds
  (\<open>db_entries\<close>, the abstract value), and what every operation does to them.
\<close>

lemma less_key:
  "FspFileSystemDirectoryBufferLess buf a b \<longleftrightarrow> name_key (name_at buf a) < name_key (name_at buf b)"
  by (simp add: FspFileSystemDirectoryBufferLess_def flip: name_cmp_def name_cmp_less)

interpretation name_less: weak_order "FspFileSystemDirectoryBufferLess buf" for buf
  by unfold_locales (auto simp: less_key)

section \<open>Alignment and the entry copy\<close>

definition pad8 :: "nat \<Rightarrow> nat" where
  "pad8 n = (n + 7) div 8 * 8"

lemma pad8_le: "n \<le> pad8 n" "pad8 n \<le> n + 7"
  by (simp_all add: pad8_def)

lemma bit_7: "bit (7 :: u32) n \<longleftrightarrow> n < 3"
proof -
  have m: "(7 :: u32) = mask 3" by (simp add: mask_eq_exp_minus_1)
  show ?thesis unfolding m by (simp only: bit_mask_iff) auto
qed

lemma and_not_7: "(x :: u32) AND NOT 7 = push_bit 3 (drop_bit 3 x)"
  by (rule bit_word_eqI)
    (auto simp only: bit_and_iff bit_not_iff_eq bit_push_bit_iff bit_drop_bit_eq bit_7 comp_def
      exp_eq_zero_iff possible_bit_def le_add_diff_inverse not_less)

lemma unat32_less: "unat x < 4294967296" for x :: u32
  using unsigned_less [where ?'a = nat, of x] by simp

lemma unat_and_not_7: "unat (x AND NOT 7) = unat x div 8 * 8" for x :: u32
proof -
  have "unat (x AND NOT 7) = unat (x div 8 * 8)"
    by (simp add: and_not_7 [simplified] push_bit_eq_mult drop_bit_eq_div)
  also have "\<dots> = unat x div 8 * 8"
    using unat32_less [of x] by (simp add: unat_word_ariths unat_div)
  finally show ?thesis .
qed

lemma unat_align_up: "unat (FSP_FSCTL_DEFAULT_ALIGN_UP (ucast n)) = pad8 (unat n)" for n :: u16
proof -
  have n: "unat n < 65536" using unsigned_less [of n] by simp
  then have "unat (ucast n + 7 :: u32) = unat n + 7"
    by (simp add: unat_word_ariths unsigned_ucast_eq take_bit_eq_mod)
  with unat_and_not_7 [of "ucast n + 7"] show ?thesis
    by (simp add: FSP_FSCTL_ALIGN_UP_def pad8_def)
qed

section \<open>The invariant\<close>

text \<open>A \<open>FSP_FSCTL_DIR_INFO\<close> as a file system must pass it: its size covers the fixed part.\<close>

definition valid_info :: "bytes \<Rightarrow> bool" where
  "valid_info info \<longleftrightarrow> 104 \<le> DirInfo_Size info \<and> DirInfo_Size info \<le> length info"

definition entry_ok :: "bytes \<Rightarrow> nat \<Rightarrow> u32 \<Rightarrow> bool" where
  "entry_ok b lo a \<longleftrightarrow> 104 \<le> DirInfo_Size (drop (unat a) b) \<and>
     unat a + DirInfo_Size (drop (unat a) b) \<le> lo"

abbreviation (input) invalid :: u32 where "invalid \<equiv> 0xffffffff"

definition dirbuf_ok :: "dirbuf \<Rightarrow> bool" where
  "dirbuf_ok db \<longleftrightarrow>
     256 \<le> unat (InitialCapacity db) \<and> unat (InitialCapacity db) \<le> 0x100000 \<and>
     (case Buffer db of
        None \<Rightarrow> Capacity db = 0 \<and> LoMark db = 0 \<and> HiMark db = 0
      | Some b \<Rightarrow> length b = unat (Capacity db) \<and> 256 \<le> unat (Capacity db) \<and>
          unat (Capacity db) \<le> 2 ^ 31 \<and>
          unat (LoMark db) \<le> unat (HiMark db) \<and> unat (HiMark db) \<le> unat (Capacity db) \<and>
          4 dvd (unat (Capacity db) - unat (HiMark db)) \<and>
          (\<forall>a \<in> set (Index db). a = invalid \<or> entry_ok b (unat (LoMark db)) a))"

definition db_entries :: "dirbuf \<Rightarrow> bytes list" where
  "db_entries db = map (entry_at (bufbytes db)) (filter (\<lambda>a. a \<noteq> invalid) (Index db))"

definition gap :: "dirbuf \<Rightarrow> nat" where
  "gap db = unat (HiMark db) - unat (LoMark db)"

lemma dirbuf_ok_Some:
  assumes "dirbuf_ok db" "Buffer db = Some b"
  shows "length b = unat (Capacity db)" "256 \<le> unat (Capacity db)"
    "unat (Capacity db) \<le> 2147483648" "unat (LoMark db) \<le> unat (HiMark db)"
    "unat (HiMark db) \<le> unat (Capacity db)" "4 dvd (unat (Capacity db) - unat (HiMark db))"
    "\<And>a. a \<in> set (Index db) \<Longrightarrow> a = invalid \<or> entry_ok b (unat (LoMark db)) a"
  using assms by (auto simp: dirbuf_ok_def)

lemma dirbuf_ok_None:
  assumes "dirbuf_ok db" "Buffer db = None"
  shows "Capacity db = 0" "LoMark db = 0" "HiMark db = 0" "Index db = []" "bufbytes db = []"
  using assms by (auto simp: dirbuf_ok_def Index_def bufbytes_def)

lemma dirbuf_ok_Initial:
  "dirbuf_ok db \<Longrightarrow> 256 \<le> unat (InitialCapacity db) \<and> unat (InitialCapacity db) \<le> 0x100000"
  by (simp add: dirbuf_ok_def)

section \<open>Reading entries through a change of the buffer\<close>

lemma DirInfo_Size_take: "2 \<le> n \<Longrightarrow> DirInfo_Size (take n b) = DirInfo_Size b"
  by (simp add: DirInfo_Size_def min_def)

lemma entry_agree:
  assumes "take lo b' = take lo b" "entry_ok b lo a"
  shows "entry_ok b' lo a" "entry_at b' a = entry_at b a" "name_at b' a = name_at b a"
proof -
  let ?d = "drop (unat a)"
  have a: "104 \<le> DirInfo_Size (?d b)" "unat a + DirInfo_Size (?d b) \<le> lo"
    using assms(2) by (auto simp: entry_ok_def)
  have t: "take k (?d b') = take k (?d b)" if "unat a + k \<le> lo" for k
  proof -
    have "take k (?d (take lo b')) = take k (?d (take lo b))" using assms(1) by simp
    with that show ?thesis by (simp add: take_drop min_def add.commute)
  qed
  have s: "DirInfo_Size (?d b') = DirInfo_Size (?d b)"
    using t [of 2] a by (simp add: DirInfo_Size_def)
  show "entry_ok b' lo a" "entry_at b' a = entry_at b a"
    using s a t by (simp_all add: entry_ok_def entry_at_def)
  have "take k (drop 104 (?d b')) = take k (drop 104 (?d b))" if "unat a + 104 + k \<le> lo" for k
    using arg_cong [OF t [of "104 + k"], of "drop 104"] that by (simp add: drop_take add.assoc)
  from this [of "DirInfo_Size (?d b) - 104"] show "name_at b' a = name_at b a"
    using s a by (simp add: name_at_def DirInfo_FileName_def)
qed

lemma entry_ok_mono: "entry_ok b lo a \<Longrightarrow> lo \<le> lo' \<Longrightarrow> entry_ok b lo' a"
  by (auto simp: entry_ok_def)

section \<open>Adding an entry\<close>

lemma add_info_Some:
  assumes "valid_info info"
  shows "FspFileSystemAddXxxInfo (Some info) buf Len bt =
    (if unat Len < unat bt + pad8 (DirInfo_Size info) then Some (False, buf, bt)
     else do {
       buf' \<leftarrow> buf_put buf (unat bt) (take (DirInfo_Size info) info);
       Some (True, buf', bt + FSP_FSCTL_DEFAULT_ALIGN_UP (ucast (le_dec (take 2 info) :: u16))) })"
proof -
  have l: "2 \<le> length info" "DirInfo_Size info \<le> length info"
    using assms by (auto simp: valid_info_def)
  moreover have "unat (ucast (le_dec (take 2 info) :: u16) :: u32) = DirInfo_Size info"
    by (simp add: DirInfo_Size_def unsigned_ucast_eq take_bit_nat_eq_self unsigned_less [THEN order.strict_trans2])
  ultimately show ?thesis
    by (simp add: FspFileSystemAddXxxInfo_def get16_def unat_align_up DirInfo_Size_def)
qed

lemma add_info_fits:
  assumes "valid_info info" "unat bt + pad8 (DirInfo_Size info) \<le> unat Len" "unat Len \<le> length buf"
  shows "\<exists>bt'. FspFileSystemAddXxxInfo (Some info) buf Len bt =
      Some (True, take (unat bt) buf @ take (DirInfo_Size info) info @
        drop (unat bt + DirInfo_Size info) buf, bt') \<and>
      unat bt' = unat bt + pad8 (DirInfo_Size info)"
proof -
  have "unat bt + pad8 (DirInfo_Size info) < 2 ^ 32"
    using assms(2) unat32_less [of Len] by simp
  then have "unat (bt + FSP_FSCTL_DEFAULT_ALIGN_UP (ucast (le_dec (take 2 info) :: u16))) =
      unat bt + pad8 (DirInfo_Size info)"
    by (simp add: unat_word_ariths unat_align_up DirInfo_Size_def)
  with assms pad8_le(1) [of "DirInfo_Size info"] show ?thesis
    by (simp add: add_info_Some valid_info_def min_absorb2)
qed

lemma DirInfo_Size_le: "DirInfo_Size info < 65536"
  using unsigned_less [where ?'a = nat, of "le_dec (take 2 info) :: u16"]
  by (simp add: DirInfo_Size_def)

lemma DirInfo_Size_append: "2 \<le> length x \<Longrightarrow> DirInfo_Size (x @ y) = DirInfo_Size x"
  by (simp add: DirInfo_Size_def)

lemma fill_fits:
  assumes ok: "dirbuf_ok db" and b: "Buffer db = Some b" and info: "valid_info info"
    and fits: "pad8 (DirInfo_Size info) + 4 \<le> gap db"
  obtains db' where
    "FspFileSystemFillDirectoryBuffer h (Some info) db = Some ((STATUS_SUCCESS, True), db')"
    "dirbuf_ok db'" "db_entries db' = take (DirInfo_Size info) info # db_entries db"
    "Lock db' = Lock db" "Capacity db' = Capacity db" "InitialCapacity db' = InitialCapacity db"
    "Index db' = LoMark db # Index db" "unat (LoMark db') = unat (LoMark db) + pad8 (DirInfo_Size info)"
proof -
  note inv = dirbuf_ok_Some [OF ok b]
  let ?s = "DirInfo_Size info" and ?lo = "unat (LoMark db)" and ?hi = "unat (HiMark db)"
  define e where "e = take ?s info"
  have e: "length e = ?s" "DirInfo_Size e = ?s" "104 \<le> ?s"
    using info by (auto simp: e_def valid_info_def DirInfo_Size_take)
  have hi: "?lo + pad8 ?s + 4 \<le> ?hi" using fits by (simp add: gap_def)
  have hi4: "unat (HiMark db - 4) = ?hi - 4" "4 < HiMark db"
    using hi pad8_le(1) [of ?s] e(3) by (auto simp: unat_sub word_le_nat_alt word_less_nat_alt)
  define b1 where "b1 = take ?lo b @ e @ drop (?lo + ?s) b"
  have "?lo + pad8 ?s \<le> unat (HiMark db - 4)" "unat (HiMark db - 4) \<le> length b"
    using hi hi4 inv by auto
  from add_info_fits [OF info this] obtain lo' where
    add: "FspFileSystemAddXxxInfo (Some info) b (HiMark db - 4) (LoMark db) = Some (True, b1, lo')"
    and lo': "unat lo' = ?lo + pad8 ?s"
    unfolding b1_def e_def by blast
  have p8: "?s \<le> pad8 ?s" by (rule pad8_le)
  have lenb1: "length b1 = length b" using hi inv e p8 by (simp add: b1_def min_absorb2)
  define b2 where "b2 = take (?hi - 4) b1 @ le_enc 4 (LoMark db) @ drop ?hi b1"
  have put: "buf_put b1 (?hi - 4) (le_enc 4 (LoMark db)) = Some b2"
    using hi inv lenb1 by (simp add: b2_def)
  define db' where "db' = db\<lparr>LoMark := lo', HiMark := HiMark db - 4, Buffer := Some b2\<rparr>"
  have lenb2: "length b2 = length b" using hi inv lenb1 by (simp add: b2_def)
  have "drop ?hi b1 = drop ?hi b" using hi inv e p8 by (simp add: b1_def min_absorb2)
  then have "drop (?hi - 4) b2 = le_enc 4 (LoMark db) @ drop ?hi b"
    using hi inv lenb1 by (simp add: b2_def)
  then have idx': "Index db' = LoMark db # Index db"
    by (simp add: Index_def bufbytes_def db'_def hi4 b)
  have agree: "take ?lo b2 = take ?lo b"
    using hi inv lenb1 e by (simp add: b2_def b1_def min_absorb2 take_drop)
  have "take ?s (drop ?lo b1) = e" using hi inv e p8 by (simp add: b1_def min_absorb2)
  moreover have "take ?s (drop ?lo b2) = take ?s (drop ?lo b1)"
    using hi inv lenb1 e p8 by (simp add: b2_def take_drop min_absorb2)
  ultimately have new: "take ?s (drop ?lo b2) = e" by simp
  then have "DirInfo_Size (drop ?lo b2) = ?s"
    using e DirInfo_Size_take [of ?s "drop ?lo b2"] by simp
  with new e hi have ent: "entry_ok b2 (?lo + ?s) (LoMark db)" "entry_at b2 (LoMark db) = e"
    by (simp_all add: entry_ok_def entry_at_def)
  have ninv: "LoMark db \<noteq> invalid" using hi inv by auto
  have old: "a = invalid \<or> entry_ok b2 ?lo a \<and> entry_at b2 a = entry_at b a"
    if "a \<in> set (Index db)" for a
    using inv(7) [OF that] entry_agree [OF agree] by auto
  have "unat (Capacity db) - (?hi - 4) = unat (Capacity db) - ?hi + 4" using hi inv by simp
  then have dvd: "4 dvd unat (Capacity db) - (?hi - 4)"
    using inv(6) by (metis dvd_add dvd_refl)
  have "a = invalid \<or> entry_ok b2 (unat lo') a" if "a \<in> set (Index db')" for a
    using that old [of a] entry_ok_mono [of b2 ?lo a "unat lo'"]
      entry_ok_mono [OF ent(1), of "unat lo'"] lo' p8 by (auto simp: idx')
  then have "dirbuf_ok db'"
    using inv hi hi4(1) lo' lenb2 dvd dirbuf_ok_Initial [OF ok]
    by (auto simp: dirbuf_ok_def b db'_def)
  moreover have "db_entries db' = e # db_entries db"
    using old ent ninv
    by (auto simp: db_entries_def idx' [unfolded db'_def] bufbytes_def db'_def b)
  moreover have "FspFileSystemFillDirectoryBuffer h (Some info) db = Some ((0, True), db')"
    using add put hi4
    by (subst FspFileSystemFillDirectoryBuffer.simps) (simp add: bufbytes_def b db'_def)
  ultimately show thesis using idx' lo' by (intro that [of db']) (auto simp: e_def db'_def)
qed

lemma grow_ok:
  assumes ok: "dirbuf_ok db" and b: "Buffer db = Some b" and c: "unat (Capacity db) \<le> 2 ^ 30"
  shows "grow h db b = Some None \<and> (\<exists>n. \<not> alloc_ok h n) \<or>
    (\<exists>db'. grow h db b = Some (Some db') \<and> dirbuf_ok db' \<and> db_entries db' = db_entries db \<and>
       gap db + unat (Capacity db) \<le> gap db' \<and> Lock db' = Lock db \<and> LoMark db' = LoMark db \<and>
       Buffer db' \<noteq> None \<and> Index db' = Index db \<and> unat (Capacity db') \<le> 4 * unat (Capacity db) \<and>
       (unat (Capacity db') \<le> 2 ^ 30 \<or> 70000 \<le> gap db'))"
proof -
  note inv = dirbuf_ok_Some [OF ok b]
  define f :: u32 where "f = (if Capacity db < 0x100000 then 4 else 2)"
  define C where "C = Capacity db * f"
  have C: "unat C = unat (Capacity db) * unat f" "unat f \<in> {2, 4}" "unat C \<le> 2147483648"
    using c by (auto simp: C_def f_def unat_word_ariths word_less_nat_alt)
  define k where "k = Capacity db - HiMark db"
  have k: "unat k = unat (Capacity db) - unat (HiMark db)"
    using inv by (simp add: k_def unat_sub word_le_nat_alt)
  have hi: "unat (C - k) = unat C - unat k" "unat k \<le> unat C"
    using k C(1,2) inv by (auto simp: unat_sub word_le_nat_alt)
  show ?thesis
  proof (cases "alloc_ok h (unat C)")
    case False
    then show ?thesis
      by (auto simp: grow_def MemRealloc_def C_def f_def Let_def split: if_splits)
  next
    case True
    define b1 where "b1 = b @ map (fresh_byte h) [length b..<unat C]"
    have b1: "length b1 = unat C" "take (length b) b1 = b" "MemRealloc h b (unat C) = Some b1"
      using C inv True by (auto simp: b1_def MemRealloc_def)
    define src where "src = drop (unat (HiMark db)) b"
    have "unat (HiMark db) + unat k = length b" using k inv by simp
    then have src: "buf_slice b1 (unat (HiMark db)) (unat k) = Some src" "length src = unat k"
      using b1 C inv k by (auto simp: src_def b1_def)
    define b2 where "b2 = take (unat C - unat k) b1 @ src"
    have b2: "buf_put b1 (unat C - unat k) src = Some b2" "length b2 = unat C"
      using b1 src(2) hi by (simp_all add: b2_def)
    define db' where "db' = db\<lparr>Capacity := C, HiMark := C - k, Buffer := Some b2\<rparr>"
    have g: "grow h db b = Some (Some db')"
      using b1 src b2 hi by (simp add: grow_def Let_def db'_def k_def C_def f_def)
    have "drop (unat C - unat k) b2 = src" using b1 hi by (simp add: b2_def)
    then have idx': "Index db' = Index db"
      by (simp add: Index_def bufbytes_def db'_def hi b src_def)
    have le: "unat (LoMark db) \<le> unat C - unat k" using inv k C by auto
    have agree: "take (unat (LoMark db)) b2 = take (unat (LoMark db)) b"
      using le inv b1 by (simp add: b2_def b1_def min_absorb2)
    have old: "a = invalid \<or> entry_ok b2 (unat (LoMark db)) a \<and> entry_at b2 a = entry_at b a"
      if "a \<in> set (Index db)" for a
      using inv(7) [OF that] entry_agree [OF agree] by auto
    have kk: "unat C - (unat C - unat k) = unat k" using hi by simp
    have "dirbuf_ok db'"
      using inv C b2 hi le old dirbuf_ok_Initial [OF ok] k kk
      by (auto simp: dirbuf_ok_def idx' [unfolded db'_def] db'_def)
    moreover have "db_entries db' = db_entries db"
      using old by (auto simp: db_entries_def idx' [unfolded db'_def] bufbytes_def db'_def b)
    moreover have gp: "gap db + unat (Capacity db) \<le> gap db'"
      using C k hi inv by (auto simp: gap_def db'_def)
    moreover have "unat C \<le> 2 ^ 30 \<or> 70000 \<le> gap db'"
    proof (cases "unat C \<le> 2 ^ 30")
      case False
      with C(1,2) have "268435456 < unat (Capacity db)" by auto
      with gp show ?thesis by simp
    qed simp
    moreover have "unat C \<le> 4 * unat (Capacity db)" using C(1,2) by auto
    ultimately show ?thesis using g idx' by (auto simp: db'_def)
  qed
qed

lemma Count_Index:
  assumes "dirbuf_ok db"
  shows "unat (Count db) = length (Index db)" "length (Index db) \<le> 2 ^ 29"
    "4 * length (Index db) = unat (Capacity db) - unat (HiMark db)"
    "unat (HiMark db) + 4 * length (Index db) = length (bufbytes db)"
proof -
  show len: "4 * length (Index db) = unat (Capacity db) - unat (HiMark db)"
    using assms by (cases "Buffer db")
      (auto simp: dirbuf_ok_def Index_def bufbytes_def length_words32 dvd_mult_div_cancel)
  have le: "HiMark db \<le> Capacity db" "unat (Capacity db) \<le> 2 ^ 31"
    using assms by (cases "Buffer db"; auto simp: dirbuf_ok_def word_le_nat_alt)+
  then show "unat (Count db) = length (Index db)"
    using len by (simp add: Count_def unat_div unat_sub)
  show "length (Index db) \<le> 2 ^ 29" using len le by simp
  show "unat (HiMark db) + 4 * length (Index db) = length (bufbytes db)"
    using assms len by (cases "Buffer db") (auto simp: dirbuf_ok_def bufbytes_def)
qed

text \<open>The bytes of a buffer in use; a buffer grows only when fewer than 70000 bytes are left.\<close>

definition used :: "dirbuf \<Rightarrow> nat" where
  "used db = unat (LoMark db) + 4 * length (Index db)"

lemma used_gap: "dirbuf_ok db \<Longrightarrow> unat (Capacity db) = used db + gap db"
  using Count_Index(3) [of db] by (cases "Buffer db") (auto simp: used_def gap_def dirbuf_ok_def)

lemma fill_no_fit:
  assumes ok: "dirbuf_ok db" and info: "valid_info info"
    and no: "gap db < pad8 (DirInfo_Size info) + 4"
  shows "FspFileSystemAddXxxInfo (Some info) (bufbytes db)
    (if 4 < HiMark db then HiMark db - 4 else HiMark db) (LoMark db) =
      Some (False, bufbytes db, LoMark db)"
proof -
  have p: "104 \<le> pad8 (DirInfo_Size info)"
    using info pad8_le(1) [of "DirInfo_Size info"] by (simp add: valid_info_def)
  have le: "unat (LoMark db) \<le> unat (HiMark db)"
    using ok by (cases "Buffer db") (auto simp: dirbuf_ok_def)
  have "unat (if 4 < HiMark db then HiMark db - 4 else HiMark db) <
      unat (LoMark db) + pad8 (DirInfo_Size info)"
    using no p le by (auto simp: gap_def unat_sub word_le_nat_alt word_less_nat_alt)
  with info show ?thesis by (simp add: add_info_Some)
qed

lemma fill_tracks:
  assumes "dirbuf_ok db" "valid_info info"
    and "unat (Capacity db) \<le> 2 ^ 30 \<or> 70000 \<le> gap db"
  shows "\<exists>r db'. FspFileSystemFillDirectoryBuffer h (Some info) db = Some (r, db') \<and>
    dirbuf_ok db' \<and> Lock db' = Lock db \<and>
    (r = (STATUS_SUCCESS, True) \<and>
       db_entries db' = take (DirInfo_Size info) info # db_entries db \<and>
       Index db' = LoMark db # Index db \<and> unat (LoMark db') = unat (LoMark db) + pad8 (DirInfo_Size info) \<or>
     r = (STATUS_INSUFFICIENT_RESOURCES, False) \<and> db_entries db' = db_entries db \<and>
       Index db' = Index db \<and> LoMark db' = LoMark db \<and> (\<exists>n. \<not> alloc_ok h n)) \<and>
    unat (Capacity db') \<le> max (max (unat (Capacity db)) 0x100000) (4 * (used db + 70000))"
  using assms
proof (induction "70000 - gap db" arbitrary: db rule: less_induct)
  case less
  note ok = less.prems(1) and info = less.prems(2)
  let ?F = "FspFileSystemFillDirectoryBuffer h (Some info)"
  show ?case
  proof (cases "pad8 (DirInfo_Size info) + 4 \<le> gap db")
    case True
    then obtain b where b: "Buffer db = Some b"
      using ok by (cases "Buffer db") (auto simp: gap_def dirbuf_ok_None)
    show ?thesis by (rule fill_fits [OF ok b info True, of h]) auto
  next
    case False
    then have "gap db < pad8 (DirInfo_Size info) + 4" by simp
    note no = fill_no_fit [OF ok info this]
    have g7: "gap db < 70000"
      using False pad8_le(2) [of "DirInfo_Size info"] DirInfo_Size_le [of info] by simp
    show ?thesis
    proof (cases "Buffer db")
      case None
      note init = dirbuf_ok_Initial [OF ok] and emp = dirbuf_ok_None [OF ok None]
      show ?thesis
      proof (cases "MemAlloc h (unat (InitialCapacity db))")
        case m: None
        then have "?F db = Some ((STATUS_INSUFFICIENT_RESOURCES, False), db)"
          using no None by (subst FspFileSystemFillDirectoryBuffer.simps) simp
        with m ok show ?thesis by (auto simp: MemAlloc_def split: if_splits)
      next
        case (Some b)
        define db' where "db' = db\<lparr>Capacity := InitialCapacity db, LoMark := LoMark db,
          HiMark := InitialCapacity db, Buffer := Some b\<rparr>"
        have eq: "?F db = ?F db'"
          using no None Some by (subst FspFileSystemFillDirectoryBuffer.simps) (simp add: db'_def)
        have lb: "length b = unat (InitialCapacity db)"
          using Some by (auto simp: MemAlloc_def split: if_splits)
        have ix: "Index db' = []" by (simp add: Index_def bufbytes_def db'_def lb)
        then have ok': "dirbuf_ok db'" using init lb emp by (simp add: dirbuf_ok_def db'_def)
        have "gap db = 0" "gap db' = unat (InitialCapacity db)" "Index db = []"
          using emp by (simp_all add: gap_def db'_def)
        moreover have "70000 - gap db' < 70000 - gap db" "unat (Capacity db') \<le> 2 ^ 30"
          using calculation init by (auto simp: db'_def)
        note IH = less.hyps [OF this(1) ok' info disjI1 [OF this(2)]]
        moreover have "db_entries db' = db_entries db" "used db' = used db" "unat (Capacity db') \<le> 0x100000"
          "Index db' = Index db" "LoMark db' = LoMark db" "Lock db' = Lock db"
          using emp ix init by (simp_all add: db_entries_def used_def) (simp_all add: db'_def)
        ultimately show ?thesis unfolding eq by auto
      qed
    next
      case (Some b)
      have c: "unat (Capacity db) \<le> 2 ^ 30" using less.prems(3) g7 by simp
      from grow_ok [OF ok Some c, of h] consider
        (fail) n where "grow h db b = Some None" "\<not> alloc_ok h n"
      | (grown) db' where "grow h db b = Some (Some db')" "dirbuf_ok db'"
          "db_entries db' = db_entries db" "gap db + unat (Capacity db) \<le> gap db'"
          "Lock db' = Lock db" "LoMark db' = LoMark db"
          "unat (Capacity db') \<le> 2 ^ 30 \<or> 70000 \<le> gap db'"
          "Index db' = Index db" "unat (Capacity db') \<le> 4 * unat (Capacity db)"
        by blast
      then show ?thesis
      proof cases
        case fail
        then have "?F db = Some ((STATUS_INSUFFICIENT_RESOURCES, False), db)"
          using no Some by (subst FspFileSystemFillDirectoryBuffer.simps) simp
        with ok fail show ?thesis by auto
      next
        case g: grown
        have "db'\<lparr>LoMark := LoMark db\<rparr> = db'" using g(6) by (cases db') simp
        then have eq: "?F db = ?F db'"
          using no Some g(1) by (subst FspFileSystemFillDirectoryBuffer.simps) simp
        have "256 \<le> unat (Capacity db)" by (rule dirbuf_ok_Some [OF ok Some])
        with g(4) g7 have "70000 - gap db' < 70000 - gap db" by simp
        note IH = less.hyps [OF this g(2) info g(7)]
        have "used db' = used db" "unat (Capacity db') \<le> 4 * (used db + 70000)"
          using g(6,8,9) g7 used_gap [OF ok] by (auto simp: used_def)
        with IH g(3,5,6,8) show ?thesis unfolding eq by auto
      qed
    qed
  qed
qed

lemma fill_ok:
  assumes "dirbuf_ok db" "valid_info info"
    and "unat (Capacity db) \<le> 2 ^ 30 \<or> 70000 \<le> gap db"
  shows "\<exists>r db'. FspFileSystemFillDirectoryBuffer h (Some info) db = Some (r, db') \<and>
    dirbuf_ok db' \<and> Lock db' = Lock db \<and>
    (r = (STATUS_SUCCESS, True) \<and>
       db_entries db' = take (DirInfo_Size info) info # db_entries db \<or>
     r = (STATUS_INSUFFICIENT_RESOURCES, False) \<and> db_entries db' = db_entries db \<and>
       (\<exists>n. \<not> alloc_ok h n))"
  using fill_tracks [OF assms, of h] by blast

section \<open>Rewriting the index: compaction and sort\<close>

lemma sint_Count:
  assumes "dirbuf_ok db"
  shows "sint (Count db - 1) = int (length (Index db)) - 1"
proof -
  have "Count db = of_nat (unat (Count db))" by simp
  then have c: "Count db - 1 = word_of_int (int (length (Index db)) - 1)"
    by (simp add: Count_Index(1) [OF assms])
  have "sint (Count db - 1) = signed_take_bit 31 (int (length (Index db)) - 1)"
    unfolding c by (simp only: sint_sbintrunc') simp
  also have "\<dots> = int (length (Index db)) - 1"
    using Count_Index(2) [OF assms] by (intro signed_take_bit_int_eq_self) auto
  finally show ?thesis .
qed

lemma drop_bytes32: "drop (4 * j) (bytes32 ws) = bytes32 (drop j ws)"
proof (induction ws arbitrary: j)
  case (Cons w ws)
  then show ?case by (cases j) (simp_all add: bytes32_def)
qed (simp add: bytes32_def)

text \<open>Storing a list of offsets of the same length back as the index and moving \<open>HiMark\<close> up.\<close>

lemma store_index:
  assumes ok: "dirbuf_ok db" and len: "length index = length (Index db)" "j \<le> length index"
    and hi: "unat hi = unat (HiMark db) + 4 * j"
    and sub: "set (drop j index) \<subseteq> insert invalid (set (Index db))"
  shows "\<exists>buf. buf_put (bufbytes db) (unat (HiMark db)) (bytes32 index) = Some buf \<and>
    (let db' = db\<lparr>HiMark := hi, Buffer := map_option (\<lambda>_. buf) (Buffer db)\<rparr>
     in Index db' = drop j index \<and> dirbuf_ok db' \<and> take (unat (HiMark db)) buf =
       take (unat (HiMark db)) (bufbytes db) \<and> bufbytes db' = buf)"
proof -
  note cnt = Count_Index [OF ok]
  define buf where "buf = take (unat (HiMark db)) (bufbytes db) @ bytes32 index"
  have put: "buf_put (bufbytes db) (unat (HiMark db)) (bytes32 index) = Some buf"
    using cnt len by (simp add: buf_def)
  define db' where "db' = db\<lparr>HiMark := hi, Buffer := map_option (\<lambda>_. buf) (Buffer db)\<rparr>"
  show ?thesis
  proof (cases "Buffer db")
    case None
    with len dirbuf_ok_None [OF ok None] have "buf = []" "j = 0" "hi = 0" "index = []"
      using hi by (auto simp: buf_def bytes32_def unat_eq_0)
    with None ok dirbuf_ok_None [OF ok None] put show ?thesis
      by (auto simp: Let_def dirbuf_ok_def Index_def bufbytes_def)
  next
    case (Some b)
    note inv = dirbuf_ok_Some [OF ok Some]
    have bb: "bufbytes db' = buf" "bufbytes db = b" by (simp_all add: bufbytes_def db'_def Some)
    have lb: "length buf = length b" using cnt len by (simp add: buf_def bb)
    have "drop (unat hi) buf = bytes32 (drop j index)"
      using hi inv by (simp add: buf_def bb drop_bytes32 flip: drop_drop)
    then have ix: "Index db' = drop j index"
      by (simp add: Index_def bb) (simp add: db'_def)
    have agree: "take (unat (HiMark db)) buf = take (unat (HiMark db)) b"
      using inv by (simp add: buf_def bb)
    then have agree': "take (unat (LoMark db)) buf = take (unat (LoMark db)) b"
      using inv(4) by (metis min.absorb1 take_take)
    have "a = invalid \<or> entry_ok buf (unat (LoMark db)) a" if "a \<in> set (Index db')" for a
      using inv(7) [of a] entry_agree(1) [OF agree'] that sub by (auto simp: ix)
    moreover have dv: "unat (Capacity db) - unat hi = 4 * (length index - j)" "unat hi \<le> unat (Capacity db)"
      using cnt(3) hi len inv(5) by auto
    ultimately have "dirbuf_ok db'"
      using inv lb dirbuf_ok_Initial [OF ok] hi
      by (auto simp: dirbuf_ok_def db'_def Some)
    with put ix agree bb show ?thesis by (auto simp: Let_def db'_def)
  qed
qed

lemma compact_loop_ok:
  assumes "i \<le> unat J" "unat J \<le> length index" "length index = unat cnt" "I = of_nat i - 1"
  shows "\<exists>index' J'. compact_loop index cnt I J = Some (index', J') \<and>
    length index' = length index \<and> unat J' \<le> length index \<and>
    drop (unat J') index' = filter (\<lambda>a. a \<noteq> invalid) (take i index) @ drop (unat J) index"
  using assms
proof (induction i arbitrary: index I J)
  case 0
  have "\<not> (0xffffffff < cnt)" using unat32_less [of cnt] by (simp add: not_less word_le_nat_alt)
  then show ?case using 0 by (subst compact_loop.simps) simp
next
  case (Suc i)
  have "unat (of_nat i :: u32) = i"
    using Suc.prems unat32_less [of cnt] by (simp add: unat_of_nat)
  with Suc.prems have I: "I = of_nat i" "unat I = i" by simp_all
  then have I': "I < cnt" "uint I = int i" "i < length index"
    using Suc.prems uint_nat [of I] by (simp_all add: word_less_nat_alt)
  have ix: "idx index (int i) = Some (index ! i)" using I' by simp
  have tk: "take (Suc i) index = take i index @ [index ! i]"
    using I' by (simp add: take_Suc_conv_app_nth)
  show ?case
  proof (cases "index ! i = invalid")
    case True
    then have "compact_loop index cnt I J = compact_loop index cnt (I - 1) J"
      using I' ix by (subst compact_loop.simps) simp
    with Suc.IH [of J index "I - 1"] Suc.prems I tk True show ?thesis by simp
  next
    case False
    have "J \<noteq> 0" using Suc.prems by auto
    then have J: "unat (J - 1) = unat J - 1" by (simp add: unat_minus_one)
    then have "idx index (uint (J - 1)) = Some (index ! (unat J - 1))"
      using Suc.prems by (subst idx_word) auto
    note ixJ = this
    define index1 where "index1 = index[unat J - 1 := index ! i]"
    have "compact_loop index cnt I J = compact_loop index1 cnt (I - 1) (J - 1)"
      using False I' ix ixJ J
      by (subst compact_loop.simps) (simp add: index1_def Let_def)
    moreover have "drop (unat J - 1) index1 = index ! i # drop (unat J) index"
    proof -
      have "drop (unat J - 1) index1 = (drop (unat J - 1) index)[0 := index ! i]"
        by (simp add: index1_def drop_update_swap)
      also have "drop (unat J - 1) index = index ! (unat J - 1) # drop (unat J) index"
        using Suc.prems Cons_nth_drop_Suc [of "unat J - 1" index] by simp
      finally show ?thesis by simp
    qed
    moreover have "take i index1 = take i index" using Suc.prems by (simp add: index1_def)
    ultimately show ?thesis
      using Suc.IH [of "J - 1" index1 "I - 1"] Suc.prems J False tk I by (simp add: index1_def)
  qed
qed

lemma compact_ok:
  assumes "dirbuf_ok db"
  shows "\<exists>db'. compact db = Some db' \<and> dirbuf_ok db' \<and> Lock db' = Lock db \<and>
    Index db' = filter (\<lambda>a. a \<noteq> invalid) (Index db) \<and> db_entries db' = db_entries db"
proof -
  note cnt = Count_Index [OF assms]
  have "\<exists>index J. compact_loop (Index db) (Count db) (Count db - 1) (Count db) = Some (index, J) \<and>
      length index = length (Index db) \<and> unat J \<le> length (Index db) \<and>
      drop (unat J) index = filter (\<lambda>a. a \<noteq> invalid) (take (unat (Count db)) (Index db)) @
        drop (unat (Count db)) (Index db)"
    by (rule compact_loop_ok) (simp; fail | simp add: cnt(1))+
  then obtain index J where c: "compact_loop (Index db) (Count db) (Count db - 1) (Count db) = Some (index, J)"
      "length index = length (Index db)" "unat J \<le> length (Index db)"
      "drop (unat J) index = filter (\<lambda>a. a \<noteq> invalid) (Index db)"
    by (auto simp: cnt)
  let ?hi = "HiMark db + 4 * J"
  have "unat (HiMark db) + 4 * unat J \<le> unat (Capacity db)"
    using cnt(3) c(3) assms by (cases "Buffer db") (auto simp: dirbuf_ok_def)
  then have "unat ?hi = unat (HiMark db) + 4 * unat J"
    using unat32_less [of "Capacity db"] by (simp add: unat_word_ariths)
  note hi = this
  have "unat J \<le> length index" "set (drop (unat J) index) \<subseteq> insert invalid (set (Index db))"
    using c(2-4) by auto
  from store_index [OF assms c(2) this(1) hi this(2)] obtain buf where
    s: "buf_put (bufbytes db) (unat (HiMark db)) (bytes32 index) = Some buf"
    and db': "let db' = db\<lparr>HiMark := ?hi, Buffer := map_option (\<lambda>_. buf) (Buffer db)\<rparr>
     in Index db' = drop (unat J) index \<and> dirbuf_ok db' \<and> take (unat (HiMark db)) buf =
       take (unat (HiMark db)) (bufbytes db) \<and> bufbytes db' = buf"
    by blast
  let ?db' = "db\<lparr>HiMark := ?hi, Buffer := map_option (\<lambda>_. buf) (Buffer db)\<rparr>"
  have "compact db = Some ?db'"
    using c(1) s by (simp add: compact_def) (cases "Buffer db"; simp)
  moreover have "db_entries ?db' = db_entries db"
  proof (cases "Buffer db")
    case (Some b)
    note inv = dirbuf_ok_Some [OF assms Some]
    have "take (unat (LoMark db)) buf = take (unat (LoMark db)) b"
      using db' inv(4) by (metis Some bufbytes_def min.absorb1 option.simps(5) take_take)
    from entry_agree(2) [OF this] inv(7) db' c(4) show ?thesis
      by (auto simp: db_entries_def Let_def bufbytes_def Some)
  qed (use db' c(4) in \<open>simp add: db_entries_def Let_def dirbuf_ok_None [OF assms]\<close>)
  ultimately show ?thesis using db' c(4) by (auto simp: Let_def)
qed

text \<open>The entries are in the order of their names.\<close>

definition entries_sorted :: "bytes list \<Rightarrow> bool" where
  "entries_sorted es \<longleftrightarrow>
     sorted_wrt (\<lambda>e f. name_cmp (DirInfo_FileName e) (DirInfo_FileName f) \<le> 0) es"

lemma name_at_entry: "entry_ok b lo a \<Longrightarrow> name_at b a = DirInfo_FileName (entry_at b a)"
  by (simp add: name_at_def entry_at_def DirInfo_FileName_def entry_ok_def DirInfo_Size_take
      drop_take min_def)

lemma sort_ok:
  assumes ok: "dirbuf_ok db" and valid: "invalid \<notin> set (Index db)"
  shows "\<exists>db'. FspFileSystemSortDirectoryBuffer db = Some db' \<and> dirbuf_ok db' \<and>
    Lock db' = Lock db \<and> mset (db_entries db') = mset (db_entries db) \<and>
    mset (Index db') = mset (Index db) \<and> entries_sorted (db_entries db')"
proof -
  have "length (Index db) < 2 ^ 33" using Count_Index(2) [OF ok] by simp
  from name_less.qsort_ok [OF this, of "bufbytes db"] obtain index where
    q: "FspFileSystemQSortDirectoryBuffer (FspFileSystemDirectoryBufferLess (bufbytes db)) (Index db) 0
      (sint (Count db - 1)) = Some index" "mset index = mset (Index db)"
    "sorted_wrt (\<lambda>x y. \<not> FspFileSystemDirectoryBufferLess (bufbytes db) y x) index"
    by (auto simp: sint_Count [OF ok])
  have st: "set index = set (Index db)" using q(2) by (metis set_mset_mset)
  have "length index = length (Index db)" using q(2) by (metis size_mset)
  from store_index [OF ok this, of 0 "HiMark db"] st obtain buf where
    s: "buf_put (bufbytes db) (unat (HiMark db)) (bytes32 index) = Some buf"
    and db': "let db' = db\<lparr>HiMark := HiMark db, Buffer := map_option (\<lambda>_. buf) (Buffer db)\<rparr>
     in Index db' = index \<and> dirbuf_ok db' \<and> take (unat (HiMark db)) buf =
       take (unat (HiMark db)) (bufbytes db) \<and> bufbytes db' = buf"
    by auto
  define D where "D = db\<lparr>HiMark := HiMark db, Buffer := map_option (\<lambda>_. buf) (Buffer db)\<rparr>"
  have so: "FspFileSystemSortDirectoryBuffer db = Some D" "Lock D = Lock db"
    using q(1) s by (simp_all add: FspFileSystemSortDirectoryBuffer_def D_def split: option.split)
  have db': "Index D = index" "dirbuf_ok D" "bufbytes D = buf"
    "take (unat (HiMark db)) buf = take (unat (HiMark db)) (bufbytes db)"
    using db' by (simp_all only: D_def Let_def)
  show ?thesis
  proof (cases "Buffer db")
    case None
    then have "index = []" "Index db = []" using st dirbuf_ok_None [OF ok] by auto
    then show ?thesis using so db' by (auto simp: db_entries_def Let_def entries_sorted_def)
  next
    case (Some b)
    note inv = dirbuf_ok_Some [OF ok Some]
    have bb: "bufbytes db = b" by (simp add: bufbytes_def Some)
    have ag: "take (unat (LoMark db)) buf = take (unat (LoMark db)) b"
      using db' inv(4) bb by (metis min.absorb1 take_take)
    have e: "entry_ok b (unat (LoMark db)) a \<and> entry_at buf a = entry_at b a" if "a \<in> set index" for a
      using that inv(7) [of a] entry_agree [OF ag] valid st by auto
    have f: "filter (\<lambda>a. a \<noteq> invalid) index = index"
      using valid st by (intro filter_True) auto
    have ents: "db_entries D = map (entry_at b) index"
      using db' e f by (simp add: db_entries_def)
    have g: "filter (\<lambda>a. a \<noteq> invalid) (Index db) = Index db"
      using valid by (intro filter_True) auto
    have "mset (db_entries D) = image_mset (entry_at b) (mset (Index db))"
      by (simp add: ents q(2))
    also have "\<dots> = mset (db_entries db)"
      unfolding db_entries_def bb g mset_map by (rule refl)
    finally have "mset (db_entries D) = mset (db_entries db)" .
    moreover have "entries_sorted (db_entries D)"
      unfolding entries_sorted_def ents sorted_wrt_map
      using q(3)
    proof (rule sorted_wrt_mono_rel [rotated])
      fix x y assume "x \<in> set index" "y \<in> set index" and nl: "\<not> FspFileSystemDirectoryBufferLess (bufbytes db) y x"
      then show "name_cmp (DirInfo_FileName (entry_at b x)) (DirInfo_FileName (entry_at b y)) \<le> 0"
        using e [of x] e [of y] name_cmp_greater [of "name_at b x" "name_at b y"]
        by (auto simp: less_key bb not_less name_at_entry)
    qed
    ultimately show ?thesis using so db' q(2) by auto
  qed
qed

end
