(* ===== verification/DirBufRead.thy ===== *)
theory DirBufRead
  imports DirBufProps
begin

text \<open>
  Searching and reading the directory buffer: the binary search finds the place of the marker,
  and reading copies the entries behind it, in order, as many as fit.
\<close>

section \<open>Binary search\<close>

lemma search_mid:
  assumes "0 \<le> Lo" "Lo \<le> Hi" "Hi < 2 ^ 30"
  shows "uint (drop_bit 1 (word_of_int (Lo + Hi) :: u32)) = (Lo + Hi) div 2"
proof -
  have "uint (word_of_int (Lo + Hi) :: u32) = Lo + Hi"
    using assms by (simp only: uint_word_of_int) simp
  moreover have "uint (drop_bit 1 (w :: u32)) = uint w div 2" for w
    by (simp add: drop_bit_eq_div uint_div)
  ultimately show ?thesis by simp
qed

lemma search_loop_ok:
  fixes index :: "u32 list" and buf :: bytes
  defines "key i \<equiv> name_key (name_at buf (index ! nat i))"
  assumes sorted: "\<And>i j. 0 \<le> i \<Longrightarrow> i < j \<Longrightarrow> j < int (length index) \<Longrightarrow> key i \<le> key j"
    and "0 \<le> Lo" "Lo \<le> Hi + 1" "Hi < int (length index)" "length index \<le> 2 ^ 29"
    and "\<And>i. 0 \<le> i \<Longrightarrow> i < Lo \<Longrightarrow> key i < name_key m"
    and "\<And>i. Hi < i \<Longrightarrow> i < int (length index) \<Longrightarrow> name_key m < key i"
  shows "\<exists>f k. search_loop buf index m (int (length m)) Lo Hi = Some (f, word_of_int k) \<and>
    -1 \<le> k \<and> k < int (length index) \<and>
    (\<forall>i. 0 \<le> i \<longrightarrow> i \<le> k \<longrightarrow> key i \<le> name_key m) \<and>
    (\<forall>i. k < i \<longrightarrow> i < int (length index) \<longrightarrow> name_key m \<le> key i) \<and>
    (f \<longrightarrow> 0 \<le> k \<and> key k = name_key m) \<and>
    (\<not> f \<longrightarrow> (\<forall>i. 0 \<le> i \<longrightarrow> i < int (length index) \<longrightarrow> key i \<noteq> name_key m))"
  using assms(3-)
proof (induction "nat (Hi + 1 - Lo)" arbitrary: Lo Hi rule: less_induct)
  case less
  show ?case
  proof (cases "Lo \<le> Hi")
    case False
    with less.prems have "search_loop buf index m (int (length m)) Lo Hi = Some (False, word_of_int Hi)"
      by (subst search_loop.simps) simp
    moreover have "key i \<noteq> name_key m" if "0 \<le> i" "i < int (length index)" for i
      using less.prems(5) [of i] less.prems(6) [of i] that False by (cases "i < Lo") auto
    ultimately show ?thesis
      using less.prems False by (intro exI [of _ False] exI [of _ Hi]) (auto intro: less_imp_le)
  next
    case True
    define Mi where "Mi = (Lo + Hi) div 2"
    have Mi: "Lo \<le> Mi" "Mi \<le> Hi" "0 \<le> Mi" "Mi < int (length index)"
      using True less.prems by (auto simp: Mi_def)
    have eq: "search_loop buf index m (int (length m)) Lo Hi =
      (if key Mi < name_key m then search_loop buf index m (int (length m)) (Mi + 1) Hi
       else if name_key m < key Mi then search_loop buf index m (int (length m)) Lo (Mi - 1)
       else Some (True, word_of_int Mi))"
    proof -
      have "uint (drop_bit 1 (word_of_int (Lo + Hi) :: u32)) = Mi"
        unfolding Mi_def using True less.prems by (intro search_mid) auto
      then show ?thesis
        using True Mi
        by (subst search_loop.simps)
          (simp add: Let_def key_def name_cmp_less name_cmp_greater flip: name_cmp_def)
    qed
    consider "key Mi < name_key m" | "name_key m < key Mi" | "key Mi = name_key m"
      by (rule linorder_cases)
    then show ?thesis
    proof cases
      case 1
      have "key i < name_key m" if "0 \<le> i" "i < Mi + 1" for i
        using sorted [of i Mi] that 1 Mi by (cases "i = Mi") auto
      with 1 eq less.prems Mi less.hyps [of Hi "Mi + 1"] show ?thesis by simp
    next
      case 2
      have "name_key m < key i" if "Mi - 1 < i" "i < int (length index)" for i
        using sorted [of Mi i] that 2 Mi by (cases "i = Mi") auto
      moreover have "search_loop buf index m (int (length m)) Lo Hi =
          search_loop buf index m (int (length m)) Lo (Mi - 1)"
        using eq 2 by (auto dest: order.asym)
      ultimately show ?thesis using less.prems Mi less.hyps [of "Mi - 1" Lo] by simp
    next
      case 3
      have "key i \<le> name_key m" if "0 \<le> i" "i \<le> Mi" for i
        using sorted [of i Mi] that 3 Mi by (cases "i = Mi") auto
      moreover have "name_key m \<le> key i" if "Mi < i" "i < int (length index)" for i
        using sorted [of Mi i] that 3 Mi by auto
      ultimately show ?thesis
        using 3 eq Mi by (intro exI [of _ True] exI [of _ Mi]) auto
    qed
  qed
qed

section \<open>Copying entries out\<close>

text \<open>The longest prefix of the entries that fits behind \<open>off\<close>, and what it is to be stored there.\<close>

fun fit_prefix :: "nat \<Rightarrow> nat \<Rightarrow> bytes list \<Rightarrow> bytes list" where
  "fit_prefix Len off [] = []"
| "fit_prefix Len off (e # es) =
     (if off + pad8 (length e) \<le> Len then e # fit_prefix Len (off + pad8 (length e)) es else [])"

fun stored :: "bytes \<Rightarrow> nat \<Rightarrow> bytes list \<Rightarrow> bool" where
  "stored Out off [] \<longleftrightarrow> True"
| "stored Out off (e # es) \<longleftrightarrow>
     take (length e) (drop off Out) = e \<and> stored Out (off + pad8 (length e)) es"

definition out_end :: "nat \<Rightarrow> bytes list \<Rightarrow> nat" where
  "out_end off es = off + sum_list (map (\<lambda>e. pad8 (length e)) es)"

lemma out_end_simps [simp]:
  "out_end off [] = off" "out_end off (e # es) = out_end (off + pad8 (length e)) es"
  by (simp_all add: out_end_def)

lemma entry_read:
  assumes "entry_ok b lo a" "lo \<le> length b"
  shows "valid_info (drop (unat a) b)" "length (entry_at b a) = DirInfo_Size (drop (unat a) b)"
  using assms by (auto simp: entry_ok_def valid_info_def entry_at_def)

lemma read_loop_ok:
  assumes ok: "dirbuf_ok db" and valid: "invalid \<notin> set (Index db)"
    and "k \<le> length (Index db)" "unat Len \<le> length Out" "unat I = k"
  shows "\<exists>Out' bt'. read_loop db I Out Len bt =
      Some (fit_prefix (unat Len) (unat bt) (drop k (db_entries db)) = drop k (db_entries db), Out', bt') \<and>
    length Out' = length Out \<and> take (unat bt) Out' = take (unat bt) Out \<and>
    stored Out' (unat bt) (fit_prefix (unat Len) (unat bt) (drop k (db_entries db))) \<and>
    unat bt' = out_end (unat bt) (fit_prefix (unat Len) (unat bt) (drop k (db_entries db)))"
  using assms(3-)
proof (induction "length (Index db) - k" arbitrary: k I Out bt)
  case 0
  have "length (db_entries db) \<le> k"
    using 0 by (simp add: db_entries_def) (metis length_filter_le le_trans)
  moreover have "\<not> I < Count db"
    using 0 Count_Index(1) [OF ok] by (simp add: word_less_nat_alt)
  ultimately show ?case by (subst read_loop.simps) simp
next
  case (Suc n)
  then have k: "k < length (Index db)" by simp
  then obtain b where b: "Buffer db = Some b"
    using dirbuf_ok_None(4) [OF ok] by (cases "Buffer db") auto
  note inv = dirbuf_ok_Some [OF ok b]
  define a where "a = Index db ! k"
  have "a \<in> set (Index db)" using k by (simp add: a_def)
  with inv valid have a: "entry_ok b (unat (LoMark db)) a" by auto
  have lob: "unat (LoMark db) \<le> length b" using inv by simp
  note e = entry_read [OF a lob]
  define e where "e = entry_at b a"
  have "filter (\<lambda>a. a \<noteq> invalid) (Index db) = Index db"
    using valid by (intro filter_True) auto
  then have es: "db_entries db = map (entry_at b) (Index db)"
    by (simp add: db_entries_def bufbytes_def b)
  have dr: "drop k (db_entries db) = e # drop (Suc k) (db_entries db)"
    using k by (simp add: es drop_map e_def a_def flip: Cons_nth_drop_Suc)
  have ix: "idx (Index db) (uint I) = Some a"
    using Suc.prems k by (simp add: a_def)
  have lt: "I < Count db"
    using Suc.prems k Count_Index(1) [OF ok] by (simp add: word_less_nat_alt)
  have bb: "bufbytes db = b" by (simp add: bufbytes_def b)
  show ?case
  proof (cases "unat bt + pad8 (length e) \<le> unat Len")
    case False
    then have "read_loop db I Out Len bt = Some (False, Out, bt)"
      using ix lt e by (subst read_loop.simps) (simp add: add_info_Some bb e_def)
    with False show ?thesis by (simp add: dr)
  next
    case True
    let ?O = "take (unat bt) Out @ e @ drop (unat bt + length e) Out"
    from add_info_fits [OF e(1), of bt Len Out] True Suc.prems(2) obtain bt1 where
      add: "FspFileSystemAddXxxInfo (Some (drop (unat a) b)) Out Len bt = Some (True, ?O, bt1)"
      and bt1: "unat bt1 = unat bt + pad8 (length e)"
      unfolding e_def e(2) by (auto simp: entry_at_def e(2))
    have le: "length e \<le> pad8 (length e)" by (rule pad8_le)
    have lenO: "length ?O = length Out" using True Suc.prems(2) le by (simp add: min_absorb2)
    have "length (Index db) < 2 ^ 32" using Count_Index(2) [OF ok] by simp
    then have "unat (I + 1) = Suc k" using Suc.prems(3) k by (simp add: unat_word_ariths)
    note I1 = this
    define O1 where "O1 = ?O"
    have "n = length (Index db) - Suc k" "Suc k \<le> length (Index db)" "unat Len \<le> length O1"
      using Suc.hyps(2) Suc.prems(2) k lenO by (auto simp: O1_def)
    from Suc.hyps(1) [OF this I1, of bt1] obtain Out' bt' where
      IH: "read_loop db (I + 1) O1 Len bt1 =
        Some (fit_prefix (unat Len) (unat bt1) (drop (Suc k) (db_entries db)) =
          drop (Suc k) (db_entries db), Out', bt')"
        "length Out' = length O1" "take (unat bt1) Out' = take (unat bt1) O1"
        "stored Out' (unat bt1) (fit_prefix (unat Len) (unat bt1) (drop (Suc k) (db_entries db)))"
        "unat bt' = out_end (unat bt1) (fit_prefix (unat Len) (unat bt1) (drop (Suc k) (db_entries db)))"
      by blast
    have "read_loop db I Out Len bt = read_loop db (I + 1) O1 Len bt1"
      using ix lt add by (subst read_loop.simps) (simp add: bb O1_def)
    moreover have "take (unat bt) Out' = take (unat bt) (take (unat bt1) Out')"
      using bt1 by (simp add: min_absorb1)
    then have "take (unat bt) Out' = take (unat bt) Out"
      unfolding IH(3) O1_def using bt1 True Suc.prems(2) by (simp add: min_absorb1)
    moreover have "take (length e) (drop (unat bt) Out') =
        take (length e) (drop (unat bt) (take (unat bt1) Out'))"
      using bt1 le by (simp add: drop_take min_absorb1)
    then have "take (length e) (drop (unat bt) Out') = e"
      unfolding IH(3) O1_def using bt1 True Suc.prems(2) le by (simp add: drop_take min_absorb1)
    ultimately show ?thesis
      using IH bt1 True lenO by (simp add: dr O1_def)
  qed
qed

section \<open>The operations on an ordered buffer\<close>

text \<open>What a released buffer is: no invalid index element is left and no two names are alike.\<close>

definition distinct_names :: "bytes list \<Rightarrow> bool" where
  "distinct_names es \<longleftrightarrow> distinct (map (\<lambda>e. name_key (DirInfo_FileName e)) es)"

text \<open>The entries behind a marker in the order of names.\<close>

definition after_marker :: "wstr option \<Rightarrow> bytes list \<Rightarrow> bytes list" where
  "after_marker Marker es =
     (case Marker of None \<Rightarrow> es
      | Some m \<Rightarrow> filter (\<lambda>e. 0 < name_cmp (DirInfo_FileName e) m) es)"

lemma lstrlen_nonzero: "0 \<notin> set m \<Longrightarrow> lstrlen m = length m"
  by (induction m) (auto simp: lstrlen_def)

lemma drop_filter_split:
  assumes "k \<le> length xs" "\<And>i. i < k \<Longrightarrow> \<not> P (xs ! i)"
    "\<And>i. k \<le> i \<Longrightarrow> i < length xs \<Longrightarrow> P (xs ! i)"
  shows "filter P xs = drop k xs"
proof -
  have "filter P (take k xs) = []"
    using assms by (auto simp: filter_empty_conv in_set_conv_nth)
  moreover have "filter P (drop k xs) = drop k xs"
    using assms(1,3) by (auto simp: filter_id_conv in_set_conv_nth)
  ultimately show ?thesis
    by (metis append_Nil append_take_drop_id filter_append)
qed

lemma search_ok:
  assumes ok: "dirbuf_ok db" and valid: "invalid \<notin> set (Index db)"
    and sorted: "entries_sorted (db_entries db)" and dist: "distinct_names (db_entries db)"
    and m: "0 \<notin> set m"
  shows "\<exists>f n. FspFileSystemSearchDirectoryBuffer db m (int (lstrlen m)) = Some (f, n) \<and>
    unat (n + 1) \<le> length (db_entries db) \<and>
    after_marker (Some m) (db_entries db) = drop (unat (n + 1)) (db_entries db) \<and>
    f = (\<exists>e \<in> set (db_entries db). name_cmp (DirInfo_FileName e) m = 0)"
proof -
  define es where "es = db_entries db"
  define b where "b = bufbytes db"
  let ?key = "\<lambda>i. name_key (name_at b (Index db ! nat i))"
  have fi: "filter (\<lambda>a. a \<noteq> invalid) (Index db) = Index db"
    using valid by (intro filter_True) auto
  have es: "es = map (entry_at b) (Index db)"
    unfolding es_def db_entries_def fi b_def ..
  have eo: "entry_ok b (unat (LoMark db)) a" if "a \<in> set (Index db)" for a
    using that valid dirbuf_ok_None(4) [OF ok] dirbuf_ok_Some(7) [OF ok]
    by (cases "Buffer db") (auto simp: b_def bufbytes_def)
  have key: "name_key (DirInfo_FileName (es ! i)) = ?key (int i)" if "i < length (Index db)" for i
    using that by (simp add: es name_at_entry [OF eo [OF nth_mem]])
  have len: "length es = length (Index db)" by (simp add: es)
  have so: "?key i \<le> ?key j" "?key i \<noteq> ?key j" if ij: "0 \<le> i" "i < j" "j < int (length (Index db))" for i j
  proof -
    have n: "nat i < nat j" "nat j < length es" using ij len by auto
    with sorted have "\<not> 0 < name_cmp (DirInfo_FileName (es ! nat i)) (DirInfo_FileName (es ! nat j))"
      unfolding es_def [symmetric] entries_sorted_def by (auto simp: sorted_wrt_iff_nth_less not_less)
    then show "?key i \<le> ?key j" using n len ij key [of "nat i"] key [of "nat j"]
      by (simp add: name_cmp_greater not_less)
    show "?key i \<noteq> ?key j"
    proof -
      have k: "?key i = name_key (DirInfo_FileName (es ! nat i))"
          "?key j = name_key (DirInfo_FileName (es ! nat j))"
        using key [of "nat i"] key [of "nat j"] n len ij by simp_all
      have "nat i < length es" "nat i \<noteq> nat j" using n by auto
      with dist n show ?thesis
        unfolding k es_def [symmetric] distinct_names_def distinct_conv_nth by simp
    qed
  qed
  have "\<exists>f k. search_loop b (Index db) m (int (length m)) 0 (int (length (Index db)) - 1) =
        Some (f, word_of_int k) \<and> -1 \<le> k \<and> k < int (length (Index db)) \<and>
      (\<forall>i. 0 \<le> i \<longrightarrow> i \<le> k \<longrightarrow> ?key i \<le> name_key m) \<and>
      (\<forall>i. k < i \<longrightarrow> i < int (length (Index db)) \<longrightarrow> name_key m \<le> ?key i) \<and>
      (f \<longrightarrow> 0 \<le> k \<and> ?key k = name_key m) \<and>
      (\<not> f \<longrightarrow> (\<forall>i. 0 \<le> i \<longrightarrow> i < int (length (Index db)) \<longrightarrow> ?key i \<noteq> name_key m))"
    using so(1) Count_Index(2) [OF ok] by (intro search_loop_ok) auto
  then obtain f k where k: "search_loop b (Index db) m (int (length m)) 0 (int (length (Index db)) - 1) =
        Some (f, word_of_int k)" "-1 \<le> k" "k < int (length (Index db))"
    and le: "\<And>i. 0 \<le> i \<Longrightarrow> i \<le> k \<Longrightarrow> ?key i \<le> name_key m"
    and ge: "\<And>i. k < i \<Longrightarrow> i < int (length (Index db)) \<Longrightarrow> name_key m \<le> ?key i"
    and found: "f \<Longrightarrow> 0 \<le> k \<and> ?key k = name_key m"
    and nf: "\<And>i. \<not> f \<Longrightarrow> 0 \<le> i \<Longrightarrow> i < int (length (Index db)) \<Longrightarrow> ?key i \<noteq> name_key m"
    by blast
  have gt: "name_key m < ?key i" if "k < i" "i < int (length (Index db))" for i
  proof (cases f)
    case True
    with found so [of k i] that show ?thesis by auto
  next
    case False
    with nf [of i] ge [OF that] that k show ?thesis by auto
  qed
  have w: "unat (word_of_int k + 1 :: u32) = nat (k + 1)"
  proof -
    have "word_of_int k + 1 = (word_of_int (k + 1) :: u32)" by simp
    moreover have "k + 1 < 2 ^ 32" using k Count_Index(2) [OF ok] by simp
    ultimately show ?thesis using k by (simp only: unat_eq_nat_uint uint_word_of_int) simp
  qed
  have "filter (\<lambda>e. 0 < name_cmp (DirInfo_FileName e) m) es = drop (nat (k + 1)) es"
  proof (rule drop_filter_split)
    fix i assume "i < nat (k + 1)"
    then show "\<not> 0 < name_cmp (DirInfo_FileName (es ! i)) m"
      using le [of "int i"] key [of i] k by (auto simp: name_cmp_greater not_less)
  next
    fix i assume "nat (k + 1) \<le> i" "i < length es"
    then show "0 < name_cmp (DirInfo_FileName (es ! i)) m"
      using gt [of "int i"] key [of i] len by (auto simp: name_cmp_greater)
  qed (use k len in auto)
  moreover have "f = (\<exists>e \<in> set es. name_cmp (DirInfo_FileName e) m = 0)"
  proof
    assume f
    with found k len key [of "nat k"] have "name_cmp (DirInfo_FileName (es ! nat k)) m = 0" "nat k < length es"
      by (auto simp: name_cmp_zero)
    then show "\<exists>e \<in> set es. name_cmp (DirInfo_FileName e) m = 0" using nth_mem by blast
  next
    assume "\<exists>e \<in> set es. name_cmp (DirInfo_FileName e) m = 0"
    then obtain i where "i < length es" "name_cmp (DirInfo_FileName (es ! i)) m = 0"
      by (auto simp: in_set_conv_nth)
    then show f using nf [of "int i"] key [of i] len by (auto simp: name_cmp_zero)
  qed
  ultimately show ?thesis
    using k w len
    by (auto simp: FspFileSystemSearchDirectoryBuffer_def sint_Count [OF ok] lstrlen_nonzero [OF m]
        after_marker_def es_def [symmetric] b_def [symmetric])
qed

end
