(* ===== verification/DirBufSpec.thy ===== *)
theory DirBufSpec
  imports DirBufRead
begin

text \<open>
  What the directory buffer promises: its operations keep the memory layout, never access
  memory outside the buffer, and together turn a sequence of filled entries into an ordered
  listing that can be resumed from a marker.
\<close>

section \<open>The bounds of the initial capacity\<close>

lemma capacity_hint_bounds: "256 \<le> unat (capacity_hint n)" "unat (capacity_hint n) \<le> 0x100000"
  by (auto simp: capacity_hint_def Let_def word_less_nat_alt not_less split: option.split)

lemma reset_ok:
  assumes "dirbuf_ok db"
  shows "dirbuf_ok (db\<lparr>LoMark := 0, HiMark := Capacity db\<rparr>)"
    "db_entries (db\<lparr>LoMark := 0, HiMark := Capacity db\<rparr>) = []"
proof -
  have "Index (db\<lparr>LoMark := 0, HiMark := Capacity db\<rparr>) = []"
    using assms by (cases "Buffer db") (auto simp: dirbuf_ok_def Index_def bufbytes_def)
  then show "dirbuf_ok (db\<lparr>LoMark := 0, HiMark := Capacity db\<rparr>)"
    "db_entries (db\<lparr>LoMark := 0, HiMark := Capacity db\<rparr>) = []"
    using assms by (cases "Buffer db"; auto simp: dirbuf_ok_def db_entries_def)+
qed

lemma Lock_irrelevant [simp]:
  "dirbuf_ok (db\<lparr>Lock := l\<rparr>) = dirbuf_ok db" "db_entries (db\<lparr>Lock := l\<rparr>) = db_entries db"
  "Index (db\<lparr>Lock := l\<rparr>) = Index db"
  by (cases "Buffer db"; simp add: dirbuf_ok_def db_entries_def Index_def bufbytes_def)+

lemma release_ok:
  assumes "dirbuf_ok db" "Lock db = Exclusive"
  shows "\<exists>db'. FspFileSystemReleaseDirectoryBuffer db = Some db' \<and> Lock db' = Unlocked \<and>
    dirbuf_ok db' \<and> invalid \<notin> set (Index db') \<and>
    mset (db_entries db') = mset (db_entries db) \<and> entries_sorted (db_entries db')"
proof -
  from compact_ok [OF assms(1)] obtain db1 where
    1: "compact db = Some db1" "dirbuf_ok db1" "Lock db1 = Lock db"
      "Index db1 = filter (\<lambda>a. a \<noteq> invalid) (Index db)" "db_entries db1 = db_entries db"
    by blast
  then have "invalid \<notin> set (Index db1)" by simp
  from sort_ok [OF 1(2) this] obtain db2 where
    2: "FspFileSystemSortDirectoryBuffer db1 = Some db2" "dirbuf_ok db2" "Lock db2 = Lock db1"
      "mset (db_entries db2) = mset (db_entries db1)" "mset (Index db2) = mset (Index db1)"
      "entries_sorted (db_entries db2)"
    by blast
  have "invalid \<notin> set (Index db2)" using \<open>invalid \<notin> set (Index db1)\<close> 2(5) by (metis set_mset_mset)
  with 1 2 assms(2) show ?thesis
    by (auto simp: FspFileSystemReleaseDirectoryBuffer_def)
qed

text \<open>The final zero entry, written when everything fit.\<close>

lemma add_info_None:
  assumes "unat Len \<le> length Out"
  shows "FspFileSystemAddXxxInfo None Out Len bt =
    (if unat Len < unat bt + 2 then Some (False, Out, bt)
     else Some (True, take (unat bt) Out @ [0, 0] @ drop (unat bt + 2) Out, bt + 2))"
  using assms by (auto simp: FspFileSystemAddXxxInfo_def)

lemma stored_append:
  "stored Out off es \<Longrightarrow> n \<ge> out_end off es \<Longrightarrow> take n Out' = take n Out \<Longrightarrow> stored Out' off es"
proof (induction es arbitrary: off)
  case (Cons e es)
  let ?o = "off + pad8 (length e)"
  have "?o \<le> out_end ?o es" by (simp add: out_end_def)
  with Cons.prems(2) pad8_le(1) [of "length e"] have n: "off + length e \<le> n" by simp
  have "take (length e) (drop off Out') = take (length e) (drop off (take n Out'))"
    using n by (simp add: drop_take min_absorb1)
  also have "\<dots> = take (length e) (drop off Out)"
    unfolding Cons.prems(3) using n by (simp add: drop_take min_absorb1)
  finally show ?case using Cons by simp
qed simp

text \<open>
  The specification of a read: the output holds the longest prefix of the entries behind the
  marker that fits, and a zero entry when there is no more and there is room.
\<close>

definition read_result :: "bytes list \<Rightarrow> nat \<Rightarrow> bytes \<Rightarrow> nat \<Rightarrow> bytes \<Rightarrow> nat \<Rightarrow> bool" where
  "read_result es Len Out bt Out' bt' \<longleftrightarrow>
     (let p = fit_prefix Len bt es; n = out_end bt p in
      length Out' = length Out \<and> take bt Out' = take bt Out \<and> stored Out' bt p \<and>
      (if p = es \<and> n + 2 \<le> Len then bt' = n + 2 \<and> take 2 (drop n Out') = [0, 0] else bt' = n))"

lemma finish_read:
  assumes "unat Len \<le> length Out" "length Out1 = length Out"
    "take (unat bt) Out1 = take (unat bt) Out"
    "stored Out1 (unat bt) (fit_prefix (unat Len) (unat bt) es)"
    "unat bt1 = out_end (unat bt) (fit_prefix (unat Len) (unat bt) es)"
  shows "\<exists>Out' bt'.
    (if fit_prefix (unat Len) (unat bt) es = es
     then do { (_, Out, BytesTransferred) \<leftarrow> FspFileSystemAddXxxInfo None Out1 Len bt1;
               Some (Out, BytesTransferred) }
     else Some (Out1, bt1)) = Some (Out', bt') \<and> read_result es (unat Len) Out (unat bt) Out' (unat bt')"
proof (cases "fit_prefix (unat Len) (unat bt) es = es \<and> unat bt1 + 2 \<le> unat Len")
  case False
  then show ?thesis
    using assms by (auto simp: add_info_None read_result_def Let_def)
next
  case True
  define O2 where "O2 = take (unat bt1) Out1 @ [0, 0] @ drop (unat bt1 + 2) Out1"
  have b: "unat bt \<le> unat bt1" "unat bt1 \<le> length Out1"
    using assms True by (auto simp: out_end_def)
  then have t: "take (unat bt1) O2 = take (unat bt1) Out1" by (simp add: O2_def)
  then have "take (unat bt) O2 = take (unat bt) Out1"
    using b by (metis min.absorb1 take_take)
  moreover have "stored O2 (unat bt) es"
    using True assms(4,5) stored_append [of Out1 "unat bt" es "unat bt1" O2] t by simp
  moreover have "unat (bt1 + 2) = unat bt1 + 2"
    using True unat32_less [of Len] by (simp add: unat_word_ariths)
  moreover have "take 2 (drop (unat bt1) O2) = [0, 0]" "length O2 = length Out"
    using b True assms by (auto simp: O2_def)
  moreover have "FspFileSystemAddXxxInfo None Out1 Len bt1 = Some (True, O2, bt1 + 2)"
  proof -
    have "\<not> unat Len < unat bt1 + 2" using True by linarith
    with assms(1,2) show ?thesis by (simp add: add_info_None O2_def)
  qed
  ultimately show ?thesis
    using True assms(3,5) by (auto simp: read_result_def Let_def)
qed

lemma read_ok:
  assumes ok: "dirbuf_ok db" and valid: "invalid \<notin> set (Index db)"
    and sorted: "entries_sorted (db_entries db)" and dist: "Marker \<noteq> None \<Longrightarrow> distinct_names (db_entries db)"
    and m: "\<And>m. Marker = Some m \<Longrightarrow> 0 \<notin> set m"
    and lock: "Lock db \<noteq> Exclusive" and len: "unat Len \<le> length Out"
  shows "\<exists>Out' bt'. FspFileSystemReadDirectoryBuffer (Some db) Marker Out Len bt = Some (Out', bt') \<and>
    read_result (after_marker Marker (db_entries db)) (unat Len) Out (unat bt) Out' (unat bt')"
proof -
  have "\<exists>n. (case Marker of None \<Rightarrow> Some 0
      | Some m \<Rightarrow> do { (_, IndexNum) \<leftarrow> FspFileSystemSearchDirectoryBuffer db m (int (lstrlen m));
                       Some (IndexNum + 1) }) = Some n \<and> unat n \<le> length (db_entries db) \<and>
      after_marker Marker (db_entries db) = drop (unat n) (db_entries db)"
  proof (cases Marker)
    case (Some m)
    then have "Marker \<noteq> None" by simp
    from search_ok [OF ok valid sorted dist [OF this] m [OF Some]] Some show ?thesis by fastforce
  qed (auto simp: after_marker_def)
  then obtain n where n: "(case Marker of None \<Rightarrow> Some 0
      | Some m \<Rightarrow> do { (_, IndexNum) \<leftarrow> FspFileSystemSearchDirectoryBuffer db m (int (lstrlen m));
                       Some (IndexNum + 1) }) = Some n" "unat n \<le> length (db_entries db)"
      "after_marker Marker (db_entries db) = drop (unat n) (db_entries db)"
    by blast
  have "length (db_entries db) \<le> length (Index db)" by (simp add: db_entries_def)
  with n(2) have "unat n \<le> length (Index db)" by simp
  from read_loop_ok [OF ok valid this len refl, of bt] obtain Out1 bt1 where
    r: "read_loop db n Out Len bt = Some (fit_prefix (unat Len) (unat bt) (after_marker Marker (db_entries db)) =
        after_marker Marker (db_entries db), Out1, bt1)" and
    r': "length Out1 = length Out" "take (unat bt) Out1 = take (unat bt) Out"
      "stored Out1 (unat bt) (fit_prefix (unat Len) (unat bt) (after_marker Marker (db_entries db)))"
      "unat bt1 = out_end (unat bt) (fit_prefix (unat Len) (unat bt) (after_marker Marker (db_entries db)))"
    unfolding n(3) by blast
  have "FspFileSystemReadDirectoryBuffer (Some db) Marker Out Len bt =
    (if fit_prefix (unat Len) (unat bt) (after_marker Marker (db_entries db)) = after_marker Marker (db_entries db)
     then do { (_, Out, BytesTransferred) \<leftarrow> FspFileSystemAddXxxInfo None Out1 Len bt1;
               Some (Out, BytesTransferred) }
     else Some (Out1, bt1))"
    using lock n(1) r by (simp add: FspFileSystemReadDirectoryBuffer_def)
  then show ?thesis using finish_read [OF len r'] by simp
qed

section \<open>The order of names\<close>

lemma nulkey_nonzero: "0 \<notin> set a \<Longrightarrow> nulkey a = a"
  by (induction a) auto

definition plain_name :: "wstr \<Rightarrow> bool" where
  "plain_name a \<longleftrightarrow> a \<noteq> [] \<and> (\<forall>c \<in> set a. 1 < c)"

lemma plain_name_key:
  assumes "plain_name a"
  shows "name_key a = (if a = [0x2e] then ([1], 1) else if a = [0x2e, 0x2e] then ([1, 1], 2)
    else (a, length a))"
proof -
  have "0 \<notin> set a" using assms by (auto simp: plain_name_def)
  then have "nulkey (dots a (int (length a))) = dots a (int (length a))"
    by (intro nulkey_nonzero) (auto simp: dots_def)
  moreover have "dots a (int (length a)) =
      (if a = [0x2e] then [1] else if a = [0x2e, 0x2e] then [1, 1] else a)"
    using assms by (cases a rule: list.exhaust; cases "tl a"; cases "tl (tl a)")
      (auto simp: dots_def plain_name_def)
  ultimately show ?thesis by (auto simp: name_key_def)
qed

lemma plain_hd_gt: "plain_name a \<Longrightarrow> [1] < a \<and> [1, 1] < a"
  by (cases a) (auto simp: plain_name_def)

lemma name_cmp_le: "name_cmp a b \<le> 0 \<longleftrightarrow> name_key a \<le> name_key b"
  using name_cmp_greater [of a b] by (auto simp: not_less [symmetric])

lemma name_order_aux:
  "name_cmp a b < 0 \<longleftrightarrow> 0 < name_cmp b a"
  "name_cmp a b \<le> 0 \<Longrightarrow> name_cmp b c \<le> 0 \<Longrightarrow> name_cmp a c \<le> 0"
  "plain_name a \<Longrightarrow> plain_name b \<Longrightarrow> name_cmp a b = 0 \<longleftrightarrow> a = b"
  "plain_name a \<Longrightarrow> a \<noteq> [0x2e] \<Longrightarrow> name_cmp [0x2e] a < 0"
  "plain_name a \<Longrightarrow> a \<noteq> [0x2e] \<Longrightarrow> a \<noteq> [0x2e, 0x2e] \<Longrightarrow> name_cmp [0x2e, 0x2e] a < 0"
proof -
  show "name_cmp a b < 0 \<longleftrightarrow> 0 < name_cmp b a"
    by (simp add: name_cmp_less name_cmp_greater)
  show "name_cmp a b \<le> 0 \<Longrightarrow> name_cmp b c \<le> 0 \<Longrightarrow> name_cmp a c \<le> 0"
    by (simp add: name_cmp_le)
  have k: "plain_name [0x2e]" "plain_name [0x2e, 0x2e]" "\<not> plain_name [1]" "\<not> plain_name [1, 1]"
    by (auto simp: plain_name_def)
  show "plain_name a \<Longrightarrow> plain_name b \<Longrightarrow> name_cmp a b = 0 \<longleftrightarrow> a = b"
    using k by (auto simp: name_cmp_zero plain_name_key split: if_splits)
  show "plain_name a \<Longrightarrow> a \<noteq> [0x2e] \<Longrightarrow> name_cmp [0x2e] a < 0"
    using plain_hd_gt [of a] by (auto simp: name_cmp_less plain_name_key k)
  show "plain_name a \<Longrightarrow> a \<noteq> [0x2e] \<Longrightarrow> a \<noteq> [0x2e, 0x2e] \<Longrightarrow> name_cmp [0x2e, 0x2e] a < 0"
    using plain_hd_gt [of a] by (auto simp: name_cmp_less plain_name_key k)
qed

section \<open>The end of growth\<close>

text \<open>
  At a capacity of 2^31 the product \<open>Capacity * Factor\<close> wraps to 0: the buffer is shrunk to
  nothing and the move of the index leaves it. The properties therefore bound the capacity.
\<close>

lemma grow_wraps:
  assumes "Capacity db = 0x80000000" "HiMark db \<le> Capacity db" "alloc_ok h 0"
  shows "grow h db b = None"
proof -
  have "MemRealloc h b 0 = Some []" using assms(3) by (simp add: MemRealloc_def)
  moreover have "unat (Capacity db * 2) = 0" "\<not> Capacity db < 0x100000"
    using assms(1) by simp_all
  moreover have "unat (HiMark db) + unat (Capacity db - HiMark db) = 2 ^ 31"
    using assms(1,2) by (simp add: unat_sub word_le_nat_alt)
  ultimately show ?thesis
    by (auto simp add: grow_def Let_def buf_slice_def simp del: unat_eq_0)
qed

section \<open>A sample buffer\<close>

text \<open>Two entries, \<open>a\<close> and then \<open>b\<close>, filled into a buffer of 256 bytes.\<close>

definition sample_info :: "u8 \<Rightarrow> bytes" where
  "sample_info c = [106, 0] @ replicate 102 0 @ [c, 0]"

definition sample_dirbuf :: "srwlock \<Rightarrow> u32 list \<Rightarrow> dirbuf" where
  "sample_dirbuf lock index = \<lparr>Lock = lock, InitialCapacity = 256, Capacity = 256, LoMark = 224,
     HiMark = 248,
     Buffer = Some (sample_info 97 @ replicate 6 0 @ sample_info 98 @ replicate 30 0 @ bytes32 index)\<rparr>"

lemma sample_Index: "Index (sample_dirbuf lock index) = index"
  by (simp add: Index_def bufbytes_def sample_dirbuf_def sample_info_def)

lemma sample_Lock: "Lock (sample_dirbuf lock index) = lock"
  by (simp add: sample_dirbuf_def)

lemma sample_entry:
  "entry_ok (bufbytes (sample_dirbuf lock index)) 224 112"
  "entry_ok (bufbytes (sample_dirbuf lock index)) 224 0"
  "entry_at (bufbytes (sample_dirbuf lock index)) 112 = sample_info 98"
  "entry_at (bufbytes (sample_dirbuf lock index)) 0 = sample_info 97"
  by (simp_all add: bufbytes_def sample_dirbuf_def sample_info_def entry_ok_def entry_at_def
      DirInfo_Size_def)

lemma sample_ok:
  assumes "set index \<subseteq> {0, 112}" "length index = 2"
  shows "dirbuf_ok (sample_dirbuf lock index)"
proof -
  have "entry_ok (bufbytes (sample_dirbuf lock index)) 224 a" if "a \<in> set index" for a
    using that assms sample_entry by fastforce
  then have "\<forall>a \<in> set (Index (sample_dirbuf lock index)).
      a = invalid \<or> entry_ok (bufbytes (sample_dirbuf lock index)) 224 a"
    by (simp add: sample_Index)
  with assms(2) show ?thesis
    by (simp add: dirbuf_ok_def sample_dirbuf_def sample_info_def bufbytes_def)
qed

lemma sample_entries:
  "db_entries (sample_dirbuf lock [112, 0]) = [sample_info 98, sample_info 97]"
  "db_entries (sample_dirbuf lock [0, 112]) = [sample_info 97, sample_info 98]"
  by (simp_all add: db_entries_def sample_Index sample_entry)

lemma sample_info_ok:
  "valid_info (sample_info c)" "DirInfo_Size (sample_info c) = 106" "length (sample_info c) = 106"
  "DirInfo_FileName (sample_info c) = [ucast c]"
  by (simp_all add: valid_info_def DirInfo_Size_def sample_info_def DirInfo_FileName_def)

lemma sample_sorted:
  "entries_sorted [sample_info 97, sample_info 98]" "distinct_names [sample_info 97, sample_info 98]"
  by (simp_all add: entries_sorted_def distinct_names_def sample_info_ok name_cmp_eq name_key_def
      dots_def)

section \<open>The properties\<close>

text \<open>C1. The quicksort over the directory index ends, stays inside the index and its stack of 64
  ints for every index that fits the buffer, and returns the same offsets in the order of the
  names of their entries.\<close>

theorem quicksort_sorts:
  assumes "length index < 2 ^ 33"
  shows "\<exists>index'. FspFileSystemQSortDirectoryBuffer (FspFileSystemDirectoryBufferLess buf) index 0
           (int (length index) - 1) = Some index' \<and>
         mset index' = mset index \<and>
         sorted_wrt (\<lambda>a b. \<not> FspFileSystemDirectoryBufferLess buf b a) index'"
  using assms by (rule name_less.qsort_ok)

theorem quicksort_sorts_witness:
  "\<exists>index'. FspFileSystemQSortDirectoryBuffer (FspFileSystemDirectoryBufferLess
       (bufbytes (sample_dirbuf Exclusive [112, 0]))) [112, 0] 0 1 = Some index' \<and>
     mset index' = {#0, 112#}"
  using quicksort_sorts [of "[112, 0]" "bufbytes (sample_dirbuf Exclusive [112, 0])"]
  by (auto simp: add_mset_commute)

text \<open>The comparison of names is a total preorder, equal only for equal names, that puts the
  special names \<open>.\<close> and \<open>..\<close> before every other name (for names without control
  characters, as the volume's names are).\<close>

theorem name_order:
  "(name_cmp a b < 0 \<longleftrightarrow> 0 < name_cmp b a) \<and>
   (name_cmp a b \<le> 0 \<longrightarrow> name_cmp b c \<le> 0 \<longrightarrow> name_cmp a c \<le> 0) \<and>
   (plain_name a \<longrightarrow> plain_name b \<longrightarrow> (name_cmp a b = 0 \<longleftrightarrow> a = b)) \<and>
   (plain_name a \<longrightarrow> a \<noteq> [0x2e] \<longrightarrow> name_cmp [0x2e] a < 0) \<and>
   (plain_name a \<longrightarrow> a \<noteq> [0x2e] \<longrightarrow> a \<noteq> [0x2e, 0x2e] \<longrightarrow> name_cmp [0x2e, 0x2e] a < 0)"
  using name_order_aux by blast

theorem name_order_witness: "name_cmp [0x2e] [0x21] < 0 \<and> name_cmp [0x2e, 0x2e] [0x21] < 0"
  using name_order [of "[0x21]" "[0x21]" "[0x21]"] by (simp add: plain_name_def)

text \<open>C2. Filling a well-formed buffer whose capacity is at most 2^30 ends within the buffer's bounds,
  keeps the layout, and either puts the entry in front of the others or fails with
  \<open>STATUS_INSUFFICIENT_RESOURCES\<close>, leaving the entries alone, when the heap refuses memory.\<close>

theorem fill_adds_entry:
  assumes "dirbuf_ok db" "valid_info info" "unat (Capacity db) \<le> 2 ^ 30"
  shows "\<exists>r db'. FspFileSystemFillDirectoryBuffer h (Some info) db = Some (r, db') \<and>
    dirbuf_ok db' \<and> Lock db' = Lock db \<and>
    (r = (STATUS_SUCCESS, True) \<and>
       db_entries db' = take (DirInfo_Size info) info # db_entries db \<or>
     r = (STATUS_INSUFFICIENT_RESOURCES, False) \<and> db_entries db' = db_entries db \<and>
       (\<exists>n. \<not> alloc_ok h n))"
  using fill_ok [OF assms(1,2) disjI1 [OF assms(3)]] .

theorem fill_adds_entry_witness:
  "\<exists>db'. FspFileSystemFillDirectoryBuffer \<lparr>alloc_ok = (\<lambda>_. True), fresh_byte = (\<lambda>_. 0)\<rparr>
     (Some (sample_info 99)) (sample_dirbuf Exclusive [112, 0]) = Some ((0, True), db') \<and>
     dirbuf_ok db' \<and> db_entries db' = [sample_info 99, sample_info 98, sample_info 97]"
proof -
  have "unat (Capacity (sample_dirbuf Exclusive [112, 0])) \<le> 2 ^ 30"
    by (simp add: sample_dirbuf_def)
  from fill_adds_entry [OF sample_ok sample_info_ok(1) [of 99] this,
      of "\<lparr>alloc_ok = (\<lambda>_. True), fresh_byte = (\<lambda>_. 0)\<rparr>"]
  show ?thesis by (auto simp: sample_entries sample_info_ok)
qed

text \<open>C3. Releasing an acquired buffer drops the invalid index elements, sorts the entries by name,
  loses and adds none, and gives the lock back.\<close>

theorem release_sorts:
  assumes "dirbuf_ok db" "Lock db = Exclusive"
  shows "\<exists>db'. FspFileSystemReleaseDirectoryBuffer db = Some db' \<and> Lock db' = Unlocked \<and>
    dirbuf_ok db' \<and> 0xffffffff \<notin> set (Index db') \<and>
    mset (db_entries db') = mset (db_entries db) \<and> entries_sorted (db_entries db')"
  using assms by (rule release_ok)

theorem release_sorts_witness:
  "\<exists>db'. FspFileSystemReleaseDirectoryBuffer (sample_dirbuf Exclusive [112, 0]) = Some db' \<and>
     mset (db_entries db') = {#sample_info 97, sample_info 98#} \<and> entries_sorted (db_entries db')"
  using release_sorts [OF sample_ok, of "[112, 0]" Exclusive]
  by (auto simp: sample_dirbuf_def sample_entries [unfolded sample_dirbuf_def] add_mset_commute)

text \<open>On a released buffer with distinct names the binary search says whether the marker is the
  name of an entry, and the index it returns, plus one, is where the entries behind the marker
  begin, also when there is no such entry.\<close>

theorem search_finds_marker:
  assumes "dirbuf_ok db" "0xffffffff \<notin> set (Index db)"
    "entries_sorted (db_entries db)" "distinct_names (db_entries db)" "0 \<notin> set m"
  shows "\<exists>f n. FspFileSystemSearchDirectoryBuffer db m (int (lstrlen m)) = Some (f, n) \<and>
    unat (n + 1) \<le> length (db_entries db) \<and>
    after_marker (Some m) (db_entries db) = drop (unat (n + 1)) (db_entries db) \<and>
    f = (\<exists>e \<in> set (db_entries db). name_cmp (DirInfo_FileName e) m = 0)"
  using assms by (rule search_ok)

theorem search_finds_marker_witness:
  "\<exists>n. FspFileSystemSearchDirectoryBuffer (sample_dirbuf Unlocked [0, 112]) [97] 1 = Some (True, n)"
proof -
  have "dirbuf_ok (sample_dirbuf Unlocked [0, 112])" by (simp add: sample_ok)
  from search_finds_marker [OF this, of "[97]"] show ?thesis
    by (auto simp: sample_Index sample_entries sample_sorted lstrlen_def sample_info_ok name_cmp_eq
        dots_def)
qed

text \<open>C4. Reading a released buffer with distinct names fills the output with exactly the entries
  behind the marker, in order, as many as fit, and ends it with a zero entry when all of them
  fit; it writes nothing before the old end of the output.\<close>

theorem read_lists_rest:
  assumes "dirbuf_ok db" "0xffffffff \<notin> set (Index db)"
    "entries_sorted (db_entries db)" "distinct_names (db_entries db)"
    "\<And>m. Marker = Some m \<Longrightarrow> 0 \<notin> set m" "Lock db \<noteq> Exclusive" "unat Len \<le> length Out"
  shows "\<exists>Out' bt'. FspFileSystemReadDirectoryBuffer (Some db) Marker Out Len bt = Some (Out', bt') \<and>
    read_result (after_marker Marker (db_entries db)) (unat Len) Out (unat bt) Out' (unat bt')"
  using assms by (intro read_ok) auto

theorem read_lists_rest_witness:
  "\<exists>Out' bt'. FspFileSystemReadDirectoryBuffer (Some (sample_dirbuf Unlocked [0, 112])) (Some [97])
     (replicate 200 0) 200 0 = Some (Out', bt') \<and> take 106 Out' = sample_info 98 \<and> unat bt' = 114"
proof -
  have "dirbuf_ok (sample_dirbuf Unlocked [0, 112])" by (simp add: sample_ok)
  from read_lists_rest [OF this, of "Some [97]" 200 "replicate 200 0" 0] show ?thesis
    by (auto simp: sample_Index sample_entries sample_sorted sample_info_ok name_cmp_eq dots_def
        after_marker_def read_result_def Let_def pad8_def out_end_def sample_Lock)
qed

text \<open>C9. Acquiring: a first call makes an empty well-formed buffer, held exclusively, with an
  initial capacity between 256 bytes and 1 MB whatever the hint; a call with \<open>Reset\<close> empties an
  existing buffer and holds it; a call without leaves it alone and unlocked and returns false;
  failure to allocate is \<open>STATUS_INSUFFICIENT_RESOURCES\<close>.\<close>

theorem acquire_buffer:
  "FspFileSystemAcquireDirectoryBufferEx h n None None Reset hint =
     (if alloc_ok h n
      then Some ((STATUS_SUCCESS, True), Some \<lparr>Lock = Exclusive,
        InitialCapacity = capacity_hint hint, Capacity = 0, LoMark = 0, HiMark = 0, Buffer = None\<rparr>)
      else Some ((STATUS_INSUFFICIENT_RESOURCES, False), None)) \<and>
   dirbuf_ok \<lparr>Lock = Exclusive, InitialCapacity = capacity_hint hint, Capacity = 0, LoMark = 0,
     HiMark = 0, Buffer = None\<rparr> \<and>
   (dirbuf_ok db \<and> Lock db = Unlocked \<longrightarrow>
     FspFileSystemAcquireDirectoryBufferEx h n (Some db) p2 False hint =
       Some ((STATUS_SUCCESS, False), Some db) \<and>
     (\<exists>db'. FspFileSystemAcquireDirectoryBufferEx h n (Some db) p2 True hint =
        Some ((STATUS_SUCCESS, True), Some db') \<and> Lock db' = Exclusive \<and> dirbuf_ok db' \<and>
        db_entries db' = [] \<and> Capacity db' = Capacity db))"
proof -
  have "dirbuf_ok \<lparr>Lock = Exclusive, InitialCapacity = capacity_hint hint, Capacity = 0, LoMark = 0,
     HiMark = 0, Buffer = None\<rparr>"
    using capacity_hint_bounds by (simp add: dirbuf_ok_def)
  moreover have "dirbuf_ok (db\<lparr>Lock := Exclusive, LoMark := 0, HiMark := Capacity db\<rparr>) \<and>
      db_entries (db\<lparr>Lock := Exclusive, LoMark := 0, HiMark := Capacity db\<rparr>) = []"
    if "dirbuf_ok db"
    using reset_ok [of "db\<lparr>Lock := Exclusive\<rparr>"] that by simp
  ultimately show ?thesis
    by (auto simp: FspFileSystemAcquireDirectoryBufferEx_def AcquireExclusive_def)
qed

theorem acquire_buffer_witness:
  "\<exists>db'. FspFileSystemAcquireDirectoryBufferEx \<lparr>alloc_ok = (\<lambda>_. True), fresh_byte = (\<lambda>_. 0)\<rparr> 48
     (Some (sample_dirbuf Unlocked [0, 112])) None True 0 = Some ((0, True), Some db') \<and>
     dirbuf_ok db' \<and> db_entries db' = []"
  using acquire_buffer [of "\<lparr>alloc_ok = (\<lambda>_. True), fresh_byte = (\<lambda>_. 0)\<rparr>" 48 False 0
      "sample_dirbuf Unlocked [0, 112]" None]
    sample_ok [of "[0, 112]" Unlocked]
  by (auto simp: sample_dirbuf_def)

end
