(* ===== verification/Sid.thy ===== *)
theory Sid
  imports Prelude
begin

text \<open>
  Security identifiers and their mapping to POSIX user and group ids
  (\<open>src/shared/ku/posix.c\<close>). A \<open>SID\<close> is a record of its revision, its authority bytes and its
  subauthorities; \<open>SubAuthorityCount\<close> is the length of the last. The static variables of the
  code (domain SIDs, trusted domains, the id map) are a record. Memory requests are answered by
  the argument \<open>alloc\<close>.
\<close>

section \<open>Security identifiers\<close>

record sid =
  Revision :: u8
  IdentifierAuthority :: "u8 list"
  SubAuthority :: "u32 list"

definition authority :: "u8 \<Rightarrow> u8 list" where
  "authority a = [0, 0, 0, 0, 0, a]"

abbreviation mk_sid :: "u8 \<Rightarrow> u32 list \<Rightarrow> sid" where
  "mk_sid a subs \<equiv> \<lparr>Revision = 1, IdentifierAuthority = authority a, SubAuthority = subs\<rparr>"

definition GetLengthSid :: "sid \<Rightarrow> nat" where
  "GetLengthSid s = 8 + 4 * length (SubAuthority s)"

text \<open>
  \<open>IsValidSid\<close> of the system: a null pointer is not valid, the revision must be
  \<open>SID_REVISION\<close> and the count at most \<open>SID_MAX_SUB_AUTHORITIES\<close>.
\<close>

fun IsValidSid :: "sid option \<Rightarrow> bool" where
  "IsValidSid None = False"
| "IsValidSid (Some s) = (Revision s = 1 \<and> length (SubAuthority s) \<le> 15 \<and>
     length (IdentifierAuthority s) = 6)"

definition Authority5 :: "sid \<Rightarrow> u8" where
  "Authority5 s = IdentifierAuthority s ! 5"

definition FspWorldSid :: sid where "FspWorldSid = mk_sid 1 [0]"
definition FspAuthUsersSid :: sid where "FspAuthUsersSid = mk_sid 5 [11]"
definition FspUnmappedSid :: sid where "FspUnmappedSid = mk_sid 0 [65534]"

abbreviation (input) FspUnmappedUid :: u32 where "FspUnmappedUid \<equiv> 65534"

section \<open>State\<close>

record trusted_domain =
  DomainSid :: sid
  TrustPosixOffset :: u32

record posix_env =
  FspAccountDomainSid :: "sid option"
  FspPrimaryDomainSid :: "sid option"
  FspTrustedDomains :: "trusted_domain list"
  FspDistinctPermsForSameOwnerGroup :: bool
  FspPosixUidMap :: "(u32 \<times> sid) list"

section \<open>Operations\<close>

text \<open>
  The fix-up that ends \<open>FspPosixInitializeTrustPosixOffsets\<close>: an offset below 0x100000 is
  replaced by the value that Cygwin uses.
\<close>

definition fixup_offsets :: "trusted_domain list \<Rightarrow> trusted_domain list" where
  "fixup_offsets ds = map (\<lambda>d. if TrustPosixOffset d < 0x100000
     then d\<lparr>TrustPosixOffset := 0xfe500000\<rparr> else d) ds"

definition FspPosixIsRelativeSid :: "sid \<Rightarrow> sid \<Rightarrow> bool" where
  "FspPosixIsRelativeSid Sid1 Sid2 \<longleftrightarrow>
     Revision Sid1 = Revision Sid2 \<and>
     IdentifierAuthority Sid1 = IdentifierAuthority Sid2 \<and>
     length (SubAuthority Sid1) + 1 = length (SubAuthority Sid2) \<and>
     (\<forall>I < length (SubAuthority Sid1). SubAuthority Sid1 ! I = SubAuthority Sid2 ! I)"

definition FspPosixCreateSid :: "(nat \<Rightarrow> bool) \<Rightarrow> u8 \<Rightarrow> u32 list \<Rightarrow> sid option" where
  "FspPosixCreateSid alloc Authority subs =
     (if alloc (8 + 4 * length subs) then Some (mk_sid Authority subs) else None)"

text \<open>
  \<open>FspPosixSetUidMap\<close>: the map keeps at most 8 pairs; when memory runs out it is emptied.
\<close>

fun copy_uid_map :: "(nat \<Rightarrow> bool) \<Rightarrow> (u32 \<times> sid) list \<Rightarrow> (u32 \<times> sid) list \<Rightarrow>
    ntstatus \<times> (u32 \<times> sid) list" where
  "copy_uid_map alloc done [] = (STATUS_SUCCESS, done)"
| "copy_uid_map alloc done ((Uid, Sid) # rest) =
     (if alloc (GetLengthSid Sid) then copy_uid_map alloc (done @ [(Uid, Sid)]) rest
      else (STATUS_INSUFFICIENT_RESOURCES, []))"

definition FspPosixSetUidMap :: "(nat \<Rightarrow> bool) \<Rightarrow> (u32 \<times> sid) list \<Rightarrow> posix_env \<Rightarrow>
    ntstatus \<times> posix_env" where
  "FspPosixSetUidMap alloc pairs env =
     (let (Result, m) = copy_uid_map alloc [] (take 8 pairs)
      in (Result, env\<lparr>FspPosixUidMap := m\<rparr>))"

text \<open>The trusted domain whose offset is the largest that does not exceed the id.\<close>

fun best_domain :: "u32 \<Rightarrow> trusted_domain list \<Rightarrow> sid option \<Rightarrow> u32 \<Rightarrow> sid option \<times> u32" where
  "best_domain Uid [] best off = (best, off)"
| "best_domain Uid (d # ds) best off =
     (if TrustPosixOffset d \<le> Uid \<and> off < TrustPosixOffset d
      then best_domain Uid ds (Some (DomainSid d)) (TrustPosixOffset d)
      else best_domain Uid ds best off)"

text \<open>
  A SID of the form \<open>S-1-5-21-X-Y-Z-RID\<close> over a domain SID, whose subauthorities 1 to 3 are
  read; \<open>None\<close> when the read leaves the domain SID.
\<close>

definition account_sid :: "(nat \<Rightarrow> bool) \<Rightarrow> sid \<Rightarrow> u32 \<Rightarrow> (sid option) option" where
  "account_sid alloc d rid =
     (if 4 \<le> length (SubAuthority d)
      then Some (FspPosixCreateSid alloc 5
        [21, SubAuthority d ! 1, SubAuthority d ! 2, SubAuthority d ! 3, rid])
      else None)"

definition is_nt_domain :: "sid \<Rightarrow> bool" where
  "is_nt_domain s \<longleftrightarrow> Authority5 s = 5 \<and> length (SubAuthority s) = 4"

definition FspPosixMapUidToSid :: "(nat \<Rightarrow> bool) \<Rightarrow> posix_env \<Rightarrow> u32 \<Rightarrow> sid option" where
  "FspPosixMapUidToSid alloc env Uid = do {
     PSid \<leftarrow>
       (case map_of (FspPosixUidMap env) Uid of
          Some s \<Rightarrow> Some (if alloc (GetLengthSid s) then Some s else None)
        | None \<Rightarrow>
       if Uid < 0x200 \<or> Uid = 1000 then Some (FspPosixCreateSid alloc 5 [Uid])
       else if Uid < 1000 then Some (FspPosixCreateSid alloc 5 [32, Uid])
       else if Uid = 0xfff \<or> Uid = 0xffe then Some None
       else if 0x30000 \<le> Uid \<and> Uid < 0x40000 then
         (case FspAccountDomainSid env of
            None \<Rightarrow> Some None
          | Some d \<Rightarrow>
              if is_nt_domain d then account_sid alloc d (Uid - 0x30000) else Some None)
       else if 0x100000 \<le> Uid \<and> Uid < 0xff000000 then
         (if (Uid < 0x300000 \<or> FspTrustedDomains env = []) \<and>
             (case FspPrimaryDomainSid env of None \<Rightarrow> False | Some d \<Rightarrow> is_nt_domain d)
          then account_sid alloc (the (FspPrimaryDomainSid env)) (Uid - 0x100000)
          else
            (case best_domain Uid (FspTrustedDomains env) None 0 of
               (None, _) \<Rightarrow> Some None
             | (Some d, off) \<Rightarrow> account_sid alloc d (Uid - off)))
       else if 0x60000 \<le> Uid \<and> Uid < 0x70000 then Some (FspPosixCreateSid alloc 16 [Uid - 0x60000])
       else if 0x10000 \<le> Uid \<and> Uid < 0x11000 then
         Some (FspPosixCreateSid alloc (ucast (drop_bit 8 (Uid - 0x10000))) [(Uid - 0x10000) AND 0xff])
       else if FspUnmappedUid \<noteq> Uid \<and> 0x1000 \<le> Uid \<and> Uid < 0x100000 then
         Some (FspPosixCreateSid alloc 5 [drop_bit 12 Uid, Uid AND 0xfff])
       else Some None);
     Some (case PSid of None \<Rightarrow> FspUnmappedSid | Some s \<Rightarrow> s) }"

fun relative_offset :: "trusted_domain list \<Rightarrow> sid \<Rightarrow> u32 option" where
  "relative_offset [] Sid = None"
| "relative_offset (d # ds) Sid =
     (if FspPosixIsRelativeSid (DomainSid d) Sid then Some (TrustPosixOffset d)
      else relative_offset ds Sid)"

text \<open>\<open>FspPosixMapSidToUid\<close>: the status and \<open>*PUid\<close>; the SID may be the null pointer.\<close>

definition default_sid_to_uid :: "posix_env \<Rightarrow> sid \<Rightarrow> u32" where
  "default_sid_to_uid env Sid =
     (let Count = length (SubAuthority Sid);
          SubAuthority0 = (if 2 \<le> Count then SubAuthority Sid ! 0 else 0);
          Rid = SubAuthority Sid ! (Count - 1);
          Authority = Authority5 Sid
      in if Authority = 5 then
           (if Count = 1 then Rid
            else if Count = 2 \<and> SubAuthority0 = 32 then Rid
            else if 2 \<le> Count \<and> SubAuthority0 = 5 then 0xffffffff
            else if 5 \<le> Count \<and> SubAuthority0 = 21 then
              (if (case FspPrimaryDomainSid env of None \<Rightarrow> False | Some d \<Rightarrow> FspPosixIsRelativeSid d Sid)
               then 0x100000 + Rid
               else if (case FspAccountDomainSid env of None \<Rightarrow> False | Some d \<Rightarrow> FspPosixIsRelativeSid d Sid)
               then 0x30000 + Rid
               else (case relative_offset (FspTrustedDomains env) Sid of
                       None \<Rightarrow> 0xffffffff | Some off \<Rightarrow> off + Rid))
            else if Count = 2 then 0x1000 * SubAuthority0 + Rid
            else 0xffffffff)
         else if Authority = 16 then 0x60000 + Rid
         else if Authority5 FspUnmappedSid \<noteq> Authority \<or> SubAuthority FspUnmappedSid ! 0 \<noteq> Rid
         then 0x10000 + 0x100 * ucast Authority + Rid
         else 0xffffffff)"

definition FspPosixMapSidToUid :: "posix_env \<Rightarrow> sid option \<Rightarrow> ntstatus \<times> u32" where
  "FspPosixMapSidToUid env Sid =
     (case Sid of
        None \<Rightarrow> (STATUS_INVALID_SID, 0xffffffff)
      | Some s \<Rightarrow>
          (if \<not> IsValidSid Sid \<or> length (SubAuthority s) = 0 then (STATUS_INVALID_SID, 0xffffffff)
           else
             (let uid = (case find (\<lambda>(_, sid). sid = s) (FspPosixUidMap env) of
                    Some (uid, _) \<Rightarrow> uid
                  | None \<Rightarrow> default_sid_to_uid env s)
              in (STATUS_SUCCESS, if uid = 0xffffffff then FspUnmappedUid else uid))))"

datatype create_func = FspPosixMapUidToSid_func | Other_func

text \<open>\<open>FspDeleteSid\<close>: whether the memory is freed; the static unmapped SID never is.\<close>

definition FspDeleteSid :: "bool \<Rightarrow> create_func \<Rightarrow> bool" where
  "FspDeleteSid is_unmapped_object CreateFunc =
     (if is_unmapped_object then False else CreateFunc = FspPosixMapUidToSid_func)"

end
