(* ===== verification/SidProps.thy ===== *)
theory SidProps
  imports Sid
begin

text \<open>
  Which ids survive the way to a SID and back, for a machine whose account, primary and trusted
  domains have distinct SIDs of the usual form.
\<close>

definition domain_form :: "sid \<Rightarrow> bool" where
  "domain_form s \<longleftrightarrow> (\<exists>x y z. s = mk_sid 5 [21, x, y, z])"

definition domain_sids :: "posix_env \<Rightarrow> sid list" where
  "domain_sids env =
     (case FspPrimaryDomainSid env of None \<Rightarrow> [] | Some s \<Rightarrow> [s]) @
     (case FspAccountDomainSid env of None \<Rightarrow> [] | Some s \<Rightarrow> [s]) @
     map DomainSid (FspTrustedDomains env)"

definition env_ok :: "posix_env \<Rightarrow> bool" where
  "env_ok env \<longleftrightarrow> list_all domain_form (domain_sids env) \<and> distinct (domain_sids env) \<and>
     FspPosixUidMap env = []"

text \<open>The uid that comes back.\<close>

definition trusted_for :: "posix_env \<Rightarrow> u32 \<Rightarrow> bool" where
  "trusted_for env Uid \<longleftrightarrow>
     (\<exists>d \<in> set (FspTrustedDomains env). 0 < TrustPosixOffset d \<and> TrustPosixOffset d \<le> Uid)"

definition uid_image :: "posix_env \<Rightarrow> u32 \<Rightarrow> u32" where
  "uid_image env Uid =
     (if Uid \<le> 1000 then Uid
      else if Uid < 0x1000 then FspUnmappedUid
      else if 0x5000 \<le> Uid \<and> Uid < 0x6000 then FspUnmappedUid
      else if 0x10500 \<le> Uid \<and> Uid < 0x10600 then Uid - 0x10500
      else if 0x20000 \<le> Uid \<and> Uid < 0x21000 then Uid - 0x20000
      else if 0x30000 \<le> Uid \<and> Uid < 0x40000 then
        (if FspAccountDomainSid env = None then FspUnmappedUid else Uid)
      else if Uid < 0x100000 then Uid
      else if Uid < 0xff000000 then
        (if FspPrimaryDomainSid env \<noteq> None \<and> (Uid < 0x300000 \<or> FspTrustedDomains env = []) \<or>
            trusted_for env Uid then Uid else FspUnmappedUid)
      else FspUnmappedUid)"

lemma authority_5 [simp]: "authority a ! 5 = a" "length (authority a) = 6"
  by (simp_all add: authority_def)

lemma authority_inj [simp]: "authority a = authority b \<longleftrightarrow> a = b"
  by (simp add: authority_def)

lemma domain_formE:
  assumes "domain_form s"
  obtains x y z where "s = mk_sid 5 [21, x, y, z]"
  using assms by (auto simp: domain_form_def)

lemma relative_account:
  assumes "domain_form d" "domain_form e"
  shows "FspPosixIsRelativeSid d (mk_sid 5 [21, SubAuthority e ! 1, SubAuthority e ! 2,
    SubAuthority e ! 3, rid]) \<longleftrightarrow> d = e"
proof -
  obtain x y z where d: "d = mk_sid 5 [21, x, y, z]" using assms(1) by (rule domain_formE)
  obtain u v w where e: "e = mk_sid 5 [21, u, v, w]" using assms(2) by (rule domain_formE)
  show ?thesis
    by (auto simp: d e FspPosixIsRelativeSid_def All_less_Suc)
qed

lemma account_sid_ok:
  assumes "domain_form d" "\<And>n. alloc n"
  shows "account_sid alloc d rid = Some (Some (mk_sid 5 [21, SubAuthority d ! 1, SubAuthority d ! 2,
    SubAuthority d ! 3, rid]))" "is_nt_domain d"
  using assms by (auto simp: account_sid_def FspPosixCreateSid_def domain_form_def is_nt_domain_def
      Authority5_def)

lemma best_domain_ok:
  assumes "best_domain Uid ds best off = (b, o')" "off \<le> Uid"
  shows "o' \<le> Uid \<and> (b = best \<and> o' = off \<and> (\<forall>d \<in> set ds. TrustPosixOffset d \<le> Uid \<longrightarrow> TrustPosixOffset d \<le> off) \<or>
    (\<exists>d \<in> set ds. b = Some (DomainSid d) \<and> o' = TrustPosixOffset d \<and> off < o'))"
  using assms
proof (induction ds arbitrary: best off)
  case (Cons d ds)
  show ?case
  proof (cases "TrustPosixOffset d \<le> Uid \<and> off < TrustPosixOffset d")
    case True
    with Cons.IH [of "Some (DomainSid d)" "TrustPosixOffset d"] Cons.prems show ?thesis
      by (auto intro: order.strict_trans)
  next
    case False
    with Cons.IH [of best off] Cons.prems show ?thesis by (auto simp: not_less)
  qed
qed simp

lemma relative_offset_ok:
  assumes "list_all domain_form (map DomainSid ds)" "distinct (map DomainSid ds)" "d \<in> set ds"
  shows "relative_offset ds (mk_sid 5 [21, SubAuthority (DomainSid d) ! 1,
    SubAuthority (DomainSid d) ! 2, SubAuthority (DomainSid d) ! 3, rid]) = Some (TrustPosixOffset d)"
  using assms
proof (induction ds)
  case (Cons e ds)
  then have "domain_form (DomainSid e)" "domain_form (DomainSid d)"
    by (auto simp: list_all_iff)
  with relative_account [of "DomainSid e" "DomainSid d" rid] Cons show ?case
    by (auto simp: rev_image_eqI)
qed simp

text \<open>What \<open>FspPosixMapSidToUid\<close> makes of an account of one of the domains.\<close>

lemma account_to_uid:
  assumes "env_ok env" "s \<in> set (domain_sids env)"
  shows "FspPosixMapSidToUid env (Some (mk_sid 5 [21, SubAuthority s ! 1, SubAuthority s ! 2,
      SubAuthority s ! 3, rid])) =
    (let uid = (if FspPrimaryDomainSid env = Some s then 0x100000 + rid
         else if FspAccountDomainSid env = Some s then 0x30000 + rid
         else the (map_of (map (\<lambda>d. (DomainSid d, TrustPosixOffset d)) (FspTrustedDomains env)) s) + rid)
     in (STATUS_SUCCESS, if uid = 0xffffffff then FspUnmappedUid else uid))"
proof -
  define acc where "acc = mk_sid 5 [21, SubAuthority s ! 1, SubAuthority s ! 2, SubAuthority s ! 3, rid]"
  have acc: "Authority5 acc = 5" "length (SubAuthority acc) = 5" "SubAuthority acc ! 0 = 21"
    "SubAuthority acc ! 4 = rid" "IsValidSid (Some acc)"
    by (simp_all add: acc_def Authority5_def)
  have form: "domain_form x" if "x \<in> set (domain_sids env)" for x
    using assms(1) that by (auto simp: env_ok_def list_all_iff)
  have rel: "FspPosixIsRelativeSid x acc \<longleftrightarrow> x = s" if "x \<in> set (domain_sids env)" for x
    unfolding acc_def by (rule relative_account [OF form [OF that] form [OF assms(2)]])
  have p: "(case FspPrimaryDomainSid env of None \<Rightarrow> False | Some d \<Rightarrow> FspPosixIsRelativeSid d acc) \<longleftrightarrow>
      FspPrimaryDomainSid env = Some s"
    using rel by (auto simp: domain_sids_def split: option.splits)
  have a: "(case FspAccountDomainSid env of None \<Rightarrow> False | Some d \<Rightarrow> FspPosixIsRelativeSid d acc) \<longleftrightarrow>
      FspAccountDomainSid env = Some s"
    using rel by (auto simp: domain_sids_def split: option.splits)
  have t: "relative_offset (FspTrustedDomains env) acc =
      map_of (map (\<lambda>d. (DomainSid d, TrustPosixOffset d)) (FspTrustedDomains env)) s"
    if "FspPrimaryDomainSid env \<noteq> Some s" "FspAccountDomainSid env \<noteq> Some s"
  proof -
    from that assms(2) obtain d where d: "d \<in> set (FspTrustedDomains env)" "s = DomainSid d"
      by (auto simp: domain_sids_def split: option.splits)
    have td: "list_all domain_form (map DomainSid (FspTrustedDomains env))"
      "distinct (map DomainSid (FspTrustedDomains env))"
      using assms(1) by (auto simp: env_ok_def domain_sids_def)
    then have "map_of (map (\<lambda>d. (DomainSid d, TrustPosixOffset d)) (FspTrustedDomains env)) s =
        Some (TrustPosixOffset d)"
      using d by (intro map_of_is_SomeI) (auto simp: comp_def)
    with relative_offset_ok [OF td d(1), of rid] show ?thesis unfolding acc_def d(2) by (simp only:)
  qed
  have e: "\<exists>off. map_of (map (\<lambda>d. (DomainSid d, TrustPosixOffset d)) (FspTrustedDomains env)) s = Some off"
    if "FspPrimaryDomainSid env \<noteq> Some s" "FspAccountDomainSid env \<noteq> Some s"
  proof -
    from that assms(2) have "s \<in> fst ` set (map (\<lambda>d. (DomainSid d, TrustPosixOffset d)) (FspTrustedDomains env))"
      by (auto simp: domain_sids_def image_image split: option.splits)
    then show ?thesis by (metis map_of_eq_None_iff not_None_eq)
  qed
  have "default_sid_to_uid env acc =
      (if FspPrimaryDomainSid env = Some s then 0x100000 + rid
       else if FspAccountDomainSid env = Some s then 0x30000 + rid
       else (case relative_offset (FspTrustedDomains env) acc of
               None \<Rightarrow> 0xffffffff | Some off \<Rightarrow> off + rid))"
    by (simp add: default_sid_to_uid_def acc p a)
  also have "\<dots> = (if FspPrimaryDomainSid env = Some s then 0x100000 + rid
       else if FspAccountDomainSid env = Some s then 0x30000 + rid
       else the (map_of (map (\<lambda>d. (DomainSid d, TrustPosixOffset d)) (FspTrustedDomains env)) s) + rid)"
    using t e by (cases "FspPrimaryDomainSid env = Some s"; cases "FspAccountDomainSid env = Some s") auto
  finally show ?thesis
    using assms(1) acc(2,5) unfolding acc_def [symmetric]
    by (simp add: FspPosixMapSidToUid_def env_ok_def Let_def flip: length_greater_0_conv)
qed

section \<open>Packing and unpacking\<close>

lemma pack_bits: "push_bit n (drop_bit n v) + (v AND mask n) = (v :: u32)"
  using bits_ident [of n v] by (simp add: take_bit_eq_mask)

lemma pack_8: "v < 0x1000 \<Longrightarrow> 0x100 * ucast (ucast (drop_bit 8 v) :: u8) + (v AND 0xff) = v" for v :: u32
proof -
  assume "v < 0x1000"
  then have "unat (drop_bit 8 v) < 16" by (simp add: drop_bit_eq_div unat_div word_less_nat_alt)
  then have "take_bit 8 (drop_bit 8 v) = drop_bit 8 v"
    by (simp add: word_unat_eq_iff take_bit_eq_mod unat_mod)
  then have "ucast (ucast (drop_bit 8 v) :: u8) = drop_bit 8 v"
    by (simp add: word_unat_eq_iff unsigned_ucast_eq)
  moreover have "(0xff :: u32) = mask 8" by (simp add: mask_eq_exp_minus_1)
  ultimately show ?thesis using pack_bits [of 8 v] by (simp add: push_bit_eq_mult mult.commute)
qed

lemma pack_12: "0x1000 * drop_bit 12 v + (v AND 0xfff) = v" for v :: u32
proof -
  have "(0xfff :: u32) = mask 12" by (simp add: mask_eq_exp_minus_1)
  then show ?thesis using pack_bits [of 12 v] by (simp add: push_bit_eq_mult mult.commute)
qed

lemma mod_window: "k * m \<le> n \<Longrightarrow> n < k * m + m \<Longrightarrow> n mod m = n - k * m" for n :: nat
  by (rule mod_nat_eqI) auto

section \<open>The round trip\<close>

lemma unmapped_to_uid [simp]:
  "env_ok env \<Longrightarrow> FspPosixMapSidToUid env (Some FspUnmappedSid) = (0, FspUnmappedUid)"
  by (simp add: FspPosixMapSidToUid_def default_sid_to_uid_def env_ok_def FspUnmappedSid_def
      Authority5_def Let_def)

lemma one_sub_to_uid:
  "env_ok env \<Longrightarrow> FspPosixMapSidToUid env (Some (mk_sid a [r])) =
    (0, let u = (if a = 5 then r else if a = 16 then 0x60000 + r
        else if a \<noteq> 0 \<or> r \<noteq> 65534 then 0x10000 + 0x100 * ucast a + r else 0xffffffff)
     in if u = 0xffffffff then FspUnmappedUid else u)"
  by (simp add: FspPosixMapSidToUid_def default_sid_to_uid_def env_ok_def FspUnmappedSid_def
      Authority5_def Let_def)

lemma two_subs_to_uid:
  "env_ok env \<Longrightarrow> FspPosixMapSidToUid env (Some (mk_sid 5 [s, r])) =
    (0, let u = (if s = 32 then r else if s = 5 then 0xffffffff else 0x1000 * s + r)
     in if u = 0xffffffff then FspUnmappedUid else u)"
  by (simp add: FspPosixMapSidToUid_def default_sid_to_uid_def env_ok_def Authority5_def Let_def)

lemma uid_packed:
  assumes "env_ok env" "\<And>n. alloc n" "0x1000 \<le> Uid" "Uid < 0x100000"
    "\<not> (0x10000 \<le> Uid \<and> Uid < 0x11000)" "\<not> (0x30000 \<le> Uid \<and> Uid < 0x40000)"
    "\<not> (0x60000 \<le> Uid \<and> Uid < 0x70000)"
  shows "\<exists>s. FspPosixMapUidToSid alloc env Uid = Some s \<and>
    FspPosixMapSidToUid env (Some s) = (0, uid_image env Uid)"
proof -
  note lt = word_less_nat_alt word_le_nat_alt
  have m: "FspPosixUidMap env = []" using assms(1) by (simp add: env_ok_def)
  have c: "FspPosixCreateSid alloc a subs = Some (mk_sid a subs)" for a subs
    using assms(2) by (simp add: FspPosixCreateSid_def)
  have n: "\<not> Uid < 0x200" "Uid \<noteq> 1000" "\<not> Uid < 1000" "Uid \<noteq> 0xfff" "Uid \<noteq> 0xffe"
    "\<not> 0x100000 \<le> Uid"
    using assms(3,4) by (auto simp: lt)
  show ?thesis
  proof (cases "Uid = FspUnmappedUid")
    case True
    then have "FspPosixMapUidToSid alloc env Uid = Some FspUnmappedSid"
      by (simp add: FspPosixMapUidToSid_def m c)
    moreover have "uid_image env Uid = FspUnmappedUid" using True by (simp add: uid_image_def)
    ultimately show ?thesis using assms(1) by simp
  next
    case False
    let ?x = "drop_bit 12 Uid" and ?r = "Uid AND 0xfff"
    have s: "FspPosixMapUidToSid alloc env Uid = Some (mk_sid 5 [?x, ?r])"
      using assms(3-) n False
      by (auto simp: FspPosixMapUidToSid_def m c)
    have dx: "unat ?x = unat Uid div 4096" by (simp add: drop_bit_eq_div unat_div)
    have "(0xfff :: u32) = mask 12" by (simp add: mask_eq_exp_minus_1)
    then have "?r = Uid mod 4096" by (simp only: flip: take_bit_eq_mask) (simp add: take_bit_eq_mod)
    then have rx: "unat ?r = unat Uid mod 4096" by (simp add: unat_mod)
    have x32: "?x = 32 \<longleftrightarrow> 0x20000 \<le> Uid \<and> Uid < 0x21000"
      using assms(3,4) by (auto simp: word_unat_eq_iff dx lt)
    have x5: "?x = 5 \<longleftrightarrow> 0x5000 \<le> Uid \<and> Uid < 0x6000"
      using assms(3,4) by (auto simp: word_unat_eq_iff dx lt)
    have r: "?r \<noteq> 0xffffffff" by (auto simp: word_unat_eq_iff rx)
    consider (32) "?x = 32" | (5) "?x = 5" | (else) "?x \<noteq> 32" "?x \<noteq> 5" by blast
    then show ?thesis
    proof cases
      case 32
      with x32 have "uid_image env Uid = Uid - 0x20000" by (auto simp: uid_image_def lt)
      moreover have "?r = Uid - 0x20000"
        using 32 x32 mod_window [of 32 4096 "unat Uid"]
        by (simp add: word_unat_eq_iff rx unat_sub lt)
      ultimately show ?thesis using s r assms(1) 32 by (simp add: two_subs_to_uid)
    next
      case 5
      with x5 have "uid_image env Uid = FspUnmappedUid" by (auto simp: uid_image_def lt)
      then show ?thesis using s assms(1) 5 by (simp add: two_subs_to_uid)
    next
      case else
      have "uid_image env Uid = Uid"
        using else x32 x5 assms(3-) by (auto simp: uid_image_def lt)
      moreover have "0x1000 * ?x + ?r = Uid" by (rule pack_12)
      moreover have "Uid \<noteq> 0xffffffff" using assms(4) by auto
      ultimately show ?thesis using s assms(1) else by (simp add: two_subs_to_uid)
    qed
  qed
qed

lemma uid_to_sid_small:
  assumes "env_ok env" "\<And>n. alloc n" "Uid < 0x30000"
  shows "\<exists>s. FspPosixMapUidToSid alloc env Uid = Some s \<and>
    FspPosixMapSidToUid env (Some s) = (0, uid_image env Uid)"
proof -
  have m: "FspPosixUidMap env = []" using assms(1) by (simp add: env_ok_def)
  have c: "FspPosixCreateSid alloc a subs = Some (mk_sid a subs)" for a subs
    using assms(2) by (simp add: FspPosixCreateSid_def)
  note lt = word_less_nat_alt word_le_nat_alt
  consider "Uid < 0x200 \<or> Uid = 1000" | "0x200 \<le> Uid" "Uid < 1000" | "1000 < Uid" "Uid < 0x1000"
    | "0x10000 \<le> Uid" "Uid < 0x11000" | "0x1000 \<le> Uid" "Uid < 0x10000" | "0x11000 \<le> Uid" 
    by (cases "Uid < 0x200"; cases "Uid < 1000"; cases "Uid = 1000"; cases "Uid < 0x1000";
      cases "Uid < 0x10000"; cases "Uid < 0x11000"; simp add: not_less)
  then show ?thesis
  proof cases
    case 1
    then have "FspPosixMapUidToSid alloc env Uid = Some (mk_sid 5 [Uid])"
      by (simp add: FspPosixMapUidToSid_def m c)
    moreover have "Uid \<noteq> 0xffffffff" "uid_image env Uid = Uid" using 1 by (auto simp: uid_image_def lt)
    ultimately show ?thesis using assms by (simp add: one_sub_to_uid)
  next
    case 2
    then have "Uid \<noteq> 1000" "\<not> Uid < 0x200" by auto
    with 2 have "FspPosixMapUidToSid alloc env Uid = Some (mk_sid 5 [32, Uid])"
      by (simp add: FspPosixMapUidToSid_def m c)
    moreover have "Uid \<noteq> 0xffffffff" "uid_image env Uid = Uid" using 2 by (auto simp: uid_image_def lt)
    ultimately show ?thesis using assms by (simp add: two_subs_to_uid)
  next
    case 3
    then have "FspPosixMapUidToSid alloc env Uid = Some FspUnmappedSid"
      by (auto simp: FspPosixMapUidToSid_def m c lt)
    moreover have "uid_image env Uid = FspUnmappedUid" using 3 by (auto simp: uid_image_def lt)
    ultimately show ?thesis using assms by simp
  next
    case 4
    define v where "v = Uid - 0x10000"
    have v: "unat v = unat Uid - 0x10000" using 4 by (simp add: v_def unat_sub lt)
    have n: "\<not> Uid < 0x200" "Uid \<noteq> 1000" "\<not> Uid < 1000" "Uid \<noteq> 0xfff" "Uid \<noteq> 0xffe"
      "\<not> 0x30000 \<le> Uid" "\<not> 0x100000 \<le> Uid" "\<not> 0x60000 \<le> Uid"
      using 4 by (auto simp: lt)
    have s: "FspPosixMapUidToSid alloc env Uid = Some (mk_sid (ucast (drop_bit 8 v)) [v AND 0xff])"
      using 4 by (simp only: FspPosixMapUidToSid_def m c n v_def [symmetric] map_of.simps
        option.simps simp_thms if_False if_True Option.bind.simps)
    have dv: "unat (drop_bit 8 v) = unat v div 256" by (simp add: drop_bit_eq_div unat_div)
    have av: "unat (v AND 0xff) = unat v mod 256"
    proof -
      have "(0xff :: u32) = mask 8" by (simp add: mask_eq_exp_minus_1)
      then have "v AND 0xff = v mod 256" by (simp only: flip: take_bit_eq_mask) (simp add: take_bit_eq_mod)
      then show ?thesis by (simp add: unat_mod)
    qed
    have ud: "unat (ucast (drop_bit 8 v) :: u8) = unat v div 256"
      using v 4 by (simp add: unsigned_ucast_eq take_bit_nat_eq_self dv lt)
    have a5: "ucast (drop_bit 8 v) = (5 :: u8) \<longleftrightarrow> 0x10500 \<le> Uid \<and> Uid < 0x10600"
      using v 4 by (auto simp: word_unat_eq_iff ud lt)
    have a16: "ucast (drop_bit 8 v) \<noteq> (16 :: u8)"
      using v 4 by (auto simp: word_unat_eq_iff ud lt)
    have r: "v AND 0xff \<noteq> 65534"
      by (auto simp: word_unat_eq_iff av)
    show ?thesis
    proof (cases "ucast (drop_bit 8 v) = (5 :: u8)")
      case True
      with a5 have "uid_image env Uid = Uid - 0x10500" using 4 by (auto simp: uid_image_def lt)
      moreover have "v AND 0xff = Uid - 0x10500"
      proof -
        have "0x10500 \<le> unat Uid" "unat Uid < 0x10600" using True a5 by (auto simp: lt)
        then have "unat v mod 256 = unat v - 5 * 256" by (intro mod_window) (auto simp: v)
        then show ?thesis using \<open>0x10500 \<le> unat Uid\<close> by (simp add: word_unat_eq_iff av v unat_sub lt)
      qed
      moreover have "v AND 0xff \<noteq> 0xffffffff" by (auto simp: word_unat_eq_iff av)
      ultimately show ?thesis using s True assms by (simp add: one_sub_to_uid)
    next
      case False
      with a5 have "uid_image env Uid = Uid" using 4 by (auto simp: uid_image_def lt)
      moreover have "0x10000 + 0x100 * ucast (ucast (drop_bit 8 v) :: u8) + (v AND 0xff) = Uid"
        using pack_8 [of v] v 4 by (simp add: lt v_def add.assoc)
      moreover have "Uid \<noteq> 0xffffffff" using 4 by auto
      ultimately show ?thesis using s False a16 r assms by (simp add: one_sub_to_uid)
    qed
  next
    case 5
    then show ?thesis by (intro uid_packed [OF assms(1,2)]) (auto simp: lt)
  next
    case 6
    then show ?thesis using assms(3) by (intro uid_packed [OF assms(1,2)]) (auto simp: lt)
  qed
qed

lemma account_round_trip:
  assumes "env_ok env" "\<And>n. alloc n" "d \<in> set (domain_sids env)"
    "off \<le> Uid" "Uid < 0xff000000"
    "off = (if FspPrimaryDomainSid env = Some d then 0x100000
       else if FspAccountDomainSid env = Some d then 0x30000
       else the (map_of (map (\<lambda>d. (DomainSid d, TrustPosixOffset d)) (FspTrustedDomains env)) d))"
  shows "\<exists>s. account_sid alloc d (Uid - off) = Some (Some s) \<and>
    FspPosixMapSidToUid env (Some s) = (0, Uid)"
proof -
  have "domain_form d" using assms(1,3) by (auto simp: env_ok_def list_all_iff)
  note acc = account_sid_ok(1) [OF this, of alloc "Uid - off", OF assms(2)]
  have "Uid \<noteq> 0xffffffff" using assms(5) by auto
  then have "FspPosixMapSidToUid env (Some (mk_sid 5 [21, SubAuthority d ! 1, SubAuthority d ! 2,
      SubAuthority d ! 3, Uid - off])) = (0, Uid)"
    unfolding account_to_uid [OF assms(1,3)] using assms(6) by (simp add: Let_def)
  with acc show ?thesis by blast
qed

lemma best_is_trusted:
  assumes "env_ok env" "best_domain Uid (FspTrustedDomains env) None 0 = (b, off)"
  shows "(case b of None \<Rightarrow> \<not> trusted_for env Uid
    | Some d \<Rightarrow> trusted_for env Uid \<and> d \<in> set (domain_sids env) \<and> off \<le> Uid \<and>
        off = (if FspPrimaryDomainSid env = Some d then 0x100000
          else if FspAccountDomainSid env = Some d then 0x30000
          else the (map_of (map (\<lambda>d. (DomainSid d, TrustPosixOffset d)) (FspTrustedDomains env)) d)))"
proof -
  have "(0 :: u32) \<le> Uid" by simp
  from best_domain_ok [OF assms(2) this] have le: "off \<le> Uid" and
    cs: "b = None \<and> (\<forall>d \<in> set (FspTrustedDomains env). TrustPosixOffset d \<le> Uid \<longrightarrow> TrustPosixOffset d \<le> 0) \<or>
      (\<exists>d \<in> set (FspTrustedDomains env). b = Some (DomainSid d) \<and> off = TrustPosixOffset d \<and> 0 < off)"
    by auto
  show ?thesis
  proof (cases b)
    case None
    with cs show ?thesis by (auto simp: trusted_for_def word_gt_0)
  next
    case (Some e)
    with cs obtain d where d: "d \<in> set (FspTrustedDomains env)" "e = DomainSid d"
      "off = TrustPosixOffset d" "0 < off" by auto
    have ds: "distinct (map DomainSid (FspTrustedDomains env))"
      "FspPrimaryDomainSid env \<noteq> Some e" "FspAccountDomainSid env \<noteq> Some e"
      using assms(1) d by (auto simp: env_ok_def domain_sids_def split: option.splits)
    have "map_of (map (\<lambda>d. (DomainSid d, TrustPosixOffset d)) (FspTrustedDomains env)) e =
        Some (TrustPosixOffset d)"
      using d ds(1) by (intro map_of_is_SomeI) (auto simp: comp_def)
    moreover have "trusted_for env Uid" using d le by (auto simp: trusted_for_def)
    moreover have "e \<in> set (domain_sids env)" using d by (auto simp: domain_sids_def)
    ultimately show ?thesis using Some ds d(3) le by simp
  qed
qed

lemma uid_to_sid_large:
  assumes "env_ok env" "\<And>n. alloc n" "0x30000 \<le> Uid"
  shows "\<exists>s. FspPosixMapUidToSid alloc env Uid = Some s \<and>
    FspPosixMapSidToUid env (Some s) = (0, uid_image env Uid)"
proof -
  note lt = word_less_nat_alt word_le_nat_alt
  have m: "FspPosixUidMap env = []" using assms(1) by (simp add: env_ok_def)
  have c: "FspPosixCreateSid alloc a subs = Some (mk_sid a subs)" for a subs
    using assms(2) by (simp add: FspPosixCreateSid_def)
  have n: "\<not> Uid < 0x200" "Uid \<noteq> 1000" "\<not> Uid < 1000" "Uid \<noteq> 0xfff" "Uid \<noteq> 0xffe"
      "\<not> (0x10000 \<le> Uid \<and> Uid < 0x11000)"
    using assms(3) by (auto simp: lt)
  consider (account) "Uid < 0x40000" | (label) "0x60000 \<le> Uid" "Uid < 0x70000"
    | (packed) "0x40000 \<le> Uid" "Uid < 0x100000" "\<not> (0x60000 \<le> Uid \<and> Uid < 0x70000)"
    | (domains) "0x100000 \<le> Uid" "Uid < 0xff000000" | (high) "0xff000000 \<le> Uid"
    by (cases "Uid < 0x40000"; cases "Uid < 0x100000"; cases "Uid < 0xff000000";
      cases "0x60000 \<le> Uid \<and> Uid < 0x70000"; simp add: not_less)
  then show ?thesis
  proof cases
    case account
    show ?thesis
    proof (cases "FspAccountDomainSid env")
      case None
      then have "FspPosixMapUidToSid alloc env Uid = Some FspUnmappedSid"
        using account assms(3) n by (simp add: FspPosixMapUidToSid_def m)
      moreover have "uid_image env Uid = FspUnmappedUid"
        using None account assms(3) by (auto simp: uid_image_def lt)
      ultimately show ?thesis using assms(1) by simp
    next
      case (Some d)
      have i: "uid_image env Uid = Uid"
        using Some account assms(3) by (auto simp: uid_image_def lt)
      have d: "d \<in> set (domain_sids env)" "domain_form d" "FspPrimaryDomainSid env \<noteq> Some d"
        using assms(1) Some by (auto simp: domain_sids_def env_ok_def)
      have "\<exists>s. account_sid alloc d (Uid - 0x30000) = Some (Some s) \<and>
          FspPosixMapSidToUid env (Some s) = (0, Uid)"
        using d Some account assms(3) by (intro account_round_trip [OF assms(1,2)]) (auto simp: lt)
      then show ?thesis
        using Some account assms(3) n account_sid_ok(2) [OF d(2) assms(2)] i
        by (auto simp: FspPosixMapUidToSid_def m)
    qed
  next
    case label
    have nl: "\<not> Uid < 0x40000" "\<not> 0x100000 \<le> Uid" using label by (auto simp: lt)
    then have "FspPosixMapUidToSid alloc env Uid = Some (mk_sid 16 [Uid - 0x60000])"
      using label n by (simp add: FspPosixMapUidToSid_def m c)
    moreover have "uid_image env Uid = Uid" "Uid \<noteq> 0xffffffff"
      using label by (auto simp: uid_image_def lt)
    ultimately show ?thesis using assms(1) by (simp add: one_sub_to_uid)
  next
    case packed
    then show ?thesis by (intro uid_packed [OF assms(1,2)]) (auto simp: lt)
  next
    case domains
    have nl: "\<not> Uid < 0x40000" using domains by (auto simp: lt)
    have iu: "uid_image env Uid = (if FspPrimaryDomainSid env \<noteq> None \<and>
        (Uid < 0x300000 \<or> FspTrustedDomains env = []) \<or> trusted_for env Uid then Uid else FspUnmappedUid)"
      using domains by (auto simp: uid_image_def lt)
    show ?thesis
    proof (cases "FspPrimaryDomainSid env \<noteq> None \<and> (Uid < 0x300000 \<or> FspTrustedDomains env = [])")
      case True
      then obtain d where p: "FspPrimaryDomainSid env = Some d" by auto
      then have d: "d \<in> set (domain_sids env)" "domain_form d"
        using assms(1) by (auto simp: domain_sids_def env_ok_def)
      have "\<exists>s. account_sid alloc d (Uid - 0x100000) = Some (Some s) \<and>
          FspPosixMapSidToUid env (Some s) = (0, Uid)"
        using d p domains by (intro account_round_trip [OF assms(1,2)]) auto
      then obtain s where s: "account_sid alloc d (Uid - 0x100000) = Some (Some s)"
        "FspPosixMapSidToUid env (Some s) = (0, Uid)" by blast
      have "FspPosixMapUidToSid alloc env Uid = Some s"
        using True p domains nl n s(1) account_sid_ok(2) [OF d(2) assms(2)]
        by (auto simp: FspPosixMapUidToSid_def m)
      with s(2) True iu show ?thesis by simp
    next
      case False
      obtain b off where bd: "best_domain Uid (FspTrustedDomains env) None 0 = (b, off)"
        by (cases "best_domain Uid (FspTrustedDomains env) None 0")
      have pr: "\<not> ((Uid < 0x300000 \<or> FspTrustedDomains env = []) \<and>
          (case FspPrimaryDomainSid env of None \<Rightarrow> False | Some d \<Rightarrow> is_nt_domain d))"
        using False by (auto split: option.splits)
      have eq: "FspPosixMapUidToSid alloc env Uid = do {
          PSid \<leftarrow> (case b of None \<Rightarrow> Some None | Some d \<Rightarrow> account_sid alloc d (Uid - off));
          Some (case PSid of None \<Rightarrow> FspUnmappedSid | Some s \<Rightarrow> s) }"
        using domains nl n pr bd by (cases b) (auto simp: FspPosixMapUidToSid_def m)
      note bt = best_is_trusted [OF assms(1) bd]
      show ?thesis
      proof (cases b)
        case None
        with eq bt iu False assms(1) show ?thesis by auto
      next
        case (Some d)
        with bt have "\<exists>s. account_sid alloc d (Uid - off) = Some (Some s) \<and>
            FspPosixMapSidToUid env (Some s) = (0, Uid)"
          using domains by (intro account_round_trip [OF assms(1,2)]) auto
        with eq bt iu Some show ?thesis by auto
      qed
    qed
  next
    case high
    then have "FspPosixMapUidToSid alloc env Uid = Some FspUnmappedSid"
      using n by (auto simp: FspPosixMapUidToSid_def m lt)
    moreover have "uid_image env Uid = FspUnmappedUid" using high by (auto simp: uid_image_def lt)
    ultimately show ?thesis using assms(1) by simp
  qed
qed

lemma uid_round_trip_aux:
  assumes "env_ok env" "\<And>n. alloc n"
  shows "\<exists>s. FspPosixMapUidToSid alloc env Uid = Some s \<and>
    FspPosixMapSidToUid env (Some s) = (0, uid_image env Uid)"
  using uid_to_sid_small [OF assms] uid_to_sid_large [OF assms] by (meson not_less)

lemma copy_uid_map_ok:
  "\<forall>(u, s) \<in> set ps. alloc (GetLengthSid s) \<Longrightarrow>
     copy_uid_map alloc acc ps = (STATUS_SUCCESS, acc @ ps)"
  by (induction ps arbitrary: acc) auto

lemma copy_uid_map_fail:
  "p \<in> set ps \<Longrightarrow> \<not> alloc (GetLengthSid (snd p)) \<Longrightarrow>
     copy_uid_map alloc acc ps = (STATUS_INSUFFICIENT_RESOURCES, [])"
  by (induction ps arbitrary: acc) auto

lemma find_sid:
  "distinct (map snd m) \<Longrightarrow> (u, s) \<in> set m \<Longrightarrow> find (\<lambda>(_, sid). sid = s) m = Some (u, s)"
  by (induction m) (auto simp: rev_image_eqI)

section \<open>The properties\<close>

text \<open>C7. On a machine whose domains have distinct SIDs of the form \<open>S-1-5-21-X-Y-Z\<close>, and without an
  id map, every id has a SID and the SID maps back to \<open>uid_image\<close>: to the id itself, except
  that the ids without a SID of their own (1001 to 0xfff, the logon ids, accounts of an unknown
  domain, the top of the range) become the unmapped id, and the ids of the blocks
  0x105xx and 0x20xxx fall together with the ids of their last digits.\<close>

theorem uid_sid_round_trip:
  assumes "env_ok env" "\<And>n. alloc n"
  shows "\<exists>s. FspPosixMapUidToSid alloc env Uid = Some s \<and>
    FspPosixMapSidToUid env (Some s) = (STATUS_SUCCESS, uid_image env Uid)"
  using assms by (rule uid_round_trip_aux)

definition sample_env :: posix_env where
  "sample_env = \<lparr>FspAccountDomainSid = Some (mk_sid 5 [21, 1, 2, 3]),
     FspPrimaryDomainSid = Some (mk_sid 5 [21, 4, 5, 6]),
     FspTrustedDomains = [\<lparr>DomainSid = mk_sid 5 [21, 7, 8, 9], TrustPosixOffset = 0xfe500000\<rparr>],
     FspDistinctPermsForSameOwnerGroup = True, FspPosixUidMap = []\<rparr>"

theorem uid_sid_round_trip_witness:
  "\<exists>s. FspPosixMapUidToSid (\<lambda>_. True) sample_env 0x301f4 = Some s \<and>
     FspPosixMapSidToUid sample_env (Some s) = (0, 0x301f4)"
  using uid_sid_round_trip [where env = sample_env and alloc = "\<lambda>_. True" and Uid = "0x301f4"]
  by (auto simp: sample_env_def env_ok_def domain_sids_def domain_form_def uid_image_def)

text \<open>Setting the id map installs the first 8 pairs, which then take precedence over every
  default mapping in both directions, or, when memory runs out, leaves no map at all.\<close>

theorem uid_map_overrides:
  assumes "\<And>s. s \<in> snd ` set pairs \<Longrightarrow> IsValidSid (Some s) \<and> SubAuthority s \<noteq> []"
    and "distinct (map fst pairs)" "distinct (map snd pairs)" "0xffffffff \<notin> fst ` set pairs"
    and "FspPosixSetUidMap alloc pairs env = (Result, env')"
  shows "length (FspPosixUidMap env') \<le> 8 \<and>
    (if \<forall>(u, s) \<in> set (take 8 pairs). alloc (GetLengthSid s)
     then Result = STATUS_SUCCESS \<and> (\<forall>(u, s) \<in> set (take 8 pairs).
       FspPosixMapUidToSid alloc env' u = Some s \<and>
       FspPosixMapSidToUid env' (Some s) = (STATUS_SUCCESS, u))
     else Result = STATUS_INSUFFICIENT_RESOURCES \<and> FspPosixUidMap env' = [])"
proof (cases "\<forall>(u, s) \<in> set (take 8 pairs). alloc (GetLengthSid s)")
  case True
  let ?m = "take 8 pairs"
  have m: "Result = 0" "FspPosixUidMap env' = ?m"
    using assms(5) copy_uid_map_ok [OF True, of "[]"] by (auto simp: FspPosixSetUidMap_def)
  have d: "distinct (map fst ?m)" "distinct (map snd ?m)"
    using assms(2,3) by (simp_all add: take_map [symmetric] distinct_take)
  have "FspPosixMapUidToSid alloc env' u = Some s \<and> FspPosixMapSidToUid env' (Some s) = (0, u)"
    if p: "(u, s) \<in> set ?m" for u s
  proof -
    have v: "IsValidSid (Some s)" "SubAuthority s \<noteq> []" "u \<noteq> 0xffffffff"
      using assms(1) [of s] assms(4) in_set_takeD [OF p] by force+
    have "map_of ?m u = Some s" using d(1) p by (rule map_of_is_SomeI)
    moreover have "alloc (GetLengthSid s)" using True p by auto
    ultimately have "FspPosixMapUidToSid alloc env' u = Some s"
      by (simp add: FspPosixMapUidToSid_def m)
    moreover have "FspPosixMapSidToUid env' (Some s) = (0, u)"
      using v find_sid [OF d(2) p] by (simp add: FspPosixMapSidToUid_def m Let_def)
    ultimately show ?thesis ..
  qed
  with True m show ?thesis by auto
next
  case False
  then obtain p where "p \<in> set (take 8 pairs)" "\<not> alloc (GetLengthSid (snd p))" by auto
  from copy_uid_map_fail [where alloc = alloc, OF this, of "[]"] False assms(5) show ?thesis
    by (auto simp: FspPosixSetUidMap_def)
qed

theorem uid_map_overrides_witness:
  "FspPosixMapUidToSid (\<lambda>_. True) (snd (FspPosixSetUidMap (\<lambda>_. True) [(0, FspWorldSid)] sample_env)) 0 =
     Some FspWorldSid"
  using uid_map_overrides [of "[(0, FspWorldSid)]" "\<lambda>_. True" sample_env
      "fst (FspPosixSetUidMap (\<lambda>_. True) [(0, FspWorldSid)] sample_env)"
      "snd (FspPosixSetUidMap (\<lambda>_. True) [(0, FspWorldSid)] sample_env)"]
  by (simp add: FspWorldSid_def)

end
