(* ===== verification/Perm.thy ===== *)
theory Perm
  imports Sid
begin

text \<open>
  POSIX permissions as security descriptors and back (\<open>src/shared/ku/posix.c\<close>). A security
  descriptor is a record of its owner, group and discretionary list; an access control entry is
  its type, mask and SID. The calls of the system that copy and attach parts of a descriptor are
  modelled by what they are documented to do: \<open>AddAccess...Ace\<close> appends an entry and fails when
  the list has no room for it.
\<close>

section \<open>Access rights\<close>

type_synonym access_mask = u32

abbreviation (input) FILE_READ_DATA :: u32 where "FILE_READ_DATA \<equiv> 0x1"
abbreviation (input) FILE_WRITE_DATA :: u32 where "FILE_WRITE_DATA \<equiv> 0x2"
abbreviation (input) FILE_APPEND_DATA :: u32 where "FILE_APPEND_DATA \<equiv> 0x4"
abbreviation (input) FILE_READ_EA :: u32 where "FILE_READ_EA \<equiv> 0x8"
abbreviation (input) FILE_WRITE_EA :: u32 where "FILE_WRITE_EA \<equiv> 0x10"
abbreviation (input) FILE_EXECUTE :: u32 where "FILE_EXECUTE \<equiv> 0x20"
abbreviation (input) FILE_DELETE_CHILD :: u32 where "FILE_DELETE_CHILD \<equiv> 0x40"
abbreviation (input) FILE_READ_ATTRIBUTES :: u32 where "FILE_READ_ATTRIBUTES \<equiv> 0x80"
abbreviation (input) FILE_WRITE_ATTRIBUTES :: u32 where "FILE_WRITE_ATTRIBUTES \<equiv> 0x100"
abbreviation (input) DELETE :: u32 where "DELETE \<equiv> 0x10000"
abbreviation (input) READ_CONTROL :: u32 where "READ_CONTROL \<equiv> 0x20000"
abbreviation (input) WRITE_DAC :: u32 where "WRITE_DAC \<equiv> 0x40000"
abbreviation (input) WRITE_OWNER :: u32 where "WRITE_OWNER \<equiv> 0x80000"
abbreviation (input) SYNCHRONIZE :: u32 where "SYNCHRONIZE \<equiv> 0x100000"
abbreviation (input) GENERIC_ALL :: u32 where "GENERIC_ALL \<equiv> 0x10000000"
abbreviation (input) GENERIC_EXECUTE :: u32 where "GENERIC_EXECUTE \<equiv> 0x20000000"
abbreviation (input) GENERIC_WRITE :: u32 where "GENERIC_WRITE \<equiv> 0x40000000"
abbreviation (input) GENERIC_READ :: u32 where "GENERIC_READ \<equiv> 0x80000000"

text \<open>\<open>FspFileGenericMapping\<close> of \<open>src/dll/security.c\<close>: \<open>FILE_GENERIC_READ\<close> and so on.\<close>

record generic_mapping =
  GenericRead :: access_mask
  GenericWrite :: access_mask
  GenericExecute :: access_mask
  GenericAll :: access_mask

definition FspFileGenericMapping :: generic_mapping where
  "FspFileGenericMapping = \<lparr>GenericRead = 0x120089, GenericWrite = 0x120116,
     GenericExecute = 0x1200a0, GenericAll = 0x1f01ff\<rparr>"

definition FspPosixDefaultPerm :: access_mask where
  "FspPosixDefaultPerm = SYNCHRONIZE OR READ_CONTROL OR FILE_READ_ATTRIBUTES OR FILE_READ_EA"

definition FspPosixOwnerDefaultPerm :: access_mask where
  "FspPosixOwnerDefaultPerm = FspPosixDefaultPerm OR DELETE OR WRITE_DAC OR WRITE_OWNER OR
     FILE_WRITE_ATTRIBUTES OR FILE_WRITE_EA"

section \<open>Descriptors\<close>

datatype ace_type = Allowed | Denied | OtherAce

record ace =
  AceType :: ace_type
  Mask :: access_mask
  AceSid :: sid

text \<open>A list under construction: its size in bytes and its entries.\<close>

record acl =
  AclSize :: nat
  Aces :: "ace list"

record security_descriptor =
  Owner :: "sid option"
  Group :: "sid option"
  Dacl :: "ace list option"
  DaclProtected :: bool

definition ace_size :: "sid \<Rightarrow> nat" where
  "ace_size s = 8 + GetLengthSid s"

definition acl_used :: "ace list \<Rightarrow> nat" where
  "acl_used aces = 8 + sum_list (map (\<lambda>a. ace_size (AceSid a)) aces)"

definition AddAce :: "ace_type \<Rightarrow> access_mask \<Rightarrow> sid \<Rightarrow> acl \<Rightarrow> acl option" where
  "AddAce t m s a =
     (if acl_used (Aces a) + ace_size s \<le> AclSize a
      then Some (a\<lparr>Aces := Aces a @ [\<lparr>AceType = t, Mask = m, AceSid = s\<rparr>]\<rparr>) else None)"

definition relative_size :: "security_descriptor \<Rightarrow> nat" where
  "relative_size sd = 20 +
     (case Owner sd of None \<Rightarrow> 0 | Some s \<Rightarrow> GetLengthSid s) +
     (case Group sd of None \<Rightarrow> 0 | Some s \<Rightarrow> GetLengthSid s) +
     (case Dacl sd of None \<Rightarrow> 0 | Some aces \<Rightarrow> acl_used aces)"

section \<open>Permissions to a descriptor\<close>

definition FspPosixMapPermissionToAccessMask :: "u32 \<Rightarrow> u32 \<Rightarrow> access_mask" where
  "FspPosixMapPermissionToAccessMask Mode Perm =
     (let DeleteChild = (if 0x4000 = Mode AND 0x4200 then FILE_DELETE_CHILD else 0)
      in (if Perm AND 4 \<noteq> 0 then FILE_READ_DATA else 0) OR
         (if Perm AND 2 \<noteq> 0
          then FILE_WRITE_ATTRIBUTES OR FILE_WRITE_DATA OR FILE_APPEND_DATA OR DeleteChild else 0) OR
         (if Perm AND 1 \<noteq> 0 then FILE_EXECUTE else 0))"

text \<open>The computed size of the list, rounded up to a multiple of 4.\<close>

definition acl_size :: "sid \<Rightarrow> sid \<Rightarrow> u32 \<Rightarrow> u32 \<Rightarrow> nat" where
  "acl_size OwnerSid GroupSid OwnerDeny GroupDeny =
     (let Size = 8 + 12 * 3 + 12 * (of_bool (OwnerDeny \<noteq> 0) + of_bool (GroupDeny \<noteq> 0));
          Size = Size + (GetLengthSid OwnerSid - 4);
          Size = Size + (GetLengthSid GroupSid - 4);
          Size = Size + (GetLengthSid FspWorldSid - 4);
          Size = (if OwnerDeny \<noteq> 0 then Size + (GetLengthSid OwnerSid - 4) else Size);
          Size = (if GroupDeny \<noteq> 0 then Size + (GetLengthSid GroupSid - 4) else Size)
      in (Size + 3) div 4 * 4)"

text \<open>
  \<open>FspPosixMapPermissionsToSecurityDescriptor\<close>: the outer \<open>None\<close> is a read outside a domain
  SID; a result \<open>Inl\<close> is the status of a failure, \<open>lasterror\<close> the one that the system's last
  error gives. A null descriptor of the code is a missing \<open>Inr\<close>.
\<close>

definition build_acl :: "sid \<Rightarrow> sid \<Rightarrow> u32 \<Rightarrow> u32 \<Rightarrow> u32 \<Rightarrow> u32 \<Rightarrow> u32 \<Rightarrow> u32 \<Rightarrow> acl option" where
  "build_acl OwnerSid GroupSid Mode OwnerPerm GroupPerm WorldPerm OwnerDeny GroupDeny = do {
     let a = \<lparr>AclSize = acl_size OwnerSid GroupSid OwnerDeny GroupDeny, Aces = []\<rparr>;
     a \<leftarrow> AddAce Allowed (FspPosixOwnerDefaultPerm OR
            FspPosixMapPermissionToAccessMask (Mode AND NOT 0x200) OwnerPerm) OwnerSid a;
     a \<leftarrow> (if OwnerDeny \<noteq> 0
           then AddAce Denied (NOT FILE_WRITE_ATTRIBUTES AND
             FspPosixMapPermissionToAccessMask (Mode AND NOT 0x200) OwnerDeny) OwnerSid a
           else Some a);
     a \<leftarrow> AddAce Allowed (FspPosixDefaultPerm OR
            FspPosixMapPermissionToAccessMask Mode GroupPerm) GroupSid a;
     a \<leftarrow> (if GroupDeny \<noteq> 0
           then AddAce Denied (FspPosixMapPermissionToAccessMask Mode GroupDeny) GroupSid a
           else Some a);
     AddAce Allowed (FspPosixDefaultPerm OR
       FspPosixMapPermissionToAccessMask Mode WorldPerm) FspWorldSid a }"

definition FspPosixMapPermissionsToSecurityDescriptor ::
  "(nat \<Rightarrow> bool) \<Rightarrow> ntstatus \<Rightarrow> posix_env \<Rightarrow> u32 \<Rightarrow> u32 \<Rightarrow> u32 \<Rightarrow> (ntstatus + security_descriptor) option" where
  "FspPosixMapPermissionsToSecurityDescriptor alloc lasterror env Uid Gid Mode = do {
     OwnerSid \<leftarrow> FspPosixMapUidToSid alloc env Uid;
     GroupSid \<leftarrow> FspPosixMapUidToSid alloc env Gid;
     Some (
       let OwnerPerm = drop_bit 6 (Mode AND 0x1c0);
           GroupPerm = drop_bit 3 (Mode AND 0x38);
           WorldPerm = Mode AND 7;
           same = (\<not> FspDistinctPermsForSameOwnerGroup env \<and> OwnerSid = GroupSid);
           (OwnerPerm, GroupPerm) =
             (if same then (OwnerPerm AND GroupPerm, OwnerPerm AND GroupPerm)
              else (OwnerPerm, GroupPerm));
           OwnerDeny = (OwnerPerm XOR GroupPerm) AND GroupPerm;
           OwnerDeny = OwnerDeny OR ((OwnerPerm XOR WorldPerm) AND WorldPerm);
           GroupDeny = (GroupPerm XOR WorldPerm) AND WorldPerm
       in if \<not> alloc (acl_size OwnerSid GroupSid OwnerDeny GroupDeny)
          then Inl STATUS_INSUFFICIENT_RESOURCES
          else (case build_acl OwnerSid GroupSid Mode OwnerPerm GroupPerm WorldPerm OwnerDeny GroupDeny of
            None \<Rightarrow> Inl lasterror
          | Some a \<Rightarrow>
              (let sd = \<lparr>Owner = Some OwnerSid, Group = Some GroupSid, Dacl = Some (Aces a),
                   DaclProtected = True\<rparr>
               in if \<not> alloc (relative_size sd) then Inl STATUS_INSUFFICIENT_RESOURCES
                  else Inr sd))) }"

definition FspPosixMergePermissionsToSecurityDescriptor ::
  "(nat \<Rightarrow> bool) \<Rightarrow> ntstatus \<Rightarrow> posix_env \<Rightarrow> u32 \<Rightarrow> u32 \<Rightarrow> u32 \<Rightarrow> security_descriptor option \<Rightarrow>
   (ntstatus + security_descriptor) option" where
  "FspPosixMergePermissionsToSecurityDescriptor alloc lasterror env Uid Gid Mode Existing =
     (case Existing of
        None \<Rightarrow> FspPosixMapPermissionsToSecurityDescriptor alloc lasterror env Uid Gid Mode
      | Some old \<Rightarrow> do {
          OwnerSid \<leftarrow> (case Owner old of Some s \<Rightarrow> Some s | None \<Rightarrow> FspPosixMapUidToSid alloc env Uid);
          GroupSid \<leftarrow> (case Group old of Some s \<Rightarrow> Some s | None \<Rightarrow> FspPosixMapUidToSid alloc env Gid);
          let sd = \<lparr>Owner = Some OwnerSid, Group = Some GroupSid, Dacl = Dacl old,
            DaclProtected = (Dacl old \<noteq> None)\<rparr>;
          Some (if \<not> alloc (relative_size sd) then Inl STATUS_INSUFFICIENT_RESOURCES
                else Inr sd) })"

section \<open>A descriptor to permissions\<close>

definition FspPosixCanonicalizeAccessMask :: "access_mask \<Rightarrow> access_mask" where
  "FspPosixCanonicalizeAccessMask AccessMask =
     (let m = AccessMask;
          m = (if m AND GENERIC_READ \<noteq> 0 then m OR GenericRead FspFileGenericMapping else m);
          m = (if m AND GENERIC_WRITE \<noteq> 0 then m OR GenericWrite FspFileGenericMapping else m);
          m = (if m AND GENERIC_EXECUTE \<noteq> 0 then m OR GenericExecute FspFileGenericMapping else m);
          m = (if m AND GENERIC_ALL \<noteq> 0 then m OR GenericAll FspFileGenericMapping else m)
      in m AND NOT (GENERIC_READ OR GENERIC_WRITE OR GENERIC_EXECUTE OR GENERIC_ALL))"

definition FspPosixMapAccessMaskToPermission :: "access_mask \<Rightarrow> u32" where
  "FspPosixMapAccessMaskToPermission AccessMask =
     (if AccessMask AND FILE_READ_DATA \<noteq> 0 then 4 else 0) OR
     (if FILE_WRITE_DATA OR FILE_APPEND_DATA = AccessMask AND (FILE_WRITE_DATA OR FILE_APPEND_DATA)
      then 2 else 0) OR
     (if AccessMask AND FILE_EXECUTE \<noteq> 0 then 1 else 0)"

record collections =
  OwnerAllow :: access_mask
  OwnerDeny :: access_mask
  GroupAllow :: access_mask
  GroupDeny :: access_mask
  WorldAllow :: access_mask
  WorldDeny :: access_mask

text \<open>
  One entry of the list; the last component is \<open>AceUid\<close>, which keeps its value from entry to
  entry when neither SID of the file is missing.
\<close>

definition collect_ace ::
  "posix_env \<Rightarrow> sid option \<Rightarrow> sid option \<Rightarrow> u32 \<Rightarrow> u32 \<Rightarrow> ace \<Rightarrow> collections \<times> u32 \<Rightarrow> collections \<times> u32" where
  "collect_ace env OwnerSid GroupSid Uid Gid a = (\<lambda>(c, AceUid).
     (if AceType a = OtherAce then (c, AceUid)
      else
        let m = FspPosixCanonicalizeAccessMask (Mask a);
            allowed = (AceType a = Allowed)
        in if AceSid a = FspWorldSid \<or> AceSid a = FspAuthUsersSid then
             (if allowed then
                (c\<lparr>WorldAllow := WorldAllow c OR (m AND NOT (WorldDeny c)),
                   GroupAllow := GroupAllow c OR (m AND NOT (GroupDeny c)),
                   OwnerAllow := OwnerAllow c OR (m AND NOT (OwnerDeny c))\<rparr>, AceUid)
              else
                (c\<lparr>WorldDeny := WorldDeny c OR (m AND NOT (WorldAllow c)),
                   GroupDeny := GroupDeny c OR (m AND NOT (GroupAllow c)),
                   OwnerDeny := OwnerDeny c OR (m AND NOT (OwnerAllow c))\<rparr>, AceUid))
           else
             let AceUid = (if OwnerSid = None \<or> GroupSid = None
                   then snd (FspPosixMapSidToUid env (Some (AceSid a))) else AceUid);
                 c = (if (case GroupSid of Some s \<Rightarrow> s = AceSid a | None \<Rightarrow> Gid = AceUid) then
                        (if allowed then c\<lparr>GroupAllow := GroupAllow c OR (m AND NOT (GroupDeny c))\<rparr>
                         else c\<lparr>GroupDeny := GroupDeny c OR (m AND NOT (GroupAllow c))\<rparr>)
                      else c);
                 c = (if (case OwnerSid of Some s \<Rightarrow> s = AceSid a | None \<Rightarrow> Uid = AceUid) then
                        (if allowed then c\<lparr>OwnerAllow := OwnerAllow c OR (m AND NOT (OwnerDeny c))\<rparr>
                         else c\<lparr>OwnerDeny := OwnerDeny c OR (m AND NOT (OwnerAllow c))\<rparr>)
                      else c)
             in (c, AceUid)))"

definition acl_mode :: "posix_env \<Rightarrow> sid option \<Rightarrow> sid option \<Rightarrow> u32 \<Rightarrow> u32 \<Rightarrow> ace list \<Rightarrow> u32" where
  "acl_mode env OwnerSid GroupSid Uid Gid aces =
     (let c = fst (fold (collect_ace env OwnerSid GroupSid Uid Gid) aces
            (\<lparr>OwnerAllow = 0, OwnerDeny = 0, GroupAllow = 0, GroupDeny = 0, WorldAllow = 0,
              WorldDeny = 0\<rparr>, 0));
          Mode = push_bit 6 (FspPosixMapAccessMaskToPermission (OwnerAllow c)) OR
                 push_bit 3 (FspPosixMapAccessMaskToPermission (GroupAllow c)) OR
                 FspPosixMapAccessMaskToPermission (WorldAllow c)
      in if OwnerAllow c AND FILE_DELETE_CHILD \<noteq> 0 \<and>
            (GroupAllow c AND FILE_DELETE_CHILD = 0 \<and> Mode AND 0x10 \<noteq> 0 \<or>
             WorldAllow c AND FILE_DELETE_CHILD = 0 \<and> Mode AND 0x2 \<noteq> 0)
         then Mode OR 0x200 else Mode)"

text \<open>
  \<open>FspPosixMapSecurityDescriptorToPermissions\<close>: the arguments \<open>OrigUid\<close> and \<open>OrigGid\<close> are
  \<open>Some\<close> when the low bit of the pointer marks the value as optional. The result is the status
  and \<open>*PUid\<close>, \<open>*PGid\<close>, \<open>*PMode\<close>, which are zero on failure.
\<close>

definition FspPosixMapSecurityDescriptorToPermissions ::
  "posix_env \<Rightarrow> security_descriptor \<Rightarrow> u32 option \<Rightarrow> u32 option \<Rightarrow> ntstatus \<times> u32 \<times> u32 \<times> u32" where
  "FspPosixMapSecurityDescriptorToPermissions env sd OrigUid OrigGid =
     (let to_uid = (\<lambda>s orig. case (s, orig) of
            (None, Some u) \<Rightarrow> (STATUS_SUCCESS, u) | _ \<Rightarrow> FspPosixMapSidToUid env s);
          (Result, Uid) = to_uid (Owner sd) OrigUid
      in if \<not> NT_SUCCESS Result then (Result, 0, 0, 0)
         else
           let (Result, Gid) = to_uid (Group sd) OrigGid
           in if \<not> NT_SUCCESS Result then (Result, 0, 0, 0)
              else (STATUS_SUCCESS, Uid, Gid,
                case Dacl sd of None \<Rightarrow> 0x1ff
                | Some aces \<Rightarrow> acl_mode env (Owner sd) (Group sd) Uid Gid aces))"

end
