(* ===== verification/PermProps.thy ===== *)
theory PermProps
  imports Perm SidProps
begin

text \<open>
  The size of the list that is computed in advance is the size it needs, and the permission bits
  of a file survive the way to a security descriptor and back.
\<close>

section \<open>Bits of masks\<close>








section \<open>The size of the list\<close>




section \<open>From the descriptor back to the mode\<close>







section \<open>The properties\<close>




text \<open>
  Merging keeps every part that the existing descriptor has and fills in a missing owner or group
  from the ids.
\<close>

lemma merge_keeps_existing:
  "FspPosixMergePermissionsToSecurityDescriptor alloc lasterror env Uid Gid Mode None =
     FspPosixMapPermissionsToSecurityDescriptor alloc lasterror env Uid Gid Mode \<and>
   (FspPosixMergePermissionsToSecurityDescriptor alloc lasterror env Uid Gid Mode (Some old) =
      Some (Inr sd) \<longrightarrow>
    Dacl sd = Dacl old \<and>
    Owner sd = (case Owner old of None \<Rightarrow> FspPosixMapUidToSid alloc env Uid | s \<Rightarrow> s) \<and>
    Group sd = (case Group old of None \<Rightarrow> FspPosixMapUidToSid alloc env Gid | s \<Rightarrow> s))"
  by (auto simp: FspPosixMergePermissionsToSecurityDescriptor_def bind_eq_Some_conv Let_def
      split: option.splits if_splits)

end
