(* ===== verification/PosixPath.thy ===== *)
theory PosixPath
  imports Minimal
begin

text \<open>
  Path names between Windows and POSIX (\<open>src/shared/ku/posix.c\<close>): backslashes and slashes are
  exchanged and the characters that Windows forbids live in the private range \<open>U+F0XX\<close>. The
  conversions between UTF-16 and UTF-8 are calls of the system and arguments of the model
  (\<open>None\<close> is their failure, \<open>lasterror\<close> its status); strings end with a zero character, and a
  result \<open>None\<close> of a loop is a read behind the end.
\<close>

section \<open>The code\<close>

definition FspPosixInvalidPathChars :: "u32 list" where
  "FspPosixInvalidPathChars = [0x7fffffff, 0x2020002b, 0x00000008, 0x00000008]"

definition invalid_path_char :: "nat \<Rightarrow> bool" where
  "invalid_path_char c \<longleftrightarrow>
     c < 128 \<and> FspPosixInvalidPathChars ! (drop_bit 5 c) AND drop_bit (c AND 0x1f) 0x80000000 \<noteq> 0"

text \<open>The translation loop of \<open>FspPosixMapWindowsToPosixPathEx\<close> over the UTF-8 bytes.\<close>

fun to_posix_loop :: "bytes \<Rightarrow> bytes option" where
  "to_posix_loop [] = None"
| "to_posix_loop (c # p) =
     (if c = 0 then Some [0]
      else if c = 0x5c then do { q \<leftarrow> to_posix_loop p; Some (0x2f # q) }
      else if c = 0xef then
        (case p of
           [] \<Rightarrow> None
         | p1 # p' \<Rightarrow>
             (if 0xfc AND p1 = 0x80 then
                (case p' of
                   [] \<Rightarrow> None
                 | p2 # p'' \<Rightarrow>
                     (if 0xc0 AND p2 = 0x80 then
                        (let d = push_bit 6 (p1 AND 3) OR (p2 AND 0x3f)
                         in if invalid_path_char (unat d)
                            then do { q \<leftarrow> to_posix_loop p''; Some (d # q) }
                            else do { q \<leftarrow> to_posix_loop p''; Some (c # p1 # p2 # q) })
                      else do { q \<leftarrow> to_posix_loop p; Some (c # q) }))
              else do { q \<leftarrow> to_posix_loop p; Some (c # q) }))
      else do { q \<leftarrow> to_posix_loop p; Some (c # q) })"

definition FspPosixMapWindowsToPosixPathEx ::
  "(wstr \<Rightarrow> bytes option) \<Rightarrow> (nat \<Rightarrow> bool) \<Rightarrow> ntstatus \<Rightarrow> wstr \<Rightarrow> bool \<Rightarrow> (ntstatus + bytes) option" where
  "FspPosixMapWindowsToPosixPathEx wide_to_utf8 alloc lasterror WindowsPath Translate =
     (case wide_to_utf8 WindowsPath of
        None \<Rightarrow> Some (Inl lasterror)
      | Some PosixPath \<Rightarrow>
          (if \<not> alloc (length PosixPath) then Some (Inl STATUS_INSUFFICIENT_RESOURCES)
           else if Translate then map_option Inr (to_posix_loop PosixPath)
           else Some (Inr PosixPath)))"

definition to_windows_char :: "wchar \<Rightarrow> wchar" where
  "to_windows_char c =
     (if c = 0x2f then 0x5c else if invalid_path_char (unat c) then c OR 0xf000 else c)"

fun to_windows_loop :: "wstr \<Rightarrow> wstr option" where
  "to_windows_loop [] = None"
| "to_windows_loop (c # p) =
     (if c = 0 then Some (c # p) else map_option ((#) (to_windows_char c)) (to_windows_loop p))"

definition FspPosixMapPosixToWindowsPathEx ::
  "(bytes \<Rightarrow> wstr option) \<Rightarrow> (nat \<Rightarrow> bool) \<Rightarrow> ntstatus \<Rightarrow> bytes \<Rightarrow> bool \<Rightarrow> (ntstatus + wstr) option" where
  "FspPosixMapPosixToWindowsPathEx utf8_to_wide alloc lasterror PosixPath Translate =
     (case utf8_to_wide PosixPath of
        None \<Rightarrow> Some (Inl lasterror)
      | Some WindowsPath \<Rightarrow>
          (if \<not> alloc (2 * length WindowsPath) then Some (Inl STATUS_INSUFFICIENT_RESOURCES)
           else if Translate then map_option Inr (to_windows_loop WindowsPath)
           else Some (Inr WindowsPath)))"

text \<open>The kernel's in-place versions run over \<open>Size\<close> characters.\<close>

definition encode_char :: "wchar \<Rightarrow> wchar" where
  "encode_char c =
     (if c = 0x5c then 0x2f else if 0xf000 \<le> c \<and> c \<le> 0xf0ff then c AND NOT 0xf000 else c)"

definition FspPosixEncodeWindowsPath :: "wstr \<Rightarrow> nat \<Rightarrow> wstr" where
  "FspPosixEncodeWindowsPath WindowsPath Size =
     map encode_char (take Size WindowsPath) @ drop Size WindowsPath"

definition FspPosixDecodeWindowsPath :: "wstr \<Rightarrow> nat \<Rightarrow> wstr" where
  "FspPosixDecodeWindowsPath WindowsPath Size =
     map to_windows_char (take Size WindowsPath) @ drop Size WindowsPath"

section \<open>The table of invalid characters\<close>

text \<open>The reserved characters \<open>< > : " \ | ? *\<close> and the control characters.\<close>

definition reserved :: "nat set" where
  "reserved = {60, 62, 58, 34, 92, 124, 63, 42}"

lemma invalid_table: "\<forall>c \<in> set [0..<128]. invalid_path_char c \<longleftrightarrow> 0 < c \<and> c < 32 \<or> c \<in> reserved"
  unfolding reserved_def by code_simp

lemma invalid_path_char_iff: "invalid_path_char c \<longleftrightarrow> 0 < c \<and> c < 32 \<or> c \<in> reserved"
proof (cases "c < 128")
  case True
  with invalid_table show ?thesis by auto
qed (auto simp: invalid_path_char_def reserved_def)

end
