(* ===== verification/PosixPathProps.thy ===== *)
theory PosixPathProps
  imports PosixPath
begin

text \<open>
  The translations of path names are inverse to each other exactly on the names without private
  characters, and the translation of UTF-8 bytes is the translation of the characters.
\<close>

section \<open>Arithmetic of the private range\<close>

lemma and_not_f000: "x AND NOT 0xf000 = x mod 0x1000" for x :: wchar
proof -
  have "NOT (0xf000 :: wchar) = mask 12" by (simp add: mask_eq_exp_minus_1)
  then have "x AND NOT 0xf000 = take_bit 12 x" by (simp only: take_bit_eq_mask)
  then show ?thesis by (simp add: take_bit_eq_mod)
qed

lemma small_mod: "x < 0x1000 \<Longrightarrow> x mod 0x1000 = x" for x :: wchar
  by (simp add: word_unat_eq_iff unat_mod word_less_nat_alt)

lemma or_f000: "x < 0x1000 \<Longrightarrow> x OR 0xf000 = x + 0xf000" for x :: wchar
proof -
  assume "x < 0x1000"
  then have x: "x AND NOT 0xf000 = x" by (simp only: and_not_f000 small_mod)
  have "x AND 0xf000 = x AND (NOT 0xf000 AND 0xf000)" by (metis x and.assoc)
  then have "x AND 0xf000 = 0" by simp
  then show ?thesis by (simp only: disjunctive_add_eq_or)
qed

lemma invalid_small: "invalid_path_char (unat c) \<Longrightarrow> c < 0x80" for c :: wchar
  by (simp add: invalid_path_char_def word_less_nat_alt)

lemma to_private:
  fixes c :: wchar
  assumes "invalid_path_char (unat c)"
  shows "unat (c OR 0xf000) = unat c + 0xf000" "(c OR 0xf000) AND NOT 0xf000 = c"
    "0xf000 \<le> c OR 0xf000" "c OR 0xf000 \<le> 0xf0ff" "c OR 0xf000 \<noteq> 0x5c" "c OR 0xf000 \<noteq> 0x2f"
proof -
  note c = invalid_small [OF assms, unfolded word_less_nat_alt]
  have o: "c OR 0xf000 = c + 0xf000" using c by (intro or_f000) (simp add: word_less_nat_alt)
  then show u: "unat (c OR 0xf000) = unat c + 0xf000"
    using c by (simp add: unat_word_ariths)
  have "(unat c + 0xf000) mod 0x1000 = unat c" using c by (intro mod_nat_eqI) auto
  then have "unat ((c OR 0xf000) mod 0x1000) = unat c" by (simp add: unat_mod u)
  then show "(c OR 0xf000) AND NOT 0xf000 = c"
    unfolding and_not_f000 by (simp only: word_unat_eq_iff)
  show "0xf000 \<le> c OR 0xf000" "c OR 0xf000 \<le> 0xf0ff" "c OR 0xf000 \<noteq> 0x5c" "c OR 0xf000 \<noteq> 0x2f"
    using c by (auto simp: word_le_nat_alt u word_unat_eq_iff)
qed

section \<open>The in-place translations\<close>

lemma encode_decode_char:
  "encode_char (to_windows_char c) = c \<longleftrightarrow> \<not> (0xf000 \<le> c \<and> c \<le> 0xf0ff)"
proof (cases "0xf000 \<le> c \<and> c \<le> 0xf0ff")
  case True
  then have "c \<noteq> 0x2f" "\<not> invalid_path_char (unat c)" "c \<noteq> 0x5c"
    by (auto simp: word_le_nat_alt dest: invalid_small simp: word_less_nat_alt)
  then have "encode_char (to_windows_char c) = c mod 0x1000"
    using True by (simp add: to_windows_char_def encode_char_def and_not_f000 [simplified])
  moreover have "c mod 0x1000 \<noteq> c"
    using True by (auto simp: word_unat_eq_iff unat_mod word_le_nat_alt)
  ultimately show ?thesis using True by simp
next
  case False
  moreover have "invalid_path_char (unat (0x5c :: wchar))" by (simp add: invalid_path_char_iff reserved_def)
  ultimately show ?thesis
    using to_private [of c] by (auto simp: to_windows_char_def encode_char_def)
qed

lemma decode_encode_char:
  "to_windows_char (encode_char c) = c \<longleftrightarrow>
     c \<noteq> 0x2f \<and> (0xf000 \<le> c \<and> c \<le> 0xf0ff \<longrightarrow> invalid_path_char (unat c - 0xf000)) \<and>
     (invalid_path_char (unat c) \<longrightarrow> c = 0x5c)"
proof -
  consider "c = 0x5c" | "c \<noteq> 0x5c" "0xf000 \<le> c \<and> c \<le> 0xf0ff"
    | "c \<noteq> 0x5c" "\<not> (0xf000 \<le> c \<and> c \<le> 0xf0ff)" by blast
  then show ?thesis
  proof cases
    case 1
    then show ?thesis by (auto simp: to_windows_char_def encode_char_def word_le_nat_alt)
  next
    case 2
    define d where "d = c mod 0x1000"
    have r: "0xf000 \<le> unat c" "unat c \<le> 0xf0ff" using 2 by (simp_all add: word_le_nat_alt)
    have "unat c mod 0x1000 = unat c - 15 * 0x1000"
      using r by (intro mod_nat_eqI) auto
    then have d: "unat d = unat c - 0xf000" by (simp add: d_def unat_mod)
    have e: "encode_char c = d" using 2 by (simp add: encode_char_def d_def and_not_f000 [simplified])
    have ninv: "\<not> invalid_path_char (unat c)" "c \<noteq> 0x2f"
      using r by (auto dest!: invalid_small simp: word_less_nat_alt)
    have "d + 0xf000 = c" using r d by (simp add: word_unat_eq_iff unat_word_ariths)
    moreover have "d OR 0xf000 = d + 0xf000"
      using d r by (intro or_f000) (simp add: word_less_nat_alt)
    moreover have "d \<noteq> c" "c \<noteq> 0x5c" using d r by (auto simp: word_unat_eq_iff)
    moreover have "\<not> invalid_path_char (unat (0x2f :: wchar))"
      by (simp add: invalid_path_char_iff reserved_def)
    ultimately show ?thesis
      using 2 e d ninv by (auto simp: to_windows_char_def)
  next
    case 3
    then have "encode_char c = c" by (auto simp: encode_char_def)
    moreover have "c OR 0xf000 \<noteq> c" if "invalid_path_char (unat c)"
      using to_private(1) [OF that] by auto
    ultimately show ?thesis using 3 by (auto simp: to_windows_char_def)
  qed
qed

lemma map_id_iff: "map f xs = xs \<longleftrightarrow> (\<forall>x \<in> set xs. f x = x)"
  by (induction xs) auto

text \<open>C6. Decoding a POSIX name to a Windows name and encoding it again in place gives the name back
  exactly when it has no character of the private range; encoding a Windows name and decoding it
  again gives it back exactly when it has no slash and no forbidden character and its private
  characters stand for forbidden ones.\<close>

theorem path_round_trips:
  "(FspPosixEncodeWindowsPath (FspPosixDecodeWindowsPath s (length s)) (length s) = s \<longleftrightarrow>
      (\<forall>c \<in> set s. \<not> (0xf000 \<le> c \<and> c \<le> 0xf0ff))) \<and>
   (FspPosixDecodeWindowsPath (FspPosixEncodeWindowsPath s (length s)) (length s) = s \<longleftrightarrow>
      (\<forall>c \<in> set s. c \<noteq> 0x2f \<and>
         (0xf000 \<le> c \<and> c \<le> 0xf0ff \<longrightarrow> invalid_path_char (unat c - 0xf000)) \<and>
         (invalid_path_char (unat c) \<longrightarrow> c = 0x5c)))"
  by (simp add: FspPosixEncodeWindowsPath_def FspPosixDecodeWindowsPath_def map_id_iff comp_def
      encode_decode_char decode_encode_char)

theorem path_round_trips_witness:
  "let s = [0x2f, 0x61, 0x3a] in
     FspPosixEncodeWindowsPath (FspPosixDecodeWindowsPath s (length s)) (length s) = s"
  unfolding Let_def using path_round_trips [of "[0x2f, 0x61, 0x3a]"]
  by (simp add: word_le_nat_alt)

section \<open>UTF-8\<close>

text \<open>The UTF-8 bytes of a character of the basic plane (no surrogates).\<close>

definition utf8_char :: "wchar \<Rightarrow> bytes" where
  "utf8_char c =
     (if c < 0x80 then [ucast c]
      else if c < 0x800 then [0xc0 OR ucast (drop_bit 6 c), 0x80 OR (ucast c AND 0x3f)]
      else [0xe0 OR ucast (drop_bit 12 c), 0x80 OR (ucast (drop_bit 6 c) AND 0x3f),
            0x80 OR (ucast c AND 0x3f)])"

definition utf8 :: "wstr \<Rightarrow> bytes" where
  "utf8 s = concat (map utf8_char s)"

definition to_posix_char :: "wchar \<Rightarrow> wchar" where
  "to_posix_char c =
     (if c = 0x5c then 0x2f
      else if 0xf000 \<le> c \<and> c \<le> 0xf0ff \<and> invalid_path_char (unat c - 0xf000) then c - 0xf000
      else c)"

lemma u8_bits: "x = y \<longleftrightarrow> bit x 0 = bit y 0 \<and> bit x 1 = bit y 1 \<and> bit x 2 = bit y 2 \<and>
    bit x 3 = bit y 3 \<and> bit x 4 = bit y 4 \<and> bit x 5 = bit y 5 \<and> bit x 6 = bit y 6 \<and>
    bit x 7 = bit y 7" for x y :: u8
proof -
  have "x = y \<longleftrightarrow> (\<forall>n < LENGTH(8). bit x n = bit y n)" by (auto intro: bit_word_eqI)
  also have "LENGTH(8) = Suc (Suc (Suc (Suc (Suc (Suc (Suc (Suc 0)))))))" by simp
  finally show ?thesis by (simp add: All_less_Suc eval_nat_numeral conj_ac)
qed

lemma continuation:
  "0x80 OR (x AND 0x3f) \<noteq> (0 :: u8)" "0x80 OR (x AND 0x3f) \<noteq> (0x5c :: u8)"
  "0x80 OR (x AND 0x3f) \<noteq> (0xef :: u8)" "0xc0 AND (0x80 OR (x AND 0x3f)) = (0x80 :: u8)"
  "(0x80 OR (x AND 0x3f)) AND 0x3f = x AND (0x3f :: u8)"
  "0xfc AND (0x80 OR (x AND 0x3f)) = (0x80 :: u8) \<longleftrightarrow> x AND 0x3c = (0 :: u8)"
  by (auto simp: u8_bits bit_simps)

lemma high_bits: "unat c < 2 ^ k \<Longrightarrow> k \<le> n \<Longrightarrow> \<not> bit c n" for c :: wchar
proof -
  assume "unat c < 2 ^ k" "k \<le> n"
  then have "unat c < 2 ^ n" by (meson less_le_trans one_le_numeral power_increasing)
  then have "\<not> bit (unat c) n" unfolding bit_iff_odd [of "unat c" n] by simp
  then show ?thesis by (simp add: bit_unsigned_iff)
qed

lemma private_range:
  fixes c :: wchar
  shows "0xf000 \<le> c \<and> c \<le> 0xf0ff \<longleftrightarrow>
    bit c 15 \<and> bit c 14 \<and> bit c 13 \<and> bit c 12 \<and>
    \<not> bit c 11 \<and> \<not> bit c 10 \<and> \<not> bit c 9 \<and> \<not> bit c 8"
proof -
  have "0xf000 \<le> c \<and> c \<le> 0xf0ff \<longleftrightarrow> unat c div 256 = 240"
    by (auto simp: word_le_nat_alt)
  also have "\<dots> \<longleftrightarrow> drop_bit 8 c = 0xf0"
    by (simp add: word_unat_eq_iff drop_bit_eq_div unat_div)
  also have "\<dots> \<longleftrightarrow> ucast (drop_bit 8 c) = (0xf0 :: u8)"
  proof -
    have "unat (drop_bit 8 c) < 256"
      using unsigned_less [where ?'a = nat, of c] by (simp add: drop_bit_eq_div unat_div)
    then show ?thesis by (simp add: word_unat_eq_iff unsigned_ucast_eq take_bit_eq_mod)
  qed
  also have "\<dots> \<longleftrightarrow> bit c 15 \<and> bit c 14 \<and> bit c 13 \<and> bit c 12 \<and>
      \<not> bit c 11 \<and> \<not> bit c 10 \<and> \<not> bit c 9 \<and> \<not> bit c 8"
    by (auto simp: u8_bits bit_simps)
  finally show ?thesis .
qed

text \<open>One character: the loop copies its bytes, or writes the character it stands for.\<close>

lemma loop_plain:
  "b \<noteq> 0 \<Longrightarrow> b \<noteq> 0x5c \<Longrightarrow> b \<noteq> 0xef \<Longrightarrow> to_posix_loop (b # p) = map_option ((#) b) (to_posix_loop p)"
  by (simp add: map_conv_bind_option comp_def)

lemma loop_char:
  assumes "c \<noteq> 0"
  shows "to_posix_loop (utf8_char c @ p) = map_option ((@) (utf8_char (to_posix_char c))) (to_posix_loop p)"
proof -
  consider (ascii) "c < 0x80" | (two) "0x80 \<le> c" "c < 0x800" | (three) "0x800 \<le> c"
    by (cases "c < 0x80"; cases "c < 0x800") (auto simp: not_less)
  then show ?thesis
  proof cases
    case ascii
    have u: "unat (ucast c :: u8) = unat c"
      using ascii by (simp add: unsigned_ucast_eq take_bit_eq_mod word_less_nat_alt)
    have n: "ucast c \<noteq> (0 :: u8)" "ucast c \<noteq> (0xef :: u8)" "ucast c = (0x5c :: u8) \<longleftrightarrow> c = 0x5c"
      using ascii assms by (auto simp: word_unat_eq_iff u word_less_nat_alt)
    have "\<not> (0xf000 \<le> c \<and> c \<le> 0xf0ff)" using ascii by (auto simp: word_le_nat_alt word_less_nat_alt)
    then have tp: "to_posix_char c = (if c = 0x5c then 0x2f else c)" by (auto simp: to_posix_char_def)
    show ?thesis
    proof (cases "c = 0x5c")
      case True
      have "to_posix_char 0x5c = 0x2f" by (simp add: to_posix_char_def)
      with True show ?thesis by (simp add: utf8_char_def map_conv_bind_option comp_def)
    next
      case False
      then show ?thesis
        using ascii n by (simp add: tp utf8_char_def map_conv_bind_option comp_def)
    qed
  next
    case two
    then have l: "\<not> c < 0x80" "unat c < 2 ^ 11" "c \<noteq> 0x5c"
      by (auto simp: word_less_nat_alt word_le_nat_alt)
    have hb: "\<not> bit c 11" "\<not> bit c 12" "\<not> bit c 13" by (rule high_bits [OF l(2)]; simp)+
    then have "\<not> (0xf000 \<le> c \<and> c \<le> 0xf0ff)" by (simp add: private_range)
    then have tp: "to_posix_char c = c" using l(3) by (auto simp: to_posix_char_def)
    have "0xc0 OR ucast (drop_bit 6 c) \<noteq> (0 :: u8)" "0xc0 OR ucast (drop_bit 6 c) \<noteq> (0x5c :: u8)"
      "0xc0 OR ucast (drop_bit 6 c) \<noteq> (0xef :: u8)"
      using hb by (auto simp: u8_bits bit_simps)
    then show ?thesis
      using two l continuation(1-3) [of "ucast c"]
      by (simp add: tp utf8_char_def map_conv_bind_option comp_def)
  next
    case three
    then have l: "\<not> c < 0x80" "\<not> c < 0x800" "c \<noteq> 0x5c" by (auto simp: word_less_nat_alt word_le_nat_alt)
    define L p1 p2 :: u8 where "L = 0xe0 OR ucast (drop_bit 12 c)"
      and "p1 = 0x80 OR (ucast (drop_bit 6 c) AND 0x3f)" and "p2 = 0x80 OR (ucast c AND 0x3f)"
    have u: "utf8_char c = [L, p1, p2]" using l by (simp add: utf8_char_def L_def p1_def p2_def)
    have L: "L \<noteq> 0" "L \<noteq> 0x5c" by (auto simp: L_def u8_bits bit_simps)
    have p1: "p1 \<noteq> 0" "p1 \<noteq> 0x5c" "p1 \<noteq> 0xef" "0xc0 AND p1 = 0x80"
      unfolding p1_def by (rule continuation)+
    have p2: "p2 \<noteq> 0" "p2 \<noteq> 0x5c" "p2 \<noteq> 0xef" "0xc0 AND p2 = 0x80"
      unfolding p2_def by (rule continuation)+
    have hb: "\<not> bit c n" if "16 \<le> n" for n using bit_imp_le_length [of c n] that by auto
    have priv: "0xf000 \<le> c \<and> c \<le> 0xf0ff \<longleftrightarrow> L = 0xef \<and> 0xfc AND p1 = 0x80"
      unfolding private_range L_def p1_def using hb [of 16] by (auto simp: u8_bits bit_simps)
    have d: "push_bit 6 (p1 AND 3) OR (p2 AND 0x3f) = ucast c"
      unfolding p1_def p2_def by (auto simp: u8_bits bit_simps)
    show ?thesis
    proof (cases "0xf000 \<le> c \<and> c \<le> 0xf0ff")
      case False
      then have tp: "to_posix_char c = c" using l(3) by (auto simp: to_posix_char_def)
      have "to_posix_loop (L # p1 # p2 # p) = map_option ((#) L) (to_posix_loop (p1 # p2 # p))"
        using L False priv by (cases "L = 0xef") (auto simp: map_conv_bind_option comp_def)
      then show ?thesis
        using p1 p2 by (simp add: u tp map_conv_bind_option comp_def)
    next
      case True
      have "unat c mod 256 = unat c - 0xf000"
        using True by (intro mod_nat_eqI) (auto simp: word_le_nat_alt)
      then have uc: "unat (ucast c :: u8) = unat c - 0xf000"
        by (simp add: unsigned_ucast_eq take_bit_eq_mod)
      have eq: "to_posix_loop (L # p1 # p2 # p) =
          (if invalid_path_char (unat c - 0xf000) then map_option ((#) (ucast c)) (to_posix_loop p)
           else map_option (\<lambda>q. L # p1 # p2 # q) (to_posix_loop p))"
        using L True priv p2(4) unfolding uc [symmetric] d [symmetric]
        by (simp add: map_conv_bind_option comp_def Let_def)
      show ?thesis
      proof (cases "invalid_path_char (unat c - 0xf000)")
        case inv: True
        then have tp: "to_posix_char c = c - 0xf000" using True l(3) by (auto simp: to_posix_char_def)
        have us: "unat (c - 0xf000) = unat c - 0xf000"
          using True by (simp add: unat_sub word_le_nat_alt)
        have "unat c - 0xf000 < 0x80" using inv by (simp add: invalid_path_char_def)
        then have "c - 0xf000 < 0x80" using us by (simp add: word_less_nat_alt)
        moreover have "ucast (c - 0xf000) = (ucast c :: u8)"
          using us uc \<open>unat c - 0xf000 < 0x80\<close>
          by (simp add: word_unat_eq_iff unsigned_ucast_eq take_bit_eq_mod)
        ultimately have "utf8_char (to_posix_char c) = [ucast c]" by (simp add: tp utf8_char_def)
        moreover have "(@) [ucast c] = (#) (ucast c :: u8)" by (rule ext) simp
        ultimately show ?thesis using eq inv by (simp add: u del: to_posix_loop.simps)
      next
        case False
        then have "to_posix_char c = c" using l(3) by (auto simp: to_posix_char_def)
        moreover have "(@) [L, p1, p2] = (\<lambda>q. L # p1 # p2 # q)" by (rule ext) simp
        ultimately show ?thesis using eq False by (simp add: u del: to_posix_loop.simps)
      qed
    qed
  qed
qed

text \<open>On the UTF-8 bytes of a Windows name of the basic plane the loop yields the UTF-8 bytes of
  the POSIX name: slashes for backslashes, forbidden characters for their private stand-ins,
  every other character as it is; it never reads behind the end.\<close>

theorem posix_bytes_are_chars:
  assumes "0 \<notin> set s"
  shows "to_posix_loop (utf8 s @ [0]) = Some (utf8 (map to_posix_char s) @ [0])"
  using assms
  by (induction s) (auto simp: utf8_def loop_char)

theorem posix_bytes_are_chars_witness:
  "to_posix_loop (utf8 [0x5c, 0xf03a, 0xf041] @ [0]) = Some (utf8 [0x2f, 0x3a, 0xf041] @ [0])"
  using posix_bytes_are_chars [of "[0x5c, 0xf03a, 0xf041]"]
  by (simp add: to_posix_char_def invalid_path_char_iff reserved_def)

end
