(* ===== verification/Buckets.thy ===== *)
theory Buckets
  imports Prelude
begin

text \<open>
  The hash table that several components of the driver share: an array of chains, where a new
  element goes to the head of its chain and lookup and removal walk the chain of the key
  (\<open>src/sys/meta.c\<close>, \<open>src/sys/psbuffer.c\<close>, \<open>src/sys/ioq.c\<close>). The locale has the contract: the
  table is a map from keys to elements.
\<close>

section \<open>The operations\<close>

text \<open>The loop over \<open>P = &Bucket; *P; P = &(*P)->DictNext\<close> that unlinks the first match.\<close>

fun unlink :: "('v \<Rightarrow> bool) \<Rightarrow> 'v list \<Rightarrow> 'v option \<times> 'v list" where
  "unlink P [] = (None, [])"
| "unlink P (v # vs) =
     (if P v then (Some v, vs) else (let (r, vs') = unlink P vs in (r, v # vs')))"

definition bucket_find :: "('k \<Rightarrow> nat) \<Rightarrow> ('v \<Rightarrow> 'k) \<Rightarrow> 'v list list \<Rightarrow> 'k \<Rightarrow> 'v option" where
  "bucket_find hash key bs k = find (\<lambda>v. key v = k) (bs ! hash k)"

definition bucket_add :: "('k \<Rightarrow> nat) \<Rightarrow> ('v \<Rightarrow> 'k) \<Rightarrow> 'v \<Rightarrow> 'v list list \<Rightarrow> 'v list list" where
  "bucket_add hash key v bs = bs[hash (key v) := v # bs ! hash (key v)]"

definition bucket_remove ::
  "('k \<Rightarrow> nat) \<Rightarrow> ('v \<Rightarrow> 'k) \<Rightarrow> 'k \<Rightarrow> 'v list list \<Rightarrow> 'v option \<times> 'v list list" where
  "bucket_remove hash key k bs =
     (let (r, c) = unlink (\<lambda>v. key v = k) (bs ! hash k) in (r, bs[hash k := c]))"

section \<open>Chains\<close>

lemma fst_unlink: "fst (unlink P xs) = find P xs"
  by (induction xs) (auto simp: split_beta)

lemma mset_unlink:
  "mset xs = (case find P xs of None \<Rightarrow> {#} | Some v \<Rightarrow> {#v#}) + mset (snd (unlink P xs))"
  by (induction xs) (auto simp: split_beta split: option.splits)

lemma set_unlink_sub: "set (snd (unlink P xs)) \<subseteq> set xs"
  by (induction xs) (auto simp: split_beta)

lemma find_Some_in: "find P xs = Some v \<Longrightarrow> v \<in> set xs \<and> P v"
  by (induction xs) (auto split: if_splits)

lemma find_key_iff:
  "distinct (map key xs) \<Longrightarrow> find (\<lambda>v. key v = k) xs = Some v \<longleftrightarrow> v \<in> set xs \<and> key v = k"
  by (induction xs) (auto simp: rev_image_eqI)

lemma mset_concat_update:
  "i < length bs \<Longrightarrow> mset (concat (bs[i := c])) + mset (bs ! i) = mset (concat bs) + mset c"
proof (induction bs arbitrary: i)
  case (Cons b bs)
  then show ?case by (cases i) (auto simp: ac_simps)
qed simp

section \<open>The contract\<close>

locale bucket_table =
  fixes hash :: "'k \<Rightarrow> nat" and key :: "'v \<Rightarrow> 'k" and n :: nat
  assumes hash_less: "hash k < n"
begin

definition table_ok :: "'v list list \<Rightarrow> bool" where
  "table_ok bs \<longleftrightarrow> length bs = n \<and> (\<forall>i < n. \<forall>v \<in> set (bs ! i). hash (key v) = i) \<and>
     distinct (map key (concat bs))"

abbreviation "lookup \<equiv> bucket_find hash key"
abbreviation "insert_elem \<equiv> bucket_add hash key"
abbreviation "remove_key \<equiv> bucket_remove hash key"

lemma chain_distinct: "table_ok bs \<Longrightarrow> i < n \<Longrightarrow> distinct (map key (bs ! i))"
proof -
  have "i < length bs \<Longrightarrow> distinct (map key (concat bs)) \<Longrightarrow> distinct (map key (bs ! i))"
    by (induction bs arbitrary: i) (auto simp: nth_Cons split: nat.splits)
  then show "table_ok bs \<Longrightarrow> i < n \<Longrightarrow> distinct (map key (bs ! i))"
    by (simp add: table_ok_def)
qed

lemma lookup_iff: "table_ok bs \<Longrightarrow> lookup bs k = Some v \<longleftrightarrow> v \<in> set (concat bs) \<and> key v = k"
proof -
  assume ok: "table_ok bs"
  have "lookup bs k = Some v \<longleftrightarrow> v \<in> set (bs ! hash k) \<and> key v = k"
    unfolding bucket_find_def using find_key_iff [OF chain_distinct [OF ok hash_less]] .
  moreover have "v \<in> set (bs ! hash k)" if "v \<in> set (concat bs)" "key v = k"
  proof -
    from that obtain b where "b \<in> set bs" "v \<in> set b" by auto
    then obtain i where "i < n" "v \<in> set (bs ! i)"
      using ok by (auto simp: table_ok_def in_set_conv_nth)
    with ok that(2) show ?thesis by (auto simp: table_ok_def)
  qed
  moreover have "v \<in> set (concat bs)" if "v \<in> set (bs ! hash k)"
  proof -
    have "bs ! hash k \<in> set bs" using ok hash_less [of k] by (simp add: table_ok_def)
    with that show ?thesis by auto
  qed
  ultimately show ?thesis by blast
qed

lemma lookup_None: "table_ok bs \<Longrightarrow> lookup bs k = None \<longleftrightarrow> k \<notin> key ` set (concat bs)"
  by (metis (no_types, lifting) image_iff lookup_iff not_Some_eq)

lemma table_ok_empty: "table_ok (replicate n [])"
  by (simp add: table_ok_def concat_replicate_trivial)

lemma table_ok_cong:
  "table_ok bs \<Longrightarrow> length bs' = n \<Longrightarrow> (\<And>i v. i < n \<Longrightarrow> v \<in> set (bs' ! i) \<Longrightarrow> hash (key v) = i) \<Longrightarrow>
     distinct (map key (concat bs')) \<Longrightarrow> table_ok bs'"
  by (simp add: table_ok_def)

lemma insert_ok:
  assumes "table_ok bs" "lookup bs (key v) = None"
  shows "table_ok (insert_elem v bs)" "lookup (insert_elem v bs) = (lookup bs)(key v \<mapsto> v)"
    "mset (concat (insert_elem v bs)) = add_mset v (mset (concat bs))"
proof -
  let ?i = "hash (key v)"
  have i: "?i < length bs" using assms(1) hash_less by (simp add: table_ok_def)
  show m: "mset (concat (insert_elem v bs)) = add_mset v (mset (concat bs))"
    using mset_concat_update [OF i, of "v # bs ! ?i"] by (simp add: bucket_add_def)
  have "mset (map key (concat (insert_elem v bs))) = add_mset (key v) (mset (map key (concat bs)))"
    using m by (metis mset_map image_mset_add_mset)
  moreover have "key v \<notin> set (map key (concat bs))" "distinct (map key (concat bs))"
    using assms lookup_None [OF assms(1), of "key v"] by (auto simp: table_ok_def)
  ultimately have "distinct (map key (concat (insert_elem v bs)))"
    by (metis distinct.simps(2) mset.simps(2) mset_eq_imp_distinct_iff)
  then show ok: "table_ok (insert_elem v bs)"
    using assms(1) hash_less
    by (auto simp: table_ok_def bucket_add_def nth_list_update split: if_splits)
  have st: "set (concat (insert_elem v bs)) = insert v (set (concat bs))"
    using m by (metis set_mset_add_mset_insert set_mset_mset)
  show "lookup (insert_elem v bs) = (lookup bs)(key v \<mapsto> v)"
  proof
    fix k
    have "lookup (insert_elem v bs) k = Some u \<longleftrightarrow> ((lookup bs)(key v \<mapsto> v)) k = Some u" for u
      unfolding lookup_iff [OF ok] st
      using assms lookup_iff [OF assms(1), of k u] lookup_None [OF assms(1), of "key v"] by auto
    then show "lookup (insert_elem v bs) k = ((lookup bs)(key v \<mapsto> v)) k"
      by (metis not_Some_eq)
  qed
qed

lemma remove_ok:
  assumes "table_ok bs" "remove_key k bs = (r, bs')"
  shows "r = lookup bs k" "table_ok bs'" "lookup bs' = (lookup bs)(k := None)"
    "mset (concat bs) = (case r of None \<Rightarrow> {#} | Some v \<Rightarrow> {#v#}) + mset (concat bs')"
proof -
  let ?i = "hash k" and ?P = "\<lambda>v. key v = k"
  have i: "?i < length bs" using assms(1) hash_less by (simp add: table_ok_def)
  obtain c where c: "unlink ?P (bs ! ?i) = (r, c)" and bs': "bs' = bs[?i := c]"
    using assms(2) by (auto simp: bucket_remove_def split: prod.splits)
  show r: "r = lookup bs k"
    using fst_unlink [of ?P "bs ! ?i"] c by (simp add: bucket_find_def)
  have mc: "mset (bs ! ?i) = (case r of None \<Rightarrow> {#} | Some v \<Rightarrow> {#v#}) + mset c"
    using mset_unlink [of "bs ! ?i" ?P] c r by (simp add: bucket_find_def)
  show m: "mset (concat bs) = (case r of None \<Rightarrow> {#} | Some v \<Rightarrow> {#v#}) + mset (concat bs')"
    using mset_concat_update [OF i, of c] mc by (simp add: bs' ac_simps)
  have mk: "mset (map key (concat bs)) =
      (case r of None \<Rightarrow> {#} | Some v \<Rightarrow> {#key v#}) + mset (map key (concat bs'))"
    using arg_cong [OF m, of "image_mset key"] by (cases r) (simp_all del: mset_concat)
  have dk: "distinct (map key (concat bs))" using assms(1) by (simp add: table_ok_def)
  have d: "distinct (map key (concat bs'))" "\<And>v. r = Some v \<Longrightarrow> key v \<notin> key ` set (concat bs')"
  proof -
    have "distinct (map key (case r of None \<Rightarrow> [] | Some v \<Rightarrow> [v]) @ map key (concat bs'))"
      using dk mk by (subst mset_eq_imp_distinct_iff [of _ "map key (concat bs)"]) (auto split: option.splits)
    then show "distinct (map key (concat bs'))" "\<And>v. r = Some v \<Longrightarrow> key v \<notin> key ` set (concat bs')"
      by (auto split: option.splits)
  qed
  have "set c \<subseteq> set (bs ! ?i)" using set_unlink_sub [of ?P "bs ! ?i"] c by simp
  then show ok: "table_ok bs'"
    using assms(1) d(1) hash_less
    by (auto simp: table_ok_def bs' nth_list_update split: if_splits)
  have st: "set (concat bs) = (case r of None \<Rightarrow> {} | Some v \<Rightarrow> {v}) \<union> set (concat bs')"
    using arg_cong [OF m, of set_mset] by (cases r) (auto simp del: set_concat)
  show "lookup bs' = (lookup bs)(k := None)"
  proof
    fix j
    have "lookup bs' j = Some u \<longleftrightarrow> ((lookup bs)(k := None)) j = Some u" for u
    proof (cases "j = k")
      case True
      have "\<not> (u \<in> set (concat bs') \<and> key u = k)"
      proof
        assume u: "u \<in> set (concat bs') \<and> key u = k"
        then have "lookup bs k = Some u" using lookup_iff [OF assms(1)] st by auto
        with d(2) r u show False by auto
      qed
      then show ?thesis unfolding lookup_iff [OF ok] using True by simp
    next
      case False
      have "u \<in> set (concat bs') \<longleftrightarrow> u \<in> set (concat bs)" if "key u = j"
      proof -
        have "r \<noteq> Some u"
          using that False r lookup_iff [OF assms(1), of k u] by auto
        then show ?thesis unfolding st by (auto split: option.splits simp del: set_concat)
      qed
      with False show ?thesis
        unfolding lookup_iff [OF ok] using lookup_iff [OF assms(1), of j u] by auto
    qed
    then show "lookup bs' j = ((lookup bs)(k := None)) j" by (metis not_Some_eq)
  qed
qed

end

end
