(* ===== verification/Meta.thy ===== *)
theory Meta
  imports Buckets
begin

text \<open>
  The metadata cache of the driver (\<open>src/sys/meta.c\<close>). Items live in a heap of addressed records;
  the cache has a hash table of item addresses and a list of them in the order of insertion. An
  item has a reference count, one for the cache and one for every buffer handed out, and its
  memory is freed when the count reaches zero. A result \<open>None\<close> is an access to freed memory.
  The list links of an item are represented by its place in the list.
\<close>

section \<open>Expiration times (\<open>src/sys/driver.h\<close>)\<close>

definition FspExpirationTimeFromTimeout :: "u64 \<Rightarrow> u64 \<Rightarrow> u64" where
  "FspExpirationTimeFromTimeout InterruptTime Timeout =
     (if Timeout + 1 \<le> 1 then Timeout else InterruptTime + Timeout)"

definition FspExpirationTimeValidEx :: "u64 \<Rightarrow> u64 \<Rightarrow> bool" where
  "FspExpirationTimeValidEx ExpirationTime CurrentTime =
     (if ExpirationTime + 1 \<le> 1 then 0 \<noteq> ExpirationTime else CurrentTime < ExpirationTime)"

definition FspExpirationTimeValid2 :: "u64 \<Rightarrow> u64 \<Rightarrow> bool" where
  "FspExpirationTimeValid2 ExpirationTime CurrentTime = (CurrentTime < ExpirationTime)"

section \<open>State\<close>

type_synonym addr = nat

text \<open>An item and its buffer, which are allocated and freed together.\<close>

record meta_item =
  ItemBuffer :: bytes
  ItemIndex :: u64
  ExpirationTime :: u64
  RefCount :: u32

record meta_cache =
  MetaTimeout :: u64
  MetaCapacity :: u32
  ItemCount :: u32
  ItemSizeMax :: u32
  CacheIndex :: u64
  ItemList :: "addr list"
  ItemBuckets :: "addr list list"

type_synonym item_heap = "addr \<Rightarrow> meta_item option"

abbreviation (input) FspMetaCacheItemHeaderSize :: nat
  where "FspMetaCacheItemHeaderSize \<equiv> 16"

section \<open>Items in the table and the list\<close>

definition FspMetaCacheDereferenceItem :: "item_heap \<Rightarrow> addr \<Rightarrow> item_heap option" where
  "FspMetaCacheDereferenceItem h a = do {
     Item \<leftarrow> h a;
     let c = RefCount Item - 1;
     Some (if c = 0 then h(a := None) else h(a \<mapsto> Item\<lparr>RefCount := c\<rparr>)) }"

definition hash_index :: "nat \<Rightarrow> u64 \<Rightarrow> nat" where
  "hash_index BucketCount k = unat k mod BucketCount"

text \<open>The walks along a chain, which read every item they pass.\<close>

fun lookup_chain :: "item_heap \<Rightarrow> u64 \<Rightarrow> addr list \<Rightarrow> (addr option) option" where
  "lookup_chain h k [] = Some None"
| "lookup_chain h k (a # as) = do {
     Item \<leftarrow> h a;
     if ItemIndex Item = k then Some (Some a) else lookup_chain h k as }"

fun remove_chain :: "item_heap \<Rightarrow> u64 \<Rightarrow> addr list \<Rightarrow> (addr option \<times> addr list) option" where
  "remove_chain h k [] = Some (None, [])"
| "remove_chain h k (a # as) = do {
     Item \<leftarrow> h a;
     if ItemIndex Item = k then Some (Some a, as)
     else do {
       (r, as') \<leftarrow> remove_chain h k as;
       Some (r, a # as') } }"

definition BucketCount :: "meta_cache \<Rightarrow> nat" where
  "BucketCount mc = length (ItemBuckets mc)"

definition FspMetaCacheLookupIndexedItemAtDpcLevel ::
  "item_heap \<Rightarrow> meta_cache \<Rightarrow> u64 \<Rightarrow> (addr option) option" where
  "FspMetaCacheLookupIndexedItemAtDpcLevel h mc k =
     lookup_chain h k (ItemBuckets mc ! hash_index (BucketCount mc) k)"

definition FspMetaCacheAddItemAtDpcLevel ::
  "item_heap \<Rightarrow> meta_cache \<Rightarrow> addr \<Rightarrow> meta_cache option" where
  "FspMetaCacheAddItemAtDpcLevel h mc a = do {
     Item \<leftarrow> h a;
     let i = hash_index (BucketCount mc) (ItemIndex Item);
     Some (mc\<lparr>ItemBuckets := (ItemBuckets mc)[i := a # ItemBuckets mc ! i],
       ItemList := ItemList mc @ [a], ItemCount := ItemCount mc + 1\<rparr>) }"

definition FspMetaCacheRemoveIndexedItemAtDpcLevel ::
  "item_heap \<Rightarrow> meta_cache \<Rightarrow> u64 \<Rightarrow> (addr option \<times> meta_cache) option" where
  "FspMetaCacheRemoveIndexedItemAtDpcLevel h mc k = do {
     let i = hash_index (BucketCount mc) k;
     (r, c) \<leftarrow> remove_chain h k (ItemBuckets mc ! i);
     Some (case r of
         None \<Rightarrow> (None, mc)
       | Some a \<Rightarrow> (Some a, mc\<lparr>ItemBuckets := (ItemBuckets mc)[i := c],
           ItemList := remove1 a (ItemList mc), ItemCount := ItemCount mc - 1\<rparr>)) }"

definition FspMetaCacheRemoveExpiredItemAtDpcLevel ::
  "item_heap \<Rightarrow> meta_cache \<Rightarrow> u64 \<Rightarrow> (addr option \<times> meta_cache) option" where
  "FspMetaCacheRemoveExpiredItemAtDpcLevel h mc t =
     (case ItemList mc of
        [] \<Rightarrow> Some (None, mc)
      | a # as \<Rightarrow> do {
          Item \<leftarrow> h a;
          if FspExpirationTimeValid2 (ExpirationTime Item) t then Some (None, mc)
          else
            let i = hash_index (BucketCount mc) (ItemIndex Item)
            in Some (Some a, mc\<lparr>ItemBuckets := (ItemBuckets mc)[i := remove1 a (ItemBuckets mc ! i)],
                 ItemList := as, ItemCount := ItemCount mc - 1\<rparr>) })"

section \<open>The interface\<close>

text \<open>
  A cache pointer is an option, null when caching is off. \<open>alloc\<close> answers the memory requests of
  a call in order; \<open>BucketCount\<close> is what fits one page.
\<close>

definition FspMetaCacheCreate ::
  "bool \<Rightarrow> nat \<Rightarrow> u32 \<Rightarrow> u32 \<Rightarrow> u64 \<Rightarrow> ntstatus \<times> meta_cache option" where
  "FspMetaCacheCreate alloc Buckets Capacity SizeMax Timeout =
     (if 0 = Capacity \<or> 0 = SizeMax \<or> 0 = Timeout then (STATUS_SUCCESS, None)
      else if \<not> alloc then (STATUS_INSUFFICIENT_RESOURCES, None)
      else (STATUS_SUCCESS, Some \<lparr>MetaTimeout = Timeout, MetaCapacity = Capacity, ItemCount = 0,
        ItemSizeMax = SizeMax, CacheIndex = 0, ItemList = [], ItemBuckets = replicate Buckets []\<rparr>))"

text \<open>The loop of \<open>FspMetaCacheInvalidateExpired\<close> ends because every round shortens the list.\<close>

partial_function (option) invalidate_expired ::
  "item_heap \<Rightarrow> meta_cache \<Rightarrow> u64 \<Rightarrow> (item_heap \<times> meta_cache) option" where
  "invalidate_expired h mc t = do {
     (r, mc) \<leftarrow> FspMetaCacheRemoveExpiredItemAtDpcLevel h mc t;
     (case r of
        None \<Rightarrow> Some (h, mc)
      | Some a \<Rightarrow> do {
          h \<leftarrow> FspMetaCacheDereferenceItem h a;
          invalidate_expired h mc t }) }"

declare invalidate_expired.simps [code]

definition FspMetaCacheInvalidateExpired ::
  "item_heap \<Rightarrow> meta_cache option \<Rightarrow> u64 \<Rightarrow> (item_heap \<times> meta_cache option) option" where
  "FspMetaCacheInvalidateExpired h pmc t =
     (case pmc of
        None \<Rightarrow> Some (h, None)
      | Some mc \<Rightarrow> do { (h, mc) \<leftarrow> invalidate_expired h mc t; Some (h, Some mc) })"

definition FspMetaCacheDelete :: "item_heap \<Rightarrow> meta_cache option \<Rightarrow> item_heap option" where
  "FspMetaCacheDelete h pmc =
     (case pmc of
        None \<Rightarrow> Some h
      | Some mc \<Rightarrow> do { (h, _) \<leftarrow> FspMetaCacheInvalidateExpired h (Some mc) 0xffffffffffffffff; Some h })"

text \<open>The result is the item whose buffer the caller may read, its bytes, and the new heap.\<close>

definition FspMetaCacheReferenceItemBuffer ::
  "item_heap \<Rightarrow> meta_cache option \<Rightarrow> u64 \<Rightarrow> ((addr \<times> bytes) option \<times> item_heap) option" where
  "FspMetaCacheReferenceItemBuffer h pmc k =
     (case pmc of
        None \<Rightarrow> Some (None, h)
      | Some mc \<Rightarrow>
          (if k = 0 then Some (None, h)
           else do {
             r \<leftarrow> FspMetaCacheLookupIndexedItemAtDpcLevel h mc k;
             (case r of
                None \<Rightarrow> Some (None, h)
              | Some a \<Rightarrow> do {
                  Item \<leftarrow> h a;
                  Some (Some (a, ItemBuffer Item), h(a \<mapsto> Item\<lparr>RefCount := RefCount Item + 1\<rparr>)) }) }))"

definition FspMetaCacheDereferenceItemBuffer :: "item_heap \<Rightarrow> addr \<Rightarrow> item_heap option" where
  "FspMetaCacheDereferenceItemBuffer h a = FspMetaCacheDereferenceItem h a"

text \<open>
  \<open>FspMetaCacheAddItem\<close>: \<open>fresh\<close> is the address of the new item, or \<open>None\<close> when memory runs out;
  \<open>source\<close> is what the source pointer gives, \<open>None\<close> when reading it raises an exception.
\<close>

definition FspMetaCacheAddItem ::
  "u64 \<Rightarrow> addr option \<Rightarrow> bytes option \<Rightarrow> u32 \<Rightarrow> item_heap \<Rightarrow> meta_cache option \<Rightarrow>
   (u64 \<times> item_heap \<times> meta_cache option) option" where
  "FspMetaCacheAddItem InterruptTime fresh source Size h pmc =
     (case pmc of
        None \<Rightarrow> Some (0, h, None)
      | Some mc \<Rightarrow>
          (if unat (ItemSizeMax mc) < FspMetaCacheItemHeaderSize + unat Size then Some (0, h, Some mc)
           else case fresh of
             None \<Rightarrow> Some (0, h, Some mc)
           | Some a \<Rightarrow>
               (case source of
                  None \<Rightarrow> Some (0, h, Some mc)
                | Some buf \<Rightarrow> do {
                    let t = FspExpirationTimeFromTimeout InterruptTime (MetaTimeout mc);
                    (ExpiredItem, mc) \<leftarrow>
                      (if MetaCapacity mc \<le> ItemCount mc
                       then FspMetaCacheRemoveExpiredItemAtDpcLevel h mc 0xffffffffffffffff
                       else Some (None, mc));
                    let k = (if CacheIndex mc = 0xffffffffffffffff then 1 else CacheIndex mc + 1);
                    let h = h(a \<mapsto> \<lparr>ItemBuffer = take (unat Size) buf, ItemIndex = k,
                      ExpirationTime = t, RefCount = 1\<rparr>);
                    mc \<leftarrow> FspMetaCacheAddItemAtDpcLevel h (mc\<lparr>CacheIndex := k\<rparr>) a;
                    h \<leftarrow> (case ExpiredItem of None \<Rightarrow> Some h | Some e \<Rightarrow> FspMetaCacheDereferenceItem h e);
                    Some (k, h, Some mc) })))"

definition FspMetaCacheInvalidateItem ::
  "item_heap \<Rightarrow> meta_cache option \<Rightarrow> u64 \<Rightarrow> (item_heap \<times> meta_cache option) option" where
  "FspMetaCacheInvalidateItem h pmc k =
     (case pmc of
        None \<Rightarrow> Some (h, None)
      | Some mc \<Rightarrow>
          (if k = 0 then Some (h, Some mc)
           else do {
             (r, mc) \<leftarrow> FspMetaCacheRemoveIndexedItemAtDpcLevel h mc k;
             h \<leftarrow> (case r of None \<Rightarrow> Some h | Some a \<Rightarrow> FspMetaCacheDereferenceItem h a);
             Some (h, Some mc) }))"

end
