(* ===== verification/MetaProps.thy ===== *)
theory MetaProps
  imports Meta
begin

text \<open>
  The cache refines a bounded queue of entries: an entry is an index, an expiration time and the
  bytes, the oldest entry first. The invariant ties every reference count to the cache and to
  the buffers handed out (\<open>refs\<close>), so no operation touches freed memory and nothing leaks.
\<close>

section \<open>The table of items\<close>

definition item_key :: "item_heap \<Rightarrow> addr \<Rightarrow> u64" where
  "item_key h a = ItemIndex (the (h a))"

interpretation meta_tab: bucket_table "hash_index (Suc n)" "item_key h" "Suc n" for h n
  by unfold_locales (simp add: hash_index_def)

abbreviation table_ok :: "nat \<Rightarrow> item_heap \<Rightarrow> addr list list \<Rightarrow> bool" where
  "table_ok n h \<equiv> meta_tab.table_ok n h"

lemma table_ok_heap:
  assumes "table_ok n h bs" "\<And>a. a \<in> set (concat bs) \<Longrightarrow> item_key h' a = item_key h a"
  shows "table_ok n h' bs"
proof -
  have "map (item_key h') (concat bs) = map (item_key h) (concat bs)"
    using assms(2) by (intro map_cong) auto
  then have "distinct (map (item_key h') (concat bs))"
    using assms(1) unfolding meta_tab.table_ok_def by (simp only:)
  moreover have "v \<in> set (concat bs)" if "i < Suc n" "v \<in> set (bs ! i)" for i v
  proof -
    have "bs ! i \<in> set bs" using that(1) assms(1) by (simp add: meta_tab.table_ok_def)
    with that(2) show ?thesis by auto
  qed
  ultimately show ?thesis
    using assms by (simp add: meta_tab.table_ok_def)
qed

lemma lookup_chain_eq:
  "(\<And>a. a \<in> set as \<Longrightarrow> h a \<noteq> None) \<Longrightarrow> lookup_chain h k as = Some (find (\<lambda>a. item_key h a = k) as)"
proof (induction as)
  case (Cons a as)
  then obtain it where "h a = Some it" by fastforce
  with Cons show ?case by (simp add: item_key_def)
qed simp

lemma remove_chain_eq:
  "(\<And>a. a \<in> set as \<Longrightarrow> h a \<noteq> None) \<Longrightarrow> remove_chain h k as = Some (unlink (\<lambda>a. item_key h a = k) as)"
proof (induction as)
  case (Cons a as)
  then obtain it where "h a = Some it" by fastforce
  with Cons show ?case by (simp add: item_key_def split_beta)
qed simp

lemma unlink_remove1:
  "distinct (map key as) \<Longrightarrow> a \<in> set as \<Longrightarrow> unlink (\<lambda>b. key b = key a) as = (Some a, remove1 a as)"
  by (induction as) (auto simp: rev_image_eqI)

section \<open>The invariant\<close>

definition meta_ok :: "item_heap \<Rightarrow> meta_cache \<Rightarrow> (addr \<Rightarrow> nat) \<Rightarrow> bool" where
  "meta_ok h mc refs \<longleftrightarrow>
     ItemBuckets mc \<noteq> [] \<and> table_ok (length (ItemBuckets mc) - 1) h (ItemBuckets mc) \<and>
     mset (ItemList mc) = mset (concat (ItemBuckets mc)) \<and>
     unat (ItemCount mc) = length (ItemList mc) \<and>
     0 < MetaCapacity mc \<and> ItemCount mc \<le> MetaCapacity mc \<and>
     (\<forall>a \<in> set (ItemList mc). h a \<noteq> None \<and> 0 < item_key h a \<and> item_key h a \<le> CacheIndex mc) \<and>
     (\<forall>a. case h a of None \<Rightarrow> refs a = 0
        | Some it \<Rightarrow> unat (RefCount it) = of_bool (a \<in> set (ItemList mc)) + refs a \<and>
            0 < unat (RefCount it))"

text \<open>The abstract value: index, expiration time and bytes, the oldest first.\<close>

definition entry_of :: "item_heap \<Rightarrow> addr \<Rightarrow> u64 \<times> u64 \<times> bytes" where
  "entry_of h a = (item_key h a, ExpirationTime (the (h a)), ItemBuffer (the (h a)))"

definition meta_entries :: "item_heap \<Rightarrow> meta_cache \<Rightarrow> (u64 \<times> u64 \<times> bytes) list" where
  "meta_entries h mc = map (entry_of h) (ItemList mc)"

lemma entry_of_heap: "h' a = h a \<Longrightarrow> entry_of h' a = entry_of h a"
  by (simp add: entry_of_def item_key_def)

lemma meta_okD:
  assumes "meta_ok h mc refs"
  shows "table_ok (length (ItemBuckets mc) - 1) h (ItemBuckets mc)" "ItemBuckets mc \<noteq> []"
    "mset (ItemList mc) = mset (concat (ItemBuckets mc))"
    "set (ItemList mc) = set (concat (ItemBuckets mc))"
    "distinct (map (item_key h) (ItemList mc))" "distinct (ItemList mc)"
    "unat (ItemCount mc) = length (ItemList mc)" "0 < MetaCapacity mc" "ItemCount mc \<le> MetaCapacity mc"
    "\<And>a. a \<in> set (ItemList mc) \<Longrightarrow> h a \<noteq> None \<and> 0 < item_key h a \<and> item_key h a \<le> CacheIndex mc"
    "\<And>a it. h a = Some it \<Longrightarrow> unat (RefCount it) = of_bool (a \<in> set (ItemList mc)) + refs a"
    "\<And>a it. h a = Some it \<Longrightarrow> 0 < unat (RefCount it)"
    "\<And>a. h a = None \<Longrightarrow> refs a = 0 \<and> a \<notin> set (ItemList mc)"
proof -
  show t: "table_ok (length (ItemBuckets mc) - 1) h (ItemBuckets mc)" "ItemBuckets mc \<noteq> []"
    and m: "mset (ItemList mc) = mset (concat (ItemBuckets mc))"
    and l: "\<And>a. a \<in> set (ItemList mc) \<Longrightarrow> h a \<noteq> None \<and> 0 < item_key h a \<and> item_key h a \<le> CacheIndex mc"
    using assms unfolding meta_ok_def by blast+
  show "set (ItemList mc) = set (concat (ItemBuckets mc))" using m by (metis set_mset_mset)
  have "mset (map (item_key h) (ItemList mc)) = mset (map (item_key h) (concat (ItemBuckets mc)))"
    using m by simp
  then show d: "distinct (map (item_key h) (ItemList mc))"
    using t(1) unfolding meta_tab.table_ok_def by (metis mset_eq_imp_distinct_iff)
  then show "distinct (ItemList mc)" by (simp add: distinct_map)
  show "unat (ItemCount mc) = length (ItemList mc)" "0 < MetaCapacity mc" "ItemCount mc \<le> MetaCapacity mc"
    using assms by (auto simp: meta_ok_def)
  have c: "case h a of None \<Rightarrow> refs a = 0
      | Some it \<Rightarrow> unat (RefCount it) = of_bool (a \<in> set (ItemList mc)) + refs a \<and>
          0 < unat (RefCount it)" for a
    using assms unfolding meta_ok_def by blast
  show "unat (RefCount it) = of_bool (a \<in> set (ItemList mc)) + refs a" "0 < unat (RefCount it)"
    if "h a = Some it" for a it
    using c [of a] unfolding that option.simps by blast+
  show "refs a = 0 \<and> a \<notin> set (ItemList mc)" if "h a = None" for a
    using c [of a] l [of a] that by auto
qed

lemma bucket_index:
  "ItemBuckets mc \<noteq> [] \<Longrightarrow> hash_index (BucketCount mc) k = hash_index (Suc (length (ItemBuckets mc) - 1)) k"
  by (cases "ItemBuckets mc") (simp_all add: BucketCount_def)

lemma chain_alloc:
  assumes "meta_ok h mc refs" "a \<in> set (ItemBuckets mc ! hash_index (BucketCount mc) k)"
  shows "h a \<noteq> None" "a \<in> set (ItemList mc)"
proof -
  note d = meta_okD [OF assms(1)]
  have "hash_index (BucketCount mc) k < length (ItemBuckets mc)"
    using d(2) by (simp add: BucketCount_def hash_index_def)
  then have "ItemBuckets mc ! hash_index (BucketCount mc) k \<in> set (ItemBuckets mc)" by (rule nth_mem)
  with assms(2) d(4) show "a \<in> set (ItemList mc)" by auto
  with d(10) show "h a \<noteq> None" by blast
qed

lemma lookup_ok:
  assumes "meta_ok h mc refs"
  shows "\<exists>r. FspMetaCacheLookupIndexedItemAtDpcLevel h mc k = Some r \<and>
    (case r of None \<Rightarrow> k \<notin> item_key h ` set (ItemList mc)
     | Some a \<Rightarrow> a \<in> set (ItemList mc) \<and> item_key h a = k)"
proof -
  note d = meta_okD [OF assms]
  have "FspMetaCacheLookupIndexedItemAtDpcLevel h mc k =
      Some (bucket_find (hash_index (Suc (length (ItemBuckets mc) - 1))) (item_key h) (ItemBuckets mc) k)"
    unfolding FspMetaCacheLookupIndexedItemAtDpcLevel_def bucket_find_def
    using chain_alloc(1) [OF assms] by (subst lookup_chain_eq) (auto simp: bucket_index [OF d(2)])
  then show ?thesis
    using meta_tab.lookup_iff [OF d(1)] meta_tab.lookup_None [OF d(1)] d(4)
    by (auto split: option.split simp del: set_concat)
qed

section \<open>Taking an item out\<close>

lemma unlinked_ok:
  assumes ok: "meta_ok h mc refs" and a: "a \<in> set (ItemList mc)"
  defines "i \<equiv> hash_index (BucketCount mc) (item_key h a)"
  defines "mc' \<equiv> mc\<lparr>ItemBuckets := (ItemBuckets mc)[i := remove1 a (ItemBuckets mc ! i)],
     ItemList := remove1 a (ItemList mc), ItemCount := ItemCount mc - 1\<rparr>"
  shows "unlink (\<lambda>b. item_key h b = item_key h a) (ItemBuckets mc ! i) =
      (Some a, remove1 a (ItemBuckets mc ! i))"
    "\<exists>h'. FspMetaCacheDereferenceItem h a = Some h' \<and> meta_ok h' mc' refs \<and>
       meta_entries h' mc' = remove1 (entry_of h a) (meta_entries h mc) \<and>
       (\<forall>b. b \<noteq> a \<longrightarrow> h' b = h b) \<and>
       (if refs a = 0 then h' a = None
        else \<exists>it. h a = Some it \<and> h' a = Some (it\<lparr>RefCount := RefCount it - 1\<rparr>))"
proof -
  note d = meta_okD [OF ok]
  let ?n = "length (ItemBuckets mc) - 1" and ?k = "item_key h a"
  have i: "i = hash_index (Suc ?n) ?k" by (simp add: i_def bucket_index [OF d(2)])
  have il: "i < Suc ?n" by (simp add: i hash_index_def)
  have "meta_tab.lookup ?n h (ItemBuckets mc) ?k = Some a"
    unfolding meta_tab.lookup_iff [OF d(1)] using a d(4) by (simp del: set_concat)
  then have "a \<in> set (ItemBuckets mc ! i)"
    unfolding bucket_find_def i by (auto dest: find_Some_in)
  then show u: "unlink (\<lambda>b. item_key h b = ?k) (ItemBuckets mc ! i) =
      (Some a, remove1 a (ItemBuckets mc ! i))"
    by (intro unlink_remove1 meta_tab.chain_distinct [OF d(1) il])
  have "meta_tab.remove_key ?n h ?k (ItemBuckets mc) = (Some a, ItemBuckets mc')"
    using u by (simp add: bucket_remove_def i mc'_def)
  note r = meta_tab.remove_ok [OF d(1) this]
  obtain it where it: "h a = Some it" using d(10) [OF a] by auto
  have rc: "unat (RefCount it) = Suc (refs a)" using d(11) [OF it] a by simp
  then have rc1: "unat (RefCount it - 1) = refs a" "RefCount it - 1 = 0 \<longleftrightarrow> refs a = 0"
  proof -
    have "RefCount it \<noteq> 0" using rc by auto
    then show u: "unat (RefCount it - 1) = refs a" using rc by (simp add: unat_minus_one)
    show "RefCount it - 1 = 0 \<longleftrightarrow> refs a = 0" using u by (metis unat_eq_zero)
  qed
  define h' where "h' = (if refs a = 0 then h(a := None) else h(a \<mapsto> it\<lparr>RefCount := RefCount it - 1\<rparr>))"
  have deref: "FspMetaCacheDereferenceItem h a = Some h'"
    using it rc1(2) by (simp add: FspMetaCacheDereferenceItem_def h'_def Let_def)
  have same: "h' b = h b" if "b \<noteq> a" for b using that by (simp add: h'_def)
  have list: "ItemList mc' = remove1 a (ItemList mc)" "a \<notin> set (ItemList mc')"
    using d(6) by (simp_all add: mc'_def)
  have bk: "mset (concat (ItemBuckets mc')) = mset (ItemList mc')"
    using r(4) d(3) by (simp add: list(1) del: mset_concat)
  then have bset: "set (concat (ItemBuckets mc')) = set (ItemList mc')" by (metis set_mset_mset)
  have key: "item_key h' b = item_key h b" if "b \<in> set (ItemList mc')" for b
    using that list(2) same [of b] by (cases "b = a") (auto simp: item_key_def)
  have len: "length (ItemBuckets mc') = length (ItemBuckets mc)" by (simp add: mc'_def)
  have tab: "table_ok (length (ItemBuckets mc') - 1) h' (ItemBuckets mc')"
    unfolding len by (rule table_ok_heap [OF r(2)]) (simp add: key bset del: set_concat)
  have ne: "ItemList mc \<noteq> []" using a by auto
  have cnt: "unat (ItemCount mc - 1) = unat (ItemCount mc) - 1"
    using ne d(7) by (intro unat_minus_one) auto
  have sub: "set (ItemList mc') \<subseteq> set (ItemList mc)"
    unfolding list(1) by (rule set_remove1_subset)
  have pres: "h' b \<noteq> None \<and> 0 < item_key h' b \<and> item_key h' b \<le> CacheIndex mc'"
    if "b \<in> set (ItemList mc')" for b
  proof -
    have "b \<noteq> a" using that list(2) by auto
    then show ?thesis using d(10) [of b] sub that key [OF that] same [of b] by (auto simp: mc'_def)
  qed
  have "meta_ok h' mc' refs"
    unfolding meta_ok_def
  proof (intro conjI ballI allI)
    show "h' b \<noteq> None" "0 < item_key h' b" "item_key h' b \<le> CacheIndex mc'"
      if "b \<in> set (ItemList mc')" for b
      using pres [OF that] by simp_all
    show "ItemBuckets mc' \<noteq> []" using len d(2) by auto
    show "unat (ItemCount mc') = length (ItemList mc')"
      using cnt d(7) a by (simp add: mc'_def length_remove1)
    show "ItemCount mc' \<le> MetaCapacity mc'"
      using d(9) cnt by (simp add: mc'_def word_le_nat_alt)
    show "case h' b of None \<Rightarrow> refs b = 0
        | Some it \<Rightarrow> unat (RefCount it) = of_bool (b \<in> set (ItemList mc')) + refs b \<and>
            0 < unat (RefCount it)" for b
    proof (cases "b = a")
      case True
      then show ?thesis using list(2) rc1 by (simp add: h'_def)
    next
      case False
      then have "b \<in> set (ItemList mc') \<longleftrightarrow> b \<in> set (ItemList mc)" by (simp add: list(1))
      then show ?thesis
        using d(11-13) [of b] same [OF False] by (auto split: option.split)
    qed
  qed (use tab bk d(8) in \<open>simp_all add: mc'_def\<close>)
  moreover have "meta_entries h' mc' = remove1 (entry_of h a) (meta_entries h mc)"
  proof -
    have inj: "entry_of h b = entry_of h a \<Longrightarrow> b = a" if "b \<in> set (ItemList mc)" for b
      using that a d(5) by (auto simp: entry_of_def distinct_map inj_on_def)
    have "map (entry_of h') (ItemList mc') = map (entry_of h) (ItemList mc')"
      using list(2) by (intro map_cong refl entry_of_heap same) auto
    moreover have "map (entry_of h) (remove1 a xs) = remove1 (entry_of h a) (map (entry_of h) xs)"
      if "set xs \<subseteq> set (ItemList mc)" for xs
      using that inj by (induction xs) auto
    ultimately show ?thesis by (simp add: meta_entries_def list(1))
  qed
  ultimately show "\<exists>h'. FspMetaCacheDereferenceItem h a = Some h' \<and> meta_ok h' mc' refs \<and>
       meta_entries h' mc' = remove1 (entry_of h a) (meta_entries h mc) \<and>
       (\<forall>b. b \<noteq> a \<longrightarrow> h' b = h b) \<and>
       (if refs a = 0 then h' a = None
        else \<exists>it. h a = Some it \<and> h' a = Some (it\<lparr>RefCount := RefCount it - 1\<rparr>))"
    using deref same it by (auto simp: h'_def)
qed

section \<open>The operations refine a queue\<close>

definition spec_invalidate :: "u64 \<Rightarrow> (u64 \<times> u64 \<times> bytes) list \<Rightarrow> (u64 \<times> u64 \<times> bytes) list" where
  "spec_invalidate k es = filter (\<lambda>e. fst e \<noteq> k) es"

definition spec_expire :: "u64 \<Rightarrow> (u64 \<times> u64 \<times> bytes) list \<Rightarrow> (u64 \<times> u64 \<times> bytes) list" where
  "spec_expire t es = dropWhile (\<lambda>e. fst (snd e) \<le> t) es"

definition spec_add ::
  "nat \<Rightarrow> u64 \<Rightarrow> u64 \<Rightarrow> bytes \<Rightarrow> (u64 \<times> u64 \<times> bytes) list \<Rightarrow> (u64 \<times> u64 \<times> bytes) list" where
  "spec_add capacity k t buf es = (if capacity \<le> length es then tl es else es) @ [(k, t, buf)]"

lemma remove1_filter:
  "distinct (map fst es) \<Longrightarrow> e \<in> set es \<Longrightarrow> remove1 e es = spec_invalidate (fst e) es"
  unfolding spec_invalidate_def
  by (induction es) (auto simp: rev_image_eqI intro!: filter_True [symmetric])

lemma entries_distinct: "meta_ok h mc refs \<Longrightarrow> distinct (map fst (meta_entries h mc))"
  using meta_okD(5) by (simp add: meta_entries_def entry_of_def comp_def)

lemma invalidate_ok:
  assumes ok: "meta_ok h mc refs"
  shows "\<exists>h' mc'. FspMetaCacheInvalidateItem h (Some mc) k = Some (h', Some mc') \<and>
    meta_ok h' mc' refs \<and> meta_entries h' mc' = (if k = 0 then meta_entries h mc
      else spec_invalidate k (meta_entries h mc)) \<and> (\<forall>a. 0 < refs a \<longrightarrow>
      map_option ItemBuffer (h' a) = map_option ItemBuffer (h a))"
proof (cases "k = 0")
  case True
  with ok show ?thesis by (auto simp: FspMetaCacheInvalidateItem_def)
next
  case False
  note d = meta_okD [OF ok]
  let ?i = "hash_index (BucketCount mc) k"
  have rc: "remove_chain h k (ItemBuckets mc ! ?i) = Some (unlink (\<lambda>a. item_key h a = k) (ItemBuckets mc ! ?i))"
    using chain_alloc(1) [OF ok] by (intro remove_chain_eq) blast
  have fu: "fst (unlink (\<lambda>a. item_key h a = k) (ItemBuckets mc ! ?i)) = find (\<lambda>a. item_key h a = k) (ItemBuckets mc ! ?i)"
    by (rule fst_unlink)
  from lookup_ok [OF ok, of k] obtain r where
    r: "lookup_chain h k (ItemBuckets mc ! ?i) = Some r"
      "case r of None \<Rightarrow> k \<notin> item_key h ` set (ItemList mc)
       | Some a \<Rightarrow> a \<in> set (ItemList mc) \<and> item_key h a = k"
    by (auto simp: FspMetaCacheLookupIndexedItemAtDpcLevel_def)
  have "lookup_chain h k (ItemBuckets mc ! ?i) = Some (find (\<lambda>a. item_key h a = k) (ItemBuckets mc ! ?i))"
    using chain_alloc(1) [OF ok] by (intro lookup_chain_eq) blast
  then have fr: "find (\<lambda>a. item_key h a = k) (ItemBuckets mc ! ?i) = r" using r(1) by simp
  show ?thesis
  proof (cases r)
    case None
    then have "FspMetaCacheInvalidateItem h (Some mc) k = Some (h, Some mc)"
      using False rc fu fr
      by (auto simp: FspMetaCacheInvalidateItem_def FspMetaCacheRemoveIndexedItemAtDpcLevel_def
          Let_def split: prod.splits)
    moreover have "spec_invalidate k (meta_entries h mc) = meta_entries h mc"
      using None r(2) by (auto simp: spec_invalidate_def meta_entries_def entry_of_def
          intro!: filter_True)
    ultimately show ?thesis using ok False by auto
  next
    case (Some a)
    with r(2) have a: "a \<in> set (ItemList mc)" "item_key h a = k" by simp_all
    from unlinked_ok [OF ok a(1)] obtain h' where
      u: "unlink (\<lambda>b. item_key h b = k) (ItemBuckets mc ! ?i) = (Some a, remove1 a (ItemBuckets mc ! ?i))"
      and h': "FspMetaCacheDereferenceItem h a = Some h'"
      "meta_ok h' (mc\<lparr>ItemBuckets := (ItemBuckets mc)[?i := remove1 a (ItemBuckets mc ! ?i)],
         ItemList := remove1 a (ItemList mc), ItemCount := ItemCount mc - 1\<rparr>) refs"
      "meta_entries h' (mc\<lparr>ItemBuckets := (ItemBuckets mc)[?i := remove1 a (ItemBuckets mc ! ?i)],
         ItemList := remove1 a (ItemList mc), ItemCount := ItemCount mc - 1\<rparr>) =
       remove1 (entry_of h a) (meta_entries h mc)"
      "\<And>b. b \<noteq> a \<Longrightarrow> h' b = h b"
      "if refs a = 0 then h' a = None
        else \<exists>it. h a = Some it \<and> h' a = Some (it\<lparr>RefCount := RefCount it - 1\<rparr>)"
      unfolding a(2) by blast
    have "FspMetaCacheInvalidateItem h (Some mc) k = Some (h',
        Some (mc\<lparr>ItemBuckets := (ItemBuckets mc)[?i := remove1 a (ItemBuckets mc ! ?i)],
         ItemList := remove1 a (ItemList mc), ItemCount := ItemCount mc - 1\<rparr>))"
      using False rc u h'(1)
      by (simp add: FspMetaCacheInvalidateItem_def FspMetaCacheRemoveIndexedItemAtDpcLevel_def Let_def)
    moreover have "remove1 (entry_of h a) (meta_entries h mc) = spec_invalidate k (meta_entries h mc)"
    proof -
      have "entry_of h a \<in> set (meta_entries h mc)" "fst (entry_of h a) = k"
        using a by (simp_all add: meta_entries_def) (simp add: entry_of_def)
      with remove1_filter [OF entries_distinct [OF ok]] show ?thesis by blast
    qed
    moreover have "map_option ItemBuffer (h' b) = map_option ItemBuffer (h b)" if "0 < refs b" for b
      using that h'(4) [of b] h'(5) by (cases "b = a") auto
    ultimately show ?thesis using h'(2,3) False by auto
  qed
qed

lemma remove_expired_cases:
  assumes ok: "meta_ok h mc refs"
  shows "(\<exists>a as it h' mc'. ItemList mc = a # as \<and> h a = Some it \<and> ExpirationTime it \<le> t \<and>
      FspMetaCacheRemoveExpiredItemAtDpcLevel h mc t = Some (Some a, mc') \<and>
      FspMetaCacheDereferenceItem h a = Some h' \<and> meta_ok h' mc' refs \<and>
      meta_entries h' mc' = tl (meta_entries h mc) \<and> ItemCount mc' = ItemCount mc - 1 \<and>
      MetaCapacity mc' = MetaCapacity mc \<and> CacheIndex mc' = CacheIndex mc \<and>
      length (ItemBuckets mc') = length (ItemBuckets mc) \<and> (\<forall>b. b \<noteq> a \<longrightarrow> h' b = h b) \<and>
      map_option ItemBuffer (h' a) = (if refs a = 0 then None else Some (ItemBuffer it))) \<or>
    (meta_entries h mc = [] \<or> t < fst (snd (hd (meta_entries h mc)))) \<and>
      FspMetaCacheRemoveExpiredItemAtDpcLevel h mc t = Some (None, mc)"
proof (cases "ItemList mc")
  case Nil
  then show ?thesis by (simp add: FspMetaCacheRemoveExpiredItemAtDpcLevel_def meta_entries_def)
next
  case (Cons a as)
  note d = meta_okD [OF ok]
  have a: "a \<in> set (ItemList mc)" by (simp add: Cons)
  then obtain it where it: "h a = Some it" using d(10) by blast
  show ?thesis
  proof (cases "ExpirationTime it \<le> t")
    case False
    then show ?thesis using Cons it
      by (simp add: FspMetaCacheRemoveExpiredItemAtDpcLevel_def FspExpirationTimeValid2_def
          meta_entries_def entry_of_def)
  next
    case True
    let ?i = "hash_index (BucketCount mc) (item_key h a)"
    let ?mc = "mc\<lparr>ItemBuckets := (ItemBuckets mc)[?i := remove1 a (ItemBuckets mc ! ?i)],
         ItemList := remove1 a (ItemList mc), ItemCount := ItemCount mc - 1\<rparr>"
    have r: "FspMetaCacheRemoveExpiredItemAtDpcLevel h mc t = Some (Some a, ?mc)"
      using Cons it True
      by (simp add: FspMetaCacheRemoveExpiredItemAtDpcLevel_def FspExpirationTimeValid2_def
          item_key_def Let_def not_less)
    have "remove1 (entry_of h a) (meta_entries h mc) = tl (meta_entries h mc)"
      by (simp add: meta_entries_def Cons)
    with unlinked_ok(2) [OF ok a] obtain h' where h': "FspMetaCacheDereferenceItem h a = Some h'"
      "meta_ok h' ?mc refs" "meta_entries h' ?mc = tl (meta_entries h mc)"
      "\<forall>b. b \<noteq> a \<longrightarrow> h' b = h b"
      "if refs a = 0 then h' a = None
        else \<exists>it. h a = Some it \<and> h' a = Some (it\<lparr>RefCount := RefCount it - 1\<rparr>)"
      by auto
    have b: "map_option ItemBuffer (h' a) = (if refs a = 0 then None else Some (ItemBuffer it))"
      using h'(5) it by (auto split: if_splits)
    show ?thesis
      by (rule disjI1, rule exI [of _ a], rule exI [of _ as], rule exI [of _ it], rule exI [of _ h'],
          rule exI [of _ ?mc]) (use Cons it True r h' b in simp)
  qed
qed

lemma invalidate_expired_ok:
  assumes "meta_ok h mc refs"
  shows "\<exists>h' mc'. invalidate_expired h mc t = Some (h', mc') \<and> meta_ok h' mc' refs \<and>
    meta_entries h' mc' = spec_expire t (meta_entries h mc) \<and>
    (\<forall>a. 0 < refs a \<longrightarrow> map_option ItemBuffer (h' a) = map_option ItemBuffer (h a))"
  using assms
proof (induction "length (ItemList mc)" arbitrary: h mc rule: less_induct)
  case less
  from remove_expired_cases [OF less.prems, of t] show ?case
  proof (elim disjE exE conjE)
    fix a as it h1 mc1
    assume c: "ItemList mc = a # as" "h a = Some it" "ExpirationTime it \<le> t"
      "FspMetaCacheRemoveExpiredItemAtDpcLevel h mc t = Some (Some a, mc1)"
      "FspMetaCacheDereferenceItem h a = Some h1" "meta_ok h1 mc1 refs"
      "meta_entries h1 mc1 = tl (meta_entries h mc)" "\<forall>b. b \<noteq> a \<longrightarrow> h1 b = h b"
      "map_option ItemBuffer (h1 a) = (if refs a = 0 then None else Some (ItemBuffer it))"
    have "length (ItemList mc1) < length (ItemList mc)"
      using arg_cong [OF c(7), of length] by (simp add: c(1) meta_entries_def)
    from less.hyps [OF this c(6)] obtain h' mc' where IH: "invalidate_expired h1 mc1 t = Some (h', mc')"
      "meta_ok h' mc' refs" "meta_entries h' mc' = spec_expire t (meta_entries h1 mc1)"
      "\<forall>a. 0 < refs a \<longrightarrow> map_option ItemBuffer (h' a) = map_option ItemBuffer (h1 a)"
      by blast
    have "invalidate_expired h mc t = Some (h', mc')"
      using c(4,5) IH(1) by (subst invalidate_expired.simps) simp
    moreover have "spec_expire t (meta_entries h1 mc1) = spec_expire t (meta_entries h mc)"
    proof -
      have "meta_entries h mc = entry_of h a # tl (meta_entries h mc)"
        by (simp add: meta_entries_def c(1))
      moreover have "spec_expire t (entry_of h a # es) = spec_expire t es" for es
        using c(2,3) by (simp add: spec_expire_def entry_of_def)
      ultimately show ?thesis unfolding c(7) by metis
    qed
    moreover have "map_option ItemBuffer (h1 b) = map_option ItemBuffer (h b)" if "0 < refs b" for b
      using that c(2,8,9) by (cases "b = a") auto
    ultimately show ?thesis using IH by auto
  next
    assume "FspMetaCacheRemoveExpiredItemAtDpcLevel h mc t = Some (None, mc)"
      "meta_entries h mc = []"
    with less.prems show ?thesis
      by (subst invalidate_expired.simps) (simp add: spec_expire_def)
  next
    assume "FspMetaCacheRemoveExpiredItemAtDpcLevel h mc t = Some (None, mc)"
      "t < fst (snd (hd (meta_entries h mc)))"
    with less.prems show ?thesis
      by (subst invalidate_expired.simps) (cases "meta_entries h mc"; simp add: spec_expire_def)
  qed
qed

text \<open>Putting a new item in.\<close>

lemma insert_item_ok:
  fixes t :: u64 and buf :: bytes
  assumes ok: "meta_ok h mc refs" and room: "ItemCount mc < MetaCapacity mc" and fresh: "h a = None"
    and idx: "CacheIndex mc \<noteq> 0xffffffffffffffff"
  defines "k \<equiv> CacheIndex mc + 1"
  defines "h' \<equiv> h(a \<mapsto> \<lparr>ItemBuffer = buf, ItemIndex = k, ExpirationTime = t, RefCount = 1\<rparr>)"
  shows "\<exists>mc'. FspMetaCacheAddItemAtDpcLevel h' (mc\<lparr>CacheIndex := k\<rparr>) a = Some mc' \<and>
    meta_ok h' mc' refs \<and> meta_entries h' mc' = meta_entries h mc @ [(k, t, buf)]"
proof -
  note d = meta_okD [OF ok]
  let ?n = "length (ItemBuckets mc) - 1"
  have k: "unat k = unat (CacheIndex mc) + 1" "CacheIndex mc < k" "0 < k"
  proof -
    have "unat (CacheIndex mc) \<noteq> unat (0xffffffffffffffff :: u64)"
      using idx unfolding word_unat_eq_iff .
    moreover have "unat (CacheIndex mc) < 2 ^ 64"
      using unsigned_less [where ?'a = nat, of "CacheIndex mc"] by simp
    ultimately have "unat (CacheIndex mc) + 1 < 2 ^ 64" by simp
    then show "unat k = unat (CacheIndex mc) + 1" by (simp add: k_def unat_word_ariths)
    then show "CacheIndex mc < k" "0 < k" by (auto simp: word_less_nat_alt)
  qed
  have al: "a \<notin> set (ItemList mc)" "refs a = 0" using d(13) [OF fresh] by auto
  have same: "h' b = h b" if "b \<noteq> a" for b using that by (simp add: h'_def)
  have key: "item_key h' b = item_key h b" if "b \<in> set (ItemList mc)" for b
    using that al same [of b] by (cases "b = a") (auto simp: item_key_def)
  have ka: "item_key h' a = k" by (simp add: item_key_def h'_def)
  have tab: "table_ok ?n h' (ItemBuckets mc)"
    by (rule table_ok_heap [OF d(1)]) (simp add: key d(4) [symmetric] del: set_concat)
  have "k \<notin> item_key h' ` set (concat (ItemBuckets mc))"
    unfolding d(4) [symmetric] using key d(10) k(2) by force
  then have "meta_tab.lookup ?n h' (ItemBuckets mc) (item_key h' a) = None"
    unfolding meta_tab.lookup_None [OF tab] ka .
  note ins = meta_tab.insert_ok [OF tab this]
  let ?i = "hash_index (BucketCount mc) k"
  define mc' where "mc' = mc\<lparr>CacheIndex := k, ItemBuckets := (ItemBuckets mc)[?i := a # ItemBuckets mc ! ?i],
       ItemList := ItemList mc @ [a], ItemCount := ItemCount mc + 1\<rparr>"
  have add: "FspMetaCacheAddItemAtDpcLevel h' (mc\<lparr>CacheIndex := k\<rparr>) a = Some mc'"
    by (simp add: FspMetaCacheAddItemAtDpcLevel_def h'_def mc'_def BucketCount_def Let_def)
  have bk: "ItemBuckets mc' = meta_tab.insert_elem ?n h' a (ItemBuckets mc)"
    using bucket_index [OF d(2)] by (simp add: mc'_def bucket_add_def ka)
  have len: "length (ItemBuckets mc') = length (ItemBuckets mc)" by (simp add: mc'_def)
  have pres: "h' b \<noteq> None \<and> 0 < item_key h' b \<and> item_key h' b \<le> CacheIndex mc'"
    if "b \<in> set (ItemList mc')" for b
  proof (cases "b = a")
    case True
    then show ?thesis using k(3) by (simp add: h'_def ka mc'_def item_key_def)
  next
    case False
    then have "b \<in> set (ItemList mc)" using that by (simp add: mc'_def)
    with d(10) [OF this] key [OF this] same [OF False] k(2) show ?thesis
      by (auto simp: mc'_def)
  qed
  have cnt: "unat (ItemCount mc + 1) = unat (ItemCount mc) + 1"
    using room unsigned_less [where ?'a = nat, of "MetaCapacity mc"]
    by (simp add: unat_word_ariths word_less_nat_alt)
  have "meta_ok h' mc' refs"
    unfolding meta_ok_def
  proof (intro conjI ballI allI)
    show "h' b \<noteq> None" "0 < item_key h' b" "item_key h' b \<le> CacheIndex mc'"
      if "b \<in> set (ItemList mc')" for b
      using pres [OF that] by simp_all
    show "table_ok (length (ItemBuckets mc') - 1) h' (ItemBuckets mc')"
      unfolding len unfolding bk by (rule ins(1))
    show "mset (ItemList mc') = mset (concat (ItemBuckets mc'))"
      unfolding bk ins(3) using d(3) by (simp add: mc'_def del: mset_concat)
    show "unat (ItemCount mc') = length (ItemList mc')" using cnt d(7) by (simp add: mc'_def)
    show "ItemCount mc' \<le> MetaCapacity mc'"
      using room cnt by (simp add: mc'_def word_le_nat_alt word_less_nat_alt)
    show "case h' b of None \<Rightarrow> refs b = 0
        | Some it \<Rightarrow> unat (RefCount it) = of_bool (b \<in> set (ItemList mc')) + refs b \<and>
            0 < unat (RefCount it)" for b
    proof (cases "b = a")
      case True
      then show ?thesis using al by (simp add: h'_def mc'_def)
    next
      case False
      then have "b \<in> set (ItemList mc') \<longleftrightarrow> b \<in> set (ItemList mc)" by (simp add: mc'_def)
      then show ?thesis using d(11-13) [of b] same [OF False] by (auto split: option.split)
    qed
  qed (use d(2,8) len in \<open>auto simp: mc'_def\<close>)
  moreover have "meta_entries h' mc' = meta_entries h mc @ [(k, t, buf)]"
  proof -
    have "map (entry_of h') (ItemList mc) = map (entry_of h) (ItemList mc)"
      using al(1) by (intro map_cong refl entry_of_heap same) auto
    moreover have "entry_of h' a = (k, t, buf)"
      unfolding entry_of_def ka by (simp add: h'_def)
    ultimately show ?thesis unfolding meta_entries_def by (simp add: mc'_def)
  qed
  ultimately show ?thesis using add by blast
qed

lemma deref_fresh:
  assumes "FspMetaCacheDereferenceItem h e = Some h1" "a \<noteq> e"
  shows "FspMetaCacheDereferenceItem (h(a \<mapsto> x)) e = Some (h1(a \<mapsto> x))"
  using assms by (auto simp: FspMetaCacheDereferenceItem_def Let_def bind_eq_Some_conv fun_upd_twist)

lemma add_ok:
  assumes ok: "meta_ok h mc refs" and fresh: "h a = None"
    and idx: "CacheIndex mc \<noteq> 0xffffffffffffffff"
    and size: "16 + unat Size \<le> unat (ItemSizeMax mc)" and buf: "length buf = unat Size"
  shows "\<exists>h' mc'. FspMetaCacheAddItem now (Some a) (Some buf) Size h (Some mc) =
      Some (CacheIndex mc + 1, h', Some mc') \<and> meta_ok h' mc' refs \<and>
    meta_entries h' mc' = spec_add (unat (MetaCapacity mc)) (CacheIndex mc + 1)
      (FspExpirationTimeFromTimeout now (MetaTimeout mc)) buf (meta_entries h mc) \<and>
    (\<forall>b. 0 < refs b \<longrightarrow> map_option ItemBuffer (h' b) = map_option ItemBuffer (h b))"
proof -
  note d = meta_okD [OF ok]
  let ?k = "CacheIndex mc + 1" and ?t = "FspExpirationTimeFromTimeout now (MetaTimeout mc)"
  let ?it = "\<lparr>ItemBuffer = buf, ItemIndex = ?k, ExpirationTime = ?t, RefCount = 1\<rparr>"
  have len: "length (meta_entries h mc) = unat (ItemCount mc)" by (simp add: meta_entries_def d(7))
  have "refs a = 0" using d(13) [OF fresh] by simp
  show ?thesis
  proof (cases "MetaCapacity mc \<le> ItemCount mc")
    case False
    then have "ItemCount mc < MetaCapacity mc" by simp
    from insert_item_ok [OF ok this fresh idx, of buf ?t] obtain mc' where
      i: "FspMetaCacheAddItemAtDpcLevel (h(a \<mapsto> ?it)) (mc\<lparr>CacheIndex := ?k\<rparr>) a = Some mc'"
      "meta_ok (h(a \<mapsto> ?it)) mc' refs"
      "meta_entries (h(a \<mapsto> ?it)) mc' = meta_entries h mc @ [(?k, ?t, buf)]" by blast
    have "FspMetaCacheAddItem now (Some a) (Some buf) Size h (Some mc) =
        Some (?k, h(a \<mapsto> ?it), Some mc')"
      using False i(1) idx size buf by (simp add: FspMetaCacheAddItem_def Let_def)
    moreover have "\<not> unat (MetaCapacity mc) \<le> length (meta_entries h mc)"
      using False by (simp add: len word_le_nat_alt)
    ultimately show ?thesis
      using i(2,3) \<open>refs a = 0\<close> by (auto simp: spec_add_def)
  next
    case True
    then have full: "unat (MetaCapacity mc) \<le> length (meta_entries h mc)"
      by (simp add: len word_le_nat_alt)
    have "0 < unat (MetaCapacity mc)" using d(8) by (simp add: word_less_nat_alt)
    with full have ne: "meta_entries h mc \<noteq> []" by auto
    have "\<not> 0xffffffffffffffff < (x :: u64)" for x
      using unsigned_less [where ?'a = nat, of x] by (simp add: word_less_nat_alt)
    with ne remove_expired_cases [OF ok, of "0xffffffffffffffff"] obtain e as it h1 mc1 where
      e: "ItemList mc = e # as" "h e = Some it"
      "FspMetaCacheRemoveExpiredItemAtDpcLevel h mc 0xffffffffffffffff = Some (Some e, mc1)"
      "FspMetaCacheDereferenceItem h e = Some h1" "meta_ok h1 mc1 refs"
      "meta_entries h1 mc1 = tl (meta_entries h mc)" "ItemCount mc1 = ItemCount mc - 1"
      "MetaCapacity mc1 = MetaCapacity mc" "CacheIndex mc1 = CacheIndex mc"
      "\<forall>b. b \<noteq> e \<longrightarrow> h1 b = h b"
      "map_option ItemBuffer (h1 e) = (if refs e = 0 then None else Some (ItemBuffer it))"
      "length (ItemBuckets mc1) = length (ItemBuckets mc)"
      by (elim disjE exE conjE) (blast | simp)+
    have ae: "a \<noteq> e" using e(2) fresh by auto
    then have f1: "h1 a = None" using e(10) fresh by simp
    have "0 < unat (ItemCount mc)" using d(7) e(1) by simp
    then have "ItemCount mc \<noteq> 0" by auto
    then have "unat (ItemCount mc - 1) = unat (ItemCount mc) - 1" by (rule unat_minus_one)
    then have room: "ItemCount mc1 < MetaCapacity mc1"
      using d(9) \<open>0 < unat (ItemCount mc)\<close> by (simp add: e(7,8) word_less_nat_alt word_le_nat_alt)
    have "CacheIndex mc1 \<noteq> 0xffffffffffffffff" using idx e(9) by simp
    from insert_item_ok [OF e(5) room f1 this, of buf ?t] obtain mc' where
      i: "FspMetaCacheAddItemAtDpcLevel (h1(a \<mapsto> ?it)) (mc1\<lparr>CacheIndex := ?k\<rparr>) a = Some mc'"
      "meta_ok (h1(a \<mapsto> ?it)) mc' refs"
      "meta_entries (h1(a \<mapsto> ?it)) mc' = meta_entries h1 mc1 @ [(?k, ?t, buf)]"
      unfolding e(9) by blast
    have "FspMetaCacheAddItemAtDpcLevel (h(a \<mapsto> ?it)) (mc1\<lparr>CacheIndex := ?k\<rparr>) a = Some mc'"
      using i(1) by (simp add: FspMetaCacheAddItemAtDpcLevel_def)
    then have "FspMetaCacheAddItem now (Some a) (Some buf) Size h (Some mc) =
        Some (?k, h1(a \<mapsto> ?it), Some mc')"
      using True e(3,9) idx size buf deref_fresh [OF e(4) ae]
      by (simp add: FspMetaCacheAddItem_def Let_def)
    moreover have "map_option ItemBuffer ((h1(a \<mapsto> ?it)) b) = map_option ItemBuffer (h b)"
      if "0 < refs b" for b
      using that \<open>refs a = 0\<close> e(2,10,11) by (cases "b = e") auto
    ultimately show ?thesis
      using i(2,3) full e(6) by (auto simp: spec_add_def)
  qed
qed

lemma reference_ok:
  assumes ok: "meta_ok h mc refs" and few: "\<And>a. refs a < 2 ^ 32 - 2" and k: "k \<noteq> 0"
  shows "case map_of (meta_entries h mc) k of
      None \<Rightarrow> FspMetaCacheReferenceItemBuffer h (Some mc) k = Some (None, h)
    | Some (t, buf) \<Rightarrow> \<exists>a h'. FspMetaCacheReferenceItemBuffer h (Some mc) k = Some (Some (a, buf), h') \<and>
        meta_ok h' mc (refs(a := refs a + 1)) \<and> meta_entries h' mc = meta_entries h mc"
proof -
  note d = meta_okD [OF ok]
  from lookup_ok [OF ok, of k] obtain r where
    r: "FspMetaCacheLookupIndexedItemAtDpcLevel h mc k = Some r"
      "case r of None \<Rightarrow> k \<notin> item_key h ` set (ItemList mc)
       | Some a \<Rightarrow> a \<in> set (ItemList mc) \<and> item_key h a = k" by blast
  show ?thesis
  proof (cases r)
    case None
    then have "map_of (meta_entries h mc) k = None"
      using r(2) by (auto simp: map_of_eq_None_iff meta_entries_def entry_of_def)
    with None r(1) k show ?thesis by (simp add: FspMetaCacheReferenceItemBuffer_def)
  next
    case (Some a)
    with r(2) have a: "a \<in> set (ItemList mc)" "item_key h a = k" by simp_all
    then obtain it where it: "h a = Some it" using d(10) by blast
    have "(k, ExpirationTime it, ItemBuffer it) \<in> set (meta_entries h mc)"
      using a it by (auto simp: meta_entries_def entry_of_def intro!: image_eqI [of _ _ a])
    then have m: "map_of (meta_entries h mc) k = Some (ExpirationTime it, ItemBuffer it)"
      using entries_distinct [OF ok] by (simp add: map_of_is_SomeI)
    define h' where "h' = h(a \<mapsto> it\<lparr>RefCount := RefCount it + 1\<rparr>)"
    have R: "FspMetaCacheReferenceItemBuffer h (Some mc) k = Some (Some (a, ItemBuffer it), h')"
      using r(1) Some k it by (simp add: FspMetaCacheReferenceItemBuffer_def h'_def)
    have e: "entry_of h' b = entry_of h b" "item_key h' b = item_key h b" for b
      using it by (auto simp: h'_def entry_of_def item_key_def)
    have rc: "unat (RefCount it) = Suc (refs a)" using d(11) [OF it] a(1) by simp
    then have rc': "unat (RefCount it + 1) = Suc (Suc (refs a))"
      using few [of a] by (simp add: unat_word_ariths)
    have "meta_ok h' mc (refs(a := refs a + 1))"
      unfolding meta_ok_def
    proof (intro conjI ballI allI)
      show "table_ok (length (ItemBuckets mc) - 1) h' (ItemBuckets mc)"
        by (rule table_ok_heap [OF d(1)]) (simp add: e)
      show "h' b \<noteq> None" "0 < item_key h' b" "item_key h' b \<le> CacheIndex mc"
        if "b \<in> set (ItemList mc)" for b
        using d(10) [OF that] by (simp_all add: e) (simp add: h'_def)
      show "case h' b of None \<Rightarrow> (refs(a := refs a + 1)) b = 0
        | Some it \<Rightarrow> unat (RefCount it) = of_bool (b \<in> set (ItemList mc)) + (refs(a := refs a + 1)) b \<and>
            0 < unat (RefCount it)" for b
        using d(11-13) [of b] a(1) rc' by (auto simp: h'_def split: option.split)
    qed (use d in auto)
    with R m e(1) show ?thesis by (auto simp: meta_entries_def)
  qed
qed

lemma dereference_ok:
  assumes ok: "meta_ok h mc refs" and r: "0 < refs a"
  shows "\<exists>h'. FspMetaCacheDereferenceItemBuffer h a = Some h' \<and> meta_ok h' mc (refs(a := refs a - 1)) \<and>
    meta_entries h' mc = meta_entries h mc \<and>
    (h' a = None \<longleftrightarrow> refs a = 1 \<and> a \<notin> set (ItemList mc))"
proof -
  note d = meta_okD [OF ok]
  obtain it where it: "h a = Some it" using d(13) [of a] r by (cases "h a") auto
  have rc: "unat (RefCount it) = of_bool (a \<in> set (ItemList mc)) + refs a" by (rule d(11) [OF it])
  have "RefCount it \<noteq> 0" using rc r by auto
  then have rc': "unat (RefCount it - 1) = of_bool (a \<in> set (ItemList mc)) + refs a - 1"
    using rc by (simp add: unat_minus_one)
  then have z: "RefCount it - 1 = 0 \<longleftrightarrow> refs a = 1 \<and> a \<notin> set (ItemList mc)"
    using r by (subst word_unat_eq_iff) auto
  define h' where "h' = (if RefCount it - 1 = 0 then h(a := None) else h(a \<mapsto> it\<lparr>RefCount := RefCount it - 1\<rparr>))"
  have D: "FspMetaCacheDereferenceItemBuffer h a = Some h'"
    using it by (simp add: FspMetaCacheDereferenceItemBuffer_def FspMetaCacheDereferenceItem_def h'_def Let_def)
  have e: "entry_of h' b = entry_of h b \<and> item_key h' b = item_key h b \<and> h' b \<noteq> None"
    if "b \<in> set (ItemList mc)" for b
    using it z that d(10) [OF that] by (auto simp: h'_def entry_of_def item_key_def)
  have "meta_ok h' mc (refs(a := refs a - 1))"
    unfolding meta_ok_def
  proof (intro conjI ballI allI)
    show "table_ok (length (ItemBuckets mc) - 1) h' (ItemBuckets mc)"
      by (rule table_ok_heap [OF d(1)]) (simp add: e d(4) [symmetric] del: set_concat)
    show "h' b \<noteq> None" "0 < item_key h' b" "item_key h' b \<le> CacheIndex mc"
      if "b \<in> set (ItemList mc)" for b
      using d(10) [OF that] e [OF that] by auto
    show "case h' b of None \<Rightarrow> (refs(a := refs a - 1)) b = 0
      | Some it \<Rightarrow> unat (RefCount it) = of_bool (b \<in> set (ItemList mc)) + (refs(a := refs a - 1)) b \<and>
          0 < unat (RefCount it)" for b
    proof (cases "b = a")
      case True
      show ?thesis
      proof (cases "RefCount it - 1 = 0")
        case zero: True
        with z True show ?thesis by (simp add: h'_def)
      next
        case False
        then have "0 < unat (RefCount it - 1)" by (simp add: unat_gt_0)
        with False True rc' r show ?thesis by (auto simp: h'_def)
      qed
    next
      case False
      then have "h' b = h b" by (simp add: h'_def)
      with False show ?thesis using d(11-13) [of b] by (auto split: option.split)
    qed
  qed (use d in auto)
  moreover have "meta_entries h' mc = meta_entries h mc"
    unfolding meta_entries_def by (intro map_cong refl) (use e in blast)
  moreover have "h' a = None \<longleftrightarrow> refs a = 1 \<and> a \<notin> set (ItemList mc)"
    unfolding z [symmetric] by (simp add: h'_def)
  ultimately show ?thesis using D by (intro exI [of _ h'] conjI)
qed

end
