(* ===== verification/MetaSpec.thy ===== *)
theory MetaSpec
  imports MetaProps
begin

text \<open>
  The properties of the metadata cache, and the cache of one bucket of three that their
  witnesses use.
\<close>

section \<open>A new cache\<close>

lemma create_ok:
  assumes "0 < Buckets" "Capacity \<noteq> 0" "SizeMax \<noteq> 0" "Timeout \<noteq> 0"
  shows "\<exists>mc. FspMetaCacheCreate True Buckets Capacity SizeMax Timeout = (0, Some mc) \<and>
    meta_ok (\<lambda>_. None) mc (\<lambda>_. 0) \<and> meta_entries (\<lambda>_. None) mc = [] \<and>
    MetaCapacity mc = Capacity \<and> MetaTimeout mc = Timeout \<and> ItemSizeMax mc = SizeMax \<and> CacheIndex mc = 0"
proof -
  from assms(1) obtain n where n: "Buckets = Suc n" by (cases Buckets) auto
  show ?thesis
    using assms meta_tab.table_ok_empty [where n = n]
    by (simp add: FspMetaCacheCreate_def meta_ok_def meta_entries_def n concat_replicate_trivial
        word_gt_0)
qed

definition meta_sample_heap :: item_heap where
  "meta_sample_heap = (\<lambda>_. None)(5 \<mapsto> \<lparr>ItemBuffer = [7, 8], ItemIndex = 1, ExpirationTime = 100, RefCount = 1\<rparr>)"

definition meta_sample_cache :: meta_cache where
  "meta_sample_cache = \<lparr>MetaTimeout = 100, MetaCapacity = 1, ItemCount = 1, ItemSizeMax = 64, CacheIndex = 1,
     ItemList = [5], ItemBuckets = [[], [5], []]\<rparr>"

lemma meta_sample_add:
  "FspMetaCacheAddItem 0 (Some 5) (Some [7, 8]) 2 (\<lambda>_. None) (Some (meta_sample_cache\<lparr>ItemCount := 0,
     CacheIndex := 0, ItemList := [], ItemBuckets := [[], [], []]\<rparr>)) =
   Some (1, meta_sample_heap, Some meta_sample_cache)"
  by (simp add: FspMetaCacheAddItem_def meta_sample_cache_def meta_sample_heap_def
      FspExpirationTimeFromTimeout_def FspMetaCacheAddItemAtDpcLevel_def BucketCount_def
      hash_index_def Let_def)

lemma meta_sample_ok: "meta_ok meta_sample_heap meta_sample_cache (\<lambda>_. 0)"
  and meta_sample_entries: "meta_entries meta_sample_heap meta_sample_cache = [(1, 100, [7, 8])]"
proof -
  have "item_key meta_sample_heap 5 = 1" by (simp add: item_key_def meta_sample_heap_def)
  then show "meta_ok meta_sample_heap meta_sample_cache (\<lambda>_. 0)"
    by (auto simp: meta_ok_def meta_sample_cache_def meta_tab.table_ok_def hash_index_def meta_sample_heap_def
        less_Suc_eq split: option.split)
  show "meta_entries meta_sample_heap meta_sample_cache = [(1, 100, [7, 8])]"
    by (simp add: meta_entries_def entry_of_def item_key_def meta_sample_cache_def meta_sample_heap_def)
qed

lemma meta_sample_reference:
  "FspMetaCacheReferenceItemBuffer meta_sample_heap (Some meta_sample_cache) 1 =
     Some (Some (5, [7, 8]), meta_sample_heap(5 \<mapsto>
       \<lparr>ItemBuffer = [7, 8], ItemIndex = 1, ExpirationTime = 100, RefCount = 2\<rparr>))"
  by (simp add: FspMetaCacheReferenceItemBuffer_def FspMetaCacheLookupIndexedItemAtDpcLevel_def
      meta_sample_cache_def meta_sample_heap_def BucketCount_def hash_index_def)

section \<open>The properties\<close>

text \<open>C5. Adding to a cache refines a bounded queue: the item gets the next index and the expiration
  time of the cache's timeout, the oldest item is dropped when the cache is full, the invariant
  holds again, and no buffer that a caller still references changes.\<close>

theorem meta_add_refines_queue:
  assumes "meta_ok h mc refs" "h a = None" "CacheIndex mc \<noteq> 0xffffffffffffffff"
    "16 + unat Size \<le> unat (ItemSizeMax mc)" "length buf = unat Size"
  shows "\<exists>h' mc'. FspMetaCacheAddItem now (Some a) (Some buf) Size h (Some mc) =
      Some (CacheIndex mc + 1, h', Some mc') \<and> meta_ok h' mc' refs \<and>
    meta_entries h' mc' = spec_add (unat (MetaCapacity mc)) (CacheIndex mc + 1)
      (FspExpirationTimeFromTimeout now (MetaTimeout mc)) buf (meta_entries h mc) \<and>
    (\<forall>b. 0 < refs b \<longrightarrow> map_option ItemBuffer (h' b) = map_option ItemBuffer (h b))"
  using assms by (rule add_ok)

theorem meta_add_refines_queue_witness:
  "\<exists>h' mc'. FspMetaCacheAddItem 50 (Some 6) (Some [9]) 1 meta_sample_heap (Some meta_sample_cache) =
      Some (2, h', Some mc') \<and> meta_entries h' mc' = [(2, 150, [9])]"
  using meta_add_refines_queue [OF meta_sample_ok, of 6 1 "[9]" 50]
  by (auto simp: meta_sample_heap_def meta_sample_cache_def meta_sample_entries [unfolded meta_sample_cache_def meta_sample_heap_def]
      spec_add_def FspExpirationTimeFromTimeout_def word_le_nat_alt)

text \<open>C10. Looking an index up returns the bytes stored under it and one more reference to their
  item, or nothing when no item has the index; the entries stay, and the caller's reference is
  accounted for.\<close>

theorem meta_reference_finds:
  assumes "meta_ok h mc refs" "\<And>a. refs a < 2 ^ 32 - 2" "k \<noteq> 0"
  shows "case map_of (meta_entries h mc) k of
      None \<Rightarrow> FspMetaCacheReferenceItemBuffer h (Some mc) k = Some (None, h)
    | Some (t, buf) \<Rightarrow> \<exists>a h'. FspMetaCacheReferenceItemBuffer h (Some mc) k = Some (Some (a, buf), h') \<and>
        meta_ok h' mc (refs(a := refs a + 1)) \<and> meta_entries h' mc = meta_entries h mc"
  using assms by (rule reference_ok)

theorem meta_reference_finds_witness:
  "FspMetaCacheReferenceItemBuffer meta_sample_heap (Some meta_sample_cache) 4 = Some (None, meta_sample_heap) \<and>
   (\<exists>a h'. FspMetaCacheReferenceItemBuffer meta_sample_heap (Some meta_sample_cache) 1 = Some (Some (a, [7, 8]), h'))"
  using meta_reference_finds [OF meta_sample_ok, of 4] meta_reference_finds [OF meta_sample_ok, of 1]
  by (auto simp: meta_sample_entries)

text \<open>C11. Giving a buffer back never touches freed memory and frees the item exactly when the caller
  held the last reference and the cache has dropped the item.\<close>

theorem meta_dereference_frees:
  assumes "meta_ok h mc refs" "0 < refs a"
  shows "\<exists>h'. FspMetaCacheDereferenceItemBuffer h a = Some h' \<and> meta_ok h' mc (refs(a := refs a - 1)) \<and>
    meta_entries h' mc = meta_entries h mc \<and>
    (h' a = None \<longleftrightarrow> refs a = 1 \<and> a \<notin> set (ItemList mc))"
  using assms by (rule dereference_ok)

lemma meta_sample_referenced:
  "meta_ok (meta_sample_heap(5 \<mapsto> \<lparr>ItemBuffer = [7, 8], ItemIndex = 1, ExpirationTime = 100, RefCount = 2\<rparr>))
     meta_sample_cache ((\<lambda>_. 0)(5 := 1))"
  using reference_ok [OF meta_sample_ok, of 1] by (auto simp: meta_sample_entries meta_sample_reference)

theorem meta_dereference_frees_witness:
  "\<exists>h'. FspMetaCacheDereferenceItemBuffer (meta_sample_heap(5 \<mapsto> \<lparr>ItemBuffer = [7, 8], ItemIndex = 1,
       ExpirationTime = 100, RefCount = 2\<rparr>)) 5 = Some h' \<and> h' 5 \<noteq> None \<and>
     meta_entries h' meta_sample_cache = [(1, 100, [7, 8])]"
proof -
  have "meta_entries (meta_sample_heap(5 \<mapsto> \<lparr>ItemBuffer = [7, 8], ItemIndex = 1, ExpirationTime = 100,
      RefCount = 2\<rparr>)) meta_sample_cache = [(1, 100, [7, 8])]"
    by (simp add: meta_entries_def entry_of_def item_key_def meta_sample_cache_def)
  moreover have "5 \<in> set (ItemList meta_sample_cache)" by (simp add: meta_sample_cache_def)
  ultimately show ?thesis using meta_dereference_frees [OF meta_sample_referenced, of 5] by fastforce
qed

text \<open>C12. Expiring ends and drops exactly the items before the first one that is still valid;
  invalidating drops the item of one index; neither touches a buffer a caller still references;
  and deleting the cache leaves exactly the items that callers still reference.\<close>

theorem meta_removal:
  assumes "meta_ok h mc refs"
  shows "(\<exists>h' mc'. FspMetaCacheInvalidateExpired h (Some mc) t = Some (h', Some mc') \<and>
      meta_ok h' mc' refs \<and> meta_entries h' mc' = spec_expire t (meta_entries h mc) \<and>
      (\<forall>a. 0 < refs a \<longrightarrow> map_option ItemBuffer (h' a) = map_option ItemBuffer (h a))) \<and>
    (\<exists>h' mc'. FspMetaCacheInvalidateItem h (Some mc) k = Some (h', Some mc') \<and> meta_ok h' mc' refs \<and>
      meta_entries h' mc' = (if k = 0 then meta_entries h mc else spec_invalidate k (meta_entries h mc)) \<and>
      (\<forall>a. 0 < refs a \<longrightarrow> map_option ItemBuffer (h' a) = map_option ItemBuffer (h a))) \<and>
    (\<exists>h'. FspMetaCacheDelete h (Some mc) = Some h' \<and> (\<forall>a. h' a = None \<longleftrightarrow> refs a = 0))"
proof (intro conjI)
  from invalidate_expired_ok [OF assms, of t] show "\<exists>h' mc'.
      FspMetaCacheInvalidateExpired h (Some mc) t = Some (h', Some mc') \<and>
      meta_ok h' mc' refs \<and> meta_entries h' mc' = spec_expire t (meta_entries h mc) \<and>
      (\<forall>a. 0 < refs a \<longrightarrow> map_option ItemBuffer (h' a) = map_option ItemBuffer (h a))"
    by (auto simp: FspMetaCacheInvalidateExpired_def)
  show "\<exists>h' mc'. FspMetaCacheInvalidateItem h (Some mc) k = Some (h', Some mc') \<and> meta_ok h' mc' refs \<and>
      meta_entries h' mc' = (if k = 0 then meta_entries h mc else spec_invalidate k (meta_entries h mc)) \<and>
      (\<forall>a. 0 < refs a \<longrightarrow> map_option ItemBuffer (h' a) = map_option ItemBuffer (h a))"
    by (rule invalidate_ok [OF assms])
  from invalidate_expired_ok [OF assms, of "0xffffffffffffffff"] obtain h' mc' where
    e: "invalidate_expired h mc 0xffffffffffffffff = Some (h', mc')" "meta_ok h' mc' refs"
      "meta_entries h' mc' = spec_expire 0xffffffffffffffff (meta_entries h mc)" by blast
  have "x \<le> 0xffffffffffffffff" for x :: u64
    using unsigned_less [where ?'a = nat, of x] by (simp add: word_le_nat_alt)
  then have "spec_expire 0xffffffffffffffff es = []" for es
    unfolding spec_expire_def dropWhile_eq_Nil_conv by blast
  then have "ItemList mc' = []" using e(3) by (simp add: meta_entries_def)
  with meta_okD(11-13) [OF e(2)] have "h' a = None \<longleftrightarrow> refs a = 0" for a
    by (cases "h' a") auto
  then show "\<exists>h'. FspMetaCacheDelete h (Some mc) = Some h' \<and> (\<forall>a. h' a = None \<longleftrightarrow> refs a = 0)"
    using e(1) by (simp add: FspMetaCacheDelete_def FspMetaCacheInvalidateExpired_def)
qed

theorem meta_removal_witness:
  "(\<exists>h' mc'. FspMetaCacheInvalidateExpired meta_sample_heap (Some meta_sample_cache) 99 = Some (h', Some mc') \<and>
     meta_entries h' mc' = [(1, 100, [7, 8])]) \<and>
   (\<exists>h' mc'. FspMetaCacheInvalidateItem meta_sample_heap (Some meta_sample_cache) 1 = Some (h', Some mc') \<and>
     meta_entries h' mc' = []) \<and>
   (\<exists>h'. FspMetaCacheDelete meta_sample_heap (Some meta_sample_cache) = Some h' \<and> h' 5 = None)"
  using meta_removal [OF meta_sample_ok, of 99 1]
  by (auto simp: meta_sample_entries spec_expire_def spec_invalidate_def)

end
