(* ===== verification/Ioq.thy ===== *)
theory Ioq
  imports Buckets
begin

text \<open>
  The queue of I/O requests of a volume (\<open>src/sys/ioq.c\<close>): requests wait in the pending list, are
  handed to the user-mode file system, sit in the process list until it answers, and may wait in
  the retried list to be completed again. One spin lock guards the lists, so every critical
  section is one step. A request packet is its address; a null pointer is 0. A result \<open>None\<close> is
  the dereference of a null pointer. The model is that of the 64-bit build with the options
  \<open>FSP_IOQ_USE_QEVENT\<close> and \<open>FSP_IOQ_PROCESS_NO_CANCEL\<close> that \<open>driver.h\<close> sets.
\<close>

type_synonym ptr = u64

section \<open>Hashing of pointers (\<open>src/sys/driver.h\<close>)\<close>

definition FspHashMix64 :: "u64 \<Rightarrow> u64" where
  "FspHashMix64 k =
     (let k = k XOR drop_bit 33 k;
          k = k * 0xff51afd7ed558ccd;
          k = k XOR drop_bit 33 k;
          k = k * 0xc4ceb9fe1a85ec53
      in k XOR drop_bit 33 k)"

definition FspHashMixPointer :: "ptr \<Rightarrow> u32" where
  "FspHashMixPointer Pointer = ucast (FspHashMix64 Pointer)"

definition hash_pointer :: "nat \<Rightarrow> ptr \<Rightarrow> nat" where
  "hash_pointer BucketCount p = unat (FspHashMixPointer p) mod BucketCount"

section \<open>State\<close>

datatype csq = PendingIoCsq | ProcessIoCsq | RetriedIoCsq

text \<open>
  \<open>PendingIrpEvent\<close> is the queued event: true when its queue holds the dummy entry.
  \<open>IrpTimestamp\<close> and \<open>IrpCsq\<close> are the driver context of the request packets, and \<open>Canceled\<close> the
  calls of \<open>CompleteCanceledIrp\<close> so far, the last one first.
\<close>

record ioq =
  Stopped :: bool
  PendingIrpEvent :: bool
  PendingIrpList :: "ptr list"
  ProcessIrpList :: "ptr list"
  RetriedIrpList :: "ptr list"
  IrpTimeout :: u32
  PendingIrpCapacity :: u32
  PendingIrpCount :: u32
  ProcessIrpCount :: u32
  RetriedIrpCount :: u32
  ProcessIrpBuckets :: "ptr list list"
  IrpTimestamp :: "ptr \<Rightarrow> u32"
  IrpCsq :: "ptr \<Rightarrow> csq option"
  Canceled :: "ptr list"

record peek_context =
  IrpHint :: ptr
  ExpirationSec :: u32

abbreviation (input) FspIrpTimestampInfinity :: u32 where "FspIrpTimestampInfinity \<equiv> 0xffffffff"
abbreviation (input) FspIoqTimeout :: ptr where "FspIoqTimeout \<equiv> 1"
abbreviation (input) FspIoqCancelled :: ptr where "FspIoqCancelled \<equiv> 2"
abbreviation (input) STATUS_TIMEOUT :: ntstatus where "STATUS_TIMEOUT \<equiv> 0x102"
abbreviation (input) STATUS_THREAD_IS_TERMINATING :: ntstatus
  where "STATUS_THREAD_IS_TERMINATING \<equiv> 0xC000004B"

definition FspQeventSetNoLock :: "ioq \<Rightarrow> ioq" where
  "FspQeventSetNoLock q = (if \<not> PendingIrpEvent q then q\<lparr>PendingIrpEvent := True\<rparr> else q)"

definition ConvertInterruptTimeToSec :: "u64 \<Rightarrow> u32" where
  "ConvertInterruptTimeToSec Time = ucast (Time div 10000000)"

definition CompleteCanceledIrp :: "ioq \<Rightarrow> ptr \<Rightarrow> ioq" where
  "CompleteCanceledIrp q Irp = q\<lparr>Canceled := Irp # Canceled q\<rparr>"

section \<open>The cancel-safe queues\<close>

text \<open>
  \<open>IoCsqInsertIrpEx\<close> and \<open>IoCsqRemoveNextIrp\<close> belong to Windows: an environment supplies them.
  The driver's own variants do the same without a cancel routine.
\<close>

type_synonym csq_insert = "ioq \<Rightarrow> ptr \<Rightarrow> bool \<Rightarrow> ntstatus \<times> ioq"
type_synonym csq_peek = "ioq \<Rightarrow> ptr \<Rightarrow> peek_context option \<Rightarrow> ptr"
type_synonym csq_remove = "ioq \<Rightarrow> ptr \<Rightarrow> ioq option"

record csq_env =
  IoCsqInsertIrpEx :: "csq \<Rightarrow> csq_insert \<Rightarrow> csq_insert"
  IoCsqRemoveNextIrp :: "csq_peek \<Rightarrow> csq_remove \<Rightarrow> ioq \<Rightarrow> peek_context option \<Rightarrow> (ptr \<times> ioq) option"

definition FspCsqInsertIrpEx :: "csq \<Rightarrow> csq_insert \<Rightarrow> csq_insert" where
  "FspCsqInsertIrpEx Csq CsqInsertIrp q Irp InsertContext =
     CsqInsertIrp (q\<lparr>IrpCsq := (IrpCsq q)(Irp := Some Csq)\<rparr>) Irp InsertContext"

definition FspCsqRemoveNextIrp ::
  "csq_peek \<Rightarrow> csq_remove \<Rightarrow> ioq \<Rightarrow> peek_context option \<Rightarrow> (ptr \<times> ioq) option" where
  "FspCsqRemoveNextIrp CsqPeekNextIrp CsqRemoveIrp q PeekContext =
     (let Irp = CsqPeekNextIrp q 0 PeekContext
      in if Irp \<noteq> 0 then do {
           q \<leftarrow> CsqRemoveIrp q Irp;
           Some (Irp, q\<lparr>IrpCsq := (IrpCsq q)(Irp := None)\<rparr>) }
         else Some (0, q))"

text \<open>
  The documented behaviour of the Windows calls on packets that nobody cancels at that moment; a
  cancellation is a step of its own (\<open>CancelPendingIrp\<close>).
\<close>

definition csq_contract :: "csq_env \<Rightarrow> bool" where
  "csq_contract env \<longleftrightarrow>
     (\<forall>c ins q irp ctx. IoCsqInsertIrpEx env c ins q irp ctx = FspCsqInsertIrpEx c ins q irp ctx) \<and>
     (\<forall>peek rem q ctx. IoCsqRemoveNextIrp env peek rem q ctx = FspCsqRemoveNextIrp peek rem q ctx)"

section \<open>The pending list\<close>

definition FspIoqPendingResetSynch :: "ioq \<Rightarrow> ioq" where
  "FspIoqPendingResetSynch q =
     (if PendingIrpCount q \<noteq> 0 \<or> Stopped q then FspQeventSetNoLock q else q)"

definition FspIoqPendingInsertIrpEx :: csq_insert where
  "FspIoqPendingInsertIrpEx q Irp InsertContext =
     (if Stopped q then (STATUS_CANCELLED, q)
      else if \<not> InsertContext \<and> PendingIrpCapacity q \<le> PendingIrpCount q
      then (STATUS_INSUFFICIENT_RESOURCES, q)
      else (STATUS_SUCCESS, FspQeventSetNoLock
        (q\<lparr>PendingIrpCount := PendingIrpCount q + 1, PendingIrpList := PendingIrpList q @ [Irp]\<rparr>)))"

definition FspIoqPendingRemoveIrp :: csq_remove where
  "FspIoqPendingRemoveIrp q Irp = Some (FspIoqPendingResetSynch
     (q\<lparr>PendingIrpCount := PendingIrpCount q - 1, PendingIrpList := remove1 Irp (PendingIrpList q)\<rparr>))"

text \<open>The entries of a list behind a packet, or all of them for a null pointer.\<close>

definition after :: "ptr \<Rightarrow> ptr list \<Rightarrow> ptr list" where
  "after Irp irps = (if Irp = 0 then irps else tl (dropWhile (\<lambda>i. i \<noteq> Irp) irps))"

text \<open>The loop that skips packets without a time limit and looks at the first that has one.\<close>

fun peek_expired :: "(ptr \<Rightarrow> u32) \<Rightarrow> u32 \<Rightarrow> ptr list \<Rightarrow> ptr" where
  "peek_expired ts ExpirationTime [] = 0"
| "peek_expired ts ExpirationTime (Irp # Entry) =
     (if FspIrpTimestampInfinity \<noteq> ts Irp then (if ts Irp \<le> ExpirationTime then Irp else 0)
      else peek_expired ts ExpirationTime Entry)"

definition FspIoqPendingPeekNextIrp :: csq_peek where
  "FspIoqPendingPeekNextIrp q Irp PeekContext =
     (if PeekContext \<noteq> None \<and> Stopped q then 0
      else case after Irp (PendingIrpList q) of
        [] \<Rightarrow> 0
      | Irp # Entry \<Rightarrow>
          (case PeekContext of
             None \<Rightarrow> Irp
           | Some c \<Rightarrow>
               (if IrpHint c = 0 then peek_expired (IrpTimestamp q) (ExpirationSec c) (Irp # Entry)
                else if Irp = IrpHint c then 0 else Irp)))"

section \<open>The process list\<close>

abbreviation process_hash :: "ioq \<Rightarrow> ptr \<Rightarrow> nat" where
  "process_hash q \<equiv> hash_pointer (length (ProcessIrpBuckets q))"

definition FspIoqProcessInsertIrpEx :: csq_insert where
  "FspIoqProcessInsertIrpEx q Irp InsertContext =
     (if Stopped q then (STATUS_CANCELLED, q)
      else (STATUS_SUCCESS, q\<lparr>ProcessIrpCount := ProcessIrpCount q + 1,
        ProcessIrpList := ProcessIrpList q @ [Irp],
        ProcessIrpBuckets := bucket_add (process_hash q) id Irp (ProcessIrpBuckets q)\<rparr>))"

definition FspIoqProcessRemoveIrp :: csq_remove where
  "FspIoqProcessRemoveIrp q Irp =
     (case bucket_remove (process_hash q) id Irp (ProcessIrpBuckets q) of
        (None, _) \<Rightarrow> None
      | (Some _, bs) \<Rightarrow> Some (q\<lparr>ProcessIrpBuckets := bs,
          ProcessIrpCount := ProcessIrpCount q - 1,
          ProcessIrpList := remove1 Irp (ProcessIrpList q)\<rparr>))"

definition FspIoqProcessPeekNextIrp :: csq_peek where
  "FspIoqProcessPeekNextIrp q Irp PeekContext =
     (if PeekContext \<noteq> None \<and> Stopped q then 0
      else case after Irp (ProcessIrpList q) of
        [] \<Rightarrow> 0
      | Irp # Entry \<Rightarrow>
          (case PeekContext of
             None \<Rightarrow> Irp
           | Some c \<Rightarrow>
               (if IrpHint c = 0 then peek_expired (IrpTimestamp q) (ExpirationSec c) (Irp # Entry)
                else case bucket_find (process_hash q) id (ProcessIrpBuckets q) (IrpHint c) of
                  None \<Rightarrow> 0 | Some Irp \<Rightarrow> Irp)))"

section \<open>The retried list\<close>

definition FspIoqRetriedInsertIrpEx :: csq_insert where
  "FspIoqRetriedInsertIrpEx q Irp InsertContext =
     (if Stopped q then (STATUS_CANCELLED, q)
      else (STATUS_SUCCESS, q\<lparr>RetriedIrpCount := RetriedIrpCount q + 1,
        RetriedIrpList := RetriedIrpList q @ [Irp]\<rparr>))"

definition FspIoqRetriedRemoveIrp :: csq_remove where
  "FspIoqRetriedRemoveIrp q Irp = Some
     (q\<lparr>RetriedIrpCount := RetriedIrpCount q - 1, RetriedIrpList := remove1 Irp (RetriedIrpList q)\<rparr>)"

definition FspIoqRetriedPeekNextIrp :: csq_peek where
  "FspIoqRetriedPeekNextIrp q Irp PeekContext =
     (if PeekContext \<noteq> None \<and> Stopped q then 0
      else case after Irp (RetriedIrpList q) of
        [] \<Rightarrow> 0
      | Irp # Entry \<Rightarrow>
          (case PeekContext of
             None \<Rightarrow> Irp
           | Some c \<Rightarrow>
               (if IrpHint c = 0 then peek_expired (IrpTimestamp q) (ExpirationSec c) (Irp # Entry)
                else if Irp = IrpHint c then 0 else Irp)))"

section \<open>The interface\<close>

definition FspIoqCreate :: "bool \<Rightarrow> nat \<Rightarrow> u32 \<Rightarrow> u64 \<Rightarrow> ntstatus \<times> ioq option" where
  "FspIoqCreate alloc BucketCount IrpCapacity Timeout =
     (if \<not> alloc then (STATUS_INSUFFICIENT_RESOURCES, None)
      else (STATUS_SUCCESS, Some \<lparr>Stopped = False, PendingIrpEvent = False, PendingIrpList = [],
        ProcessIrpList = [], RetriedIrpList = [],
        IrpTimeout = ConvertInterruptTimeToSec (Timeout + 10000000 - 1),
        PendingIrpCapacity = IrpCapacity, PendingIrpCount = 0, ProcessIrpCount = 0,
        RetriedIrpCount = 0, ProcessIrpBuckets = replicate BucketCount [],
        IrpTimestamp = (\<lambda>_. 0), IrpCsq = (\<lambda>_. None), Canceled = []\<rparr>))"

abbreviation next_pending :: "csq_env \<Rightarrow> ioq \<Rightarrow> peek_context option \<Rightarrow> (ptr \<times> ioq) option" where
  "next_pending env \<equiv> IoCsqRemoveNextIrp env FspIoqPendingPeekNextIrp FspIoqPendingRemoveIrp"
abbreviation next_process :: "ioq \<Rightarrow> peek_context option \<Rightarrow> (ptr \<times> ioq) option" where
  "next_process \<equiv> FspCsqRemoveNextIrp FspIoqProcessPeekNextIrp FspIoqProcessRemoveIrp"
abbreviation next_retried :: "ioq \<Rightarrow> peek_context option \<Rightarrow> (ptr \<times> ioq) option" where
  "next_retried \<equiv> FspCsqRemoveNextIrp FspIoqRetriedPeekNextIrp FspIoqRetriedRemoveIrp"

text \<open>\<open>while (0 != (Irp = ...)) Ioq->CompleteCanceledIrp(Irp);\<close>\<close>

partial_function (option) cancel_all ::
  "(ioq \<Rightarrow> peek_context option \<Rightarrow> (ptr \<times> ioq) option) \<Rightarrow> peek_context option \<Rightarrow> ioq \<Rightarrow> ioq option" where
  "cancel_all remove_next ctx q = do {
     (Irp, q) \<leftarrow> remove_next q ctx;
     if Irp \<noteq> 0 then cancel_all remove_next ctx (CompleteCanceledIrp q Irp) else Some q }"

declare cancel_all.simps [code]

definition FspIoqStop :: "csq_env \<Rightarrow> ioq \<Rightarrow> bool \<Rightarrow> ioq option" where
  "FspIoqStop env q CancelIrps =
     (let q = FspQeventSetNoLock (q\<lparr>Stopped := True\<rparr>)
      in if CancelIrps then do {
           q \<leftarrow> cancel_all (next_pending env) None q;
           q \<leftarrow> cancel_all next_process None q;
           cancel_all next_retried None q }
         else Some q)"

text \<open>\<open>FspIoqDelete\<close> frees the queue; the result is its last state.\<close>

definition FspIoqDelete :: "csq_env \<Rightarrow> ioq \<Rightarrow> ioq option" where
  "FspIoqDelete env q = FspIoqStop env q True"

definition FspIoqStopped :: "ioq \<Rightarrow> bool" where
  "FspIoqStopped q = Stopped q"

definition FspIoqRemoveExpired :: "csq_env \<Rightarrow> ioq \<Rightarrow> u64 \<Rightarrow> ioq option" where
  "FspIoqRemoveExpired env q InterruptTime = cancel_all (next_pending env)
     (Some \<lparr>IrpHint = 0, ExpirationSec = ConvertInterruptTimeToSec InterruptTime\<rparr>) q"

text \<open>The C result, \<open>*PResult\<close> and the new state.\<close>

definition FspIoqPostIrpEx ::
  "csq_env \<Rightarrow> u64 \<Rightarrow> ioq \<Rightarrow> ptr \<Rightarrow> bool \<Rightarrow> bool \<times> ntstatus \<times> ioq" where
  "FspIoqPostIrpEx env InterruptTime q Irp BestEffort =
     (let t = (if BestEffort then FspIrpTimestampInfinity
            else ConvertInterruptTimeToSec InterruptTime + IrpTimeout q);
          (Result, q) = IoCsqInsertIrpEx env PendingIoCsq FspIoqPendingInsertIrpEx
            (q\<lparr>IrpTimestamp := (IrpTimestamp q)(Irp := t)\<rparr>) Irp BestEffort
      in if NT_SUCCESS Result then (True, STATUS_PENDING, q) else (False, Result, q))"

definition boundary_context :: "ptr \<Rightarrow> peek_context option" where
  "boundary_context BoundaryIrp =
     Some \<lparr>IrpHint = (if BoundaryIrp \<noteq> 0 then BoundaryIrp else 1), ExpirationSec = 0\<rparr>"

text \<open>
  \<open>wait\<close> is the result of waiting for the event, \<open>None\<close> without a timeout; a wait that succeeds
  takes the signal.
\<close>

definition FspIoqNextPendingIrp ::
  "csq_env \<Rightarrow> ioq \<Rightarrow> ptr \<Rightarrow> ntstatus option \<Rightarrow> (ptr \<times> ioq) option" where
  "FspIoqNextPendingIrp env q BoundaryIrp wait =
     (case wait of
        Some Result \<Rightarrow>
          (if Result = STATUS_TIMEOUT then Some (FspIoqTimeout, q)
           else if Result = STATUS_CANCELLED \<or> Result = STATUS_THREAD_IS_TERMINATING
           then Some (FspIoqCancelled, q)
           else do {
             (PendingIrp, q) \<leftarrow> next_pending env (q\<lparr>PendingIrpEvent := False\<rparr>) (boundary_context BoundaryIrp);
             if PendingIrp = 0 then Some (PendingIrp, FspIoqPendingResetSynch q)
             else Some (PendingIrp, q) })
      | None \<Rightarrow> next_pending env q (boundary_context BoundaryIrp))"

definition FspIoqPendingIrpCount :: "ioq \<Rightarrow> u32" where
  "FspIoqPendingIrpCount q = PendingIrpCount q"

text \<open>The product wraps at 32 bits; \<open>None\<close> is the division by a capacity of zero.\<close>

definition FspIoqPendingAboveWatermark :: "ioq \<Rightarrow> u32 \<Rightarrow> bool option" where
  "FspIoqPendingAboveWatermark q Watermark =
     (if PendingIrpCapacity q = 0 then None
      else Some (Watermark < 100 * PendingIrpCount q div PendingIrpCapacity q))"

definition FspIoqStartProcessingIrp :: "ioq \<Rightarrow> ptr \<Rightarrow> bool \<times> ioq" where
  "FspIoqStartProcessingIrp q Irp =
     (let (Result, q) = FspCsqInsertIrpEx ProcessIoCsq FspIoqProcessInsertIrpEx
            (q\<lparr>IrpTimestamp := (IrpTimestamp q)(Irp := FspIrpTimestampInfinity)\<rparr>) Irp False
      in (NT_SUCCESS Result, q))"

definition FspIoqEndProcessingIrp :: "ioq \<Rightarrow> u64 \<Rightarrow> (ptr \<times> ioq) option" where
  "FspIoqEndProcessingIrp q Hint =
     (if Hint = 0 then Some (0, q)
      else next_process q (Some \<lparr>IrpHint = Hint, ExpirationSec = 0\<rparr>))"

definition FspIoqProcessIrpCount :: "ioq \<Rightarrow> u32" where
  "FspIoqProcessIrpCount q = ProcessIrpCount q"

definition FspIoqRetryCompleteIrp :: "ioq \<Rightarrow> ptr \<Rightarrow> bool \<times> ntstatus \<times> ioq" where
  "FspIoqRetryCompleteIrp q Irp =
     (let (Result, q) = FspCsqInsertIrpEx RetriedIoCsq FspIoqRetriedInsertIrpEx
            (q\<lparr>IrpTimestamp := (IrpTimestamp q)(Irp := FspIrpTimestampInfinity)\<rparr>) Irp False
      in if NT_SUCCESS Result then (True, STATUS_PENDING, FspQeventSetNoLock q)
         else (False, Result, q))"

definition FspIoqNextCompleteIrp :: "ioq \<Rightarrow> ptr \<Rightarrow> (ptr \<times> ioq) option" where
  "FspIoqNextCompleteIrp q BoundaryIrp = next_retried q (boundary_context BoundaryIrp)"

definition FspIoqRetriedIrpCount :: "ioq \<Rightarrow> u32" where
  "FspIoqRetriedIrpCount q = RetriedIrpCount q"

text \<open>What the cancel routine of the pending queue does for a packet of the list.\<close>

definition FspIoqPendingCompleteCanceledIrp :: "ioq \<Rightarrow> ptr \<Rightarrow> ioq" where
  "FspIoqPendingCompleteCanceledIrp q Irp = CompleteCanceledIrp q Irp"

definition CancelPendingIrp :: "ioq \<Rightarrow> ptr \<Rightarrow> ioq option" where
  "CancelPendingIrp q Irp = do {
     q \<leftarrow> FspIoqPendingRemoveIrp q Irp;
     Some (FspIoqPendingCompleteCanceledIrp q Irp) }"

end
