(* ===== verification/IoqProps.thy ===== *)
theory IoqProps
  imports Ioq
begin

text \<open>
  The invariant of the request queue and what each operation does to its three lists. A packet
  is in one list at most, the counts are the lengths, and the hash table holds the process list.
\<close>

section \<open>The invariant\<close>

interpretation ptr_tab: bucket_table "hash_pointer (Suc n)" "id :: ptr \<Rightarrow> ptr" "Suc n" for n
  by unfold_locales (simp add: hash_pointer_def)

definition queued :: "ioq \<Rightarrow> ptr list" where
  "queued q = PendingIrpList q @ ProcessIrpList q @ RetriedIrpList q"

definition ioq_ok :: "ioq \<Rightarrow> bool" where
  "ioq_ok q \<longleftrightarrow>
     distinct (queued q) \<and> 0 \<notin> set (queued q) \<and>
     unat (PendingIrpCount q) = length (PendingIrpList q) \<and>
     unat (ProcessIrpCount q) = length (ProcessIrpList q) \<and>
     unat (RetriedIrpCount q) = length (RetriedIrpList q) \<and>
     ProcessIrpBuckets q \<noteq> [] \<and>
     ptr_tab.table_ok (length (ProcessIrpBuckets q) - 1) (ProcessIrpBuckets q) \<and>
     mset (concat (ProcessIrpBuckets q)) = mset (ProcessIrpList q)"

lemma ioq_okD:
  assumes "ioq_ok q"
  shows "distinct (queued q)" "0 \<notin> set (queued q)"
    "unat (PendingIrpCount q) = length (PendingIrpList q)"
    "unat (ProcessIrpCount q) = length (ProcessIrpList q)"
    "unat (RetriedIrpCount q) = length (RetriedIrpList q)"
    "ProcessIrpBuckets q \<noteq> []"
    "ptr_tab.table_ok (length (ProcessIrpBuckets q) - 1) (ProcessIrpBuckets q)"
    "mset (concat (ProcessIrpBuckets q)) = mset (ProcessIrpList q)"
    "set (concat (ProcessIrpBuckets q)) = set (ProcessIrpList q)"
proof -
  show "distinct (queued q)" "0 \<notin> set (queued q)"
    "unat (PendingIrpCount q) = length (PendingIrpList q)"
    "unat (ProcessIrpCount q) = length (ProcessIrpList q)"
    "unat (RetriedIrpCount q) = length (RetriedIrpList q)"
    "ProcessIrpBuckets q \<noteq> []"
    "ptr_tab.table_ok (length (ProcessIrpBuckets q) - 1) (ProcessIrpBuckets q)"
    and m: "mset (concat (ProcessIrpBuckets q)) = mset (ProcessIrpList q)"
    using assms unfolding ioq_ok_def by blast+
  show "set (concat (ProcessIrpBuckets q)) = set (ProcessIrpList q)" using m by (metis set_mset_mset)
qed

text \<open>The fields the invariant does not read.\<close>

lemma ioq_ok_frame [simp]:
  "ioq_ok (q\<lparr>Stopped := a\<rparr>) = ioq_ok q" "ioq_ok (q\<lparr>PendingIrpEvent := b\<rparr>) = ioq_ok q"
  "ioq_ok (q\<lparr>IrpTimestamp := c\<rparr>) = ioq_ok q" "ioq_ok (q\<lparr>IrpCsq := d\<rparr>) = ioq_ok q"
  "ioq_ok (q\<lparr>Canceled := e\<rparr>) = ioq_ok q"
  by (simp_all add: ioq_ok_def queued_def)

lemma set_event [simp]:
  "FspQeventSetNoLock q = q\<lparr>PendingIrpEvent := True\<rparr>"
  by (cases q) (simp add: FspQeventSetNoLock_def)

lemma process_hash_eq:
  "ProcessIrpBuckets q \<noteq> [] \<Longrightarrow> process_hash q = hash_pointer (Suc (length (ProcessIrpBuckets q) - 1))"
  by (cases "ProcessIrpBuckets q") simp_all

section \<open>Removing a packet\<close>

lemma pending_remove_ok:
  assumes "ioq_ok q" "i \<in> set (PendingIrpList q)"
  shows "FspIoqPendingRemoveIrp q i = Some (q\<lparr>PendingIrpCount := PendingIrpCount q - 1,
      PendingIrpList := remove1 i (PendingIrpList q),
      PendingIrpEvent := PendingIrpEvent q \<or> remove1 i (PendingIrpList q) \<noteq> [] \<or> Stopped q\<rparr>)"
    "ioq_ok (q\<lparr>PendingIrpCount := PendingIrpCount q - 1, PendingIrpList := remove1 i (PendingIrpList q),
      PendingIrpEvent := e\<rparr>)"
proof -
  note d = ioq_okD [OF assms(1)]
  have ne: "PendingIrpCount q \<noteq> 0" using d(3) assms(2) by auto
  have c: "unat (PendingIrpCount q - 1) = length (remove1 i (PendingIrpList q))"
    using unat_minus_one [OF ne] d(3) assms(2) by (simp add: length_remove1)
  then have z: "PendingIrpCount q - 1 = 0 \<longleftrightarrow> remove1 i (PendingIrpList q) = []"
    by (metis length_0_conv unat_eq_zero)
  show "FspIoqPendingRemoveIrp q i = Some (q\<lparr>PendingIrpCount := PendingIrpCount q - 1,
      PendingIrpList := remove1 i (PendingIrpList q),
      PendingIrpEvent := PendingIrpEvent q \<or> remove1 i (PendingIrpList q) \<noteq> [] \<or> Stopped q\<rparr>)"
    unfolding FspIoqPendingRemoveIrp_def FspIoqPendingResetSynch_def
    by (cases q) (use z in auto)
  show "ioq_ok (q\<lparr>PendingIrpCount := PendingIrpCount q - 1,
      PendingIrpList := remove1 i (PendingIrpList q), PendingIrpEvent := e\<rparr>)"
    using assms(1) c
    by (auto simp: ioq_ok_def queued_def dest: notin_set_remove1 in_set_remove1 [THEN iffD1] set_mp [OF set_remove1_subset])
qed

lemma retried_remove_ok:
  assumes "ioq_ok q" "i \<in> set (RetriedIrpList q)"
  shows "ioq_ok (q\<lparr>RetriedIrpCount := RetriedIrpCount q - 1, RetriedIrpList := remove1 i (RetriedIrpList q)\<rparr>)"
proof -
  note d = ioq_okD [OF assms(1)]
  have ne: "RetriedIrpCount q \<noteq> 0" using d(5) assms(2) by auto
  have "unat (RetriedIrpCount q - 1) = length (remove1 i (RetriedIrpList q))"
    using unat_minus_one [OF ne] d(5) assms(2) by (simp add: length_remove1)
  then show ?thesis
    using assms(1) by (auto simp: ioq_ok_def queued_def dest: set_mp [OF set_remove1_subset])
qed

lemma process_remove_ok:
  assumes "ioq_ok q" "i \<in> set (ProcessIrpList q)"
  shows "\<exists>bs. FspIoqProcessRemoveIrp q i = Some (q\<lparr>ProcessIrpBuckets := bs,
      ProcessIrpCount := ProcessIrpCount q - 1, ProcessIrpList := remove1 i (ProcessIrpList q)\<rparr>) \<and>
    ioq_ok (q\<lparr>ProcessIrpBuckets := bs, ProcessIrpCount := ProcessIrpCount q - 1,
      ProcessIrpList := remove1 i (ProcessIrpList q)\<rparr>)"
proof -
  note d = ioq_okD [OF assms(1)]
  let ?n = "length (ProcessIrpBuckets q) - 1"
  obtain r bs where rm: "ptr_tab.remove_key ?n i (ProcessIrpBuckets q) = (r, bs)" by (rule prod.exhaust)
  note p = ptr_tab.remove_ok [OF d(7) rm]
  have r: "r = Some i"
    unfolding p(1) ptr_tab.lookup_iff [OF d(7)] using d(9) assms(2) by (simp del: set_concat)
  have len: "length bs = length (ProcessIrpBuckets q)"
    using p(2) [unfolded ptr_tab.table_ok_def] d(6) by (metis length_greater_0_conv Suc_pred')
  have m: "mset (concat bs) = mset (remove1 i (ProcessIrpList q))"
    using p(4) d(8) r by simp
  have ne: "ProcessIrpCount q \<noteq> 0" using d(4) assms(2) by auto
  have c: "unat (ProcessIrpCount q - 1) = length (remove1 i (ProcessIrpList q))"
    using unat_minus_one [OF ne] d(4) assms(2) by (simp add: length_remove1)
  have "FspIoqProcessRemoveIrp q i = Some (q\<lparr>ProcessIrpBuckets := bs,
      ProcessIrpCount := ProcessIrpCount q - 1, ProcessIrpList := remove1 i (ProcessIrpList q)\<rparr>)"
    using rm r by (simp add: FspIoqProcessRemoveIrp_def process_hash_eq [OF d(6)])
  moreover have "ioq_ok (q\<lparr>ProcessIrpBuckets := bs, ProcessIrpCount := ProcessIrpCount q - 1,
      ProcessIrpList := remove1 i (ProcessIrpList q)\<rparr>)"
    unfolding ioq_ok_def
  proof (intro conjI)
    show "ptr_tab.table_ok (length (ProcessIrpBuckets (q\<lparr>ProcessIrpBuckets := bs,
        ProcessIrpCount := ProcessIrpCount q - 1, ProcessIrpList := remove1 i (ProcessIrpList q)\<rparr>)) - 1)
      (ProcessIrpBuckets (q\<lparr>ProcessIrpBuckets := bs, ProcessIrpCount := ProcessIrpCount q - 1,
        ProcessIrpList := remove1 i (ProcessIrpList q)\<rparr>))"
      using p(2) len by simp
  qed (use d(1-6) c m len in \<open>auto simp: queued_def dest: set_mp [OF set_remove1_subset]\<close>)
  ultimately show ?thesis by blast
qed

section \<open>Taking the next packet\<close>

lemma after_0 [simp]: "after 0 irps = irps"
  by (simp add: after_def)

lemma boundary_context_simps [simp]:
  "boundary_context b = Some c \<longleftrightarrow> c = \<lparr>IrpHint = (if b \<noteq> 0 then b else 1), ExpirationSec = 0\<rparr>"
  "boundary_context b \<noteq> None"
  by (auto simp: boundary_context_def)

lemma csq_contractD:
  assumes "csq_contract env"
  shows "IoCsqInsertIrpEx env c ins = FspCsqInsertIrpEx c ins"
    "IoCsqRemoveNextIrp env peek rem = FspCsqRemoveNextIrp peek rem"
  using assms by (auto simp: csq_contract_def fun_eq_iff)

text \<open>The list from which the next packet comes, cut at the boundary packet.\<close>

definition next_of :: "bool \<Rightarrow> ptr \<Rightarrow> ptr list \<Rightarrow> ptr" where
  "next_of stopped boundary irps =
     (if stopped \<or> irps = [] \<or> hd irps = (if boundary \<noteq> 0 then boundary else 1) then 0 else hd irps)"

lemma pending_peek:
  "FspIoqPendingPeekNextIrp q 0 None = (if PendingIrpList q = [] then 0 else hd (PendingIrpList q))"
  "FspIoqPendingPeekNextIrp q 0 (boundary_context b) = next_of (Stopped q) b (PendingIrpList q)"
  by (auto simp: FspIoqPendingPeekNextIrp_def next_of_def boundary_context_def split: list.split)

lemma retried_peek:
  "FspIoqRetriedPeekNextIrp q 0 None = (if RetriedIrpList q = [] then 0 else hd (RetriedIrpList q))"
  "FspIoqRetriedPeekNextIrp q 0 (boundary_context b) = next_of (Stopped q) b (RetriedIrpList q)"
  by (auto simp: FspIoqRetriedPeekNextIrp_def next_of_def boundary_context_def split: list.split)

lemma process_find:
  assumes "ioq_ok q"
  shows "bucket_find (process_hash q) id (ProcessIrpBuckets q) h =
    (if h \<in> set (ProcessIrpList q) then Some h else None)"
proof -
  note d = ioq_okD [OF assms]
  show ?thesis
    unfolding process_hash_eq [OF d(6)]
    using ptr_tab.lookup_iff [OF d(7), of h] ptr_tab.lookup_None [OF d(7), of h] d(9)
    by (auto simp del: set_concat)
qed

lemma process_peek:
  assumes "ioq_ok q"
  shows "FspIoqProcessPeekNextIrp q 0 None = (if ProcessIrpList q = [] then 0 else hd (ProcessIrpList q))"
    "h \<noteq> 0 \<Longrightarrow> FspIoqProcessPeekNextIrp q 0 (Some \<lparr>IrpHint = h, ExpirationSec = e\<rparr>) =
       (if \<not> Stopped q \<and> h \<in> set (ProcessIrpList q) then h else 0)"
  using process_find [OF assms, of h]
  by (auto simp: FspIoqProcessPeekNextIrp_def split: list.split)

text \<open>Two states of the queue that differ in the lists and the event only.\<close>

definition same_frame :: "ioq \<Rightarrow> ioq \<Rightarrow> bool" where
  "same_frame q q' \<longleftrightarrow> Stopped q' = Stopped q \<and> Canceled q' = Canceled q \<and>
     PendingIrpCapacity q' = PendingIrpCapacity q \<and> IrpTimeout q' = IrpTimeout q"

lemma same_frame_refl [simp]: "same_frame q q"
  by (simp add: same_frame_def)

lemma take_pending:
  assumes "ioq_ok q" "FspIoqPendingPeekNextIrp q 0 c = i" "i \<in> set (PendingIrpList q)"
  shows "\<exists>q'. FspCsqRemoveNextIrp FspIoqPendingPeekNextIrp FspIoqPendingRemoveIrp q c = Some (i, q') \<and>
    ioq_ok q' \<and> same_frame q q' \<and> PendingIrpList q' = remove1 i (PendingIrpList q) \<and>
    ProcessIrpList q' = ProcessIrpList q \<and> RetriedIrpList q' = RetriedIrpList q \<and>
    IrpTimestamp q' = IrpTimestamp q \<and>
    (PendingIrpEvent q' \<longleftrightarrow> PendingIrpEvent q \<or> PendingIrpList q' \<noteq> [] \<or> Stopped q)"
proof -
  have "i \<noteq> 0" using ioq_okD(2) [OF assms(1)] assms(3) by (auto simp: queued_def)
  then show ?thesis
    using assms(2) pending_remove_ok [OF assms(1,3)]
    by (simp add: FspCsqRemoveNextIrp_def same_frame_def)
qed

lemma take_retried:
  assumes "ioq_ok q" "FspIoqRetriedPeekNextIrp q 0 c = i" "i \<in> set (RetriedIrpList q)"
  shows "\<exists>q'. FspCsqRemoveNextIrp FspIoqRetriedPeekNextIrp FspIoqRetriedRemoveIrp q c = Some (i, q') \<and>
    ioq_ok q' \<and> same_frame q q' \<and> PendingIrpList q' = PendingIrpList q \<and>
    ProcessIrpList q' = ProcessIrpList q \<and> RetriedIrpList q' = remove1 i (RetriedIrpList q) \<and>
    PendingIrpEvent q' = PendingIrpEvent q"
proof -
  have "i \<noteq> 0" using ioq_okD(2) [OF assms(1)] assms(3) by (auto simp: queued_def)
  then show ?thesis
    using assms(2) retried_remove_ok [OF assms(1,3)]
    by (simp add: FspCsqRemoveNextIrp_def FspIoqRetriedRemoveIrp_def same_frame_def)
qed

lemma take_process:
  assumes "ioq_ok q" "FspIoqProcessPeekNextIrp q 0 c = i" "i \<in> set (ProcessIrpList q)"
  shows "\<exists>q'. FspCsqRemoveNextIrp FspIoqProcessPeekNextIrp FspIoqProcessRemoveIrp q c = Some (i, q') \<and>
    ioq_ok q' \<and> same_frame q q' \<and> PendingIrpList q' = PendingIrpList q \<and>
    ProcessIrpList q' = remove1 i (ProcessIrpList q) \<and> RetriedIrpList q' = RetriedIrpList q \<and>
    PendingIrpEvent q' = PendingIrpEvent q"
proof -
  have "i \<noteq> 0" using ioq_okD(2) [OF assms(1)] assms(3) by (auto simp: queued_def)
  then show ?thesis
    using assms(2) process_remove_ok [OF assms(1,3)]
    by (auto simp: FspCsqRemoveNextIrp_def same_frame_def)
qed

lemma take_none:
  "peek q 0 c = 0 \<Longrightarrow> FspCsqRemoveNextIrp peek rem q c = Some (0, q)"
  by (simp add: FspCsqRemoveNextIrp_def)

section \<open>Adding a packet\<close>

lemma unat_count_Suc: "unat (c :: u32) < 2 ^ 32 - 1 \<Longrightarrow> unat (c + 1) = Suc (unat c)"
  by (simp add: unat_word_ariths)

lemma pending_insert_ok:
  assumes "ioq_ok q" "i \<noteq> 0" "i \<notin> set (queued q)" "length (PendingIrpList q) < 2 ^ 32 - 1"
  shows "\<exists>r q'. FspCsqInsertIrpEx c FspIoqPendingInsertIrpEx q i be = (r, q') \<and> ioq_ok q' \<and>
    same_frame q q' \<and> ProcessIrpList q' = ProcessIrpList q \<and> RetriedIrpList q' = RetriedIrpList q \<and>
    (if Stopped q then r = STATUS_CANCELLED \<and> PendingIrpList q' = PendingIrpList q \<and>
       PendingIrpEvent q' = PendingIrpEvent q
     else if \<not> be \<and> unat (PendingIrpCapacity q) \<le> length (PendingIrpList q)
     then r = STATUS_INSUFFICIENT_RESOURCES \<and> PendingIrpList q' = PendingIrpList q \<and>
       PendingIrpEvent q' = PendingIrpEvent q
     else r = STATUS_SUCCESS \<and> PendingIrpList q' = PendingIrpList q @ [i] \<and> PendingIrpEvent q')"
proof -
  note d = ioq_okD [OF assms(1)]
  have "ioq_ok (q\<lparr>IrpCsq := x, PendingIrpCount := PendingIrpCount q + 1,
      PendingIrpList := PendingIrpList q @ [i]\<rparr>)" for x
    using assms d(3) unat_count_Suc [of "PendingIrpCount q"] by (auto simp: ioq_ok_def queued_def)
  then show ?thesis
    using assms(1) d(3)
    by (auto simp: FspCsqInsertIrpEx_def FspIoqPendingInsertIrpEx_def same_frame_def word_le_nat_alt)
qed

lemma retried_insert_ok:
  assumes "ioq_ok q" "i \<noteq> 0" "i \<notin> set (queued q)" "length (RetriedIrpList q) < 2 ^ 32 - 1"
  shows "\<exists>r q'. FspCsqInsertIrpEx c FspIoqRetriedInsertIrpEx q i be = (r, q') \<and> ioq_ok q' \<and>
    same_frame q q' \<and> ProcessIrpList q' = ProcessIrpList q \<and> PendingIrpList q' = PendingIrpList q \<and>
    PendingIrpEvent q' = PendingIrpEvent q \<and>
    (if Stopped q then r = STATUS_CANCELLED \<and> RetriedIrpList q' = RetriedIrpList q
     else r = STATUS_SUCCESS \<and> RetriedIrpList q' = RetriedIrpList q @ [i])"
proof -
  note d = ioq_okD [OF assms(1)]
  have "ioq_ok (q\<lparr>IrpCsq := x, RetriedIrpCount := RetriedIrpCount q + 1,
      RetriedIrpList := RetriedIrpList q @ [i]\<rparr>)" for x
    using assms d(5) unat_count_Suc [of "RetriedIrpCount q"] by (auto simp: ioq_ok_def queued_def)
  then show ?thesis
    using assms(1)
    by (auto simp: FspCsqInsertIrpEx_def FspIoqRetriedInsertIrpEx_def same_frame_def)
qed

lemma process_insert_ok:
  assumes "ioq_ok q" "i \<noteq> 0" "i \<notin> set (queued q)" "length (ProcessIrpList q) < 2 ^ 32 - 1"
  shows "\<exists>r q'. FspCsqInsertIrpEx c FspIoqProcessInsertIrpEx q i be = (r, q') \<and> ioq_ok q' \<and>
    same_frame q q' \<and> RetriedIrpList q' = RetriedIrpList q \<and> PendingIrpList q' = PendingIrpList q \<and>
    PendingIrpEvent q' = PendingIrpEvent q \<and>
    (if Stopped q then r = STATUS_CANCELLED \<and> ProcessIrpList q' = ProcessIrpList q
     else r = STATUS_SUCCESS \<and> ProcessIrpList q' = ProcessIrpList q @ [i])"
proof -
  note d = ioq_okD [OF assms(1)]
  let ?n = "length (ProcessIrpBuckets q) - 1"
  define bs where "bs = bucket_add (process_hash q) id i (ProcessIrpBuckets q)"
  have bs: "bs = ptr_tab.insert_elem ?n i (ProcessIrpBuckets q)"
    unfolding bs_def process_hash_eq [OF d(6)] ..
  have "i \<notin> set (concat (ProcessIrpBuckets q))"
    unfolding d(9) using assms(3) by (simp add: queued_def)
  then have "ptr_tab.lookup ?n (ProcessIrpBuckets q) (id i) = None"
    unfolding ptr_tab.lookup_None [OF d(7)] by (simp del: set_concat)
  note ins = ptr_tab.insert_ok [OF d(7) this, folded bs]
  have len: "length bs = length (ProcessIrpBuckets q)" by (simp add: bs_def bucket_add_def)
  have "ioq_ok (q\<lparr>IrpCsq := x, ProcessIrpCount := ProcessIrpCount q + 1,
      ProcessIrpList := ProcessIrpList q @ [i], ProcessIrpBuckets := bs\<rparr>)" (is "ioq_ok ?q") for x
    unfolding ioq_ok_def
  proof (intro conjI)
    show "ptr_tab.table_ok (length (ProcessIrpBuckets ?q) - 1) (ProcessIrpBuckets ?q)"
      using ins(1) len by simp
    show "mset (concat (ProcessIrpBuckets ?q)) = mset (ProcessIrpList ?q)"
      using ins(3) d(8) by simp
    show "unat (ProcessIrpCount ?q) = length (ProcessIrpList ?q)"
      using unat_count_Suc [of "ProcessIrpCount q"] d(4) assms(4) by simp
  qed (use assms d len in \<open>auto simp: queued_def\<close>)
  then show ?thesis
    using assms(1)
    by (auto simp: FspCsqInsertIrpEx_def FspIoqProcessInsertIrpEx_def same_frame_def bs_def)
qed

section \<open>The operations\<close>

lemma NT_SUCCESS_codes [simp]:
  "\<not> NT_SUCCESS STATUS_CANCELLED" "\<not> NT_SUCCESS STATUS_INSUFFICIENT_RESOURCES"
  by (simp_all add: NT_SUCCESS_def)

lemma queued_timestamp [simp]: "queued (q\<lparr>IrpTimestamp := t\<rparr>) = queued q"
  by (simp add: queued_def)

lemma post_effect:
  assumes "csq_contract env" "ioq_ok q" "i \<noteq> 0" "i \<notin> set (queued q)"
    "length (PendingIrpList q) < 2 ^ 32 - 1"
  shows "\<exists>ok r q'. FspIoqPostIrpEx env now q i be = (ok, r, q') \<and> ioq_ok q' \<and> same_frame q q' \<and>
    ProcessIrpList q' = ProcessIrpList q \<and> RetriedIrpList q' = RetriedIrpList q \<and>
    (if Stopped q then \<not> ok \<and> r = STATUS_CANCELLED \<and> PendingIrpList q' = PendingIrpList q \<and>
       PendingIrpEvent q' = PendingIrpEvent q
     else if \<not> be \<and> unat (PendingIrpCapacity q) \<le> length (PendingIrpList q)
     then \<not> ok \<and> r = STATUS_INSUFFICIENT_RESOURCES \<and> PendingIrpList q' = PendingIrpList q \<and>
       PendingIrpEvent q' = PendingIrpEvent q
     else ok \<and> r = STATUS_PENDING \<and> PendingIrpList q' = PendingIrpList q @ [i] \<and> PendingIrpEvent q')"
proof -
  let ?t = "if be then FspIrpTimestampInfinity else ConvertInterruptTimeToSec now + IrpTimeout q"
  let ?q = "q\<lparr>IrpTimestamp := (IrpTimestamp q)(i := ?t)\<rparr>"
  from pending_insert_ok [of ?q i PendingIoCsq be] assms(2-5) obtain r q' where
    I: "FspCsqInsertIrpEx PendingIoCsq FspIoqPendingInsertIrpEx ?q i be = (r, q')" "ioq_ok q'"
      "same_frame ?q q'" "ProcessIrpList q' = ProcessIrpList q" "RetriedIrpList q' = RetriedIrpList q"
      "if Stopped q then r = STATUS_CANCELLED \<and> PendingIrpList q' = PendingIrpList q \<and>
         PendingIrpEvent q' = PendingIrpEvent q
       else if \<not> be \<and> unat (PendingIrpCapacity q) \<le> length (PendingIrpList q)
       then r = STATUS_INSUFFICIENT_RESOURCES \<and> PendingIrpList q' = PendingIrpList q \<and>
         PendingIrpEvent q' = PendingIrpEvent q
       else r = STATUS_SUCCESS \<and> PendingIrpList q' = PendingIrpList q @ [i] \<and> PendingIrpEvent q'"
    by auto
  have P: "FspIoqPostIrpEx env now q i be =
      (if NT_SUCCESS r then (True, STATUS_PENDING, q') else (False, r, q'))"
    unfolding FspIoqPostIrpEx_def csq_contractD [OF assms(1)] Let_def I(1) by simp
  show ?thesis using I(2-6) unfolding P by (auto simp: same_frame_def split: if_splits)
qed

lemma start_effect:
  assumes "ioq_ok q" "i \<noteq> 0" "i \<notin> set (queued q)" "length (ProcessIrpList q) < 2 ^ 32 - 1"
  shows "\<exists>q'. FspIoqStartProcessingIrp q i = (\<not> Stopped q, q') \<and> ioq_ok q' \<and> same_frame q q' \<and>
    PendingIrpList q' = PendingIrpList q \<and> RetriedIrpList q' = RetriedIrpList q \<and>
    ProcessIrpList q' = ProcessIrpList q @ (if Stopped q then [] else [i]) \<and>
    PendingIrpEvent q' = PendingIrpEvent q"
proof -
  let ?q = "q\<lparr>IrpTimestamp := (IrpTimestamp q)(i := FspIrpTimestampInfinity)\<rparr>"
  from process_insert_ok [of ?q i ProcessIoCsq False] assms obtain r q' where
    I: "FspCsqInsertIrpEx ProcessIoCsq FspIoqProcessInsertIrpEx ?q i False = (r, q')" "ioq_ok q'"
      "same_frame ?q q'" "PendingIrpList q' = PendingIrpList q" "RetriedIrpList q' = RetriedIrpList q"
      "PendingIrpEvent q' = PendingIrpEvent q"
      "if Stopped q then r = STATUS_CANCELLED \<and> ProcessIrpList q' = ProcessIrpList q
       else r = STATUS_SUCCESS \<and> ProcessIrpList q' = ProcessIrpList q @ [i]"
    by auto
  have P: "FspIoqStartProcessingIrp q i = (NT_SUCCESS r, q')"
    unfolding FspIoqStartProcessingIrp_def I(1) by simp
  show ?thesis using I(2-7) unfolding P by (auto simp: same_frame_def split: if_splits)
qed

lemma retry_effect:
  assumes "ioq_ok q" "i \<noteq> 0" "i \<notin> set (queued q)" "length (RetriedIrpList q) < 2 ^ 32 - 1"
  shows "\<exists>r q'. FspIoqRetryCompleteIrp q i = (\<not> Stopped q, r, q') \<and> ioq_ok q' \<and> same_frame q q' \<and>
    PendingIrpList q' = PendingIrpList q \<and> ProcessIrpList q' = ProcessIrpList q \<and>
    RetriedIrpList q' = RetriedIrpList q @ (if Stopped q then [] else [i]) \<and>
    r = (if Stopped q then STATUS_CANCELLED else STATUS_PENDING) \<and>
    PendingIrpEvent q' = (PendingIrpEvent q \<or> \<not> Stopped q)"
proof -
  let ?q = "q\<lparr>IrpTimestamp := (IrpTimestamp q)(i := FspIrpTimestampInfinity)\<rparr>"
  from retried_insert_ok [of ?q i RetriedIoCsq False] assms obtain r q' where
    I: "FspCsqInsertIrpEx RetriedIoCsq FspIoqRetriedInsertIrpEx ?q i False = (r, q')" "ioq_ok q'"
      "same_frame ?q q'" "PendingIrpList q' = PendingIrpList q" "ProcessIrpList q' = ProcessIrpList q"
      "PendingIrpEvent q' = PendingIrpEvent q"
      "if Stopped q then r = STATUS_CANCELLED \<and> RetriedIrpList q' = RetriedIrpList q
       else r = STATUS_SUCCESS \<and> RetriedIrpList q' = RetriedIrpList q @ [i]"
    by auto
  have P: "FspIoqRetryCompleteIrp q i =
      (if NT_SUCCESS r then (True, STATUS_PENDING, q'\<lparr>PendingIrpEvent := True\<rparr>) else (False, r, q'))"
    unfolding FspIoqRetryCompleteIrp_def I(1) by simp
  show ?thesis using I(2-7) unfolding P by (auto simp: same_frame_def split: if_splits)
qed

lemma end_effect:
  assumes "ioq_ok q"
  shows "if \<not> Stopped q \<and> h \<in> set (ProcessIrpList q) then
      \<exists>q'. FspIoqEndProcessingIrp q h = Some (h, q') \<and> ioq_ok q' \<and> same_frame q q' \<and>
        PendingIrpList q' = PendingIrpList q \<and> RetriedIrpList q' = RetriedIrpList q \<and>
        ProcessIrpList q' = remove1 h (ProcessIrpList q) \<and> PendingIrpEvent q' = PendingIrpEvent q
    else FspIoqEndProcessingIrp q h = Some (0, q)"
proof (cases "\<not> Stopped q \<and> h \<in> set (ProcessIrpList q)")
  case True
  then have h: "h \<noteq> 0" using ioq_okD(2) [OF assms] by (auto simp: queued_def)
  have "FspIoqProcessPeekNextIrp q 0 (Some \<lparr>IrpHint = h, ExpirationSec = 0\<rparr>) = h"
    using True process_peek(2) [OF assms h] by simp
  from take_process [OF assms this] True h show ?thesis by (auto simp: FspIoqEndProcessingIrp_def)
next
  case False
  have "FspIoqEndProcessingIrp q h = Some (0, q)"
  proof (cases "h = 0")
    case h: False
    have "FspIoqProcessPeekNextIrp q 0 (Some \<lparr>IrpHint = h, ExpirationSec = 0\<rparr>) = 0"
      unfolding process_peek(2) [OF assms h] using False by auto
    then show ?thesis
      using h take_none [of FspIoqProcessPeekNextIrp] by (simp add: FspIoqEndProcessingIrp_def)
  qed (simp add: FspIoqEndProcessingIrp_def)
  with False show ?thesis by auto
qed

lemma next_of_in: "next_of st b irps \<noteq> 0 \<Longrightarrow> next_of st b irps \<in> set irps"
  by (auto simp: next_of_def split: if_splits)

lemma next_pending_effect:
  fixes b :: ptr
  assumes "csq_contract env" "ioq_ok q"
  defines "i \<equiv> next_of (Stopped q) b (PendingIrpList q)"
  shows "\<exists>q'. IoCsqRemoveNextIrp env FspIoqPendingPeekNextIrp FspIoqPendingRemoveIrp q (boundary_context b) =
      Some (i, q') \<and> ioq_ok q' \<and> same_frame q q' \<and>
    ProcessIrpList q' = ProcessIrpList q \<and> RetriedIrpList q' = RetriedIrpList q \<and>
    (if i = 0 then q' = q
     else i \<in> set (PendingIrpList q) \<and> PendingIrpList q' = remove1 i (PendingIrpList q) \<and>
       (PendingIrpEvent q' \<longleftrightarrow> PendingIrpEvent q \<or> PendingIrpList q' \<noteq> [] \<or> Stopped q))"
proof (cases "i = 0")
  case True
  then show ?thesis
    using assms(2)
    by (auto simp: csq_contractD [OF assms(1)] pending_peek i_def [symmetric] FspCsqRemoveNextIrp_def)
next
  case False
  then have m: "i \<in> set (PendingIrpList q)" unfolding i_def by (rule next_of_in)
  from take_pending [OF assms(2) pending_peek(2) [of q b, folded i_def] m] False m show ?thesis
    by (auto simp: csq_contractD [OF assms(1)])
qed

lemma next_complete_effect:
  fixes b :: ptr
  assumes "ioq_ok q"
  defines "i \<equiv> next_of (Stopped q) b (RetriedIrpList q)"
  shows "\<exists>q'. FspIoqNextCompleteIrp q b = Some (i, q') \<and> ioq_ok q' \<and> same_frame q q' \<and>
    ProcessIrpList q' = ProcessIrpList q \<and> PendingIrpList q' = PendingIrpList q \<and>
    PendingIrpEvent q' = PendingIrpEvent q \<and>
    (if i = 0 then q' = q
     else i \<in> set (RetriedIrpList q) \<and> RetriedIrpList q' = remove1 i (RetriedIrpList q))"
proof (cases "i = 0")
  case True
  then show ?thesis
    using assms(1)
    by (auto simp: FspIoqNextCompleteIrp_def retried_peek i_def [symmetric] FspCsqRemoveNextIrp_def)
next
  case False
  then have m: "i \<in> set (RetriedIrpList q)" unfolding i_def by (rule next_of_in)
  from take_retried [OF assms(1) retried_peek(2) [of q b, folded i_def] m] False m show ?thesis
    by (auto simp: FspIoqNextCompleteIrp_def)
qed

end
