(* ===== verification/IoqSteps.thy ===== *)
theory IoqSteps
  imports IoqProps
begin

text \<open>
  Draining a list (the loops of \<open>FspIoqStop\<close> and \<open>FspIoqRemoveExpired\<close>), and the queue as a
  state machine: every critical section is a step, the steps of all threads interleave, and
  packets move between the driver, the lists and completion.
\<close>

section \<open>Draining\<close>

locale csq_queue =
  fixes remove_next :: "ioq \<Rightarrow> peek_context option \<Rightarrow> (ptr \<times> ioq) option"
    and items :: "ioq \<Rightarrow> ptr list" and rest :: "ioq \<Rightarrow> 'r"
  assumes items_queued: "set (items q) \<subseteq> set (queued q)"
    and next_none: "ioq_ok q \<Longrightarrow> items q = [] \<Longrightarrow> remove_next q None = Some (0, q)"
    and next_head: "ioq_ok q \<Longrightarrow> items q = i # is \<Longrightarrow>
      \<exists>q'. remove_next q None = Some (i, q') \<and> ioq_ok q' \<and> items q' = is \<and> rest q' = rest q \<and>
        Canceled q' = Canceled q \<and> (PendingIrpEvent q \<longrightarrow> PendingIrpEvent q')"
    and complete_frame: "items (CompleteCanceledIrp q i) = items q" "rest (CompleteCanceledIrp q i) = rest q"
begin

lemma drain:
  "ioq_ok q \<Longrightarrow> \<exists>q'. cancel_all remove_next None q = Some q' \<and> ioq_ok q' \<and> items q' = [] \<and>
    rest q' = rest q \<and> Canceled q' = rev (items q) @ Canceled q \<and>
    (PendingIrpEvent q \<longrightarrow> PendingIrpEvent q')"
proof (induction "items q" arbitrary: q)
  case Nil
  then show ?case using next_none [of q] by (subst cancel_all.simps) simp
next
  case (Cons i irps)
  from next_head [OF Cons.prems Cons.hyps(2) [symmetric]] obtain q1 where
    q1: "remove_next q None = Some (i, q1)" "ioq_ok q1" "items q1 = irps" "rest q1 = rest q"
      "Canceled q1 = Canceled q" "PendingIrpEvent q \<longrightarrow> PendingIrpEvent q1" by blast
  have "i \<in> set (queued q)" using items_queued [of q] Cons.hyps(2) by (metis list.set_intros(1) subsetD)
  then have i: "i \<noteq> 0" using ioq_okD(2) [OF Cons.prems] by metis
  have "ioq_ok (CompleteCanceledIrp q1 i)" using q1(2) by (simp add: CompleteCanceledIrp_def)
  moreover have "irps = items (CompleteCanceledIrp q1 i)" using q1(3) complete_frame by simp
  ultimately obtain q' where q': "cancel_all remove_next None (CompleteCanceledIrp q1 i) = Some q'"
    "ioq_ok q'" "items q' = []" "rest q' = rest (CompleteCanceledIrp q1 i)"
    "Canceled q' = rev (items (CompleteCanceledIrp q1 i)) @ Canceled (CompleteCanceledIrp q1 i)"
    "PendingIrpEvent (CompleteCanceledIrp q1 i) \<longrightarrow> PendingIrpEvent q'"
    using Cons.hyps(1) by blast
  have f: "Canceled (CompleteCanceledIrp q1 i) = i # Canceled q1"
    "PendingIrpEvent (CompleteCanceledIrp q1 i) = PendingIrpEvent q1"
    by (simp_all add: CompleteCanceledIrp_def)
  have "cancel_all remove_next None q = Some q'"
    using q1(1) i q'(1) by (subst cancel_all.simps) simp
  then show ?case
    using q'(2-6) q1(3-6) complete_frame [of q1 i] f Cons.hyps(2) [symmetric] by auto
qed

end

lemma queued_frame [simp]: "queued (q\<lparr>Canceled := c\<rparr>) = queued q"
  by (simp add: queued_def)

interpretation pending_queue: csq_queue
  "FspCsqRemoveNextIrp FspIoqPendingPeekNextIrp FspIoqPendingRemoveIrp" PendingIrpList
  "\<lambda>q. (Stopped q, ProcessIrpList q, RetriedIrpList q)"
proof unfold_locales
  fix q i "is" assume "ioq_ok q" "PendingIrpList q = i # is"
  with take_pending [OF \<open>ioq_ok q\<close> refl, of None] show "\<exists>q'. FspCsqRemoveNextIrp
      FspIoqPendingPeekNextIrp FspIoqPendingRemoveIrp q None = Some (i, q') \<and> ioq_ok q' \<and>
      PendingIrpList q' = is \<and> (Stopped q', ProcessIrpList q', RetriedIrpList q') =
      (Stopped q, ProcessIrpList q, RetriedIrpList q) \<and>
      Canceled q' = Canceled q \<and> (PendingIrpEvent q \<longrightarrow> PendingIrpEvent q')"
    by (simp add: pending_peek same_frame_def) blast
qed (auto simp: queued_def CompleteCanceledIrp_def take_none pending_peek)

interpretation process_queue: csq_queue
  "FspCsqRemoveNextIrp FspIoqProcessPeekNextIrp FspIoqProcessRemoveIrp" ProcessIrpList
  "\<lambda>q. (Stopped q, PendingIrpList q, RetriedIrpList q)"
proof unfold_locales
  fix q i "is" assume "ioq_ok q" "ProcessIrpList q = i # is"
  with take_process [OF \<open>ioq_ok q\<close> refl, of None] show "\<exists>q'. FspCsqRemoveNextIrp
      FspIoqProcessPeekNextIrp FspIoqProcessRemoveIrp q None = Some (i, q') \<and> ioq_ok q' \<and>
      ProcessIrpList q' = is \<and> (Stopped q', PendingIrpList q', RetriedIrpList q') =
      (Stopped q, PendingIrpList q, RetriedIrpList q) \<and>
      Canceled q' = Canceled q \<and> (PendingIrpEvent q \<longrightarrow> PendingIrpEvent q')"
    by (simp add: process_peek same_frame_def) blast
qed (auto simp: queued_def CompleteCanceledIrp_def take_none process_peek)

interpretation retried_queue: csq_queue
  "FspCsqRemoveNextIrp FspIoqRetriedPeekNextIrp FspIoqRetriedRemoveIrp" RetriedIrpList
  "\<lambda>q. (Stopped q, PendingIrpList q, ProcessIrpList q)"
proof unfold_locales
  fix q i "is" assume "ioq_ok q" "RetriedIrpList q = i # is"
  with take_retried [OF \<open>ioq_ok q\<close> refl, of None] show "\<exists>q'. FspCsqRemoveNextIrp
      FspIoqRetriedPeekNextIrp FspIoqRetriedRemoveIrp q None = Some (i, q') \<and> ioq_ok q' \<and>
      RetriedIrpList q' = is \<and> (Stopped q', PendingIrpList q', ProcessIrpList q') =
      (Stopped q, PendingIrpList q, ProcessIrpList q) \<and>
      Canceled q' = Canceled q \<and> (PendingIrpEvent q \<longrightarrow> PendingIrpEvent q')"
    by (simp add: retried_peek same_frame_def) blast
qed (auto simp: queued_def CompleteCanceledIrp_def take_none retried_peek)

lemma stop_ok:
  assumes "csq_contract env" "ioq_ok q"
  shows "\<exists>q'. FspIoqStop env q True = Some q' \<and> ioq_ok q' \<and> queued q' = [] \<and> Stopped q' \<and>
    PendingIrpEvent q' \<and>
    Canceled q' = rev (queued q) @ Canceled q"
proof -
  let ?q = "q\<lparr>Stopped := True, PendingIrpEvent := True\<rparr>"
  have "ioq_ok ?q" using assms(2) by simp
  from pending_queue.drain [OF this] obtain q1 where
    q1: "cancel_all (next_pending env) None ?q = Some q1" "ioq_ok q1" "PendingIrpList q1 = []"
      "Stopped q1" "ProcessIrpList q1 = ProcessIrpList q" "RetriedIrpList q1 = RetriedIrpList q"
      "Canceled q1 = rev (PendingIrpList q) @ Canceled q" "PendingIrpEvent q1"
    by (auto simp: csq_contractD [OF assms(1)])
  from process_queue.drain [OF q1(2)] q1 obtain q2 where
    q2: "cancel_all next_process None q1 = Some q2" "ioq_ok q2" "PendingIrpList q2 = []"
      "Stopped q2" "ProcessIrpList q2 = []" "RetriedIrpList q2 = RetriedIrpList q"
      "Canceled q2 = rev (PendingIrpList q @ ProcessIrpList q) @ Canceled q" "PendingIrpEvent q2"
    by auto
  from retried_queue.drain [OF q2(2)] q2 obtain q3 where
    q3: "cancel_all next_retried None q2 = Some q3" "ioq_ok q3" "PendingIrpList q3 = []"
      "Stopped q3" "ProcessIrpList q3 = []" "RetriedIrpList q3 = []"
      "Canceled q3 = rev (PendingIrpList q @ ProcessIrpList q @ RetriedIrpList q) @ Canceled q"
      "PendingIrpEvent q3"
    by auto
  show ?thesis
    using q1(1) q2(1) q3 by (simp add: FspIoqStop_def Let_def queued_def)
qed

section \<open>Expiry\<close>

lemma peek_expired_cases:
  "peek_expired ts e irps = (case filter (\<lambda>i. ts i \<noteq> FspIrpTimestampInfinity) irps of
     [] \<Rightarrow> 0 | i # _ \<Rightarrow> if ts i \<le> e then i else 0)"
  by (induction irps) auto

lemma remove1_filter_neg: "\<not> P i \<Longrightarrow> filter P (remove1 i xs) = filter P xs"
  by (induction xs) auto

lemma filter_sorted_prefix:
  "sorted (map ts (filter F irps)) \<Longrightarrow> filter F irps = i # is \<Longrightarrow> \<not> (ts i :: u32) \<le> e \<Longrightarrow>
     filter (\<lambda>i. F i \<and> ts i \<le> e) irps = []"
proof -
  assume s: "sorted (map ts (filter F irps))" "filter F irps = i # is" "\<not> ts i \<le> e"
  have "filter (\<lambda>i. ts i \<le> e) (filter F irps) = []"
    unfolding s(2) using s(1,3) unfolding s(2) by (auto simp: filter_empty_conv)
  then show ?thesis by (simp add: conj_commute)
qed

lemma expire_loop:
  fixes e :: u32
  assumes "ioq_ok q" "\<not> Stopped q"
    "sorted (map (IrpTimestamp q) (filter (\<lambda>i. IrpTimestamp q i \<noteq> FspIrpTimestampInfinity) (PendingIrpList q)))"
  defines "dead \<equiv> \<lambda>i. IrpTimestamp q i \<noteq> FspIrpTimestampInfinity \<and> IrpTimestamp q i \<le> e"
  shows "\<exists>q'. cancel_all (FspCsqRemoveNextIrp FspIoqPendingPeekNextIrp FspIoqPendingRemoveIrp)
      (Some \<lparr>IrpHint = 0, ExpirationSec = e\<rparr>) q = Some q' \<and> ioq_ok q' \<and>
    PendingIrpList q' = filter (\<lambda>i. \<not> dead i) (PendingIrpList q) \<and>
    ProcessIrpList q' = ProcessIrpList q \<and> RetriedIrpList q' = RetriedIrpList q \<and>
    Canceled q' = rev (filter dead (PendingIrpList q)) @ Canceled q"
  using assms(1-3) unfolding dead_def
proof (induction "length (PendingIrpList q)" arbitrary: q rule: less_induct)
  case less
  let ?F = "\<lambda>i. IrpTimestamp q i \<noteq> FspIrpTimestampInfinity"
  let ?D = "\<lambda>i. IrpTimestamp q i \<noteq> FspIrpTimestampInfinity \<and> IrpTimestamp q i \<le> e"
  let ?c = "Some \<lparr>IrpHint = 0, ExpirationSec = e\<rparr>"
  have peek: "FspIoqPendingPeekNextIrp q 0 ?c = peek_expired (IrpTimestamp q) e (PendingIrpList q)"
    using less.prems(2) by (auto simp: FspIoqPendingPeekNextIrp_def split: list.split)
  show ?case
  proof (cases "\<exists>i is. filter ?F (PendingIrpList q) = i # is \<and> IrpTimestamp q i \<le> e")
    case False
    then have p: "FspIoqPendingPeekNextIrp q 0 ?c = 0"
      unfolding peek peek_expired_cases by (auto split: list.split)
    have "filter ?D (PendingIrpList q) = []"
    proof (cases "filter ?F (PendingIrpList q)")
      case Nil
      then show ?thesis by (auto simp: filter_empty_conv)
    next
      case (Cons i "is")
      with False have "\<not> IrpTimestamp q i \<le> e" by blast
      from filter_sorted_prefix [OF less.prems(3) Cons this] show ?thesis .
    qed
    then have "filter (\<lambda>i. \<not> ?D i) (PendingIrpList q) = PendingIrpList q"
      by (auto simp: filter_empty_conv intro!: filter_True)
    then show ?thesis
      using less.prems(1) \<open>filter ?D (PendingIrpList q) = []\<close> take_none [of FspIoqPendingPeekNextIrp, OF p]
      by (subst cancel_all.simps) simp
  next
    case True
    then obtain i "is" where i: "filter ?F (PendingIrpList q) = i # is" "IrpTimestamp q i \<le> e" by blast
    have p: "FspIoqPendingPeekNextIrp q 0 ?c = i" unfolding peek peek_expired_cases using i by simp
    have "i \<in> set (filter ?F (PendingIrpList q))" unfolding i(1) by simp
    then have im: "i \<in> set (PendingIrpList q)" and id: "?D i" using i(2) by auto
    from take_pending [OF less.prems(1) p im] obtain q1 where
      q1: "FspCsqRemoveNextIrp FspIoqPendingPeekNextIrp FspIoqPendingRemoveIrp q ?c = Some (i, q1)"
        "ioq_ok q1" "same_frame q q1" "PendingIrpList q1 = remove1 i (PendingIrpList q)"
        "ProcessIrpList q1 = ProcessIrpList q" "RetriedIrpList q1 = RetriedIrpList q"
        "IrpTimestamp q1 = IrpTimestamp q" by blast
    have dist: "distinct (PendingIrpList q)" using ioq_okD(1) [OF less.prems(1)] by (simp add: queued_def)
    let ?q = "CompleteCanceledIrp q1 i"
    have i0: "i \<noteq> 0" using ioq_okD(2) [OF less.prems(1)] im by (auto simp: queued_def)
    have F1: "filter ?F (remove1 i (PendingIrpList q)) = is"
    proof -
      have "filter ?F (remove1 i (PendingIrpList q)) = remove1 i (filter ?F (PendingIrpList q))"
        by (induction "PendingIrpList q") (auto simp: filter_remove1 remove1_filter_not)
      then show ?thesis unfolding i(1) by simp
    qed
    have "length (PendingIrpList ?q) < length (PendingIrpList q)"
      using im q1(4) length_pos_if_in_set [OF im] by (simp add: CompleteCanceledIrp_def length_remove1)
    moreover have "ioq_ok ?q" "\<not> Stopped ?q"
      using q1(2,3) less.prems(2) by (simp_all add: CompleteCanceledIrp_def same_frame_def)
    moreover have "sorted (map (IrpTimestamp ?q) (filter (\<lambda>i. IrpTimestamp ?q i \<noteq> FspIrpTimestampInfinity)
        (PendingIrpList ?q)))"
      using less.prems(3) i(1) by (simp add: CompleteCanceledIrp_def q1(4,7) F1)
    ultimately obtain q' where q': "cancel_all (FspCsqRemoveNextIrp FspIoqPendingPeekNextIrp
        FspIoqPendingRemoveIrp) ?c ?q = Some q'" "ioq_ok q'"
      "PendingIrpList q' = filter (\<lambda>i. \<not> ?D i) (remove1 i (PendingIrpList q))"
      "ProcessIrpList q' = ProcessIrpList q" "RetriedIrpList q' = RetriedIrpList q"
      "Canceled q' = rev (filter ?D (remove1 i (PendingIrpList q))) @ i # Canceled q"
      using less.hyps [of ?q] q1(3-7) by (auto simp: CompleteCanceledIrp_def same_frame_def)
    have "filter ?D (PendingIrpList q) = i # filter ?D (remove1 i (PendingIrpList q))"
    proof -
      have *: "filter ?D xs = filter (\<lambda>i. IrpTimestamp q i \<le> e) (filter ?F xs)" for xs
        by (simp add: conj_commute)
      show ?thesis unfolding * F1 i(1) using i(2) by simp
    qed
    moreover have "filter (\<lambda>i. \<not> ?D i) (remove1 i (PendingIrpList q)) = filter (\<lambda>i. \<not> ?D i) (PendingIrpList q)"
      using id by (intro remove1_filter_neg) blast
    moreover have "cancel_all (FspCsqRemoveNextIrp FspIoqPendingPeekNextIrp FspIoqPendingRemoveIrp) ?c q = Some q'"
      using q1(1) i0 q'(1) by (subst cancel_all.simps) simp
    ultimately show ?thesis using q' by simp
  qed
qed

end
