(* ===== verification/IoqSpec.thy ===== *)
theory IoqSpec
  imports IoqSteps
begin

text \<open>
  The request queue as a state machine whose steps are the critical sections of all threads, the
  invariant of its reachable states, and the properties of the queue.
\<close>

section \<open>The state machine\<close>

text \<open>
  \<open>Owned\<close> are the packets in the hands of the driver (in a dispatch routine or in a transaction),
  \<open>Finished\<close> those it has completed itself. \<open>Woken\<close> counts the threads that have taken the
  signal and not yet looked at the list, \<open>Resetting\<close> those that found nothing and have not yet
  reset the event.
\<close>

record ioq_sys =
  Queue :: ioq
  Owned :: "ptr multiset"
  Finished :: "ptr multiset"
  Woken :: nat
  Resetting :: nat

definition own :: "ptr \<Rightarrow> ptr multiset \<Rightarrow> ptr multiset" where
  "own irp M = (if irp \<noteq> 0 then add_mset irp M else M)"

definition disown :: "bool \<Rightarrow> ptr \<Rightarrow> ptr multiset \<Rightarrow> ptr multiset" where
  "disown ok irp M = (if ok then M - {#irp#} else M)"

inductive ioq_step :: "csq_env \<Rightarrow> ioq_sys \<Rightarrow> ioq_sys \<Rightarrow> bool" for env where
  post: "irp \<in># Owned s \<Longrightarrow> FspIoqPostIrpEx env now (Queue s) irp be = (ok, st, q) \<Longrightarrow>
    ioq_step env s (s\<lparr>Queue := q, Owned := disown ok irp (Owned s)\<rparr>)"
| wait: "PendingIrpEvent (Queue s) \<Longrightarrow>
    ioq_step env s (s\<lparr>Queue := (Queue s)\<lparr>PendingIrpEvent := False\<rparr>, Woken := Suc (Woken s)\<rparr>)"
| take: "Woken s = Suc n \<Longrightarrow> next_pending env (Queue s) (boundary_context b) = Some (irp, q) \<Longrightarrow>
    ioq_step env s (s\<lparr>Queue := q, Owned := own irp (Owned s), Woken := n,
      Resetting := (if irp = 0 then Suc (Resetting s) else Resetting s)\<rparr>)"
| reset: "Resetting s = Suc n \<Longrightarrow>
    ioq_step env s (s\<lparr>Queue := FspIoqPendingResetSynch (Queue s), Resetting := n\<rparr>)"
| poll: "FspIoqNextPendingIrp env (Queue s) b None = Some (irp, q) \<Longrightarrow>
    ioq_step env s (s\<lparr>Queue := q, Owned := own irp (Owned s)\<rparr>)"
| begin_processing: "irp \<in># Owned s \<Longrightarrow> FspIoqStartProcessingIrp (Queue s) irp = (ok, q) \<Longrightarrow>
    ioq_step env s (s\<lparr>Queue := q, Owned := disown ok irp (Owned s)\<rparr>)"
| end_processing: "FspIoqEndProcessingIrp (Queue s) hint = Some (irp, q) \<Longrightarrow>
    ioq_step env s (s\<lparr>Queue := q, Owned := own irp (Owned s)\<rparr>)"
| retry: "irp \<in># Owned s \<Longrightarrow> FspIoqRetryCompleteIrp (Queue s) irp = (ok, st, q) \<Longrightarrow>
    ioq_step env s (s\<lparr>Queue := q, Owned := disown ok irp (Owned s)\<rparr>)"
| next_complete: "FspIoqNextCompleteIrp (Queue s) b = Some (irp, q) \<Longrightarrow>
    ioq_step env s (s\<lparr>Queue := q, Owned := own irp (Owned s)\<rparr>)"
| finish: "irp \<in># Owned s \<Longrightarrow>
    ioq_step env s (s\<lparr>Owned := Owned s - {#irp#}, Finished := add_mset irp (Finished s)\<rparr>)"
| stop: "FspIoqStop env (Queue s) False = Some q \<Longrightarrow> ioq_step env s (s\<lparr>Queue := q\<rparr>)"
| cancel_next: "ctx = None \<or> ctx = Some \<lparr>IrpHint = 0, ExpirationSec = t\<rparr> \<Longrightarrow>
    next_pending env (Queue s) ctx = Some (irp, q) \<Longrightarrow> irp \<noteq> 0 \<Longrightarrow>
    ioq_step env s (s\<lparr>Queue := CompleteCanceledIrp q irp\<rparr>)"
| cancel_process: "next_process (Queue s) None = Some (irp, q) \<Longrightarrow> irp \<noteq> 0 \<Longrightarrow>
    ioq_step env s (s\<lparr>Queue := CompleteCanceledIrp q irp\<rparr>)"
| cancel_retried: "next_retried (Queue s) None = Some (irp, q) \<Longrightarrow> irp \<noteq> 0 \<Longrightarrow>
    ioq_step env s (s\<lparr>Queue := CompleteCanceledIrp q irp\<rparr>)"
| cancel_routine: "irp \<in> set (PendingIrpList (Queue s)) \<Longrightarrow> CancelPendingIrp (Queue s) irp = Some q \<Longrightarrow>
    ioq_step env s (s\<lparr>Queue := q\<rparr>)"

inductive ioq_reachable :: "csq_env \<Rightarrow> ptr set \<Rightarrow> ioq_sys \<Rightarrow> bool" for env Irps where
  start: "FspIoqCreate True (Suc n) cap timeout = (STATUS_SUCCESS, Some q) \<Longrightarrow>
    ioq_reachable env Irps \<lparr>Queue = q, Owned = mset_set Irps, Finished = {#}, Woken = 0, Resetting = 0\<rparr>"
| step: "ioq_reachable env Irps s \<Longrightarrow> ioq_step env s s' \<Longrightarrow> ioq_reachable env Irps s'"

text \<open>A waiting call is the steps \<open>wait\<close>, \<open>take\<close> and, without a packet, \<open>reset\<close>.\<close>

lemma next_pending_steps:
  assumes "PendingIrpEvent (Queue s)" "FspIoqNextPendingIrp env (Queue s) b (Some STATUS_SUCCESS) = Some (irp, q)"
  shows "(ioq_step env)\<^sup>*\<^sup>* s (s\<lparr>Queue := q, Owned := own irp (Owned s)\<rparr>)"
proof -
  let ?s1 = "s\<lparr>Queue := (Queue s)\<lparr>PendingIrpEvent := False\<rparr>, Woken := Suc (Woken s)\<rparr>"
  obtain q1 where q1: "next_pending env ((Queue s)\<lparr>PendingIrpEvent := False\<rparr>) (boundary_context b) = Some (irp, q1)"
    "q = (if irp = 0 then FspIoqPendingResetSynch q1 else q1)"
    using assms(2) by (auto simp: FspIoqNextPendingIrp_def bind_eq_Some_conv split: if_splits)
  let ?s2 = "?s1\<lparr>Queue := q1, Owned := own irp (Owned ?s1), Woken := Woken s,
      Resetting := (if irp = 0 then Suc (Resetting ?s1) else Resetting ?s1)\<rparr>"
  have 1: "ioq_step env s ?s1" by (rule ioq_step.wait [OF assms(1)])
  have 2: "ioq_step env ?s1 ?s2" by (rule ioq_step.take) (use q1(1) in simp_all)
  show ?thesis
  proof (cases "irp = 0")
    case True
    then have "ioq_step env ?s2 (?s2\<lparr>Queue := FspIoqPendingResetSynch (Queue ?s2), Resetting := Resetting s\<rparr>)"
      by (intro ioq_step.reset) simp
    with 1 2 have "(ioq_step env)\<^sup>*\<^sup>* s (?s2\<lparr>Queue := FspIoqPendingResetSynch (Queue ?s2), Resetting := Resetting s\<rparr>)"
      by (blast intro: rtranclp.rtrancl_into_rtrancl)
    then show ?thesis using True q1(2) by (cases s) simp
  next
    case False
    with 1 2 q1(2) show ?thesis by (auto intro: rtranclp.rtrancl_into_rtrancl)
  qed
qed

section \<open>The invariant of the reachable states\<close>

definition sys_mset :: "ioq_sys \<Rightarrow> ptr multiset" where
  "sys_mset s = Owned s + mset (queued (Queue s)) + mset (Canceled (Queue s)) + Finished s"

definition awake :: "ioq_sys \<Rightarrow> bool" where
  "awake s \<longleftrightarrow> (PendingIrpList (Queue s) \<noteq> [] \<or> Stopped (Queue s) \<longrightarrow>
     PendingIrpEvent (Queue s) \<or> 0 < Woken s + Resetting s)"

definition sys_ok :: "ptr set \<Rightarrow> ioq_sys \<Rightarrow> bool" where
  "sys_ok Irps s \<longleftrightarrow> ioq_ok (Queue s) \<and> sys_mset s = mset_set Irps \<and> awake s"

lemma ioq_create_ok:
  assumes "FspIoqCreate True (Suc n) cap timeout = (STATUS_SUCCESS, Some q)"
  shows "ioq_ok q \<and> queued q = [] \<and> Canceled q = [] \<and> \<not> Stopped q \<and> PendingIrpCapacity q = cap"
  using assms ptr_tab.table_ok_empty [of n]
  by (auto simp: FspIoqCreate_def ioq_ok_def queued_def concat_replicate_trivial)

lemma room:
  assumes "sys_ok Irps s" "finite Irps" "card Irps < 2 ^ 32 - 1" "0 \<notin> Irps" "irp \<in># Owned s"
  shows "irp \<noteq> 0" "irp \<notin> set (queued (Queue s))" "length (queued (Queue s)) < 2 ^ 32 - 1"
proof -
  have m: "mset_set Irps = {#irp#} + (Owned s - {#irp#}) + mset (queued (Queue s)) +
      mset (Canceled (Queue s)) + Finished s"
    using assms(1,5) by (simp add: sys_ok_def sys_mset_def)
  have "irp \<in># mset_set Irps" unfolding m by simp
  with assms(2,4) show "irp \<noteq> 0" by auto
  have "Multiset.count (mset_set Irps) irp \<le> 1" by (simp add: count_mset_set')
  then have "Multiset.count (mset (queued (Queue s))) irp = 0" unfolding m by simp
  then show "irp \<notin> set (queued (Queue s))"
    by (metis count_eq_zero_iff set_mset_mset)
  have "length (queued (Queue s)) \<le> size (mset_set Irps)" unfolding m by simp
  then show "length (queued (Queue s)) < 2 ^ 32 - 1" using assms(3) by simp
qed

text \<open>Moving a packet between the driver and a list keeps the multiset of all packets.\<close>

lemma own_mset: "own irp M = (if irp = 0 then {#} else {#irp#}) + M"
  by (simp add: own_def)

lemma disown_mset: "irp \<in># M \<Longrightarrow> disown ok irp M + (if ok then {#irp#} else {#}) = M"
  by (simp add: disown_def)

text \<open>
  What a critical section that may not lose a wake-up does to the queue: it leaves the signal and
  the pending list alone, or leaves the signal set, or leaves nothing to wake up for.
\<close>

definition quiet :: "ioq \<Rightarrow> ioq \<Rightarrow> bool" where
  "quiet q q' \<longleftrightarrow> ioq_ok q' \<and> same_frame q q' \<and>
     (PendingIrpEvent q' \<or> PendingIrpEvent q' = PendingIrpEvent q \<and> PendingIrpList q' = PendingIrpList q \<or>
      PendingIrpList q' = [] \<and> \<not> Stopped q)"

lemma quiet_awake:
  assumes "sys_ok Irps s" "quiet (Queue s) q" "Queue s' = q" "Woken s + Resetting s \<le> Woken s' + Resetting s'"
  shows "awake s'" "ioq_ok q" "Canceled q = Canceled (Queue s)"
  using assms by (auto simp: quiet_def sys_ok_def awake_def same_frame_def)

lemma insert_step:
  assumes "sys_ok Irps s" "irp \<in># Owned s" "quiet (Queue s) q"
    "mset (queued q) = mset (queued (Queue s)) + (if ok then {#irp#} else {#})"
  shows "sys_ok Irps (s\<lparr>Queue := q, Owned := disown ok irp (Owned s)\<rparr>)"
proof -
  let ?s = "s\<lparr>Queue := q, Owned := disown ok irp (Owned s)\<rparr>"
  have "awake ?s" "ioq_ok q" "Canceled q = Canceled (Queue s)"
    using quiet_awake [OF assms(1,3), of ?s] by simp_all
  then show ?thesis
    using assms(1,4) disown_mset [OF assms(2), of ok]
    by (simp add: sys_ok_def sys_mset_def ac_simps del: add_mset_add_single)
qed

lemma take_step:
  assumes "sys_ok Irps s" "quiet (Queue s) q"
    "mset (queued (Queue s)) = mset (queued q) + (if irp = 0 then {#} else {#irp#})"
  shows "sys_ok Irps (s\<lparr>Queue := q, Owned := own irp (Owned s)\<rparr>)"
proof -
  let ?s = "s\<lparr>Queue := q, Owned := own irp (Owned s)\<rparr>"
  have "awake ?s" "ioq_ok q" "Canceled q = Canceled (Queue s)"
    using quiet_awake [OF assms(1,2), of ?s] by simp_all
  then show ?thesis
    using assms(1,3) own_mset [of irp "Owned s"] by (simp add: sys_ok_def sys_mset_def ac_simps)
qed

lemma cancel_step:
  assumes "sys_ok Irps s" "quiet (Queue s) q" "mset (queued (Queue s)) = add_mset irp (mset (queued q))"
  shows "sys_ok Irps (s\<lparr>Queue := CompleteCanceledIrp q irp\<rparr>)"
proof -
  let ?s = "s\<lparr>Queue := q\<rparr>"
  have "awake ?s" "ioq_ok q" "Canceled q = Canceled (Queue s)"
    using quiet_awake [OF assms(1,2), of ?s] by simp_all
  then show ?thesis
    using assms(1,3) by (simp add: sys_ok_def sys_mset_def awake_def CompleteCanceledIrp_def ac_simps)
qed

text \<open>The operations in these terms.\<close>

lemma post_quiet:
  assumes "csq_contract env" "ioq_ok q" "i \<noteq> 0" "i \<notin> set (queued q)" "length (queued q) < 2 ^ 32 - 1"
    "FspIoqPostIrpEx env now q i be = (ok, r, q')"
  shows "quiet q q' \<and> mset (queued q') = mset (queued q) + (if ok then {#i#} else {#})"
proof -
  have l: "length (PendingIrpList q) < 2 ^ 32 - 1" using assms(5) by (simp add: queued_def)
  from post_effect [OF assms(1-4) l, of now be] assms(6) have
    e: "ioq_ok q'" "same_frame q q'" "ProcessIrpList q' = ProcessIrpList q" "RetriedIrpList q' = RetriedIrpList q"
      "PendingIrpList q' = PendingIrpList q @ (if ok then [i] else [])"
      "PendingIrpEvent q' \<or> PendingIrpEvent q' = PendingIrpEvent q \<and> \<not> ok"
    by (auto split: if_splits)
  from e(6) show ?thesis
    by (cases ok) (auto simp: quiet_def e(1-5) queued_def)
qed

lemma start_quiet:
  assumes "ioq_ok q" "i \<noteq> 0" "i \<notin> set (queued q)" "length (queued q) < 2 ^ 32 - 1"
    "FspIoqStartProcessingIrp q i = (ok, q')"
  shows "quiet q q' \<and> mset (queued q') = mset (queued q) + (if ok then {#i#} else {#})"
proof -
  have l: "length (ProcessIrpList q) < 2 ^ 32 - 1" using assms(4) by (simp add: queued_def)
  from start_effect [OF assms(1-3) l] assms(5) show ?thesis
    by (auto simp: quiet_def queued_def)
qed

lemma retry_quiet:
  assumes "ioq_ok q" "i \<noteq> 0" "i \<notin> set (queued q)" "length (queued q) < 2 ^ 32 - 1"
    "FspIoqRetryCompleteIrp q i = (ok, r, q')"
  shows "quiet q q' \<and> mset (queued q') = mset (queued q) + (if ok then {#i#} else {#})"
proof -
  have l: "length (RetriedIrpList q) < 2 ^ 32 - 1" using assms(4) by (simp add: queued_def)
  from retry_effect [OF assms(1-3) l] assms(5) show ?thesis
    by (auto simp: quiet_def queued_def)
qed

lemma remove_mset:
  "i \<in> set xs \<Longrightarrow> mset xs = add_mset i (mset (remove1 i xs))"
  by simp

lemma next_pending_quiet:
  assumes "csq_contract env" "ioq_ok q" "next_pending env q (boundary_context b) = Some (i, q')"
  shows "quiet q q' \<and> mset (queued q) = mset (queued q') + (if i = 0 then {#} else {#i#})" "i = 0 \<Longrightarrow> q' = q"
proof -
  from next_pending_effect [OF assms(1,2), of b] assms(3) have
    e: "ioq_ok q'" "same_frame q q'" "ProcessIrpList q' = ProcessIrpList q" "RetriedIrpList q' = RetriedIrpList q"
      "if i = 0 then q' = q else i \<in> set (PendingIrpList q) \<and>
        PendingIrpList q' = remove1 i (PendingIrpList q) \<and>
        (PendingIrpEvent q' \<longleftrightarrow> PendingIrpEvent q \<or> PendingIrpList q' \<noteq> [] \<or> Stopped q)"
    by auto
  show "i = 0 \<Longrightarrow> q' = q" using e(5) by simp
  show "quiet q q' \<and> mset (queued q) = mset (queued q') + (if i = 0 then {#} else {#i#})"
  proof (cases "i = 0")
    case True
    with e show ?thesis by (simp add: quiet_def)
  next
    case False
    with e(5) have p: "i \<in> set (PendingIrpList q)" "PendingIrpList q' = remove1 i (PendingIrpList q)"
      "PendingIrpEvent q' \<longleftrightarrow> PendingIrpEvent q \<or> PendingIrpList q' \<noteq> [] \<or> Stopped q" by simp_all
    have "quiet q q'" using e(1,2) p(3) by (auto simp: quiet_def)
    then show ?thesis using False p(2) remove_mset [OF p(1)] e(3,4) by (simp add: queued_def)
  qed
qed

lemma next_complete_quiet:
  assumes "ioq_ok q" "FspIoqNextCompleteIrp q b = Some (i, q')"
  shows "quiet q q' \<and> mset (queued q) = mset (queued q') + (if i = 0 then {#} else {#i#})"
  using next_complete_effect [OF assms(1), of b] assms(2)
  by (cases "i = 0") (auto simp: quiet_def queued_def dest: remove_mset)

lemma end_quiet:
  assumes "ioq_ok q" "FspIoqEndProcessingIrp q h = Some (i, q')"
  shows "quiet q q' \<and> mset (queued q) = mset (queued q') + (if i = 0 then {#} else {#i#})"
proof (cases "\<not> Stopped q \<and> h \<in> set (ProcessIrpList q)")
  case True
  then have "h \<noteq> 0" using ioq_okD(2) [OF assms(1)] by (auto simp: queued_def)
  with True end_effect [OF assms(1), of h] assms(2) show ?thesis
    by (auto simp: quiet_def queued_def dest: remove_mset)
next
  case False
  with end_effect [OF assms(1), of h] assms show ?thesis by (auto simp: quiet_def)
qed

lemma pending_cancel_quiet:
  assumes "ioq_ok q" "ctx = None \<or> ctx = Some \<lparr>IrpHint = 0, ExpirationSec = t\<rparr>"
    "FspCsqRemoveNextIrp FspIoqPendingPeekNextIrp FspIoqPendingRemoveIrp q ctx = Some (i, q')" "i \<noteq> 0"
  shows "quiet q q' \<and> mset (queued q) = add_mset i (mset (queued q'))"
proof -
  let ?p = "FspIoqPendingPeekNextIrp q 0 ctx"
  have pi: "?p = i" using assms(3,4) by (auto simp: FspCsqRemoveNextIrp_def Let_def bind_eq_Some_conv split: if_splits)
  have "peek_expired ts e irps \<noteq> 0 \<Longrightarrow> peek_expired ts e irps \<in> set irps" for ts e irps
    by (induction irps) auto
  then have "i \<in> set (PendingIrpList q)"
    using assms(2,4) pi by (fastforce simp: FspIoqPendingPeekNextIrp_def split: list.splits if_splits)
  from take_pending [OF assms(1) pi this] assms(3) remove_mset [OF this] show ?thesis
    by (auto simp: queued_def quiet_def)
qed

lemma process_cancel_quiet:
  assumes "ioq_ok q" "next_process q None = Some (i, q')" "i \<noteq> 0"
  shows "quiet q q' \<and> mset (queued q) = add_mset i (mset (queued q'))"
proof -
  have i: "i \<in> set (ProcessIrpList q)" "FspIoqProcessPeekNextIrp q 0 None = i"
    using assms(2,3) process_peek(1) [OF assms(1)]
    by (auto simp: FspCsqRemoveNextIrp_def Let_def bind_eq_Some_conv split: if_splits)
  from take_process [OF assms(1) i(2,1)] assms(2) remove_mset [OF i(1)] show ?thesis
    by (auto simp: queued_def quiet_def)
qed

lemma retried_cancel_quiet:
  assumes "ioq_ok q" "next_retried q None = Some (i, q')" "i \<noteq> 0"
  shows "quiet q q' \<and> mset (queued q) = add_mset i (mset (queued q'))"
proof -
  have i: "i \<in> set (RetriedIrpList q)" "FspIoqRetriedPeekNextIrp q 0 None = i"
    using assms(2,3) retried_peek(1) [of q]
    by (auto simp: FspCsqRemoveNextIrp_def Let_def bind_eq_Some_conv split: if_splits)
  from take_retried [OF assms(1) i(2,1)] assms(2) remove_mset [OF i(1)] show ?thesis
    by (auto simp: queued_def quiet_def)
qed

lemma routine_cancel_quiet:
  assumes "ioq_ok q" "i \<in> set (PendingIrpList q)" "CancelPendingIrp q i = Some q'"
  shows "\<exists>q1. q' = CompleteCanceledIrp q1 i \<and> quiet q q1 \<and> mset (queued q) = add_mset i (mset (queued q1))"
proof -
  note p = pending_remove_ok [OF assms(1,2)]
  define q1 where "q1 = q\<lparr>PendingIrpCount := PendingIrpCount q - 1,
      PendingIrpList := remove1 i (PendingIrpList q),
      PendingIrpEvent := PendingIrpEvent q \<or> remove1 i (PendingIrpList q) \<noteq> [] \<or> Stopped q\<rparr>"
  have "q' = CompleteCanceledIrp q1 i"
    using assms(3) p(1) by (simp add: CancelPendingIrp_def FspIoqPendingCompleteCanceledIrp_def q1_def)
  moreover have "quiet q q1" using p(2) by (auto simp: quiet_def q1_def same_frame_def)
  moreover have "mset (queued q) = add_mset i (mset (queued q1))"
    using remove_mset [OF assms(2)] by (simp add: queued_def q1_def)
  ultimately show ?thesis by blast
qed

lemma sys_ok_queue: "sys_ok Irps s \<Longrightarrow> ioq_ok (Queue s)"
  by (simp add: sys_ok_def)

lemma step_ok:
  assumes env: "csq_contract env" and irps: "finite Irps" "card Irps < 2 ^ 32 - 1" "0 \<notin> Irps"
  shows "ioq_step env s s' \<Longrightarrow> sys_ok Irps s \<Longrightarrow> sys_ok Irps s'"
proof (induction rule: ioq_step.induct)
  case (post irp s now be ok st q)
  show ?case
    using post_quiet [OF env sys_ok_queue [OF post.prems] room [OF post.prems irps post.hyps(1)] post.hyps(2)]
      insert_step [OF post.prems post.hyps(1)] by blast
next
  case (wait s)
  then show ?case by (simp add: sys_ok_def sys_mset_def awake_def queued_def)
next
  case (take s n b irp q)
  note n = next_pending_quiet [OF env sys_ok_queue [OF take.prems] take.hyps(2)]
  show ?case
  proof (cases "irp = 0")
    case True
    then show ?thesis
      using n(2) take.prems by (simp add: sys_ok_def sys_mset_def awake_def own_def)
  next
    case False
    have "sys_ok Irps (s\<lparr>Queue := q, Owned := own irp (Owned s)\<rparr>)"
      using n(1) take_step [OF take.prems] by blast
    moreover have "PendingIrpList q \<noteq> [] \<or> Stopped q \<longrightarrow> PendingIrpEvent q"
      using next_pending_effect [OF env sys_ok_queue [OF take.prems], of b] take.hyps(2) False
      by (auto simp: same_frame_def)
    ultimately show ?thesis using False by (simp add: sys_ok_def sys_mset_def awake_def)
  qed
next
  case (reset s n)
  have "PendingIrpCount (Queue s) \<noteq> 0 \<longleftrightarrow> PendingIrpList (Queue s) \<noteq> []"
    using ioq_okD(3) [OF sys_ok_queue [OF reset.prems]] by (metis length_0_conv unat_eq_zero)
  with reset show ?case
    by (auto simp: sys_ok_def sys_mset_def awake_def FspIoqPendingResetSynch_def queued_def)
next
  case (poll s b irp q)
  then show ?case
    using next_pending_quiet(1) [OF env sys_ok_queue [OF poll.prems]] take_step [OF poll.prems]
    by (simp add: FspIoqNextPendingIrp_def)
next
  case (begin_processing irp s ok q)
  show ?case
    using start_quiet [OF sys_ok_queue [OF begin_processing.prems]
        room [OF begin_processing.prems irps begin_processing.hyps(1)] begin_processing.hyps(2)]
      insert_step [OF begin_processing.prems begin_processing.hyps(1)] by blast
next
  case (end_processing s hint irp q)
  show ?case
    using end_quiet [OF sys_ok_queue [OF end_processing.prems] end_processing.hyps]
      take_step [OF end_processing.prems] by blast
next
  case (retry irp s ok st q)
  show ?case
    using retry_quiet [OF sys_ok_queue [OF retry.prems] room [OF retry.prems irps retry.hyps(1)] retry.hyps(2)]
      insert_step [OF retry.prems retry.hyps(1)] by blast
next
  case (next_complete s b irp q)
  show ?case
    using next_complete_quiet [OF sys_ok_queue [OF next_complete.prems] next_complete.hyps]
      take_step [OF next_complete.prems] by blast
next
  case (finish irp s)
  then obtain M where "Owned s = add_mset irp M" by (blast dest: multi_member_split)
  with finish.prems show ?case by (simp add: sys_ok_def sys_mset_def awake_def)
next
  case (stop s q)
  then show ?case
    by (auto simp: FspIoqStop_def sys_ok_def sys_mset_def awake_def queued_def)
next
  case (cancel_next ctx t s irp q)
  then show ?case
    using pending_cancel_quiet [OF sys_ok_queue [OF cancel_next.prems] cancel_next.hyps(1)]
      cancel_step [OF cancel_next.prems] by (simp add: csq_contractD [OF env])
next
  case (cancel_process s irp q)
  show ?case
    using process_cancel_quiet [OF sys_ok_queue [OF cancel_process.prems] cancel_process.hyps]
      cancel_step [OF cancel_process.prems] by blast
next
  case (cancel_retried s irp q)
  show ?case
    using retried_cancel_quiet [OF sys_ok_queue [OF cancel_retried.prems] cancel_retried.hyps]
      cancel_step [OF cancel_retried.prems] by blast
next
  case (cancel_routine irp s q)
  show ?case
    using routine_cancel_quiet [OF sys_ok_queue [OF cancel_routine.prems] cancel_routine.hyps]
      cancel_step [OF cancel_routine.prems] by blast
qed

lemma reachable_ok:
  assumes "ioq_reachable env Irps s" "csq_contract env" "finite Irps" "card Irps < 2 ^ 32 - 1" "0 \<notin> Irps"
  shows "sys_ok Irps s"
  using assms(1)
proof (induction rule: ioq_reachable.induct)
  case (start n cap timeout q)
  from ioq_create_ok [OF this] show ?case
    by (auto simp: sys_ok_def sys_mset_def awake_def queued_def)
next
  case (step s s')
  then show ?case using step_ok [OF assms(2-5)] by blast
qed

end
