(* ===== verification/IoqClaims.thy ===== *)
theory IoqClaims
  imports IoqSpec
begin

text \<open>The properties of the request queue and their witnesses.\<close>

definition plain_csq :: csq_env where
  "plain_csq = \<lparr>IoCsqInsertIrpEx = FspCsqInsertIrpEx, IoCsqRemoveNextIrp = FspCsqRemoveNextIrp\<rparr>"

lemma plain_csq_contract: "csq_contract plain_csq"
  by (simp add: csq_contract_def plain_csq_def)

text \<open>A queue with packet 8 pending and packet 16 in process.\<close>

definition sample_ioq :: ioq where
  "sample_ioq = \<lparr>Stopped = False, PendingIrpEvent = True, PendingIrpList = [8], ProcessIrpList = [16],
     RetriedIrpList = [], IrpTimeout = 60, PendingIrpCapacity = 100, PendingIrpCount = 1,
     ProcessIrpCount = 1, RetriedIrpCount = 0, ProcessIrpBuckets = [[16]], IrpTimestamp = (\<lambda>_. 5),
     IrpCsq = (\<lambda>_. None), Canceled = []\<rparr>"

lemma sample_ioq_ok: "ioq_ok sample_ioq"
  by (simp add: ioq_ok_def sample_ioq_def queued_def ptr_tab.table_ok_def hash_pointer_def)

text \<open>C17. Posting a packet to the queue: a stopped queue refuses with \<open>STATUS_CANCELLED\<close>, a full
  one with \<open>STATUS_INSUFFICIENT_RESOURCES\<close> unless the post is best effort, and otherwise the packet
  is pending at the end of the list with the event set; every branch keeps the invariant and the
  other lists.\<close>

theorem ioq_post_irp:
  assumes "csq_contract env" "ioq_ok q" "i \<noteq> 0" "i \<notin> set (queued q)"
    "length (PendingIrpList q) < 2 ^ 32 - 1"
  shows "\<exists>ok r q'. FspIoqPostIrpEx env now q i be = (ok, r, q') \<and> ioq_ok q' \<and> same_frame q q' \<and>
    ProcessIrpList q' = ProcessIrpList q \<and> RetriedIrpList q' = RetriedIrpList q \<and>
    (if Stopped q then \<not> ok \<and> r = STATUS_CANCELLED \<and> PendingIrpList q' = PendingIrpList q \<and>
       PendingIrpEvent q' = PendingIrpEvent q
     else if \<not> be \<and> unat (PendingIrpCapacity q) \<le> length (PendingIrpList q)
     then \<not> ok \<and> r = STATUS_INSUFFICIENT_RESOURCES \<and> PendingIrpList q' = PendingIrpList q \<and>
       PendingIrpEvent q' = PendingIrpEvent q
     else ok \<and> r = STATUS_PENDING \<and> PendingIrpList q' = PendingIrpList q @ [i] \<and> PendingIrpEvent q')"
  using assms by (rule post_effect)

theorem ioq_post_irp_witness:
  "\<exists>q'. FspIoqPostIrpEx plain_csq 0 sample_ioq 24 False = (True, STATUS_PENDING, q') \<and>
     PendingIrpList q' = [8, 24] \<and> ioq_ok q'"
  using ioq_post_irp [OF plain_csq_contract sample_ioq_ok, of 24 0 False]
  by (auto simp: sample_ioq_def queued_def)

text \<open>C15. Ending the processing of a packet named by the user-mode file system is safe for every
  hint: a hint that is a packet in process takes exactly this packet out of the list and the hash
  table, any other hint finds nothing and changes nothing.\<close>

theorem ioq_end_processing:
  assumes "ioq_ok q"
  shows "if \<not> Stopped q \<and> h \<in> set (ProcessIrpList q) then
      \<exists>q'. FspIoqEndProcessingIrp q h = Some (h, q') \<and> ioq_ok q' \<and> same_frame q q' \<and>
        PendingIrpList q' = PendingIrpList q \<and> RetriedIrpList q' = RetriedIrpList q \<and>
        ProcessIrpList q' = remove1 h (ProcessIrpList q) \<and> PendingIrpEvent q' = PendingIrpEvent q
    else FspIoqEndProcessingIrp q h = Some (0, q)"
  using assms by (rule end_effect)

theorem ioq_end_processing_witness:
  "(\<exists>q'. FspIoqEndProcessingIrp sample_ioq 16 = Some (16, q') \<and> ProcessIrpList q' = []) \<and>
   FspIoqEndProcessingIrp sample_ioq 8 = Some (0, sample_ioq)"
  using ioq_end_processing [OF sample_ioq_ok, of 16] ioq_end_processing [OF sample_ioq_ok, of 8]
  by (auto simp: sample_ioq_def)

text \<open>C16. Stopping the queue with cancellation ends, completes every queued packet exactly once (in
  the order pending, in process, retried), leaves the three lists empty and the event set, and
  after it every post is refused.\<close>

theorem ioq_stop_completes_all:
  assumes "csq_contract env" "ioq_ok q"
  shows "\<exists>q'. FspIoqStop env q True = Some q' \<and> ioq_ok q' \<and> queued q' = [] \<and> Stopped q' \<and>
    PendingIrpEvent q' \<and> Canceled q' = rev (queued q) @ Canceled q \<and>
    (\<forall>now i be. fst (FspIoqPostIrpEx env now q' i be) = False)"
proof -
  have refused: "fst (FspIoqPostIrpEx env now q' i be) = False" if "Stopped q'" for now q' i be
    using that
    by (simp add: FspIoqPostIrpEx_def csq_contractD [OF assms(1)] FspCsqInsertIrpEx_def
        FspIoqPendingInsertIrpEx_def Let_def)
  from stop_ok [OF assms] show ?thesis using refused by blast
qed

theorem ioq_stop_completes_all_witness:
  "\<exists>q'. FspIoqStop plain_csq sample_ioq True = Some q' \<and> Canceled q' = [16, 8] \<and> queued q' = []"
  using ioq_stop_completes_all [OF plain_csq_contract sample_ioq_ok]
  by (auto simp: sample_ioq_def queued_def)

text \<open>C18. Removing expired packets from a running queue whose time stamps do not decrease along the
  list completes exactly the pending packets that have a time limit and have passed it, keeps the
  others in order, and ends.\<close>

theorem ioq_remove_expired:
  assumes "csq_contract env" "ioq_ok q" "\<not> Stopped q"
    "sorted (map (IrpTimestamp q) (filter (\<lambda>i. IrpTimestamp q i \<noteq> 0xffffffff) (PendingIrpList q)))"
  shows "\<exists>q'. FspIoqRemoveExpired env q now = Some q' \<and> ioq_ok q' \<and>
    PendingIrpList q' = filter (\<lambda>i. \<not> (IrpTimestamp q i \<noteq> 0xffffffff \<and>
      IrpTimestamp q i \<le> ConvertInterruptTimeToSec now)) (PendingIrpList q) \<and>
    ProcessIrpList q' = ProcessIrpList q \<and> RetriedIrpList q' = RetriedIrpList q \<and>
    Canceled q' = rev (filter (\<lambda>i. IrpTimestamp q i \<noteq> 0xffffffff \<and>
      IrpTimestamp q i \<le> ConvertInterruptTimeToSec now) (PendingIrpList q)) @ Canceled q"
  unfolding FspIoqRemoveExpired_def csq_contractD [OF assms(1)]
  using assms(2-4) by (rule expire_loop)

theorem ioq_remove_expired_witness:
  "\<exists>q'. FspIoqRemoveExpired plain_csq sample_ioq 50000000 = Some q' \<and> PendingIrpList q' = [] \<and>
     Canceled q' = [8]"
  using ioq_remove_expired [OF plain_csq_contract sample_ioq_ok, of 50000000]
  by (auto simp: sample_ioq_def ConvertInterruptTimeToSec_def)

text \<open>C13. In every reachable state of the queue, whatever the interleaving of the critical sections,
  every packet is in exactly one place: with the driver, in one of the three lists once, or
  completed once; and the invariant of the lists, counts and hash table holds.\<close>

theorem ioq_packets_conserved:
  assumes "ioq_reachable env Irps s" "csq_contract env" "finite Irps" "card Irps < 2 ^ 32 - 1" "0 \<notin> Irps"
  shows "ioq_ok (Queue s) \<and>
    Owned s + mset (PendingIrpList (Queue s)) + mset (ProcessIrpList (Queue s)) +
      mset (RetriedIrpList (Queue s)) + mset (Canceled (Queue s)) + Finished s = mset_set Irps"
  using reachable_ok [OF assms] by (simp add: sys_ok_def sys_mset_def queued_def ac_simps)

lemma sample_start:
  "\<exists>q. FspIoqCreate True (Suc 0) 100 0 = (STATUS_SUCCESS, Some q) \<and> Stopped q = False \<and>
     PendingIrpCapacity q = 100 \<and> queued q = [] \<and> ioq_ok q"
proof -
  have "\<exists>q. FspIoqCreate True (Suc 0) 100 0 = (STATUS_SUCCESS, Some q)" by (simp add: FspIoqCreate_def)
  then show ?thesis using ioq_create_ok by blast
qed

lemma sample_reachable:
  "\<exists>s. ioq_reachable plain_csq {8, 16} s \<and> PendingIrpList (Queue s) = [8]"
proof -
  from sample_start obtain q where q: "FspIoqCreate True (Suc 0) 100 0 = (STATUS_SUCCESS, Some q)"
    "Stopped q = False" "PendingIrpCapacity q = 100" "queued q = []" "ioq_ok q" by blast
  let ?s = "\<lparr>Queue = q, Owned = mset_set {8, 16}, Finished = {#}, Woken = 0, Resetting = 0\<rparr>"
  have r: "ioq_reachable plain_csq {8, 16} ?s" by (rule ioq_reachable.start [OF q(1)])
  have "length (PendingIrpList q) < 2 ^ 32 - 1" using q(4) by (simp add: queued_def)
  from post_effect [OF plain_csq_contract q(5) _ _ this, of 8 0 False] q(2-4) obtain ok st q' where
    p: "FspIoqPostIrpEx plain_csq 0 q 8 False = (ok, st, q')" "PendingIrpList q' = [8]"
    by (auto simp: queued_def)
  have "ioq_step plain_csq ?s (?s\<lparr>Queue := q', Owned := disown ok 8 (Owned ?s)\<rparr>)"
    by (rule ioq_step.post) (use p(1) in auto)
  from ioq_reachable.step [OF r this] p(2) show ?thesis by (metis ioq_sys.select_convs(1) ioq_sys.update_convs(1) ioq_sys.update_convs(2))
qed

theorem ioq_packets_conserved_witness:
  "\<exists>s. ioq_reachable plain_csq {8, 16} s \<and> PendingIrpList (Queue s) = [8] \<and>
     size (Owned s) + length (ProcessIrpList (Queue s)) + length (RetriedIrpList (Queue s)) +
       length (Canceled (Queue s)) + size (Finished s) = 1"
proof -
  from sample_reachable obtain s where s: "ioq_reachable plain_csq {8, 16} s" "PendingIrpList (Queue s) = [8]"
    by blast
  from ioq_packets_conserved [OF s(1) plain_csq_contract] have
    "Owned s + mset (PendingIrpList (Queue s)) + mset (ProcessIrpList (Queue s)) +
      mset (RetriedIrpList (Queue s)) + mset (Canceled (Queue s)) + Finished s = mset_set {8, 16}" by simp
  from arg_cong [OF this, of size] s show ?thesis by (intro exI [of _ s]) simp
qed

text \<open>C14. No wake-up is lost: in every reachable state with a pending packet or a stopped queue, the
  event is set or some thread that has taken the signal has yet to look at the list or to reset
  the event.\<close>

theorem ioq_no_lost_wakeup:
  assumes "ioq_reachable env Irps s" "csq_contract env" "finite Irps" "card Irps < 2 ^ 32 - 1" "0 \<notin> Irps"
    "PendingIrpList (Queue s) \<noteq> [] \<or> Stopped (Queue s)"
  shows "PendingIrpEvent (Queue s) \<or> 0 < Woken s + Resetting s"
  using reachable_ok [OF assms(1-5)] assms(6) by (simp add: sys_ok_def awake_def)

theorem ioq_no_lost_wakeup_witness:
  "\<exists>s. ioq_reachable plain_csq {8, 16} s \<and> PendingIrpList (Queue s) = [8] \<and>
     (PendingIrpEvent (Queue s) \<or> 0 < Woken s + Resetting s)"
proof -
  from sample_reachable obtain s where s: "ioq_reachable plain_csq {8, 16} s" "PendingIrpList (Queue s) = [8]"
    by blast
  with ioq_no_lost_wakeup [OF s(1) plain_csq_contract] show ?thesis by auto
qed

end
