(* ===== verification/FuseOpt.thy ===== *)
theory FuseOpt
  imports Minimal
begin

text \<open>
  Option processing of the FUSE layer (\<open>src/dll/fuse/fuse_opt.c\<close>). A C string is the list of its
  bytes without the terminator; an argument vector is a list, whose length is \<open>argc\<close> and behind
  which the null pointer stands. \<open>data\<close> is the user's structure as the typed value last written
  at each offset. Memory requests are answered by the environment. A result \<open>None\<close> is a read
  behind the end of a string or through a null pointer.
\<close>

section \<open>Data\<close>

record fuse_opt =
  templ :: bytes
  opt_offset :: u32
  opt_value :: int

record fuse_args =
  argv :: "bytes list option"
  allocated :: bool

record fsp_fuse_env =
  environment :: u8
  memalloc :: "nat \<Rightarrow> bool"

datatype fuse_var = VChar u8 | VShort u16 | VInt u32 | VLong u32 | VLongLong u64
  | VSize u64 | VPtrdiff u64 | VIntmax u64 | VString bytes

type_synonym fuse_data = "u32 \<Rightarrow> fuse_var option"
type_synonym fuse_opt_proc = "fuse_data \<Rightarrow> bytes \<Rightarrow> int \<Rightarrow> fuse_args \<Rightarrow> int \<times> fuse_data \<times> fuse_args"

abbreviation (input) FUSE_OPT_KEY_OPT :: int where "FUSE_OPT_KEY_OPT \<equiv> -1"
abbreviation (input) FUSE_OPT_KEY_NONOPT :: int where "FUSE_OPT_KEY_NONOPT \<equiv> -2"
abbreviation (input) FUSE_OPT_KEY_KEEP :: int where "FUSE_OPT_KEY_KEEP \<equiv> -3"
abbreviation (input) FUSE_OPT_KEY_DISCARD :: int where "FUSE_OPT_KEY_DISCARD \<equiv> -4"

definition FUSE_ARGS_INIT :: fuse_args where
  "FUSE_ARGS_INIT = \<lparr>argv = None, allocated = False\<rparr>"

definition argl_list :: "fuse_args \<Rightarrow> bytes list" where
  "argl_list args = (case argv args of None \<Rightarrow> [] | Some a \<Rightarrow> a)"

section \<open>Matching a template\<close>

text \<open>
  \<open>*parg\<close> after a match: the three special pointers, or the value at an offset of the argument.
\<close>

datatype opt_match = match_none | match_exact | match_next | match_at nat

fun match_loop :: "bytes \<Rightarrow> bytes \<Rightarrow> nat \<Rightarrow> bytes option \<times> opt_match" where
  "match_loop p [] n =
     (if hd0 p = 0 then (None, match_exact)
      else if hd0 p = 0x20 then (Some (tl p), match_next)
      else (None, match_none))"
| "match_loop p (c # q) n =
     (if hd0 p = 0x3d then
        (if c = hd0 p then
           (let p = tl p
            in if hd0 p = 0x25 \<or> hd0 p = 0 then (Some p, match_at (n + 1))
               else (None, if invariant_strcmp q p = 0 then match_exact else match_none))
         else (None, match_none))
      else if hd0 p = 0x20 then (Some (tl p), match_at n)
      else if c \<noteq> hd0 p then (None, match_none)
      else match_loop (tl p) q (n + 1))"

definition fsp_fuse_opt_match_templ :: "bytes \<Rightarrow> bytes \<Rightarrow> bytes option \<times> opt_match" where
  "fsp_fuse_opt_match_templ t arg = match_loop t arg 0"

text \<open>The option found, the options behind it, its specification and the match.\<close>

fun fsp_fuse_opt_find ::
  "fuse_opt list \<Rightarrow> bytes \<Rightarrow> (fuse_opt \<times> fuse_opt list \<times> bytes option \<times> opt_match) option" where
  "fsp_fuse_opt_find [] arg = None"
| "fsp_fuse_opt_find (opt # opts) arg =
     (let (spec, m) = fsp_fuse_opt_match_templ (templ opt) arg
      in if m \<noteq> match_none then Some (opt, opts, spec, m) else fsp_fuse_opt_find opts arg)"

definition fsp_fuse_opt_match :: "fuse_opt list option \<Rightarrow> bytes \<Rightarrow> bool" where
  "fsp_fuse_opt_match opts arg =
     (case opts of None \<Rightarrow> False | Some opts \<Rightarrow> fsp_fuse_opt_find opts arg \<noteq> None)"

section \<open>Argument vectors and option strings\<close>

definition insert_arg :: "fsp_fuse_env \<Rightarrow> fuse_args \<Rightarrow> int \<Rightarrow> bytes \<Rightarrow> int \<times> fuse_args" where
  "insert_arg env args pos arg =
     (let argc = length (argl_list args)
      in if argv args \<noteq> None \<and> \<not> allocated args then (-1, args)
         else if 0 > pos \<or> pos > int argc then (-1, args)
         else if \<not> memalloc env ((argc + 2) * 8) then (-1, args)
         else if \<not> memalloc env (length arg + 1) then (-1, args)
         else (0, \<lparr>argv = Some (take (nat pos) (argl_list args) @ arg # drop (nat pos) (argl_list args)),
                allocated = True\<rparr>))"

definition fsp_fuse_opt_insert_arg ::
  "fsp_fuse_env \<Rightarrow> fuse_args option \<Rightarrow> int \<Rightarrow> bytes \<Rightarrow> int \<times> fuse_args option" where
  "fsp_fuse_opt_insert_arg env args pos arg =
     (case args of
        None \<Rightarrow> (-1, None)
      | Some a \<Rightarrow> (let (r, a) = insert_arg env a pos arg in (r, Some a)))"

definition fsp_fuse_opt_add_arg :: "fsp_fuse_env \<Rightarrow> fuse_args \<Rightarrow> bytes \<Rightarrow> int \<times> fuse_args" where
  "fsp_fuse_opt_add_arg env args arg = insert_arg env args (int (length (argl_list args))) arg"

definition fsp_fuse_opt_free_args :: "fuse_args option \<Rightarrow> fuse_args option" where
  "fsp_fuse_opt_free_args args = map_option (\<lambda>_. FUSE_ARGS_INIT) args"

fun escape :: "bool \<Rightarrow> bytes \<Rightarrow> bytes" where
  "escape escaped [] = []"
| "escape escaped (c # cs) =
     (if escaped \<and> (c = 0x2c \<or> c = 0x5c) then 0x5c # c # escape escaped cs else c # escape escaped cs)"

text \<open>\<open>*opts\<close> may be null; the result is the C result and the new \<open>*opts\<close>.\<close>

definition fsp_fuse_opt_add_opt_internal ::
  "fsp_fuse_env \<Rightarrow> bytes option \<Rightarrow> bytes \<Rightarrow> bool \<Rightarrow> int \<times> bytes option" where
  "fsp_fuse_opt_add_opt_internal env opts opt escaped =
     (let old = (case opts of None \<Rightarrow> [] | Some o' \<Rightarrow> if o' \<noteq> [] then o' @ [0x2c] else [])
      in if \<not> memalloc env (length old + length (escape escaped opt) + 1) then (-1, opts)
         else (0, Some (old @ escape escaped opt)))"

definition fsp_fuse_opt_add_opt :: "fsp_fuse_env \<Rightarrow> bytes option \<Rightarrow> bytes \<Rightarrow> int \<times> bytes option" where
  "fsp_fuse_opt_add_opt env opts opt = fsp_fuse_opt_add_opt_internal env opts opt False"

definition fsp_fuse_opt_add_opt_escaped ::
  "fsp_fuse_env \<Rightarrow> bytes option \<Rightarrow> bytes \<Rightarrow> int \<times> bytes option" where
  "fsp_fuse_opt_add_opt_escaped env opts opt = fsp_fuse_opt_add_opt_internal env opts opt True"

section \<open>Processing one argument\<close>

text \<open>\<open>argl\<close>: a place in the argument itself (also its end), or another string.\<close>

datatype value_ptr = In_arg nat | Other bytes

fun value_str :: "bytes \<Rightarrow> value_ptr \<Rightarrow> bytes" where
  "value_str arg (In_arg n) = drop n arg"
| "value_str arg (Other s) = s"

definition fsp_fuse_opt_call_proc ::
  "fsp_fuse_env \<Rightarrow> fuse_data \<Rightarrow> fuse_opt_proc option \<Rightarrow> bytes \<Rightarrow> value_ptr \<Rightarrow> int \<Rightarrow> bool \<Rightarrow> fuse_args \<Rightarrow>
   int \<times> fuse_data \<times> fuse_args" where
  "fsp_fuse_opt_call_proc env data proc arg argl key is_opt outargs =
     (if key = FUSE_OPT_KEY_DISCARD then (0, data, outargs)
      else
        let separate = (case argl of In_arg n \<Rightarrow> \<not> n < length arg | Other _ \<Rightarrow> True);
            full = arg @ value_str arg argl
        in if separate \<and> \<not> memalloc env (length full + 1) then (-1, data, outargs)
           else
             let arg = (if separate then full else arg);
                 (result, data, outargs) =
                   (case proc of
                      Some f \<Rightarrow> if key \<noteq> FUSE_OPT_KEY_KEEP then f data arg key outargs else (1, data, outargs)
                    | None \<Rightarrow> (1, data, outargs))
             in if result = -1 \<or> result = 0 then (result, data, outargs)
                else if is_opt then
                  (let a = argl_list outargs;
                       (result, outargs) =
                         (if \<not> (3 \<le> length a \<and> a ! 1 = [0x2d, 0x6f]) then
                            (let (result, outargs) = insert_arg env outargs 1 [0x2d, 0x6f]
                             in if result = -1 then (result, outargs) else insert_arg env outargs 2 [])
                          else (0, outargs))
                   in if result = -1 then (-1, data, outargs)
                      else
                        (case fsp_fuse_opt_add_opt_escaped env (Some (argl_list outargs ! 2)) arg of
                           (result, Some o2) \<Rightarrow>
                             (if result = -1 then (-1, data, outargs)
                              else (0, data, outargs\<lparr>argv := Some ((argl_list outargs)[2 := o2])\<rparr>))
                         | (result, None) \<Rightarrow> (-1, data, outargs)))
                else
                  (let (result, outargs) = fsp_fuse_opt_add_arg env outargs arg
                   in if result = -1 then (-1, data, outargs) else (0, data, outargs)))"

text \<open>The length modifiers of a conversion: how often \<open>h\<close>, \<open>j\<close>, \<open>l\<close>, \<open>t\<close>, \<open>z\<close> were seen.\<close>

record modifiers =
  mod_h :: nat
  mod_j :: nat
  mod_l :: nat
  mod_t :: nat
  mod_z :: nat

definition ivar :: "fsp_fuse_env \<Rightarrow> modifiers \<Rightarrow> u64 \<Rightarrow> fuse_var" where
  "ivar env m llv =
     (if mod_z m \<noteq> 0 then VSize llv
      else if mod_t m \<noteq> 0 then VPtrdiff llv
      else if mod_j m \<noteq> 0 then VIntmax llv
      else if mod_h m = 1 then VShort (ucast llv)
      else if 2 \<le> mod_h m then VChar (ucast llv)
      else if mod_l m = 1 then (if environment env = 0x43 then VLongLong llv else VLong (ucast llv))
      else if 2 \<le> mod_l m then VLongLong llv
      else VInt (ucast llv))"

fun spec_loop ::
  "fsp_fuse_env \<Rightarrow> bytes \<Rightarrow> modifiers \<Rightarrow> bytes \<Rightarrow> fuse_var option" where
  "spec_loop env argl m [] = None"
| "spec_loop env argl m (c # spec) =
     (if c = 0x68 then spec_loop env argl (m\<lparr>mod_h := mod_h m + 1\<rparr>) spec
      else if c = 0x6a then spec_loop env argl (m\<lparr>mod_j := mod_j m + 1\<rparr>) spec
      else if c = 0x6c then spec_loop env argl (m\<lparr>mod_l := mod_l m + 1\<rparr>) spec
      else if c = 0x4c \<or> c = 0x71 then spec_loop env argl (m\<lparr>mod_l := mod_l m + 2\<rparr>) spec
      else if c = 0x74 then spec_loop env argl (m\<lparr>mod_t := mod_t m + 1\<rparr>) spec
      else if c = 0x7a then spec_loop env argl (m\<lparr>mod_z := mod_z m + 1\<rparr>) spec
      else if c = 0x64 then Some (ivar env m (fst (strtollint argl 10 True)))
      else if c = 0x69 then Some (ivar env m (fst (strtollint argl 0 True)))
      else if c = 0x6f then Some (ivar env m (fst (strtollint argl 8 False)))
      else if c = 0x75 then Some (ivar env m (fst (strtollint argl 10 False)))
      else if c = 0x78 \<or> c = 0x58 then Some (ivar env m (fst (strtollint argl 16 False)))
      else if c = 0x73 \<or> c = 0x63 then
        (if memalloc env (length argl + 1) then Some (VString argl) else None)
      else if c = 0x61 \<or> c = 0x65 \<or> c = 0x45 \<or> c = 0x66 \<or> c = 0x67 then None
      else spec_loop env argl m spec)"

definition fsp_fuse_opt_process_arg ::
  "fsp_fuse_env \<Rightarrow> fuse_data \<Rightarrow> fuse_opt \<Rightarrow> fuse_opt_proc option \<Rightarrow> bytes option \<Rightarrow> bytes \<Rightarrow> value_ptr \<Rightarrow>
   bool \<Rightarrow> fuse_args \<Rightarrow> int \<times> fuse_data \<times> fuse_args" where
  "fsp_fuse_opt_process_arg env data opt proc spec arg argl is_opt outargs =
     (if opt_offset opt = 0xffffffff
      then fsp_fuse_opt_call_proc env data proc arg argl (opt_value opt) is_opt outargs
      else
        (case spec of
           None \<Rightarrow> (0, data(opt_offset opt \<mapsto> VInt (word_of_int (opt_value opt))), outargs)
         | Some [] \<Rightarrow> (0, data(opt_offset opt \<mapsto> VInt (word_of_int (opt_value opt))), outargs)
         | Some (c # spec) \<Rightarrow>
             (if c \<noteq> 0x25 then (-1, data, outargs)
              else (case spec_loop env (value_str arg argl)
                  \<lparr>mod_h = 0, mod_j = 0, mod_l = 0, mod_t = 0, mod_z = 0\<rparr> spec of
                 None \<Rightarrow> (-1, data, outargs)
               | Some v \<Rightarrow> (0, data(opt_offset opt \<mapsto> v), outargs)))))"

text \<open>
  The loop of \<open>fsp_fuse_opt_parse_arg\<close> over the options that match; the result is the C result,
  the number of options processed, \<open>*pconsumed_nextarg\<close>, the data and the arguments.
\<close>

lemma find_length:
  "fsp_fuse_opt_find opts arg = Some (opt, rest, sm) \<Longrightarrow> length rest < length opts"
  by (induction opts) (auto split: if_splits prod.splits)

function parse_arg_loop ::
  "fsp_fuse_env \<Rightarrow> fuse_opt_proc option \<Rightarrow> bytes \<Rightarrow> bytes option \<Rightarrow> bool \<Rightarrow> fuse_opt list \<Rightarrow>
   nat \<Rightarrow> bool \<Rightarrow> fuse_data \<Rightarrow> fuse_args \<Rightarrow> int \<times> nat \<times> bool \<times> fuse_data \<times> fuse_args" where
  "parse_arg_loop env proc arg nextarg is_opt opts processed consumed data outargs =
     (case fsp_fuse_opt_find opts arg of
        None \<Rightarrow> (0, processed, consumed, data, outargs)
      | Some (opt, rest, spec, m) \<Rightarrow>
          (if m = match_next \<and> nextarg = None then (-1, processed, consumed, data, outargs)
           else
             let argl = (case m of match_next \<Rightarrow> Other (the nextarg) | match_at n \<Rightarrow> In_arg n
                   | _ \<Rightarrow> In_arg 0);
                 consumed = (consumed \<or> m = match_next);
                 (result, data, outargs) =
                   fsp_fuse_opt_process_arg env data opt proc spec arg argl is_opt outargs
             in if result = -1 then (-1, processed, consumed, data, outargs)
                else parse_arg_loop env proc arg nextarg is_opt rest (processed + 1) consumed data outargs))"
  by pat_completeness auto
termination
  by (relation "measure (\<lambda>(_, _, _, _, _, opts, _). length opts)") (auto dest: find_length)

declare parse_arg_loop.simps [simp del]

definition fsp_fuse_opt_parse_arg ::
  "fsp_fuse_env \<Rightarrow> fuse_data \<Rightarrow> fuse_opt list \<Rightarrow> fuse_opt_proc option \<Rightarrow> bytes \<Rightarrow> bytes option \<Rightarrow> bool \<Rightarrow>
   fuse_args \<Rightarrow> int \<times> bool \<times> fuse_data \<times> fuse_args" where
  "fsp_fuse_opt_parse_arg env data opts proc arg nextarg is_opt outargs =
     (case parse_arg_loop env proc arg nextarg is_opt opts 0 False data outargs of
        (result, processed, consumed, data, outargs) \<Rightarrow>
          (if result = -1 then (-1, consumed, data, outargs)
           else if processed \<noteq> 0 then (0, consumed, data, outargs)
           else (case fsp_fuse_opt_call_proc env data proc arg (In_arg 0) FUSE_OPT_KEY_OPT is_opt outargs of
               (result, data, outargs) \<Rightarrow> (result, consumed, data, outargs))))"

section \<open>Parsing\<close>

text \<open>
  The options behind \<open>-o\<close>, separated by commas; a backslash takes the next character literally.
  A backslash at the end copies the terminator and goes on behind it. The flag of the result is
  false when parsing fails.
\<close>

fun parse_opts ::
  "fsp_fuse_env \<Rightarrow> fuse_opt list \<Rightarrow> fuse_opt_proc option \<Rightarrow> bytes \<Rightarrow> bytes \<Rightarrow> fuse_data \<Rightarrow> fuse_args \<Rightarrow>
   (bool \<times> fuse_data \<times> fuse_args) option" where
  "parse_opts env opts proc [] argcopy data outargs =
     (case fsp_fuse_opt_parse_arg env data opts proc argcopy None True outargs of
        (result, _, data, outargs) \<Rightarrow> Some (result \<noteq> -1, data, outargs))"
| "parse_opts env opts proc (c # arg) argcopy data outargs =
     (if c = 0x5c then
        (case arg of
           [] \<Rightarrow> None
         | d # arg' \<Rightarrow> parse_opts env opts proc arg' (argcopy @ [d]) data outargs)
      else if c = 0x2c then
        (case fsp_fuse_opt_parse_arg env data opts proc argcopy None True outargs of
           (result, _, data, outargs) \<Rightarrow>
             (if result = -1 then Some (False, data, outargs)
              else parse_opts env opts proc arg [] data outargs))
      else parse_opts env opts proc arg (argcopy @ [c]) data outargs)"

text \<open>The loop over the arguments behind the first.\<close>

function parse_args ::
  "fsp_fuse_env \<Rightarrow> fuse_opt list \<Rightarrow> fuse_opt_proc option \<Rightarrow> bool \<Rightarrow> bytes list \<Rightarrow> fuse_data \<Rightarrow> fuse_args \<Rightarrow>
   (bool \<times> fuse_data \<times> fuse_args) option" where
  "parse_args env opts proc dashdash [] data outargs = Some (True, data, outargs)"
| "parse_args env opts proc dashdash (arg # args) data outargs =
     (if hd0 arg = 0x2d \<and> \<not> dashdash then
        (if hd0 (tl arg) = 0x6f then
           (case (if tl (tl arg) = [] then (case args of [] \<Rightarrow> None | a # args' \<Rightarrow> Some (a, args'))
                  else Some (tl (tl arg), args)) of
              None \<Rightarrow> Some (False, data, outargs)
            | Some (a, args') \<Rightarrow>
                (if \<not> memalloc env (length a + 1) then Some (False, data, outargs)
                 else (case parse_opts env opts proc a [] data outargs of
                     None \<Rightarrow> None
                   | Some (ok, data, outargs) \<Rightarrow>
                       (if ok then parse_args env opts proc dashdash args' data outargs
                        else Some (False, data, outargs)))))
         else if arg = [0x2d, 0x2d] then
           (let (result, outargs) = fsp_fuse_opt_add_arg env outargs arg
            in if result = -1 then Some (False, data, outargs)
               else parse_args env opts proc True args data outargs)
         else
           (case fsp_fuse_opt_parse_arg env data opts proc arg
                (case args of [] \<Rightarrow> None | a # _ \<Rightarrow> Some a) False outargs of
              (result, consumed, data, outargs) \<Rightarrow>
                (if result = -1 then Some (False, data, outargs)
                 else parse_args env opts proc dashdash (if consumed then tl args else args) data outargs)))
      else
        (case fsp_fuse_opt_call_proc env data proc arg (In_arg 0) FUSE_OPT_KEY_NONOPT False outargs of
           (result, data, outargs) \<Rightarrow>
             (if result = -1 then Some (False, data, outargs)
              else parse_args env opts proc dashdash args data outargs)))"
  by pat_completeness auto
termination
  by (relation "measure (\<lambda>(_, _, _, _, args, _). length args)") (auto split: if_splits list.splits)

declare parse_args.simps [simp del]

definition drop_dashdash :: "bytes list \<Rightarrow> bytes list" where
  "drop_dashdash a = (if a \<noteq> [] \<and> last a = [0x2d, 0x2d] then butlast a else a)"

definition fsp_fuse_opt_proc0 :: fuse_opt_proc where
  "fsp_fuse_opt_proc0 data arg key outargs = (1, data, outargs)"

text \<open>The C result, the data and the new \<open>*args\<close>, which stays on failure.\<close>

definition fsp_fuse_opt_parse ::
  "fsp_fuse_env \<Rightarrow> fuse_args option \<Rightarrow> fuse_data \<Rightarrow> fuse_opt list option \<Rightarrow> fuse_opt_proc option \<Rightarrow>
   (int \<times> fuse_data \<times> fuse_args) option" where
  "fsp_fuse_opt_parse env pargs data opts proc =
     (let args = (case pargs of None \<Rightarrow> FUSE_ARGS_INIT | Some a \<Rightarrow> a);
          opts = (case opts of None \<Rightarrow> [] | Some o' \<Rightarrow> o');
          proc = Some (case proc of None \<Rightarrow> fsp_fuse_opt_proc0 | Some p \<Rightarrow> p)
      in case argl_list args of
        [] \<Rightarrow> None
      | arg0 # rest \<Rightarrow>
          (let (result, outargs) = fsp_fuse_opt_add_arg env FUSE_ARGS_INIT arg0
           in if result = -1 then Some (-1, data, args)
              else (case parse_args env opts proc False rest data outargs of
                  None \<Rightarrow> None
                | Some (ok, data, outargs) \<Rightarrow>
                    (if ok then Some (0, data,
                       outargs\<lparr>argv := map_option drop_dashdash (argv outargs)\<rparr>)
                     else Some (-1, data, args)))))"

end
