(* ===== verification/FuseOptProps.thy ===== *)
theory FuseOptProps
  imports FuseOpt "HOL-Library.Sublist"
begin

text \<open>
  What the option parser does: the language of templates, the reading of numbers, the comma
  separated option strings and the normal form of the argument vector.
\<close>

section \<open>Templates\<close>

definition cstring :: "bytes \<Rightarrow> bool" where
  "cstring s \<longleftrightarrow> 0 \<notin> set s"

text \<open>A name has none of the characters that mean something in a template.\<close>

definition plain_name :: "bytes \<Rightarrow> bool" where
  "plain_name s \<longleftrightarrow> set s \<inter> {0, 0x20, 0x3d} = {}"

lemma cstring_simps [simp]: "cstring []" "cstring (c # s) \<longleftrightarrow> c \<noteq> 0 \<and> cstring s"
  "cstring (s @ t) \<longleftrightarrow> cstring s \<and> cstring t"
  by (auto simp: cstring_def)

lemma plain_name_simps [simp]: "plain_name []"
  "plain_name (c # s) \<longleftrightarrow> c \<noteq> 0 \<and> c \<noteq> 0x20 \<and> c \<noteq> 0x3d \<and> plain_name s"
  by (auto simp: plain_name_def)

lemma ucast_scast_8_32: "(ucast (scast (a :: u8) :: u32) :: u8) = a"
  by transfer (simp add: take_bit_signed_take_bit)

lemma scast_diff_0: "sint ((scast (a :: u8) :: u32) - scast b) = 0 \<longleftrightarrow> a = b"
proof -
  have "sint ((scast a :: u32) - scast b) = 0 \<longleftrightarrow> (scast a :: u32) = scast b"
    by (simp only: signed_eq_0_iff right_minus_eq)
  also have "\<dots> \<longleftrightarrow> a = b" using ucast_scast_8_32 by metis
  finally show ?thesis .
qed

lemma strcmp_simps:
  "invariant_strcmp s [] = sint ((scast (hd0 s) :: u32) - scast (0 :: u8))"
  "c \<noteq> 0 \<Longrightarrow> invariant_strcmp s (c # t) = (if hd0 s = c then invariant_strcmp (tl s) t
     else sint ((scast (hd0 s) :: u32) - scast c))"
proof -
  show "invariant_strcmp s [] = sint ((scast (hd0 s) :: u32) - scast (0 :: u8))"
    by (subst minimal_strcmp.simps) simp
  assume "c \<noteq> 0"
  then show "invariant_strcmp s (c # t) = (if hd0 s = c then invariant_strcmp (tl s) t
     else sint ((scast (hd0 s) :: u32) - scast c))"
    using scast_diff_0 [of "hd0 s" c] by (subst minimal_strcmp.simps) (auto simp: Let_def)
qed

lemma strcmp_eq: "cstring s \<Longrightarrow> cstring t \<Longrightarrow> invariant_strcmp s t = 0 \<longleftrightarrow> s = t"
proof (induction t arbitrary: s)
  case Nil
  then show ?case unfolding strcmp_simps(1) scast_diff_0 by (cases s) simp_all
next
  case (Cons c t)
  have c: "c \<noteq> 0" using Cons.prems by simp
  show ?case
    using Cons.prems Cons.IH [of "tl s"] scast_diff_0 [of 0 c] unfolding strcmp_simps(2) [OF c]
    by (cases s) (auto simp: scast_diff_0)
qed

lemma match_name:
  "plain_name name \<Longrightarrow> cstring arg \<Longrightarrow> match_loop (name @ t) arg n =
     (if prefix name arg then match_loop t (drop (length name) arg) (n + length name)
      else (None, match_none))"
proof (induction name arbitrary: arg n)
  case (Cons c name)
  then show ?case by (cases arg) auto
qed simp

lemma match_value: "match_loop (0x3d # v) arg n =
    (case arg of [] \<Rightarrow> (None, match_none)
     | d # arg' \<Rightarrow> if d = 0x3d then
         (if hd0 v = 0x25 \<or> hd0 v = 0 then (Some v, match_at (n + 1))
          else (None, if invariant_strcmp arg' v = 0 then match_exact else match_none))
        else (None, match_none))"
  by (cases arg) simp_all

lemma match_space: "match_loop (0x20 # f) arg n =
    (if arg = [] then (Some f, match_next) else (Some f, match_at n))"
  by (cases arg) simp_all

lemma match_end: "cstring arg \<Longrightarrow> match_loop [] arg n = (None, if arg = [] then match_exact else match_none)"
  by (cases arg) simp_all

lemma prefix_drop: "prefix name arg \<Longrightarrow> arg = name @ drop (length name) arg"
  by (auto simp: prefix_def)

lemma templ_name:
  assumes "plain_name name" "cstring arg"
  shows "fsp_fuse_opt_match_templ name arg = (None, if arg = name then match_exact else match_none)"
proof -
  have "cstring (drop (length name) arg)" using assms(2) by (auto simp: cstring_def dest: in_set_dropD)
  then show ?thesis
    using match_name [OF assms, of "[]" 0] match_end
    by (auto simp: fsp_fuse_opt_match_templ_def dest: prefix_drop prefix_order.antisym)
qed

lemma drop_eq_Cons: "prefix name arg \<Longrightarrow> drop (length name) arg = c # r \<longleftrightarrow> arg = name @ c # r"
  by (auto simp: prefix_def)

lemma templ_value:
  assumes "plain_name name" "cstring arg" "hd0 v = 0x25 \<or> v = []"
  shows "fsp_fuse_opt_match_templ (name @ 0x3d # v) arg =
    (if prefix (name @ [0x3d]) arg then (Some v, match_at (length name + 1)) else (None, match_none))"
proof (cases "prefix name arg")
  case True
  have "hd0 v = 0x25 \<or> hd0 v = 0" using assms(3) by auto
  with True show ?thesis
    using match_name [OF assms(1,2), of "0x3d # v" 0]
    by (auto simp: fsp_fuse_opt_match_templ_def match_value prefix_def split: list.split)
next
  case False
  then have "\<not> prefix (name @ [0x3d]) arg" by (auto simp: prefix_def)
  with False show ?thesis
    using match_name [OF assms(1,2), of "0x3d # v" 0] by (simp add: fsp_fuse_opt_match_templ_def)
qed

lemma templ_literal:
  assumes "plain_name name" "cstring arg" "cstring v" "v \<noteq> []" "hd v \<noteq> 0x25"
  shows "fsp_fuse_opt_match_templ (name @ 0x3d # v) arg =
    (None, if arg = name @ 0x3d # v then match_exact else match_none)"
proof (cases "prefix name arg")
  case True
  obtain r where r: "arg = name @ r" using True by (auto simp: prefix_def)
  have "\<not> (hd0 v = 0x25 \<or> hd0 v = 0)" using assms(3-5) by (cases v) auto
  then show ?thesis
    using match_name [OF assms(1,2), of "0x3d # v" 0] assms(2,3) strcmp_eq [OF _ assms(3)]
    by (auto simp: fsp_fuse_opt_match_templ_def match_value r split: list.split)
next
  case False
  then have "arg \<noteq> name @ 0x3d # v" by auto
  with False show ?thesis
    using match_name [OF assms(1,2), of "0x3d # v" 0] by (simp add: fsp_fuse_opt_match_templ_def)
qed

lemma templ_next:
  assumes "plain_name name" "cstring arg"
  shows "fsp_fuse_opt_match_templ (name @ 0x20 # f) arg =
    (if arg = name then (Some f, match_next)
     else if prefix name arg then (Some f, match_at (length name)) else (None, match_none))"
  using match_name [OF assms, of "0x20 # f" 0]
  by (auto simp: fsp_fuse_opt_match_templ_def match_space prefix_def)

section \<open>Option strings\<close>

text \<open>The options of a string, \<open>None\<close> when it ends in a backslash.\<close>

fun split_opts :: "bytes \<Rightarrow> bytes \<Rightarrow> bytes list option" where
  "split_opts [] acc = Some [acc]"
| "split_opts (c # s) acc =
     (if c = 0x5c then (case s of [] \<Rightarrow> None | d # s' \<Rightarrow> split_opts s' (acc @ [d]))
      else if c = 0x2c then map_option ((#) acc) (split_opts s [])
      else split_opts s (acc @ [c]))"

text \<open>Processing options one after the other, up to the first failure.\<close>

fun process_opts ::
  "fsp_fuse_env \<Rightarrow> fuse_opt list \<Rightarrow> fuse_opt_proc option \<Rightarrow> bytes list \<Rightarrow> fuse_data \<Rightarrow> fuse_args \<Rightarrow>
   bool \<times> fuse_data \<times> fuse_args" where
  "process_opts env opts proc [] data outargs = (True, data, outargs)"
| "process_opts env opts proc (opt # os) data outargs =
     (case fsp_fuse_opt_parse_arg env data opts proc opt None True outargs of
        (result, _, data, outargs) \<Rightarrow>
          (if result = -1 then (False, data, outargs) else process_opts env opts proc os data outargs))"

lemma parse_opts_split:
  "split_opts s acc = Some os \<Longrightarrow>
     parse_opts env opts proc s acc data outargs = Some (process_opts env opts proc os data outargs)"
proof (induction s acc arbitrary: os data outargs rule: split_opts.induct)
  case (1 acc)
  then show ?case by (auto split: prod.splits)
next
  case (2 c s acc)
  show ?case
  proof (cases "c = 0x5c")
    case True
    then show ?thesis using "2.prems" "2.IH"(1) by (auto split: list.splits)
  next
    case F: False
    show ?thesis
    proof (cases "c = 0x2c")
      case True
      with F "2.prems" obtain os' where os': "split_opts s [] = Some os'" "os = acc # os'" by auto
      with "2.IH"(2) [OF F True] True F show ?thesis by (auto split: prod.splits)
    next
      case False
      with F "2.prems" "2.IH"(3) show ?thesis by auto
    qed
  qed
qed

lemma split_escape: "split_opts (escape True opt @ s) acc = split_opts s (acc @ opt)"
  by (induction opt arbitrary: acc) auto

lemma split_tail: "split_opts (concat (map (\<lambda>opt. 0x2c # escape True opt) os)) acc = Some (acc # os)"
proof (induction os arbitrary: acc)
  case (Cons opt os)
  then show ?case using split_escape [of opt _ "[]"] by simp
qed simp

text \<open>Adding options one after the other to a string.\<close>

fun add_opts :: "fsp_fuse_env \<Rightarrow> bytes option \<Rightarrow> bytes list \<Rightarrow> int \<times> bytes option" where
  "add_opts env s [] = (0, s)"
| "add_opts env s (opt # os) =
     (case fsp_fuse_opt_add_opt_escaped env s opt of
        (result, s) \<Rightarrow> if result = -1 then (-1, s) else add_opts env s os)"

lemma escape_Nil [simp]: "escape b opt = [] \<longleftrightarrow> opt = []"
  by (cases opt) auto

lemma add_opts_tail:
  "s \<noteq> [] \<Longrightarrow> add_opts env (Some s) os = (0, r) \<Longrightarrow>
     r = Some (s @ concat (map (\<lambda>opt. 0x2c # escape True opt) os))"
proof (induction os arbitrary: s)
  case (Cons opt os)
  then show ?case
    using Cons.IH [of "s @ 0x2c # escape True opt"]
    by (auto simp: fsp_fuse_opt_add_opt_escaped_def fsp_fuse_opt_add_opt_internal_def Let_def
        split: if_splits)
qed simp

lemma add_opts_split:
  assumes "add_opts env None (opt # os) = (0, Some s)" "opt \<noteq> []"
  shows "split_opts s [] = Some (opt # os)"
proof -
  have "add_opts env (Some (escape True opt)) os = (0, Some s)"
    using assms(1)
    by (auto simp: fsp_fuse_opt_add_opt_escaped_def fsp_fuse_opt_add_opt_internal_def Let_def
        split: if_splits)
  from add_opts_tail [OF _ this] assms(2)
  have "s = escape True opt @ concat (map (\<lambda>opt. 0x2c # escape True opt) os)" by simp
  then show ?thesis using split_escape [of opt _ "[]"] split_tail by simp
qed

section \<open>Numbers\<close>

fun decimal :: "nat \<Rightarrow> bytes" where
  "decimal n = (if n < 10 then [of_nat (48 + n)] else decimal (n div 10) @ [of_nat (48 + n mod 10)])"

declare decimal.simps [simp del]

lemma digit_char: "d < 10 \<Longrightarrow> sint (of_nat (48 + d) :: u8) = 48 + int d \<and> (of_nat (48 + d) :: u8) \<noteq> 0"
proof -
  assume "d < 10"
  then have "d = 0 \<or> d = 1 \<or> d = 2 \<or> d = 3 \<or> d = 4 \<or> d = 5 \<or> d = 6 \<or> d = 7 \<or> d = 8 \<or> d = 9" by arith
  then show ?thesis by (elim disjE) simp_all
qed

lemma loop_digit:
  "d < 10 \<Longrightarrow> strtoint_loop sint 10 0x39 0 v ((of_nat (48 + d) :: u8) # r) =
     strtoint_loop sint 10 0x39 0 (10 * v + of_nat d) r"
  using digit_char [of d] by (simp add: Let_def)

lemma loop_decimal:
  "strtoint_loop sint 10 0x39 0 v (decimal n @ r) =
     strtoint_loop sint 10 0x39 0 (10 ^ length (decimal n) * v + of_nat n) r"
proof (induction n arbitrary: v r rule: decimal.induct)
  case (1 n)
  show ?case
  proof (cases "n < 10")
    case True
    then show ?thesis using loop_digit [OF True, of v r] by (simp add: decimal.simps [of n])
  next
    case False
    have n: "of_nat n = 10 * of_nat (n div 10) + (of_nat (n mod 10) :: 'a word)"
      by (metis (no_types) mult_div_mod_eq of_nat_add of_nat_mult of_nat_numeral)
    have d: "decimal n = decimal (n div 10) @ [of_nat (48 + n mod 10)]"
      using False by (subst decimal.simps) simp
    have "strtoint_loop sint 10 0x39 0 v (decimal n @ r) =
        strtoint_loop sint 10 0x39 0 v (decimal (n div 10) @ (of_nat (48 + n mod 10)) # r)"
      by (simp only: d append_assoc append_Cons append_Nil)
    also have "\<dots> = strtoint_loop sint 10 0x39 0
        (10 ^ length (decimal (n div 10)) * v + of_nat (n div 10)) (of_nat (48 + n mod 10) # r)"
      by (rule "1.IH" [OF False])
    also have "\<dots> = strtoint_loop sint 10 0x39 0
        (10 * (10 ^ length (decimal (n div 10)) * v + of_nat (n div 10)) + of_nat (n mod 10)) r"
      by (rule loop_digit) simp
    also have "10 * (10 ^ length (decimal (n div 10)) * v + of_nat (n div 10)) + of_nat (n mod 10) =
        10 ^ length (decimal n) * v + of_nat n"
      unfolding n d by (simp add: algebra_simps)
    finally show ?thesis .
  qed
qed

end
