(* ===== verification/FuseOptClaims.thy ===== *)
theory FuseOptClaims
  imports FuseOptProps
begin

text \<open>
  The properties of the option parser: the language of templates, the round trips of option
  strings and of numbers, and the normal form of the argument vector.
\<close>

section \<open>Helpers\<close>

lemma decimal_first: "\<exists>d r. d < 10 \<and> decimal n = of_nat (48 + d) # r"
proof (induction n rule: decimal.induct)
  case (1 n)
  then show ?case by (cases "n < 10") (auto simp: decimal.simps [of n])
qed

text \<open>An integer the way a user writes it.\<close>

definition print_int :: "int \<Rightarrow> bytes" where
  "print_int z = (if z < 0 then 0x2d # decimal (nat (- z)) else decimal (nat z))"

lemma strtollint_decimal: "fst (strtollint (decimal n) 10 True) = of_nat n"
proof -
  obtain d r where d: "d < 10" "decimal n = of_nat (48 + d) # r" using decimal_first by metis
  have "val = 48 + int d \<Longrightarrow> val \<noteq> 0x2b \<and> val \<noteq> 0x2d" for val :: int by simp
  then have "sint (hd0 (decimal n)) \<noteq> 0x2b" "sint (hd0 (decimal n)) \<noteq> 0x2d"
    using d digit_char [OF d(1)] by auto
  then show ?thesis using loop_decimal [of "0 :: u64" n "[]"] by (simp add: strtoint_def)
qed

lemma strtollint_print: "fst (strtollint (print_int z) 10 True) = of_int z"
proof (cases "z < 0")
  case True
  then show ?thesis using loop_decimal [of "0 :: u64" "nat (- z)" "[]"]
    by (simp add: print_int_def strtoint_def of_nat_nat)
next
  case False
  then show ?thesis by (simp add: print_int_def strtollint_decimal of_nat_nat)
qed

lemma plain_cstring: "plain_name s \<Longrightarrow> cstring s"
  by (auto simp: plain_name_def cstring_def)

lemma cstring_decimal: "cstring (decimal n)"
proof (induction n rule: decimal.induct)
  case (1 n)
  show ?case using 1 digit_char [of n] digit_char [of "n mod 10"]
    by (cases "n < 10") (auto simp: decimal.simps [of n])
qed

lemma cstring_print: "cstring (print_int z)"
  by (simp add: print_int_def cstring_decimal)

lemma ucast_of_int_64_32: "(ucast (of_int z :: u64) :: u32) = of_int z"
  by (rule bit_word_eqI) (simp add: bit_simps)


section \<open>Templates\<close>

text \<open>What a template matches, for every name without special characters: \<open>name\<close> matches the
  argument \<open>name\<close> only; \<open>name=%...\<close> and \<open>name=\<close> match what starts with \<open>name=\<close>, with the value
  behind the equals sign; \<open>name=v\<close> matches exactly that argument; \<open>name %...\<close> takes the next
  argument after \<open>name\<close> alone and the rest of an argument that starts with \<open>name\<close>.\<close>
theorem fuse_templates:
  assumes "plain_name name" "cstring arg" "cstring v" "v \<noteq> []" "hd v \<noteq> 0x25"
  shows "fsp_fuse_opt_match_templ name arg = (None, if arg = name then match_exact else match_none)
    \<and> fsp_fuse_opt_match_templ (name @ 0x3d # 0x25 # f) arg =
        (if prefix (name @ [0x3d]) arg then (Some (0x25 # f), match_at (length name + 1))
         else (None, match_none))
    \<and> fsp_fuse_opt_match_templ (name @ [0x3d]) arg =
        (if prefix (name @ [0x3d]) arg then (Some [], match_at (length name + 1))
         else (None, match_none))
    \<and> fsp_fuse_opt_match_templ (name @ 0x3d # v) arg =
        (None, if arg = name @ 0x3d # v then match_exact else match_none)
    \<and> fsp_fuse_opt_match_templ (name @ 0x20 # f) arg =
        (if arg = name then (Some f, match_next)
         else if prefix name arg then (Some f, match_at (length name)) else (None, match_none))"
  using templ_name [OF assms(1,2)] templ_value [OF assms(1,2), of "0x25 # f"]
    templ_value [OF assms(1,2), of "[]"] templ_literal [OF assms] templ_next [OF assms(1,2), of f]
  by simp

theorem fuse_templates_witness:
  "fsp_fuse_opt_match_templ [0x75, 0x3d, 0x25, 0x75] [0x75, 0x3d, 0x37] = (Some [0x25, 0x75], match_at 2)"
  using fuse_templates [of "[0x75]" "[0x75, 0x3d, 0x37]" "[0x78]" "[0x75]"] by simp

section \<open>Option strings\<close>


definition all_memory :: fsp_fuse_env where
  "all_memory = \<lparr>environment = 0x57, memalloc = \<lambda>_. True\<rparr>"


section \<open>Integer options\<close>

lemma find_skip:
  "fsp_fuse_opt_find pre arg = None \<Longrightarrow>
     fsp_fuse_opt_find (pre @ opts) arg = fsp_fuse_opt_find opts arg"
  by (induction pre) (auto split: prod.splits if_splits)

text \<open>C21. Integer options: when the first option that matches is the template \<open>name=%d\<close> with an
  offset, and none behind it matches, \<open>name=z\<close> in decimal stores \<open>z\<close> modulo \<open>2 ^ 32\<close> at the offset
  and changes nothing else, for every integer \<open>z\<close>.\<close>
theorem fuse_integer_option:
  assumes "plain_name name" "templ opt = name @ [0x3d, 0x25, 0x64]" "opt_offset opt \<noteq> 0xffffffff"
    and arg: "arg = name @ 0x3d # print_int z"
    and others: "fsp_fuse_opt_find pre arg = None" "fsp_fuse_opt_find post arg = None"
  shows "fsp_fuse_opt_parse_arg env data (pre @ opt # post) proc arg nextarg is_opt outargs =
    (0, False, data(opt_offset opt \<mapsto> VInt (of_int z)), outargs)"
proof -
  have m: "fsp_fuse_opt_match_templ (templ opt) arg = (Some [0x25, 0x64], match_at (Suc (length name)))"
    using match_name [OF assms(1), of arg "[0x3d, 0x25, 0x64]" 0] cstring_print [of z] assms(1)
    by (simp add: assms(2) arg fsp_fuse_opt_match_templ_def plain_cstring)
  have f: "fsp_fuse_opt_find (pre @ opt # post) arg =
      Some (opt, post, Some [0x25, 0x64], match_at (Suc (length name)))"
    unfolding find_skip [OF others(1)] by (simp add: m)
  have v: "value_str arg (In_arg (Suc (length name))) = print_int z" by (simp add: arg)
  have p: "fsp_fuse_opt_process_arg env data opt proc (Some [0x25, 0x64]) arg
      (In_arg (Suc (length name))) is_opt outargs = (0, data(opt_offset opt \<mapsto> VInt (of_int z)), outargs)"
    using assms(3) unfolding fsp_fuse_opt_process_arg_def v
    by (simp add: ivar_def ucast_of_int_64_32 strtollint_print)
  have l: "parse_arg_loop env proc arg nextarg is_opt (pre @ opt # post) 0 False data outargs =
      (0, 1, False, data(opt_offset opt \<mapsto> VInt (of_int z)), outargs)"
    by (subst parse_arg_loop.simps) (simp add: f p [simplified] parse_arg_loop.simps [of _ _ _ _ _ post] others(2)
        del: value_str.simps)
  then show ?thesis by (simp add: fsp_fuse_opt_parse_arg_def)
qed

definition size_option :: fuse_opt where
  "size_option = \<lparr>templ = [0x6e, 0x3d, 0x25, 0x64], opt_offset = 8, opt_value = 0\<rparr>"

theorem fuse_integer_option_witness:
  "fsp_fuse_opt_parse_arg all_memory Map.empty [size_option] None ([0x6e, 0x3d] @ print_int (- 15)) None
     True FUSE_ARGS_INIT = (0, False, [8 \<mapsto> VInt (- 15)], FUSE_ARGS_INIT)"
  using fuse_integer_option [of "[0x6e]" size_option _ "- 15" "[]" "[]" all_memory Map.empty None None True
      FUSE_ARGS_INIT]
  by (simp add: size_option_def)

section \<open>The normal form of the argument vector\<close>

text \<open>A reference: the options of all \<open>-o\<close> arguments, and all other arguments, in order.\<close>

function sort_args :: "bool \<Rightarrow> bytes list \<Rightarrow> (bytes list \<times> bytes list) option" where
  "sort_args dashdash [] = Some ([], [])"
| "sort_args dashdash (arg # args) =
     (if \<not> dashdash \<and> prefix [0x2d, 0x6f] arg then
        (if length arg = 2 then
           (case args of
              [] \<Rightarrow> None
            | a # args' \<Rightarrow> do {
                os \<leftarrow> split_opts a [];
                (os', rest) \<leftarrow> sort_args dashdash args';
                Some (os @ os', rest) })
         else do {
           os \<leftarrow> split_opts (drop 2 arg) [];
           (os', rest) \<leftarrow> sort_args dashdash args;
           Some (os @ os', rest) })
      else do {
        (os, rest) \<leftarrow> sort_args (dashdash \<or> arg = [0x2d, 0x2d]) args;
        Some (os, arg # rest) })"
  by pat_completeness auto
termination by (relation "measure (\<lambda>(_, args). length args)") auto

definition join_opt :: "bytes option \<Rightarrow> bytes \<Rightarrow> bytes" where
  "join_opt s opt =
     (case s of None \<Rightarrow> [] | Some s \<Rightarrow> if s = [] then [] else s @ [0x2c]) @ escape True opt"

definition join_opts :: "bytes option \<Rightarrow> bytes list \<Rightarrow> bytes option" where
  "join_opts s os = fold (\<lambda>opt s. Some (join_opt s opt)) os s"

definition arg_vector :: "bytes \<Rightarrow> bytes option \<Rightarrow> bytes list \<Rightarrow> bytes list" where
  "arg_vector arg0 s rest = arg0 # (case s of None \<Rightarrow> [] | Some s \<Rightarrow> [[0x2d, 0x6f], s]) @ rest"

abbreviation heap_args :: "bytes list \<Rightarrow> fuse_args" where
  "heap_args a \<equiv> \<lparr>argv = Some a, allocated = True\<rparr>"

definition no_opt_head :: "bytes list \<Rightarrow> bool" where
  "no_opt_head rest \<longleftrightarrow> rest = [] \<or> hd rest \<noteq> [0x2d, 0x6f]"

lemma join_opts_simps [simp]: "join_opts s [] = s"
  "join_opts s (opt # os) = join_opts (Some (join_opt s opt)) os"
  "join_opts s (os @ os') = join_opts (join_opts s os) os'"
  by (simp_all add: join_opts_def)

lemma insert_heap:
  assumes "\<And>n. memalloc env n" "pos \<le> length a"
  shows "insert_arg env (heap_args a) (int pos) arg = (0, heap_args (take pos a @ arg # drop pos a))"
  using assms by (simp add: insert_arg_def argl_list_def)

lemma add_heap:
  assumes "\<And>n. memalloc env n"
  shows "fsp_fuse_opt_add_arg env (heap_args a) arg = (0, heap_args (a @ [arg]))"
  using insert_heap [OF assms, of "length a" a arg] by (simp add: fsp_fuse_opt_add_arg_def argl_list_def)

lemma call_arg:
  assumes "\<And>n. memalloc env n" "key \<noteq> FUSE_OPT_KEY_DISCARD"
  shows "fsp_fuse_opt_call_proc env data (Some fsp_fuse_opt_proc0) arg (In_arg 0) key False (heap_args a) =
    (0, data, heap_args (a @ [arg]))"
  using assms add_heap [OF assms(1), of a arg]
  by (cases arg) (simp_all add: fsp_fuse_opt_call_proc_def fsp_fuse_opt_proc0_def Let_def)

lemma call_opt:
  assumes mem: "\<And>n. memalloc env n" and "no_opt_head rest"
  shows "fsp_fuse_opt_call_proc env data (Some fsp_fuse_opt_proc0) arg (In_arg 0) FUSE_OPT_KEY_OPT True
      (heap_args (arg_vector arg0 s rest)) =
    (0, data, heap_args (arg_vector arg0 (Some (join_opt s arg)) rest))"
proof -
  have 1: "insert_arg env (heap_args (arg0 # rest)) 1 [0x2d, 0x6f] =
      (0, heap_args (arg0 # [0x2d, 0x6f] # rest))"
    using insert_heap [OF mem, of 1 "arg0 # rest"] by simp
  have 2: "insert_arg env (heap_args (arg0 # [0x2d, 0x6f] # rest)) 2 [] =
      (0, heap_args (arg0 # [0x2d, 0x6f] # [] # rest))"
    using insert_heap [OF mem, of 2 "arg0 # [0x2d, 0x6f] # rest"] by (simp add: numeral_2_eq_2)
  have 3: "\<not> (3 \<le> length (arg0 # rest) \<and> (arg0 # rest) ! 1 = [0x2d, 0x6f])"
    using assms(2) by (cases rest) (simp_all add: no_opt_head_def)
  have 4: "(if arg = [] then arg @ arg else arg) = arg" by simp
  show ?thesis
  proof (cases s)
    case None
    then show ?thesis using 3
      by (cases arg) (auto simp: fsp_fuse_opt_call_proc_def fsp_fuse_opt_proc0_def argl_list_def
          arg_vector_def mem 1 2 fsp_fuse_opt_add_opt_escaped_def fsp_fuse_opt_add_opt_internal_def
          join_opt_def numeral_2_eq_2)
  next
    case (Some x)
    then show ?thesis
      by (cases arg) (auto simp: fsp_fuse_opt_call_proc_def fsp_fuse_opt_proc0_def argl_list_def
          arg_vector_def mem fsp_fuse_opt_add_opt_escaped_def fsp_fuse_opt_add_opt_internal_def
          join_opt_def numeral_2_eq_2 Let_def)
  qed
qed

lemma parse_opt:
  assumes "\<And>n. memalloc env n" "no_opt_head rest"
  shows "fsp_fuse_opt_parse_arg env data [] (Some fsp_fuse_opt_proc0) arg nextarg True
      (heap_args (arg_vector arg0 s rest)) =
    (0, False, data, heap_args (arg_vector arg0 (Some (join_opt s arg)) rest))"
  using call_opt [OF assms, of data arg arg0 s]
  by (simp add: fsp_fuse_opt_parse_arg_def parse_arg_loop.simps)

lemma parse_arg:
  assumes "\<And>n. memalloc env n"
  shows "fsp_fuse_opt_parse_arg env data [] (Some fsp_fuse_opt_proc0) arg nextarg False (heap_args a) =
    (0, False, data, heap_args (a @ [arg]))"
  using call_arg [OF assms, of "FUSE_OPT_KEY_OPT" data arg a]
  by (simp add: fsp_fuse_opt_parse_arg_def parse_arg_loop.simps)

lemma process_all:
  assumes "\<And>n. memalloc env n" "no_opt_head rest"
  shows "process_opts env [] (Some fsp_fuse_opt_proc0) os data (heap_args (arg_vector arg0 s rest)) =
    (True, data, heap_args (arg_vector arg0 (join_opts s os) rest))"
  by (induction os arbitrary: s) (simp_all add: parse_opt [OF assms])

lemma parse_all:
  assumes "\<And>n. memalloc env n" "no_opt_head rest" "split_opts a [] = Some os"
  shows "parse_opts env [] (Some fsp_fuse_opt_proc0) a [] data (heap_args (arg_vector arg0 s rest)) =
    Some (True, data, heap_args (arg_vector arg0 (join_opts s os) rest))"
  using parse_opts_split [OF assms(3)] process_all [OF assms(1,2)] by simp

lemma arg_vector_snoc: "arg_vector arg0 s rest @ [a] = arg_vector arg0 s (rest @ [a])"
  by (simp add: arg_vector_def)

lemma opt_prefix: "prefix [0x2d, 0x6f] (arg :: bytes) \<longleftrightarrow> hd0 arg = 0x2d \<and> hd0 (tl arg) = 0x6f"
  by (cases arg; cases "tl arg") (auto simp: prefix_def)

lemma no_opt_head_snoc:
  "no_opt_head rest \<Longrightarrow> (rest = [] \<Longrightarrow> a \<noteq> [0x2d, 0x6f]) \<Longrightarrow> no_opt_head (rest @ [a])"
  by (cases rest) (auto simp: no_opt_head_def)

lemma parse_args_sort:
  assumes mem: "\<And>n. memalloc env n"
  shows "sort_args dashdash args = Some (os, others) \<Longrightarrow> no_opt_head rest \<Longrightarrow>
    (dashdash \<Longrightarrow> rest \<noteq> []) \<Longrightarrow>
    parse_args env [] (Some fsp_fuse_opt_proc0) dashdash args data (heap_args (arg_vector arg0 s rest)) =
      Some (True, data, heap_args (arg_vector arg0 (join_opts s os) (rest @ others)))"
proof (induction dashdash args arbitrary: os others s rest rule: sort_args.induct)
  case (1 dashdash)
  then show ?case by (simp add: parse_args.simps)
next
  case (2 dashdash arg args)
  show ?case
  proof (cases "\<not> dashdash \<and> prefix [0x2d, 0x6f] arg")
    case o: True
    then obtain v where v: "arg = 0x2d # 0x6f # v" by (auto simp: prefix_def)
    show ?thesis
    proof (cases "v = []")
      case True
      then obtain a args' os1 os2 where a: "args = a # args'" "split_opts a [] = Some os1"
          "sort_args False args' = Some (os2, others)" "os = os1 @ os2"
        using "2.prems"(1) o v by (auto split: list.splits bind_splits)
      have "parse_args env [] (Some fsp_fuse_opt_proc0) False args' data
            (heap_args (arg_vector arg0 (join_opts s os1) rest)) =
          Some (True, data, heap_args (arg_vector arg0 (join_opts s os) (rest @ others)))"
        using "2.IH"(1) [OF o _ a(1), of os1 os2 others rest] o v True a "2.prems" by simp
      then show ?thesis
        using o v True a(1) parse_all [OF mem "2.prems"(2) a(2)]
        by (subst parse_args.simps) (simp add: mem)
    next
      case False
      then obtain os1 os2 where a: "split_opts v [] = Some os1"
          "sort_args False args = Some (os2, others)" "os = os1 @ os2"
        using "2.prems"(1) o v by (auto split: bind_splits)
      have "parse_args env [] (Some fsp_fuse_opt_proc0) False args data
            (heap_args (arg_vector arg0 (join_opts s os1) rest)) =
          Some (True, data, heap_args (arg_vector arg0 (join_opts s os) (rest @ others)))"
        using "2.IH"(2) [OF o, of os1 os2 others rest] o v False a "2.prems" by simp
      then show ?thesis
        using o v False parse_all [OF mem "2.prems"(2) a(1)]
        by (subst parse_args.simps) (simp add: mem)
    qed
  next
    case n: False
    then obtain others' where r: "sort_args (dashdash \<or> arg = [0x2d, 0x2d]) args = Some (os, others')"
        "others = arg # others'"
      using "2.prems"(1) by (auto split: bind_splits if_splits)
    have "no_opt_head (rest @ [arg])"
      using n "2.prems"(2,3) by (auto intro: no_opt_head_snoc)
    from "2.IH"(3) [OF n r(1) this]
    have "parse_args env [] (Some fsp_fuse_opt_proc0) (dashdash \<or> arg = [0x2d, 0x2d]) args data
          (heap_args (arg_vector arg0 s (rest @ [arg]))) =
        Some (True, data, heap_args (arg_vector arg0 (join_opts s os) (rest @ others)))"
      by (simp add: r(2))
    then show ?thesis
      using n unfolding opt_prefix
      by (subst parse_args.simps)
        (auto simp: add_heap [OF mem] parse_arg [OF mem] call_arg [OF mem] arg_vector_snoc)
  qed
qed

text \<open>C19. The normal form: without option templates and when no memory request fails, parsing an
  argument vector whose \<open>-o\<close> strings are well formed succeeds, leaves the data alone and turns the
  vector into the program name, one \<open>-o\<close> with all options joined and escaped if there are any, and
  the other arguments in order; then a last element that is \<open>--\<close> is dropped, whatever it was.\<close>
theorem fuse_parse_normal_form:
  assumes "\<And>n. memalloc env n" "argv args = Some (arg0 # rest)"
    and "sort_args False rest = Some (os, others)"
  shows "fsp_fuse_opt_parse env (Some args) data None None =
    Some (0, data, heap_args (drop_dashdash (arg_vector arg0 (join_opts None os) others)))"
proof -
  have i: "fsp_fuse_opt_add_arg env FUSE_ARGS_INIT arg0 = (0, heap_args (arg_vector arg0 None []))"
    using assms(1) by (simp add: fsp_fuse_opt_add_arg_def insert_arg_def argl_list_def FUSE_ARGS_INIT_def
        arg_vector_def)
  show ?thesis
    using parse_args_sort [OF assms(1,3), of "[]" data arg0 None] assms(2)
    by (simp add: fsp_fuse_opt_parse_def i argl_list_def no_opt_head_def)
qed

theorem fuse_parse_normal_form_witness:
  "fsp_fuse_opt_parse all_memory (Some \<lparr>argv = Some [[0x70], [0x78], [0x2d, 0x6f, 0x61], [0x2d, 0x6f],
       [0x2d, 0x2d]], allocated = False\<rparr>) Map.empty None None =
     Some (0, Map.empty, heap_args [[0x70], [0x2d, 0x6f], [0x61, 0x2c, 0x2d, 0x2d], [0x78]])"
proof -
  have "sort_args False [[0x78], [0x2d, 0x6f, 0x61], [0x2d, 0x6f], [0x2d, 0x2d]] =
      Some ([[0x61], [0x2d, 0x2d]], [[0x78]])"
    by simp
  from fuse_parse_normal_form [OF _ _ this, of all_memory _ "[0x70]" Map.empty] show ?thesis
    by (simp add: all_memory_def arg_vector_def join_opt_def drop_dashdash_def)
qed

end
