(* ===== verification/Name.thy ===== *)
theory Name
  imports Prelude
begin

text \<open>
  File names in the driver (\<open>src/sys/name.c\<close>): which names, patterns and names of extended
  attributes are valid, the last component of a path, and matching a name against a pattern. A
  pointer into a string is the list of the characters from there to the end of the string. The
  Windows character tables and the pattern matcher are parameters: \<open>FsRtlTestAnsiCharacter\<close>,
  \<open>FsRtlIsLeadDbcsCharacter\<close>, \<open>FsRtlIsAnsiCharacterLegalFat\<close>, \<open>FsRtlIsNameInExpression\<close>.
\<close>

section \<open>Data\<close>

text \<open>\<open>UNICODE_STRING\<close>: lengths in bytes and the characters from the buffer pointer on.\<close>

record unicode_string =
  us_Length :: u16
  us_MaximumLength :: u16
  us_Buffer :: wstr

abbreviation (input) FSRTL_NTFS_LEGAL :: u8 where "FSRTL_NTFS_LEGAL \<equiv> 0x04"
abbreviation (input) FSRTL_NTFS_STREAM_LEGAL :: u8 where "FSRTL_NTFS_STREAM_LEGAL \<equiv> 0x14"
abbreviation (input) FspFileNameStreamTypeNone :: u32 where "FspFileNameStreamTypeNone \<equiv> 0"
abbreviation (input) FspFileNameStreamTypeData :: u32 where "FspFileNameStreamTypeData \<equiv> 1"

type_synonym test_char = "wchar \<Rightarrow> bool \<Rightarrow> bool \<Rightarrow> u8 \<Rightarrow> bool"

text \<open>The characters of a string, those below its length.\<close>

definition us_chars :: "unicode_string \<Rightarrow> wstr" where
  "us_chars s = take (unat (us_Length s) div 2) (us_Buffer s)"

section \<open>Valid file names\<close>

text \<open>
  The loop: \<open>ComponentLength\<close> is \<open>PathPtr - ComponentPtr\<close>. The result is whether the loop came to
  the end, and \<open>Colons\<close>, the component length, \<open>*StreamPart\<close> and \<open>StreamTypeStr\<close> there.
\<close>

fun name_loop :: "test_char \<Rightarrow> nat \<Rightarrow> wstr \<Rightarrow> u8 \<Rightarrow> nat \<Rightarrow> nat \<Rightarrow> unicode_string option \<Rightarrow>
    wstr option \<Rightarrow> bool \<times> nat \<times> nat \<times> unicode_string option \<times> wstr option" where
  "name_loop test MaxComponentLength [] Flags Colons ComponentLength StreamPart StreamTypeStr =
     (True, Colons, ComponentLength, StreamPart, StreamTypeStr)"
| "name_loop test MaxComponentLength (Chr # PathPtr) Flags Colons ComponentLength StreamPart StreamTypeStr =
     (if Chr = 0x5c then
        (if 0 < Colons then (False, Colons, ComponentLength, StreamPart, StreamTypeStr)
         else if ComponentLength > MaxComponentLength
         then (False, Colons, ComponentLength, StreamPart, StreamTypeStr)
         else if PathPtr \<noteq> [] \<and> hd PathPtr = 0x5c
         then (False, Colons, 0, StreamPart, StreamTypeStr)
         else name_loop test MaxComponentLength PathPtr Flags Colons 0 StreamPart StreamTypeStr)
      else if Chr = 0x3a then
        (case StreamPart of
           None \<Rightarrow> (False, Colons, ComponentLength, StreamPart, StreamTypeStr)
         | Some part \<Rightarrow>
             (let Flags = FSRTL_NTFS_STREAM_LEGAL;
                  Colons = Colons + 1;
                  (part, StreamTypeStr) =
                    (if Colons = 1 then
                       (\<lparr>us_Length = of_nat (2 * length PathPtr),
                         us_MaximumLength = of_nat (2 * length PathPtr),
                         us_Buffer = PathPtr\<rparr>, StreamTypeStr)
                     else if Colons = 2 then
                       (part\<lparr>us_Length := of_nat (2 * (length (us_Buffer part) - length PathPtr) - 2)\<rparr>,
                        Some PathPtr)
                     else (part, StreamTypeStr))
              in name_loop test MaxComponentLength PathPtr Flags Colons (ComponentLength + 1)
                   (Some part) StreamTypeStr))
      else if 0x80 > Chr \<and> \<not> test Chr True False Flags
      then (False, Colons, ComponentLength, StreamPart, StreamTypeStr)
      else name_loop test MaxComponentLength PathPtr Flags Colons (ComponentLength + 1)
             StreamPart StreamTypeStr)"

definition is_data :: "wstr \<Rightarrow> bool" where
  "is_data StreamTypeStr \<longleftrightarrow> length StreamTypeStr = 5 \<and> StreamTypeStr ! 0 = 0x24
     \<and> StreamTypeStr ! 1 OR 0x20 = 0x64 \<and> StreamTypeStr ! 2 OR 0x20 = 0x61
     \<and> StreamTypeStr ! 3 OR 0x20 = 0x74 \<and> StreamTypeStr ! 4 OR 0x20 = 0x61"

text \<open>The result, \<open>*StreamPart\<close> when the caller gave one, and \<open>*StreamType\<close>.\<close>

definition FspFileNameIsValid :: "test_char \<Rightarrow> unicode_string \<Rightarrow> u32 \<Rightarrow> unicode_string option \<Rightarrow> u32 \<Rightarrow>
    bool \<times> unicode_string option \<times> u32" where
  "FspFileNameIsValid test Path MaxComponentLength StreamPart StreamType =
     (if us_Length Path = 0 \<or> us_Length Path mod 2 \<noteq> 0 then (False, StreamPart, StreamType)
      else
        (case name_loop test (unat MaxComponentLength) (us_chars Path) FSRTL_NTFS_LEGAL 0 0 StreamPart None of
           (ok, Colons, ComponentLength, StreamPart, StreamTypeStr) \<Rightarrow>
             (if \<not> ok then (False, StreamPart, StreamType)
              else if ComponentLength > unat MaxComponentLength then (False, StreamPart, StreamType)
              else if Colons = 0 then (True, StreamPart, StreamType)
              else
                (let StreamType = FspFileNameStreamTypeNone
                 in case StreamTypeStr of
                      None \<Rightarrow> (us_Length (the StreamPart) \<noteq> 0, StreamPart, StreamType)
                    | Some t \<Rightarrow> if is_data t then (True, StreamPart, FspFileNameStreamTypeData)
                        else (False, StreamPart, StreamType)))))"

section \<open>Valid patterns and names of extended attributes\<close>

fun pattern_loop :: "test_char \<Rightarrow> wstr \<Rightarrow> bool" where
  "pattern_loop test [] \<longleftrightarrow> True"
| "pattern_loop test (Chr # PathPtr) \<longleftrightarrow>
     (if Chr = 0x5c then False
      else if Chr = 0x3a then False
      else if 0x80 > Chr \<and> \<not> test Chr True True FSRTL_NTFS_LEGAL then False
      else pattern_loop test PathPtr)"

definition FspFileNameIsValidPattern :: "test_char \<Rightarrow> unicode_string \<Rightarrow> u32 \<Rightarrow> bool" where
  "FspFileNameIsValidPattern test Path MaxComponentLength \<longleftrightarrow>
     (if us_Length Path mod 2 \<noteq> 0 then False
      else if \<not> pattern_loop test (us_chars Path) then False
      else if length (us_chars Path) > unat MaxComponentLength then False
      else True)"

fun ea_loop :: "(u8 \<Rightarrow> bool) \<Rightarrow> (u8 \<Rightarrow> bool \<Rightarrow> bool) \<Rightarrow> bytes \<Rightarrow> bool" where
  "ea_loop lead legal [] \<longleftrightarrow> True"
| "ea_loop lead legal (Chr # NamePtr) \<longleftrightarrow>
     (if lead Chr then ea_loop lead legal (drop 1 NamePtr)
      else if \<not> legal Chr False then False
      else ea_loop lead legal NamePtr)"

text \<open>\<open>Length\<close> and the bytes of the \<open>STRING\<close>.\<close>

definition FspEaNameIsValid :: "(u8 \<Rightarrow> bool) \<Rightarrow> (u8 \<Rightarrow> bool \<Rightarrow> bool) \<Rightarrow> u16 \<Rightarrow> bytes \<Rightarrow> bool" where
  "FspEaNameIsValid lead legal Length Buffer \<longleftrightarrow>
     (if Length = 0 \<or> Length > 254 then False else ea_loop lead legal (take (unat Length) Buffer))"

section \<open>The last component\<close>

text \<open>\<open>RemainEnd\<close> and \<open>SuffixBgn\<close> as the characters from there on.\<close>

fun skip_separators :: "wstr \<Rightarrow> wstr" where
  "skip_separators [] = []"
| "skip_separators (c # PathPtr) = (if c = 0x5c then skip_separators PathPtr else c # PathPtr)"

lemma skip_separators_length: "length (skip_separators p) \<le> length p"
  by (induction p) auto

function suffix_loop :: "wstr \<Rightarrow> wstr \<Rightarrow> wstr \<Rightarrow> wstr \<times> wstr" where
  "suffix_loop [] RemainEnd SuffixBgn = (RemainEnd, SuffixBgn)"
| "suffix_loop (c # PathPtr) RemainEnd SuffixBgn =
     (if c = 0x5c then
        (let RemainEnd = c # PathPtr;
             PathPtr = skip_separators PathPtr
         in suffix_loop PathPtr RemainEnd PathPtr)
      else suffix_loop PathPtr RemainEnd SuffixBgn)"
  by pat_completeness auto
termination
  by (relation "measure (\<lambda>(p, _). length p)") (auto simp: le_imp_less_Suc skip_separators_length)

text \<open>\<open>Remain\<close> and \<open>Suffix\<close>.\<close>

definition FspFileNameSuffix :: "unicode_string \<Rightarrow> unicode_string \<times> unicode_string" where
  "FspFileNameSuffix Path =
     (let PathBgn = us_chars Path;
          (RemainEnd, SuffixBgn) = suffix_loop PathBgn [] [];
          n = of_nat (2 * (length PathBgn - length RemainEnd));
          Remain = \<lparr>us_Length = n, us_MaximumLength = n, us_Buffer = PathBgn\<rparr>;
          Remain = (if us_Length Remain = 0 \<and> PathBgn \<noteq> [] \<and> hd PathBgn = 0x5c
            then Remain\<lparr>us_Length := 2, us_MaximumLength := 2\<rparr> else Remain)
      in (Remain, \<lparr>us_Length = of_nat (2 * length SuffixBgn), us_MaximumLength = of_nat (2 * length SuffixBgn),
            us_Buffer = SuffixBgn\<rparr>))"

section \<open>Matching\<close>

text \<open>The matcher answers, or raises an exception with a status code.\<close>

definition FspFileNameInExpression ::
  "(unicode_string \<Rightarrow> unicode_string \<Rightarrow> bool \<Rightarrow> ntstatus + bool) \<Rightarrow> unicode_string \<Rightarrow> unicode_string \<Rightarrow>
   bool \<Rightarrow> bool \<Rightarrow> ntstatus \<times> bool" where
  "FspFileNameInExpression FsRtlIsNameInExpression Expression Name' IgnoreCase Result =
     (case FsRtlIsNameInExpression Expression Name' IgnoreCase of
        Inl code \<Rightarrow> (code, Result)
      | Inr r \<Rightarrow> (STATUS_SUCCESS, r))"

end
