(* ===== verification/NameProps.thy ===== *)
theory NameProps
  imports Name "HOL-Library.Sublist"
begin

text \<open>
  The grammar of valid names, and that the scanners of \<open>name.c\<close> accept exactly it; the split of a
  path at its last separators.
\<close>

section \<open>The grammar\<close>

fun components :: "wstr \<Rightarrow> wstr list" where
  "components [] = [[]]"
| "components (c # s) =
     (if c = 0x5c then [] # components s else (c # hd (components s)) # tl (components s))"

definition well_formed :: "unicode_string \<Rightarrow> bool" where
  "well_formed s \<longleftrightarrow> us_Length s \<noteq> 0 \<and> us_Length s mod 2 = 0"

definition legal :: "test_char \<Rightarrow> u8 \<Rightarrow> wchar \<Rightarrow> bool" where
  "legal test flags c \<longleftrightarrow> 0x80 \<le> c \<or> test c True False flags"

text \<open>A path of separators and legal characters, without two separators in a row.\<close>

definition valid_path :: "test_char \<Rightarrow> wstr \<Rightarrow> bool" where
  "valid_path test p \<longleftrightarrow> \<not> sublist [0x5c, 0x5c] p
     \<and> (\<forall>c \<in> set p. c \<noteq> 0x3a \<and> (c = 0x5c \<or> legal test FSRTL_NTFS_LEGAL c))"

definition short_components :: "nat \<Rightarrow> wstr \<Rightarrow> bool" where
  "short_components m p \<longleftrightarrow> (\<forall>c \<in> set (components p). length c \<le> m)"

definition valid_stream :: "test_char \<Rightarrow> wstr \<Rightarrow> bool" where
  "valid_stream test s \<longleftrightarrow>
     (\<forall>c \<in> set s. c \<noteq> 0x5c \<and> (c = 0x3a \<or> legal test FSRTL_NTFS_STREAM_LEGAL c))"

section \<open>The scanner\<close>

lemma components_not_Nil [simp]: "components s \<noteq> []"
  by (cases s) auto

text \<open>The scanner before the first colon: \<open>n\<close> characters of the component were seen.\<close>

fun path_ok :: "test_char \<Rightarrow> nat \<Rightarrow> nat \<Rightarrow> wstr \<Rightarrow> bool" where
  "path_ok test m n [] \<longleftrightarrow> True"
| "path_ok test m n (c # f) \<longleftrightarrow>
     (if c = 0x5c then n \<le> m \<and> (f = [] \<or> hd f \<noteq> 0x5c) \<and> path_ok test m 0 f
      else c \<noteq> 0x3a \<and> legal test FSRTL_NTFS_LEGAL c \<and> path_ok test m (n + 1) f)"

fun end_length :: "nat \<Rightarrow> wstr \<Rightarrow> nat" where
  "end_length n [] = n"
| "end_length n (c # f) = (if c = 0x5c then end_length 0 f else end_length (n + 1) f)"

lemma sublist_pair: "sublist [c, d] (x # s) \<longleftrightarrow> (x = c \<and> s \<noteq> [] \<and> hd s = d) \<or> sublist [c, d] s"
  by (cases s) (auto simp: sublist_Cons_right)

text \<open>The length check at every separator.\<close>

fun inner_short :: "nat \<Rightarrow> nat \<Rightarrow> wstr \<Rightarrow> bool" where
  "inner_short m n [] \<longleftrightarrow> True"
| "inner_short m n (c # f) \<longleftrightarrow> (if c = 0x5c then n \<le> m \<and> inner_short m 0 f else inner_short m (n + 1) f)"

lemma path_ok_iff: "path_ok test m n f \<longleftrightarrow> valid_path test f \<and> inner_short m n f"
  by (induction f arbitrary: n) (auto simp: valid_path_def sublist_pair)

lemma inner_short_iff:
  "inner_short m n f \<and> end_length n f \<le> m \<longleftrightarrow>
     n + length (hd (components f)) \<le> m \<and> (\<forall>c \<in> set (tl (components f)). length c \<le> m)"
proof (induction f arbitrary: n)
  case (Cons c f)
  have "(\<forall>c \<in> set (components f). length c \<le> m) \<longleftrightarrow>
      length (hd (components f)) \<le> m \<and> (\<forall>c \<in> set (tl (components f)). length c \<le> m)"
    by (cases "components f") auto
  with Cons.IH [of 0] Cons.IH [of "n + 1"] show ?case by auto
qed simp

lemma short_iff: "short_components m f \<longleftrightarrow> inner_short m 0 f \<and> end_length 0 f \<le> m"
  unfolding inner_short_iff short_components_def by (cases "components f") auto

lemma no_separator:
  "0x5c \<notin> set s \<Longrightarrow> inner_short m n s"
  "0x5c \<notin> set s \<Longrightarrow> end_length n s = n + length s"
  by (induction s arbitrary: n) auto

lemma short_append:
  "0x5c \<notin> set s \<Longrightarrow> short_components m (f @ s) \<longleftrightarrow> inner_short m 0 f \<and> end_length 0 f + length s \<le> m"
proof -
  assume s: "0x5c \<notin> set s"
  have "inner_short m n (f @ s) \<longleftrightarrow> inner_short m n f" for n
    by (induction f arbitrary: n) (use s in \<open>auto simp: no_separator\<close>)
  moreover have "end_length n (f @ s) = end_length n f + length s" for n
    by (induction f arbitrary: n) (use s in \<open>auto simp: no_separator\<close>)
  ultimately show ?thesis unfolding short_iff by simp
qed

lemma separator_ahead:
  "r = [] \<or> hd r = 0x3a \<Longrightarrow> f @ r \<noteq> [] \<and> hd (f @ r) = (0x5c :: wchar) \<longleftrightarrow> f \<noteq> [] \<and> hd f = 0x5c"
  by (cases f) auto

lemma loop_separator:
  assumes "r = [] \<or> hd r = 0x3a"
  shows "name_loop test m (0x5c # f @ r) flags 0 n sp t =
    (if n > m then (False, 0, n, sp, t) else if f \<noteq> [] \<and> hd f = 0x5c then (False, 0, 0, sp, t)
     else name_loop test m (f @ r) flags 0 0 sp t)"
  using separator_ahead [OF assms, of f] by (simp only: name_loop.simps if_True refl less_irrefl if_False)

lemma loop_other:
  "c \<noteq> 0x5c \<Longrightarrow> c \<noteq> 0x3a \<Longrightarrow> name_loop test m (c # f) flags k n sp t =
    (if legal test flags c then name_loop test m f flags k (n + 1) sp t else (False, k, n, sp, t))"
  by (auto simp: legal_def not_less)

lemma loop_path:
  "path_ok test m n f \<Longrightarrow> r = [] \<or> hd r = 0x3a \<Longrightarrow>
     name_loop test m (f @ r) 0x04 0 n sp None = name_loop test m r 0x04 0 (end_length n f) sp None"
proof (induction f arbitrary: n)
  case (Cons c f)
  show ?case
  proof (cases "c = 0x5c")
    case True
    then show ?thesis using Cons by (auto simp: loop_separator [OF Cons.prems(2)] simp del: name_loop.simps)
  next
    case False
    then show ?thesis using Cons by (auto simp: loop_other simp del: name_loop.simps)
  qed
qed simp

lemma loop_path_bad:
  "\<not> path_ok test m n f \<Longrightarrow> 0x3a \<notin> set f \<Longrightarrow> r = [] \<or> hd r = 0x3a \<Longrightarrow>
     \<not> fst (name_loop test m (f @ r) 0x04 0 n sp None)"
proof (induction f arbitrary: n)
  case (Cons c f)
  show ?case
  proof (cases "c = 0x5c")
    case True
    then show ?thesis using Cons by (auto simp: loop_separator [OF Cons.prems(3)] simp del: name_loop.simps)
  next
    case False
    then show ?thesis using Cons by (auto simp: loop_other simp del: name_loop.simps)
  qed
qed simp

lemma valid_stream_simps [simp]: "valid_stream test []"
  "valid_stream test (c # s) \<longleftrightarrow>
     c \<noteq> 0x5c \<and> (c = 0x3a \<or> legal test FSRTL_NTFS_STREAM_LEGAL c) \<and> valid_stream test s"
  "valid_stream test (s @ t) \<longleftrightarrow> valid_stream test s \<and> valid_stream test t"
  by (auto simp: valid_stream_def)

lemma loop_stream:
  "valid_stream test s \<Longrightarrow> 0x3a \<notin> set s \<Longrightarrow>
     name_loop test m (s @ r) 0x14 k n sp t = name_loop test m r 0x14 k (n + length s) sp t"
  by (induction s arbitrary: n) (auto simp: loop_other simp del: name_loop.simps)

lemma loop_colon:
  "2 \<le> k \<Longrightarrow> name_loop test m (0x3a # s) flags k n (Some p) t =
     name_loop test m s 0x14 (Suc k) (Suc n) (Some p) t"
  by simp

lemma loop_type:
  "valid_stream test s \<Longrightarrow> 2 \<le> k \<Longrightarrow>
     \<exists>k' \<ge> 2. name_loop test m s 0x14 k n (Some p) t = (True, k', n + length s, Some p, t)"
proof (induction s arbitrary: k n)
  case (Cons x s)
  then show ?case
    using Cons.IH [of k "Suc n"] Cons.IH [of "Suc k" "Suc n"]
    by (cases "x = 0x3a") (simp_all add: loop_other loop_colon del: name_loop.simps)
qed simp

lemma loop_stream_bad:
  "\<not> valid_stream test s \<Longrightarrow> 0 < k \<Longrightarrow> \<not> fst (name_loop test m s 0x14 k n (Some p) t)"
proof (induction s arbitrary: k n p t)
  case (Cons x s)
  consider "x = 0x5c" | "x = 0x3a" | "x \<noteq> 0x5c" "x \<noteq> 0x3a" by blast
  then show ?case
  proof cases
    case 2
    then have "\<not> valid_stream test s" using Cons.prems by simp
    then show ?thesis using 2 Cons.IH [of "Suc k"] Cons.prems(2) by (cases "k = 1") (simp_all add: Let_def)
  next
    case 3
    then show ?thesis using Cons by (simp add: loop_other del: name_loop.simps)
  qed (use Cons.prems in simp)
qed simp

section \<open>Lengths\<close>

lemma us_chars_length: "length (us_chars s) < 0x8000"
proof -
  have "unat (us_Length s) < 0x10000" using unsigned_less [where ?'a = nat, of "us_Length s"] by simp
  then show ?thesis by (simp add: us_chars_def min_def) linarith
qed

lemma unat_double: "n < 0x8000 \<Longrightarrow> unat (of_nat (2 * n) :: u16) = 2 * n"
  by (simp only: unat_of_nat) simp

lemma us_chars_pointer:
  "n < 0x8000 \<Longrightarrow> us_chars \<lparr>us_Length = of_nat (2 * n), us_MaximumLength = ml, us_Buffer = s\<rparr> = take n s"
  unfolding us_chars_def by (simp only: unicode_string.simps unat_double) simp

lemma double_eq_0: "n < 0x8000 \<Longrightarrow> (of_nat (2 * n) :: u16) = 0 \<longleftrightarrow> n = 0"
  using unat_double [of n] by (metis mult_is_0 unat_0 zero_neq_numeral of_nat_0 mult_0_right)

section \<open>The result\<close>

lemma valid_by_loop:
  "well_formed P \<Longrightarrow>
     FspFileNameIsValid test P mx sp st =
       (case name_loop test (unat mx) (us_chars P) FSRTL_NTFS_LEGAL 0 0 sp None of
           (ok, k, n, sp, t) \<Rightarrow>
             (if \<not> ok \<or> n > unat mx then (False, sp, st)
              else if k = 0 then (True, sp, st)
              else (case t of
                  None \<Rightarrow> (us_Length (the sp) \<noteq> 0, sp, FspFileNameStreamTypeNone)
                | Some t \<Rightarrow> if is_data t then (True, sp, FspFileNameStreamTypeData)
                    else (False, sp, FspFileNameStreamTypeNone))))"
  by (simp add: FspFileNameIsValid_def well_formed_def Let_def split: prod.splits)

lemma not_well_formed: "\<not> well_formed P \<Longrightarrow> \<not> fst (FspFileNameIsValid test P mx sp st)"
  by (auto simp: FspFileNameIsValid_def well_formed_def)

lemma loop_fails:
  "well_formed P \<Longrightarrow> \<not> fst (name_loop test (unat mx) (us_chars P) FSRTL_NTFS_LEGAL 0 0 sp None) \<Longrightarrow>
     \<not> fst (FspFileNameIsValid test P mx sp st)"
  by (auto simp: valid_by_loop split: prod.splits)

lemma split_colon:
  "0x3a \<in> set (s :: wstr) \<Longrightarrow> \<exists>n t. s = n @ 0x3a # t \<and> 0x3a \<notin> set n"
  by (metis split_list_first)

text \<open>Without a colon the stream part stays as it is.\<close>

lemma valid_plain:
  assumes "well_formed P" "0x3a \<notin> set (us_chars P)"
  shows "if valid_path test (us_chars P) \<and> short_components (unat mx) (us_chars P)
    then FspFileNameIsValid test P mx sp st = (True, sp, st)
    else \<not> fst (FspFileNameIsValid test P mx sp st)"
proof (cases "path_ok test (unat mx) 0 (us_chars P)")
  case True
  then have "FspFileNameIsValid test P mx sp st = (end_length 0 (us_chars P) \<le> unat mx, sp, st)"
    using loop_path [OF True, of "[]" sp] assms(1) by (simp add: valid_by_loop not_less)
  then show ?thesis using True by (simp add: path_ok_iff short_iff)
next
  case False
  then have "\<not> fst (FspFileNameIsValid test P mx sp st)"
    using loop_path_bad [OF False assms(2), of "[]" sp] by (intro loop_fails [OF assms(1)]) simp
  then show ?thesis using False by (auto simp: path_ok_iff short_iff)
qed

lemma no_stream_colon:
  assumes "well_formed P" "0x3a \<in> set (us_chars P)"
  shows "\<not> fst (FspFileNameIsValid test P mx None st)"
proof -
  obtain f s where p: "us_chars P = f @ 0x3a # s" "0x3a \<notin> set f" using split_colon [OF assms(2)] by blast
  have "\<not> fst (name_loop test (unat mx) (us_chars P) FSRTL_NTFS_LEGAL 0 0 None None)"
  proof (cases "path_ok test (unat mx) 0 f")
    case True
    then show ?thesis using loop_path [OF True, of "0x3a # s" None] by (simp add: p(1))
  next
    case False
    then show ?thesis using loop_path_bad [OF False p(2), of "0x3a # s" None] by (simp add: p(1))
  qed
  then show ?thesis by (rule loop_fails [OF assms(1)])
qed

section \<open>Streams\<close>

text \<open>The name and the type of a stream: what is before and behind the second colon.\<close>

definition stream_name :: "wstr \<Rightarrow> wstr" where
  "stream_name s = takeWhile (\<lambda>c. c \<noteq> 0x3a) s"

definition stream_type :: "wstr \<Rightarrow> wstr option" where
  "stream_type s = (case dropWhile (\<lambda>c. c \<noteq> 0x3a) s of [] \<Rightarrow> None | c # t \<Rightarrow> Some t)"

lemma stream_parts: "0x3a \<notin> set n \<Longrightarrow> stream_name n = n \<and> stream_type n = None"
  "0x3a \<notin> set n \<Longrightarrow> stream_name (n @ 0x3a # t) = n \<and> stream_type (n @ 0x3a # t) = Some t"
proof -
  assume "0x3a \<notin> set n"
  then have "\<And>c. c \<in> set n \<Longrightarrow> c \<noteq> 0x3a" by auto
  then show "stream_name n = n \<and> stream_type n = None"
    and "stream_name (n @ 0x3a # t) = n \<and> stream_type (n @ 0x3a # t) = Some t"
    by (simp_all add: stream_name_def stream_type_def takeWhile_append2 dropWhile_append2
        takeWhile_eq_all_conv [THEN iffD2] dropWhile_eq_Nil_conv [THEN iffD2])
qed

definition good_type :: "wstr \<Rightarrow> bool" where
  "good_type s \<longleftrightarrow> (case stream_type s of None \<Rightarrow> s \<noteq> [] | Some t \<Rightarrow> is_data t)"

definition type_code :: "wstr \<Rightarrow> u32" where
  "type_code s = (if stream_type s = None then FspFileNameStreamTypeNone else FspFileNameStreamTypeData)"

lemma loop_second_colon: "name_loop test m (0x3a # t) flags 1 n (Some p) u =
    name_loop test m t 0x14 2 (n + 1)
      (Some (p\<lparr>us_Length := of_nat (2 * (length (us_Buffer p) - length t) - 2)\<rparr>)) (Some t)"
proof -
  have two: "(2 :: nat) = Suc (Suc 0)" by simp
  show ?thesis by (simp add: Let_def) (simp only: two)
qed

text \<open>The scanner behind the first colon.\<close>

lemma loop_first_colon:
  assumes "valid_stream test s" "length s < 0x8000"
  shows "\<exists>k part. 0 < k \<and> name_loop test m (0x3a # s) 0x04 0 n (Some sp) None =
      (True, k, n + 1 + length s, Some part, stream_type s)
    \<and> us_chars part = stream_name s \<and> (stream_type s = None \<longrightarrow> (us_Length part = 0 \<longleftrightarrow> s = []))"
proof (cases "0x3a \<in> set s")
  case False
  let ?p = "\<lparr>us_Length = of_nat (2 * length s), us_MaximumLength = of_nat (2 * length s), us_Buffer = s\<rparr>"
  have "name_loop test m (0x3a # s) 0x04 0 n (Some sp) None =
      name_loop test m (s @ []) 0x14 1 (n + 1) (Some ?p) None"
    by (simp add: Let_def)
  then show ?thesis
    using loop_stream [OF assms(1) False, of m "[]" 1 "n + 1"] us_chars_pointer [OF assms(2)]
      double_eq_0 [OF assms(2)] stream_parts(1) [OF False]
    by (intro exI [of _ 1] exI [of _ ?p]) simp
next
  case True
  then obtain a t where s: "s = a @ 0x3a # t" "0x3a \<notin> set a" using split_colon by blast
  let ?p = "\<lparr>us_Length = of_nat (2 * length s), us_MaximumLength = of_nat (2 * length s), us_Buffer = s\<rparr>"
  let ?q = "\<lparr>us_Length = of_nat (2 * length a), us_MaximumLength = of_nat (2 * length s), us_Buffer = s\<rparr>"
  have "name_loop test m (0x3a # s) 0x04 0 n (Some sp) None =
      name_loop test m (a @ 0x3a # t) 0x14 1 (n + 1) (Some ?p) None"
    by (simp add: Let_def s)
  also have "\<dots> = name_loop test m (0x3a # t) 0x14 1 (n + 1 + length a) (Some ?p) None"
    using loop_stream [OF _ s(2)] assms(1) s(1) by simp
  also have "\<dots> = name_loop test m t 0x14 2 (n + 1 + length a + 1) (Some ?q) (Some t)"
    by (subst loop_second_colon) (simp add: s(1))
  finally have l: "name_loop test m (0x3a # s) 0x04 0 n (Some sp) None =
      name_loop test m t 0x14 2 (n + 1 + length a + 1) (Some ?q) (Some t)" .
  obtain k where "2 \<le> k" "name_loop test m t 0x14 2 (n + 1 + length a + 1) (Some ?q) (Some t) =
      (True, k, n + 1 + length a + 1 + length t, Some ?q, Some t)"
    using loop_type [of test t 2 m "n + 1 + length a + 1" ?q "Some t"] assms(1) s(1) by auto
  moreover have "us_chars ?q = a" using assms(2) by (subst us_chars_pointer) (simp_all add: s(1))
  ultimately show ?thesis
    using l stream_parts(2) [OF s(2), of t] by (intro exI [of _ k] exI [of _ ?q]) (simp add: s(1))
qed

lemma valid_with_stream:
  assumes "well_formed P" "us_chars P = f @ 0x3a # s" "0x3a \<notin> set f"
  shows "if valid_path test f \<and> valid_stream test s \<and> short_components (unat mx) (us_chars P) \<and> good_type s
    then \<exists>part. FspFileNameIsValid test P mx (Some sp) st = (True, Some part, type_code s)
      \<and> us_chars part = stream_name s
    else \<not> fst (FspFileNameIsValid test P mx (Some sp) st)"
proof (cases "path_ok test (unat mx) 0 f \<and> valid_stream test s")
  case True
  let ?n = "end_length 0 f + 1 + length s"
  have l: "length s < 0x8000" using us_chars_length [of P] by (simp add: assms(2))
  have c: "0x5c \<notin> set (0x3a # s)" using True by (auto simp: valid_stream_def)
  obtain k part where p: "0 < k" "name_loop test (unat mx) (us_chars P) 0x04 0 0 (Some sp) None =
      (True, k, ?n, Some part, stream_type s)" "us_chars part = stream_name s"
      "stream_type s = None \<longrightarrow> (us_Length part = 0 \<longleftrightarrow> s = [])"
    using loop_path [of test "unat mx" 0 f "0x3a # s" "Some sp"] True
      loop_first_colon [of test s "unat mx" "end_length 0 f" sp] l
    by (auto simp: assms(2) simp del: name_loop.simps)
  have "short_components (unat mx) (us_chars P) \<longleftrightarrow> ?n \<le> unat mx" "valid_path test f"
    using True by (simp_all add: assms(2) short_append [OF c] path_ok_iff)
  then show ?thesis using p True
    by (auto simp: valid_by_loop [OF assms(1)] good_type_def type_code_def not_less split: option.splits)
next
  case False
  have "\<not> fst (name_loop test (unat mx) (us_chars P) 0x04 0 0 (Some sp) None)"
  proof (cases "path_ok test (unat mx) 0 f")
    case True
    with False loop_stream_bad [of test s 1] show ?thesis
      using loop_path [OF True, of "0x3a # s" "Some sp"] by (simp add: assms(2) Let_def)
  next
    case False
    then show ?thesis using loop_path_bad [OF False assms(3), of "0x3a # s"] by (simp add: assms(2))
  qed
  then have n: "\<not> fst (FspFileNameIsValid test P mx (Some sp) st)" by (rule loop_fails [OF assms(1)])
  have "\<not> (valid_path test f \<and> valid_stream test s \<and> short_components (unat mx) (us_chars P))"
  proof
    assume v: "valid_path test f \<and> valid_stream test s \<and> short_components (unat mx) (us_chars P)"
    then have "0x5c \<notin> set (0x3a # s)" by (auto simp: valid_stream_def)
    with v False show False by (simp add: assms(2) short_append path_ok_iff)
  qed
  then show ?thesis using n by auto
qed

section \<open>The last component\<close>

lemma suffix_no_separator: "0x5c \<notin> set b \<Longrightarrow> suffix_loop (a @ b) r s = suffix_loop (a @ b) r s \<and>
    suffix_loop b r s = (r, s)"
  by (induction b) auto

lemma skip_replicate: "0x5c \<notin> set b \<Longrightarrow> skip_separators (replicate k 0x5c @ b) = b"
  by (induction k) (cases b; auto)+

lemma skip_last: "b \<noteq> [] \<Longrightarrow> last b \<noteq> 0x5c \<Longrightarrow>
    skip_separators (b @ t) = skip_separators b @ t \<and> skip_separators b \<noteq> [] \<and> last (skip_separators b) \<noteq> 0x5c"
  by (induction b) (auto split: if_splits)

text \<open>The scan over a prefix that does not end in a separator leaves only a suffix to be found.\<close>

lemma suffix_prefix:
  "a = [] \<or> last a \<noteq> 0x5c \<Longrightarrow> \<exists>r' s'. suffix_loop (a @ t) r s = suffix_loop t r' s'"
proof (induction "length a" arbitrary: a r s rule: less_induct)
  case less
  show ?case
  proof (cases a)
    case Nil
    then show ?thesis by auto
  next
    case (Cons c a')
    show ?thesis
    proof (cases "c = 0x5c")
      case True
      with Cons less.prems have a': "a' \<noteq> []" "last a' \<noteq> 0x5c" by (auto split: if_splits)
      with less.hyps [of "skip_separators a'"] skip_last [OF a', of t] Cons True
      show ?thesis using skip_separators_length [of a'] by (simp add: Let_def le_imp_less_Suc)
    next
      case False
      with less.hyps [of a'] Cons less.prems show ?thesis by (cases "a' = []") auto
    qed
  qed
qed

lemma suffix_split:
  assumes "a = [] \<or> last a \<noteq> 0x5c" "0x5c \<notin> set b"
  shows "suffix_loop (a @ replicate (Suc k) 0x5c @ b) r s = (replicate (Suc k) 0x5c @ b, b)"
proof -
  obtain r' s' where "suffix_loop (a @ replicate (Suc k) 0x5c @ b) r s =
      suffix_loop (replicate (Suc k) 0x5c @ b) r' s'"
    using suffix_prefix [OF assms(1)] by blast
  then show ?thesis
    using skip_replicate [OF assms(2), of k] suffix_no_separator [OF assms(2)] by (simp add: Let_def)
qed

section \<open>Patterns and names of extended attributes\<close>

lemma pattern_valid_iff:
  "FspFileNameIsValidPattern test P mx \<longleftrightarrow> us_Length P mod 2 = 0 \<and> length (us_chars P) \<le> unat mx
     \<and> (\<forall>c \<in> set (us_chars P). c \<noteq> 0x5c \<and> c \<noteq> 0x3a \<and> (0x80 \<le> c \<or> test c True True FSRTL_NTFS_LEGAL))"
proof -
  have "pattern_loop test s \<longleftrightarrow>
      (\<forall>c \<in> set s. c \<noteq> 0x5c \<and> c \<noteq> 0x3a \<and> (0x80 \<le> c \<or> test c True True FSRTL_NTFS_LEGAL))" for s
    by (induction s) (auto simp: not_less)
  then show ?thesis by (auto simp: FspFileNameIsValidPattern_def not_less)
qed

text \<open>A name of one component stays valid as a pattern.\<close>

lemma name_is_pattern:
  assumes "\<And>c. test c True False FSRTL_NTFS_LEGAL \<Longrightarrow> test c True True FSRTL_NTFS_LEGAL"
    and "well_formed P" "valid_path test (us_chars P)" "0x5c \<notin> set (us_chars P)"
    and "short_components (unat mx) (us_chars P)"
  shows "FspFileNameIsValidPattern test P mx"
  using assms no_separator [OF assms(4), of 0]
  by (auto simp: pattern_valid_iff well_formed_def valid_path_def legal_def short_iff)

text \<open>Names of extended attributes: legal single bytes, and lead bytes with any byte behind them.\<close>

inductive ea_name :: "(u8 \<Rightarrow> bool) \<Rightarrow> (u8 \<Rightarrow> bool \<Rightarrow> bool) \<Rightarrow> bytes \<Rightarrow> bool" for lead fat where
  ea_end: "ea_name lead fat []"
| ea_single: "\<not> lead c \<Longrightarrow> fat c False \<Longrightarrow> ea_name lead fat s \<Longrightarrow> ea_name lead fat (c # s)"
| ea_double: "lead c \<Longrightarrow> ea_name lead fat s \<Longrightarrow> ea_name lead fat (c # d # s)"
| ea_cut: "lead c \<Longrightarrow> ea_name lead fat [c]"

inductive_cases ea_nameE [elim]: "ea_name lead fat (c # s)"

lemma ea_name_Cons:
  "ea_name lead fat (c # t) \<longleftrightarrow>
     (if lead c then ea_name lead fat (drop 1 t) else fat c False \<and> ea_name lead fat t)"
  by (cases t) (auto intro: ea_name.intros)

lemma ea_loop_iff: "ea_loop lead fat s \<longleftrightarrow> ea_name lead fat s"
  by (induction lead fat s rule: ea_loop.induct) (simp_all add: ea_name_Cons ea_end)

end
