(* ===== verification/NameClaims.thy ===== *)
theory NameClaims
  imports NameProps
begin

text \<open>
  The properties of file names: the scanners accept exactly the grammar, with the stream part and
  its type, and a path is split at its last separators.
\<close>

text \<open>A table of legal characters for the witnesses: letters, digits, dot and dollar.\<close>

definition sample_test :: test_char where
  "sample_test c def wild flags \<longleftrightarrow> (0x61 \<le> c \<and> c \<le> 0x7a) \<or> (0x41 \<le> c \<and> c \<le> 0x5a) \<or> c = 0x24
     \<or> (wild \<and> c = 0x2a)"

definition name_of :: "wstr \<Rightarrow> unicode_string" where
  "name_of s = \<lparr>us_Length = of_nat (2 * length s), us_MaximumLength = of_nat (2 * length s), us_Buffer = s\<rparr>"

text \<open>C22. Valid names with streams: for a well-formed string with a first colon, the scanner accepts
  exactly the names whose path part is valid, whose stream part has only legal characters and no
  separator, whose components are short enough (the last one with its stream) and whose stream type
  is absent, with a stream name, or \<open>$DATA\<close>; it then returns the name and the type of the stream.\<close>
theorem name_valid_with_stream:
  assumes "well_formed P" "us_chars P = f @ 0x3a # s" "0x3a \<notin> set f"
  shows "if valid_path test f \<and> valid_stream test s \<and> short_components (unat mx) (us_chars P) \<and> good_type s
    then \<exists>part. FspFileNameIsValid test P mx (Some sp) st = (True, Some part, type_code s)
      \<and> us_chars part = stream_name s
    else \<not> fst (FspFileNameIsValid test P mx (Some sp) st)"
  by (rule valid_with_stream [OF assms])

theorem name_valid_with_stream_witness:
  "\<exists>part. FspFileNameIsValid sample_test (name_of [0x5c, 0x66, 0x3a, 0x73, 0x3a, 0x24, 0x64, 0x41, 0x74, 0x61])
     255 (Some \<lparr>us_Length = 0, us_MaximumLength = 0, us_Buffer = []\<rparr>) 0 = (True, Some part, 1)
     \<and> us_chars part = [0x73]"
  using name_valid_with_stream [of "name_of [0x5c, 0x66, 0x3a, 0x73, 0x3a, 0x24, 0x64, 0x41, 0x74, 0x61]"
      "[0x5c, 0x66]" "[0x73, 0x3a, 0x24, 0x64, 0x41, 0x74, 0x61]" sample_test 255
      "\<lparr>us_Length = 0, us_MaximumLength = 0, us_Buffer = []\<rparr>" 0]
  by (simp add: name_of_def us_chars_def well_formed_def valid_path_def valid_stream_def legal_def
      sample_test_def short_components_def good_type_def type_code_def stream_type_def stream_name_def
      is_data_def sublist_pair word_le_nat_alt)

text \<open>Valid names without streams: when the caller asks for no stream part, the scanner accepts
  exactly the nonempty strings of whole characters that are paths of legal characters, without a
  colon or two separators in a row, all of whose components are short enough.\<close>
theorem name_valid_plain:
  shows "fst (FspFileNameIsValid test P mx None st) \<longleftrightarrow>
      well_formed P \<and> valid_path test (us_chars P) \<and> short_components (unat mx) (us_chars P)"
proof (cases "well_formed P")
  case True
  show ?thesis
  proof (cases "0x3a \<in> set (us_chars P)")
    case c: True
    then show ?thesis using no_stream_colon [OF True c] by (auto simp: valid_path_def)
  next
    case False
    then show ?thesis using valid_plain [OF True False, of test mx None st] True by (auto split: if_splits)
  qed
next
  case False
  then show ?thesis using not_well_formed by blast
qed

text \<open>The last component: \<open>Suffix\<close> is what is behind the last separator and \<open>Remain\<close> what is before
  the run of separators it belongs to, or the root when nothing is; without a separator \<open>Remain\<close> is
  the whole path and \<open>Suffix\<close> is empty.\<close>
theorem name_suffix:
  assumes "0x5c \<notin> set b" "a = [] \<or> last a \<noteq> 0x5c" "k = 0 \<Longrightarrow> a = []"
    and "us_chars P = a @ replicate k 0x5c @ b"
  shows "us_chars (fst (FspFileNameSuffix P)) = (if k = 0 then b else if a = [] then [0x5c] else a)
    \<and> us_chars (snd (FspFileNameSuffix P)) = (if k = 0 then [] else b)"
proof (cases k)
  case 0
  have l: "length b < 0x8000" using us_chars_length [of P] 0 assms(3,4) by simp
  have "suffix_loop b [] [] = ([], [])" using suffix_no_separator [OF assms(1)] by blast
  then show ?thesis using 0 assms us_chars_pointer [OF l] us_chars_pointer [of 0]
    by (cases b) (auto simp: FspFileNameSuffix_def Let_def)
next
  case (Suc j)
  have l: "length a < 0x8000" "length b < 0x8000" using us_chars_length [of P] assms(4) by simp_all
  let ?l = "\<lambda>s n. \<lparr>us_Length = of_nat (2 * n), us_MaximumLength = of_nat (2 * n), us_Buffer = s\<rparr>"
  have p: "us_chars P = a @ replicate (Suc j) 0x5c @ b" using assms(4) Suc by simp
  have "suffix_loop (us_chars P) [] [] = (replicate (Suc j) 0x5c @ b, b)"
    unfolding p by (rule suffix_split [OF assms(2,1)])
  then have F: "FspFileNameSuffix P =
      (if (of_nat (2 * length a) :: u16) = 0 \<and> us_chars P \<noteq> [] \<and> hd (us_chars P) = 0x5c
       then \<lparr>us_Length = 2, us_MaximumLength = 2, us_Buffer = us_chars P\<rparr> else ?l (us_chars P) (length a),
       ?l b (length b))"
    by (simp add: FspFileNameSuffix_def Let_def p)
  show ?thesis
    unfolding F double_eq_0 [OF l(1)] using us_chars_pointer [OF l(1)] us_chars_pointer [OF l(2)] Suc p
    by (cases "a = []") (simp_all add: us_chars_def [of "\<lparr>us_Length = 2, us_MaximumLength = u, us_Buffer = s\<rparr>" for u s]
        del: of_nat_mult)
qed

theorem name_suffix_witness:
  "us_chars (fst (FspFileNameSuffix (name_of [0x5c, 0x64, 0x5c, 0x66]))) = [0x5c, 0x64]"
  using name_suffix [of "[0x66]" "[0x5c, 0x64]" 1 "name_of [0x5c, 0x64, 0x5c, 0x66]"]
  by (simp add: name_of_def us_chars_def)

end
