(* ===== verification/PsBuffer.thy ===== *)
theory PsBuffer
  imports Buckets Ioq
begin

text \<open>
  The pool of transfer buffers that every process keeps (\<open>src/sys/psbuffer.c\<close>). A free entry of a
  process stands in the list of its item; an acquired one belongs to whoever has the cookie. The
  code releases the lock in \<open>FspProcessBufferAcquire\<close> to allocate memory, so each locked section
  is a definition of its own. Memory managers and the current process are parameters; the state
  records what was returned to them.
\<close>

section \<open>State\<close>

text \<open>\<open>entry_ptr\<close> is the address of the list entry, which is the cookie, and \<open>0\<close> is null.\<close>

record buffer_entry =
  entry_ptr :: ptr
  entry_Buffer :: ptr

record buffer_item =
  BufferList :: "buffer_entry list"
  BufferCount :: u32
  ProcessId :: ptr

record ps_state =
  ProcessBufferBuckets :: "buffer_item list list"
  FreedEntries :: "ptr list"
  FreedItems :: nat
  FreedBuffers :: "ptr list"

text \<open>
  The answers of the system to one call: the current process, the addresses of a new entry and a
  new item (null on failure), and \<open>ZwAllocateVirtualMemory\<close>.
\<close>

record ps_env =
  CurrentProcessId :: ptr
  AllocEntry :: ptr
  AllocItem :: bool
  AllocateVirtualMemory :: "u64 \<Rightarrow> ntstatus \<times> ptr"

abbreviation (input) ProcessBufferBucketCount :: nat where "ProcessBufferBucketCount \<equiv> 61"
abbreviation (input) FspProcessBufferSizeMax :: u64 where "FspProcessBufferSizeMax \<equiv> 0x10000"

definition FspProcessBufferCountMax :: "u32 \<Rightarrow> u32" where
  "FspProcessBufferCountMax FspProcessorCount =
     (if 2 \<ge> FspProcessorCount then 2 else if 8 \<le> FspProcessorCount then 8 else FspProcessorCount)"

definition process_hash_index :: "ptr \<Rightarrow> nat" where
  "process_hash_index pid = hash_pointer ProcessBufferBucketCount pid"

section \<open>The hash table\<close>

definition FspProcessBufferLookupItemAtDpcLevel :: "ps_state \<Rightarrow> ptr \<Rightarrow> buffer_item option" where
  "FspProcessBufferLookupItemAtDpcLevel s pid =
     bucket_find process_hash_index ProcessId (ProcessBufferBuckets s) pid"

definition FspProcessBufferAddItemAtDpcLevel :: "ps_state \<Rightarrow> buffer_item \<Rightarrow> ps_state" where
  "FspProcessBufferAddItemAtDpcLevel s Item =
     s\<lparr>ProcessBufferBuckets := bucket_add process_hash_index ProcessId Item (ProcessBufferBuckets s)\<rparr>"

definition FspProcessBufferRemoveItemAtDpcLevel :: "ps_state \<Rightarrow> ptr \<Rightarrow> buffer_item option \<times> ps_state" where
  "FspProcessBufferRemoveItemAtDpcLevel s pid =
     (let (Item, bs) = bucket_remove process_hash_index ProcessId pid (ProcessBufferBuckets s)
      in (Item, s\<lparr>ProcessBufferBuckets := bs\<rparr>))"

text \<open>A change of the item that a lookup found, in place.\<close>

fun change_first :: "('v \<Rightarrow> bool) \<Rightarrow> ('v \<Rightarrow> 'v) \<Rightarrow> 'v list \<Rightarrow> 'v list" where
  "change_first P f [] = []"
| "change_first P f (v # vs) = (if P v then f v # vs else v # change_first P f vs)"

definition change_item :: "ptr \<Rightarrow> (buffer_item \<Rightarrow> buffer_item) \<Rightarrow> ps_state \<Rightarrow> ps_state" where
  "change_item pid f s =
     (let bs = ProcessBufferBuckets s; h = process_hash_index pid
      in s\<lparr>ProcessBufferBuckets := bs[h := change_first (\<lambda>i. ProcessId i = pid) f (bs ! h)]\<rparr>)"

section \<open>Acquiring and releasing\<close>

definition free_entry :: "buffer_entry \<Rightarrow> ps_state \<Rightarrow> ps_state" where
  "free_entry e s = s\<lparr>FreedEntries := FreedEntries s @ [entry_ptr e]\<rparr>"

definition free_virtual :: "ptr \<Rightarrow> ps_state \<Rightarrow> ps_state" where
  "free_virtual p s = s\<lparr>FreedBuffers := FreedBuffers s @ [p]\<rparr>"

definition FspProcessBufferReuseEntry :: "ps_state \<Rightarrow> ptr \<Rightarrow> buffer_entry \<Rightarrow> ps_state" where
  "FspProcessBufferReuseEntry s pid BufferEntry =
     (case FspProcessBufferLookupItemAtDpcLevel s pid of
        Some Item \<Rightarrow> change_item pid (\<lambda>i. i\<lparr>BufferList := BufferEntry # BufferList i\<rparr>) s
      | None \<Rightarrow>
          free_entry BufferEntry
            (if entry_Buffer BufferEntry \<noteq> 0 then free_virtual (entry_Buffer BufferEntry) s else s))"

text \<open>The first locked section: a free entry, or that the process has its share already.\<close>

definition acquire_section1 :: "u32 \<Rightarrow> ps_state \<Rightarrow> ptr \<Rightarrow> buffer_entry option \<times> bool \<times> ps_state" where
  "acquire_section1 cpus s pid =
     (let Item = FspProcessBufferLookupItemAtDpcLevel s pid;
          (BufferEntry, s) =
            (case Item of
               None \<Rightarrow> (None, s)
             | Some i \<Rightarrow> (case BufferList i of
                   [] \<Rightarrow> (None, s)
                 | e # rest \<Rightarrow> (Some e, change_item pid (\<lambda>i. i\<lparr>BufferList := rest\<rparr>) s)));
          AllocNoReuse = (BufferEntry = None \<and>
            (case Item of None \<Rightarrow> False | Some i \<Rightarrow> FspProcessBufferCountMax cpus \<le> BufferCount i))
      in (BufferEntry, AllocNoReuse, s))"

text \<open>
  The second locked section counts the new entry. The result says whether the new item is in the
  table, and whether the process had its share by now.
\<close>

definition acquire_section2 :: "u32 \<Rightarrow> ps_state \<Rightarrow> ptr \<Rightarrow> bool \<times> bool \<times> ps_state" where
  "acquire_section2 cpus s pid =
     (case FspProcessBufferLookupItemAtDpcLevel s pid of
        None \<Rightarrow> (True, False,
          FspProcessBufferAddItemAtDpcLevel s \<lparr>BufferList = [], BufferCount = 1, ProcessId = pid\<rparr>)
      | Some Item \<Rightarrow>
          (if FspProcessBufferCountMax cpus > BufferCount Item
           then (False, False, change_item pid (\<lambda>i. i\<lparr>BufferCount := BufferCount i + 1\<rparr>) s)
           else (False, True, s)))"

text \<open>The status, the cookie, the buffer; an entry that the caller holds is its cookie.\<close>

definition alloc_no_reuse :: "ps_env \<Rightarrow> u64 \<Rightarrow> ps_state \<Rightarrow> ntstatus \<times> buffer_entry option \<times> ptr \<times> ps_state" where
  "alloc_no_reuse env BufferSize s =
     (let (Result, p) = AllocateVirtualMemory env BufferSize
      in (Result, None, if NT_SUCCESS Result then p else 0, s))"

definition acquire_finish ::
  "ps_env \<Rightarrow> buffer_entry \<Rightarrow> ps_state \<Rightarrow> ntstatus \<times> buffer_entry option \<times> ptr \<times> ps_state" where
  "acquire_finish env BufferEntry s =
     (if entry_Buffer BufferEntry = 0 then
        (let (Result, p) = AllocateVirtualMemory env FspProcessBufferSizeMax
         in if \<not> NT_SUCCESS Result
            then (Result, None, 0, FspProcessBufferReuseEntry s (CurrentProcessId env) BufferEntry)
            else (STATUS_SUCCESS, Some (BufferEntry\<lparr>entry_Buffer := p\<rparr>), p, s))
      else (STATUS_SUCCESS, Some BufferEntry, entry_Buffer BufferEntry, s))"

text \<open>From the second locked section on, with the new entry; other threads may have run since the first.\<close>

definition acquire_counted ::
  "ps_env \<Rightarrow> u32 \<Rightarrow> u64 \<Rightarrow> buffer_entry \<Rightarrow> ps_state \<Rightarrow> ntstatus \<times> buffer_entry option \<times> ptr \<times> ps_state" where
  "acquire_counted env cpus BufferSize BufferEntry s =
     (let (used, AllocNoReuse, s) = acquire_section2 cpus s (CurrentProcessId env);
          s = (if used then s else s\<lparr>FreedItems := FreedItems s + 1\<rparr>)
      in if AllocNoReuse then alloc_no_reuse env BufferSize (free_entry BufferEntry s)
         else acquire_finish env BufferEntry s)"

definition FspProcessBufferAcquire ::
  "ps_env \<Rightarrow> u32 \<Rightarrow> u64 \<Rightarrow> ps_state \<Rightarrow> ntstatus \<times> buffer_entry option \<times> ptr \<times> ps_state" where
  "FspProcessBufferAcquire env cpus BufferSize s =
     (if FspProcessBufferSizeMax \<ge> BufferSize then
        (let pid = CurrentProcessId env
         in case acquire_section1 cpus s pid of
              (Some BufferEntry, _, s) \<Rightarrow> acquire_finish env BufferEntry s
            | (None, AllocNoReuse, s) \<Rightarrow>
                (if AllocNoReuse then alloc_no_reuse env BufferSize s
                 else if AllocEntry env = 0 then (STATUS_INSUFFICIENT_RESOURCES, None, 0, s)
                 else
                   let BufferEntry = \<lparr>entry_ptr = AllocEntry env, entry_Buffer = 0\<rparr>
                   in if \<not> AllocItem env
                      then (STATUS_INSUFFICIENT_RESOURCES, None, 0, free_entry BufferEntry s)
                      else
                        acquire_counted env cpus BufferSize BufferEntry s))
      else alloc_no_reuse env BufferSize s)"

definition FspProcessBufferRelease :: "ps_env \<Rightarrow> ps_state \<Rightarrow> buffer_entry option \<Rightarrow> ptr \<Rightarrow> ps_state" where
  "FspProcessBufferRelease env s BufferCookie Buffer =
     (case BufferCookie of
        Some BufferEntry \<Rightarrow> FspProcessBufferReuseEntry s (CurrentProcessId env) BufferEntry
      | None \<Rightarrow> free_virtual Buffer s)"

section \<open>The end of a process, the start and the end of the driver\<close>

definition free_item :: "buffer_item \<Rightarrow> ps_state \<Rightarrow> ps_state" where
  "free_item Item s = s\<lparr>FreedEntries := FreedEntries s @ map entry_ptr (BufferList Item),
     FreedItems := FreedItems s + 1\<rparr>"

definition FspProcessBufferCollect :: "ps_state \<Rightarrow> ptr \<Rightarrow> ps_state" where
  "FspProcessBufferCollect s pid =
     (case FspProcessBufferRemoveItemAtDpcLevel s pid of
        (None, s) \<Rightarrow> s
      | (Some Item, s) \<Rightarrow> free_item Item s)"

definition FspProcessBufferNotifyRoutine :: "ps_state \<Rightarrow> ptr \<Rightarrow> ptr \<Rightarrow> bool \<Rightarrow> ps_state" where
  "FspProcessBufferNotifyRoutine s ParentId pid Create =
     (if \<not> Create then FspProcessBufferCollect s pid else s)"

definition ProcessBufferInitial :: ps_state where
  "ProcessBufferInitial = \<lparr>ProcessBufferBuckets = replicate ProcessBufferBucketCount [],
     FreedEntries = [], FreedItems = 0, FreedBuffers = []\<rparr>"

definition FspProcessBufferFinalize :: "ps_state \<Rightarrow> ps_state" where
  "FspProcessBufferFinalize s =
     (fold (fold free_item) (ProcessBufferBuckets s) s)
       \<lparr>ProcessBufferBuckets := replicate ProcessBufferBucketCount []\<rparr>"

end
