(* ===== verification/PsBufferProps.thy ===== *)
theory PsBufferProps
  imports PsBuffer
begin

text \<open>
  The pool as a concurrent system: every locked section and every answer of the memory managers is
  a step. The invariant says that no entry and no buffer is in two places, and that the count of a
  process is the number of its entries, free or held, and never above its share.
\<close>

section \<open>Changing an element in place\<close>

lemma change_first_set: "find P xs = Some v \<Longrightarrow>
    mset (change_first P f xs) + {#v#} = mset xs + {#f v#}"
  by (induction xs) (auto split: if_splits)

lemma change_first_keys:
  "(\<And>v. key (f v) = key v) \<Longrightarrow> map key (change_first P f xs) = map key xs"
  by (induction xs) auto

context bucket_table
begin

lemma change_ok:
  assumes ok: "table_ok bs" and i: "lookup bs k = Some i" and f: "\<And>v. key (f v) = key v"
    and bs': "bs' = bs[hash k := change_first (\<lambda>v. key v = k) f (bs ! hash k)]"
  shows "table_ok bs'" "mset (concat bs') + {#i#} = mset (concat bs) + {#f i#}"
    "lookup bs' = (lookup bs)(k \<mapsto> f i)"
proof -
  let ?h = "hash k" and ?c = "change_first (\<lambda>v. key v = k) f (bs ! hash k)"
  have h: "?h < length bs" using ok hash_less by (simp add: table_ok_def)
  have c: "mset ?c + {#i#} = mset (bs ! ?h) + {#f i#}"
    using i by (intro change_first_set) (simp add: bucket_find_def)
  have "mset (concat bs') + mset (bs ! ?h) + {#i#} = mset (concat bs) + (mset ?c + {#i#})"
    using mset_concat_update [OF h, of ?c] by (simp add: bs' del: mset_concat)
  then show m: "mset (concat bs') + {#i#} = mset (concat bs) + {#f i#}" unfolding c by simp
  have keys: "map (map key) bs' = map (map key) bs"
    using f h by (simp add: bs' map_update change_first_keys list_update_same_conv)
  then have "map key (concat bs') = map key (concat bs)" by (simp add: map_concat)
  moreover have "\<forall>v \<in> set (bs' ! j). hash (key v) = j" if "j < n" for j
  proof -
    have j: "j < length bs" using that ok by (simp add: table_ok_def)
    then have "map key (bs' ! j) = map key (bs ! j)" using arg_cong [OF keys, of "\<lambda>x. x ! j"] by (simp add: bs')
    then have "key ` set (bs' ! j) = key ` set (bs ! j)" by (metis set_map)
    then show ?thesis using ok that by (auto simp: table_ok_def) (metis imageE imageI)
  qed
  ultimately show ok': "table_ok bs'" using ok by (simp add: table_ok_def bs' del: map_concat)
  have ki: "i \<in> set (concat bs)" "key i = k" using lookup_iff [OF ok] i by blast+
  have st: "insert i (set (concat bs')) = insert (f i) (set (concat bs))"
    using arg_cong [OF m, of set_mset] by (simp del: set_concat)
  have new: "f i \<in> set (concat bs')"
  proof (cases "f i = i")
    case True
    then have "mset (concat bs') = mset (concat bs)" using m by simp
    then show ?thesis using True ki(1) by (metis set_mset_mset)
  next
    case False
    have "f i \<in># mset (concat bs') + {#i#}" unfolding m by simp
    then show ?thesis using False by simp
  qed
  show "lookup bs' = (lookup bs)(k \<mapsto> f i)"
  proof
    fix j
    have "lookup bs' j = Some u \<longleftrightarrow> ((lookup bs)(k \<mapsto> f i)) j = Some u" for u
    proof (cases "j = k")
      case True
      have "lookup bs' k = Some (f i)"
        using lookup_iff [OF ok', of k "f i"] new f ki(2) by simp
      then show ?thesis using True by simp
    next
      case False
      then have "u \<in> set (concat bs') \<longleftrightarrow> u \<in> set (concat bs)" if "key u = j"
        using st that f ki(2) by (metis insert_iff)
      then show ?thesis using False lookup_iff [OF ok', of j u] lookup_iff [OF ok, of j u] by auto
    qed
    then show "lookup bs' j = ((lookup bs)(k \<mapsto> f i)) j" by (metis not_Some_eq)
  qed
qed

end

interpretation ps_tab: bucket_table process_hash_index ProcessId ProcessBufferBucketCount
  by unfold_locales (simp add: process_hash_index_def hash_pointer_def)

section \<open>The operations\<close>

abbreviation table_ok :: "ps_state \<Rightarrow> bool" where
  "table_ok s \<equiv> ps_tab.table_ok (ProcessBufferBuckets s)"

abbreviation items :: "ps_state \<Rightarrow> ptr \<Rightarrow> buffer_item option" where
  "items \<equiv> FspProcessBufferLookupItemAtDpcLevel"

definition item_entries :: "buffer_item \<Rightarrow> (ptr \<times> buffer_entry) multiset" where
  "item_entries i = image_mset (Pair (ProcessId i)) (mset (BufferList i))"

text \<open>All free entries, with the process they belong to.\<close>

definition free_entries :: "ps_state \<Rightarrow> (ptr \<times> buffer_entry) multiset" where
  "free_entries s = \<Sum>\<^sub># (image_mset item_entries (mset (concat (ProcessBufferBuckets s))))"

lemma log_simps [simp]:
  "items (free_entry e s) = items s" "items (free_virtual p s) = items s"
  "items (s\<lparr>FreedItems := n\<rparr>) = items s" "items (free_item i s) = items s"
  "free_entries (free_entry e s) = free_entries s" "free_entries (free_virtual p s) = free_entries s"
  "free_entries (s\<lparr>FreedItems := n\<rparr>) = free_entries s" "free_entries (free_item i s) = free_entries s"
  "ProcessBufferBuckets (free_entry e s) = ProcessBufferBuckets s"
  "ProcessBufferBuckets (free_virtual p s) = ProcessBufferBuckets s"
  "ProcessBufferBuckets (free_item i s) = ProcessBufferBuckets s"
  by (simp_all add: fun_eq_iff free_entry_def free_virtual_def free_item_def free_entries_def
      FspProcessBufferLookupItemAtDpcLevel_def)

lemma items_pid: "table_ok s \<Longrightarrow> items s pid = Some i \<Longrightarrow> ProcessId i = pid"
  unfolding FspProcessBufferLookupItemAtDpcLevel_def using ps_tab.lookup_iff by blast

lemma change_item_ok:
  assumes "table_ok s" "items s pid = Some i" "\<And>i. ProcessId (f i) = ProcessId i"
  shows "table_ok (change_item pid f s)" "items (change_item pid f s) = (items s)(pid \<mapsto> f i)"
    "free_entries (change_item pid f s) + item_entries i = free_entries s + item_entries (f i)"
proof -
  let ?s = "change_item pid f s"
  note c = ps_tab.change_ok [OF assms(1) _ assms(3) refl, of pid i]
  have i: "bucket_find process_hash_index ProcessId (ProcessBufferBuckets s) pid = Some i"
    using assms(2) by (simp add: FspProcessBufferLookupItemAtDpcLevel_def)
  have b: "ProcessBufferBuckets ?s = (ProcessBufferBuckets s)[process_hash_index pid :=
      change_first (\<lambda>v. ProcessId v = pid) f (ProcessBufferBuckets s ! process_hash_index pid)]"
    by (simp add: change_item_def Let_def)
  show "table_ok ?s" using c(1) [OF i] by (simp add: b)
  show "items ?s = (items s)(pid \<mapsto> f i)"
    using c(3) [OF i] by (simp add: fun_eq_iff b FspProcessBufferLookupItemAtDpcLevel_def)
  have "mset (concat (ProcessBufferBuckets ?s)) + {#i#} = mset (concat (ProcessBufferBuckets s)) + {#f i#}"
    using c(2) [OF i] by (simp only: b)
  from arg_cong [OF this, of "\<lambda>m. \<Sum>\<^sub># (image_mset item_entries m)"]
  show "free_entries ?s + item_entries i = free_entries s + item_entries (f i)"
    by (simp add: free_entries_def ac_simps del: mset_concat)
qed

lemma section1_ok:
  assumes ok: "table_ok s" and r: "acquire_section1 cpus s pid = (r, no_reuse, s')"
  shows "case r of
      Some e \<Rightarrow> \<exists>i rest. items s pid = Some i \<and> BufferList i = e # rest \<and> table_ok s'
        \<and> items s' = (items s)(pid \<mapsto> i\<lparr>BufferList := rest\<rparr>) \<and> free_entries s = free_entries s' + {#(pid, e)#}
    | None \<Rightarrow> s' = s \<and> (case items s pid of None \<Rightarrow> \<not> no_reuse
        | Some i \<Rightarrow> BufferList i = [] \<and> (no_reuse \<longleftrightarrow> FspProcessBufferCountMax cpus \<le> BufferCount i))"
proof (cases "items s pid")
  case None
  then show ?thesis using r by (auto simp: acquire_section1_def Let_def)
next
  case (Some i)
  show ?thesis
  proof (cases "BufferList i")
    case Nil
    then show ?thesis using r Some by (auto simp: acquire_section1_def Let_def)
  next
    case (Cons e rest)
    let ?f = "\<lambda>i. i\<lparr>BufferList := rest\<rparr>"
    have e: "r = Some e" "s' = change_item pid ?f s" using r Some Cons by (auto simp: acquire_section1_def Let_def)
    have "item_entries i = item_entries (?f i) + {#(pid, e)#}"
      using items_pid [OF ok Some] by (simp add: item_entries_def Cons)
    then have "free_entries s + item_entries (?f i) = free_entries s' + {#(pid, e)#} + item_entries (?f i)"
      using change_item_ok(3) [OF ok Some, of ?f] e(2) by (simp add: ac_simps)
    then have "free_entries s = free_entries s' + {#(pid, e)#}" by (simp only: add_right_cancel)
    then show ?thesis using change_item_ok(1,2) [OF ok Some, of ?f] e Some Cons by auto
  qed
qed

lemma section2_ok:
  assumes ok: "table_ok s" and r: "acquire_section2 cpus s pid = (used, no_reuse, s')"
  shows "table_ok s'" "free_entries s' = free_entries s"
    "no_reuse \<Longrightarrow> s' = s"
    "\<not> no_reuse \<Longrightarrow> items s' = (items s)(pid \<mapsto> (case items s pid of
        None \<Rightarrow> \<lparr>BufferList = [], BufferCount = 1, ProcessId = pid\<rparr>
      | Some i \<Rightarrow> i\<lparr>BufferCount := BufferCount i + 1\<rparr>))"
    "\<not> no_reuse \<Longrightarrow> items s pid = Some i \<Longrightarrow> BufferCount i < FspProcessBufferCountMax cpus"
proof -
  let ?new = "\<lparr>BufferList = [], BufferCount = 1, ProcessId = pid\<rparr>"
  let ?f = "\<lambda>i. i\<lparr>BufferCount := BufferCount i + 1\<rparr>"
  have "table_ok s' \<and> free_entries s' = free_entries s \<and> (no_reuse \<longrightarrow> s' = s) \<and>
    (\<not> no_reuse \<longrightarrow> items s' = (items s)(pid \<mapsto> (case items s pid of None \<Rightarrow> ?new | Some i \<Rightarrow> ?f i)))
    \<and> (\<not> no_reuse \<longrightarrow> (\<forall>i. items s pid = Some i \<longrightarrow> BufferCount i < FspProcessBufferCountMax cpus))"
  proof (cases "items s pid")
    case None
    then have s': "\<not> no_reuse" "s' = FspProcessBufferAddItemAtDpcLevel s ?new"
      using r by (auto simp: acquire_section2_def)
    have n: "bucket_find process_hash_index ProcessId (ProcessBufferBuckets s) (ProcessId ?new) = None"
      using None by (simp add: FspProcessBufferLookupItemAtDpcLevel_def)
    show ?thesis
      using None s' ps_tab.insert_ok [OF ok n]
      by (simp add: FspProcessBufferAddItemAtDpcLevel_def FspProcessBufferLookupItemAtDpcLevel_def
          fun_eq_iff free_entries_def item_entries_def del: mset_concat)
  next
    case (Some i)
    have "item_entries (?f i) = item_entries i" by (simp add: item_entries_def)
    then show ?thesis
      using r Some change_item_ok [OF ok Some, of ?f] ok
      by (auto simp: acquire_section2_def split: if_splits)
  qed
  then show "table_ok s'" "free_entries s' = free_entries s" "no_reuse \<Longrightarrow> s' = s"
    "\<not> no_reuse \<Longrightarrow> items s' = (items s)(pid \<mapsto> (case items s pid of None \<Rightarrow> ?new | Some i \<Rightarrow> ?f i))"
    "\<not> no_reuse \<Longrightarrow> items s pid = Some i \<Longrightarrow> BufferCount i < FspProcessBufferCountMax cpus"
    by blast+
qed

lemma reuse_ok:
  assumes ok: "table_ok s"
  shows "table_ok (FspProcessBufferReuseEntry s pid e)"
    "items s pid = Some i \<Longrightarrow> items (FspProcessBufferReuseEntry s pid e) =
      (items s)(pid \<mapsto> i\<lparr>BufferList := e # BufferList i\<rparr>)"
    "items s pid = Some i \<Longrightarrow> free_entries (FspProcessBufferReuseEntry s pid e) = free_entries s + {#(pid, e)#}"
    "items s pid = None \<Longrightarrow> items (FspProcessBufferReuseEntry s pid e) = items s"
    "items s pid = None \<Longrightarrow> free_entries (FspProcessBufferReuseEntry s pid e) = free_entries s"
proof -
  let ?f = "\<lambda>i. i\<lparr>BufferList := e # BufferList i\<rparr>"
  show "table_ok (FspProcessBufferReuseEntry s pid e)"
    using ok change_item_ok(1) [OF ok, of pid _ ?f]
    by (auto simp: FspProcessBufferReuseEntry_def split: option.splits)
  show "items s pid = Some i \<Longrightarrow> items (FspProcessBufferReuseEntry s pid e) = (items s)(pid \<mapsto> ?f i)"
    using change_item_ok(2) [OF ok, of pid i ?f] by (simp add: FspProcessBufferReuseEntry_def)
  show "items s pid = Some i \<Longrightarrow> free_entries (FspProcessBufferReuseEntry s pid e) = free_entries s + {#(pid, e)#}"
  proof -
    assume i: "items s pid = Some i"
    have "item_entries (?f i) = item_entries i + {#(pid, e)#}"
      using items_pid [OF ok i] by (simp add: item_entries_def)
    then have "free_entries (change_item pid ?f s) + item_entries i =
        free_entries s + {#(pid, e)#} + item_entries i"
      using change_item_ok(3) [OF ok i, of ?f] by (simp add: ac_simps)
    then show ?thesis using i by (simp add: FspProcessBufferReuseEntry_def)
  qed
  show "items s pid = None \<Longrightarrow> items (FspProcessBufferReuseEntry s pid e) = items s"
    "items s pid = None \<Longrightarrow> free_entries (FspProcessBufferReuseEntry s pid e) = free_entries s"
    by (simp_all add: FspProcessBufferReuseEntry_def)
qed

lemma collect_ok:
  assumes ok: "table_ok s"
  shows "table_ok (FspProcessBufferCollect s pid)"
    "items (FspProcessBufferCollect s pid) = (items s)(pid := None)"
    "free_entries s = free_entries (FspProcessBufferCollect s pid) +
      (case items s pid of None \<Rightarrow> {#} | Some i \<Rightarrow> item_entries i)"
proof -
  obtain r bs where b: "bucket_remove process_hash_index ProcessId pid (ProcessBufferBuckets s) = (r, bs)"
    by fastforce
  note c = ps_tab.remove_ok [OF ok b]
  have r: "r = items s pid" using c(1) by (simp add: FspProcessBufferLookupItemAtDpcLevel_def)
  have s': "FspProcessBufferCollect s pid =
      (case r of None \<Rightarrow> s\<lparr>ProcessBufferBuckets := bs\<rparr>
       | Some i \<Rightarrow> free_item i (s\<lparr>ProcessBufferBuckets := bs\<rparr>))"
    by (simp add: FspProcessBufferCollect_def FspProcessBufferRemoveItemAtDpcLevel_def b)
  have it: "items (s\<lparr>ProcessBufferBuckets := bs\<rparr>) = (items s)(pid := None)"
    using c(3) by (simp add: fun_eq_iff FspProcessBufferLookupItemAtDpcLevel_def)
  have fr: "free_entries s = free_entries (s\<lparr>ProcessBufferBuckets := bs\<rparr>) +
      (case r of None \<Rightarrow> {#} | Some i \<Rightarrow> item_entries i)"
    using arg_cong [OF c(4), of "\<lambda>m. \<Sum>\<^sub># (image_mset item_entries m)"]
    by (cases r) (simp_all add: free_entries_def ac_simps del: mset_concat)
  show "table_ok (FspProcessBufferCollect s pid)" using c(2) by (cases r) (simp_all add: s')
  show "items (FspProcessBufferCollect s pid) = (items s)(pid := None)" using it by (cases r) (simp_all add: s')
  show "free_entries s = free_entries (FspProcessBufferCollect s pid) +
      (case items s pid of None \<Rightarrow> {#} | Some i \<Rightarrow> item_entries i)"
    using fr by (cases r) (simp_all add: s' flip: r)
qed

end
