(* ===== verification/PsBufferSpec.thy ===== *)
theory PsBufferSpec
  imports PsBufferProps
begin

text \<open>
  The pool with the threads that use it. \<open>Held\<close> are the entries that were handed out and counted,
  \<open>Fresh\<close> those a thread has allocated and not yet counted. Steps of different threads interleave
  in any order. What is relied on of the system: an allocator hands out addresses that are not in
  use, and when a process ends none of its threads is inside \<open>FspProcessBufferAcquire\<close> any more;
  its requests may still release buffers later, attached to the process.
\<close>

section \<open>Steps\<close>

type_synonym owned = "ptr \<times> buffer_entry"

record ps_sys =
  Core :: ps_state
  Held :: "owned multiset"
  Fresh :: "owned multiset"
  Dead :: "ptr set"

definition places :: "ps_sys \<Rightarrow> owned multiset" where
  "places S = free_entries (Core S) + Held S + Fresh S"

definition buffers :: "owned multiset \<Rightarrow> (ptr \<times> ptr) multiset" where
  "buffers m = filter_mset (\<lambda>x. snd x \<noteq> 0) (image_mset (map_prod id entry_Buffer) m)"

abbreviation owned_ptr :: "owned \<Rightarrow> ptr" where
  "owned_ptr x \<equiv> entry_ptr (snd x)"

text \<open>No two entries at one address, and no two with one buffer.\<close>

definition unique :: "'a multiset \<Rightarrow> bool" where
  "unique m \<longleftrightarrow> (\<forall>x. Multiset.count m x \<le> 1)"

definition separate :: "owned multiset \<Rightarrow> bool" where
  "separate m \<longleftrightarrow> unique (image_mset owned_ptr m) \<and> unique (buffers m)"

lemma unique_simps [simp]: "unique {#}" "unique (add_mset x m) \<longleftrightarrow> x \<notin># m \<and> unique m"
proof -
  show "unique {#}" by (simp add: unique_def)
  show "unique (add_mset x m) \<longleftrightarrow> x \<notin># m \<and> unique m"
  proof
    assume u: "unique (add_mset x m)"
    have "Multiset.count m x = 0" using u [unfolded unique_def, rule_format, of x] by simp
    moreover have "Multiset.count m y \<le> 1" for y
      using u [unfolded unique_def, rule_format, of y] by (simp split: if_splits)
    ultimately show "x \<notin># m \<and> unique m" by (simp add: unique_def not_in_iff)
  next
    assume "x \<notin># m \<and> unique m"
    then show "unique (add_mset x m)" by (simp add: unique_def not_in_iff)
  qed
qed

lemma unique_mono: "unique (m + m') \<Longrightarrow> unique m"
  unfolding unique_def by (metis add_leE plus_multiset.rep_eq)

lemma buffers_simps [simp]: "buffers {#} = {#}" "buffers (m + m') = buffers m + buffers m'"
  "buffers (add_mset (pid, e) m) =
     (if entry_Buffer e = 0 then buffers m else add_mset (pid, entry_Buffer e) (buffers m))"
  by (simp_all add: buffers_def)

inductive ps_step :: "u32 \<Rightarrow> ps_sys \<Rightarrow> ps_sys \<Rightarrow> bool" for cpus where
  step_take: "pid \<notin> Dead S \<Longrightarrow> acquire_section1 cpus (Core S) pid = (Some e, no_reuse, s) \<Longrightarrow>
    ps_step cpus S (S\<lparr>Core := s, Held := add_mset (pid, e) (Held S)\<rparr>)"
| step_alloc: "pid \<notin> Dead S \<Longrightarrow> acquire_section1 cpus (Core S) pid = (None, False, s) \<Longrightarrow>
    p \<noteq> 0 \<Longrightarrow> p \<notin># image_mset owned_ptr (places S) \<Longrightarrow>
    ps_step cpus S (S\<lparr>Core := s, Fresh := add_mset (pid, \<lparr>entry_ptr = p, entry_Buffer = 0\<rparr>) (Fresh S)\<rparr>)"
| step_no_item: "Fresh S = add_mset (pid, e) F \<Longrightarrow>
    ps_step cpus S (S\<lparr>Core := free_entry e (Core S), Fresh := F\<rparr>)"
| step_count: "Fresh S = add_mset (pid, e) F \<Longrightarrow> acquire_section2 cpus (Core S) pid = (used, False, s) \<Longrightarrow>
    ps_step cpus S (S\<lparr>Core := (if used then s else s\<lparr>FreedItems := FreedItems s + 1\<rparr>),
      Held := add_mset (pid, e) (Held S), Fresh := F\<rparr>)"
| step_no_share: "Fresh S = add_mset (pid, e) F \<Longrightarrow> acquire_section2 cpus (Core S) pid = (used, True, s) \<Longrightarrow>
    ps_step cpus S (S\<lparr>Core := free_entry e (if used then s else s\<lparr>FreedItems := FreedItems s + 1\<rparr>),
      Fresh := F\<rparr>)"
| step_buffer: "Held S = add_mset (pid, e) H \<Longrightarrow> entry_Buffer e = 0 \<Longrightarrow> p \<noteq> 0 \<Longrightarrow>
    (pid, p) \<notin># buffers (places S) \<Longrightarrow>
    ps_step cpus S (S\<lparr>Held := add_mset (pid, e\<lparr>entry_Buffer := p\<rparr>) H\<rparr>)"
| step_release: "Held S = add_mset (pid, e) H \<Longrightarrow>
    ps_step cpus S (S\<lparr>Core := FspProcessBufferReuseEntry (Core S) pid e, Held := H\<rparr>)"
| step_exit: "pid \<notin># image_mset fst (Fresh S) \<Longrightarrow>
    ps_step cpus S (S\<lparr>Core := FspProcessBufferNotifyRoutine (Core S) parent pid False, Dead := insert pid (Dead S)\<rparr>)"
| step_other: "ps_step cpus S (S\<lparr>Core := free_virtual p (Core S)\<rparr>)"

definition ps_start :: ps_sys where
  "ps_start = \<lparr>Core = ProcessBufferInitial, Held = {#}, Fresh = {#}, Dead = {}\<rparr>"

inductive ps_reachable :: "u32 \<Rightarrow> ps_sys \<Rightarrow> bool" for cpus where
  ps_reach_start: "ps_reachable cpus ps_start"
| ps_reach_step: "ps_reachable cpus S \<Longrightarrow> ps_step cpus S S' \<Longrightarrow> ps_reachable cpus S'"

section \<open>The invariant\<close>

definition held_by :: "ptr \<Rightarrow> owned multiset \<Rightarrow> nat" where
  "held_by pid H = size (filter_mset (\<lambda>x. fst x = pid) H)"

lemma held_by_simps [simp]: "held_by pid {#} = 0"
  "held_by pid (add_mset (q, e) H) = (if q = pid then 1 else 0) + held_by pid H"
  by (simp_all add: held_by_def)

text \<open>The item of a process: its count, and that there is one as long as entries are held.\<close>

fun item_ok :: "u32 \<Rightarrow> buffer_item option \<Rightarrow> nat \<Rightarrow> bool \<Rightarrow> bool" where
  "item_ok cpus None n dead \<longleftrightarrow> dead \<or> n = 0"
| "item_ok cpus (Some i) n dead \<longleftrightarrow> \<not> dead \<and> unat (BufferCount i) = length (BufferList i) + n
     \<and> BufferCount i \<le> FspProcessBufferCountMax cpus"

definition counted :: "u32 \<Rightarrow> ps_sys \<Rightarrow> ptr \<Rightarrow> bool" where
  "counted cpus S pid \<longleftrightarrow> item_ok cpus (items (Core S) pid) (held_by pid (Held S)) (pid \<in> Dead S)"

definition ps_ok :: "u32 \<Rightarrow> ps_sys \<Rightarrow> bool" where
  "ps_ok cpus S \<longleftrightarrow> table_ok (Core S) \<and> separate (places S) \<and> (\<forall>pid. counted cpus S pid)
     \<and> (\<forall>pid e. (pid, e) \<in># Fresh S \<longrightarrow> pid \<notin> Dead S \<and> entry_Buffer e = 0)"

lemma count_max_bounds: "2 \<le> FspProcessBufferCountMax cpus \<and> FspProcessBufferCountMax cpus \<le> 8"
  by (auto simp: FspProcessBufferCountMax_def)

lemma separate_mono: "separate (m + m') \<Longrightarrow> separate m"
  by (auto simp: separate_def intro: unique_mono)

lemma separate_new:
  "separate m \<Longrightarrow> p \<notin># image_mset owned_ptr m \<Longrightarrow>
     separate (add_mset (pid, \<lparr>entry_ptr = p, entry_Buffer = 0\<rparr>) m)"
  by (simp add: separate_def)

lemma separate_buffer:
  "separate (add_mset (pid, e) m) \<Longrightarrow> (pid, p) \<notin># buffers m \<Longrightarrow>
     separate (add_mset (pid, e\<lparr>entry_Buffer := p\<rparr>) m)"
  by (auto simp: separate_def split: if_splits)

lemma free_entry_empty: "table_ok ProcessBufferInitial" "items ProcessBufferInitial pid = None"
  "free_entries ProcessBufferInitial = {#}"
proof -
  show t: "table_ok ProcessBufferInitial" by (simp only: ProcessBufferInitial_def ps_state.simps ps_tab.table_ok_empty)
  have c: "concat (ProcessBufferBuckets ProcessBufferInitial) = []" by (simp add: ProcessBufferInitial_def)
  show "items ProcessBufferInitial pid = None"
    using ps_tab.lookup_None [OF t, of pid] unfolding c by (simp add: FspProcessBufferLookupItemAtDpcLevel_def)
  show "free_entries ProcessBufferInitial = {#}" unfolding free_entries_def c by simp
qed

lemma ps_start_ok: "ps_ok cpus ps_start"
  by (simp add: ps_ok_def ps_start_def free_entry_empty places_def separate_def buffers_def counted_def)

section \<open>Every step keeps the invariant\<close>

lemma ps_ok_counted: "ps_ok cpus S \<Longrightarrow>
    item_ok cpus (items (Core S) q) (held_by q (Held S)) (q \<in> Dead S)"
  by (simp add: ps_ok_def counted_def)

lemma ps_okD:
  assumes "ps_ok cpus S"
  shows "table_ok (Core S)" "separate (places S)"
    "x \<in># Fresh S \<Longrightarrow> fst x \<notin> Dead S" "x \<in># Fresh S \<Longrightarrow> entry_Buffer (snd x) = 0"
  using assms by (cases x; simp add: ps_ok_def)+

lemma ps_okI:
  "table_ok (Core S) \<Longrightarrow> separate (places S) \<Longrightarrow>
     (\<And>q. item_ok cpus (items (Core S) q) (held_by q (Held S)) (q \<in> Dead S)) \<Longrightarrow>
     (\<And>x. x \<in># Fresh S \<Longrightarrow> fst x \<notin> Dead S \<and> entry_Buffer (snd x) = 0) \<Longrightarrow> ps_ok cpus S"
  by (force simp: ps_ok_def counted_def)

lemma take_step_ok:
  assumes ok: "ps_ok cpus S" and live: "pid \<notin> Dead S"
    and r: "acquire_section1 cpus (Core S) pid = (Some e, no_reuse, s)"
  shows "ps_ok cpus (S\<lparr>Core := s, Held := add_mset (pid, e) (Held S)\<rparr>)" (is "ps_ok cpus ?S")
proof -
  have t: "table_ok (Core S)" using ok by (simp add: ps_ok_def)
  from section1_ok [OF t r] obtain i rest where i: "items (Core S) pid = Some i" "BufferList i = e # rest"
      "table_ok s" "items s = (items (Core S))(pid \<mapsto> i\<lparr>BufferList := rest\<rparr>)"
      "free_entries (Core S) = free_entries s + {#(pid, e)#}"
    by auto
  have "places ?S = places S" by (simp add: places_def i(5))
  moreover have "counted cpus ?S q" for q
    using ps_ok_counted [OF ok, of q] i(1,2,4) by (auto simp: counted_def)
  ultimately show ?thesis using ok i(3) by (simp add: ps_ok_def)
qed

lemma count_step_ok:
  assumes ok: "ps_ok cpus S" and F: "Fresh S = add_mset (pid, e) F"
    and r: "acquire_section2 cpus (Core S) pid = (used, False, s)"
  shows "ps_ok cpus (S\<lparr>Core := (if used then s else s\<lparr>FreedItems := n\<rparr>), Held := add_mset (pid, e) (Held S),
      Fresh := F\<rparr>)" (is "ps_ok cpus ?S")
proof -
  let ?max = "FspProcessBufferCountMax cpus"
  have t: "table_ok (Core S)" by (rule ps_okD [OF ok])
  have live: "pid \<notin> Dead S" using ps_okD(3) [OF ok, of "(pid, e)"] F by simp
  note c = section2_ok [OF t r]
  have core: "items (Core ?S) = items s" "table_ok (Core ?S)" "free_entries (Core ?S) = free_entries s"
    using c(1) by simp_all
  have "places ?S = places S" using c(2) core(3) by (simp add: places_def F)
  moreover have "counted cpus ?S q" for q
  proof (cases "q = pid \<and> items (Core S) pid \<noteq> None")
    case True
    then obtain i where i: "items (Core S) pid = Some i" by auto
    have lt: "BufferCount i < ?max" using c(5) i by simp
    moreover have "unat ?max \<le> 8" using count_max_bounds [of cpus] by (simp add: word_le_nat_alt)
    ultimately have u: "unat (BufferCount i + 1) = unat (BufferCount i) + 1"
      by (simp add: word_less_nat_alt unat_word_ariths)
    moreover have "BufferCount i + 1 \<le> ?max" using lt u by (simp add: word_less_nat_alt word_le_nat_alt)
    ultimately show ?thesis
      using ps_ok_counted [OF ok, of q] True i c(4) core(1) live by (simp add: counted_def)
  next
    case False
    have "1 \<le> ?max" using count_max_bounds [of cpus] by (auto simp: word_le_nat_alt)
    then show ?thesis
      using ps_ok_counted [OF ok, of q] False c(4) core(1) live by (auto simp: counted_def)
  qed
  ultimately show ?thesis
    using ps_okD [OF ok] core(2) F by (intro ps_okI) (simp_all add: counted_def)
qed

lemma release_step_ok:
  assumes ok: "ps_ok cpus S" and H: "Held S = add_mset (pid, e) H"
  shows "ps_ok cpus (S\<lparr>Core := FspProcessBufferReuseEntry (Core S) pid e, Held := H\<rparr>)" (is "ps_ok cpus ?S")
proof -
  have t: "table_ok (Core S)" using ok by (simp add: ps_ok_def)
  note u = reuse_ok [OF t, where pid = pid and e = e]
  show ?thesis
  proof (cases "items (Core S) pid")
    case None
    have "places S = places ?S + {#(pid, e)#}" using u(5) None by (simp add: places_def H)
    then have "separate (places ?S)" using ok separate_mono by (metis ps_ok_def)
    moreover have "counted cpus ?S q" for q
      using ps_ok_counted [OF ok, of q] None u(4) by (auto simp: counted_def H split: if_splits)
    ultimately show ?thesis using ok u(1) by (simp add: ps_ok_def)
  next
    case (Some i)
    have "places ?S = places S" using u(3) Some by (simp add: places_def H)
    moreover have "counted cpus ?S q" for q
      using ps_ok_counted [OF ok, of q] Some u(2) by (auto simp: counted_def H)
    ultimately show ?thesis using ok u(1) by (simp add: ps_ok_def)
  qed
qed

lemma exit_step_ok:
  assumes ok: "ps_ok cpus S" and F: "pid \<notin># image_mset fst (Fresh S)"
  shows "ps_ok cpus (S\<lparr>Core := FspProcessBufferCollect (Core S) pid, Dead := insert pid (Dead S)\<rparr>)"
    (is "ps_ok cpus ?S")
proof -
  have t: "table_ok (Core S)" using ok by (simp add: ps_ok_def)
  note c = collect_ok [OF t, of pid]
  have "places S = places ?S + (case items (Core S) pid of None \<Rightarrow> {#} | Some i \<Rightarrow> item_entries i)"
    using c(3) by (simp add: places_def)
  then have "separate (places ?S)" using ok separate_mono by (metis ps_ok_def)
  moreover have "counted cpus ?S q" for q
    using ps_ok_counted [OF ok, of q] c(2) by (auto simp: counted_def)
  moreover have "q \<noteq> pid" if "(q, e) \<in># Fresh S" for q e using F that by force
  ultimately show ?thesis using ok c(1) by (auto simp: ps_ok_def)
qed

lemma free_fresh_ok:
  assumes ok: "ps_ok cpus S" and F: "Fresh S = add_mset (pid, e) F"
    and c: "items c = items (Core S)" "table_ok c" "free_entries c = free_entries (Core S)"
  shows "ps_ok cpus (S\<lparr>Core := c, Fresh := F\<rparr>)"
proof -
  have "places S = places (S\<lparr>Core := c, Fresh := F\<rparr>) + {#(pid, e)#}" by (simp add: places_def F c(3))
  then have "separate (places (S\<lparr>Core := c, Fresh := F\<rparr>))" using ok separate_mono by (metis ps_ok_def)
  then show ?thesis using ok c(1,2) F by (auto simp: ps_ok_def counted_def)
qed

lemma ps_step_ok: "ps_step cpus S S' \<Longrightarrow> ps_ok cpus S \<Longrightarrow> ps_ok cpus S'"
proof (induction rule: ps_step.induct)
  case (step_take pid S e no_reuse s)
  then show ?case by (intro take_step_ok)
next
  case (step_alloc pid S s p)
  note d = ps_okD [OF step_alloc.prems]
  have c: "s = Core S" using section1_ok [OF d(1) step_alloc.hyps(2)] by simp
  have "separate (add_mset (pid, \<lparr>entry_ptr = p, entry_Buffer = 0\<rparr>) (places S))"
    by (rule separate_new [OF d(2) step_alloc.hyps(4)])
  then show ?case
    using d(1,3,4) ps_ok_counted [OF step_alloc.prems] step_alloc.hyps(1)
    by (intro ps_okI) (auto simp: c places_def)
next
  case (step_no_item S pid e F)
  then show ?case using ps_okD(1) by (intro free_fresh_ok) simp_all
next
  case (step_count S pid e F used s)
  then show ?case by (intro count_step_ok)
next
  case (step_no_share S pid e F used s)
  note d = ps_okD [OF step_no_share.prems]
  have "s = Core S" using section2_ok(3) [OF d(1) step_no_share.hyps(2)] by simp
  then show ?case using step_no_share d(1) by (intro free_fresh_ok) simp_all
next
  case (step_buffer S pid e H p)
  note d = ps_okD [OF step_buffer.prems]
  let ?r = "free_entries (Core S) + H + Fresh S"
  have p: "places S = add_mset (pid, e) ?r" using step_buffer.hyps(1) by (simp add: places_def)
  have "(pid, p) \<notin># buffers ?r" using step_buffer.hyps(4) unfolding p by (simp split: if_splits)
  from separate_buffer [OF d(2) [unfolded p] this]
  have "separate (add_mset (pid, e\<lparr>entry_Buffer := p\<rparr>) ?r)" .
  then show ?case
    using d(1,3,4) ps_ok_counted [OF step_buffer.prems] step_buffer.hyps(1)
    by (intro ps_okI) (auto simp: places_def)
next
  case (step_release S pid e H)
  then show ?case by (intro release_step_ok)
next
  case (step_exit pid S parent)
  then show ?case by (simp add: FspProcessBufferNotifyRoutine_def exit_step_ok)
next
  case (step_other S p)
  then show ?case
    using ps_okD [OF step_other.prems] ps_ok_counted [OF step_other.prems]
    by (intro ps_okI) (simp_all add: places_def)
qed

lemma ps_reachable_ok: "ps_reachable cpus S \<Longrightarrow> ps_ok cpus S"
  by (induction rule: ps_reachable.induct) (auto intro: ps_start_ok ps_step_ok)

end
