(* ===== verification/PsBufferClaims.thy ===== *)
theory PsBufferClaims
  imports PsBufferSpec
begin

text \<open>
  The properties of the buffer pool: no entry and no buffer is ever shared, the share of a process
  is bounded, and acquiring a buffer leaks nothing on any branch.
\<close>

section \<open>A sample\<close>

definition sample_entry :: buffer_entry where
  "sample_entry = \<lparr>entry_ptr = 0x1000, entry_Buffer = 0\<rparr>"

definition sample_pool :: ps_sys where
  "sample_pool = \<lparr>Core = FspProcessBufferAddItemAtDpcLevel ProcessBufferInitial
       \<lparr>BufferList = [], BufferCount = 1, ProcessId = 4\<rparr>,
     Held = {#(4, sample_entry)#}, Fresh = {#}, Dead = {}\<rparr>"

lemma sample_pool_reachable: "ps_reachable 2 sample_pool"
proof -
  let ?S = "ps_start\<lparr>Core := ProcessBufferInitial, Fresh := add_mset (4, sample_entry) (Fresh ps_start)\<rparr>"
  have "ps_step 2 ps_start ?S"
    unfolding sample_entry_def
    by (rule step_alloc) (simp_all add: ps_start_def acquire_section1_def free_entry_empty places_def)
  then have "ps_reachable 2 ?S" by (rule ps_reach_step [OF ps_reach_start])
  moreover have "ps_step 2 ?S (?S\<lparr>Core := (if True then Core sample_pool
      else (Core sample_pool)\<lparr>FreedItems := FreedItems (Core sample_pool) + 1\<rparr>),
      Held := add_mset (4, sample_entry) (Held ?S), Fresh := {#}\<rparr>)"
    by (rule step_count) (simp_all add: ps_start_def acquire_section2_def free_entry_empty sample_pool_def)
  ultimately have "ps_reachable 2 (?S\<lparr>Core := (if True then Core sample_pool
      else (Core sample_pool)\<lparr>FreedItems := FreedItems (Core sample_pool) + 1\<rparr>),
      Held := add_mset (4, sample_entry) (Held ?S), Fresh := {#}\<rparr>)"
    by (rule ps_reach_step)
  then show ?thesis by (simp add: ps_start_def sample_pool_def)
qed

lemma sample_pool_item: "items (Core sample_pool) 4 = Some \<lparr>BufferList = [], BufferCount = 1, ProcessId = 4\<rparr>"
proof -
  have "acquire_section2 2 ProcessBufferInitial 4 = (True, False, Core sample_pool)"
    by (simp add: acquire_section2_def free_entry_empty sample_pool_def)
  from section2_ok(4) [OF free_entry_empty(1) this] show ?thesis by (simp add: free_entry_empty)
qed

section \<open>The pool\<close>

text \<open>C23. In every reachable state of the pool, under any interleaving of acquiring and releasing
  threads and of ending processes: no two entries, free, held or in the making, are the same, no two
  have the same buffer, and the count of a process is the number of its free and held entries and at
  most its share, which is between two and eight.\<close>
theorem psbuffer_pool:
  assumes "ps_reachable cpus S"
  shows "unique (image_mset owned_ptr (places S)) \<and> unique (buffers (places S))
    \<and> (\<forall>pid i. items (Core S) pid = Some i \<longrightarrow>
        unat (BufferCount i) = length (BufferList i) + held_by pid (Held S)
        \<and> BufferCount i \<le> FspProcessBufferCountMax cpus \<and> FspProcessBufferCountMax cpus \<le> 8)"
proof -
  have ok: "ps_ok cpus S" by (rule ps_reachable_ok [OF assms])
  have "item_ok cpus (items (Core S) pid) (held_by pid (Held S)) (pid \<in> Dead S)" for pid
    by (rule ps_ok_counted [OF ok])
  then have "items (Core S) pid = Some i \<Longrightarrow> unat (BufferCount i) = length (BufferList i) + held_by pid (Held S)
      \<and> BufferCount i \<le> FspProcessBufferCountMax cpus" for pid i
    by (metis item_ok.simps(2))
  then show ?thesis using ps_okD(2) [OF ok] count_max_bounds [of cpus] by (simp add: separate_def)
qed

theorem psbuffer_pool_witness: "ps_reachable 2 sample_pool \<and> (1 :: nat) = 0 + held_by 4 (Held sample_pool)"
  using psbuffer_pool [OF sample_pool_reachable, THEN conjunct2, THEN conjunct2, rule_format,
      OF sample_pool_item] sample_pool_reachable
  by simp

section \<open>Acquiring\<close>

lemma finish_steps:
  assumes T: "ps_reachable cpus T" "Held T = add_mset (pid, e) H" and pid: "CurrentProcessId env = pid"
    and r: "acquire_finish env e (Core T) = (st, cookie, buf, s')"
    and v: "\<And>st p. AllocateVirtualMemory env 0x10000 = (st, p) \<Longrightarrow> NT_SUCCESS st \<Longrightarrow>
      p \<noteq> 0 \<and> (pid, p) \<notin># buffers (places T)"
  shows "ps_reachable cpus (T\<lparr>Core := s', Held := (case cookie of None \<Rightarrow> H | Some e \<Rightarrow> add_mset (pid, e) H)\<rparr>)
    \<and> (\<forall>c. cookie = Some c \<longrightarrow> st = STATUS_SUCCESS \<and> entry_Buffer c = buf \<and> buf \<noteq> 0)"
proof (cases "entry_Buffer e = 0")
  case False
  then have "cookie = Some e" "s' = Core T" "st = 0" "buf = entry_Buffer e"
    using r by (auto simp: acquire_finish_def)
  moreover have "T\<lparr>Core := Core T, Held := add_mset (pid, e) H\<rparr> = T" by (simp flip: T(2))
  ultimately show ?thesis using T(1) False by simp
next
  case True
  obtain st1 p where a: "AllocateVirtualMemory env 0x10000 = (st1, p)" by fastforce
  show ?thesis
  proof (cases "NT_SUCCESS st1")
    case ok: True
    have "ps_step cpus T (T\<lparr>Held := add_mset (pid, e\<lparr>entry_Buffer := p\<rparr>) H\<rparr>)"
      using T(2) True v [OF a ok] by (intro step_buffer) auto
    moreover have "cookie = Some (e\<lparr>entry_Buffer := p\<rparr>)" "s' = Core T" "st = 0" "buf = p"
      using r True a ok by (auto simp: acquire_finish_def)
    ultimately show ?thesis using T(1) v [OF a ok] by (auto intro: ps_reach_step)
  next
    case bad: False
    have "cookie = None" "s' = FspProcessBufferReuseEntry (Core T) pid e"
      using r True a bad pid by (auto simp: acquire_finish_def)
    then show ?thesis using step_release [OF T(2)] T(1) by (auto intro: ps_reach_step)
  qed
qed

section \<open>What an acquire does with its memory\<close>

definition item_total :: "ps_state \<Rightarrow> nat" where
  "item_total s = length (concat (ProcessBufferBuckets s)) + FreedItems s"

definition entry_total :: "ps_state \<Rightarrow> ptr multiset" where
  "entry_total s = image_mset owned_ptr (free_entries s) + mset (FreedEntries s)"

text \<open>An acquire allocates an entry when the process has none that is free and not its share yet.\<close>

definition entry_wanted :: "u32 \<Rightarrow> u64 \<Rightarrow> ps_state \<Rightarrow> ptr \<Rightarrow> bool" where
  "entry_wanted cpus BufferSize s pid \<longleftrightarrow> BufferSize \<le> FspProcessBufferSizeMax \<and>
     (case items s pid of
        None \<Rightarrow> True
      | Some i \<Rightarrow> BufferList i = [] \<and> BufferCount i < FspProcessBufferCountMax cpus)"

lemma change_item_total:
  assumes "table_ok s" "items s pid = Some i" "\<And>i. ProcessId (f i) = ProcessId i"
  shows "item_total (change_item pid f s) = item_total s" "FreedEntries (change_item pid f s) = FreedEntries s"
    "FreedBuffers (change_item pid f s) = FreedBuffers s"
proof -
  let ?h = "process_hash_index pid" and ?bs = "ProcessBufferBuckets s"
  have "length (change_first P f xs) = length xs" for P and xs :: "buffer_item list" by (induction xs) auto
  then have "map length (?bs[?h := change_first (\<lambda>i. ProcessId i = pid) f (?bs ! ?h)]) = map length ?bs"
    by (simp add: map_update list_update_same_conv) (metis length_map list_update_id map_update)
  then show "item_total (change_item pid f s) = item_total s"
    by (simp add: item_total_def change_item_def Let_def length_concat)
  show "FreedEntries (change_item pid f s) = FreedEntries s" "FreedBuffers (change_item pid f s) = FreedBuffers s"
    by (simp_all add: change_item_def Let_def)
qed

lemma section1_totals:
  assumes "table_ok s" "acquire_section1 cpus s pid = (r, no_reuse, s')"
  shows "item_total s' = item_total s" "FreedEntries s' = FreedEntries s" "FreedBuffers s' = FreedBuffers s"
    "r = None \<Longrightarrow> \<not> no_reuse \<longleftrightarrow> entry_wanted cpus 0 s pid" "r \<noteq> None \<Longrightarrow> \<not> entry_wanted cpus 0 s pid"
  using assms(2) change_item_total [OF assms(1)]
  by (auto simp: acquire_section1_def Let_def entry_wanted_def split: option.splits list.splits)

lemma section2_totals:
  assumes ok: "table_ok s" and r: "acquire_section2 cpus s pid = (used, no_reuse, s')"
  shows "item_total s' = item_total s + (if used then 1 else 0)" "FreedEntries s' = FreedEntries s"
    "FreedBuffers s' = FreedBuffers s" "no_reuse \<Longrightarrow> \<not> used \<and> \<not> entry_wanted cpus 0 s pid"
proof -
  let ?new = "\<lparr>BufferList = [], BufferCount = 1, ProcessId = pid\<rparr>"
  have n: "item_total (FspProcessBufferAddItemAtDpcLevel s ?new) = item_total s + 1" if "items s pid = None"
  proof -
    have "bucket_find process_hash_index ProcessId (ProcessBufferBuckets s) (ProcessId ?new) = None"
      using that by (simp add: FspProcessBufferLookupItemAtDpcLevel_def)
    from ps_tab.insert_ok(3) [OF ok this, THEN arg_cong [where f = size]] show ?thesis
      by (simp add: item_total_def FspProcessBufferAddItemAtDpcLevel_def del: mset_concat)
  qed
  show "item_total s' = item_total s + (if used then 1 else 0)"
    using r n change_item_total(1) [OF ok] by (auto simp: acquire_section2_def split: option.splits if_splits)
  show "FreedEntries s' = FreedEntries s" "FreedBuffers s' = FreedBuffers s"
    "no_reuse \<Longrightarrow> \<not> used \<and> \<not> entry_wanted cpus 0 s pid"
    using r change_item_total(2,3) [OF ok]
    by (auto simp: acquire_section2_def FspProcessBufferAddItemAtDpcLevel_def entry_wanted_def split: option.splits if_splits)
qed

definition cookie_entry :: "buffer_entry option \<Rightarrow> ptr multiset" where
  "cookie_entry cookie = (case cookie of None \<Rightarrow> {#} | Some e \<Rightarrow> {#entry_ptr e#})"

lemma finish_totals:
  assumes ok: "table_ok s" and i: "items s (CurrentProcessId env) = Some i"
    and r: "acquire_finish env e s = (st, cookie, buf, s')"
  shows "entry_total s' + cookie_entry cookie = add_mset (entry_ptr e) (entry_total s)"
    "item_total s' = item_total s" "FreedBuffers s' = FreedBuffers s"
proof -
  let ?r = "FspProcessBufferReuseEntry s (CurrentProcessId env) e"
  have u: "FreedEntries ?r = FreedEntries s" "item_total ?r = item_total s" "FreedBuffers ?r = FreedBuffers s"
    using change_item_total [OF ok i] i by (simp_all add: FspProcessBufferReuseEntry_def)
  have t: "entry_total ?r = add_mset (entry_ptr e) (entry_total s)"
    using reuse_ok(3) [OF ok i] u by (simp add: entry_total_def)
  show "entry_total s' + cookie_entry cookie = add_mset (entry_ptr e) (entry_total s)"
    "item_total s' = item_total s" "FreedBuffers s' = FreedBuffers s"
    using r t u by (auto simp: acquire_finish_def cookie_entry_def Let_def split: if_splits prod.splits)
qed

lemma totals_simps [simp]:
  "entry_total (free_entry e s) = add_mset (entry_ptr e) (entry_total s)"
  "item_total (free_entry e s) = item_total s"
  "FreedBuffers (free_entry e s) = FreedBuffers s"
  "entry_total (s\<lparr>FreedItems := n\<rparr>) = entry_total s"
  "item_total (s\<lparr>FreedItems := Suc (FreedItems s)\<rparr>) = Suc (item_total s)"
  by (simp_all add: entry_total_def item_total_def free_entry_def free_entries_def)

lemma counted_totals:
  assumes ok: "table_ok s" and r: "acquire_counted env cpus BufferSize e s = (st, cookie, buf, s')"
  shows "entry_total s' + cookie_entry cookie = add_mset (entry_ptr e) (entry_total s)"
    "item_total s' = item_total s + 1" "FreedBuffers s' = FreedBuffers s"
proof -
  obtain used nr s2 where s2: "acquire_section2 cpus s (CurrentProcessId env) = (used, nr, s2)" by (metis prod_cases3)
  note t2 = section2_totals [OF ok s2] and k2 = section2_ok [OF ok s2]
  let ?s2 = "if used then s2 else s2\<lparr>FreedItems := FreedItems s2 + 1\<rparr>"
  have e2: "entry_total ?s2 = entry_total s" using t2(2) k2(2) by (simp add: entry_total_def)
  have "entry_total s' + cookie_entry cookie = add_mset (entry_ptr e) (entry_total s) \<and>
    item_total s' = item_total s + 1 \<and> FreedBuffers s' = FreedBuffers s"
  proof (cases nr)
    case True
    then have "cookie = None \<and> s' = free_entry e ?s2"
      using r s2 by (auto simp: acquire_counted_def alloc_no_reuse_def split: prod.splits)
    then show ?thesis using e2 t2 True by (simp add: cookie_entry_def)
  next
    case False
    then have f: "acquire_finish env e ?s2 = (st, cookie, buf, s')" using r s2 by (simp add: acquire_counted_def Let_def)
    have "table_ok ?s2" "\<exists>i. items ?s2 (CurrentProcessId env) = Some i" using k2(1,4) False by simp_all
    then show ?thesis using finish_totals [OF _ _ f] e2 t2 by auto
  qed
  then show "entry_total s' + cookie_entry cookie = add_mset (entry_ptr e) (entry_total s)"
    "item_total s' = item_total s + 1" "FreedBuffers s' = FreedBuffers s" by simp_all
qed

lemma acquire_totals:
  assumes ok: "table_ok s" and r: "FspProcessBufferAcquire env cpus BufferSize s = (st, cookie, buf, s')"
    and new: "new \<longleftrightarrow> entry_wanted cpus BufferSize s (CurrentProcessId env) \<and> AllocEntry env \<noteq> 0"
  shows "entry_total s' + cookie_entry cookie = entry_total s + (if new then {#AllocEntry env#} else {#})"
    "item_total s' = item_total s + (if new \<and> AllocItem env then 1 else 0)" "FreedBuffers s' = FreedBuffers s"
proof -
  let ?pid = "CurrentProcessId env"
  obtain r1 nr s1 where s1: "acquire_section1 cpus s ?pid = (r1, nr, s1)" by (metis prod_cases3)
  note t1 = section1_totals [OF ok s1] and k1 = section1_ok [OF ok s1]
  have "entry_total s' + cookie_entry cookie = entry_total s + (if new then {#AllocEntry env#} else {#}) \<and>
    item_total s' = item_total s + (if new \<and> AllocItem env then 1 else 0) \<and> FreedBuffers s' = FreedBuffers s"
  proof (cases "BufferSize \<le> 0x10000")
    case False
    then show ?thesis using r new
      by (auto simp: FspProcessBufferAcquire_def acquire_counted_def alloc_no_reuse_def entry_wanted_def cookie_entry_def split: prod.splits)
  next
    case small: True
    then have w: "new \<longleftrightarrow> entry_wanted cpus 0 s ?pid \<and> AllocEntry env \<noteq> 0" using new by (simp add: entry_wanted_def)
    show ?thesis
    proof (cases r1)
      case (Some e)
      then obtain i rest where i: "table_ok s1" "items s1 ?pid = Some (i\<lparr>BufferList := rest\<rparr>)"
          "free_entries s = free_entries s1 + {#(?pid, e)#}" using k1 by auto
      have "acquire_finish env e s1 = (st, cookie, buf, s')" using r small Some s1 by (simp add: FspProcessBufferAcquire_def acquire_counted_def)
      from finish_totals [OF i(1,2) this] show ?thesis
        using t1 i(3) w Some by (simp add: entry_total_def)
    next
      case None
      have c1: "s1 = s" using k1 None by simp
      consider "nr" | "\<not> nr" "AllocEntry env = 0" | "\<not> nr" "AllocEntry env \<noteq> 0" by blast
      then show ?thesis
      proof cases
        case 3
        let ?e = "\<lparr>entry_ptr = AllocEntry env, entry_Buffer = 0\<rparr>"
        have isnew: new using w 3 t1(4) None by simp
        show ?thesis
        proof (cases "AllocItem env")
          case True
          then have "acquire_counted env cpus BufferSize ?e s = (st, cookie, buf, s')"
            using r small None s1 c1 3 by (simp add: FspProcessBufferAcquire_def)
          from counted_totals [OF ok this] show ?thesis using isnew True by simp
        next
          case False
          then have "cookie = None \<and> s' = free_entry ?e s" using r small None s1 c1 3
            by (auto simp: FspProcessBufferAcquire_def acquire_counted_def Let_def)
          then show ?thesis using isnew False by (simp add: cookie_entry_def)
        qed
      qed (use r small None s1 c1 w t1(4) in \<open>auto simp: FspProcessBufferAcquire_def acquire_counted_def alloc_no_reuse_def cookie_entry_def
          split: prod.splits\<close>)
    qed
  qed
  then show "entry_total s' + cookie_entry cookie = entry_total s + (if new then {#AllocEntry env#} else {#})"
    "item_total s' = item_total s + (if new \<and> AllocItem env then 1 else 0)" "FreedBuffers s' = FreedBuffers s"
    by simp_all
qed

lemma acquire_steps:
  assumes S: "ps_reachable cpus S" and live: "CurrentProcessId env \<notin> Dead S"
    and alloc: "AllocEntry env \<noteq> 0 \<Longrightarrow> AllocEntry env \<notin># image_mset owned_ptr (places S)"
    and virt: "\<And>st p. AllocateVirtualMemory env 0x10000 = (st, p) \<Longrightarrow> NT_SUCCESS st \<Longrightarrow>
      p \<noteq> 0 \<and> (CurrentProcessId env, p) \<notin># buffers (places S)"
    and r: "FspProcessBufferAcquire env cpus BufferSize (Core S) = (st, cookie, buf, s')"
  shows "ps_reachable cpus (S\<lparr>Core := s', Held := (case cookie of None \<Rightarrow> Held S
      | Some e \<Rightarrow> add_mset (CurrentProcessId env, e) (Held S))\<rparr>)
    \<and> (\<forall>c. cookie = Some c \<longrightarrow> st = STATUS_SUCCESS \<and> entry_Buffer c = buf \<and> buf \<noteq> 0)"
proof -
  let ?pid = "CurrentProcessId env"
  have t: "table_ok (Core S)" by (rule ps_okD(1) [OF ps_reachable_ok [OF S]])
  have id: "S\<lparr>Core := Core S, Held := Held S\<rparr> = S" by simp
  obtain r1 nr s1 where s1: "acquire_section1 cpus (Core S) ?pid = (r1, nr, s1)" by (metis prod_cases3)
  show ?thesis
  proof (cases "BufferSize \<le> 0x10000")
    case False
    then have "cookie = None \<and> s' = Core S" using r
      by (auto simp: FspProcessBufferAcquire_def acquire_counted_def alloc_no_reuse_def split: prod.splits)
    then show ?thesis using S id by simp
  next
    case small: True
    show ?thesis
    proof (cases r1)
      case (Some e)
      let ?T = "S\<lparr>Core := s1, Held := add_mset (?pid, e) (Held S)\<rparr>"
      have T: "ps_reachable cpus ?T"
        using step_take [OF live s1 [unfolded Some]] S by (rule ps_reach_step [rotated])
      have "places ?T = places S" using section1_ok [OF t s1] Some by (auto simp: places_def)
      then show ?thesis
        using finish_steps [OF T _ refl, where env = env and e = e and H = "Held S" and st = st and
            cookie = cookie and buf = buf and s' = s'] r virt small Some s1
        by (simp add: FspProcessBufferAcquire_def acquire_counted_def)
    next
      case None
      have c1: "s1 = Core S" using section1_ok [OF t s1] None by simp
      consider "nr" | "\<not> nr" "AllocEntry env = 0" | "\<not> nr" "AllocEntry env \<noteq> 0" by blast
      then show ?thesis
      proof cases
        case 3
        let ?e = "\<lparr>entry_ptr = AllocEntry env, entry_Buffer = 0\<rparr>"
        let ?T = "S\<lparr>Core := s1, Fresh := add_mset (?pid, ?e) (Fresh S)\<rparr>"
        have T: "ps_reachable cpus ?T"
          using 3 None s1 alloc by (intro ps_reach_step [OF S] step_alloc [OF live]) auto
        obtain used nr2 s2 where s2: "acquire_section2 cpus (Core S) ?pid = (used, nr2, s2)"
          by (metis prod_cases3)
        let ?s2 = "if used then s2 else s2\<lparr>FreedItems := FreedItems s2 + 1\<rparr>"
        have F: "Fresh ?T = add_mset (?pid, ?e) (Fresh S)" by simp
        show ?thesis
        proof (cases "AllocItem env \<and> \<not> nr2")
          case True
          let ?U = "S\<lparr>Core := ?s2, Held := add_mset (?pid, ?e) (Held S)\<rparr>"
          have "ps_step cpus ?T (?T\<lparr>Core := ?s2, Held := add_mset (?pid, ?e) (Held ?T), Fresh := Fresh S\<rparr>)"
            by (rule step_count [OF F]) (use True s2 c1 in simp)
          then have U: "ps_reachable cpus ?U" using ps_reach_step [OF T] by simp
          have "buffers (places ?U) = buffers (places S)"
            using section2_ok(2) [OF t s2] by (simp add: places_def)
          then show ?thesis
            using finish_steps [OF U _ refl, where env = env and e = ?e and H = "Held S" and st = st and
              cookie = cookie and buf = buf and s' = s'] r virt small None s1 s2 c1 3 True
            by (simp add: FspProcessBufferAcquire_def acquire_counted_def Let_def)
        next
          case False
          let ?c = "if AllocItem env then free_entry ?e ?s2 else free_entry ?e (Core S)"
          have "ps_step cpus ?T (?T\<lparr>Core := ?c, Fresh := Fresh S\<rparr>)"
            using step_no_item [OF F, of cpus] step_no_share [OF F, of cpus used s2] False s2 c1
            by (cases "AllocItem env") simp_all
          then have "ps_reachable cpus (S\<lparr>Core := ?c\<rparr>)" using ps_reach_step [OF T] by simp
          moreover have "cookie = None \<and> s' = ?c" using r False small None s1 s2 c1 3
            by (auto simp: FspProcessBufferAcquire_def acquire_counted_def alloc_no_reuse_def Let_def split: prod.splits if_splits)
          ultimately show ?thesis by simp
        qed
      qed (use r small None s1 c1 S id in \<open>auto simp: FspProcessBufferAcquire_def acquire_counted_def alloc_no_reuse_def
          split: prod.splits\<close>)
    qed
  qed
qed

text \<open>C24. Acquiring a buffer, on every branch and in every reachable state: the new state is reachable
  with the cookie, if there is one, as the only entry that changed hands, and a cookie comes with success
  and with the buffer of its entry. Nothing is lost when memory is short: an entry is allocated only when
  the process has none that is free and not its share yet, and the entries that are free or were freed,
  with the cookie's, are those from before and the new one; so are the items, in the table or freed. The
  same holds for the part behind the allocation of an entry and an item from any reachable state, which other
  threads may have brought about while the lock was released.\<close>
theorem psbuffer_acquire:
  assumes S: "ps_reachable cpus S" and live: "CurrentProcessId env \<notin> Dead S"
    and alloc: "AllocEntry env \<noteq> 0 \<Longrightarrow> AllocEntry env \<notin># image_mset owned_ptr (places S)"
    and virt: "\<And>st p. AllocateVirtualMemory env 0x10000 = (st, p) \<Longrightarrow> NT_SUCCESS st \<Longrightarrow>
      p \<noteq> 0 \<and> (CurrentProcessId env, p) \<notin># buffers (places S)"
    and r: "FspProcessBufferAcquire env cpus BufferSize (Core S) = (st, cookie, buf, s')"
  shows "ps_reachable cpus (S\<lparr>Core := s', Held := (case cookie of None \<Rightarrow> Held S
      | Some e \<Rightarrow> add_mset (CurrentProcessId env, e) (Held S))\<rparr>)
    \<and> (\<forall>c. cookie = Some c \<longrightarrow> st = STATUS_SUCCESS \<and> entry_Buffer c = buf \<and> buf \<noteq> 0)
    \<and> (let new = (entry_wanted cpus BufferSize (Core S) (CurrentProcessId env) \<and> AllocEntry env \<noteq> 0)
       in entry_total s' + cookie_entry cookie = entry_total (Core S) + (if new then {#AllocEntry env#} else {#})
        \<and> item_total s' = item_total (Core S) + (if new \<and> AllocItem env then 1 else 0)
        \<and> FreedBuffers s' = FreedBuffers (Core S))
    \<and> (\<forall>T e st cookie buf t. ps_reachable cpus T \<longrightarrow> acquire_counted env cpus BufferSize e (Core T) = (st, cookie, buf, t) \<longrightarrow>
        entry_total t + cookie_entry cookie = add_mset (entry_ptr e) (entry_total (Core T))
        \<and> item_total t = item_total (Core T) + 1 \<and> FreedBuffers t = FreedBuffers (Core T))"
    (is "?A \<and> ?B \<and> ?C \<and> ?D")
proof (intro conjI)
  have ok: "table_ok (Core T)" if "ps_reachable cpus T" for T by (rule ps_okD(1) [OF ps_reachable_ok [OF that]])
  show ?C using acquire_totals [OF ok [OF S] r refl] by (simp add: Let_def)
  show ?D
  proof (intro allI impI)
    fix T e st cookie buf t
    assume T: "ps_reachable cpus T" and t: "acquire_counted env cpus BufferSize e (Core T) = (st, cookie, buf, t)"
    show "entry_total t + cookie_entry cookie = add_mset (entry_ptr e) (entry_total (Core T))
        \<and> item_total t = item_total (Core T) + 1 \<and> FreedBuffers t = FreedBuffers (Core T)"
      using counted_totals [OF ok [OF T] t] by (intro conjI)
  qed
  show ?A using acquire_steps [OF assms] by (rule conjunct1)
  show ?B using acquire_steps [OF assms] by (rule conjunct2)
qed

theorem psbuffer_acquire_witness:
  "\<exists>s' c. ps_reachable 2 (sample_pool\<lparr>Core := s', Held := add_mset (4, c) (Held sample_pool)\<rparr>) \<and> entry_Buffer c = 0x20000"
proof -
  let ?env = "\<lparr>CurrentProcessId = 4, AllocEntry = 0x2000, AllocItem = True,
     AllocateVirtualMemory = \<lambda>n. (0, 0x20000)\<rparr>"
  have h: "Held sample_pool = {#(4, sample_entry)#}" "Fresh sample_pool = {#}" "Dead sample_pool = {}"
    by (simp_all add: sample_pool_def)
  have f: "free_entries (Core sample_pool) = {#}"
  proof -
    have "acquire_section2 2 ProcessBufferInitial 4 = (True, False, Core sample_pool)"
      by (simp add: acquire_section2_def free_entry_empty sample_pool_def)
    from section2_ok(2) [OF free_entry_empty(1) this] show ?thesis by (simp add: free_entry_empty)
  qed
  have "\<exists>s'. FspProcessBufferAcquire ?env 2 100 (Core sample_pool) =
      (0, Some \<lparr>entry_ptr = 0x2000, entry_Buffer = 0x20000\<rparr>, 0x20000, s')"
    by (simp add: FspProcessBufferAcquire_def acquire_counted_def acquire_section1_def acquire_section2_def acquire_finish_def
        sample_pool_item FspProcessBufferCountMax_def word_le_nat_alt word_less_nat_alt)
  then obtain s' where r: "FspProcessBufferAcquire ?env 2 100 (Core sample_pool) =
      (0, Some \<lparr>entry_ptr = 0x2000, entry_Buffer = 0x20000\<rparr>, 0x20000, s')" by blast
  from psbuffer_acquire [OF sample_pool_reachable _ _ _ r]
  have "ps_reachable 2 (sample_pool\<lparr>Core := s', Held :=
      add_mset (4, \<lparr>entry_ptr = 0x2000, entry_Buffer = 0x20000\<rparr>) (Held sample_pool)\<rparr>)"
    by (simp add: h f places_def sample_entry_def)
  then show ?thesis
    by (intro exI [of _ s'] exI [of _ "\<lparr>entry_ptr = 0x2000, entry_Buffer = 0x20000\<rparr>"]) simp
qed

end
