(* ===== verification/PathOps.thy ===== *)
theory PathOps
  imports Prelude
begin

text \<open>
  Splitting and joining paths in place (\<open>src/dll/path.c\<close>): a separator is overwritten by the
  terminator, and written back by \<open>FspPathCombine\<close>. A path is the memory from its first character
  on, and a pointer into it a position; \<open>None\<close> is a read behind that memory.
\<close>

section \<open>The operations\<close>

datatype path_ptr = In_path nat | Root_path

text \<open>The C string at a position.\<close>

definition cstr :: "wstr \<Rightarrow> nat \<Rightarrow> wstr" where
  "cstr b p = takeWhile (\<lambda>c. c \<noteq> 0) (drop p b)"

text \<open>\<open>for (; L'\\' == *Pointer; Pointer++)\<close>: the number of separators.\<close>

fun separators :: "wstr \<Rightarrow> nat option" where
  "separators [] = None"
| "separators (c # m) = (if c = 0x5c then map_option Suc (separators m) else Some 0)"

lemma separators_length: "separators m = Some k \<Longrightarrow> k < length m"
  by (induction m arbitrary: k) (auto split: if_splits)

text \<open>The position of the first separator, if any, and the position behind its run.\<close>

fun prefix_loop :: "wstr \<Rightarrow> nat \<Rightarrow> (nat option \<times> nat) option" where
  "prefix_loop [] pos = None"
| "prefix_loop (c # m) pos =
     (if c = 0 then Some (None, pos)
      else if c = 0x5c then (case separators m of None \<Rightarrow> None | Some k \<Rightarrow> Some (Some pos, pos + 1 + k))
      else prefix_loop m (pos + 1))"

text \<open>\<open>*PPrefix\<close>, \<open>*PRemain\<close> and the new memory; \<open>root\<close> tells that \<open>Root\<close> is not null.\<close>

definition FspPathPrefix :: "wstr \<Rightarrow> bool \<Rightarrow> (path_ptr \<times> nat \<times> wstr) option" where
  "FspPathPrefix Path root =
     (case prefix_loop Path 0 of
        None \<Rightarrow> None
      | Some (None, p) \<Rightarrow> Some (In_path 0, p, Path)
      | Some (Some q, p) \<Rightarrow> Some (if root \<and> q = 0 then Root_path else In_path 0, p, Path[q := 0]))"

text \<open>\<open>RemainEnd\<close> with \<open>Suffix\<close> once a separator was seen, and \<open>Pointer\<close> at the end.\<close>

function path_suffix_loop :: "wstr \<Rightarrow> nat \<Rightarrow> (nat \<times> nat) option \<Rightarrow> ((nat \<times> nat) option \<times> nat) option" where
  "path_suffix_loop [] pos found = None"
| "path_suffix_loop (c # m) pos found =
     (if c = 0 then Some (found, pos)
      else if c = 0x5c then
        (case separators m of
           None \<Rightarrow> None
         | Some k \<Rightarrow> path_suffix_loop (drop k m) (pos + 1 + k) (Some (pos, pos + 1 + k)))
      else path_suffix_loop m (pos + 1) found)"
  by pat_completeness auto
termination by (relation "measure (\<lambda>(m, _). length m)") auto

declare path_suffix_loop.simps [simp del]

definition FspPathSuffix :: "wstr \<Rightarrow> bool \<Rightarrow> (path_ptr \<times> nat \<times> wstr) option" where
  "FspPathSuffix Path root =
     (case path_suffix_loop Path 0 None of
        None \<Rightarrow> None
      | Some (Some (RemainEnd, Suffix), _) \<Rightarrow>
          Some (if root \<and> RemainEnd = 0 then Root_path else In_path 0, Suffix, Path[RemainEnd := 0])
      | Some (None, Pointer) \<Rightarrow> Some (In_path 0, Pointer, Path))"

definition FspPathCombine :: "wstr \<Rightarrow> nat \<Rightarrow> wstr" where
  "FspPathCombine Prefix Suffix =
     map (\<lambda>c. if c = 0 then 0x5c else c) (take Suffix Prefix) @ drop Suffix Prefix"

definition FspPathSuffixIndex :: "wstr \<Rightarrow> u32 option" where
  "FspPathSuffixIndex FileName =
     (case FspPathSuffix FileName True of
        None \<Rightarrow> None
      | Some (Remain, Suffix, _) \<Rightarrow> Some (if Remain = Root_path then 0 else of_nat Suffix))"

section \<open>The split\<close>

lemma cstr_string: "0 \<notin> set s \<Longrightarrow> cstr (s @ 0 # rest) 0 = s"
  by (auto simp: cstr_def takeWhile_append)

lemma separators_run:
  "c \<noteq> 0x5c \<Longrightarrow> separators (replicate k 0x5c @ c # m) = Some k"
  by (induction k) auto

lemma path_suffix_plain:
  "0 \<notin> set t \<Longrightarrow> 0x5c \<notin> set t \<Longrightarrow> path_suffix_loop (t @ 0 # rest) pos found = Some (found, pos + length t)"
  by (induction t arbitrary: pos) (auto simp: path_suffix_loop.simps)

lemma separators_split:
  "separators (b @ t) = Some k \<Longrightarrow> b \<noteq> [] \<Longrightarrow> last b \<noteq> 0x5c \<Longrightarrow> k < length b"
  by (induction b arbitrary: k) (auto split: if_splits)

lemma separators_some: "b \<noteq> [] \<Longrightarrow> last b \<noteq> 0x5c \<Longrightarrow> \<exists>k. separators (b @ t) = Some k"
  by (induction b) (auto split: if_splits)

text \<open>What is in front of the last run of separators does not matter.\<close>

lemma path_suffix_front:
  "0 \<notin> set a \<Longrightarrow> a = [] \<or> last a \<noteq> 0x5c \<Longrightarrow>
     \<exists>found'. path_suffix_loop (a @ t) pos found = path_suffix_loop t (pos + length a) found'"
proof (induction "length a" arbitrary: a pos found rule: less_induct)
  case less
  show ?case
  proof (cases a)
    case (Cons c a')
    show ?thesis
    proof (cases "c = 0x5c")
      case True
      with Cons less.prems have a': "a' \<noteq> []" "last a' \<noteq> 0x5c" by (auto split: if_splits)
      then obtain k where k: "separators (a' @ t) = Some k" using separators_some by blast
      have lt: "k < length a'" by (rule separators_split [OF k a'])
      have "\<exists>f. path_suffix_loop (drop k a' @ t) (pos + 1 + k) (Some (pos, pos + 1 + k)) =
          path_suffix_loop t (pos + 1 + k + length (drop k a')) f"
        using less.prems(1) Cons a' lt by (intro less.hyps) (auto dest: in_set_dropD)
      then show ?thesis using Cons True k lt by (simp add: path_suffix_loop.simps)
    next
      case False
      with less.hyps [of a' "pos + 1" found] Cons less.prems show ?thesis
        by (cases "a' = []") (auto simp: path_suffix_loop.simps)
    qed
  qed auto
qed

lemma path_suffix_split:
  assumes "0 \<notin> set a" "a = [] \<or> last a \<noteq> 0x5c" "0 \<notin> set t" "0x5c \<notin> set t"
  shows "FspPathSuffix (a @ replicate (Suc k) 0x5c @ t @ 0 # rest) root =
    Some (if root \<and> a = [] then Root_path else In_path 0, length a + Suc k,
      a @ 0 # replicate k 0x5c @ t @ 0 # rest)"
proof -
  let ?t = "replicate (Suc k) 0x5c @ t @ 0 # rest" and ?n = "length a + Suc k"
  obtain f where "path_suffix_loop (a @ ?t) 0 None = path_suffix_loop ?t (length a) f"
    using path_suffix_front [OF assms(1,2), of ?t 0 None] by auto
  moreover have "separators (replicate k 0x5c @ t @ 0 # rest) = Some k"
    using assms(4) by (cases t) (auto intro: separators_run)
  ultimately have "path_suffix_loop (a @ ?t) 0 None = Some (Some (length a, ?n), ?n + length t)"
    using path_suffix_plain [OF assms(3,4), of rest ?n "Some (length a, ?n)"]
    by (simp add: path_suffix_loop.simps)
  then show ?thesis by (simp add: FspPathSuffix_def list_update_append)
qed

lemma path_suffix_none:
  "0 \<notin> set s \<Longrightarrow> 0x5c \<notin> set s \<Longrightarrow>
     FspPathSuffix (s @ 0 # rest) root = Some (In_path 0, length s, s @ 0 # rest)"
  by (simp add: FspPathSuffix_def path_suffix_plain)

text \<open>Every string is of one of the two forms.\<close>

lemma last_separators:
  "0x5c \<in> set (s :: wstr) \<Longrightarrow>
     \<exists>a k t. s = a @ replicate (Suc k) 0x5c @ t \<and> (a = [] \<or> last a \<noteq> 0x5c) \<and> 0x5c \<notin> set t"
proof -
  assume "0x5c \<in> set s"
  then obtain b t where b: "s = b @ 0x5c # t" "0x5c \<notin> set t" by (metis split_list_last)
  have "\<exists>a k. b = a @ replicate k 0x5c \<and> (a = [] \<or> last a \<noteq> 0x5c)"
  proof (induction b rule: rev_induct)
    case (snoc c b)
    show ?case
    proof (cases "c = 0x5c")
      case True
      with snoc obtain a k where "b = a @ replicate k 0x5c" "a = [] \<or> last a \<noteq> 0x5c" by blast
      then show ?thesis using True
        by (intro exI [of _ a] exI [of _ "Suc k"]) (simp add: replicate_append_same [symmetric])
    next
      case False
      then show ?thesis by (intro exI [of _ "b @ [c]"] exI [of _ 0]) simp
    qed
  qed simp
  then obtain a k where "b = a @ replicate k 0x5c" "a = [] \<or> last a \<noteq> 0x5c" by blast
  then show ?thesis using b
    by (intro exI [of _ a] exI [of _ k] exI [of _ t]) (simp add: replicate_app_Cons_same)
qed

lemma combine_split:
  assumes "0 \<notin> set a"
  shows "FspPathCombine (a @ 0 # replicate k 0x5c @ r) (length a + Suc k) = a @ replicate (Suc k) 0x5c @ r"
proof -
  have "map (\<lambda>c. if c = 0 then 0x5c else c) a = a" using assms by (intro map_idI) auto
  then show ?thesis by (simp add: FspPathCombine_def)
qed

lemma combine_plain: "0 \<notin> set s \<Longrightarrow> n \<le> length s \<Longrightarrow> FspPathCombine (s @ r) n = s @ r"
proof -
  assume "0 \<notin> set s" "n \<le> length s"
  then have "map (\<lambda>c. if c = 0 then 0x5c else c) (take n s) = take n s"
    by (intro map_idI) (auto dest: in_set_takeD)
  then show ?thesis using \<open>n \<le> length s\<close> by (simp add: FspPathCombine_def flip: append_assoc)
qed

text \<open>C25. Splitting a path at its last separators in place: the remainder reads as what is before them
  (the root when that is nothing and a root is given), the suffix as what is behind, nothing outside
  the string is read, and \<open>FspPathCombine\<close> then restores the memory exactly.\<close>
theorem path_suffix_round_trip:
  assumes "0 \<notin> set s"
  shows "\<exists>remain suffix b. FspPathSuffix (s @ 0 # rest) root = Some (remain, suffix, b)
    \<and> FspPathCombine b suffix = s @ 0 # rest \<and> suffix \<le> length s
    \<and> (0x5c \<notin> set s \<longrightarrow> remain = In_path 0 \<and> cstr b 0 = s \<and> cstr b suffix = [])
    \<and> (\<forall>a k t. s = a @ replicate (Suc k) 0x5c @ t \<longrightarrow> (a = [] \<or> last a \<noteq> 0x5c) \<longrightarrow> 0x5c \<notin> set t \<longrightarrow>
        cstr b 0 = a \<and> cstr b suffix = t \<and> (remain = Root_path \<longleftrightarrow> root \<and> a = []))"
proof (cases "0x5c \<in> set s")
  case False
  then show ?thesis
    using path_suffix_none [OF assms False, of rest root] combine_plain [OF assms, of "length s"] assms
    by (auto simp: cstr_def takeWhile_append)
next
  case True
  from last_separators [OF True] obtain a k t where
    s: "s = a @ replicate (Suc k) 0x5c @ t" and a: "a = [] \<or> last a \<noteq> 0x5c" and t: "0x5c \<notin> set t"
    by blast
  let ?b = "a @ 0 # replicate k 0x5c @ t @ 0 # rest" and ?n = "length a + Suc k"
  have z: "0 \<notin> set a" "0 \<notin> set t" using assms by (auto simp: s)
  have f: "FspPathSuffix (s @ 0 # rest) root =
      Some (if root \<and> a = [] then Root_path else In_path 0, ?n, ?b)"
    using path_suffix_split [OF z(1) a z(2) t, of k rest root] by (simp add: s)
  have cs: "cstr ?b 0 = a" "cstr ?b ?n = t" using z by (auto simp: cstr_def takeWhile_append)
  have same: "a' = a \<and> t' = t"
    if s': "s = a' @ replicate (Suc k') 0x5c @ t'" and a': "a' = [] \<or> last a' \<noteq> 0x5c" and t': "0x5c \<notin> set t'"
    for a' k' t'
  proof -
    have z': "0 \<notin> set a'" "0 \<notin> set t'" using assms by (auto simp: s')
    have "FspPathSuffix (s @ 0 # rest) False =
        Some (In_path 0, length a' + Suc k', a' @ 0 # replicate k' 0x5c @ t' @ 0 # rest)"
      using path_suffix_split [OF z'(1) a' z'(2) t', of k' rest False] by (simp add: s')
    moreover have "FspPathSuffix (s @ 0 # rest) False = Some (In_path 0, ?n, ?b)"
      using path_suffix_split [OF z(1) a z(2) t, of k rest False] by (simp add: s)
    ultimately have "a' @ 0 # replicate k' 0x5c @ t' @ 0 # rest = ?b" "length a' + Suc k' = ?n" by simp_all
    moreover have "cstr (a' @ 0 # replicate k' 0x5c @ t' @ 0 # rest) 0 = a'"
        "cstr (a' @ 0 # replicate k' 0x5c @ t' @ 0 # rest) (length a' + Suc k') = t'"
      using z' by (auto simp: cstr_def takeWhile_append)
    ultimately show ?thesis using cs by metis
  qed
  let ?r = "if root \<and> a = [] then Root_path else In_path 0"
  have all: "\<forall>a' k' t'. s = a' @ replicate (Suc k') 0x5c @ t' \<longrightarrow> (a' = [] \<or> last a' \<noteq> 0x5c) \<longrightarrow>
      0x5c \<notin> set t' \<longrightarrow> cstr ?b 0 = a' \<and> cstr ?b ?n = t' \<and> (?r = Root_path \<longleftrightarrow> root \<and> a' = [])"
    using same cs by (intro allI impI) (drule same, assumption+, simp)
  have c: "FspPathCombine ?b ?n = s @ 0 # rest" using combine_split [OF z(1), of k "t @ 0 # rest"] by (simp add: s)
  show ?thesis
    by (rule exI [of _ ?r], rule exI [of _ ?n], rule exI [of _ ?b], intro conjI)
      (rule f, rule c, simp add: s, use True in simp, rule all)
qed

theorem path_suffix_round_trip_witness:
  "\<exists>b. FspPathSuffix [0x5c, 0x61, 0x5c, 0x62, 0] True = Some (In_path 0, 3, b) \<and>
     FspPathCombine b 3 = [0x5c, 0x61, 0x5c, 0x62, 0]"
  using path_suffix_round_trip [of "[0x5c, 0x61, 0x5c, 0x62]" "[]" True]
  by (auto simp: FspPathSuffix_def path_suffix_loop.simps numeral_3_eq_3)

end
