(* ===== verification/Security.thy ===== *)
theory Security
  imports PathOps
begin

text \<open>
  The access check of the user-mode library (\<open>src/dll/security.c\<close>): it asks the file system for the
  security of a file and of the directories above it and asks Windows whether the caller has the
  access. The file system is a function over a state of its own, so that its answers may change from
  one call to the next; \<open>AccessCheck\<close> and the allocator are parameters too. A result \<open>None\<close> is a
  read outside the request, a file system that answers \<open>STATUS_BUFFER_OVERFLOW\<close> for ever, or a nested
  check deeper than the fuel, which two levels never are.
\<close>

section \<open>Constants\<close>

abbreviation (input) FILE_LIST_DIRECTORY :: u32 where "FILE_LIST_DIRECTORY \<equiv> 0x1"
abbreviation (input) FILE_WRITE_DATA :: u32 where "FILE_WRITE_DATA \<equiv> 0x2"
abbreviation (input) FILE_ADD_FILE :: u32 where "FILE_ADD_FILE \<equiv> 0x2"
abbreviation (input) FILE_APPEND_DATA :: u32 where "FILE_APPEND_DATA \<equiv> 0x4"
abbreviation (input) FILE_ADD_SUBDIRECTORY :: u32 where "FILE_ADD_SUBDIRECTORY \<equiv> 0x4"
abbreviation (input) FILE_TRAVERSE :: u32 where "FILE_TRAVERSE \<equiv> 0x20"
abbreviation (input) FILE_DELETE_CHILD :: u32 where "FILE_DELETE_CHILD \<equiv> 0x40"
abbreviation (input) FILE_READ_ATTRIBUTES :: u32 where "FILE_READ_ATTRIBUTES \<equiv> 0x80"
abbreviation (input) DELETE :: u32 where "DELETE \<equiv> 0x10000"
abbreviation (input) MAXIMUM_ALLOWED :: u32 where "MAXIMUM_ALLOWED \<equiv> 0x2000000"
abbreviation (input) FILE_ALL_ACCESS :: u32 where "FILE_ALL_ACCESS \<equiv> 0x1f01ff"
abbreviation (input) FILE_ATTRIBUTE_READONLY :: u32 where "FILE_ATTRIBUTE_READONLY \<equiv> 0x1"
abbreviation (input) FILE_ATTRIBUTE_DIRECTORY :: u32 where "FILE_ATTRIBUTE_DIRECTORY \<equiv> 0x10"
abbreviation (input) FILE_ATTRIBUTE_REPARSE_POINT :: u32 where "FILE_ATTRIBUTE_REPARSE_POINT \<equiv> 0x400"
abbreviation (input) FILE_DIRECTORY_FILE :: u32 where "FILE_DIRECTORY_FILE \<equiv> 0x1"
abbreviation (input) FILE_NON_DIRECTORY_FILE :: u32 where "FILE_NON_DIRECTORY_FILE \<equiv> 0x40"
abbreviation (input) FILE_DELETE_ON_CLOSE :: u32 where "FILE_DELETE_ON_CLOSE \<equiv> 0x1000"
abbreviation (input) FILE_OPEN_REPARSE_POINT :: u32 where "FILE_OPEN_REPARSE_POINT \<equiv> 0x200000"
abbreviation (input) FspFsctlTransactCreateKind :: u32 where "FspFsctlTransactCreateKind \<equiv> 1"

definition FlagOn :: "u32 \<Rightarrow> u32 \<Rightarrow> bool" where
  "FlagOn f b \<longleftrightarrow> f AND b \<noteq> 0"

section \<open>Requests, the file system and the state of a check\<close>

text \<open>
  A create request; the buffer is the memory of the file name, and the other buffers that it holds are
  separate: the descriptor for a new file (none when its offset is 0) and the extended attributes.
\<close>

record create_request =
  Kind :: u32
  Name_Buffer :: wstr
  NamedStream :: u16
  UserMode :: bool
  HasTraversePrivilege :: bool
  HasRestorePrivilege :: bool
  HasTrailingBackslash :: bool
  OpenTargetDirectory :: bool
  AcceptsSecurityDescriptor :: bool
  CreateOptions :: u32
  Create_FileAttributes :: u32
  DesiredAccess :: u32
  Create_GrantedAccess :: u32
  AccessToken :: u64
  Creator_Descriptor :: "bytes option"
  Create_AllocationSize :: u64
  Ea :: bytes
  EaIsReparsePoint :: bool

text \<open>
  \<open>GetSecurityByName\<close> takes the name and the size of the buffer, and answers with a status, the
  attributes, the descriptor and its size; \<open>AccessCheck\<close> fails with a status or says which access it
  granted and whether that is enough.
\<close>

record ('s, 'sd) access_env =
  GetSecurityByName :: "('s \<Rightarrow> wstr \<Rightarrow> nat \<Rightarrow> (ntstatus \<times> u32 \<times> 'sd \<times> nat) \<times> 's) option"
  AccessCheck :: "'sd \<Rightarrow> u64 \<Rightarrow> u32 \<Rightarrow> ntstatus + u32 \<times> bool"
  MemAlloc :: "nat \<Rightarrow> bool"
  UmNoReparsePointsDirCheck :: bool

text \<open>
  \<open>SecurityDescriptor\<close> is null when there is no block; \<open>Live\<close> counts the blocks not yet freed;
  \<open>Buf\<close> is the buffer of the request, which holds the name in its changed form during a check.
\<close>

record ('s, 'sd) check_state =
  Fs :: 's
  Live :: int
  Block :: bool
  Sd :: "'sd option"
  SdSize :: nat
  Buf :: wstr

definition mem_free :: "('s, 'sd) check_state \<Rightarrow> ('s, 'sd) check_state" where
  "mem_free c = c\<lparr>Live := (if Block c then Live c - 1 else Live c), Block := False, Sd := None\<rparr>"

section \<open>Asking the file system\<close>

partial_function (option) FspGetSecurityByName ::
  "('s \<Rightarrow> wstr \<Rightarrow> nat \<Rightarrow> (ntstatus \<times> u32 \<times> 'sd \<times> nat) \<times> 's) \<Rightarrow> (nat \<Rightarrow> bool) \<Rightarrow> wstr \<Rightarrow>
   ('s, 'sd) check_state \<Rightarrow> (ntstatus \<times> u32 \<times> ('s, 'sd) check_state) option" where
  "FspGetSecurityByName get alloc name c =
     (case get (Fs c) name (SdSize c) of
        ((Result, attr, sd, sz), s) \<Rightarrow>
          (if Result \<noteq> STATUS_BUFFER_OVERFLOW
           then Some (Result, attr, c\<lparr>Fs := s, SdSize := sz,
             Sd := (if NT_SUCCESS Result then Some sd else Sd c)\<rparr>)
           else if alloc sz
           then FspGetSecurityByName get alloc name
             ((mem_free (c\<lparr>Fs := s, SdSize := sz\<rparr>))\<lparr>Live := Live (mem_free c) + 1, Block := True\<rparr>)
           else Some (STATUS_INSUFFICIENT_RESOURCES, attr, mem_free (c\<lparr>Fs := s, SdSize := sz\<rparr>))))"

declare FspGetSecurityByName.simps [code]

definition get_security ::
  "('s, 'sd) access_env \<Rightarrow> wstr \<Rightarrow> ('s, 'sd) check_state \<Rightarrow> (ntstatus \<times> u32 \<times> ('s, 'sd) check_state) option" where
  "get_security env = FspGetSecurityByName (the (GetSecurityByName env)) (MemAlloc env)"

text \<open>\<open>AccessCheck\<close> with its result as a status; \<open>granted\<close> stays when the call fails.\<close>

definition run_access_check ::
  "('s, 'sd) access_env \<Rightarrow> create_request \<Rightarrow> ('s, 'sd) check_state \<Rightarrow> u32 \<Rightarrow> u32 \<Rightarrow> ntstatus \<times> u32" where
  "run_access_check env req c desired granted =
     (case AccessCheck env (the (Sd c)) (AccessToken req) desired of
        Inl e \<Rightarrow> (e, granted)
      | Inr (g, ok) \<Rightarrow> (if ok then STATUS_SUCCESS else STATUS_ACCESS_DENIED, g))"

section \<open>Traversal\<close>

text \<open>
  The loop over the directories of a name, from position \<open>pos\<close> on. The code ends the name at the
  separator during the query and puts the separator back at once, so the query sees the prefix. The
  first result says whether the check is over; then come the status, \<open>FileAttributes\<close>, and the state.
\<close>

definition traverse_one ::
  "('s, 'sd) access_env \<Rightarrow> create_request \<Rightarrow> wstr \<Rightarrow> ('s, 'sd) check_state \<Rightarrow>
   (bool \<times> ntstatus \<times> u32 \<times> ('s, 'sd) check_state) option" where
  "traverse_one env req Prefix c =
     (case get_security env Prefix c of
        None \<Rightarrow> None
      | Some (Result, attr, c) \<Rightarrow>
          (if NT_SUCCESS Result \<and> Result \<noteq> STATUS_REPARSE \<and> FlagOn attr FILE_ATTRIBUTE_REPARSE_POINT
           then map_option (\<lambda>i. (True, STATUS_REPARSE, i, c)) (FspPathSuffixIndex (Prefix @ [0]))
           else Some
             (if \<not> NT_SUCCESS Result \<or> Result = STATUS_REPARSE
              then (True, if Result = STATUS_OBJECT_NAME_NOT_FOUND then STATUS_OBJECT_PATH_NOT_FOUND else Result,
                attr, c)
              else if \<not> FlagOn attr FILE_ATTRIBUTE_DIRECTORY then (True, STATUS_OBJECT_PATH_NOT_FOUND, attr, c)
              else if 0 < SdSize c then
                (let r = fst (run_access_check env req c FILE_TRAVERSE 0) in (\<not> NT_SUCCESS r, r, attr, c))
              else (False, Result, attr, c))))"

function traverse_loop ::
  "('s, 'sd) access_env \<Rightarrow> create_request \<Rightarrow> wstr \<Rightarrow> nat \<Rightarrow> ('s, 'sd) check_state \<Rightarrow>
   (bool \<times> ntstatus \<times> u32 \<times> ('s, 'sd) check_state) option" where
  "traverse_loop env req FileName pos c =
     (let Remain = pos + length (takeWhile (\<lambda>c. c \<noteq> 0x5c \<and> c \<noteq> 0x3a) (drop pos FileName))
      in if \<not> (Remain < length FileName \<and> FileName ! Remain = 0x5c) then Some (False, STATUS_SUCCESS, 0, c)
         else
           case traverse_one env req (if Remain > 0 then take Remain FileName else [0x5c]) c of
             None \<Rightarrow> None
           | Some (over, Result, attr, c) \<Rightarrow>
               (if over then Some (True, Result, attr, c)
                else traverse_loop env req FileName
                  (Remain + length (takeWhile (\<lambda>c. c = 0x5c) (drop Remain FileName))) c))"
  by pat_completeness auto
termination
proof (relation "measure (\<lambda>(env, req, FileName, pos, c). length FileName - pos)", goal_cases)
  case (2 env req FileName pos c Remain)
  have "drop Remain FileName = 0x5c # drop (Suc Remain) FileName"
    using 2(2) Cons_nth_drop_Suc [of Remain FileName] by simp
  then show ?case using 2(1,2) by auto
qed auto

declare traverse_loop.simps [simp del]

section \<open>The parts of the check\<close>

text \<open>
  What the access check grants for the file itself. \<open>parent\<close> is the nested check of the parent
  directory. The result says whether the check is over, the status and the granted access.
\<close>

definition access_grant ::
  "('s, 'sd) access_env \<Rightarrow>
   (u32 \<Rightarrow> ('s, 'sd) check_state \<Rightarrow> (ntstatus \<times> u32 \<times> ('s, 'sd) check_state) option) \<Rightarrow>
   create_request \<Rightarrow> u32 \<Rightarrow> ('s, 'sd) check_state \<Rightarrow> (bool \<times> ntstatus \<times> u32 \<times> ('s, 'sd) check_state) option" where
  "access_grant env parent req Desired c =
     (if \<not> (UserMode req \<and> 0 < SdSize c) then Some (False, STATUS_SUCCESS, 0, c)
      else if Desired = 0 then Some (False, STATUS_SUCCESS, 0, c)
      else
        let (Result, granted) = run_access_check env req c Desired 0
        in if NT_SUCCESS Result then Some (False, Result, granted, c)
           else if Result \<noteq> STATUS_ACCESS_DENIED \<or>
               \<not> FlagOn (MAXIMUM_ALLOWED OR DELETE OR FILE_READ_ATTRIBUTES) Desired
           then Some (True, Result, granted, c)
           else
             (case parent (if FlagOn MAXIMUM_ALLOWED Desired then FILE_DELETE_CHILD OR FILE_LIST_DIRECTORY
                 else (if FlagOn DELETE Desired then FILE_DELETE_CHILD else 0) OR
                   (if FlagOn FILE_READ_ATTRIBUTES Desired then FILE_LIST_DIRECTORY else 0)) c of
                None \<Rightarrow> None
              | Some (Result, ParentAccess, c) \<Rightarrow>
                  (if \<not> NT_SUCCESS Result then Some (True, STATUS_ACCESS_DENIED, granted, c)
                   else
                     let Desired2 = Desired AND NOT
                           ((if FlagOn FILE_DELETE_CHILD ParentAccess then DELETE else 0) OR
                            (if FlagOn FILE_LIST_DIRECTORY ParentAccess then FILE_READ_ATTRIBUTES else 0));
                         (Result, granted) =
                           (if Desired2 \<noteq> 0 then
                              (case AccessCheck env (the (Sd c)) (AccessToken req) Desired2 of
                                 Inl e \<Rightarrow> (STATUS_ACCESS_DENIED, granted)
                               | Inr (g, ok) \<Rightarrow> (if ok then STATUS_SUCCESS else STATUS_ACCESS_DENIED, g))
                            else (STATUS_SUCCESS, granted))
                     in if \<not> NT_SUCCESS Result then Some (True, Result, granted, c)
                        else Some (False, Result,
                          granted OR (if FlagOn FILE_DELETE_CHILD ParentAccess then DELETE else 0)
                            OR (if FlagOn FILE_LIST_DIRECTORY ParentAccess then FILE_READ_ATTRIBUTES else 0), c))))"

text \<open>The checks of the kind of the file: over with a status and \<open>FileAttributes\<close>, or not.\<close>

datatype access_target = Parent_directory | Main_file | File_itself

definition access_type ::
  "('s, 'sd) access_env \<Rightarrow> create_request \<Rightarrow> access_target \<Rightarrow> wstr \<Rightarrow> u32 \<Rightarrow> (bool \<times> ntstatus \<times> u32) option" where
  "access_type env req target FileName attr =
     (let reparse = map_option (\<lambda>i. (True, STATUS_REPARSE, i)) (FspPathSuffixIndex (FileName @ [0]))
      in case target of
        Parent_directory \<Rightarrow>
          (if FlagOn attr FILE_ATTRIBUTE_REPARSE_POINT then reparse
           else if \<not> FlagOn attr FILE_ATTRIBUTE_DIRECTORY then Some (True, STATUS_NOT_A_DIRECTORY, attr)
           else Some (False, STATUS_SUCCESS, attr))
      | Main_file \<Rightarrow>
          (if FlagOn attr FILE_ATTRIBUTE_REPARSE_POINT \<and> \<not> FlagOn (CreateOptions req) FILE_OPEN_REPARSE_POINT
           then reparse else Some (False, STATUS_SUCCESS, attr))
      | File_itself \<Rightarrow>
          (if FlagOn attr FILE_ATTRIBUTE_REPARSE_POINT \<and> \<not> FlagOn (CreateOptions req) FILE_OPEN_REPARSE_POINT
           then reparse
           else if FlagOn attr FILE_ATTRIBUTE_REPARSE_POINT \<and> UmNoReparsePointsDirCheck env
           then Some (False, STATUS_SUCCESS, attr)
           else if FlagOn (CreateOptions req) FILE_DIRECTORY_FILE \<and> \<not> FlagOn attr FILE_ATTRIBUTE_DIRECTORY
           then Some (True, STATUS_NOT_A_DIRECTORY, attr)
           else if FlagOn (CreateOptions req) FILE_NON_DIRECTORY_FILE \<and> FlagOn attr FILE_ATTRIBUTE_DIRECTORY
           then Some (True, STATUS_FILE_IS_A_DIRECTORY, attr)
           else Some (False, STATUS_SUCCESS, attr)))"

text \<open>The read-only checks at the end: the status and the granted access.\<close>

definition maximum_or :: "u32 \<Rightarrow> u32" where
  "maximum_or Desired = (if FlagOn MAXIMUM_ALLOWED Desired then FILE_ALL_ACCESS else Desired)"

definition access_final :: "create_request \<Rightarrow> u32 \<Rightarrow> u32 \<Rightarrow> nat \<Rightarrow> u32 \<Rightarrow> ntstatus \<times> u32" where
  "access_final req Desired attr sd_size granted =
     (let writes = FILE_WRITE_DATA OR FILE_APPEND_DATA OR FILE_ADD_SUBDIRECTORY OR FILE_DELETE_CHILD;
          readonly_file = (attr AND (FILE_ATTRIBUTE_READONLY OR FILE_ATTRIBUTE_DIRECTORY) = FILE_ATTRIBUTE_READONLY)
      in if UserMode req then
           (if readonly_file \<and> FlagOn Desired writes then (STATUS_ACCESS_DENIED, granted)
            else if attr AND FILE_ATTRIBUTE_READONLY = FILE_ATTRIBUTE_READONLY
                \<and> FlagOn (CreateOptions req) FILE_DELETE_ON_CLOSE
            then (STATUS_CANNOT_DELETE, granted)
            else
              (let granted = (if sd_size = 0 then maximum_or Desired else granted)
               in (STATUS_SUCCESS, if readonly_file \<and> FlagOn MAXIMUM_ALLOWED Desired
                  then granted AND NOT writes else granted)))
         else (STATUS_SUCCESS, maximum_or Desired))"

section \<open>The access check\<close>

text \<open>
  The file name of the check, where its suffix begins, and the buffer with the name ended in place:
  the parent directory, the main file of a stream, or the file.
\<close>

definition access_name :: "create_request \<Rightarrow> access_target \<Rightarrow> (wstr \<times> nat \<times> wstr) option" where
  "access_name req target =
     (case target of
        Parent_directory \<Rightarrow>
          (case FspPathSuffix (Name_Buffer req) True of
             None \<Rightarrow> None
           | Some (Remain, Suffix, b) \<Rightarrow> Some (if Remain = Root_path then [0x5c] else cstr b 0, Suffix, b))
      | Main_file \<Rightarrow>
          (let i = unat (NamedStream req) div 2
           in if i < length (Name_Buffer req)
              then Some (cstr ((Name_Buffer req)[i := 0]) 0, 0, (Name_Buffer req)[i := 0]) else None)
      | File_itself \<Rightarrow>
          (if 0 \<in> set (Name_Buffer req) then Some (cstr (Name_Buffer req) 0, 0, Name_Buffer req) else None))"

text \<open>The name in the buffer put back at the exit.\<close>

definition access_restore :: "create_request \<Rightarrow> access_target \<Rightarrow> nat \<Rightarrow> wstr \<Rightarrow> wstr" where
  "access_restore req target Suffix b =
     (case target of
        Parent_directory \<Rightarrow> FspPathCombine b Suffix
      | Main_file \<Rightarrow> b[unat (NamedStream req) div 2 := 0x3a]
      | File_itself \<Rightarrow> b)"

text \<open>Between the name and the exit: the status, \<open>FileAttributes\<close>, the granted access, the state.\<close>

definition access_body ::
  "('s, 'sd) access_env \<Rightarrow>
   (u32 \<Rightarrow> ('s, 'sd) check_state \<Rightarrow> (ntstatus \<times> u32 \<times> ('s, 'sd) check_state) option) \<Rightarrow>
   create_request \<Rightarrow> access_target \<Rightarrow> bool \<Rightarrow> bool \<Rightarrow> u32 \<Rightarrow> wstr \<Rightarrow> ('s, 'sd) check_state \<Rightarrow>
   (ntstatus \<times> u32 \<times> u32 \<times> ('s, 'sd) check_state) option" where
  "access_body env parent req target CheckParentOrMain AllowTraverseCheck Desired FileName c =
     (case (if UserMode req \<and> AllowTraverseCheck \<and> \<not> HasTraversePrivilege req \<and> FileName \<noteq> [0x5c]
            then traverse_loop env req FileName 0 c else Some (False, STATUS_SUCCESS, 0, c)) of
        None \<Rightarrow> None
      | Some (over, Result, attr, c) \<Rightarrow>
          if over then Some (Result, attr, 0, c)
          else
            (case get_security env FileName c of
               None \<Rightarrow> None
             | Some (Result, attr, c) \<Rightarrow>
                 if \<not> NT_SUCCESS Result \<or> Result = STATUS_REPARSE then Some (Result, attr, 0, c)
                 else if \<not> CheckParentOrMain \<and> HasTrailingBackslash req \<and> \<not> FlagOn attr FILE_ATTRIBUTE_DIRECTORY
                 then Some (STATUS_OBJECT_NAME_INVALID, attr, 0, c)
                 else
                   (case access_grant env parent req Desired c of
                      None \<Rightarrow> None
                    | Some (over, Result, granted, c) \<Rightarrow>
                        if over then Some (Result, attr, granted, c)
                        else
                          (case access_type env req target FileName attr of
                             None \<Rightarrow> None
                           | Some (over, Result, attr) \<Rightarrow>
                               if over then Some (Result, attr, granted, c)
                               else
                                 (let (Result, granted) = access_final req Desired attr (SdSize c) granted
                                  in Some (Result, attr, granted, c))))))"

text \<open>The check of the parent directory inside a check: the same buffer, and no stream.\<close>

definition nested_check ::
  "(u32 \<Rightarrow> create_request \<Rightarrow> 's \<times> int \<Rightarrow> (ntstatus \<times> u32 \<times> 'sd option \<times> create_request \<times> 's \<times> int) option) \<Rightarrow>
   create_request \<Rightarrow> u32 \<Rightarrow> ('s, 'sd) check_state \<Rightarrow> (ntstatus \<times> u32 \<times> ('s, 'sd) check_state) option" where
  "nested_check check req desired c =
     (case check desired (req\<lparr>Name_Buffer := Buf c, NamedStream := 0\<rparr>) (Fs c, Live c) of
        None \<Rightarrow> None
      | Some (Result, ParentAccess, _, req', s, live) \<Rightarrow>
          Some (Result, ParentAccess, c\<lparr>Fs := s, Live := live, Buf := Name_Buffer req'\<rparr>))"

text \<open>
  The exit. The result: the status, \<open>*PGrantedAccess\<close>, the descriptor given to the caller, the
  request and the state of the file system and of the memory.
\<close>

definition access_exit ::
  "create_request \<Rightarrow> access_target \<Rightarrow> bool \<Rightarrow> nat \<Rightarrow> ntstatus \<times> u32 \<times> u32 \<times> ('s, 'sd) check_state \<Rightarrow>
   ntstatus \<times> u32 \<times> 'sd option \<times> create_request \<times> 's \<times> int" where
  "access_exit req target WantDescriptor Suffix y =
     (case y of (Result, attr, granted, c) \<Rightarrow>
        let (granted, sd, c) =
              (if Result = STATUS_REPARSE then (attr, None, c)
               else if WantDescriptor \<and> 0 < SdSize c \<and> NT_SUCCESS Result then (granted, Sd c, c)
               else (granted, None, mem_free c))
        in (if target = Parent_directory \<and> Result = STATUS_OBJECT_NAME_NOT_FOUND
            then STATUS_OBJECT_PATH_NOT_FOUND else Result,
          granted, sd, req\<lparr>Name_Buffer := access_restore req target Suffix (Buf c)\<rparr>, Fs c, Live c))"

definition access_target_of :: "create_request \<Rightarrow> bool \<Rightarrow> access_target" where
  "access_target_of req CheckParentOrMain =
     (if \<not> CheckParentOrMain then File_itself
      else if NamedStream req = 0 then Parent_directory else Main_file)"

text \<open>The results that need no question to the file system.\<close>

definition access_early ::
  "('s, 'sd) access_env \<Rightarrow> access_target \<Rightarrow> u32 \<Rightarrow> bool \<Rightarrow> create_request \<Rightarrow> (ntstatus \<times> u32) option" where
  "access_early env target Desired WantDescriptor req =
     (let b = Name_Buffer req
      in if Kind req \<noteq> FspFsctlTransactCreateKind then Some (STATUS_INVALID_PARAMETER, 0)
         else if target = Parent_directory \<and> 2 \<le> length b \<and> b ! 0 = 0x5c \<and> b ! 1 = 0
         then Some (STATUS_INVALID_PARAMETER, 0)
         else if GetSecurityByName env = None \<or> (\<not> UserMode req \<and> \<not> WantDescriptor)
         then Some (STATUS_SUCCESS, maximum_or Desired)
         else None)"

fun FspAccessCheckEx ::
  "nat \<Rightarrow> ('s, 'sd) access_env \<Rightarrow> bool \<Rightarrow> bool \<Rightarrow> u32 \<Rightarrow> bool \<Rightarrow> create_request \<Rightarrow> 's \<times> int \<Rightarrow>
   (ntstatus \<times> u32 \<times> 'sd option \<times> create_request \<times> 's \<times> int) option" where
  "FspAccessCheckEx 0 env CheckParentOrMain AllowTraverseCheck Desired WantDescriptor req sl = None"
| "FspAccessCheckEx (Suc fuel) env CheckParentOrMain AllowTraverseCheck Desired WantDescriptor req sl =
     (let target = access_target_of req CheckParentOrMain
      in case access_early env target Desired WantDescriptor req of
           Some (Result, granted) \<Rightarrow> Some (Result, granted, None, req, sl)
         | None \<Rightarrow>
           (case access_name req target of
              None \<Rightarrow> None
            | Some (FileName, Suffix, b) \<Rightarrow>
                map_option (access_exit req target WantDescriptor Suffix)
                  (if \<not> MemAlloc env 1024
                   then Some (STATUS_INSUFFICIENT_RESOURCES, 0, 0,
                     \<lparr>Fs = fst sl, Live = snd sl, Block = False, Sd = None, SdSize = 1024, Buf = b\<rparr>)
                   else access_body env
                     (nested_check (\<lambda>desired req sl. FspAccessCheckEx fuel env True False desired False req sl) req)
                     req target CheckParentOrMain AllowTraverseCheck Desired FileName
                     \<lparr>Fs = fst sl, Live = snd sl + 1, Block = True, Sd = None, SdSize = 1024, Buf = b\<rparr>)))"

text \<open>\<open>FspAccessCheck\<close> of \<open>inc/winfsp/winfsp.h\<close>, and the fuel every caller uses.\<close>

definition check_fuel :: nat where
  "check_fuel = 2"

definition FspAccessCheck ::
  "('s, 'sd) access_env \<Rightarrow> bool \<Rightarrow> bool \<Rightarrow> u32 \<Rightarrow> create_request \<Rightarrow> 's \<times> int \<Rightarrow>
   (ntstatus \<times> u32 \<times> 'sd option \<times> create_request \<times> 's \<times> int) option" where
  "FspAccessCheck env CheckParentOrMain AllowTraverseCheck Desired req sl =
     FspAccessCheckEx check_fuel env CheckParentOrMain AllowTraverseCheck Desired False req sl"

end
