(* ===== verification/SecurityProps.thy ===== *)
theory SecurityProps
  imports Security
begin

text \<open>
  What the parts of the access check keep and what they establish: the accounting of the descriptor
  block, the buffer of the request, and the answers of the file system behind every success.
\<close>

section \<open>Asking the file system\<close>

definition answered ::
  "('s, 'sd) access_env \<Rightarrow> wstr \<Rightarrow> ntstatus \<Rightarrow> u32 \<Rightarrow> 'sd \<Rightarrow> nat \<Rightarrow> bool" where
  "answered env name r attr sd n \<longleftrightarrow>
     (\<exists>get s k s'. GetSecurityByName env = Some get \<and> get s name k = ((r, attr, sd, n), s'))"

text \<open>The block is counted, and nothing but the descriptor changes.\<close>

definition accounted :: "int \<Rightarrow> ('s, 'sd) check_state \<Rightarrow> bool" where
  "accounted live c \<longleftrightarrow> Live c = live + (if Block c then 1 else 0)"

lemma accounted_free [simp]: "accounted live c \<Longrightarrow> Live (mem_free c) = live"
  by (auto simp: accounted_def mem_free_def)

lemma mem_free_simps [simp]: "Fs (mem_free c) = Fs c" "Buf (mem_free c) = Buf c" "Block (mem_free c) = False"
  "SdSize (mem_free c) = SdSize c"
  by (simp_all add: mem_free_def)

text \<open>What a query of the file system establishes.\<close>

definition asked ::
  "('s \<Rightarrow> wstr \<Rightarrow> nat \<Rightarrow> (ntstatus \<times> u32 \<times> 'sd \<times> nat) \<times> 's) \<Rightarrow> wstr \<Rightarrow> ('s, 'sd) check_state \<Rightarrow>
   ntstatus \<times> u32 \<times> ('s, 'sd) check_state \<Rightarrow> bool" where
  "asked get name c y \<longleftrightarrow> (case y of (r, attr, c') \<Rightarrow>
     (\<forall>live. accounted live c \<longrightarrow> accounted live c') \<and> Buf c' = Buf c \<and> (NT_SUCCESS r \<longrightarrow> Block c \<longrightarrow> Block c') \<and>
     (NT_SUCCESS r \<longrightarrow> (\<exists>s k sd. get s name k = ((r, attr, sd, SdSize c'), Fs c') \<and> Sd c' = Some sd)))"

lemma get_loop_asked:
  assumes "FspGetSecurityByName get alloc name c = Some y"
  shows "asked get name c y"
proof (rule FspGetSecurityByName.raw_induct [where P = "\<lambda>get alloc name c y. asked get name c y", OF _ assms])
  fix f get alloc name c y
  assume IH: "\<And>get alloc name c y. f get alloc name c = Some y \<Longrightarrow> asked get name c y"
    and hyps: "(case get (Fs c) name (SdSize c) of
      ((Result, attr, sd, sz), s) \<Rightarrow>
        if Result \<noteq> 0x80000005
        then Some (Result, attr, c\<lparr>Fs := s, SdSize := sz, Sd := if NT_SUCCESS Result then Some sd else Sd c\<rparr>)
        else if alloc sz
             then f get alloc name
               (mem_free (c\<lparr>Fs := s, SdSize := sz\<rparr>)\<lparr>Live := Live (mem_free c) + 1, Block := True\<rparr>)
             else Some (0xc000009a, attr, mem_free (c\<lparr>Fs := s, SdSize := sz\<rparr>))) = Some y"
  obtain r attr sd sz s where g: "get (Fs c) name (SdSize c) = ((r, attr, sd, sz), s)" by (metis prod.collapse)
  let ?c = "(mem_free (c\<lparr>Fs := s, SdSize := sz\<rparr>))\<lparr>Live := Live (mem_free c) + 1, Block := True\<rparr>"
  consider "r \<noteq> 0x80000005" | "r = 0x80000005" "alloc sz" | "r = 0x80000005" "\<not> alloc sz" by blast
  then show "asked get name c y"
  proof cases
    case 1
    then have "y = (r, attr, c\<lparr>Fs := s, SdSize := sz, Sd := (if NT_SUCCESS r then Some sd else Sd c)\<rparr>)"
      using hyps g by simp
    then show ?thesis using g by (auto simp: asked_def accounted_def)
  next
    case 2
    then have "asked get name ?c y" using IH hyps g by simp
    moreover have "accounted live c \<Longrightarrow> accounted live ?c" for live by (simp add: accounted_def mem_free_def)
    ultimately show ?thesis by (auto simp: asked_def split: prod.splits)
  next
    case 3
    have "\<not> NT_SUCCESS STATUS_INSUFFICIENT_RESOURCES" by (simp add: NT_SUCCESS_def)
    with 3 show ?thesis using IH hyps g
      by (auto simp: asked_def accounted_def mem_free_def)
  qed
qed

lemma get_security_asked:
  assumes "get_security env name c = Some (r, attr, c')" "GetSecurityByName env \<noteq> None"
  shows "accounted live c \<Longrightarrow> accounted live c'" "Buf c' = Buf c"
    "NT_SUCCESS r \<Longrightarrow> Block c \<Longrightarrow> Block c'"
    "NT_SUCCESS r \<Longrightarrow> \<exists>sd. answered env name r attr sd (SdSize c') \<and> Sd c' = Some sd"
proof -
  obtain get where get: "GetSecurityByName env = Some get" using assms(2) by auto
  have a: "asked get name c (r, attr, c')" using get_loop_asked assms(1) by (simp add: get_security_def get)
  show "accounted live c \<Longrightarrow> accounted live c'" "Buf c' = Buf c"
    "NT_SUCCESS r \<Longrightarrow> Block c \<Longrightarrow> Block c'" using a by (simp_all add: asked_def)
  show "NT_SUCCESS r \<Longrightarrow> \<exists>sd. answered env name r attr sd (SdSize c') \<and> Sd c' = Some sd"
    using a get by (fastforce simp: asked_def answered_def)
qed

section \<open>Traversal\<close>

text \<open>The directories on the way to a file, as the names the file system is asked for.\<close>

definition directory_at :: "nat \<Rightarrow> wstr \<Rightarrow> nat \<Rightarrow> bool" where
  "directory_at pos name i \<longleftrightarrow> pos \<le> i \<and> i < length name \<and> name ! i = 0x5c
     \<and> (\<forall>j. pos \<le> j \<and> j < i \<longrightarrow> name ! j \<noteq> 0x3a) \<and> (i = pos \<or> name ! (i - 1) \<noteq> 0x5c)"

definition directory_name :: "wstr \<Rightarrow> nat \<Rightarrow> wstr" where
  "directory_name name i = (if i > 0 then take i name else [0x5c])"

text \<open>The answer of \<open>AccessCheck\<close> as a status, and the access it reports.\<close>

definition access_result :: "('s, 'sd) access_env \<Rightarrow> create_request \<Rightarrow> 'sd \<Rightarrow> u32 \<Rightarrow> ntstatus \<times> u32" where
  "access_result env req sd desired = (case AccessCheck env sd (AccessToken req) desired of
     Inl e \<Rightarrow> (e, 0) | Inr (g, ok) \<Rightarrow> (if ok then STATUS_SUCCESS else STATUS_ACCESS_DENIED, g))"

lemma run_access_result: "run_access_check env req c desired 0 = access_result env req (the (Sd c)) desired"
  by (simp add: run_access_check_def access_result_def)

definition may_traverse :: "('s, 'sd) access_env \<Rightarrow> create_request \<Rightarrow> wstr \<Rightarrow> bool" where
  "may_traverse env req p \<longleftrightarrow>
     (\<exists>r attr sd n. answered env p r attr sd n \<and> NT_SUCCESS r \<and> r \<noteq> STATUS_REPARSE
       \<and> FlagOn attr FILE_ATTRIBUTE_DIRECTORY \<and> \<not> FlagOn attr FILE_ATTRIBUTE_REPARSE_POINT
       \<and> (0 < n \<longrightarrow> NT_SUCCESS (fst (access_result env req sd FILE_TRAVERSE))))"

lemma traverse_one_ok:
  assumes "traverse_one env req p c = Some (over, r, attr, c')" "GetSecurityByName env \<noteq> None"
  shows "accounted live c \<Longrightarrow> accounted live c'" "Buf c' = Buf c"
    "\<not> over \<Longrightarrow> Block c \<Longrightarrow> Block c'" "\<not> over \<Longrightarrow> may_traverse env req p"
    "NT_SUCCESS r \<Longrightarrow> Block c \<Longrightarrow> Block c'"
proof -
  obtain r1 attr1 c1 where g: "get_security env p c = Some (r1, attr1, c1)"
    using assms(1) by (auto simp: traverse_one_def split: option.splits)
  note a = get_security_asked [OF g assms(2)]
  have c: "c' = c1" using assms(1) g by (auto simp: traverse_one_def Let_def split: if_splits)
  show "accounted live c \<Longrightarrow> accounted live c'" "Buf c' = Buf c" using a c by simp_all
  have bad: "over \<and> \<not> NT_SUCCESS r" if "\<not> NT_SUCCESS r1"
  proof -
    have "\<not> NT_SUCCESS STATUS_OBJECT_PATH_NOT_FOUND" by (simp add: NT_SUCCESS_def)
    then show ?thesis using that assms(1) by (auto simp: traverse_one_def g split: if_splits)
  qed
  show "\<not> over \<Longrightarrow> Block c \<Longrightarrow> Block c'" using bad a(3) c by blast
  show "NT_SUCCESS r \<Longrightarrow> Block c \<Longrightarrow> Block c'" using bad a(3) c by blast
  assume "\<not> over"
  then have f: "NT_SUCCESS r1" "r1 \<noteq> STATUS_REPARSE" "FlagOn attr1 FILE_ATTRIBUTE_DIRECTORY"
      "\<not> FlagOn attr1 FILE_ATTRIBUTE_REPARSE_POINT"
      "0 < SdSize c1 \<Longrightarrow> NT_SUCCESS (fst (run_access_check env req c1 FILE_TRAVERSE 0))"
    using assms(1) g by (auto simp: traverse_one_def Let_def split: if_splits)
  from a(4) [OF f(1)] obtain sd where "answered env p r1 attr1 sd (SdSize c1)" "Sd c1 = Some sd" by blast
  then show "may_traverse env req p"
    unfolding may_traverse_def using f
    by (intro exI [of _ r1] exI [of _ attr1] exI [of _ sd] exI [of _ "SdSize c1"])
      (auto simp: run_access_result)
qed

lemma takeWhile_run:
  fixes xs :: "'a list" and P pos
  defines "n \<equiv> length (takeWhile P (drop pos xs))"
  shows "pos \<le> j \<Longrightarrow> j < pos + n \<Longrightarrow> P (xs ! j)" "pos + n < length xs \<Longrightarrow> \<not> P (xs ! (pos + n))"
proof -
  show "pos \<le> j \<Longrightarrow> j < pos + n \<Longrightarrow> P (xs ! j)"
  proof -
    assume j: "pos \<le> j" "j < pos + n"
    then have l: "j - pos < length (takeWhile P (drop pos xs))" by (simp add: n_def less_diff_conv2)
    then have "takeWhile P (drop pos xs) ! (j - pos) = drop pos xs ! (j - pos)" by (rule takeWhile_nth)
    moreover have "P (takeWhile P (drop pos xs) ! (j - pos))" using nth_mem [OF l] by (rule set_takeWhileD [THEN conjunct2])
    moreover have "pos < length xs" using l length_takeWhile_le [of P "drop pos xs"] by simp
    ultimately show ?thesis using j by (simp add: nth_drop)
  qed
  assume "pos + n < length xs"
  then have "n < length (drop pos xs)" by simp
  then have "\<not> P (drop pos xs ! n)" unfolding n_def by (rule nth_length_takeWhile)
  then show "\<not> P (xs ! (pos + n))" using \<open>pos + n < length xs\<close> by simp
qed

text \<open>The directories from a position on are the next one and those behind its separators.\<close>

definition next_sep :: "nat \<Rightarrow> wstr \<Rightarrow> nat" where
  "next_sep pos name = pos + length (takeWhile (\<lambda>c. c \<noteq> 0x5c \<and> c \<noteq> 0x3a) (drop pos name))"

lemma directory_next:
  assumes d: "directory_at pos (name :: wstr) i" and ne: "i \<noteq> next_sep pos name"
  shows "next_sep pos name < length name \<and> name ! next_sep pos name = 0x5c \<and>
    directory_at (next_sep pos name + length (takeWhile (\<lambda>c. c = 0x5c) (drop (next_sep pos name) name))) name i"
proof -
  let ?r = "next_sep pos name"
  let ?n = "?r + length (takeWhile (\<lambda>c. c = 0x5c) (drop ?r name))"
  have before: "pos \<le> j \<Longrightarrow> j < ?r \<Longrightarrow> name ! j \<noteq> 0x5c \<and> name ! j \<noteq> 0x3a" for j
    unfolding next_sep_def by (rule takeWhile_run)
  have i: "pos \<le> i" "i < length name" "name ! i = 0x5c" "\<And>j. pos \<le> j \<Longrightarrow> j < i \<Longrightarrow> name ! j \<noteq> 0x3a"
      "i = pos \<or> name ! (i - 1) \<noteq> 0x5c"
    using d by (auto simp: directory_at_def)
  have lt: "?r < i" using before [of i] i(1,3) ne by (cases "i < ?r") auto
  have le: "pos \<le> ?r" by (simp add: next_sep_def)
  have len: "?r < length name" using lt i(2) by simp
  have sep: "name ! ?r = 0x5c"
    using takeWhile_run(2) [where P = "\<lambda>c. c \<noteq> 0x5c \<and> c \<noteq> 0x3a" and pos = pos and xs = name] i(4) [OF le lt] len
    by (auto simp: next_sep_def)
  have "\<not> i < ?n"
  proof
    assume "i < ?n"
    then have "name ! (i - 1) = 0x5c"
      using takeWhile_run(1) [where P = "\<lambda>c. c = 0x5c" and pos = ?r and xs = name and j = "i - 1"] lt by simp
    then show False using i(5) lt le by simp
  qed
  then show ?thesis using i sep len lt le by (auto simp: directory_at_def)
qed

lemma traverse_loop_ok:
  "traverse_loop env req name pos c = Some (over, r, attr, c') \<Longrightarrow> GetSecurityByName env \<noteq> None \<Longrightarrow>
     (\<forall>live. accounted live c \<longrightarrow> accounted live c') \<and> Buf c' = Buf c
     \<and> (\<not> over \<longrightarrow> (Block c \<longrightarrow> Block c') \<and> (\<forall>i. directory_at pos name i \<longrightarrow> may_traverse env req (directory_name name i)))
     \<and> (NT_SUCCESS r \<longrightarrow> over \<longrightarrow> Block c \<longrightarrow> Block c')"
proof (induction env req name pos c rule: traverse_loop.induct)
  case (1 env req name pos c)
  let ?r = "pos + length (takeWhile (\<lambda>c. c \<noteq> 0x5c \<and> c \<noteq> 0x3a) (drop pos name))"
  let ?n = "?r + length (takeWhile (\<lambda>c. c = 0x5c) (drop ?r name))"
  show ?case
  proof (cases "?r < length name \<and> name ! ?r = 0x5c")
    case False
    have "\<not> directory_at pos name i" for i
    proof
      assume d: "directory_at pos name i"
      then have "i < length name \<and> name ! i = 0x5c" by (simp add: directory_at_def)
      then show False
        using directory_next [OF d, unfolded next_sep_def] False by (cases "i = ?r") blast+
    qed
    then show ?thesis using "1.prems" False by (subst (asm) traverse_loop.simps) (auto simp: Let_def)
  next
    case True
    from "1.prems"(1) True obtain o1 r1 attr1 c1 where
      one: "traverse_one env req (directory_name name ?r) c = Some (o1, r1, attr1, c1)"
      by (subst (asm) traverse_loop.simps) (auto simp: Let_def directory_name_def split: option.splits)
    note t = traverse_one_ok [OF one "1.prems"(2)]
    show ?thesis
    proof (cases o1)
      case True
      then have "over" "r = r1" "attr = attr1" "c' = c1"
        using "1.prems"(1) one \<open>?r < length name \<and> name ! ?r = 0x5c\<close>
        by (subst (asm) traverse_loop.simps, simp add: Let_def directory_name_def)+
      then show ?thesis using t True by blast
    next
      case F: False
      have "traverse_loop env req name ?n c1 = Some (over, r, attr, c')"
        using "1.prems"(1) one True F
        by (subst (asm) traverse_loop.simps) (simp add: Let_def directory_name_def)
      from "1.IH" [OF refl _ one [unfolded directory_name_def] refl refl refl _ this "1.prems"(2)] True F
      have ih: "(\<forall>live. accounted live c1 \<longrightarrow> accounted live c') \<and> Buf c' = Buf c1
        \<and> (\<not> over \<longrightarrow> (Block c1 \<longrightarrow> Block c') \<and> (\<forall>i. directory_at ?n name i \<longrightarrow> may_traverse env req (directory_name name i)))
        \<and> (NT_SUCCESS r \<longrightarrow> over \<longrightarrow> Block c1 \<longrightarrow> Block c')"
        by blast
      have "may_traverse env req (directory_name name i)" if "\<not> over" "directory_at pos name i" for i
        using directory_next [OF that(2), unfolded next_sep_def] ih t(4) F that(1) by (cases "i = ?r") auto
      then show ?thesis using ih t F by auto
    qed
  qed
qed

section \<open>What the access check grants\<close>

text \<open>The rights that the parent directory makes up for.\<close>

definition parent_rights :: "u32 \<Rightarrow> u32" where
  "parent_rights pa = (if FlagOn FILE_DELETE_CHILD pa then DELETE else 0) OR
     (if FlagOn FILE_LIST_DIRECTORY pa then FILE_READ_ATTRIBUTES else 0)"

text \<open>
  The access \<open>g\<close> is what \<open>AccessCheck\<close> grants, with the rights of the parent directory added where
  \<open>AccessCheck\<close> denied the access as a whole but grants what the parent does not make up for.
\<close>

definition permitted ::
  "(u32 \<Rightarrow> bool) \<Rightarrow> ('s, 'sd) access_env \<Rightarrow> create_request \<Rightarrow> 'sd \<Rightarrow> u32 \<Rightarrow> u32 \<Rightarrow> bool" where
  "permitted parent env req sd Desired g \<longleftrightarrow> Desired = 0 \<and> g = 0 \<or>
     (\<exists>r. access_result env req sd Desired = (r, g) \<and> NT_SUCCESS r) \<or>
     (\<exists>pa g1. parent pa \<and> FlagOn (MAXIMUM_ALLOWED OR DELETE OR FILE_READ_ATTRIBUTES) Desired \<and>
        fst (access_result env req sd Desired) = STATUS_ACCESS_DENIED \<and> g = g1 OR parent_rights pa \<and>
        (if Desired AND NOT (parent_rights pa) = 0 then g1 = snd (access_result env req sd Desired)
         else AccessCheck env sd (AccessToken req) (Desired AND NOT (parent_rights pa)) = Inr (g1, True)))"

abbreviation parent_flags :: u32 where
  "parent_flags \<equiv> MAXIMUM_ALLOWED OR DELETE OR FILE_READ_ATTRIBUTES"

text \<open>The access that is asked of the parent directory; it never leads to a check of the parent's parent.\<close>

definition parent_asks :: "u32 \<Rightarrow> u32" where
  "parent_asks Desired =
     (if FlagOn MAXIMUM_ALLOWED Desired then FILE_DELETE_CHILD OR FILE_LIST_DIRECTORY
      else (if FlagOn DELETE Desired then FILE_DELETE_CHILD else 0) OR
        (if FlagOn FILE_READ_ATTRIBUTES Desired then FILE_LIST_DIRECTORY else 0))"

lemma parent_asks_flags: "\<not> FlagOn parent_flags (parent_asks Desired)"
  by (simp add: FlagOn_def parent_asks_def)

lemma flag_or: "FlagOn (a OR b) d \<longleftrightarrow> FlagOn a d \<or> FlagOn b d"
  by (simp add: FlagOn_def bit.conj_disj_distrib2 or_eq_0_iff)

lemma parent_asks_something: "FlagOn parent_flags Desired \<Longrightarrow> parent_asks Desired \<noteq> 0"
  unfolding flag_or by (auto simp: parent_asks_def)

text \<open>A nested check touches the file system, the blocks it allocates, and nothing else.\<close>

definition parent_keeps ::
  "bool \<Rightarrow> (u32 \<Rightarrow> ('s, 'sd) check_state \<Rightarrow> (ntstatus \<times> u32 \<times> ('s, 'sd) check_state) option) \<Rightarrow>
   ('s, 'sd) check_state \<Rightarrow> bool" where
  "parent_keeps exact parent c \<longleftrightarrow> (\<forall>d r pa c'. parent d c = Some (r, pa, c') \<longrightarrow>
     c' = c\<lparr>Fs := Fs c', Live := Live c'\<rparr> \<and> Live c \<le> Live c' \<and> (exact \<longrightarrow> Live c' = Live c) \<and>
     (\<not> FlagOn parent_flags d \<longrightarrow> Live c' \<le> Live c + 1))"

lemma not_success_denied [simp]: "\<not> NT_SUCCESS STATUS_ACCESS_DENIED"
  by (simp add: NT_SUCCESS_def)

lemma grant_keeps:
  assumes "access_grant env parent req Desired c = Some (over, r, g, c')" "parent_keeps exact parent c"
  shows "c' = c\<lparr>Fs := Fs c', Live := Live c'\<rparr> \<and> Live c \<le> Live c' \<and> (exact \<longrightarrow> Live c' = Live c)"
    "over \<Longrightarrow> \<not> NT_SUCCESS r"
    "Live c' \<le> Live c + (if FlagOn parent_flags Desired then 1 else 0)"
proof -
  have *: "(c' = c \<or> FlagOn parent_flags Desired \<and> (\<exists>r pa. parent (parent_asks Desired) c = Some (r, pa, c')))
      \<and> (over \<longrightarrow> \<not> NT_SUCCESS r)"
    using assms(1)
    by (auto simp: access_grant_def parent_asks_def [symmetric] Let_def split: prod.splits if_splits option.splits sum.splits)
  then show "Live c' \<le> Live c + (if FlagOn parent_flags Desired then 1 else 0)"
    using assms(2) parent_asks_flags [of Desired] unfolding parent_keeps_def by fastforce
  from * have "(c' = c \<or> (\<exists>d r pa. parent d c = Some (r, pa, c'))) \<and> (over \<longrightarrow> \<not> NT_SUCCESS r)" by blast
  moreover have "c = c\<lparr>Fs := Fs c, Live := Live c\<rparr>" by simp
  ultimately show "c' = c\<lparr>Fs := Fs c', Live := Live c'\<rparr> \<and> Live c \<le> Live c' \<and> (exact \<longrightarrow> Live c' = Live c)"
    "over \<Longrightarrow> \<not> NT_SUCCESS r"
    using assms(2) unfolding parent_keeps_def by (metis order_refl)+
qed

lemma grant_permitted:
  assumes g: "access_grant env parent req Desired c = Some (False, r, g, c')" "UserMode req" "0 < SdSize c"
    and sd: "Sd c = Some sd"
    and pk: "\<And>r pa c'. parent (parent_asks Desired) c = Some (r, pa, c') \<Longrightarrow> FlagOn parent_flags Desired \<Longrightarrow>
      NT_SUCCESS r \<Longrightarrow> P pa \<and> Sd c' = Sd c"
  shows "permitted P env req sd Desired g"
proof -
  obtain r1 g1 where a: "access_result env req sd Desired = (r1, g1)" by fastforce
  consider "Desired = 0" | "Desired \<noteq> 0" "NT_SUCCESS r1" | "Desired \<noteq> 0" "\<not> NT_SUCCESS r1" by blast
  then show ?thesis
  proof cases
    case 1
    then show ?thesis using g by (simp add: permitted_def access_grant_def)
  next
    case 2
    then have "r1 = r \<and> g1 = g" using g a by (simp add: access_grant_def run_access_result sd)
    then show ?thesis using 2 a by (auto simp: permitted_def)
  next
    case 3
    then have d: "r1 = STATUS_ACCESS_DENIED" "FlagOn (MAXIMUM_ALLOWED OR DELETE OR FILE_READ_ATTRIBUTES) Desired"
      using g a by (auto simp: access_grant_def run_access_result sd split: if_splits)
    then obtain r2 pa c2 where p: "parent (parent_asks Desired) c = Some (r2, pa, c2)" "NT_SUCCESS r2"
        "if Desired AND NOT (parent_rights pa) = 0 then g = g1 OR parent_rights pa
         else \<exists>g2. AccessCheck env (the (Sd c2)) (AccessToken req) (Desired AND NOT (parent_rights pa)) = Inr (g2, True)
           \<and> g = g2 OR parent_rights pa"
      using g(1) 3 a
      by (auto simp: access_grant_def Let_def parent_rights_def parent_asks_def [symmetric] run_access_result sd g(2,3) or.assoc
          split: prod.splits if_splits option.splits sum.splits)
    then show ?thesis using pk [OF p(1) d(2) p(2)] sd d a
      unfolding permitted_def by - (rule disjI2, rule disjI2, rule exI [of _ pa], auto split: if_splits)
  qed
qed

lemma grant_parent_unused:
  "\<not> FlagOn parent_flags Desired \<Longrightarrow> access_grant env p req Desired c = access_grant env p' req Desired c"
  by (simp add: access_grant_def Let_def split: prod.splits)

end
