(* ===== verification/SecuritySpec.thy ===== *)
theory SecuritySpec
  imports SecurityProps
begin

text \<open>
  The properties of the access check: it leaves the request as it was, grants only what the file
  system and Windows permit, never nests deeper than two levels, and two flaws, a descriptor that is
  lost and a reparse index taken for an access mask.
\<close>

section \<open>The body\<close>

definition no_reparse :: "('s, 'sd) access_env \<Rightarrow> bool" where
  "no_reparse env \<longleftrightarrow> (\<forall>name r attr sd n. answered env name r attr sd n \<longrightarrow> NT_SUCCESS r \<longrightarrow>
     r \<noteq> STATUS_REPARSE \<and> \<not> FlagOn attr FILE_ATTRIBUTE_REPARSE_POINT)"

lemma traverse_no_reparse:
  "traverse_loop env req name pos c = Some (over, r, attr, c') \<Longrightarrow> GetSecurityByName env \<noteq> None \<Longrightarrow>
     no_reparse env \<Longrightarrow> over \<Longrightarrow> r \<noteq> STATUS_REPARSE"
proof (induction env req name pos c rule: traverse_loop.induct)
  case (1 env req name pos c)
  let ?r = "pos + length (takeWhile (\<lambda>c. c \<noteq> 0x5c \<and> c \<noteq> 0x3a) (drop pos name))"
  let ?p = "if ?r > 0 then take ?r name else [0x5c]"
  have sep: "?r < length name \<and> name ! ?r = 0x5c"
    using "1.prems"(1,4) by (subst (asm) traverse_loop.simps) (auto simp: Let_def split: if_splits)
  then obtain o1 r1 attr1 c1 where one: "traverse_one env req ?p c = Some (o1, r1, attr1, c1)"
    using "1.prems"(1) by (subst (asm) traverse_loop.simps) (auto simp: Let_def split: option.splits)
  show ?case
  proof (cases o1)
    case True
    obtain r2 attr2 c2 where g: "get_security env ?p c = Some (r2, attr2, c2)"
      using one by (auto simp: traverse_one_def split: option.splits)
    have "NT_SUCCESS r2 \<Longrightarrow> r2 \<noteq> STATUS_REPARSE \<and> \<not> FlagOn attr2 FILE_ATTRIBUTE_REPARSE_POINT"
      using get_security_asked(4) [OF g "1.prems"(2)] "1.prems"(3) unfolding no_reparse_def by blast
    then have "r1 \<noteq> STATUS_REPARSE"
      using one g True
      by (auto simp: traverse_one_def Let_def NT_SUCCESS_def run_access_check_def
          split: if_splits sum.splits prod.splits)
    moreover have "r = r1"
      using "1.prems"(1) one sep True by (subst (asm) traverse_loop.simps) (simp add: Let_def)
    ultimately show ?thesis by simp
  next
    case False
    have "traverse_loop env req name (?r + length (takeWhile (\<lambda>c. c = 0x5c) (drop ?r name))) c1 =
        Some (over, r, attr, c')"
      using "1.prems"(1) one sep False by (subst (asm) traverse_loop.simps) (simp add: Let_def)
    from "1.IH" [OF refl _ one refl refl refl _ this "1.prems"(2-4)] sep False show ?thesis by blast
  qed
qed

lemma access_type_reparse:
  "access_type env req target name attr = Some (over, r, attr') \<Longrightarrow> \<not> FlagOn attr FILE_ATTRIBUTE_REPARSE_POINT \<Longrightarrow>
     r \<noteq> STATUS_REPARSE"
  by (cases target) (auto simp: access_type_def Let_def split: if_splits)

lemma access_final_reparse: "access_final req Desired attr n g = (r, g') \<Longrightarrow> r \<noteq> STATUS_REPARSE"
  by (auto simp: access_final_def Let_def split: if_splits)

lemma traverse_over:
  "traverse_loop env req name pos c = Some (over, r, attr, c') \<Longrightarrow> over \<Longrightarrow> \<not> NT_SUCCESS r \<or> r = STATUS_REPARSE"
proof (induction env req name pos c rule: traverse_loop.induct)
  case (1 env req name pos c)
  let ?r = "pos + length (takeWhile (\<lambda>c. c \<noteq> 0x5c \<and> c \<noteq> 0x3a) (drop pos name))"
  let ?p = "if ?r > 0 then take ?r name else [0x5c]"
  have sep: "?r < length name \<and> name ! ?r = 0x5c"
    using "1.prems" by (subst (asm) traverse_loop.simps) (auto simp: Let_def split: if_splits)
  then obtain o1 r1 attr1 c1 where one: "traverse_one env req ?p c = Some (o1, r1, attr1, c1)"
    using "1.prems"(1) by (subst (asm) traverse_loop.simps) (auto simp: Let_def split: option.splits)
  show ?case
  proof (cases o1)
    case True
    have "r = r1"
      using "1.prems"(1) one sep True by (subst (asm) traverse_loop.simps) (simp add: Let_def)
    moreover have "\<not> NT_SUCCESS STATUS_OBJECT_PATH_NOT_FOUND" by (simp add: NT_SUCCESS_def)
    ultimately show ?thesis
      using one True by (auto simp: traverse_one_def Let_def split: option.splits if_splits)
  next
    case False
    have "traverse_loop env req name (?r + length (takeWhile (\<lambda>c. c = 0x5c) (drop ?r name))) c1 =
        Some (over, r, attr, c')"
      using "1.prems"(1) one sep False by (subst (asm) traverse_loop.simps) (simp add: Let_def)
    from "1.IH" [OF refl _ one refl refl refl _ this "1.prems"(2)] sep False show ?thesis by blast
  qed
qed

text \<open>The way through the body that ends in success.\<close>

lemma body_success:
  assumes b: "access_body env parent req target cp tr Desired name c = Some (r, attr, g, c')"
    and r: "NT_SUCCESS r" "r \<noteq> STATUS_REPARSE"
  obtains r1 a1 c1 r2 a2 c2 r3 g3 r4 where
    "(if UserMode req \<and> tr \<and> \<not> HasTraversePrivilege req \<and> name \<noteq> [0x5c]
      then traverse_loop env req name 0 c else Some (False, STATUS_SUCCESS, 0, c)) = Some (False, r1, a1, c1)"
    "get_security env name c1 = Some (r2, a2, c2)" "NT_SUCCESS r2" "r2 \<noteq> STATUS_REPARSE"
    "\<not> cp \<Longrightarrow> HasTrailingBackslash req \<Longrightarrow> FlagOn a2 FILE_ATTRIBUTE_DIRECTORY"
    "access_grant env parent req Desired c2 = Some (False, r3, g3, c')"
    "access_type env req target name a2 = Some (False, r4, attr)"
    "access_final req Desired attr (SdSize c') g3 = (r, g)"
proof -
  have nid: "\<not> NT_SUCCESS STATUS_OBJECT_NAME_INVALID" "\<not> NT_SUCCESS STATUS_NOT_A_DIRECTORY"
      "\<not> NT_SUCCESS STATUS_FILE_IS_A_DIRECTORY" by (simp_all add: NT_SUCCESS_def)
  obtain o1 r1 a1 c1 where t: "(if UserMode req \<and> tr \<and> \<not> HasTraversePrivilege req \<and> name \<noteq> [0x5c]
      then traverse_loop env req name 0 c else Some (False, STATUS_SUCCESS, 0, c)) = Some (o1, r1, a1, c1)"
    using b by (auto simp: access_body_def split: option.splits prod.splits)
  note b1 = b [unfolded access_body_def t option.case prod.case]
  have o1: "\<not> o1"
  proof
    assume o: "o1"
    then have "r = r1" using b1 by simp
    moreover have "\<not> NT_SUCCESS r1 \<or> r1 = STATUS_REPARSE" using t o by (auto dest: traverse_over split: if_splits)
    ultimately show False using r by blast
  qed
  note b2 = b1 [unfolded if_not_P [OF o1]]
  obtain r2 a2 c2 where g2: "get_security env name c1 = Some (r2, a2, c2)" using b2 by (auto split: option.splits)
  note b3 = b2 [unfolded g2 option.case prod.case]
  have n: "\<not> (\<not> NT_SUCCESS r2 \<or> r2 = STATUS_REPARSE)"
  proof
    assume o: "\<not> NT_SUCCESS r2 \<or> r2 = STATUS_REPARSE"
    then have "r = r2" using b3 by simp
    then show False using o r by blast
  qed
  have n2: "\<not> (\<not> cp \<and> HasTrailingBackslash req \<and> \<not> FlagOn a2 FILE_ATTRIBUTE_DIRECTORY)"
  proof
    assume o: "\<not> cp \<and> HasTrailingBackslash req \<and> \<not> FlagOn a2 FILE_ATTRIBUTE_DIRECTORY"
    then have "r = STATUS_OBJECT_NAME_INVALID" using b3 n by simp
    then show False using r nid by blast
  qed
  note b4 = b3 [unfolded if_not_P [OF n] if_not_P [OF n2]]
  then obtain o3 r3 g3 c3 where g: "access_grant env parent req Desired c2 = Some (o3, r3, g3, c3)"
    by (auto split: option.splits)
  note b5 = b4 [unfolded g option.case prod.case]
  have o3: "\<not> o3"
    using b5 r g by (auto simp: access_grant_def Let_def split: prod.splits if_splits option.splits sum.splits)
  note b6 = b5 [unfolded if_not_P [OF o3]]
  obtain o4 r4 a4 where y: "access_type env req target name a2 = Some (o4, r4, a4)" using b6 by (auto split: option.splits)
  note b7 = b6 [unfolded y option.case prod.case]
  have o4: "\<not> o4"
    using b7 r y nid by (cases target) (auto simp: access_type_def Let_def split: if_splits)
  note b8 = b7 [unfolded if_not_P [OF o4]]
  have f: "access_final req Desired a4 (SdSize c3) g3 = (r, g)" "attr = a4" "c' = c3"
    using b8 by (auto simp: Let_def split: prod.splits)
  have F: "o1 = False" "o3 = False" "o4 = False" using o1 o3 o4 by simp_all
  show thesis by (rule that [OF t [unfolded F] g2]) (use n n2 g y f F in simp_all)
qed

text \<open>What the body keeps, and what it says about a reparse point.\<close>

lemma body_keeps:
  assumes b: "access_body env parent req target cp tr Desired name c = Some (r, attr, g, c')"
    and get: "GetSecurityByName env \<noteq> None" and c: "Live c = live + 1" "Block c"
    and pk: "\<And>c'. Buf c' = Buf c \<Longrightarrow> parent_keeps exact parent c'"
  shows "Buf c' = Buf c \<and> live + (if Block c' then 1 else 0) \<le> Live c' \<and>
      (exact \<longrightarrow> Live c' = live + (if Block c' then 1 else 0)) \<and> (NT_SUCCESS r \<longrightarrow> Block c') \<and>
      (no_reparse env \<longrightarrow> r \<noteq> STATUS_REPARSE) \<and>
      Live c' \<le> live + (if Block c' then 1 else 0) + (if FlagOn parent_flags Desired then 1 else 0)" (is "?Q r c'")
proof -
  have acc: "accounted live c" using c by (simp add: accounted_def)
  have s0: "NT_SUCCESS STATUS_REPARSE" by (simp add: NT_SUCCESS_def)
  obtain o1 r1 a1 c1 where t: "(if UserMode req \<and> tr \<and> \<not> HasTraversePrivilege req \<and> name \<noteq> [0x5c]
      then traverse_loop env req name 0 c else Some (False, STATUS_SUCCESS, 0, c)) = Some (o1, r1, a1, c1)"
    using b by (auto simp: access_body_def split: option.splits prod.splits)
  have t1: "accounted live c1" "Buf c1 = Buf c" "\<not> o1 \<Longrightarrow> Block c1" "NT_SUCCESS r1 \<Longrightarrow> o1 \<Longrightarrow> Block c1"
      "no_reparse env \<Longrightarrow> o1 \<Longrightarrow> r1 \<noteq> STATUS_REPARSE"
    using t traverse_loop_ok [OF _ get] traverse_no_reparse [OF _ get] acc c(2) by (auto split: if_splits)
  note b1 = b [unfolded access_body_def t option.case prod.case]
  show ?thesis
  proof (cases o1)
    case True
    then show ?thesis using b1 t1 by (auto simp: accounted_def)
  next
    case False
    note b2 = b1 [unfolded if_not_P [OF False]]
    obtain r2 a2 c2 where g2: "get_security env name c1 = Some (r2, a2, c2)"
      using b2 by (auto split: option.splits)
    note b3 = b2 [unfolded g2 option.case prod.case]
    note a = get_security_asked [OF g2 get]
    have a2: "accounted live c2" "Buf c2 = Buf c" "NT_SUCCESS r2 \<Longrightarrow> Block c2"
        "no_reparse env \<Longrightarrow> NT_SUCCESS r2 \<Longrightarrow> r2 \<noteq> STATUS_REPARSE \<and> \<not> FlagOn a2 FILE_ATTRIBUTE_REPARSE_POINT"
      using a t1 False unfolding no_reparse_def by simp_all blast
    consider "\<not> NT_SUCCESS r2 \<or> r2 = STATUS_REPARSE"
      | "NT_SUCCESS r2" "r2 \<noteq> STATUS_REPARSE" "\<not> cp \<and> HasTrailingBackslash req \<and> \<not> FlagOn a2 FILE_ATTRIBUTE_DIRECTORY"
      | "NT_SUCCESS r2" "r2 \<noteq> STATUS_REPARSE" "\<not> (\<not> cp \<and> HasTrailingBackslash req \<and> \<not> FlagOn a2 FILE_ATTRIBUTE_DIRECTORY)"
      by blast
    then show ?thesis
    proof cases
      case 1
      then have "r = r2" "c' = c2" using b3 by simp_all
      then show ?thesis using a2 s0 by (auto simp: accounted_def)
    next
      case 2
      then have "r = STATUS_OBJECT_NAME_INVALID" "c' = c2" using b3 by simp_all
      then show ?thesis using a2 by (auto simp: accounted_def NT_SUCCESS_def)
    next
      case 3
      have n: "\<not> (\<not> NT_SUCCESS r2 \<or> r2 = STATUS_REPARSE)" using 3 by simp
      note b4 = b3 [unfolded if_not_P [OF n] if_not_P [OF 3(3)]]
      then obtain o3 r3 g3 c3 where g: "access_grant env parent req Desired c2 = Some (o3, r3, g3, c3)"
        by (auto split: option.splits)
      have k: "Buf c3 = Buf c2" "Block c3 = Block c2" "Live c2 \<le> Live c3" "exact \<Longrightarrow> Live c3 = Live c2"
          "Live c3 \<le> Live c2 + (if FlagOn parent_flags Desired then 1 else 0)"
        using grant_keeps(1,3) [OF g pk [OF a2(2)]]
        by (metis check_state.select_convs(6) check_state.update_convs(1,2) check_state.surjective
            check_state.select_convs(3))+
      note b5 = b4 [unfolded g option.case prod.case]
      have c': "c' = c3" using b5 by (auto simp: Let_def split: option.splits if_splits prod.splits)
      have "no_reparse env \<longrightarrow> r \<noteq> STATUS_REPARSE"
        using b5 grant_keeps(2) [OF g pk [OF a2(2)]] access_type_reparse [of env req target name a2] a2(4) 3 s0
        by (auto dest: access_final_reparse simp: Let_def split: option.splits if_splits prod.splits)
      then show ?thesis using k a2(1-3) 3 c' by (auto simp: accounted_def)
    qed
  qed
qed

text \<open>A success has the descriptor that the file system answered with.\<close>

lemma body_descriptor:
  assumes b: "access_body env parent req target cp tr Desired name c = Some (r, attr, g, c')"
    and get: "GetSecurityByName env \<noteq> None" and pk: "\<And>c'. Buf c' = Buf c \<Longrightarrow> parent_keeps exact parent c'"
    and r: "NT_SUCCESS r" "r \<noteq> STATUS_REPARSE" and acc: "accounted live c"
  shows "Sd c' \<noteq> None"
proof (rule body_success [OF b r])
  fix r1 a1 c1 r2 a2 c2 r3 g3
  assume t: "(if UserMode req \<and> tr \<and> \<not> HasTraversePrivilege req \<and> name \<noteq> [0x5c]
      then traverse_loop env req name 0 c else Some (False, STATUS_SUCCESS, 0, c)) = Some (False, r1, a1, c1)"
    and g: "get_security env name c1 = Some (r2, a2, c2)" "NT_SUCCESS r2"
    and gr: "access_grant env parent req Desired c2 = Some (False, r3, g3, c')"
  have "Buf c1 = Buf c" using t traverse_loop_ok [OF _ get] by (auto split: if_splits)
  then have p: "parent_keeps exact parent c2" using get_security_asked(2) [OF g(1) get] pk by simp
  have "c' = c2\<lparr>Fs := Fs c', Live := Live c'\<rparr>" using grant_keeps(1) [OF gr p] by blast
  from arg_cong [OF this, of Sd] show "Sd c' \<noteq> None" using get_security_asked(4) [OF g(1) get g(2)] by auto
qed

section \<open>The name in the buffer\<close>

definition name_ok :: "create_request \<Rightarrow> bool" where
  "name_ok req \<longleftrightarrow> 0 \<in> set (Name_Buffer req) \<and>
     (NamedStream req \<noteq> 0 \<longrightarrow> unat (NamedStream req) div 2 < length (Name_Buffer req)
        \<and> Name_Buffer req ! (unat (NamedStream req) div 2) = 0x3a)"

lemma suffix_restores:
  assumes "FspPathSuffix b True = Some (remain, suffix, b')" "0 \<in> set b"
  shows "FspPathCombine b' suffix = b \<and> 0 \<in> set b'"
proof -
  obtain s rest where b: "b = s @ 0 # rest" "0 \<notin> set s" using split_list_first [OF assms(2)] by blast
  show ?thesis
  proof (cases "0x5c \<in> set s")
    case True
    from last_separators [OF True] obtain a k t where s: "s = a @ replicate (Suc k) 0x5c @ t"
        "a = [] \<or> last a \<noteq> 0x5c" "0x5c \<notin> set t" by blast
    have z: "0 \<notin> set a" "0 \<notin> set t" using b(2) by (auto simp: s(1))
    show ?thesis
      using assms(1) path_suffix_split [OF z(1) s(2) z(2) s(3), of k rest True]
        combine_split [OF z(1), of k "t @ 0 # rest"] by (auto simp: b(1) s(1))
  next
    case False
    then show ?thesis
      using assms(1) path_suffix_none [OF b(2) False, of rest True] combine_plain [OF b(2), of "length s"]
      by (auto simp: b(1))
  qed
qed

lemma name_restored:
  assumes "access_name req target = Some (name, suffix, b)" "name_ok req"
    and "target = Main_file \<Longrightarrow> NamedStream req \<noteq> 0"
  shows "access_restore req target suffix b = Name_Buffer req \<and> 0 \<in> set b"
proof (cases target)
  case Parent_directory
  then show ?thesis
    using assms(1,2) suffix_restores
    by (auto simp: access_name_def access_restore_def name_ok_def split: option.splits)
next
  case Main_file
  let ?i = "unat (NamedStream req) div 2"
  have i: "?i < length (Name_Buffer req)" "Name_Buffer req ! ?i = 0x3a"
    using assms(2,3) Main_file by (auto simp: name_ok_def)
  have "b = (Name_Buffer req)[?i := 0]" using assms(1) Main_file by (simp add: access_name_def Let_def i(1))
  moreover have "(Name_Buffer req)[?i := 0x3a] = Name_Buffer req" using i by (simp add: list_update_same_conv)
  ultimately show ?thesis using i(1) Main_file by (simp add: access_restore_def set_update_memI)
next
  case File_itself
  then show ?thesis using assms(1) by (auto simp: access_name_def access_restore_def split: if_splits)
qed

section \<open>The whole check\<close>

lemma nested_keeps:
  assumes IH: "\<And>desired req s live st g sd req' s' live'.
      check desired req (s, live) = Some (st, g, sd, req', s', live') \<Longrightarrow> name_ok req \<Longrightarrow>
      req' = req \<and> live \<le> live' \<and> (exact \<longrightarrow> live' = live) \<and> (\<not> FlagOn parent_flags desired \<longrightarrow> live' \<le> live + 1)"
    and b: "0 \<in> set (Buf c)"
  shows "parent_keeps exact (nested_check check req) c"
proof -
  have ok: "name_ok (req\<lparr>Name_Buffer := Buf c, NamedStream := 0\<rparr>)" using b by (simp add: name_ok_def)
  have e: "c\<lparr>Fs := s', Live := l', Buf := Buf c\<rparr> = c\<lparr>Fs := s', Live := l'\<rparr>" for s' l' by simp
  show ?thesis
    unfolding parent_keeps_def nested_check_def
    using IH [OF _ ok] e by (fastforce split: option.splits prod.splits)
qed

lemma check_keeps:
  "FspAccessCheckEx fuel env cp tr Desired want req (s, live) = Some (st, g, sd, req', s', live') \<Longrightarrow>
     name_ok req \<Longrightarrow>
     req' = req \<and> live + (if sd = None then 0 else 1) \<le> live' \<and> (st = STATUS_REPARSE \<longrightarrow> sd = None \<and> live < live')
     \<and> (no_reparse env \<longrightarrow> st \<noteq> STATUS_REPARSE \<and> live' = live + (if sd = None then 0 else 1))
     \<and> (\<not> want \<longrightarrow> sd = None)
     \<and> live' \<le> live + (if sd = None then 0 else 1) + (if st = STATUS_REPARSE then 1 else 0)
         + (if FlagOn parent_flags Desired then 1 else 0)"
proof (induction fuel arbitrary: cp tr Desired want req s live st g sd req' s' live')
  case (Suc fuel)
  let ?t = "access_target_of req cp"
  let ?nested = "nested_check (\<lambda>desired req sl. FspAccessCheckEx fuel env True False desired False req sl) req"
  show ?case
  proof (cases "access_early env ?t Desired want req")
    case (Some y)
    then have "req' = req \<and> sd = None \<and> live' = live \<and> st = fst y"
      using Suc.prems(1) by (auto simp: Let_def split: prod.splits)
    moreover have "fst y \<noteq> STATUS_REPARSE"
      using Some by (auto simp: access_early_def Let_def split: if_splits)
    ultimately show ?thesis by simp
  next
    case None
    then have get: "GetSecurityByName env \<noteq> None" by (auto simp: access_early_def Let_def split: if_splits)
    obtain name suffix b where n: "access_name req ?t = Some (name, suffix, b)"
      using Suc.prems(1) None by (auto simp: Let_def split: option.splits)
    have "?t = Main_file \<Longrightarrow> NamedStream req \<noteq> 0" by (simp add: access_target_of_def split: if_splits)
    then have nb: "access_restore req ?t suffix b = Name_Buffer req" "0 \<in> set b"
      using name_restored [OF n Suc.prems(2)] by blast+
    have "map_option (access_exit req ?t want suffix)
        (if \<not> MemAlloc env 1024
         then Some (STATUS_INSUFFICIENT_RESOURCES, 0, 0,
           \<lparr>Fs = s, Live = live, Block = False, Sd = None, SdSize = 1024, Buf = b\<rparr>)
         else access_body env ?nested req ?t cp tr Desired name
           \<lparr>Fs = s, Live = live + 1, Block = True, Sd = None, SdSize = 1024, Buf = b\<rparr>) =
        Some (st, g, sd, req', s', live')"
      using Suc.prems(1)
      by (simp only: FspAccessCheckEx.simps Let_def None n option.case prod.case fst_conv snd_conv)
    from this [THEN map_option_eq_Some [THEN iffD1]] obtain r attr g1 c where
      y: "(if \<not> MemAlloc env 1024
           then Some (STATUS_INSUFFICIENT_RESOURCES, 0, 0,
             \<lparr>Fs = s, Live = live, Block = False, Sd = None, SdSize = 1024, Buf = b\<rparr>)
           else access_body env ?nested req ?t cp tr Desired name
             \<lparr>Fs = s, Live = live + 1, Block = True, Sd = None, SdSize = 1024, Buf = b\<rparr>) = Some (r, attr, g1, c)"
      and out: "access_exit req ?t want suffix (r, attr, g1, c) = (st, g, sd, req', s', live')"
      by (elim exE conjE) (metis prod_cases4)
    have pk: "parent_keeps (no_reparse env) ?nested c'" if "Buf c' = b" for c'
    proof (rule nested_keeps)
      fix d rq s l st g sd rq' s' l'
      assume "FspAccessCheckEx fuel env True False d False rq (s, l) = Some (st, g, sd, rq', s', l')" "name_ok rq"
      from Suc.IH [OF this] show "rq' = rq \<and> l \<le> l' \<and> (no_reparse env \<longrightarrow> l' = l) \<and> (\<not> FlagOn parent_flags d \<longrightarrow> l' \<le> l + 1)"
        by (auto split: if_splits)
    qed (use that nb(2) in simp)
    have k: "Buf c = b \<and> live + (if Block c then 1 else 0) \<le> Live c \<and>
        (no_reparse env \<longrightarrow> Live c = live + (if Block c then 1 else 0)) \<and> (NT_SUCCESS r \<longrightarrow> Block c) \<and>
        (no_reparse env \<longrightarrow> r \<noteq> STATUS_REPARSE) \<and> (NT_SUCCESS r \<longrightarrow> r \<noteq> STATUS_REPARSE \<longrightarrow> Sd c \<noteq> None) \<and>
        Live c \<le> live + (if Block c then 1 else 0) + (if FlagOn parent_flags Desired then 1 else 0)"
    proof (cases "MemAlloc env 1024")
      case True
      then show ?thesis
        using body_keeps [where live = live and exact = "no_reparse env", OF _ get _ _ pk]
          body_descriptor [where live = live and exact = "no_reparse env", OF _ get pk] y
        by (simp add: accounted_def)
    next
      case False
      have "\<not> NT_SUCCESS STATUS_INSUFFICIENT_RESOURCES" by (simp add: NT_SUCCESS_def)
      then show ?thesis using y False by auto
    qed
    have "NT_SUCCESS STATUS_REPARSE" by (simp add: NT_SUCCESS_def)
    then show ?thesis using k out nb(1)
      by (auto simp: access_exit_def Let_def mem_free_def split: if_splits)
  qed
qed simp

section \<open>The depth of the check\<close>

lemma parent_access_flags:
  "\<not> FlagOn parent_flags (if a then FILE_DELETE_CHILD OR FILE_LIST_DIRECTORY
     else (if b then FILE_DELETE_CHILD else 0) OR (if d then FILE_LIST_DIRECTORY else 0))"
  by (simp add: FlagOn_def)

lemma grant_cong:
  assumes "\<And>d c. \<not> FlagOn parent_flags d \<Longrightarrow> p d c = p' d c"
  shows "access_grant env p req Desired = access_grant env p' req Desired"
proof
  fix c
  have "p (if a then FILE_DELETE_CHILD OR FILE_LIST_DIRECTORY
        else (if b then FILE_DELETE_CHILD else 0) OR (if d then FILE_LIST_DIRECTORY else 0)) =
      p' (if a then FILE_DELETE_CHILD OR FILE_LIST_DIRECTORY
        else (if b then FILE_DELETE_CHILD else 0) OR (if d then FILE_LIST_DIRECTORY else 0))" for a b d
    by (rule ext, rule assms, rule parent_access_flags)
  then show "access_grant env p req Desired c = access_grant env p' req Desired c"
    unfolding access_grant_def by (simp only:)
qed

lemma body_cong:
  assumes "access_grant env p req Desired = access_grant env p' req Desired"
  shows "access_body env p req target cp tr Desired = access_body env p' req target cp tr Desired"
  by (intro ext) (unfold access_body_def assms, rule refl)

lemma check_cong:
  assumes "\<And>d c. (FlagOn parent_flags Desired \<Longrightarrow> \<not> FlagOn parent_flags d) \<Longrightarrow>
      FlagOn parent_flags Desired \<Longrightarrow>
      nested_check (\<lambda>desired req sl. FspAccessCheckEx n env True False desired False req sl) req d c =
      nested_check (\<lambda>desired req sl. FspAccessCheckEx m env True False desired False req sl) req d c"
  shows "FspAccessCheckEx (Suc n) env cp tr Desired want req sl = FspAccessCheckEx (Suc m) env cp tr Desired want req sl"
proof -
  let ?p = "\<lambda>n. nested_check (\<lambda>desired req sl. FspAccessCheckEx n env True False desired False req sl) req"
  have "access_grant env (?p n) req Desired = access_grant env (?p m) req Desired"
  proof (cases "FlagOn parent_flags Desired")
    case True
    show ?thesis by (rule grant_cong) (rule assms, assumption, rule True)
  next
    case False
    show ?thesis by (rule ext) (rule grant_parent_unused [OF False])
  qed
  then have "access_body env (?p n) req target cp tr Desired = access_body env (?p m) req target cp tr Desired"
    for target by (rule body_cong)
  then show ?thesis unfolding FspAccessCheckEx.simps by (simp only:)
qed

lemma check_flat:
  "\<not> FlagOn parent_flags Desired \<Longrightarrow>
     FspAccessCheckEx (Suc n) env cp tr Desired want req sl = FspAccessCheckEx (Suc m) env cp tr Desired want req sl"
  by (rule check_cong) simp

lemma check_depth:
  "FspAccessCheckEx (Suc (Suc n)) env cp tr Desired want req sl = FspAccessCheckEx (Suc (Suc 0)) env cp tr Desired want req sl"
proof -
  have "nested_check (\<lambda>desired req sl. FspAccessCheckEx (Suc n) env True False desired False req sl) req d c =
      nested_check (\<lambda>desired req sl. FspAccessCheckEx (Suc 0) env True False desired False req sl) req d c"
    if "\<not> FlagOn parent_flags d" for d c
    unfolding nested_check_def check_flat [OF that, of n env True False False _ _ 0] ..
  then show ?thesis by (rule check_cong)
qed

section \<open>The check returns\<close>

text \<open>
  The contract of \<open>GetSecurityByName\<close>: after \<open>STATUS_BUFFER_OVERFLOW\<close> a call with the size that was
  asked for does not overflow again.
\<close>

definition settles :: "('s, 'sd) access_env \<Rightarrow> bool" where
  "settles env \<longleftrightarrow> (\<forall>get s name k attr sd n s'. GetSecurityByName env = Some get \<longrightarrow>
     get s name k = ((STATUS_BUFFER_OVERFLOW, attr, sd, n), s') \<longrightarrow> fst (fst (get s' name n)) \<noteq> STATUS_BUFFER_OVERFLOW)"

lemma get_security_returns:
  assumes "settles env" "GetSecurityByName env \<noteq> None"
  shows "get_security env name c \<noteq> None"
proof -
  obtain get where g: "GetSecurityByName env = Some get" using assms(2) by auto
  obtain r attr sd n s' where q: "get (Fs c) name (SdSize c) = ((r, attr, sd, n), s')" by (metis prod.collapse)
  have one: "FspGetSecurityByName get (MemAlloc env) name c' \<noteq> None"
    if "fst (fst (get (Fs c') name (SdSize c'))) \<noteq> STATUS_BUFFER_OVERFLOW" for c' :: "('a, 'b) check_state"
    using that by (subst FspGetSecurityByName.simps) (auto split: prod.splits)
  have two: "r = STATUS_BUFFER_OVERFLOW \<Longrightarrow> fst (fst (get s' name n)) \<noteq> STATUS_BUFFER_OVERFLOW"
    using assms(1) g q unfolding settles_def by blast
  have "FspGetSecurityByName get (MemAlloc env) name c \<noteq> None"
  proof (cases "r = STATUS_BUFFER_OVERFLOW")
    case False
    then show ?thesis using one q by simp
  next
    case True
    have "FspGetSecurityByName get (MemAlloc env) name
        ((mem_free (c\<lparr>Fs := s', SdSize := n\<rparr>))\<lparr>Live := Live (mem_free c) + 1, Block := True\<rparr>) \<noteq> None"
      by (rule one) (use two [OF True] in simp)
    then show ?thesis by (subst FspGetSecurityByName.simps) (simp add: q True)
  qed
  then show ?thesis by (simp add: get_security_def g)
qed

lemma suffix_index_returns:
  assumes "0 \<notin> set s"
  shows "\<exists>i. FspPathSuffixIndex (s @ [0]) = Some i"
proof (cases "0x5c \<in> set s")
  case True
  from last_separators [OF True] obtain a k t where s: "s = a @ replicate (Suc k) 0x5c @ t"
      "a = [] \<or> last a \<noteq> 0x5c" "0x5c \<notin> set t" by blast
  have "0 \<notin> set a" "0 \<notin> set t" using assms by (auto simp: s(1))
  from path_suffix_split [OF this(1) s(2) this(2) s(3), of k "[]" True] show ?thesis
    by (simp add: FspPathSuffixIndex_def s(1))
next
  case False
  from path_suffix_none [OF assms this, of "[]" True] show ?thesis by (simp add: FspPathSuffixIndex_def)
qed

lemma suffix_returns:
  assumes "0 \<in> set b"
  shows "\<exists>y. FspPathSuffix b root = Some y"
proof -
  obtain s rest where b: "b = s @ 0 # rest" "0 \<notin> set s" using split_list_first [OF assms] by blast
  show ?thesis
  proof (cases "0x5c \<in> set s")
    case True
    from last_separators [OF True] obtain a k t where s: "s = a @ replicate (Suc k) 0x5c @ t"
        "a = [] \<or> last a \<noteq> 0x5c" "0x5c \<notin> set t" by blast
    have "0 \<notin> set a" "0 \<notin> set t" using b(2) by (auto simp: s(1))
    from path_suffix_split [OF this(1) s(2) this(2) s(3), of k rest root] show ?thesis by (simp add: b(1) s(1))
  next
    case False
    from path_suffix_none [OF b(2) this] show ?thesis by (simp add: b(1))
  qed
qed

lemma traverse_one_returns:
  assumes "settles env" "GetSecurityByName env \<noteq> None" "0 \<notin> set p"
  shows "traverse_one env req p c \<noteq> None"
proof -
  obtain r attr c' where "get_security env p c = Some (r, attr, c')"
    using get_security_returns [OF assms(1,2), of p c] by auto
  then show ?thesis using suffix_index_returns [OF assms(3)]
    by (auto simp only: traverse_one_def option.case prod.case option.map split: if_splits)
qed

lemma traverse_loop_returns:
  "settles env \<Longrightarrow> GetSecurityByName env \<noteq> None \<Longrightarrow> 0 \<notin> set name \<Longrightarrow> traverse_loop env req name pos c \<noteq> None"
proof (induction env req name pos c rule: traverse_loop.induct)
  case (1 env req name pos c)
  let ?r = "pos + length (takeWhile (\<lambda>c. c \<noteq> 0x5c \<and> c \<noteq> 0x3a) (drop pos name))"
  let ?p = "if ?r > 0 then take ?r name else [0x5c]"
  show ?case
  proof (cases "?r < length name \<and> name ! ?r = 0x5c")
    case False
    then show ?thesis by (subst traverse_loop.simps) (simp add: Let_def del: not_None_eq)
  next
    case True
    have "0 \<notin> set ?p" using "1.prems"(3) by (auto dest: in_set_takeD)
    then obtain o1 r1 attr1 c1 where one: "traverse_one env req ?p c = Some (o1, r1, attr1, c1)"
      using traverse_one_returns [OF "1.prems"(1,2), of ?p req c] by auto
    show ?thesis
    proof (cases o1)
      case o1: True
      then show ?thesis using one True by (subst traverse_loop.simps) (simp add: Let_def del: not_None_eq)
    next
      case o1: False
      from "1.IH" [OF refl _ one refl refl refl _ "1.prems"] o1 True
      show ?thesis using one by (subst traverse_loop.simps) (simp add: Let_def del: not_None_eq)
    qed
  qed
qed

section \<open>Soundness\<close>

text \<open>What the file must be like for an open to succeed.\<close>

definition open_consistent :: "('s, 'sd) access_env \<Rightarrow> create_request \<Rightarrow> u32 \<Rightarrow> u32 \<Rightarrow> bool" where
  "open_consistent env req Desired attr \<longleftrightarrow>
     (FlagOn attr FILE_ATTRIBUTE_REPARSE_POINT \<longrightarrow> FlagOn (CreateOptions req) FILE_OPEN_REPARSE_POINT) \<and>
     (HasTrailingBackslash req \<longrightarrow> FlagOn attr FILE_ATTRIBUTE_DIRECTORY) \<and>
     (\<not> (FlagOn attr FILE_ATTRIBUTE_REPARSE_POINT \<and> UmNoReparsePointsDirCheck env) \<longrightarrow>
        (FlagOn (CreateOptions req) FILE_DIRECTORY_FILE \<longrightarrow> FlagOn attr FILE_ATTRIBUTE_DIRECTORY) \<and>
        (FlagOn (CreateOptions req) FILE_NON_DIRECTORY_FILE \<longrightarrow> \<not> FlagOn attr FILE_ATTRIBUTE_DIRECTORY)) \<and>
     (FlagOn attr FILE_ATTRIBUTE_READONLY \<longrightarrow> \<not> FlagOn (CreateOptions req) FILE_DELETE_ON_CLOSE) \<and>
     (FlagOn attr FILE_ATTRIBUTE_READONLY \<and> \<not> FlagOn attr FILE_ATTRIBUTE_DIRECTORY \<longrightarrow>
        \<not> FlagOn Desired (FILE_WRITE_DATA OR FILE_APPEND_DATA OR FILE_ADD_SUBDIRECTORY OR FILE_DELETE_CHILD))"

text \<open>
  The parent directory of a file: its name without the last component and the separators before it,
  the root where nothing is left, and the name itself when it has no separator.
\<close>

definition parent_of :: "wstr \<Rightarrow> wstr" where
  "parent_of name =
     (if 0x5c \<notin> set name then name
      else let p = rev (dropWhile (\<lambda>c. c = 0x5c) (dropWhile (\<lambda>c. c \<noteq> 0x5c) (rev name)))
        in if p = [] then [0x5c] else p)"

lemma parent_of_split:
  assumes "a = [] \<or> last a \<noteq> 0x5c" "0x5c \<notin> set t"
  shows "parent_of (a @ replicate (Suc k) 0x5c @ t) = (if a = [] then [0x5c] else a)"
proof -
  have t: "\<forall>c \<in> set (rev t). c \<noteq> 0x5c" using assms(2) by auto
  have r: "dropWhile (\<lambda>c. c = 0x5c) (replicate n 0x5c @ rev a) = rev a" for n
    using assms(1) by (induction n) (auto simp: dropWhile_eq_self_iff hd_rev)
  have "dropWhile (\<lambda>c. c \<noteq> 0x5c) (rev t @ replicate (Suc k) 0x5c @ rev a) = replicate (Suc k) 0x5c @ rev a"
    using t by (subst dropWhile_append2) simp_all
  then show ?thesis using r [of "Suc k"] by (simp add: parent_of_def Let_def replicate_append_same)
qed

text \<open>
  What the check of the parent directory may report: the file system knows the parent by name, and either
  answers \<open>STATUS_REPARSE\<close> with an index; or \<open>AccessCheck\<close> grants on its descriptor the access that
  is asked of it, and the parent is a directory, whose access is reported, or a reparse point, whose index is.
\<close>

definition parent_reports :: "('s, 'sd) access_env \<Rightarrow> create_request \<Rightarrow> u32 \<Rightarrow> u32 \<Rightarrow> bool" where
  "parent_reports env req Desired pa \<longleftrightarrow>
     (\<exists>r attr sd n. answered env (parent_of (cstr (Name_Buffer req) 0)) r attr sd n \<and> NT_SUCCESS r \<and>
        (if r = STATUS_REPARSE then pa = attr
         else \<exists>r' g. (if n = 0 then g = parent_asks Desired
             else access_result env req sd (parent_asks Desired) = (r', g) \<and> NT_SUCCESS r') \<and>
           (if FlagOn attr FILE_ATTRIBUTE_REPARSE_POINT
            then FspPathSuffixIndex (parent_of (cstr (Name_Buffer req) 0) @ [0]) = Some pa
            else FlagOn attr FILE_ATTRIBUTE_DIRECTORY \<and> pa = g)))"

lemma parent_name:
  assumes "access_name req Parent_directory = Some (name, suffix, b)" "0 \<in> set (Name_Buffer req)"
  shows "name = parent_of (cstr (Name_Buffer req) 0)"
proof -
  obtain s rest where b: "Name_Buffer req = s @ 0 # rest" "0 \<notin> set s" using split_list_first [OF assms(2)] by blast
  have c: "cstr (Name_Buffer req) 0 = s" using b by (auto simp: cstr_def takeWhile_append)
  show ?thesis
  proof (cases "0x5c \<in> set s")
    case True
    from last_separators [OF True] obtain a k t where s: "s = a @ replicate (Suc k) 0x5c @ t"
        "a = [] \<or> last a \<noteq> 0x5c" "0x5c \<notin> set t" by blast
    have z: "0 \<notin> set a" "0 \<notin> set t" using b(2) by (auto simp: s(1))
    have "cstr (a @ 0 # r) 0 = a" for r using z(1) by (auto simp: cstr_def takeWhile_append)
    then have "name = (if a = [] then [0x5c] else a)"
      using assms(1) path_suffix_split [OF z(1) s(2) z(2) s(3), of k rest True]
      by (auto simp: access_name_def b(1) s(1) split: if_splits)
    then show ?thesis unfolding c s(1) parent_of_split [OF s(2,3)] .
  next
    case False
    then show ?thesis using assms(1) path_suffix_none [OF b(2) False, of rest True] c b
      by (auto simp: access_name_def parent_of_def)
  qed
qed

lemma grant_flat:
  assumes "access_grant env p req d c = Some (over, r, g, c')" "NT_SUCCESS r" "UserMode req"
    and d: "\<not> FlagOn parent_flags d" "d \<noteq> 0"
  shows "\<not> over \<and> c' = c \<and> (if SdSize c = 0 then g = 0 else access_result env req (the (Sd c)) d = (r, g))"
  using assms(1) [unfolded grant_parent_unused [OF d(1), of env p req c "\<lambda>_ _. None"]] assms(2-5)
  by (auto simp: access_grant_def run_access_result Let_def split: prod.splits if_splits)

lemma grant_not_over: "access_grant env p req d c = Some (over, r, g, c') \<Longrightarrow> over \<Longrightarrow> \<not> NT_SUCCESS r"
  by (auto simp: access_grant_def Let_def split: prod.splits if_splits option.splits sum.splits)

lemma grant_over: "access_grant env p req d c = Some (over, r, g, c') \<Longrightarrow> \<not> over \<Longrightarrow> NT_SUCCESS r"
  by (auto simp: access_grant_def Let_def NT_SUCCESS_def split: prod.splits if_splits option.splits sum.splits)

text \<open>The body of the check of a parent directory, when it ends in success.\<close>

lemma body_parent:
  assumes b: "access_body env p req Parent_directory True False d name c = Some (r, attr, g, c')"
    and r: "NT_SUCCESS r" and u: "UserMode req" and d: "\<not> FlagOn parent_flags d" "d \<noteq> 0"
    and get: "GetSecurityByName env \<noteq> None"
  shows "\<exists>r2 a2 sd n. answered env name r2 a2 sd n \<and> NT_SUCCESS r2 \<and>
    (if r2 = STATUS_REPARSE then r = STATUS_REPARSE \<and> attr = a2
     else \<exists>r' g'. (if n = 0 then g' = d else access_result env req sd d = (r', g') \<and> NT_SUCCESS r') \<and>
       (if FlagOn a2 FILE_ATTRIBUTE_REPARSE_POINT then r = STATUS_REPARSE \<and> FspPathSuffixIndex (name @ [0]) = Some attr
        else FlagOn a2 FILE_ATTRIBUTE_DIRECTORY \<and> r \<noteq> STATUS_REPARSE \<and> g = g'))"
proof -
  have e: "\<not> NT_SUCCESS STATUS_NOT_A_DIRECTORY" "\<not> NT_SUCCESS STATUS_CANNOT_DELETE" by (simp_all add: NT_SUCCESS_def)
  have m: "\<not> FlagOn MAXIMUM_ALLOWED d" "\<not> FlagOn d MAXIMUM_ALLOWED"
    using d(1) unfolding flag_or by (simp_all add: FlagOn_def and.commute)
  obtain r2 a2 c2 where q: "get_security env name c = Some (r2, a2, c2)"
    using b by (auto simp: access_body_def split: option.splits)
  show ?thesis
  proof (cases "\<not> NT_SUCCESS r2 \<or> r2 = STATUS_REPARSE")
    case True
    then have "r = r2 \<and> attr = a2" using b q by (simp add: access_body_def)
    then show ?thesis using get_security_asked(4) [OF q get] r True by auto
  next
    case False
    then have ok: "NT_SUCCESS r2" "r2 \<noteq> STATUS_REPARSE" by simp_all
    obtain over r3 g3 c3 where gr: "access_grant env p req d c2 = Some (over, r3, g3, c3)"
      using b q False by (auto simp: access_body_def split: option.splits)
    have tr: "(if UserMode req \<and> False \<and> \<not> HasTraversePrivilege req \<and> name \<noteq> [0x5c]
        then traverse_loop env req name 0 c else Some (False, STATUS_SUCCESS, 0, c)) = Some (False, STATUS_SUCCESS, 0, c)" by simp
    have cp: "\<not> (\<not> True \<and> HasTrailingBackslash req \<and> \<not> FlagOn a2 FILE_ATTRIBUTE_DIRECTORY)" by simp
    note b2 = b [unfolded access_body_def tr option.case prod.case if_False q if_not_P [OF False] if_not_P [OF cp] gr]
    have over: "\<not> over" using b2 r grant_not_over [OF gr] by (cases over) auto
    have r3: "NT_SUCCESS r3" by (rule grant_over [OF gr over])
    note fl = grant_flat [OF gr r3 u d]
    then have c3: "c3 = c2" by simp
    note b3 = b2 [unfolded if_not_P [OF over] c3]
    obtain sd where sd: "answered env name r2 a2 sd (SdSize c2)" "Sd c2 = Some sd"
      using get_security_asked(4) [OF q get ok(1)] by blast
    have g3: "if SdSize c2 = 0 then g3 = 0 else access_result env req sd d = (r3, g3)"
      using fl [unfolded sd(2) option.sel] by blast
    have f: "access_final req d a n g' = (r', g'') \<Longrightarrow> NT_SUCCESS r' \<Longrightarrow> r' = STATUS_SUCCESS \<and> g'' = (if n = 0 then d else g')"
      for a n g' r' g'' using u m e by (auto simp: access_final_def Let_def maximum_or_def split: if_splits)
    have "if FlagOn a2 FILE_ATTRIBUTE_REPARSE_POINT then r = STATUS_REPARSE \<and> FspPathSuffixIndex (name @ [0]) = Some attr
        else FlagOn a2 FILE_ATTRIBUTE_DIRECTORY \<and> r \<noteq> STATUS_REPARSE \<and> g = (if SdSize c2 = 0 then d else g3)"
      using b3 r e by (auto simp: access_type_def Let_def dest!: f split: if_splits prod.splits option.splits)
    then show ?thesis using sd(1) ok g3 r3
      by (intro exI [of _ r2] exI [of _ a2] exI [of _ sd] exI [of _ "SdSize c2"])
        (auto intro!: exI [of _ r3] exI [of _ "if SdSize c2 = 0 then d else g3"] split: if_splits)
  qed
qed

lemma nested_reports:
  assumes n: "nested_check (\<lambda>desired req sl. FspAccessCheckEx fuel env True False desired False req sl) req (parent_asks Desired) c = Some (r, pa, c')"
    and r: "NT_SUCCESS r" and f: "FlagOn parent_flags Desired"
    and q: "Kind req = FspFsctlTransactCreateKind" "UserMode req" "GetSecurityByName env \<noteq> None"
      "Buf c = Name_Buffer req" "0 \<in> set (Name_Buffer req)"
  shows "parent_reports env req Desired pa \<and> Sd c' = Sd c \<and> SdSize c' = SdSize c"
proof -
  let ?n = "req\<lparr>Name_Buffer := Buf c, NamedStream := 0\<rparr>" and ?d = "parent_asks Desired"
  have q': "Kind ?n = FspFsctlTransactCreateKind" "UserMode ?n" "0 \<in> set (Name_Buffer ?n)"
      "Name_Buffer ?n = Name_Buffer req" using q by simp_all
  have a: "access_result env ?n = access_result env req" by (intro ext) (simp add: access_result_def)
  have e: "\<not> NT_SUCCESS STATUS_INVALID_PARAMETER" "\<not> NT_SUCCESS STATUS_INSUFFICIENT_RESOURCES"
    by (simp_all add: NT_SUCCESS_def)
  obtain sd req2 s' live' where x: "FspAccessCheckEx fuel env True False ?d False ?n (Fs c, Live c) =
      Some (r, pa, sd, req2, s', live')" and c': "c' = c\<lparr>Fs := s', Live := live', Buf := Name_Buffer req2\<rparr>"
    using n by (auto simp: nested_check_def split: option.splits prod.splits)
  then obtain m where m: "fuel = Suc m" by (cases fuel) auto
  have t: "access_target_of ?n True = Parent_directory" by (simp add: access_target_of_def)
  have early: "access_early env Parent_directory ?d False ?n = None"
  proof (rule ccontr)
    assume "access_early env Parent_directory ?d False ?n \<noteq> None"
    then have "r = STATUS_INVALID_PARAMETER"
      using x q'(2) q(3) by (auto simp: m t Let_def access_early_def split: if_splits)
    then show False using r e by simp
  qed
  obtain name suffix b where nm: "access_name ?n Parent_directory = Some (name, suffix, b)"
    using x by (auto simp: m t early Let_def split: option.splits)
  note y = x [unfolded m FspAccessCheckEx.simps Let_def t early nm option.case prod.case]
  let ?p = "nested_check (\<lambda>desired req sl. FspAccessCheckEx m env True False desired False req sl) ?n"
  from y obtain r1 attr g1 c1 where
    b: "(if \<not> MemAlloc env 1024
         then Some (STATUS_INSUFFICIENT_RESOURCES, 0, 0,
           \<lparr>Fs = fst (Fs c, Live c), Live = snd (Fs c, Live c), Block = False, Sd = None, SdSize = 1024, Buf = b\<rparr>)
         else access_body env ?p ?n Parent_directory True False ?d name
           \<lparr>Fs = fst (Fs c, Live c), Live = snd (Fs c, Live c) + 1, Block = True, Sd = None, SdSize = 1024, Buf = b\<rparr>) =
        Some (r1, attr, g1, c1)"
    and out: "access_exit ?n Parent_directory False suffix (r1, attr, g1, c1) = (r, pa, sd, req2, s', live')"
    by (elim exE conjE map_option_eq_Some [THEN iffD1, elim_format]) (metis prod_cases4)
  have nf: "\<not> NT_SUCCESS STATUS_OBJECT_PATH_NOT_FOUND" by (simp add: NT_SUCCESS_def)
  have r1: "r1 = r" "pa = (if r = STATUS_REPARSE then attr else g1)"
    using out r nf by (auto simp: access_exit_def Let_def split: if_splits)
  have mem: "MemAlloc env 1024" using b r1 r e by (auto split: if_splits)
  have "name = parent_of (cstr (Name_Buffer req) 0)" using parent_name [OF nm q'(3)] q'(4) by simp
  then have "parent_reports env req Desired pa"
    using body_parent [OF b [unfolded if_not_P [OF not_not [THEN iffD2, OF mem]]] r [folded r1(1)] q'(2)
        parent_asks_flags parent_asks_something [OF f] q(3)] r1
    unfolding parent_reports_def a by (fastforce split: if_splits)
  then show ?thesis by (simp add: c')
qed

lemma flag_bits: "FlagOn attr FILE_ATTRIBUTE_READONLY \<longleftrightarrow> bit attr 0" "FlagOn attr FILE_ATTRIBUTE_DIRECTORY \<longleftrightarrow> bit attr 4"
  using and_B [of attr 0] and_B [of attr 4] by (simp_all add: FlagOn_def B_def)

lemma readonly_flags:
  "attr AND FILE_ATTRIBUTE_READONLY = FILE_ATTRIBUTE_READONLY \<longleftrightarrow> FlagOn attr FILE_ATTRIBUTE_READONLY"
  "attr AND (FILE_ATTRIBUTE_READONLY OR FILE_ATTRIBUTE_DIRECTORY) = FILE_ATTRIBUTE_READONLY \<longleftrightarrow>
     FlagOn attr FILE_ATTRIBUTE_READONLY \<and> \<not> FlagOn attr FILE_ATTRIBUTE_DIRECTORY"
proof -
  have "attr AND B 0 = B 0 \<longleftrightarrow> bit attr 0"
  proof
    assume "attr AND B 0 = B 0"
    from arg_cong [OF this, of "\<lambda>w. bit w 0"] show "bit attr 0" by (simp add: bit_and_iff bit_B)
  qed (auto simp: u32_eq_iff bit_and_iff bit_B)
  then show "attr AND FILE_ATTRIBUTE_READONLY = FILE_ATTRIBUTE_READONLY \<longleftrightarrow> FlagOn attr FILE_ATTRIBUTE_READONLY"
    unfolding flag_bits by (simp add: B_def)
  have "attr AND (B 0 OR B 4) = B 0 \<longleftrightarrow> bit attr 0 \<and> \<not> bit attr 4"
  proof
    assume a: "attr AND (B 0 OR B 4) = B 0"
    from arg_cong [OF a, of "\<lambda>w. bit w 0"] arg_cong [OF a, of "\<lambda>w. bit w 4"]
    show "bit attr 0 \<and> \<not> bit attr 4" by (simp add: bit_and_iff bit_or_iff bit_B)
  qed (auto simp: u32_eq_iff bit_and_iff bit_or_iff bit_B)
  then show "attr AND (FILE_ATTRIBUTE_READONLY OR FILE_ATTRIBUTE_DIRECTORY) = FILE_ATTRIBUTE_READONLY \<longleftrightarrow>
     FlagOn attr FILE_ATTRIBUTE_READONLY \<and> \<not> FlagOn attr FILE_ATTRIBUTE_DIRECTORY"
    unfolding flag_bits by (simp add: B_def)
qed

end
