(* ===== verification/SecurityClaims.thy ===== *)
theory SecurityClaims
  imports SecuritySpec
begin

text \<open>The properties of the access check, with a concrete file system as their witness.\<close>

section \<open>The check returns\<close>

lemma grant_returns:
  assumes "\<And>d. FlagOn parent_flags Desired \<Longrightarrow> \<not> FlagOn parent_flags d \<Longrightarrow> parent d c \<noteq> None"
  shows "access_grant env parent req Desired c \<noteq> None"
proof (cases "FlagOn parent_flags Desired")
  case True
  let ?d = "if FlagOn MAXIMUM_ALLOWED Desired then FILE_DELETE_CHILD OR FILE_LIST_DIRECTORY
     else (if FlagOn DELETE Desired then FILE_DELETE_CHILD else 0) OR
       (if FlagOn FILE_READ_ATTRIBUTES Desired then FILE_LIST_DIRECTORY else 0)"
  have "parent ?d c \<noteq> None" by (rule assms [OF True parent_access_flags])
  then obtain r pa c' where p: "parent ?d c = Some (r, pa, c')" by (metis not_None_eq prod_cases3)
  show ?thesis unfolding access_grant_def p by (simp add: Let_def case_prod_beta del: not_None_eq)
next
  case False
  then show ?thesis by (simp add: access_grant_def Let_def case_prod_beta del: not_None_eq)
qed

lemma access_type_returns: "0 \<notin> set name \<Longrightarrow> access_type env req target name attr \<noteq> None"
  using suffix_index_returns [of name]
  by (cases target) (auto simp only: access_type_def Let_def access_target.case option.map split: if_splits)

lemma body_returns:
  assumes s: "settles env" "GetSecurityByName env \<noteq> None" "0 \<notin> set name"
    and p: "\<And>d c'. FlagOn parent_flags Desired \<Longrightarrow> \<not> FlagOn parent_flags d \<Longrightarrow> Buf c' = Buf c \<Longrightarrow> parent d c' \<noteq> None"
  shows "access_body env parent req target cp tr Desired name c \<noteq> None"
proof -
  obtain o1 r1 a1 c1 where t: "(if UserMode req \<and> tr \<and> \<not> HasTraversePrivilege req \<and> name \<noteq> [0x5c]
      then traverse_loop env req name 0 c else Some (False, STATUS_SUCCESS, 0, c)) = Some (o1, r1, a1, c1)"
    using traverse_loop_returns [OF s, of req 0 c] by (cases "UserMode req \<and> tr \<and> \<not> HasTraversePrivilege req \<and> name \<noteq> [0x5c]") auto
  have b1: "Buf c1 = Buf c" using t traverse_loop_ok [OF _ s(2)] by (auto split: if_splits)
  obtain r2 a2 c2 where g: "get_security env name c1 = Some (r2, a2, c2)"
    using get_security_returns [OF s(1,2), of name c1] by auto
  have b2: "Buf c2 = Buf c" using get_security_asked(2) [OF g s(2)] b1 by simp
  obtain o3 r3 g3 c3 where gr: "access_grant env parent req Desired c2 = Some (o3, r3, g3, c3)"
    using grant_returns [of Desired parent c2 env req] p b2 by auto
  obtain o4 r4 a4 where y: "access_type env req target name a2 = Some (o4, r4, a4)"
    using access_type_returns [OF s(3), of env req target a2] by auto
  show ?thesis
    unfolding access_body_def t g gr y option.case prod.case
    by (auto simp: Let_def split: prod.splits)
qed

lemma access_name_returns:
  assumes "name_ok req" "target = Main_file \<Longrightarrow> NamedStream req \<noteq> 0"
  shows "\<exists>name suffix b. access_name req target = Some (name, suffix, b) \<and> 0 \<notin> set name"
proof -
  have c: "0 \<notin> set (cstr b 0)" for b by (auto simp: cstr_def dest: set_takeWhileD)
  show ?thesis
    using assms suffix_returns [of "Name_Buffer req" True] c
    by (cases target) (auto simp: access_name_def name_ok_def Let_def split: option.splits prod.splits)
qed

lemma check_step_returns:
  assumes s: "settles env" "name_ok req"
    and n: "\<And>d c. FlagOn parent_flags Desired \<Longrightarrow> \<not> FlagOn parent_flags d \<Longrightarrow> 0 \<in> set (Buf c) \<Longrightarrow>
      nested_check (\<lambda>desired req sl. FspAccessCheckEx n env True False desired False req sl) req d c \<noteq> None"
  shows "FspAccessCheckEx (Suc n) env cp tr Desired want req sl \<noteq> None"
proof (cases "access_early env (access_target_of req cp) Desired want req")
  case (Some y)
  then show ?thesis by (simp add: Let_def split: prod.splits)
next
  case None
  then have get: "GetSecurityByName env \<noteq> None" by (auto simp: access_early_def Let_def split: if_splits)
  have m: "access_target_of req cp = Main_file \<Longrightarrow> NamedStream req \<noteq> 0" by (simp add: access_target_of_def split: if_splits)
  then obtain name suffix b where a: "access_name req (access_target_of req cp) = Some (name, suffix, b)" "0 \<notin> set name"
    using access_name_returns [OF s(2) m] by blast
  have "0 \<in> set b" using name_restored [OF a(1) s(2) m] by blast
  then have "access_body env (nested_check (\<lambda>desired req sl. FspAccessCheckEx n env True False desired False req sl) req)
      req (access_target_of req cp) cp tr Desired name
      \<lparr>Fs = fst sl, Live = snd sl + 1, Block = True, Sd = None, SdSize = 1024, Buf = b\<rparr> \<noteq> None"
    by (intro body_returns [OF s(1) get a(2)] n) simp_all
  then show ?thesis
    by (simp only: FspAccessCheckEx.simps Let_def None a(1) option.case prod.case) (auto split: if_splits)
qed

lemma nested_returns:
  assumes "settles env" "\<not> FlagOn parent_flags d" "0 \<in> set (Buf c)"
  shows "nested_check (\<lambda>desired req sl. FspAccessCheckEx (Suc n) env True False desired False req sl) req d c \<noteq> None"
proof -
  have "FspAccessCheckEx (Suc n) env True False d False (req\<lparr>Name_Buffer := Buf c, NamedStream := 0\<rparr>) (Fs c, Live c) \<noteq> None"
    by (rule check_step_returns) (use assms in \<open>simp_all add: name_ok_def\<close>)
  then show ?thesis by (auto simp: nested_check_def simp del: FspAccessCheckEx.simps)
qed

lemma check_returns:
  "settles env \<Longrightarrow> name_ok req \<Longrightarrow> FspAccessCheckEx check_fuel env cp tr Desired want req sl \<noteq> None"
  unfolding check_fuel_def numeral_2_eq_2
  by (rule check_step_returns, assumption+) (rule nested_returns)

text \<open>C27. The access check always returns, and never nests deeper than two levels: for every file system
  that answers with a status other than \<open>STATUS_BUFFER_OVERFLOW\<close> once it has the buffer it asked for,
  there is one result that the check has with every fuel from two on.\<close>
theorem access_check_returns:
  assumes "settles env" "name_ok req"
  shows "\<exists>y. \<forall>n. FspAccessCheckEx (n + 2) env cp tr Desired want req sl = Some y
    \<and> (\<not> want \<longrightarrow> FspAccessCheck env cp tr Desired req sl = Some y)"
proof -
  have "FspAccessCheckEx (Suc (Suc 0)) env cp tr Desired want req sl \<noteq> None"
    using check_returns [OF assms, of cp tr Desired want sl] unfolding check_fuel_def numeral_2_eq_2 .
  then obtain y where y: "FspAccessCheckEx (Suc (Suc 0)) env cp tr Desired want req sl = Some y" by blast
  have d: "FspAccessCheckEx (n + 2) env cp tr Desired want req sl = Some y" for n
    unfolding y [symmetric] numeral_2_eq_2 add_Suc_right add_0_right by (rule check_depth)
  have "FspAccessCheck env cp tr Desired req sl = Some y" if "\<not> want"
    using d [of 0] that unfolding FspAccessCheck_def check_fuel_def by (simp only: add_0_left)
  with d show ?thesis by blast
qed

section \<open>A concrete file system\<close>

text \<open>
  The directories \<open>\\\<close> and \<open>\\a\<close> and the file \<open>\\a\\b\<close>, whose descriptors are the masks of the
  rights they grant; a link \<open>\\l\<close> if asked for. Two requests open \<open>\\a\\b\<close> and \<open>\\l\\b\<close>.
\<close>

definition demo_security :: "unit \<Rightarrow> wstr \<Rightarrow> nat \<Rightarrow> (ntstatus \<times> u32 \<times> u32 \<times> nat) \<times> unit" where
  "demo_security s name k =
     (if name = [0x5c] then ((STATUS_SUCCESS, FILE_ATTRIBUTE_DIRECTORY, FILE_ALL_ACCESS, 20), s)
      else if name = [0x5c, 0x61] then ((STATUS_SUCCESS, FILE_ATTRIBUTE_DIRECTORY, 0x21, 20), s)
      else if name = [0x5c, 0x6c] then ((STATUS_SUCCESS, FILE_ATTRIBUTE_REPARSE_POINT, 0x21, 20), s)
      else if name = [0x5c, 0x61, 0x5c, 0x62] \<or> name = [0x5c, 0x6c, 0x5c, 0x62] then ((STATUS_SUCCESS, 0, 0x1, 20), s)
      else ((STATUS_OBJECT_NAME_NOT_FOUND, 0, 0, 0), s))"

definition demo_env :: "(unit, u32) access_env" where
  "demo_env = \<lparr>GetSecurityByName = Some demo_security,
     AccessCheck = (\<lambda>sd token desired. Inr (if desired AND NOT sd = 0 then desired else 0, desired AND NOT sd = 0)),
     MemAlloc = (\<lambda>n. True), UmNoReparsePointsDirCheck = False\<rparr>"

definition demo_create :: "u16 \<Rightarrow> bool \<Rightarrow> create_request" where
  "demo_create dir traverse = \<lparr>Kind = 1, Name_Buffer = [0x5c, dir, 0x5c, 0x62, 0], NamedStream = 0, UserMode = True,
     HasTraversePrivilege = traverse, HasRestorePrivilege = False, HasTrailingBackslash = False,
     OpenTargetDirectory = False, AcceptsSecurityDescriptor = False, CreateOptions = FILE_NON_DIRECTORY_FILE,
     Create_FileAttributes = 0, DesiredAccess = 0x81, Create_GrantedAccess = 0, AccessToken = 0,
     Creator_Descriptor = None, Create_AllocationSize = 0, Ea = [], EaIsReparsePoint = False\<rparr>"

lemma demo_settles: "settles demo_env"
  by (auto simp: settles_def demo_env_def demo_security_def)

lemma demo_name_ok: "name_ok (demo_create dir traverse)"
  by (simp add: name_ok_def demo_create_def)

lemma demo_check:
  "FspAccessCheck demo_env False True 0x81 (demo_create 0x61 False) ((), 0) =
     Some (STATUS_SUCCESS, 0x81, None, demo_create 0x61 False, (), 0)"
  by code_simp

lemma demo_reparse:
  "FspAccessCheck demo_env False True 0x81 (demo_create 0x6c False) ((), 0) =
     Some (STATUS_REPARSE, 0, None, demo_create 0x6c False, (), 1)"
  by code_simp

text \<open>A request for \<open>FILE_READ_ATTRIBUTES\<close> below the link, without traversal, is denied and loses a block.\<close>

lemma demo_denied:
  "FspAccessCheckEx check_fuel demo_env False True 0x80 False (demo_create 0x6c True) ((), 0) =
     Some (STATUS_ACCESS_DENIED, 0, None, demo_create 0x6c True, (), 1)"
  by code_simp

text \<open>The witness of \<open>access_check_returns\<close>.\<close>

theorem access_check_returns_witness:
  "\<exists>y. \<forall>n. FspAccessCheckEx (n + 2) demo_env False True 0x81 False (demo_create 0x61 False) ((), 0) = Some y"
  using access_check_returns [OF demo_settles demo_name_ok, of False True "0x81" False] by blast

section \<open>What the check leaves behind\<close>

text \<open>C28. The access check leaves the request as it was, its name restored in place on every way out, and
  accounts for its memory exactly when no reparse point is met: every block is freed but that of the descriptor
  it gives to the caller. Where a reparse point is met it loses memory, a flaw of the code: on
  \<open>STATUS_REPARSE\<close> the descriptor block is neither freed nor returned, and a check of the parent
  directory that ends in \<open>STATUS_REPARSE\<close> loses its block whatever the status of the whole check is,
  \<open>STATUS_ACCESS_DENIED\<close> included. At most these two blocks are lost, the second only if the access
  desired needs the parent, and no block is ever freed twice.\<close>
theorem access_check_accounting:
  assumes "FspAccessCheckEx fuel env cp tr Desired want req (s, live) = Some (st, g, sd, req', s', live')"
    and "name_ok req"
  shows "req' = req \<and> live + (if sd = None then 0 else 1) \<le> live'
    \<and> live' \<le> live + (if sd = None then 0 else 1) + (if st = STATUS_REPARSE then 1 else 0)
        + (if FlagOn (MAXIMUM_ALLOWED OR DELETE OR FILE_READ_ATTRIBUTES) Desired then 1 else 0)
    \<and> (no_reparse env \<longrightarrow> st \<noteq> STATUS_REPARSE \<and> live' = live + (if sd = None then 0 else 1))
    \<and> (st = STATUS_REPARSE \<longrightarrow> sd = None \<and> live < live')"
  using check_keeps [OF assms] by blast

theorem access_check_accounting_witness:
  "(\<exists>live. FspAccessCheckEx check_fuel demo_env False True 0x81 False (demo_create 0x6c False) ((), 0) =
     Some (STATUS_REPARSE, 0, None, demo_create 0x6c False, (), live) \<and> 0 < live)
   \<and> (\<exists>live. FspAccessCheckEx check_fuel demo_env False True 0x80 False (demo_create 0x6c True) ((), 0) =
     Some (STATUS_ACCESS_DENIED, 0, None, demo_create 0x6c True, (), live) \<and> 0 < live \<and> live \<le> 1)"
  using access_check_accounting [OF demo_reparse [unfolded FspAccessCheck_def] demo_name_ok]
    access_check_accounting [OF demo_denied demo_name_ok]
    demo_reparse [unfolded FspAccessCheck_def] demo_denied by simp

section \<open>Soundness\<close>

lemma final_consistent:
  assumes "access_final req Desired attr n g1 = (r, g)" "NT_SUCCESS r" "UserMode req"
  shows "(FlagOn attr FILE_ATTRIBUTE_READONLY \<longrightarrow> \<not> FlagOn (CreateOptions req) FILE_DELETE_ON_CLOSE)
    \<and> (FlagOn attr FILE_ATTRIBUTE_READONLY \<and> \<not> FlagOn attr FILE_ATTRIBUTE_DIRECTORY \<longrightarrow>
        \<not> FlagOn Desired (FILE_WRITE_DATA OR FILE_APPEND_DATA OR FILE_ADD_SUBDIRECTORY OR FILE_DELETE_CHILD))"
proof -
  have e: "\<not> NT_SUCCESS STATUS_CANNOT_DELETE" by (simp add: NT_SUCCESS_def)
  show ?thesis
    using assms(1) [unfolded access_final_def Let_def readonly_flags if_P [OF assms(3)]] assms(2) e
    by (auto split: if_splits)
qed

lemma type_consistent:
  assumes "access_type env req File_itself name attr = Some (False, r, attr')"
  shows "attr' = attr \<and> (FlagOn attr FILE_ATTRIBUTE_REPARSE_POINT \<longrightarrow> FlagOn (CreateOptions req) FILE_OPEN_REPARSE_POINT)
    \<and> (\<not> (FlagOn attr FILE_ATTRIBUTE_REPARSE_POINT \<and> UmNoReparsePointsDirCheck env) \<longrightarrow>
        (FlagOn (CreateOptions req) FILE_DIRECTORY_FILE \<longrightarrow> FlagOn attr FILE_ATTRIBUTE_DIRECTORY) \<and>
        (FlagOn (CreateOptions req) FILE_NON_DIRECTORY_FILE \<longrightarrow> \<not> FlagOn attr FILE_ATTRIBUTE_DIRECTORY))"
  using assms by (auto simp: access_type_def Let_def split: if_splits)

text \<open>The access reported for a file, from what the descriptor permits.\<close>

definition reported :: "u32 \<Rightarrow> u32 \<Rightarrow> nat \<Rightarrow> u32 \<Rightarrow> u32" where
  "reported Desired attr n g =
     (let g = (if n = 0 then maximum_or Desired else g)
      in if FlagOn attr FILE_ATTRIBUTE_READONLY \<and> \<not> FlagOn attr FILE_ATTRIBUTE_DIRECTORY \<and> FlagOn MAXIMUM_ALLOWED Desired
         then g AND NOT (FILE_WRITE_DATA OR FILE_APPEND_DATA OR FILE_ADD_SUBDIRECTORY OR FILE_DELETE_CHILD) else g)"

lemma final_reported:
  assumes "access_final req Desired attr n g1 = (r, g)" "NT_SUCCESS r" "UserMode req"
  shows "g = reported Desired attr n g1"
proof -
  have e: "\<not> NT_SUCCESS STATUS_CANNOT_DELETE" by (simp add: NT_SUCCESS_def)
  show ?thesis
    using assms(1) [unfolded access_final_def Let_def readonly_flags if_P [OF assms(3)]] assms(2) e
    by (auto simp: reported_def Let_def split: if_splits)
qed

text \<open>What a successful check of a file knows about the file.\<close>

definition file_permits ::
  "('s, 'sd) access_env \<Rightarrow> create_request \<Rightarrow> wstr \<Rightarrow> u32 \<Rightarrow> u32 \<Rightarrow> bool" where
  "file_permits env req name Desired g \<longleftrightarrow> (\<exists>r attr sd n g1. answered env name r attr sd n
     \<and> NT_SUCCESS r \<and> r \<noteq> STATUS_REPARSE \<and> open_consistent env req Desired attr
     \<and> (0 < n \<longrightarrow> permitted (parent_reports env req Desired) env req sd Desired g1) \<and> g = reported Desired attr n g1)"

lemma body_permits:
  assumes b: "access_body env parent req File_itself False tr Desired name c = Some (r, attr, g, c')"
    and get: "GetSecurityByName env \<noteq> None" and u: "UserMode req" and r: "NT_SUCCESS r" "r \<noteq> STATUS_REPARSE"
    and pk: "\<And>r pa c1 c'. parent (parent_asks Desired) c1 = Some (r, pa, c') \<Longrightarrow> NT_SUCCESS r \<Longrightarrow>
      FlagOn parent_flags Desired \<Longrightarrow> Buf c1 = Buf c \<Longrightarrow>
      parent_reports env req Desired pa \<and> Sd c' = Sd c1 \<and> SdSize c' = SdSize c1"
  shows "(tr \<and> \<not> HasTraversePrivilege req \<and> name \<noteq> [0x5c] \<longrightarrow>
      (\<forall>i. directory_at 0 name i \<longrightarrow> may_traverse env req (directory_name name i))) \<and> file_permits env req name Desired g"
proof (rule body_success [OF b r])
  fix r1 a1 c1 r2 a2 c2 r3 g3 r4
  assume t: "(if UserMode req \<and> tr \<and> \<not> HasTraversePrivilege req \<and> name \<noteq> [0x5c]
      then traverse_loop env req name 0 c else Some (False, STATUS_SUCCESS, 0, c)) = Some (False, r1, a1, c1)"
    and q: "get_security env name c1 = Some (r2, a2, c2)" "NT_SUCCESS r2" "r2 \<noteq> STATUS_REPARSE"
    and s: "\<not> False \<Longrightarrow> HasTrailingBackslash req \<Longrightarrow> FlagOn a2 FILE_ATTRIBUTE_DIRECTORY"
    and gr: "access_grant env parent req Desired c2 = Some (False, r3, g3, c')"
    and ty: "access_type env req File_itself name a2 = Some (False, r4, attr)"
    and f: "access_final req Desired attr (SdSize c') g3 = (r, g)"
  have tr: "tr \<and> \<not> HasTraversePrivilege req \<and> name \<noteq> [0x5c] \<longrightarrow>
      (\<forall>i. directory_at 0 name i \<longrightarrow> may_traverse env req (directory_name name i))"
    using t u traverse_loop_ok [OF _ get] by auto
  obtain sd where sd: "answered env name r2 a2 sd (SdSize c2)" "Sd c2 = Some sd"
    using get_security_asked(4) [OF q(1) get q(2)] by blast
  have a: "attr = a2" using type_consistent [OF ty] by simp
  have "Buf c1 = Buf c" using t traverse_loop_ok [OF _ get] by (auto split: if_splits)
  then have b2: "Buf c2 = Buf c" using get_security_asked(2) [OF q(1) get] by simp
  have "c' = c2 \<or> FlagOn parent_flags Desired \<and>
      (\<exists>r pa. parent (parent_asks Desired) c2 = Some (r, pa, c') \<and> NT_SUCCESS r)"
    using gr by (auto simp: access_grant_def parent_asks_def [symmetric] Let_def
      split: prod.splits if_splits option.splits sum.splits)
  then have n: "SdSize c' = SdSize c2" using pk b2 by blast
  have "0 < SdSize c2 \<longrightarrow> permitted (parent_reports env req Desired) env req sd Desired g3"
    using grant_permitted [OF gr u _ sd(2), of "parent_reports env req Desired"] pk b2 by blast
  moreover have "open_consistent env req Desired a2"
    using type_consistent [OF ty] final_consistent [OF f r(1) u] s a unfolding open_consistent_def by simp
  ultimately have "file_permits env req name Desired g"
    using final_reported [OF f r(1) u] sd(1) q(2,3) a n unfolding file_permits_def by metis
  then show ?thesis using tr by blast
qed

lemma check_sound:
  assumes "FspAccessCheckEx fuel env False tr Desired want req (s, live) = Some (st, g, sd, req', s', live')"
    and "NT_SUCCESS st" "st \<noteq> STATUS_REPARSE" "UserMode req" "GetSecurityByName env \<noteq> None"
  shows "(tr \<and> \<not> HasTraversePrivilege req \<and> cstr (Name_Buffer req) 0 \<noteq> [0x5c] \<longrightarrow>
      (\<forall>i. directory_at 0 (cstr (Name_Buffer req) 0) i \<longrightarrow>
        may_traverse env req (directory_name (cstr (Name_Buffer req) 0) i)))
    \<and> file_permits env req (cstr (Name_Buffer req) 0) Desired g"
proof (cases fuel)
  case (Suc n)
  let ?nested = "nested_check (\<lambda>desired req sl. FspAccessCheckEx n env True False desired False req sl) req"
  have t: "access_target_of req False = File_itself" by (simp add: access_target_of_def)
  have i: "\<not> NT_SUCCESS STATUS_INVALID_PARAMETER" "\<not> NT_SUCCESS STATUS_INSUFFICIENT_RESOURCES"
    by (simp_all add: NT_SUCCESS_def)
  have k: "Kind req = FspFsctlTransactCreateKind"
    using assms(1,2) i by (auto simp: Suc t Let_def access_early_def split: if_splits)
  have e: "access_early env File_itself Desired want req = None"
  proof (rule ccontr)
    assume "access_early env File_itself Desired want req \<noteq> None"
    then have "st = STATUS_INVALID_PARAMETER"
      using assms(1,4,5) by (auto simp: Suc t Let_def access_early_def split: if_splits)
    then show False using assms(2) i by simp
  qed
  obtain suffix b where n: "access_name req File_itself = Some (cstr (Name_Buffer req) 0, suffix, b)"
      and b: "b = Name_Buffer req" "0 \<in> set (Name_Buffer req)"
    using assms(1) by (auto simp: Suc t e Let_def access_name_def split: if_splits)
  note x = assms(1) [unfolded Suc FspAccessCheckEx.simps Let_def t e n option.case prod.case]
  then obtain r attr g1 c where
    y: "(if \<not> MemAlloc env 1024
         then Some (STATUS_INSUFFICIENT_RESOURCES, 0, 0,
           \<lparr>Fs = fst (s, live), Live = snd (s, live), Block = False, Sd = None, SdSize = 1024, Buf = b\<rparr>)
         else access_body env ?nested req File_itself False tr Desired (cstr (Name_Buffer req) 0)
           \<lparr>Fs = fst (s, live), Live = snd (s, live) + 1, Block = True, Sd = None, SdSize = 1024, Buf = b\<rparr>) =
        Some (r, attr, g1, c)"
    and out: "access_exit req File_itself want suffix (r, attr, g1, c) = (st, g, sd, req', s', live')"
    by (elim exE conjE map_option_eq_Some [THEN iffD1, elim_format]) (metis prod_cases4)
  have r: "r = st" "g1 = g" using out assms(3) by (auto simp: access_exit_def Let_def split: if_splits)
  have m: "MemAlloc env 1024" using y r assms(2) i by (auto split: if_splits)
  show ?thesis
    by (rule body_permits [OF y [unfolded if_not_P [OF not_not [THEN iffD2, OF m]] r] assms(5,4,2,3)])
      (rule nested_reports, assumption+, rule k, rule assms(4), rule assms(5), simp_all add: b)
qed (use assms(1) in simp)

text \<open>C26. When the access check lets a user open a file, the file system and Windows said so: every
  directory on the way that has to be checked exists, is a directory and no reparse point, and may be
  traversed; the file was found, is of the kind that the options ask for, is not read-only for a write
  or a deletion; and the access reported is what \<open>AccessCheck\<close> grants on the file's descriptor, with
  \<open>DELETE\<close> and \<open>FILE_READ_ATTRIBUTES\<close> added only as the parent directory permits: the file system knows
  the parent by the file's name without its last component, \<open>AccessCheck\<close> grants on the parent's descriptor
  the \<open>FILE_DELETE_CHILD\<close> and \<open>FILE_LIST_DIRECTORY\<close> that are asked of it, and the parent is a directory.
  The one exception is a parent that is a reparse point, whose index is read as the access it grants.\<close>
theorem access_check_sound:
  assumes "FspAccessCheckEx fuel env False tr Desired want req (s, live) = Some (st, g, sd, req', s', live')"
    and "NT_SUCCESS st" "st \<noteq> STATUS_REPARSE" "UserMode req" "GetSecurityByName env \<noteq> None"
  shows "(tr \<and> \<not> HasTraversePrivilege req \<and> cstr (Name_Buffer req) 0 \<noteq> [0x5c] \<longrightarrow>
      (\<forall>i. directory_at 0 (cstr (Name_Buffer req) 0) i \<longrightarrow>
        may_traverse env req (directory_name (cstr (Name_Buffer req) 0) i)))
    \<and> file_permits env req (cstr (Name_Buffer req) 0) Desired g"
  by (rule check_sound [OF assms])

theorem access_check_sound_witness:
  "file_permits demo_env (demo_create 0x61 False) [0x5c, 0x61, 0x5c, 0x62] 0x81 0x81
     \<and> may_traverse demo_env (demo_create 0x61 False) [0x5c, 0x61]"
proof -
  have c: "cstr (Name_Buffer (demo_create 0x61 False)) 0 = [0x5c, 0x61, 0x5c, 0x62]"
    by (simp add: cstr_def demo_create_def)
  have d: "directory_at 0 [0x5c, 0x61, 0x5c, 0x62] 2"
    by (auto simp: directory_at_def less_2_cases_iff)
  have p: "UserMode (demo_create 0x61 False)" "\<not> HasTraversePrivilege (demo_create 0x61 False)"
      "GetSecurityByName demo_env \<noteq> None" "NT_SUCCESS STATUS_SUCCESS"
    by (simp_all add: demo_create_def demo_env_def NT_SUCCESS_def)
  from access_check_sound [OF demo_check [unfolded FspAccessCheck_def] p(4) _ p(1,3), unfolded c] p(2) d
  show ?thesis by (auto simp: directory_name_def)
qed

section \<open>The parent directory as a reparse point\<close>

text \<open>When the parent directory is a reparse point, the check of the parent ends in
  \<open>STATUS_REPARSE\<close>, which counts as a success, and the index of the reparse point is then read as the
  access granted on the parent: bit 0 of the index decides whether \<open>FILE_READ_ATTRIBUTES\<close> is granted,
  and bit 6 adds \<open>DELETE\<close> that nobody asked for.\<close>
theorem access_check_reparse_parent:
  assumes "UserMode req" "0 < SdSize c" "Sd c = Some sd"
    and "AccessCheck env sd (AccessToken req) FILE_READ_ATTRIBUTES = Inr (0, False)"
    and "parent FILE_LIST_DIRECTORY c = Some (STATUS_REPARSE, index, c')" "Sd c' = Sd c"
  shows "access_grant env parent req FILE_READ_ATTRIBUTES c =
    Some (if bit index 0 then (False, STATUS_SUCCESS, (if bit index 6 then DELETE else 0) OR FILE_READ_ATTRIBUTES, c')
          else (True, STATUS_ACCESS_DENIED, 0, c'))"
proof -
  have b: "FlagOn FILE_LIST_DIRECTORY index \<longleftrightarrow> bit index 0" "FlagOn FILE_DELETE_CHILD index \<longleftrightarrow> bit index 6"
    using and_B [of index 0] and_B [of index 6] by (simp_all add: FlagOn_def B_def and.commute)
  have f: "FlagOn FILE_READ_ATTRIBUTES FILE_READ_ATTRIBUTES" "\<not> FlagOn MAXIMUM_ALLOWED FILE_READ_ATTRIBUTES"
      "\<not> FlagOn DELETE FILE_READ_ATTRIBUTES" "FlagOn parent_flags FILE_READ_ATTRIBUTES"
    by (simp_all add: FlagOn_def)
  have s: "NT_SUCCESS STATUS_REPARSE" by (simp add: NT_SUCCESS_def)
  show ?thesis
    using assms unfolding access_grant_def run_access_result access_result_def
    by (simp add: Let_def b f f(4) [simplified] s)
qed

theorem access_check_reparse_parent_witness:
  "access_grant demo_env
     (nested_check (\<lambda>desired req sl. FspAccessCheckEx 1 demo_env True False desired False req sl) (demo_create 0x6c True))
     (demo_create 0x6c True) FILE_READ_ATTRIBUTES
     \<lparr>Fs = (), Live = 1, Block = True, Sd = Some 1, SdSize = 20, Buf = [0x5c, 0x6c, 0x5c, 0x62, 0]\<rparr> =
   Some (True, STATUS_ACCESS_DENIED, 0,
     \<lparr>Fs = (), Live = 2, Block = True, Sd = Some 1, SdSize = 20, Buf = [0x5c, 0x6c, 0x5c, 0x62, 0]\<rparr>)"
proof -
  let ?c = "\<lparr>Fs = (), Live = 1, Block = True, Sd = Some 1, SdSize = 20, Buf = [0x5c, 0x6c, 0x5c, 0x62, 0]\<rparr>"
  have p: "nested_check (\<lambda>desired req sl. FspAccessCheckEx 1 demo_env True False desired False req sl) (demo_create 0x6c True)
      FILE_LIST_DIRECTORY ?c = Some (STATUS_REPARSE, 0, ?c\<lparr>Live := 2\<rparr>)"
    by code_simp
  have a: "AccessCheck demo_env 1 (AccessToken (demo_create 0x6c True)) FILE_READ_ATTRIBUTES = Inr (0, False)"
    by (simp add: demo_env_def)
  show ?thesis
    using access_check_reparse_parent [of "demo_create 0x6c True" ?c 1 demo_env
        "nested_check (\<lambda>desired req sl. FspAccessCheckEx 1 demo_env True False desired False req sl) (demo_create 0x6c True)",
        OF _ _ _ a p]
    by (simp add: demo_create_def)
qed

end
