(* ===== verification/FsRequest.thy ===== *)
theory FsRequest
  imports Security
begin

text \<open>
  Requests, responses and the interface of a user-mode file system (\<open>inc/winfsp/fsctl.h\<close>,
  \<open>inc/winfsp/winfsp.h\<close>). A file system is a record of functions over a state of its own, \<open>None\<close>
  where it does not implement an operation; its answers are its status, what it writes through the
  pointers it is given, and its new state. The members of a C union are separate fields of a record,
  of which a handler uses those of its kind.
\<close>

section \<open>Data\<close>

record file_info =
  Info_FileAttributes :: u32
  Info_ReparseTag :: u32
  Info_AllocationSize :: u64
  Info_FileSize :: u64
  Info_CreationTime :: u64
  Info_LastAccessTime :: u64
  Info_LastWriteTime :: u64
  Info_ChangeTime :: u64
  Info_IndexNumber :: u64
  Info_HardLinks :: u32
  Info_EaSize :: u32

definition zero_file_info :: file_info where
  "zero_file_info = \<lparr>Info_FileAttributes = 0, Info_ReparseTag = 0, Info_AllocationSize = 0, Info_FileSize = 0,
     Info_CreationTime = 0, Info_LastAccessTime = 0, Info_LastWriteTime = 0, Info_ChangeTime = 0,
     Info_IndexNumber = 0, Info_HardLinks = 0, Info_EaSize = 0\<rparr>"

record volume_info =
  TotalSize :: u64
  FreeSize :: u64
  VolumeLabel :: wstr

definition zero_volume_info :: volume_info where
  "zero_volume_info = \<lparr>TotalSize = 0, FreeSize = 0, VolumeLabel = []\<rparr>"

type_synonym full_context = "u64 \<times> u64"

text \<open>What a file system gets as \<open>FileContext\<close>: the pair, or one of its halves.\<close>

datatype file_context = Full_context full_context | Half_context u64

section \<open>Requests\<close>

record overwrite_request =
  Overwrite_FileAttributes :: u32
  Overwrite_AllocationSize :: u64
  Overwrite_Supersede :: bool
  Overwrite_Ea :: bytes

record cleanup_request =
  Cleanup_FileName :: "wstr option"
  Cleanup_Delete :: bool
  Cleanup_SetAllocationSize :: bool
  Cleanup_SetArchiveBit :: bool
  Cleanup_SetLastAccessTime :: bool
  Cleanup_SetLastWriteTime :: bool
  Cleanup_SetChangeTime :: bool

record io_request =
  Io_Address :: u64
  Io_Offset :: u64
  Io_Length :: u32
  Io_Constrained :: bool

record set_information_request =
  FileInformationClass :: u32
  SetInfo_FileName :: wstr
  Basic_FileAttributes :: u32
  Basic_CreationTime :: u64
  Basic_LastAccessTime :: u64
  Basic_LastWriteTime :: u64
  Basic_ChangeTime :: u64
  SetInfo_AllocationSize :: u64
  SetInfo_FileSize :: u64
  DispositionEx_Flags :: u32
  Rename_NewFileName :: wstr
  Rename_AccessToken :: u64
  RenameEx_Flags :: u32

text \<open>\<open>Dir_Memory\<close> is the caller's memory at \<open>Address\<close>, of \<open>Length\<close> bytes.\<close>

record query_directory_request =
  Dir_Memory :: bytes
  Dir_Length :: u32
  Dir_Pattern :: "wstr option"
  Dir_Marker :: "wstr option"
  Dir_PatternIsFileName :: bool

record control_request =
  ControlCode :: u32
  Control_FileName :: wstr
  Control_Buffer :: bytes
  Control_OutputLength :: u32

datatype (plugins only: code) request =
    Create_Request create_request
  | Overwrite_Request full_context overwrite_request
  | Cleanup_Request full_context cleanup_request
  | Close_Request full_context
  | Read_Request full_context io_request
  | Write_Request full_context io_request
  | QueryInformation_Request full_context
  | SetInformation_Request full_context set_information_request
  | QueryEa_Request full_context
  | SetEa_Request full_context bytes
  | FlushBuffers_Request full_context
  | QueryVolumeInformation_Request
  | SetVolumeInformation_Request u32 wstr
  | QueryDirectory_Request full_context query_directory_request
  | FileSystemControl_Request full_context control_request
  | DeviceControl_Request full_context control_request
  | QuerySecurity_Request full_context
  | SetSecurity_Request full_context u32 bytes
  | QueryStreamInformation_Request full_context
  | Other_Request u32

fun request_kind :: "request \<Rightarrow> u32" where
  "request_kind (Create_Request _) = 1"
| "request_kind (Overwrite_Request _ _) = 2"
| "request_kind (Cleanup_Request _ _) = 3"
| "request_kind (Close_Request _) = 4"
| "request_kind (Read_Request _ _) = 5"
| "request_kind (Write_Request _ _) = 6"
| "request_kind (QueryInformation_Request _) = 7"
| "request_kind (SetInformation_Request _ _) = 8"
| "request_kind (QueryEa_Request _) = 9"
| "request_kind (SetEa_Request _ _) = 10"
| "request_kind (FlushBuffers_Request _) = 11"
| "request_kind QueryVolumeInformation_Request = 12"
| "request_kind (SetVolumeInformation_Request _ _) = 13"
| "request_kind (QueryDirectory_Request _ _) = 14"
| "request_kind (FileSystemControl_Request _ _) = 15"
| "request_kind (DeviceControl_Request _ _) = 16"
| "request_kind (QuerySecurity_Request _) = 19"
| "request_kind (SetSecurity_Request _ _ _) = 20"
| "request_kind (QueryStreamInformation_Request _) = 21"
| "request_kind (Other_Request k) = k"

section \<open>Responses\<close>

record transact_buf =
  Buf_Offset :: u16
  Buf_Size :: u16

text \<open>
  The header of a response has 128 bytes and its buffer 16256, so that both fill the
  \<open>FSP_FSCTL_TRANSACT_RSP_SIZEMAX\<close> of 16384 bytes. \<open>Rsp_Data\<close> is the one buffer descriptor of every
  kind but \<open>Create\<close> (and of a reparse answer), \<open>Rsp_FileInfo\<close> the file information of every kind.
\<close>

abbreviation (input) RSP_SIZEMAX :: nat where "RSP_SIZEMAX \<equiv> 16384"
abbreviation (input) RSP_HEADER :: nat where "RSP_HEADER \<equiv> 128"
abbreviation (input) RSP_BUFFER_SIZEMAX :: nat where "RSP_BUFFER_SIZEMAX \<equiv> 16256"
abbreviation (input) PATH_SIZEMAX :: u16 where "PATH_SIZEMAX \<equiv> 2048"

record response =
  Rsp_Size :: u16
  Rsp_Kind :: u32
  Rsp_Hint :: u64
  Information :: u32
  Status :: ntstatus
  Opened_Context :: full_context
  Opened_GrantedAccess :: u32
  Opened_SecurityDescriptor :: transact_buf
  Opened_FileName :: transact_buf
  HasSecurityDescriptor :: bool
  Rsp_FileInfo :: file_info
  Rsp_VolumeInfo :: volume_info
  Rsp_Data :: transact_buf
  Rsp_Buffer :: bytes

text \<open>\<open>memset(Response, 0, sizeof *Response)\<close>: the buffer behind the header keeps its bytes.\<close>

definition zero_buf :: transact_buf where
  "zero_buf = \<lparr>Buf_Offset = 0, Buf_Size = 0\<rparr>"

definition clear_response :: "response \<Rightarrow> response" where
  "clear_response rsp = \<lparr>Rsp_Size = 0, Rsp_Kind = 0, Rsp_Hint = 0, Information = 0, Status = 0,
     Opened_Context = (0, 0), Opened_GrantedAccess = 0, Opened_SecurityDescriptor = zero_buf,
     Opened_FileName = zero_buf, HasSecurityDescriptor = False, Rsp_FileInfo = zero_file_info,
     Rsp_VolumeInfo = zero_volume_info, Rsp_Data = zero_buf, Rsp_Buffer = Rsp_Buffer rsp\<rparr>"

text \<open>A file system writes \<open>data\<close> at the start of the buffer it is given.\<close>

definition write_front :: "bytes \<Rightarrow> bytes \<Rightarrow> bytes" where
  "write_front buf data = take (length buf) data @ drop (length data) buf"

definition align8 :: "nat \<Rightarrow> nat" where
  "align8 n = (n + 7) div 8 * 8"

section \<open>The file system\<close>

text \<open>
  The answer to \<open>Create\<close> and \<open>Open\<close>: the status, the file context, the file information, the bytes of
  the normalized name and \<open>NormalizedNameSize\<close>, and the new state.
\<close>

type_synonym 's open_answer = "(ntstatus \<times> full_context \<times> file_info \<times> bytes \<times> u16) \<times> 's"

text \<open>The operations on an open file and on the volume.\<close>

record 's file_interface =
  Overwrite :: "('s \<Rightarrow> file_context \<Rightarrow> u32 \<Rightarrow> bool \<Rightarrow> u64 \<Rightarrow> (ntstatus \<times> file_info) \<times> 's) option"
  OverwriteEx :: "('s \<Rightarrow> file_context \<Rightarrow> u32 \<Rightarrow> bool \<Rightarrow> u64 \<Rightarrow> bytes option \<Rightarrow> (ntstatus \<times> file_info) \<times> 's) option"
  Cleanup :: "('s \<Rightarrow> file_context \<Rightarrow> wstr option \<Rightarrow> u32 \<Rightarrow> 's) option"
  Close :: "('s \<Rightarrow> file_context \<Rightarrow> 's) option"
  Read :: "('s \<Rightarrow> file_context \<Rightarrow> u64 \<Rightarrow> u64 \<Rightarrow> u32 \<Rightarrow> (ntstatus \<times> u32) \<times> 's) option"
  Write :: "('s \<Rightarrow> file_context \<Rightarrow> u64 \<Rightarrow> u64 \<Rightarrow> u32 \<Rightarrow> bool \<Rightarrow> bool \<Rightarrow> (ntstatus \<times> u32 \<times> file_info) \<times> 's) option"
  Flush :: "('s \<Rightarrow> file_context \<Rightarrow> (ntstatus \<times> file_info) \<times> 's) option"
  GetFileInfo :: "('s \<Rightarrow> file_context \<Rightarrow> (ntstatus \<times> file_info) \<times> 's) option"
  SetBasicInfo :: "('s \<Rightarrow> file_context \<Rightarrow> u32 \<Rightarrow> u64 \<Rightarrow> u64 \<Rightarrow> u64 \<Rightarrow> u64 \<Rightarrow> (ntstatus \<times> file_info) \<times> 's) option"
  SetFileSize :: "('s \<Rightarrow> file_context \<Rightarrow> u64 \<Rightarrow> bool \<Rightarrow> (ntstatus \<times> file_info) \<times> 's) option"
  CanDelete :: "('s \<Rightarrow> file_context \<Rightarrow> wstr \<Rightarrow> ntstatus \<times> 's) option"
  SetDelete :: "('s \<Rightarrow> file_context \<Rightarrow> wstr \<Rightarrow> bool \<Rightarrow> ntstatus \<times> 's) option"
  Rename :: "('s \<Rightarrow> file_context \<Rightarrow> wstr \<Rightarrow> wstr \<Rightarrow> bool \<Rightarrow> ntstatus \<times> 's) option"
  GetSecurity :: "('s \<Rightarrow> file_context \<Rightarrow> (ntstatus \<times> bytes \<times> nat) \<times> 's) option"
  SetSecurity :: "('s \<Rightarrow> file_context \<Rightarrow> u32 \<Rightarrow> bytes \<Rightarrow> ntstatus \<times> 's) option"
  GetEa :: "('s \<Rightarrow> file_context \<Rightarrow> (ntstatus \<times> bytes \<times> u32) \<times> 's) option"
  SetEa :: "('s \<Rightarrow> file_context \<Rightarrow> bytes \<Rightarrow> (ntstatus \<times> file_info) \<times> 's) option"
  GetVolumeInfo :: "('s \<Rightarrow> (ntstatus \<times> volume_info) \<times> 's) option"
  SetVolumeLabel :: "('s \<Rightarrow> wstr \<Rightarrow> (ntstatus \<times> volume_info) \<times> 's) option"
  ReadDirectory :: "('s \<Rightarrow> file_context \<Rightarrow> wstr option \<Rightarrow> wstr option \<Rightarrow> bytes \<Rightarrow> u32 \<Rightarrow> (ntstatus \<times> bytes \<times> u32) \<times> 's) option"
  GetDirInfoByName :: "('s \<Rightarrow> file_context \<Rightarrow> wstr \<Rightarrow> (ntstatus \<times> bytes) \<times> 's) option"
  GetReparsePoint :: "('s \<Rightarrow> file_context \<Rightarrow> wstr \<Rightarrow> (ntstatus \<times> bytes \<times> nat) \<times> 's) option"
  SetReparsePoint :: "('s \<Rightarrow> file_context \<Rightarrow> wstr \<Rightarrow> bytes \<Rightarrow> ntstatus \<times> 's) option"
  DeleteReparsePoint :: "('s \<Rightarrow> file_context \<Rightarrow> wstr \<Rightarrow> bytes \<Rightarrow> ntstatus \<times> 's) option"
  GetStreamInfo :: "('s \<Rightarrow> file_context \<Rightarrow> (ntstatus \<times> bytes \<times> u32) \<times> 's) option"
  Control :: "('s \<Rightarrow> file_context \<Rightarrow> u32 \<Rightarrow> bytes \<Rightarrow> u32 \<Rightarrow> (ntstatus \<times> bytes \<times> u32) \<times> 's) option"

text \<open>
  A file system: its operations on names, which \<open>Create\<close> requests use, and the others.
  \<open>GetAttributesByName\<close> is \<open>GetSecurityByName\<close> with null pointers for the descriptor and its size;
  \<open>CreatePrivateObjectSecurity\<close> and \<open>DescriptorBytes\<close> (the bytes of a descriptor, whose number is
  \<open>GetSecurityDescriptorLength\<close>) are Windows.
\<close>

record ('s, 'sd) file_system =
  Checks :: "('s, 'sd) access_env"
  CreatePrivateObjectSecurity :: "'sd option \<Rightarrow> bytes option \<Rightarrow> bool \<Rightarrow> u64 \<Rightarrow> ntstatus + 'sd"
  DescriptorBytes :: "'sd \<Rightarrow> bytes"
  UmFileContextIsUserContext2 :: bool
  UmFileContextIsFullContext :: bool
  GetAttributesByName :: "'s \<Rightarrow> wstr \<Rightarrow> (ntstatus \<times> u32) \<times> 's"
  Create :: "('s \<Rightarrow> wstr \<Rightarrow> u32 \<Rightarrow> u32 \<Rightarrow> u32 \<Rightarrow> 'sd option \<Rightarrow> u64 \<Rightarrow> 's open_answer) option"
  CreateEx :: "('s \<Rightarrow> wstr \<Rightarrow> u32 \<Rightarrow> u32 \<Rightarrow> u32 \<Rightarrow> 'sd option \<Rightarrow> u64 \<Rightarrow> bytes option \<Rightarrow> bool \<Rightarrow> 's open_answer) option"
  Open :: "('s \<Rightarrow> wstr \<Rightarrow> u32 \<Rightarrow> u32 \<Rightarrow> 's open_answer) option"
  ResolveReparsePoints :: "('s \<Rightarrow> wstr \<Rightarrow> u32 \<Rightarrow> bool \<Rightarrow> (ntstatus \<times> u64 \<times> bytes \<times> nat) \<times> 's) option"
  Interface :: "'s file_interface"

text \<open>
  The state of an operation: the file system, the descriptors allocated by \<open>MemAlloc\<close> and by
  \<open>CreatePrivateObjectSecurity\<close>, and the response. A create request is part of the state too,
  because the checks change its name in place.
\<close>

record 's op_state =
  Op_Fs :: 's
  Op_Mem :: int
  Op_Private :: int
  Op_Rsp :: response

definition ValOfFileContext :: "('s, 'sd) file_system \<Rightarrow> full_context \<Rightarrow> file_context" where
  "ValOfFileContext fs s =
     (if UmFileContextIsFullContext fs then Full_context s
      else Half_context (if UmFileContextIsUserContext2 fs then snd s else fst s))"

definition SetFileContext :: "('s, 'sd) file_system \<Rightarrow> full_context \<Rightarrow> full_context \<Rightarrow> full_context" where
  "SetFileContext fs t s =
     (if UmFileContextIsFullContext fs then s
      else if UmFileContextIsUserContext2 fs then (fst t, snd s) else (fst s, snd t))"

end
