(* ===== verification/OpGuard.thy ===== *)
theory OpGuard
  imports FsRequest "HOL-Library.Multiset"
begin

text \<open>
  The guard around the operations of a user-mode file system (\<open>FspFileSystemOpEnter\<close> and
  \<open>FspFileSystemOpLeave\<close> of \<open>src/dll/fsop.c\<close>, and their counterparts \<open>fsp_fuse_op_enter_lock\<close> and
  \<open>fsp_fuse_op_leave_unlock\<close> of \<open>src/dll/fuse/fuse_intf.c\<close>): an exclusive-shared lock that is taken by
  the kind of the request. The threads of the dispatcher are a multiset of requests, each in the middle of its
  operation; entering and leaving are the steps of a transition system.
\<close>

section \<open>The code\<close>

datatype guard_strategy = Fine | Coarse | Other_strategy

text \<open>The conditions of the two functions, which are the same: whether and how the lock is taken.\<close>

datatype guard_mode = Exclusive_guard | Shared_guard | No_guard

abbreviation (input) FILE_SUPERSEDE :: u32 where "FILE_SUPERSEDE \<equiv> 0"
abbreviation (input) FILE_OPEN :: u32 where "FILE_OPEN \<equiv> 1"
abbreviation (input) FILE_CREATE :: u32 where "FILE_CREATE \<equiv> 2"
abbreviation (input) FILE_OPEN_IF :: u32 where "FILE_OPEN_IF \<equiv> 3"
abbreviation (input) FILE_OVERWRITE :: u32 where "FILE_OVERWRITE \<equiv> 4"
abbreviation (input) FILE_OVERWRITE_IF :: u32 where "FILE_OVERWRITE_IF \<equiv> 5"

definition disposition :: "create_request \<Rightarrow> u32" where
  "disposition req = drop_bit 24 (CreateOptions req) AND 0xff"

fun fine_exclusive :: "request \<Rightarrow> bool" where
  "fine_exclusive (Create_Request req) \<longleftrightarrow> disposition req \<noteq> FILE_OPEN"
| "fine_exclusive (Overwrite_Request _ _) \<longleftrightarrow> True"
| "fine_exclusive (Cleanup_Request _ req) \<longleftrightarrow> Cleanup_Delete req"
| "fine_exclusive (SetInformation_Request _ req) \<longleftrightarrow> FileInformationClass req = 10 \<or> FileInformationClass req = 65"
| "fine_exclusive (SetVolumeInformation_Request _ _) \<longleftrightarrow> True"
| "fine_exclusive (FlushBuffers_Request (UserContext, UserContext2)) \<longleftrightarrow> UserContext = 0 \<and> UserContext2 = 0"
| "fine_exclusive _ \<longleftrightarrow> False"

fun fine_shared :: "request \<Rightarrow> bool" where
  "fine_shared (Create_Request _) \<longleftrightarrow> True"
| "fine_shared (SetInformation_Request _ req) \<longleftrightarrow> FileInformationClass req = 13 \<or> FileInformationClass req = 64"
| "fine_shared (QueryDirectory_Request _ _) \<longleftrightarrow> True"
| "fine_shared QueryVolumeInformation_Request \<longleftrightarrow> True"
| "fine_shared _ \<longleftrightarrow> False"

definition guard :: "guard_strategy \<Rightarrow> request \<Rightarrow> guard_mode" where
  "guard strategy r =
     (case strategy of
        Fine \<Rightarrow> (if fine_exclusive r then Exclusive_guard else if fine_shared r then Shared_guard else No_guard)
      | Coarse \<Rightarrow> Exclusive_guard
      | Other_strategy \<Rightarrow> No_guard)"

text \<open>The FUSE layer guards the requests that set or get a reparse point as well.\<close>

abbreviation (input) FSCTL_SET_REPARSE_POINT :: u32 where "FSCTL_SET_REPARSE_POINT \<equiv> 0x900A4"
abbreviation (input) FSCTL_GET_REPARSE_POINT :: u32 where "FSCTL_GET_REPARSE_POINT \<equiv> 0x900A8"
abbreviation (input) FSCTL_DELETE_REPARSE_POINT :: u32 where "FSCTL_DELETE_REPARSE_POINT \<equiv> 0x900AC"

fun file_system_control :: "u32 \<Rightarrow> request \<Rightarrow> bool" where
  "file_system_control code (FileSystemControl_Request _ req) \<longleftrightarrow> ControlCode req = code"
| "file_system_control code _ \<longleftrightarrow> False"

definition fuse_guard :: "guard_strategy \<Rightarrow> request \<Rightarrow> guard_mode" where
  "fuse_guard strategy r =
     (case strategy of
        Fine \<Rightarrow>
          (if fine_exclusive r \<or> file_system_control FSCTL_SET_REPARSE_POINT r then Exclusive_guard
           else if fine_shared r \<or> file_system_control FSCTL_GET_REPARSE_POINT r then Shared_guard
           else No_guard)
      | Coarse \<Rightarrow> Exclusive_guard
      | Other_strategy \<Rightarrow> No_guard)"

text \<open>
  The lock of Windows: acquiring blocks (\<open>None\<close>) while the lock is held in a way that conflicts, and
  releasing a lock that is not held that way is undefined (\<open>None\<close> too).
\<close>

datatype srw_lock = Unlocked | Exclusive | Shared nat

fun AcquireSRWLockExclusive :: "srw_lock \<Rightarrow> srw_lock option" where
  "AcquireSRWLockExclusive Unlocked = Some Exclusive"
| "AcquireSRWLockExclusive _ = None"

fun AcquireSRWLockShared :: "srw_lock \<Rightarrow> srw_lock option" where
  "AcquireSRWLockShared Unlocked = Some (Shared 1)"
| "AcquireSRWLockShared (Shared n) = Some (Shared (n + 1))"
| "AcquireSRWLockShared Exclusive = None"

fun ReleaseSRWLockExclusive :: "srw_lock \<Rightarrow> srw_lock option" where
  "ReleaseSRWLockExclusive Exclusive = Some Unlocked"
| "ReleaseSRWLockExclusive _ = None"

fun ReleaseSRWLockShared :: "srw_lock \<Rightarrow> srw_lock option" where
  "ReleaseSRWLockShared (Shared n) = (if n = 0 then None else Some (if n = 1 then Unlocked else Shared (n - 1)))"
| "ReleaseSRWLockShared _ = None"

definition FspFileSystemOpEnter :: "guard_strategy \<Rightarrow> request \<Rightarrow> srw_lock \<Rightarrow> srw_lock option" where
  "FspFileSystemOpEnter strategy r lock =
     (case guard strategy r of
        Exclusive_guard \<Rightarrow> AcquireSRWLockExclusive lock
      | Shared_guard \<Rightarrow> AcquireSRWLockShared lock
      | No_guard \<Rightarrow> Some lock)"

definition FspFileSystemOpLeave :: "guard_strategy \<Rightarrow> request \<Rightarrow> srw_lock \<Rightarrow> srw_lock option" where
  "FspFileSystemOpLeave strategy r lock =
     (case guard strategy r of
        Exclusive_guard \<Rightarrow> ReleaseSRWLockExclusive lock
      | Shared_guard \<Rightarrow> ReleaseSRWLockShared lock
      | No_guard \<Rightarrow> Some lock)"

definition fsp_fuse_op_enter_lock :: "guard_strategy \<Rightarrow> request \<Rightarrow> srw_lock \<Rightarrow> srw_lock option" where
  "fsp_fuse_op_enter_lock strategy r lock =
     (case fuse_guard strategy r of
        Exclusive_guard \<Rightarrow> AcquireSRWLockExclusive lock
      | Shared_guard \<Rightarrow> AcquireSRWLockShared lock
      | No_guard \<Rightarrow> Some lock)"

definition fsp_fuse_op_leave_unlock :: "guard_strategy \<Rightarrow> request \<Rightarrow> srw_lock \<Rightarrow> srw_lock option" where
  "fsp_fuse_op_leave_unlock strategy r lock =
     (case fuse_guard strategy r of
        Exclusive_guard \<Rightarrow> ReleaseSRWLockExclusive lock
      | Shared_guard \<Rightarrow> ReleaseSRWLockShared lock
      | No_guard \<Rightarrow> Some lock)"

section \<open>The lock as a contract\<close>

text \<open>
  What the operations rely on, for any implementation of the lock: it relates its state to the modes
  it is held in, grants a mode only when no holder conflicts, and always lets a holder go.
\<close>

definition compatible :: "guard_mode multiset \<Rightarrow> bool" where
  "compatible held \<longleftrightarrow> No_guard \<notin># held \<and> (Exclusive_guard \<in># held \<longrightarrow> held = {#Exclusive_guard#})"

locale guard_lock =
  fixes acquire :: "guard_mode \<Rightarrow> 'l \<Rightarrow> 'l option"
    and release :: "guard_mode \<Rightarrow> 'l \<Rightarrow> 'l option"
    and holds :: "'l \<Rightarrow> guard_mode multiset \<Rightarrow> bool"
    and fresh :: 'l
  assumes fresh_holds: "holds fresh {#}"
    and holds_compatible: "holds l held \<Longrightarrow> compatible held"
    and acquire_holds: "holds l held \<Longrightarrow> m \<noteq> No_guard \<Longrightarrow> acquire m l = Some l' \<Longrightarrow> holds l' (add_mset m held)"
    and acquire_free: "holds l {#} \<Longrightarrow> m \<noteq> No_guard \<Longrightarrow> acquire m l \<noteq> None"
    and release_holds: "holds l (add_mset m held) \<Longrightarrow> m \<noteq> No_guard \<Longrightarrow> \<exists>l'. release m l = Some l' \<and> holds l' held"
begin

definition enter :: "('r \<Rightarrow> guard_mode) \<Rightarrow> 'r \<Rightarrow> 'l \<Rightarrow> 'l option" where
  "enter mode r l = (if mode r = No_guard then Some l else acquire (mode r) l)"

definition leave :: "('r \<Rightarrow> guard_mode) \<Rightarrow> 'r \<Rightarrow> 'l \<Rightarrow> 'l option" where
  "leave mode r l = (if mode r = No_guard then Some l else release (mode r) l)"

definition held_modes :: "('r \<Rightarrow> guard_mode) \<Rightarrow> 'r multiset \<Rightarrow> guard_mode multiset" where
  "held_modes mode running = filter_mset (\<lambda>m. m \<noteq> No_guard) (image_mset mode running)"

definition guarded :: "('r \<Rightarrow> guard_mode) \<Rightarrow> 'l \<Rightarrow> 'r multiset \<Rightarrow> bool" where
  "guarded mode l running \<longleftrightarrow> holds l (held_modes mode running)"

lemma guarded_fresh: "guarded mode fresh {#}"
  by (simp add: guarded_def held_modes_def fresh_holds)

lemma guarded_enter: "guarded mode l running \<Longrightarrow> enter mode r l = Some l' \<Longrightarrow> guarded mode l' (add_mset r running)"
  by (auto simp: guarded_def held_modes_def enter_def acquire_holds split: if_splits)

lemma guarded_leave:
  "guarded mode l (add_mset r running) \<Longrightarrow> \<exists>l'. leave mode r l = Some l' \<and> guarded mode l' running"
  by (auto simp: guarded_def held_modes_def leave_def release_holds)

lemma guarded_idle:
  "guarded mode l running \<Longrightarrow> held_modes mode running = {#} \<Longrightarrow> enter mode r l \<noteq> None"
  by (simp add: guarded_def enter_def acquire_free del: not_None_eq)

lemma guarded_exclusive:
  assumes "guarded mode l running" "running = add_mset r (add_mset r' rest)" "mode r = Exclusive_guard"
  shows "mode r' = No_guard"
proof (rule ccontr)
  assume n: "mode r' \<noteq> No_guard"
  have "compatible (held_modes mode running)" using assms(1) holds_compatible by (simp add: guarded_def)
  then show False using assms(2,3) n by (auto simp: compatible_def held_modes_def)
qed

end

definition srw_acquire :: "guard_mode \<Rightarrow> srw_lock \<Rightarrow> srw_lock option" where
  "srw_acquire m = (if m = Exclusive_guard then AcquireSRWLockExclusive else AcquireSRWLockShared)"

definition srw_release :: "guard_mode \<Rightarrow> srw_lock \<Rightarrow> srw_lock option" where
  "srw_release m = (if m = Exclusive_guard then ReleaseSRWLockExclusive else ReleaseSRWLockShared)"

fun srw_holds :: "srw_lock \<Rightarrow> guard_mode multiset \<Rightarrow> bool" where
  "srw_holds Unlocked held \<longleftrightarrow> held = {#}"
| "srw_holds Exclusive held \<longleftrightarrow> held = {#Exclusive_guard#}"
| "srw_holds (Shared n) held \<longleftrightarrow> 0 < n \<and> held = replicate_mset n Shared_guard"

lemma srw_acquire_holds:
  "srw_holds l held \<Longrightarrow> m \<noteq> No_guard \<Longrightarrow> srw_acquire m l = Some l' \<Longrightarrow> srw_holds l' (add_mset m held)"
  by (cases l; cases m) (auto simp: srw_acquire_def)

lemma srw_release_holds:
  assumes "srw_holds l (add_mset m held)" "m \<noteq> No_guard"
  shows "\<exists>l'. srw_release m l = Some l' \<and> srw_holds l' held"
proof (cases l)
  case (Shared n)
  then obtain k where n: "n = Suc k" using assms(1) by (cases n) auto
  then have "m = Shared_guard \<and> held = replicate_mset k Shared_guard"
    using assms(1) Shared by (metis add_mset_add_single in_replicate_mset replicate_mset_Suc add_mset_remove_trivial
        srw_holds.simps(3) union_single_eq_member)
  then show ?thesis using Shared n by (simp add: srw_release_def)
qed (use assms in \<open>auto simp: srw_release_def\<close>)

interpretation srw: guard_lock srw_acquire srw_release srw_holds Unlocked
proof
  fix l held m l'
  show "srw_holds Unlocked {#}" by simp
  show "srw_holds l held \<Longrightarrow> compatible held"
    by (cases l) (auto simp: compatible_def)
  show "srw_holds l held \<Longrightarrow> m \<noteq> No_guard \<Longrightarrow> srw_acquire m l = Some l' \<Longrightarrow> srw_holds l' (add_mset m held)"
    by (rule srw_acquire_holds)
  show "srw_holds l {#} \<Longrightarrow> m \<noteq> No_guard \<Longrightarrow> srw_acquire m l \<noteq> None"
    by (cases l) (auto simp: srw_acquire_def)
  show "srw_holds l (add_mset m held) \<Longrightarrow> m \<noteq> No_guard \<Longrightarrow> \<exists>l'. srw_release m l = Some l' \<and> srw_holds l' held"
    by (rule srw_release_holds)
qed

section \<open>The operations in flight\<close>

text \<open>A file system uses the guard of the library or that of the FUSE layer.\<close>

datatype guard_functions = Library_guard | Fuse_guard

fun op_enter :: "guard_functions \<Rightarrow> guard_strategy \<Rightarrow> request \<Rightarrow> srw_lock \<Rightarrow> srw_lock option" where
  "op_enter Library_guard = FspFileSystemOpEnter"
| "op_enter Fuse_guard = fsp_fuse_op_enter_lock"

fun op_leave :: "guard_functions \<Rightarrow> guard_strategy \<Rightarrow> request \<Rightarrow> srw_lock \<Rightarrow> srw_lock option" where
  "op_leave Library_guard = FspFileSystemOpLeave"
| "op_leave Fuse_guard = fsp_fuse_op_leave_unlock"

fun guard_of :: "guard_functions \<Rightarrow> guard_strategy \<Rightarrow> request \<Rightarrow> guard_mode" where
  "guard_of Library_guard = guard"
| "guard_of Fuse_guard = fuse_guard"

lemma op_enter_leave:
  "op_enter f strategy = srw.enter (guard_of f strategy)" "op_leave f strategy = srw.leave (guard_of f strategy)"
  by (cases f; auto simp: fun_eq_iff FspFileSystemOpEnter_def FspFileSystemOpLeave_def fsp_fuse_op_enter_lock_def
      fsp_fuse_op_leave_unlock_def srw.enter_def srw.leave_def srw_acquire_def srw_release_def
      split: guard_mode.splits)+

text \<open>A state of the guard: the lock and the operations that have entered and not left.\<close>

inductive guard_step ::
  "guard_functions \<Rightarrow> guard_strategy \<Rightarrow> srw_lock \<times> request multiset \<Rightarrow> srw_lock \<times> request multiset \<Rightarrow> bool"
  for f strategy where
  enter: "op_enter f strategy r l = Some l' \<Longrightarrow> guard_step f strategy (l, running) (l', add_mset r running)"
| leave: "op_leave f strategy r l = Some l' \<Longrightarrow> guard_step f strategy (l, add_mset r running) (l', running)"

definition guard_reachable :: "guard_functions \<Rightarrow> guard_strategy \<Rightarrow> srw_lock \<Rightarrow> request multiset \<Rightarrow> bool" where
  "guard_reachable f strategy l running \<longleftrightarrow> (guard_step f strategy)\<^sup>*\<^sup>* (Unlocked, {#}) (l, running)"

lemma guard_step_guarded:
  "guard_step f strategy s s' \<Longrightarrow> srw.guarded (guard_of f strategy) (fst s) (snd s) \<Longrightarrow>
     srw.guarded (guard_of f strategy) (fst s') (snd s')"
proof (induction rule: guard_step.induct)
  case (enter r l l' running)
  then show ?case using srw.guarded_enter by (simp add: op_enter_leave)
next
  case (leave r l l' running)
  then show ?case using srw.guarded_leave [of "guard_of f strategy" l r running] by (auto simp: op_enter_leave)
qed

lemma guard_reachable_guarded:
  "guard_reachable f strategy l running \<Longrightarrow> srw.guarded (guard_of f strategy) l running"
proof -
  assume "guard_reachable f strategy l running"
  then have "(guard_step f strategy)\<^sup>*\<^sup>* (Unlocked, {#}) (l, running)" by (simp add: guard_reachable_def)
  then have "srw.guarded (guard_of f strategy) (fst (l, running)) (snd (l, running))"
    by (induction rule: rtranclp_induct) (auto simp: srw.guarded_fresh intro: guard_step_guarded)
  then show ?thesis by simp
qed

text \<open>The operations that change the names of the file system, told by what they ask for.\<close>

definition changes_names :: "guard_functions \<Rightarrow> request \<Rightarrow> bool" where
  "changes_names f r \<longleftrightarrow>
     (\<exists>req. r = Create_Request req \<and> disposition req \<noteq> FILE_OPEN) \<or>
     (\<exists>c req. r = Cleanup_Request c req \<and> Cleanup_Delete req) \<or>
     (\<exists>c req. r = SetInformation_Request c req \<and> FileInformationClass req \<in> {10, 65}) \<or>
     (\<exists>k label. r = SetVolumeInformation_Request k label) \<or>
     f = Fuse_guard \<and> file_system_control FSCTL_SET_REPARSE_POINT r"

definition reads_names :: "guard_functions \<Rightarrow> request \<Rightarrow> bool" where
  "reads_names f r \<longleftrightarrow>
     (\<exists>req. r = Create_Request req) \<or> (\<exists>c req. r = QueryDirectory_Request c req) \<or>
     r = QueryVolumeInformation_Request \<or>
     (\<exists>c req. r = SetInformation_Request c req \<and> FileInformationClass req \<in> {13, 64}) \<or>
     f = Fuse_guard \<and> file_system_control FSCTL_GET_REPARSE_POINT r"

lemma guard_names:
  "strategy \<noteq> Other_strategy \<Longrightarrow> changes_names f r \<Longrightarrow> guard_of f strategy r = Exclusive_guard"
  "strategy \<noteq> Other_strategy \<Longrightarrow> reads_names f r \<or> changes_names f r \<Longrightarrow> guard_of f strategy r \<noteq> No_guard"
  by (cases f; auto simp: guard_def fuse_guard_def changes_names_def reads_names_def split: guard_strategy.splits)+

text \<open>With either locking strategy, of the library or of the FUSE layer, and whatever operations are
  in flight: one that changes the names of the file system runs beside no other that changes or reads
  them; leaving an operation always finds the lock held the way that it releases it; and once no operation
  is in flight the lock is free again, so that any operation can enter.\<close>
theorem guard_excludes:
  assumes "guard_reachable f strategy l running" "strategy \<noteq> Other_strategy"
  shows "(\<forall>r r' rest. running = add_mset r (add_mset r' rest) \<longrightarrow> changes_names f r \<longrightarrow>
       \<not> changes_names f r' \<and> \<not> reads_names f r')
    \<and> (\<forall>r \<in># running. op_leave f strategy r l \<noteq> None)
    \<and> (running = {#} \<longrightarrow> l = Unlocked \<and> (\<forall>r. op_enter f strategy r l \<noteq> None))"
proof -
  note g = guard_reachable_guarded [OF assms(1)]
  have "\<not> changes_names f r' \<and> \<not> reads_names f r'"
    if r: "running = add_mset r (add_mset r' rest)" "changes_names f r" for r r' rest
    using srw.guarded_exclusive [OF g r(1) guard_names(1) [OF assms(2) r(2)]] guard_names(2) [OF assms(2), of f r']
    by blast
  moreover have "op_leave f strategy r l \<noteq> None" if r: "r \<in># running" for r
    using srw.guarded_leave [of "guard_of f strategy" l r "running - {#r#}"] g r by (auto simp: op_enter_leave)
  moreover have "l = Unlocked \<and> (\<forall>r. op_enter f strategy r l \<noteq> None)" if "running = {#}"
  proof -
    have "srw_holds l {#}" using g that by (simp add: srw.guarded_def srw.held_modes_def)
    then have "l = Unlocked" by (cases l) auto
    moreover have "op_enter f strategy r l \<noteq> None" for r
      unfolding op_enter_leave by (rule srw.guarded_idle [OF g]) (simp add: that srw.held_modes_def)
    ultimately show ?thesis by blast
  qed
  ultimately show ?thesis by blast
qed

theorem guard_excludes_witness:
  "op_leave Library_guard Fine QueryVolumeInformation_Request (Shared 2) \<noteq> None"
proof -
  have "guard_step Library_guard Fine (Unlocked, {#}) (Shared 1, {#QueryVolumeInformation_Request#})"
    by (rule guard_step.enter) (simp add: FspFileSystemOpEnter_def guard_def)
  moreover have "guard_step Library_guard Fine (Shared 1, {#QueryVolumeInformation_Request#})
      (Shared 2, {#QueryVolumeInformation_Request, QueryVolumeInformation_Request#})"
    by (rule guard_step.enter) (simp add: FspFileSystemOpEnter_def guard_def)
  ultimately have "guard_reachable Library_guard Fine (Shared 2)
      {#QueryVolumeInformation_Request, QueryVolumeInformation_Request#}"
    unfolding guard_reachable_def by (meson converse_rtranclp_into_rtranclp r_into_rtranclp)
  from guard_excludes [OF this] show ?thesis by simp
qed

end
