(* ===== verification/FsCreate.thy ===== *)
theory FsCreate
  imports OpGuard
begin

text \<open>
  Opening and creating files (\<open>FspFileSystemOpCreate\<close> and its parts, \<open>src/dll/fsop.c\<close>): an access
  check for the disposition, the call of the file system, and the response. The state has the request,
  whose name the checks change in place, and counts the security descriptors that are allocated, by the
  function that has to free them. \<open>None\<close> is a check that does not return, or a copy outside the response.
\<close>

section \<open>The state of a create operation\<close>

record 's create_state = "'s op_state" +
  Create_Req :: create_request

datatype descriptor_func = By_FspAccessCheckEx | By_FspCreateSecurityDescriptor

definition FspDeleteSecurityDescriptor ::
  "'sd option \<Rightarrow> descriptor_func \<Rightarrow> 's create_state \<Rightarrow> 's create_state" where
  "FspDeleteSecurityDescriptor SecurityDescriptor CreateFunc st =
     (case SecurityDescriptor of
        None \<Rightarrow> st
      | Some _ \<Rightarrow>
          (case CreateFunc of
             By_FspAccessCheckEx \<Rightarrow> st\<lparr>Op_Mem := Op_Mem st - 1\<rparr>
           | By_FspCreateSecurityDescriptor \<Rightarrow> st\<lparr>Op_Private := Op_Private st - 1\<rparr>))"

text \<open>The call of \<open>FspAccessCheckEx\<close>: the status, the granted access and the descriptor.\<close>

definition check_access ::
  "('s, 'sd) file_system \<Rightarrow> bool \<Rightarrow> bool \<Rightarrow> u32 \<Rightarrow> bool \<Rightarrow> 's create_state \<Rightarrow>
   (ntstatus \<times> u32 \<times> 'sd option \<times> 's create_state) option" where
  "check_access fs CheckParentOrMain AllowTraverseCheck Desired WantDescriptor st = do {
     (Result, GrantedAccess, sd, req, s, live) \<leftarrow>
       FspAccessCheckEx check_fuel (Checks fs) CheckParentOrMain AllowTraverseCheck Desired WantDescriptor
         (Create_Req st) (Op_Fs st, Op_Mem st);
     Some (Result, GrantedAccess, sd, st\<lparr>Op_Fs := s, Op_Mem := live, Create_Req := req\<rparr>) }"

definition FspCreateSecurityDescriptor ::
  "('s, 'sd) file_system \<Rightarrow> 'sd option \<Rightarrow> 's create_state \<Rightarrow> ntstatus \<times> 'sd option \<times> 's create_state" where
  "FspCreateSecurityDescriptor fs ParentDescriptor st =
     (let req = Create_Req st
      in if Kind req \<noteq> FspFsctlTransactCreateKind then (STATUS_INVALID_PARAMETER, None, st)
         else if NamedStream req \<noteq> 0 then (STATUS_SUCCESS, None, st)
         else case CreatePrivateObjectSecurity fs ParentDescriptor (Creator_Descriptor req)
                (FlagOn (CreateOptions req) FILE_DIRECTORY_FILE) (AccessToken req) of
             Inl e \<Rightarrow> (e, None, st)
           | Inr sd \<Rightarrow> (STATUS_SUCCESS, Some sd, st\<lparr>Op_Private := Op_Private st + 1\<rparr>))"

text \<open>The name of the request as the file system reads it.\<close>

definition request_name :: "'s create_state \<Rightarrow> wstr" where
  "request_name st = cstr (Name_Buffer (Create_Req st)) 0"

section \<open>Reparse points\<close>

definition FspFileSystemCallResolveReparsePoints ::
  "('s, 'sd) file_system \<Rightarrow> u32 \<Rightarrow> 's create_state \<Rightarrow> ntstatus \<times> 's create_state" where
  "FspFileSystemCallResolveReparsePoints fs ReparsePointIndex st =
     (case ResolveReparsePoints fs of
        None \<Rightarrow> (STATUS_INVALID_DEVICE_REQUEST, st)
      | Some resolve \<Rightarrow>
          (let ((Result, info, data, Size), s) = resolve (Op_Fs st) (request_name st) ReparsePointIndex
                 (\<not> FlagOn (CreateOptions (Create_Req st)) FILE_OPEN_REPARSE_POINT);
               rsp = (Op_Rsp st)\<lparr>Rsp_Buffer := write_front (Rsp_Buffer (Op_Rsp st)) data\<rparr>
           in if NT_SUCCESS Result
              then (STATUS_REPARSE, st\<lparr>Op_Fs := s, Op_Rsp := rsp\<lparr>Information := ucast info,
                Rsp_Size := of_nat (RSP_HEADER + Size),
                Rsp_Data := \<lparr>Buf_Offset = 0, Buf_Size = of_nat Size\<rparr>\<rparr>\<rparr>)
              else (Result, st\<lparr>Op_Fs := s, Op_Rsp := rsp\<rparr>)))"

text \<open>What every check does with \<open>STATUS_REPARSE\<close> and with a success.\<close>

definition finish_check ::
  "('s, 'sd) file_system \<Rightarrow> (u32 \<Rightarrow> u32) \<Rightarrow> ntstatus \<times> u32 \<times> 'sd option \<times> 's create_state \<Rightarrow>
   ntstatus \<times> u32 \<times> 'sd option \<times> 's create_state" where
  "finish_check fs grant y =
     (case y of (Result, GrantedAccess, sd, st) \<Rightarrow>
        if Result = STATUS_REPARSE
        then (let (Result, st) = FspFileSystemCallResolveReparsePoints fs GrantedAccess st in (Result, 0, sd, st))
        else if NT_SUCCESS Result then (Result, grant GrantedAccess OR Create_GrantedAccess (Create_Req st), sd, st)
        else (Result, 0, sd, st))"

section \<open>The checks of the dispositions\<close>

definition FspFileSystemCreateCheck ::
  "('s, 'sd) file_system \<Rightarrow> bool \<Rightarrow> 's create_state \<Rightarrow> (ntstatus \<times> u32 \<times> 'sd option \<times> 's create_state) option" where
  "FspFileSystemCreateCheck fs AllowTraverseCheck st =
     (let req = Create_Req st
      in if NamedStream req = 0 then do {
           y \<leftarrow>
             (if HasTrailingBackslash req \<and> \<not> FlagOn (CreateOptions req) FILE_DIRECTORY_FILE
              then Some (STATUS_OBJECT_NAME_INVALID, 0, None, st)
              else if FlagOn (Create_FileAttributes req) FILE_ATTRIBUTE_READONLY
                \<and> FlagOn (CreateOptions req) FILE_DELETE_ON_CLOSE
              then Some (STATUS_CANNOT_DELETE, 0, None, st)
              else check_access fs True AllowTraverseCheck
                (if HasRestorePrivilege req then 0
                 else if FlagOn (CreateOptions req) FILE_DIRECTORY_FILE then FILE_ADD_SUBDIRECTORY
                 else FILE_ADD_FILE) True st);
           Some (finish_check fs (\<lambda>_. maximum_or (DesiredAccess req)) y) }
         else do {
           y \<leftarrow>
             (if HasTrailingBackslash req then Some (STATUS_OBJECT_NAME_INVALID, 0, None, st)
              else check_access fs True AllowTraverseCheck
                (DesiredAccess req OR FILE_WRITE_DATA OR
                  (if FlagOn (CreateOptions req) FILE_DELETE_ON_CLOSE then DELETE else 0)) False st);
           Some (finish_check fs (\<lambda>GrantedAccess.
             if FlagOn (DesiredAccess req) MAXIMUM_ALLOWED then GrantedAccess
             else GrantedAccess AND (NOT (DELETE OR FILE_WRITE_DATA) OR
               DesiredAccess req AND (DELETE OR FILE_WRITE_DATA))) y) })"

definition FspFileSystemOpenCheck ::
  "('s, 'sd) file_system \<Rightarrow> bool \<Rightarrow> 's create_state \<Rightarrow> (ntstatus \<times> u32 \<times> 'sd option \<times> 's create_state) option" where
  "FspFileSystemOpenCheck fs AllowTraverseCheck st = do {
     let req = Create_Req st;
     y \<leftarrow> check_access fs False AllowTraverseCheck
       (DesiredAccess req OR (if FlagOn (CreateOptions req) FILE_DELETE_ON_CLOSE then DELETE else 0))
       (AcceptsSecurityDescriptor req) st;
     Some (finish_check fs (\<lambda>GrantedAccess.
       if FlagOn (DesiredAccess req) MAXIMUM_ALLOWED then GrantedAccess
       else GrantedAccess AND (NOT DELETE OR DesiredAccess req AND DELETE)) y) }"

definition FspFileSystemOverwriteCheck ::
  "('s, 'sd) file_system \<Rightarrow> bool \<Rightarrow> 's create_state \<Rightarrow> (ntstatus \<times> u32 \<times> 'sd option \<times> 's create_state) option" where
  "FspFileSystemOverwriteCheck fs AllowTraverseCheck st = do {
     let req = Create_Req st;
     let Supersede = (disposition req = FILE_SUPERSEDE);
     y \<leftarrow> check_access fs False AllowTraverseCheck
       (DesiredAccess req OR (if Supersede then DELETE else FILE_WRITE_DATA) OR
         (if FlagOn (CreateOptions req) FILE_DELETE_ON_CLOSE then DELETE else 0)) False st;
     Some (finish_check fs (\<lambda>GrantedAccess.
       if FlagOn (DesiredAccess req) MAXIMUM_ALLOWED then GrantedAccess
       else GrantedAccess AND (NOT (DELETE OR FILE_WRITE_DATA) OR
         DesiredAccess req AND (DELETE OR FILE_WRITE_DATA))) y) }"

definition FspFileSystemOpenTargetDirectoryCheck ::
  "('s, 'sd) file_system \<Rightarrow> 's create_state \<Rightarrow> (ntstatus \<times> u32 \<times> 'sd option \<times> 's create_state) option" where
  "FspFileSystemOpenTargetDirectoryCheck fs st = do {
     y \<leftarrow> check_access fs True True (DesiredAccess (Create_Req st)) False st;
     Some (finish_check fs (\<lambda>GrantedAccess. GrantedAccess) y) }"

section \<open>The response\<close>

definition FspFileSystemOpCreate_SetOpenDescriptor :: "bytes \<Rightarrow> response \<Rightarrow> response option" where
  "FspFileSystemOpCreate_SetOpenDescriptor OpenDescriptor rsp =
     (let Offset = of_nat (align8 (unat (Buf_Size (Opened_FileName rsp)))) :: u16;
          Size = of_nat (length OpenDescriptor) :: u16
      in if unat Offset + unat Size \<le> RSP_BUFFER_SIZEMAX then do {
           buf \<leftarrow> buf_put (Rsp_Buffer rsp) (unat Offset) (take (unat Size) OpenDescriptor);
           Some (rsp\<lparr>Rsp_Size := Rsp_Size rsp + Offset + Size,
             Opened_SecurityDescriptor := \<lparr>Buf_Offset = Offset, Buf_Size = Size\<rparr>,
             HasSecurityDescriptor := True, Rsp_Buffer := buf\<rparr>) }
         else Some rsp)"

text \<open>The call of \<open>Open\<close>, which writes the normalized name into the response.\<close>

definition take_answer ::
  "'s open_answer \<Rightarrow> 's create_state \<Rightarrow> ntstatus \<times> full_context \<times> file_info \<times> u16 \<times> 's create_state" where
  "take_answer a st =
     (case a of ((Result, FullContext, FileInfo, name, NormalizedNameSize), s) \<Rightarrow>
        (Result, FullContext, FileInfo, NormalizedNameSize,
         st\<lparr>Op_Fs := s, Op_Rsp := (Op_Rsp st)\<lparr>Rsp_Buffer := write_front (Rsp_Buffer (Op_Rsp st)) name\<rparr>\<rparr>))"

definition call_open ::
  "('s, 'sd) file_system \<Rightarrow> wstr \<Rightarrow> u32 \<Rightarrow> u32 \<Rightarrow> 's create_state \<Rightarrow>
   (ntstatus \<times> full_context \<times> file_info \<times> u16 \<times> 's create_state) option" where
  "call_open fs FileName options GrantedAccess st = do {
     f \<leftarrow> Open fs;
     Some (take_answer (f (Op_Fs st) FileName options GrantedAccess) st) }"

definition call_create ::
  "('s, 'sd) file_system \<Rightarrow> 'sd option \<Rightarrow> u32 \<Rightarrow> 's create_state \<Rightarrow>
   (ntstatus \<times> full_context \<times> file_info \<times> u16 \<times> 's create_state) option" where
  "call_create fs Descriptor GrantedAccess st =
     (let req = Create_Req st
      in case CreateEx fs of
           Some f \<Rightarrow> Some (take_answer (f (Op_Fs st) (request_name st) (CreateOptions req) GrantedAccess
             (Create_FileAttributes req) Descriptor (Create_AllocationSize req)
             (if Ea req \<noteq> [] then Some (Ea req) else None) (EaIsReparsePoint req)) st)
         | None \<Rightarrow> do {
             f \<leftarrow> Create fs;
             Some (take_answer (f (Op_Fs st) (request_name st) (CreateOptions req) GrantedAccess
               (Create_FileAttributes req) Descriptor (Create_AllocationSize req)) st) })"

text \<open>The normalized name, present when its size is not the initial one, and what follows it.\<close>

definition set_normalized_name :: "u16 \<Rightarrow> response \<Rightarrow> response" where
  "set_normalized_name NormalizedNameSize rsp =
     (if NormalizedNameSize \<le> PATH_SIZEMAX
      then rsp\<lparr>Rsp_Size := of_nat (RSP_HEADER + unat NormalizedNameSize),
        Opened_FileName := \<lparr>Buf_Offset = 0, Buf_Size = NormalizedNameSize\<rparr>\<rparr>
      else rsp)"

abbreviation (input) FILE_SUPERSEDED :: u32 where "FILE_SUPERSEDED \<equiv> 0"
abbreviation (input) FILE_OPENED :: u32 where "FILE_OPENED \<equiv> 1"
abbreviation (input) FILE_CREATED :: u32 where "FILE_CREATED \<equiv> 2"
abbreviation (input) FILE_OVERWRITTEN :: u32 where "FILE_OVERWRITTEN \<equiv> 3"
abbreviation (input) FILE_EXISTS :: u32 where "FILE_EXISTS \<equiv> 4"
abbreviation (input) FILE_DOES_NOT_EXIST :: u32 where "FILE_DOES_NOT_EXIST \<equiv> 5"

definition set_opened ::
  "('s, 'sd) file_system \<Rightarrow> u32 \<Rightarrow> full_context \<Rightarrow> u32 \<Rightarrow> file_info \<Rightarrow> response \<Rightarrow> response" where
  "set_opened fs info FullContext GrantedAccess FileInfo rsp =
     rsp\<lparr>Information := info, Opened_Context := SetFileContext fs (Opened_Context rsp) FullContext,
       Opened_GrantedAccess := GrantedAccess, Rsp_FileInfo := FileInfo\<rparr>"

text \<open>The end of every successful open: the name, the descriptor, and the rest of the response.\<close>

definition finish_open ::
  "('s, 'sd) file_system \<Rightarrow> 'sd option \<Rightarrow> descriptor_func \<Rightarrow> u32 \<Rightarrow> u32 \<Rightarrow>
   full_context \<times> file_info \<times> u16 \<Rightarrow> 's create_state \<Rightarrow> (ntstatus \<times> 's create_state) option" where
  "finish_open fs OpenDescriptor CreateFunc info GrantedAccess answer st =
     (case answer of (FullContext, FileInfo, NormalizedNameSize) \<Rightarrow> do {
        let rsp = set_normalized_name NormalizedNameSize (Op_Rsp st);
        rsp \<leftarrow> (case OpenDescriptor of
            None \<Rightarrow> Some rsp
          | Some sd \<Rightarrow> FspFileSystemOpCreate_SetOpenDescriptor (DescriptorBytes fs sd) rsp);
        let st = FspDeleteSecurityDescriptor OpenDescriptor CreateFunc st;
        Some (STATUS_SUCCESS, st\<lparr>Op_Rsp := set_opened fs info FullContext GrantedAccess FileInfo rsp\<rparr>) })"

section \<open>The dispositions\<close>

text \<open>
  The part that creates a file, for \<open>FileCreate\<close>, \<open>FileOpenIf\<close> and \<open>FileOverwriteIf\<close>; the last of
  these keeps no descriptor for the response, which \<open>Keep\<close> tells.
\<close>

definition create_file ::
  "('s, 'sd) file_system \<Rightarrow> bool \<Rightarrow> bool \<Rightarrow> 's create_state \<Rightarrow> (ntstatus \<times> 's create_state) option" where
  "create_file fs AllowTraverseCheck Keep st = do {
     (Result, GrantedAccess, ParentDescriptor, st) \<leftarrow> FspFileSystemCreateCheck fs AllowTraverseCheck st;
     if \<not> NT_SUCCESS Result \<or> Result = STATUS_REPARSE then Some (Result, st)
     else do {
       let (Result, ObjectDescriptor, st) = FspCreateSecurityDescriptor fs ParentDescriptor st;
       let st = FspDeleteSecurityDescriptor ParentDescriptor By_FspAccessCheckEx st;
       if \<not> NT_SUCCESS Result then Some (Result, st)
       else do {
         (Result, FullContext, FileInfo, NormalizedNameSize, st) \<leftarrow>
           call_create fs ObjectDescriptor GrantedAccess st;
         let st = (if Keep then st else FspDeleteSecurityDescriptor ObjectDescriptor By_FspCreateSecurityDescriptor st);
         let OpenDescriptor = (if Keep then ObjectDescriptor else None);
         if \<not> NT_SUCCESS Result
         then Some (Result, FspDeleteSecurityDescriptor OpenDescriptor By_FspCreateSecurityDescriptor st)
         else finish_open fs OpenDescriptor By_FspCreateSecurityDescriptor FILE_CREATED GrantedAccess
           (FullContext, FileInfo, NormalizedNameSize) st } } }"

definition FspFileSystemOpCreate_FileCreate ::
  "('s, 'sd) file_system \<Rightarrow> 's create_state \<Rightarrow> (ntstatus \<times> 's create_state) option" where
  "FspFileSystemOpCreate_FileCreate fs st = create_file fs True True st"

definition FspFileSystemOpCreate_FileOpen ::
  "('s, 'sd) file_system \<Rightarrow> 's create_state \<Rightarrow> (ntstatus \<times> 's create_state) option" where
  "FspFileSystemOpCreate_FileOpen fs st = do {
     (Result, GrantedAccess, OpenDescriptor, st) \<leftarrow> FspFileSystemOpenCheck fs True st;
     if \<not> NT_SUCCESS Result \<or> Result = STATUS_REPARSE then Some (Result, st)
     else do {
       (Result, FullContext, FileInfo, NormalizedNameSize, st) \<leftarrow>
         call_open fs (request_name st) (CreateOptions (Create_Req st)) GrantedAccess st;
       if \<not> NT_SUCCESS Result
       then Some (Result, FspDeleteSecurityDescriptor OpenDescriptor By_FspAccessCheckEx st)
       else finish_open fs OpenDescriptor By_FspAccessCheckEx FILE_OPENED GrantedAccess
         (FullContext, FileInfo, NormalizedNameSize) st } }"

definition FspFileSystemOpCreate_FileOpenIf ::
  "('s, 'sd) file_system \<Rightarrow> 's create_state \<Rightarrow> (ntstatus \<times> 's create_state) option" where
  "FspFileSystemOpCreate_FileOpenIf fs st = do {
     (Result, GrantedAccess, OpenDescriptor, st) \<leftarrow> FspFileSystemOpenCheck fs True st;
     if \<not> NT_SUCCESS Result \<or> Result = STATUS_REPARSE
     then (if Result \<noteq> STATUS_OBJECT_NAME_NOT_FOUND then Some (Result, st) else create_file fs False True st)
     else do {
       (Result, FullContext, FileInfo, NormalizedNameSize, st) \<leftarrow>
         call_open fs (request_name st) (CreateOptions (Create_Req st)) GrantedAccess st;
       if \<not> NT_SUCCESS Result then do {
         let st = FspDeleteSecurityDescriptor OpenDescriptor By_FspAccessCheckEx st;
         (if Result \<noteq> STATUS_OBJECT_NAME_NOT_FOUND then Some (Result, st) else create_file fs False True st) }
       else finish_open fs OpenDescriptor By_FspAccessCheckEx FILE_OPENED GrantedAccess
         (FullContext, FileInfo, NormalizedNameSize) st } }"

definition FspFileSystemOpCreate_FileOverwrite ::
  "('s, 'sd) file_system \<Rightarrow> 's create_state \<Rightarrow> (ntstatus \<times> 's create_state) option" where
  "FspFileSystemOpCreate_FileOverwrite fs st = do {
     (Result, GrantedAccess, _, st) \<leftarrow> FspFileSystemOverwriteCheck fs True st;
     if \<not> NT_SUCCESS Result \<or> Result = STATUS_REPARSE then Some (Result, st)
     else do {
       (Result, FullContext, FileInfo, NormalizedNameSize, st) \<leftarrow>
         call_open fs (request_name st) (CreateOptions (Create_Req st)) GrantedAccess st;
       if \<not> NT_SUCCESS Result then Some (Result, st)
       else finish_open fs None By_FspAccessCheckEx FILE_OVERWRITTEN GrantedAccess
         (FullContext, FileInfo, NormalizedNameSize) st } }"

definition FspFileSystemOpCreate_FileOverwriteIf ::
  "('s, 'sd) file_system \<Rightarrow> 's create_state \<Rightarrow> (ntstatus \<times> 's create_state) option" where
  "FspFileSystemOpCreate_FileOverwriteIf fs st = do {
     let Supersede = (disposition (Create_Req st) = FILE_SUPERSEDE);
     (Result, GrantedAccess, _, st) \<leftarrow> FspFileSystemOverwriteCheck fs True st;
     if \<not> NT_SUCCESS Result \<or> Result = STATUS_REPARSE
     then (if Result \<noteq> STATUS_OBJECT_NAME_NOT_FOUND then Some (Result, st) else create_file fs False False st)
     else do {
       (Result, FullContext, FileInfo, NormalizedNameSize, st) \<leftarrow>
         call_open fs (request_name st) (CreateOptions (Create_Req st)) GrantedAccess st;
       if \<not> NT_SUCCESS Result
       then (if Result \<noteq> STATUS_OBJECT_NAME_NOT_FOUND then Some (Result, st) else create_file fs False False st)
       else finish_open fs None By_FspAccessCheckEx (if Supersede then FILE_SUPERSEDED else FILE_OVERWRITTEN)
         GrantedAccess (FullContext, FileInfo, NormalizedNameSize) st } }"

text \<open>The parent is opened under its name in place, and the name put back after the call.\<close>

definition FspFileSystemOpCreate_FileOpenTargetDirectory ::
  "('s, 'sd) file_system \<Rightarrow> 's create_state \<Rightarrow> (ntstatus \<times> 's create_state) option" where
  "FspFileSystemOpCreate_FileOpenTargetDirectory fs st = do {
     (Result, GrantedAccess, _, st) \<leftarrow> FspFileSystemOpenTargetDirectoryCheck fs st;
     if \<not> NT_SUCCESS Result \<or> Result = STATUS_REPARSE then Some (Result, st)
     else do {
       (Parent, Suffix, buf) \<leftarrow> FspPathSuffix (Name_Buffer (Create_Req st)) True;
       let options = (CreateOptions (Create_Req st) OR FILE_DIRECTORY_FILE) AND NOT FILE_NON_DIRECTORY_FILE;
       (Result, FullContext, FileInfo, NormalizedNameSize, st) \<leftarrow>
         call_open fs (if Parent = Root_path then [0x5c] else cstr buf 0) options GrantedAccess
           (st\<lparr>Create_Req := (Create_Req st)\<lparr>Name_Buffer := buf\<rparr>\<rparr>);
       let st = st\<lparr>Create_Req := (Create_Req st)\<lparr>Name_Buffer := FspPathCombine (Name_Buffer (Create_Req st)) Suffix\<rparr>\<rparr>;
       if \<not> NT_SUCCESS Result then Some (Result, st)
       else do {
         let (info, st) =
           (if GetSecurityByName (Checks fs) \<noteq> None then
              let ((Result, _), s) = GetAttributesByName fs (Op_Fs st) (request_name st)
              in (if NT_SUCCESS Result then FILE_EXISTS else FILE_DOES_NOT_EXIST, st\<lparr>Op_Fs := s\<rparr>)
            else (FILE_OPENED, st));
         finish_open fs None By_FspAccessCheckEx info GrantedAccess (FullContext, FileInfo, NormalizedNameSize) st } } }"

section \<open>The checks after a failure\<close>

text \<open>A stream that is not found: its main file may be a reparse point.\<close>

definition FspFileSystemOpCreate_NotFoundCheck ::
  "('s, 'sd) file_system \<Rightarrow> 's create_state \<Rightarrow> (ntstatus \<times> 's create_state) option" where
  "FspFileSystemOpCreate_NotFoundCheck fs st =
     (let req = Create_Req st; i = unat (NamedStream req) div 2
      in if GetSecurityByName (Checks fs) = None \<or> ResolveReparsePoints fs = None
         then Some (STATUS_OBJECT_NAME_NOT_FOUND, st)
         else if NamedStream req = 0 \<or> FlagOn (CreateOptions req) FILE_OPEN_REPARSE_POINT
         then Some (STATUS_OBJECT_NAME_NOT_FOUND, st)
         else if \<not> i < length (Name_Buffer req) then None
         else
           let ((Result, FileAttributes), s) = GetAttributesByName fs (Op_Fs st) (cstr ((Name_Buffer req)[i := 0]) 0);
               st = st\<lparr>Op_Fs := s, Create_Req := req\<lparr>Name_Buffer := (Name_Buffer req)[i := 0, i := 0x3a]\<rparr>\<rparr>
           in if Result \<noteq> STATUS_SUCCESS then Some (STATUS_OBJECT_NAME_NOT_FOUND, st)
              else if \<not> FlagOn FileAttributes FILE_ATTRIBUTE_REPARSE_POINT then Some (STATUS_OBJECT_NAME_NOT_FOUND, st)
              else do {
                index \<leftarrow> FspPathSuffixIndex (Name_Buffer (Create_Req st));
                let (Result, st) = FspFileSystemCallResolveReparsePoints fs index st;
                Some (if Result \<noteq> STATUS_REPARSE then STATUS_OBJECT_NAME_NOT_FOUND else STATUS_REPARSE, st) })"

text \<open>A file that exists already: it may be a directory, or a reparse point.\<close>

definition FspFileSystemOpCreate_CollisionCheck ::
  "('s, 'sd) file_system \<Rightarrow> 's create_state \<Rightarrow> (ntstatus \<times> 's create_state) option" where
  "FspFileSystemOpCreate_CollisionCheck fs st =
     (if GetSecurityByName (Checks fs) = None then Some (STATUS_OBJECT_NAME_COLLISION, st)
      else
        let req = Create_Req st;
            ((Result, FileAttributes), s) = GetAttributesByName fs (Op_Fs st) (request_name st);
            st = st\<lparr>Op_Fs := s\<rparr>
        in if Result \<noteq> STATUS_SUCCESS then Some (STATUS_OBJECT_NAME_COLLISION, st)
           else if FlagOn (CreateOptions req) FILE_NON_DIRECTORY_FILE \<and> FlagOn FileAttributes FILE_ATTRIBUTE_DIRECTORY
           then Some (STATUS_FILE_IS_A_DIRECTORY, st)
           else if ResolveReparsePoints fs = None \<or> FlagOn (CreateOptions req) FILE_OPEN_REPARSE_POINT
             \<or> \<not> FlagOn FileAttributes FILE_ATTRIBUTE_REPARSE_POINT
           then Some (STATUS_OBJECT_NAME_COLLISION, st)
           else do {
             index \<leftarrow> FspPathSuffixIndex (Name_Buffer req);
             let (Result, st) = FspFileSystemCallResolveReparsePoints fs index st;
             Some (if Result \<noteq> STATUS_REPARSE then STATUS_OBJECT_NAME_COLLISION else STATUS_REPARSE, st) })"

section \<open>The operation\<close>

definition FspFileSystemOpCreate ::
  "('s, 'sd) file_system \<Rightarrow> 's create_state \<Rightarrow> (ntstatus \<times> 's create_state) option" where
  "FspFileSystemOpCreate fs st =
     (if Create fs = None \<and> CreateEx fs = None \<or> Open fs = None \<or>
         Overwrite (Interface fs) = None \<and> OverwriteEx (Interface fs) = None
      then Some (STATUS_INVALID_DEVICE_REQUEST, st)
      else if OpenTargetDirectory (Create_Req st) then FspFileSystemOpCreate_FileOpenTargetDirectory fs st
      else do {
        let d = disposition (Create_Req st);
        (Result, st) \<leftarrow>
          (if d = FILE_CREATE then FspFileSystemOpCreate_FileCreate fs st
           else if d = FILE_OPEN then FspFileSystemOpCreate_FileOpen fs st
           else if d = FILE_OPEN_IF then FspFileSystemOpCreate_FileOpenIf fs st
           else if d = FILE_OVERWRITE then FspFileSystemOpCreate_FileOverwrite fs st
           else if d = FILE_OVERWRITE_IF \<or> d = FILE_SUPERSEDE then FspFileSystemOpCreate_FileOverwriteIf fs st
           else Some (STATUS_INVALID_PARAMETER, st));
        if Result = STATUS_OBJECT_NAME_NOT_FOUND then FspFileSystemOpCreate_NotFoundCheck fs st
        else if Result = STATUS_OBJECT_NAME_COLLISION then FspFileSystemOpCreate_CollisionCheck fs st
        else Some (Result, st) })"

end
