(* ===== verification/FsCreateProps.thy ===== *)
theory FsCreateProps
  imports FsCreate SecurityClaims
begin

text \<open>
  What the parts of a create operation keep: the request is as before, every descriptor is freed by
  the function that has to free it, and the response stays untouched until the open succeeds.
\<close>

section \<open>What an operation owes\<close>

text \<open>
  \<open>owes exact st m p st'\<close>: the request is the same, and \<open>m\<close> blocks of the access check and \<open>p\<close> private
  descriptors more are allocated; more than \<open>m\<close> blocks may be lost where \<open>exact\<close> does not hold.
\<close>

definition owes :: "bool \<Rightarrow> 's create_state \<Rightarrow> int \<Rightarrow> int \<Rightarrow> 's create_state \<Rightarrow> bool" where
  "owes exact st m p st' \<longleftrightarrow> Create_Req st' = Create_Req st \<and> Op_Private st' = Op_Private st + p \<and>
     Op_Mem st + m \<le> Op_Mem st' \<and> (exact \<longrightarrow> Op_Mem st' = Op_Mem st + m)"

lemma owes_refl [simp]: "owes exact st 0 0 st"
  by (simp add: owes_def)

lemma owes_trans: "owes exact a m p b \<Longrightarrow> owes exact b m' p' c \<Longrightarrow> owes exact a (m + m') (p + p') c"
  by (auto simp: owes_def)

lemma owes_answer [simp]: "owes exact st m p (st'\<lparr>Op_Fs := s\<rparr>) = owes exact st m p st'"
  "owes exact st m p (st'\<lparr>Op_Rsp := r\<rparr>) = owes exact st m p st'"
  by (simp_all add: owes_def)

lemma owes_req: "owes exact st m p st' \<Longrightarrow> Create_Req st' = Create_Req st"
  by (simp add: owes_def)

text \<open>A descriptor is one allocation of its function.\<close>

definition owned :: "'sd option \<Rightarrow> descriptor_func \<Rightarrow> descriptor_func \<Rightarrow> int" where
  "owned sd f f' = (if sd \<noteq> None \<and> f = f' then 1 else 0)"

lemma owned_simps [simp]: "owned None f f' = 0" "f \<noteq> f' \<Longrightarrow> owned sd f f' = 0" "owned (Some x) f f = 1"
  by (simp_all add: owned_def)

lemma delete_owes:
  "owes exact st (- owned sd f By_FspAccessCheckEx) (- owned sd f By_FspCreateSecurityDescriptor)
     (FspDeleteSecurityDescriptor sd f st)"
  by (cases sd; cases f) (simp_all add: FspDeleteSecurityDescriptor_def owes_def)

section \<open>The response of a successful open\<close>

definition rsp_fresh :: "response \<Rightarrow> bool" where
  "rsp_fresh rsp \<longleftrightarrow> Rsp_Size rsp = of_nat RSP_HEADER \<and> Opened_FileName rsp = zero_buf \<and> \<not> HasSecurityDescriptor rsp
     \<and> length (Rsp_Buffer rsp) = RSP_BUFFER_SIZEMAX"

text \<open>
  The name comes first; the descriptor, if there is one, begins behind it at a multiple of 8 and
  ends inside the buffer, and the size counts the name once more than it should.
\<close>

definition rsp_opened :: "response \<Rightarrow> bool" where
  "rsp_opened rsp \<longleftrightarrow> length (Rsp_Buffer rsp) = RSP_BUFFER_SIZEMAX \<and>
     (let n = unat (Buf_Size (Opened_FileName rsp));
          off = unat (Buf_Offset (Opened_SecurityDescriptor rsp));
          k = unat (Buf_Size (Opened_SecurityDescriptor rsp))
      in Buf_Offset (Opened_FileName rsp) = 0 \<and> n \<le> 2048
        \<and> (if HasSecurityDescriptor rsp
           then off = align8 n \<and> n \<le> off \<and> off + k \<le> RSP_BUFFER_SIZEMAX \<and>
             unat (Rsp_Size rsp) = RSP_HEADER + n + off + k
           else unat (Rsp_Size rsp) = RSP_HEADER + n))"

lemma length_write_front [simp]: "length (write_front buf data) = length buf"
  by (simp add: write_front_def)

lemma rsp_fresh_front [simp]:
  "rsp_fresh (rsp\<lparr>Rsp_Buffer := write_front (Rsp_Buffer rsp) data\<rparr>) = rsp_fresh rsp"
  by (simp add: rsp_fresh_def)

lemma align8_bounds: "n \<le> align8 n" "align8 n \<le> n + 7"
  by (simp_all add: align8_def)

text \<open>The two parts of the response.\<close>

definition rsp_named :: "response \<Rightarrow> bool" where
  "rsp_named rsp \<longleftrightarrow> length (Rsp_Buffer rsp) = RSP_BUFFER_SIZEMAX \<and> \<not> HasSecurityDescriptor rsp \<and>
     Buf_Offset (Opened_FileName rsp) = 0 \<and> unat (Buf_Size (Opened_FileName rsp)) \<le> 2048 \<and>
     unat (Rsp_Size rsp) = RSP_HEADER + unat (Buf_Size (Opened_FileName rsp))"

lemma name_named: "rsp_fresh rsp \<Longrightarrow> rsp_named (set_normalized_name n rsp)"
proof (cases "n \<le> PATH_SIZEMAX")
  case True
  assume f: "rsp_fresh rsp"
  have n: "unat n \<le> 2048" using True by (simp add: word_le_nat_alt)
  then have "unat (of_nat (RSP_HEADER + unat n) :: u16) = RSP_HEADER + unat n"
    unfolding unat_of_nat by (intro mod_less) simp
  then show ?thesis using f True n unfolding rsp_named_def rsp_fresh_def set_normalized_name_def by simp
qed (simp add: rsp_named_def rsp_fresh_def set_normalized_name_def zero_buf_def)

lemma descriptor_opened:
  assumes "rsp_named rsp"
  shows "\<exists>rsp'. FspFileSystemOpCreate_SetOpenDescriptor sd rsp = Some rsp' \<and> rsp_opened rsp'"
proof -
  define n where "n = unat (Buf_Size (Opened_FileName rsp))"
  define Size where "Size = (of_nat (length sd) :: u16)"
  define Offset where "Offset = (of_nat (align8 n) :: u16)"
  have n: "n \<le> 2048" "unat (Rsp_Size rsp) = RSP_HEADER + n" "length (Rsp_Buffer rsp) = RSP_BUFFER_SIZEMAX"
      "Buf_Offset (Opened_FileName rsp) = 0" "\<not> HasSecurityDescriptor rsp"
    using assms by (simp_all add: rsp_named_def n_def)
  have a: "n \<le> align8 n" "align8 n \<le> 2055" using align8_bounds [of n] n(1) by simp_all
  then have off: "unat Offset = align8 n" unfolding Offset_def unat_of_nat by (intro mod_less) simp
  have open_eq: "FspFileSystemOpCreate_SetOpenDescriptor sd rsp =
      (if align8 n + unat Size \<le> RSP_BUFFER_SIZEMAX then do {
         buf \<leftarrow> buf_put (Rsp_Buffer rsp) (align8 n) (take (unat Size) sd);
         Some (rsp\<lparr>Rsp_Size := Rsp_Size rsp + Offset + Size,
           Opened_SecurityDescriptor := \<lparr>Buf_Offset = Offset, Buf_Size = Size\<rparr>,
           HasSecurityDescriptor := True, Rsp_Buffer := buf\<rparr>) }
       else Some rsp)"
    unfolding FspFileSystemOpCreate_SetOpenDescriptor_def Let_def n_def [symmetric] Size_def [symmetric]
      Offset_def [symmetric] off ..
  show ?thesis
  proof (cases "align8 n + unat Size \<le> RSP_BUFFER_SIZEMAX")
    case False
    moreover have "rsp_opened rsp" using n by (simp add: rsp_opened_def Let_def n_def)
    ultimately show ?thesis unfolding open_eq by simp
  next
    case True
    have "length (take (unat Size) sd) \<le> unat Size" by simp
    then have "align8 n + length (take (unat Size) sd) \<le> length (Rsp_Buffer rsp)" using True n(3) by linarith
    then obtain buf where put: "buf_put (Rsp_Buffer rsp) (align8 n) (take (unat Size) sd) = Some buf"
        "length buf = RSP_BUFFER_SIZEMAX"
      using n(3) by (auto simp: buf_put_def)
    have u: "unat (Rsp_Size rsp + Offset + Size) = RSP_HEADER + n + align8 n + unat Size"
      unfolding unat_word_ariths off n(2) using True n(1) a by (simp add: mod_less)
    have "rsp_opened (rsp\<lparr>Rsp_Size := Rsp_Size rsp + Offset + Size,
        Opened_SecurityDescriptor := \<lparr>Buf_Offset = Offset, Buf_Size = Size\<rparr>,
        HasSecurityDescriptor := True, Rsp_Buffer := buf\<rparr>)"
      using n(1,4) a(1) True put(2) u off by (simp add: rsp_opened_def Let_def n_def [symmetric])
    then show ?thesis unfolding open_eq if_P [OF True] put(1) by simp
  qed
qed

lemma named_opened: "rsp_named rsp \<Longrightarrow> rsp_opened rsp"
  by (simp add: rsp_named_def rsp_opened_def Let_def)

lemma set_opened_opened [simp]: "rsp_opened (set_opened fs info c g i rsp) = rsp_opened rsp"
    "Information (set_opened fs info c g i rsp) = info" "Opened_GrantedAccess (set_opened fs info c g i rsp) = g"
  by (simp_all add: set_opened_def rsp_opened_def)

text \<open>The end of an open: it cannot fail.\<close>

lemma finish_open_ok:
  assumes "rsp_fresh (Op_Rsp st)"
  shows "\<exists>st'. finish_open fs sd f info g answer st = Some (STATUS_SUCCESS, st')
    \<and> owes exact st (- owned sd f By_FspAccessCheckEx) (- owned sd f By_FspCreateSecurityDescriptor) st'
    \<and> rsp_opened (Op_Rsp st') \<and> Information (Op_Rsp st') = info \<and> Opened_GrantedAccess (Op_Rsp st') = g"
proof -
  obtain c i n where answer: "answer = (c, i, n)" by (cases answer)
  let ?rsp = "set_normalized_name n (Op_Rsp st)"
  obtain rsp where rsp: "(case sd of None \<Rightarrow> Some ?rsp
      | Some d \<Rightarrow> FspFileSystemOpCreate_SetOpenDescriptor (DescriptorBytes fs d) ?rsp) = Some rsp" "rsp_opened rsp"
  proof (cases sd)
    case None
    then show ?thesis using that named_opened [OF name_named [OF assms, of n]] by simp
  next
    case (Some d)
    then show ?thesis using that descriptor_opened [OF name_named [OF assms, of n], of "DescriptorBytes fs d"] by auto
  qed
  let ?st = "FspDeleteSecurityDescriptor sd f st"
  have "finish_open fs sd f info g answer st =
      Some (STATUS_SUCCESS, ?st\<lparr>Op_Rsp := set_opened fs info c g i rsp\<rparr>)"
    unfolding finish_open_def answer prod.case Let_def rsp(1) by simp
  then show ?thesis using delete_owes [of exact st sd f] rsp(2) by auto
qed

section \<open>The checks\<close>

lemma check_descriptor:
  assumes "FspAccessCheckEx fuel env cp tr Desired want req sl = Some (r, g, sd, req', sl')" "sd \<noteq> None"
  shows "NT_SUCCESS r \<and> r \<noteq> STATUS_REPARSE"
proof (cases fuel)
  case (Suc n)
  have "\<not> NT_SUCCESS STATUS_OBJECT_NAME_NOT_FOUND" by (simp add: NT_SUCCESS_def)
  then have exit: "NT_SUCCESS r \<and> r \<noteq> STATUS_REPARSE"
    if "access_exit req t want suffix y = (r, g, sd, req', sl')" for t suffix y
    using that assms(2) by (cases y) (auto simp: access_exit_def Let_def split: if_splits)
  show ?thesis
    using assms exit unfolding Suc FspAccessCheckEx.simps Let_def
    by (auto split: option.splits prod.splits simp del: FspAccessCheckEx.simps)
qed (use assms in simp)

text \<open>What a check establishes: its debts, and when the response is touched.\<close>

definition checked ::
  "('s, 'sd) file_system \<Rightarrow> 's create_state \<Rightarrow> ntstatus \<times> u32 \<times> 'sd option \<times> 's create_state \<Rightarrow> bool" where
  "checked fs st y \<longleftrightarrow> (case y of (r, g, sd, st') \<Rightarrow>
     owes (no_reparse (Checks fs)) st (owned sd By_FspAccessCheckEx By_FspAccessCheckEx) 0 st' \<and>
     (sd \<noteq> None \<longrightarrow> NT_SUCCESS r \<and> r \<noteq> STATUS_REPARSE) \<and>
     (rsp_fresh (Op_Rsp st) \<longrightarrow> r \<noteq> STATUS_REPARSE \<longrightarrow> rsp_fresh (Op_Rsp st')))"

lemma check_access_ok:
  assumes "check_access fs cp tr D want st = Some y" "name_ok (Create_Req st)"
  shows "checked fs st y" "Op_Rsp (snd (snd (snd y))) = Op_Rsp st"
proof -
  obtain r g sd req s live where c: "FspAccessCheckEx check_fuel (Checks fs) cp tr D want (Create_Req st) (Op_Fs st, Op_Mem st) =
      Some (r, g, sd, req, s, live)"
    and y: "y = (r, g, sd, st\<lparr>Op_Fs := s, Op_Mem := live, Create_Req := req\<rparr>)"
    using assms(1) by (auto simp: check_access_def bind_eq_Some_conv)
  show "checked fs st y"
    using check_keeps [OF c assms(2)] check_descriptor [OF c] unfolding y checked_def owes_def owned_def
    by auto
  show "Op_Rsp (snd (snd (snd y))) = Op_Rsp st" by (simp add: y)
qed

lemma resolve_ok:
  assumes "FspFileSystemCallResolveReparsePoints fs i st = (r, st')"
  shows "owes exact st 0 0 st'" "rsp_fresh (Op_Rsp st) \<Longrightarrow> r \<noteq> STATUS_REPARSE \<Longrightarrow> rsp_fresh (Op_Rsp st')"
  using assms
  by (auto simp: FspFileSystemCallResolveReparsePoints_def Let_def owes_def
      split: option.splits prod.splits if_splits)

lemma finish_check_ok:
  assumes "checked fs st y" "Op_Rsp (snd (snd (snd y))) = Op_Rsp st"
  shows "checked fs st (finish_check fs grant y)"
proof -
  obtain r g sd st1 where y: "y = (r, g, sd, st1)" by (cases y)
  show ?thesis
  proof (cases "r = STATUS_REPARSE")
    case True
    obtain r2 st2 where c: "FspFileSystemCallResolveReparsePoints fs g st1 = (r2, st2)" by fastforce
    have sd: "sd = None" using assms True by (auto simp: checked_def y)
    have "owes (no_reparse (Checks fs)) st 0 0 st2"
      using owes_trans [OF _ resolve_ok(1) [OF c], of "no_reparse (Checks fs)" st 0 0] assms(1)
      by (simp add: checked_def y sd)
    moreover have "rsp_fresh (Op_Rsp st) \<Longrightarrow> r2 \<noteq> STATUS_REPARSE \<Longrightarrow> rsp_fresh (Op_Rsp st2)"
      using resolve_ok(2) [OF c] assms(2) by (simp add: y)
    ultimately show ?thesis using True c sd by (simp add: finish_check_def y checked_def)
  next
    case False
    then show ?thesis using assms by (auto simp: finish_check_def y checked_def)
  qed
qed

lemma checked_error: "\<not> NT_SUCCESS r \<Longrightarrow> checked fs st (r, g, None, st)"
  by (simp add: checked_def)

lemma create_check_ok:
  assumes "FspFileSystemCreateCheck fs tr st = Some y" "name_ok (Create_Req st)"
  shows "checked fs st y"
proof -
  have e: "\<not> NT_SUCCESS STATUS_OBJECT_NAME_INVALID" "\<not> NT_SUCCESS STATUS_CANNOT_DELETE"
    by (simp_all add: NT_SUCCESS_def)
  show ?thesis
    using assms check_access_ok [OF _ assms(2)] e
    by (auto simp: FspFileSystemCreateCheck_def Let_def bind_eq_Some_conv split: if_splits
        intro!: finish_check_ok checked_error)
qed

lemma open_check_ok:
  "FspFileSystemOpenCheck fs tr st = Some y \<Longrightarrow> name_ok (Create_Req st) \<Longrightarrow> checked fs st y"
  using check_access_ok
  by (auto simp: FspFileSystemOpenCheck_def Let_def bind_eq_Some_conv intro!: finish_check_ok)

lemma overwrite_check_ok:
  "FspFileSystemOverwriteCheck fs tr st = Some y \<Longrightarrow> name_ok (Create_Req st) \<Longrightarrow> checked fs st y"
  using check_access_ok
  by (auto simp: FspFileSystemOverwriteCheck_def Let_def bind_eq_Some_conv intro!: finish_check_ok)

lemma target_check_ok:
  "FspFileSystemOpenTargetDirectoryCheck fs st = Some y \<Longrightarrow> name_ok (Create_Req st) \<Longrightarrow> checked fs st y"
  using check_access_ok
  by (auto simp: FspFileSystemOpenTargetDirectoryCheck_def Let_def bind_eq_Some_conv intro!: finish_check_ok)

text \<open>These two give no descriptor.\<close>

lemma no_descriptor:
  "check_access fs cp tr D False st = Some (r, g, sd, st') \<Longrightarrow> name_ok (Create_Req st) \<Longrightarrow> sd = None"
  using check_keeps by (fastforce simp: check_access_def bind_eq_Some_conv)

lemma finish_check_sd: "finish_check fs grant (r, g, sd, st) = (r', g', sd', st') \<Longrightarrow> sd' = sd"
  by (auto simp: finish_check_def split: if_splits prod.splits)

lemma overwrite_no_descriptor:
  assumes "FspFileSystemOverwriteCheck fs tr st = Some (r, g, sd, st')" "name_ok (Create_Req st)"
  shows "sd = None"
proof -
  obtain D r1 g1 sd1 st1 grant where "check_access fs False tr D False st = Some (r1, g1, sd1, st1)"
      "finish_check fs grant (r1, g1, sd1, st1) = (r, g, sd, st')"
    using assms(1) unfolding FspFileSystemOverwriteCheck_def Let_def
    by (auto simp only: bind_eq_Some_conv option.inject)
  then show ?thesis using finish_check_sd no_descriptor assms(2) by blast
qed

lemma target_no_descriptor:
  assumes "FspFileSystemOpenTargetDirectoryCheck fs st = Some (r, g, sd, st')" "name_ok (Create_Req st)"
  shows "sd = None"
proof -
  obtain r1 g1 sd1 st1 where "check_access fs True True (DesiredAccess (Create_Req st)) False st = Some (r1, g1, sd1, st1)"
      "finish_check fs (\<lambda>GrantedAccess. GrantedAccess) (r1, g1, sd1, st1) = (r, g, sd, st')"
    using assms(1) unfolding FspFileSystemOpenTargetDirectoryCheck_def Let_def
    by (auto simp only: bind_eq_Some_conv option.inject)
  then show ?thesis using finish_check_sd no_descriptor assms(2) by blast
qed

section \<open>The calls\<close>

lemma take_answer_ok:
  "take_answer a st = (r, c, i, n, st') \<Longrightarrow>
     (\<exists>s rsp. st' = st\<lparr>Op_Fs := s, Op_Rsp := rsp\<rparr>) \<and> rsp_fresh (Op_Rsp st') = rsp_fresh (Op_Rsp st)"
  by (auto simp: take_answer_def split: prod.splits)

lemma call_open_ok:
  "call_open fs name options g st = Some (r, c, i, n, st') \<Longrightarrow>
     (\<exists>s rsp. st' = st\<lparr>Op_Fs := s, Op_Rsp := rsp\<rparr>) \<and> rsp_fresh (Op_Rsp st') = rsp_fresh (Op_Rsp st)"
  unfolding call_open_def by (auto simp: bind_eq_Some_conv dest!: take_answer_ok)

lemma call_create_ok:
  "call_create fs d g st = Some (r, c, i, n, st') \<Longrightarrow>
     (\<exists>s rsp. st' = st\<lparr>Op_Fs := s, Op_Rsp := rsp\<rparr>) \<and> rsp_fresh (Op_Rsp st') = rsp_fresh (Op_Rsp st)"
  unfolding call_create_def Let_def
  by (auto simp: bind_eq_Some_conv dest!: take_answer_ok split: option.splits)

lemma create_descriptor_ok:
  "FspCreateSecurityDescriptor fs parent st = (r, sd, st') \<Longrightarrow>
     owes exact st 0 (owned sd By_FspCreateSecurityDescriptor By_FspCreateSecurityDescriptor) st'
     \<and> Op_Rsp st' = Op_Rsp st \<and> (sd \<noteq> None \<longrightarrow> r = STATUS_SUCCESS)"
  by (auto simp: FspCreateSecurityDescriptor_def Let_def owes_def split: if_splits sum.splits)

lemma delete_rsp [simp]: "Op_Rsp (FspDeleteSecurityDescriptor sd f st) = Op_Rsp st"
  by (cases sd; cases f) (simp_all add: FspDeleteSecurityDescriptor_def)

section \<open>The dispositions\<close>

text \<open>
  What a part of the operation guarantees: it owes nothing, and on success the response is complete;
  the success came from creating a file, or \<open>Q\<close> holds of what it reports and grants.
\<close>

definition op_ok ::
  "('s, 'sd) file_system \<Rightarrow> (u32 \<Rightarrow> u32 \<Rightarrow> bool) \<Rightarrow> 's create_state \<Rightarrow> ntstatus \<times> 's create_state \<Rightarrow> bool" where
  "op_ok fs Q st y \<longleftrightarrow> (case y of (r, st') \<Rightarrow>
     owes (no_reparse (Checks fs)) st 0 0 st' \<and>
     (r = STATUS_SUCCESS \<longrightarrow> rsp_opened (Op_Rsp st') \<and>
       (Information (Op_Rsp st') = FILE_CREATED \<or> Q (Information (Op_Rsp st')) (Opened_GrantedAccess (Op_Rsp st')))))"

lemma op_failed: "owes (no_reparse (Checks fs)) st 0 0 st' \<Longrightarrow> r \<noteq> STATUS_SUCCESS \<Longrightarrow> op_ok fs Q st (r, st')"
  by (simp add: op_ok_def)

lemma failure: "\<not> NT_SUCCESS r \<or> r = STATUS_REPARSE \<Longrightarrow> r \<noteq> STATUS_SUCCESS"
  by (auto simp: NT_SUCCESS_def)

lemma op_trans: "owes (no_reparse (Checks fs)) st 0 0 st1 \<Longrightarrow> op_ok fs Q st1 y \<Longrightarrow> op_ok fs Q st y"
  using owes_trans by (fastforce simp: op_ok_def)

lemma finish_open_op:
  assumes "finish_open fs sd f info g answer st1 = Some y" "rsp_fresh (Op_Rsp st1)"
    and "owes (no_reparse (Checks fs)) st (owned sd f By_FspAccessCheckEx) (owned sd f By_FspCreateSecurityDescriptor) st1"
    and "info = FILE_CREATED \<or> Q info g"
  shows "op_ok fs Q st y"
proof -
  from finish_open_ok [OF assms(2), of fs sd f info g answer "no_reparse (Checks fs)"] obtain st' where
    y: "y = (STATUS_SUCCESS, st')" and o: "owes (no_reparse (Checks fs)) st1 (- owned sd f By_FspAccessCheckEx)
      (- owned sd f By_FspCreateSecurityDescriptor) st'"
    and r: "rsp_opened (Op_Rsp st')" "Information (Op_Rsp st') = info" "Opened_GrantedAccess (Op_Rsp st') = g"
    using assms(1) by auto
  show ?thesis using owes_trans [OF assms(3) o] r assms(4) by (simp add: op_ok_def y)
qed

lemma create_file_ok:
  assumes c: "create_file fs tr keep st = Some y" "name_ok (Create_Req st)" "rsp_fresh (Op_Rsp st)"
  shows "op_ok fs Q st y"
proof -
  let ?e = "no_reparse (Checks fs)"
  obtain r g parent st1 where k: "FspFileSystemCreateCheck fs tr st = Some (r, g, parent, st1)"
    using c(1) by (auto simp: create_file_def bind_eq_Some_conv)
  have ch: "owes ?e st (owned parent By_FspAccessCheckEx By_FspAccessCheckEx) 0 st1"
      "parent \<noteq> None \<Longrightarrow> NT_SUCCESS r \<and> r \<noteq> STATUS_REPARSE" "r \<noteq> STATUS_REPARSE \<Longrightarrow> rsp_fresh (Op_Rsp st1)"
    using create_check_ok [OF k c(2)] c(3) by (auto simp: checked_def)
  note c1 = c(1) [unfolded create_file_def k bind.bind_lunit prod.case]
  show ?thesis
  proof (cases "\<not> NT_SUCCESS r \<or> r = STATUS_REPARSE")
    case True
    then have "parent = None" using ch(2) by blast
    then show ?thesis using c1 True ch(1) op_failed [OF _ failure [OF True], of fs st st1 Q] by simp
  next
    case False
    obtain r2 obj st2 where d: "FspCreateSecurityDescriptor fs parent st1 = (r2, obj, st2)" by (metis prod_cases3)
    note do = create_descriptor_ok [OF d, of ?e]
    let ?st3 = "FspDeleteSecurityDescriptor parent By_FspAccessCheckEx st2"
    have o3: "owes ?e st 0 (owned obj By_FspCreateSecurityDescriptor By_FspCreateSecurityDescriptor) ?st3"
      using owes_trans [OF owes_trans [OF ch(1)] delete_owes [of ?e st2 parent By_FspAccessCheckEx]] do by simp
    have f3: "rsp_fresh (Op_Rsp ?st3)" using ch(3) do False by simp
    note c2 = c1 [unfolded if_not_P [OF False] Let_def d prod.case]
    show ?thesis
    proof (cases "NT_SUCCESS r2")
      case bad: False
      then have "obj = None" using do by (auto simp: NT_SUCCESS_def)
      then show ?thesis using c2 bad o3 op_failed [OF _ failure, of fs st ?st3 r2 Q] by simp
    next
      case True
      have n: "\<not> \<not> NT_SUCCESS r2" using True by simp
      note c3 = c2 [unfolded if_not_P [OF n]]
      obtain r4 fc i k4 st4 where a: "call_create fs obj g ?st3 = Some (r4, fc, i, k4, st4)"
        using c3 by (auto simp: bind_eq_Some_conv)
      obtain s rsp where s4: "st4 = ?st3\<lparr>Op_Fs := s, Op_Rsp := rsp\<rparr>" "rsp_fresh (Op_Rsp st4)"
        using call_create_ok [OF a] f3 by auto
      have o4: "owes ?e st 0 (owned obj By_FspCreateSecurityDescriptor By_FspCreateSecurityDescriptor) st4"
        using o3 by (simp add: s4(1))
      have o5: "owes ?e st 0 0 (FspDeleteSecurityDescriptor obj By_FspCreateSecurityDescriptor st4)"
        using owes_trans [OF o4 delete_owes [of ?e st4 obj By_FspCreateSecurityDescriptor]] by simp
      note c4 = c3 [unfolded a bind.bind_lunit prod.case]
      show ?thesis
      proof (cases "NT_SUCCESS r4")
        case False
        then have "y = (r4, FspDeleteSecurityDescriptor obj By_FspCreateSecurityDescriptor st4)"
          using c4 by (cases keep) (auto simp: FspDeleteSecurityDescriptor_def)
        then show ?thesis using o5 op_failed [OF _ failure] False by blast
      next
        case True
        let ?st5 = "if keep then st4 else FspDeleteSecurityDescriptor obj By_FspCreateSecurityDescriptor st4"
        let ?d = "if keep then obj else None"
        have "finish_open fs ?d By_FspCreateSecurityDescriptor FILE_CREATED g (fc, i, k4) ?st5 = Some y"
          using c4 True by simp
        then show ?thesis
          by (rule finish_open_op) (use s4(2) o4 o5 in \<open>simp_all split: if_splits\<close>)
      qed
    qed
  qed
qed

text \<open>A check and an open, with what follows a failure of the open; \<open>Q\<close> is known from the check.\<close>

lemma open_after_check:
  assumes ch: "checked fs st (r, g, sd, st1)" "NT_SUCCESS r" "r \<noteq> STATUS_REPARSE"
    and f: "rsp_fresh (Op_Rsp st)"
    and a: "call_open fs name options g st1 = Some (r2, c, i, n, st2)"
  shows "NT_SUCCESS r2 \<Longrightarrow> finish_open fs sd By_FspAccessCheckEx info g (c, i, n) st2 = Some y \<Longrightarrow>
      info = FILE_CREATED \<or> Q info g \<Longrightarrow> op_ok fs Q st y"
    "owes (no_reparse (Checks fs)) st 0 0 (FspDeleteSecurityDescriptor sd By_FspAccessCheckEx st2)"
    "rsp_fresh (Op_Rsp st2)"
proof -
  let ?e = "no_reparse (Checks fs)"
  obtain s rsp where s2: "st2 = st1\<lparr>Op_Fs := s, Op_Rsp := rsp\<rparr>" "rsp_fresh (Op_Rsp st2) = rsp_fresh (Op_Rsp st1)"
    using call_open_ok [OF a] by auto
  have o: "owes ?e st (owned sd By_FspAccessCheckEx By_FspAccessCheckEx) 0 st2"
    using ch(1) by (simp add: s2(1) checked_def)
  show fr: "rsp_fresh (Op_Rsp st2)" using s2(2) ch f by (simp add: checked_def)
  show "owes ?e st 0 0 (FspDeleteSecurityDescriptor sd By_FspAccessCheckEx st2)"
    using owes_trans [OF o delete_owes [of ?e st2 sd By_FspAccessCheckEx]] by simp
  show "NT_SUCCESS r2 \<Longrightarrow> finish_open fs sd By_FspAccessCheckEx info g (c, i, n) st2 = Some y \<Longrightarrow>
      info = FILE_CREATED \<or> Q info g \<Longrightarrow> op_ok fs Q st y"
  proof -
    assume a: "NT_SUCCESS r2" "finish_open fs sd By_FspAccessCheckEx info g (c, i, n) st2 = Some y"
      "info = FILE_CREATED \<or> Q info g"
    have "owned sd By_FspAccessCheckEx By_FspCreateSecurityDescriptor = 0"
      by (rule owned_simps(2)) simp
    then have "owes ?e st (owned sd By_FspAccessCheckEx By_FspAccessCheckEx)
        (owned sd By_FspAccessCheckEx By_FspCreateSecurityDescriptor) st2"
      using o by (simp only:)
    with a fr show ?thesis by (intro finish_open_op [of fs sd])
  qed
qed

text \<open>The four dispositions that open a file.\<close>

lemma file_open_ok:
  assumes c: "FspFileSystemOpCreate_FileOpen fs st = Some y" "name_ok (Create_Req st)" "rsp_fresh (Op_Rsp st)"
    and Q: "\<And>r g sd st'. FspFileSystemOpenCheck fs True st = Some (r, g, sd, st') \<Longrightarrow> NT_SUCCESS r \<Longrightarrow>
      r \<noteq> STATUS_REPARSE \<Longrightarrow> Q FILE_OPENED g"
  shows "op_ok fs Q st y"
proof -
  obtain r g sd st1 where k: "FspFileSystemOpenCheck fs True st = Some (r, g, sd, st1)"
    using c(1) by (auto simp: FspFileSystemOpCreate_FileOpen_def bind_eq_Some_conv)
  note ch = open_check_ok [OF k c(2)]
  note c1 = c(1) [unfolded FspFileSystemOpCreate_FileOpen_def k bind.bind_lunit prod.case]
  show ?thesis
  proof (cases "\<not> NT_SUCCESS r \<or> r = STATUS_REPARSE")
    case True
    then have "sd = None" using ch by (auto simp: checked_def)
    then have "owes (no_reparse (Checks fs)) st 0 0 st1" using ch by (simp add: checked_def)
    then show ?thesis using c1 True op_failed [OF _ failure [OF True], of fs st st1 Q] by simp
  next
    case False
    then have s: "NT_SUCCESS r" "r \<noteq> STATUS_REPARSE" by simp_all
    note c2 = c1 [unfolded if_not_P [OF False]]
    obtain r2 fc i n st2 where a: "call_open fs (request_name st1) (CreateOptions (Create_Req st1)) g st1 =
        Some (r2, fc, i, n, st2)"
      using c2 by (auto simp: bind_eq_Some_conv)
    note o = open_after_check [OF ch s c(3) a]
    note c3 = c2 [unfolded a bind.bind_lunit prod.case]
    show ?thesis
    proof (cases "NT_SUCCESS r2")
      case False
      then have "y = (r2, FspDeleteSecurityDescriptor sd By_FspAccessCheckEx st2)" using c3 by simp
      then show ?thesis using op_failed [OF o(2) failure] False by blast
    next
      case True
      then have "finish_open fs sd By_FspAccessCheckEx FILE_OPENED g (fc, i, n) st2 = Some y" using c3 by simp
      then show ?thesis by (rule o(1) [where Q = Q, OF True]) (use Q [OF k s] in simp)
    qed
  qed
qed

lemma file_open_if_ok:
  assumes c: "FspFileSystemOpCreate_FileOpenIf fs st = Some y" "name_ok (Create_Req st)" "rsp_fresh (Op_Rsp st)"
    and Q: "\<And>r g sd st'. FspFileSystemOpenCheck fs True st = Some (r, g, sd, st') \<Longrightarrow> NT_SUCCESS r \<Longrightarrow>
      r \<noteq> STATUS_REPARSE \<Longrightarrow> Q FILE_OPENED g"
  shows "op_ok fs Q st y"
proof -
  obtain r g sd st1 where k: "FspFileSystemOpenCheck fs True st = Some (r, g, sd, st1)"
    using c(1) by (auto simp: FspFileSystemOpCreate_FileOpenIf_def bind_eq_Some_conv)
  note ch = open_check_ok [OF k c(2)]
  have again: "op_ok fs Q st y" if "create_file fs False True st' = Some y" "owes (no_reparse (Checks fs)) st 0 0 st'"
      "rsp_fresh (Op_Rsp st')" for st'
    by (rule op_trans [OF that(2)], rule create_file_ok [OF that(1) _ that(3)])
      (use owes_req [OF that(2)] c(2) in simp)
  note c1 = c(1) [unfolded FspFileSystemOpCreate_FileOpenIf_def k bind.bind_lunit prod.case]
  show ?thesis
  proof (cases "\<not> NT_SUCCESS r \<or> r = STATUS_REPARSE")
    case True
    then have "sd = None" using ch by (auto simp: checked_def)
    then have o: "owes (no_reparse (Checks fs)) st 0 0 st1" using ch by (simp add: checked_def)
    show ?thesis
    proof (cases "r = STATUS_OBJECT_NAME_NOT_FOUND")
      case nf: True
      then have "rsp_fresh (Op_Rsp st1)" using ch c(3) by (simp add: checked_def)
      then show ?thesis using c1 True nf by (intro again [OF _ o]) (simp_all add: NT_SUCCESS_def)
    next
      case False
      then show ?thesis using c1 True op_failed [OF o failure [OF True], of Q] by simp
    qed
  next
    case False
    then have s: "NT_SUCCESS r" "r \<noteq> STATUS_REPARSE" by simp_all
    note c2 = c1 [unfolded if_not_P [OF False]]
    obtain r2 fc i n st2 where a: "call_open fs (request_name st1) (CreateOptions (Create_Req st1)) g st1 =
        Some (r2, fc, i, n, st2)"
      using c2 by (auto simp: bind_eq_Some_conv)
    note o = open_after_check [OF ch s c(3) a]
    note c3 = c2 [unfolded a bind.bind_lunit prod.case]
    show ?thesis
    proof (cases "NT_SUCCESS r2")
      case bad: False
      show ?thesis
      proof (cases "r2 = STATUS_OBJECT_NAME_NOT_FOUND")
        case True
        then show ?thesis using c3 bad o(3) by (intro again [OF _ o(2)]) simp_all
      next
        case False
        then show ?thesis using c3 bad op_failed [OF o(2) failure, of r2 Q] by simp
      qed
    next
      case True
      then have "finish_open fs sd By_FspAccessCheckEx FILE_OPENED g (fc, i, n) st2 = Some y" using c3 by simp
      then show ?thesis by (rule o(1) [where Q = Q, OF True]) (use Q [OF k s] in simp)
    qed
  qed
qed

text \<open>The dispositions that overwrite: their check gives no descriptor.\<close>

lemma overwrite_checked:
  assumes "FspFileSystemOverwriteCheck fs True st = Some (r, g, sd, st1)" "name_ok (Create_Req st)"
  shows "checked fs st (r, g, None, st1)" "owes (no_reparse (Checks fs)) st 0 0 st1"
  using overwrite_check_ok [OF assms] overwrite_no_descriptor [OF assms] by (simp_all add: checked_def)

lemma file_overwrite_ok:
  assumes c: "FspFileSystemOpCreate_FileOverwrite fs st = Some y" "name_ok (Create_Req st)" "rsp_fresh (Op_Rsp st)"
    and Q: "\<And>r g sd st'. FspFileSystemOverwriteCheck fs True st = Some (r, g, sd, st') \<Longrightarrow> NT_SUCCESS r \<Longrightarrow>
      r \<noteq> STATUS_REPARSE \<Longrightarrow> Q FILE_OVERWRITTEN g"
  shows "op_ok fs Q st y"
proof -
  obtain r g sd st1 where k: "FspFileSystemOverwriteCheck fs True st = Some (r, g, sd, st1)"
    using c(1) by (auto simp: FspFileSystemOpCreate_FileOverwrite_def bind_eq_Some_conv)
  note ch = overwrite_checked [OF k c(2)]
  note c1 = c(1) [unfolded FspFileSystemOpCreate_FileOverwrite_def k bind.bind_lunit prod.case]
  show ?thesis
  proof (cases "\<not> NT_SUCCESS r \<or> r = STATUS_REPARSE")
    case True
    then show ?thesis using c1 op_failed [OF ch(2) failure [OF True], of Q] by simp
  next
    case False
    then have s: "NT_SUCCESS r" "r \<noteq> STATUS_REPARSE" by simp_all
    note c2 = c1 [unfolded if_not_P [OF False]]
    obtain r2 fc i n st2 where a: "call_open fs (request_name st1) (CreateOptions (Create_Req st1)) g st1 =
        Some (r2, fc, i, n, st2)"
      using c2 by (auto simp: bind_eq_Some_conv)
    note o = open_after_check [OF ch(1) s c(3) a]
    note c3 = c2 [unfolded a bind.bind_lunit prod.case]
    show ?thesis
    proof (cases "NT_SUCCESS r2")
      case False
      then have "y = (r2, FspDeleteSecurityDescriptor None By_FspAccessCheckEx st2)"
        using c3 by (simp add: FspDeleteSecurityDescriptor_def)
      then show ?thesis using op_failed [OF o(2) failure] False by blast
    next
      case True
      then have "finish_open fs None By_FspAccessCheckEx FILE_OVERWRITTEN g (fc, i, n) st2 = Some y" using c3 by simp
      then show ?thesis by (rule o(1) [where Q = Q, OF True]) (use Q [OF k s] in simp)
    qed
  qed
qed

lemma file_overwrite_if_ok:
  assumes c: "FspFileSystemOpCreate_FileOverwriteIf fs st = Some y" "name_ok (Create_Req st)" "rsp_fresh (Op_Rsp st)"
    and Q: "\<And>r g sd st'. FspFileSystemOverwriteCheck fs True st = Some (r, g, sd, st') \<Longrightarrow> NT_SUCCESS r \<Longrightarrow>
      r \<noteq> STATUS_REPARSE \<Longrightarrow> Q (if disposition (Create_Req st) = FILE_SUPERSEDE then FILE_SUPERSEDED else FILE_OVERWRITTEN) g"
  shows "op_ok fs Q st y"
proof -
  obtain r g sd st1 where k: "FspFileSystemOverwriteCheck fs True st = Some (r, g, sd, st1)"
    using c(1) by (auto simp: FspFileSystemOpCreate_FileOverwriteIf_def bind_eq_Some_conv)
  note ch = overwrite_checked [OF k c(2)]
  have again: "op_ok fs Q st y" if "create_file fs False False st' = Some y" "owes (no_reparse (Checks fs)) st 0 0 st'"
      "rsp_fresh (Op_Rsp st')" for st'
    by (rule op_trans [OF that(2)], rule create_file_ok [OF that(1) _ that(3)])
      (use owes_req [OF that(2)] c(2) in simp)
  note c1 = c(1) [unfolded FspFileSystemOpCreate_FileOverwriteIf_def Let_def k bind.bind_lunit prod.case]
  show ?thesis
  proof (cases "\<not> NT_SUCCESS r \<or> r = STATUS_REPARSE")
    case True
    show ?thesis
    proof (cases "r = STATUS_OBJECT_NAME_NOT_FOUND")
      case nf: True
      then have "rsp_fresh (Op_Rsp st1)" using ch c(3) by (simp add: checked_def)
      then show ?thesis using c1 True nf by (intro again [OF _ ch(2)]) (simp_all add: NT_SUCCESS_def)
    next
      case False
      then show ?thesis using c1 True op_failed [OF ch(2) failure [OF True], of Q] by simp
    qed
  next
    case False
    then have s: "NT_SUCCESS r" "r \<noteq> STATUS_REPARSE" by simp_all
    note c2 = c1 [unfolded if_not_P [OF False]]
    obtain r2 fc i n st2 where a: "call_open fs (request_name st1) (CreateOptions (Create_Req st1)) g st1 =
        Some (r2, fc, i, n, st2)"
      using c2 by (auto simp: bind_eq_Some_conv)
    note o = open_after_check [OF ch(1) s c(3) a]
    have o2: "owes (no_reparse (Checks fs)) st 0 0 st2" using o(2) by (simp add: FspDeleteSecurityDescriptor_def)
    note c3 = c2 [unfolded a bind.bind_lunit prod.case]
    show ?thesis
    proof (cases "NT_SUCCESS r2")
      case bad: False
      show ?thesis
      proof (cases "r2 = STATUS_OBJECT_NAME_NOT_FOUND")
        case True
        then show ?thesis using c3 bad o(3) by (intro again [OF _ o2]) simp_all
      next
        case False
        then show ?thesis using c3 bad op_failed [OF o2 failure, of r2 Q] by simp
      qed
    next
      case True
      then have "finish_open fs None By_FspAccessCheckEx
          (if disposition (Create_Req st) = FILE_SUPERSEDE then FILE_SUPERSEDED else FILE_OVERWRITTEN) g (fc, i, n) st2 = Some y"
        using c3 by simp
      then show ?thesis by (rule o(1) [where Q = Q, OF True]) (use Q [OF k s] in simp)
    qed
  qed
qed

text \<open>The parent directory: its name is put back after the call.\<close>

lemma target_directory_ok:
  assumes c: "FspFileSystemOpCreate_FileOpenTargetDirectory fs st = Some y" "name_ok (Create_Req st)" "rsp_fresh (Op_Rsp st)"
  shows "op_ok fs (\<lambda>_ _. True) st y"
proof -
  let ?e = "no_reparse (Checks fs)"
  obtain r g sd st1 where k: "FspFileSystemOpenTargetDirectoryCheck fs st = Some (r, g, sd, st1)"
    using c(1) by (auto simp: FspFileSystemOpCreate_FileOpenTargetDirectory_def bind_eq_Some_conv)
  have ch: "owes ?e st 0 0 st1" "r \<noteq> STATUS_REPARSE \<Longrightarrow> rsp_fresh (Op_Rsp st1)"
    using target_check_ok [OF k c(2)] target_no_descriptor [OF k c(2)] c(3) by (simp_all add: checked_def)
  note c1 = c(1) [unfolded FspFileSystemOpCreate_FileOpenTargetDirectory_def k bind.bind_lunit prod.case]
  show ?thesis
  proof (cases "\<not> NT_SUCCESS r \<or> r = STATUS_REPARSE")
    case True
    then show ?thesis using c1 op_failed [OF ch(1) failure [OF True]] by simp
  next
    case False
    let ?b = "Name_Buffer (Create_Req st1)"
    note c2 = c1 [unfolded if_not_P [OF False]]
    obtain Parent Suffix buf where p: "FspPathSuffix ?b True = Some (Parent, Suffix, buf)"
      using c2 by (auto simp: bind_eq_Some_conv)
    have "0 \<in> set ?b" using owes_req [OF ch(1)] c(2) by (simp add: name_ok_def)
    from suffix_restores [OF p this] have res: "FspPathCombine buf Suffix = ?b" by simp
    note c3 = c2 [unfolded p bind.bind_lunit prod.case Let_def]
    let ?st2 = "st1\<lparr>Create_Req := (Create_Req st1)\<lparr>Name_Buffer := buf\<rparr>\<rparr>"
    obtain r2 fc i n st3 where a: "call_open fs (if Parent = Root_path then [0x5c] else cstr buf 0)
        ((CreateOptions (Create_Req st1) OR FILE_DIRECTORY_FILE) AND NOT FILE_NON_DIRECTORY_FILE) g ?st2 = Some (r2, fc, i, n, st3)"
      using c3 by (auto simp: bind_eq_Some_conv)
    obtain s rsp where st3: "st3 = ?st2\<lparr>Op_Fs := s, Op_Rsp := rsp\<rparr>" "rsp_fresh (Op_Rsp st3) = rsp_fresh (Op_Rsp st1)"
      using call_open_ok [OF a] by auto
    define st4 where "st4 = st3\<lparr>Create_Req := (Create_Req st3)\<lparr>Name_Buffer := FspPathCombine (Name_Buffer (Create_Req st3)) Suffix\<rparr>\<rparr>"
    have "Create_Req st4 = Create_Req st1" "Op_Private st4 = Op_Private st1" "Op_Mem st4 = Op_Mem st1"
      by (simp_all add: st4_def st3(1) res)
    then have o4: "owes ?e st 0 0 st4" using ch(1) by (simp add: owes_def)
    have f4: "rsp_fresh (Op_Rsp st4)" using st3(2) ch(2) False by (simp add: st4_def)
    note c4 = c3 [unfolded a bind.bind_lunit prod.case, folded st4_def]
    show ?thesis
    proof (cases "NT_SUCCESS r2")
      case False
      then show ?thesis using c4 op_failed [OF o4 failure, of r2] by simp
    next
      case True
      then have n: "\<not> \<not> NT_SUCCESS r2" by simp
      obtain info st5 where five: "(if GetSecurityByName (Checks fs) \<noteq> None
          then let ((r, _), s) = GetAttributesByName fs (Op_Fs st4) (request_name st4)
            in (if NT_SUCCESS r then FILE_EXISTS else FILE_DOES_NOT_EXIST, st4\<lparr>Op_Fs := s\<rparr>)
          else (FILE_OPENED, st4)) = (info, st5)" by (rule prod.exhaust)
      have "owes ?e st 0 0 st5" "rsp_fresh (Op_Rsp st5)"
        using five o4 f4 by (auto split: if_splits prod.splits)
      moreover have "finish_open fs None By_FspAccessCheckEx info g (fc, i, n) st5 = Some y"
        using c4 [unfolded if_not_P [OF n] five [unfolded Let_def] prod.case] .
      ultimately show ?thesis by (intro finish_open_op [of fs None By_FspAccessCheckEx]) simp_all
    qed
  qed
qed

section \<open>The operation\<close>

lemma resolve_last:
  assumes "do { i \<leftarrow> index; let (r, st) = FspFileSystemCallResolveReparsePoints fs i st;
      Some (if r \<noteq> STATUS_REPARSE then e else STATUS_REPARSE, st) } = Some (r, st')"
    and "e \<noteq> STATUS_SUCCESS"
  shows "owes exact st 0 0 st' \<and> r \<noteq> STATUS_SUCCESS"
proof -
  obtain i where i: "index = Some i" using assms(1) by (auto simp: bind_eq_Some_conv)
  obtain r1 st1 where c: "FspFileSystemCallResolveReparsePoints fs i st = (r1, st1)" by fastforce
  show ?thesis using assms resolve_ok(1) [OF c] by (auto simp: i c split: if_splits)
qed

lemma not_found_ok:
  assumes "FspFileSystemOpCreate_NotFoundCheck fs st = Some (r, st')" "name_ok (Create_Req st)"
  shows "owes exact st 0 0 st' \<and> r \<noteq> STATUS_SUCCESS"
proof -
  let ?req = "Create_Req st"
  let ?i = "unat (NamedStream ?req) div 2"
  obtain q attr s where a: "GetAttributesByName fs (Op_Fs st) (cstr ((Name_Buffer ?req)[?i := 0]) 0) = ((q, attr), s)"
    by (metis prod.collapse)
  define st1 where "st1 = st\<lparr>Op_Fs := s, Create_Req := ?req\<lparr>Name_Buffer := (Name_Buffer ?req)[?i := 0, ?i := 0x3a]\<rparr>\<rparr>"
  have o: "owes exact st 0 0 st1" if "NamedStream ?req \<noteq> 0"
  proof -
    have "(Name_Buffer ?req)[?i := 0, ?i := 0x3a] = Name_Buffer ?req"
      using assms(2) that by (simp add: name_ok_def list_update_same_conv)
    then show ?thesis unfolding st1_def by (simp add: owes_def)
  qed
  have e: "STATUS_OBJECT_NAME_NOT_FOUND \<noteq> STATUS_SUCCESS" by simp
  note c = assms(1) [unfolded FspFileSystemOpCreate_NotFoundCheck_def Let_def a prod.case, folded st1_def]
  show ?thesis
    using c o owes_trans [OF o, of 0 0 st'] resolve_last [OF _ e, unfolded Let_def, of _ fs st1 r st' exact]
    by (auto split: if_splits)
qed

lemma collision_ok:
  assumes "FspFileSystemOpCreate_CollisionCheck fs st = Some (r, st')"
  shows "owes exact st 0 0 st' \<and> r \<noteq> STATUS_SUCCESS"
proof -
  obtain q attr s where a: "GetAttributesByName fs (Op_Fs st) (request_name st) = ((q, attr), s)"
    by (metis prod.collapse)
  have e: "STATUS_OBJECT_NAME_COLLISION \<noteq> STATUS_SUCCESS" by simp
  have o: "owes exact st 0 0 (st\<lparr>Op_Fs := s\<rparr>)" by simp
  note c = assms [unfolded FspFileSystemOpCreate_CollisionCheck_def Let_def a prod.case]
  show ?thesis
    using c owes_trans [OF o, of 0 0 st'] resolve_last [OF _ e, unfolded Let_def, of _ fs "st\<lparr>Op_Fs := s\<rparr>" r st' exact]
    by (auto split: if_splits)
qed

text \<open>What the check of an open establishes of the access that is reported, for the whole operation.\<close>

definition open_grants ::
  "('s, 'sd) file_system \<Rightarrow> 's create_state \<Rightarrow> u32 \<Rightarrow> u32 \<Rightarrow> bool" where
  "open_grants fs st info g \<longleftrightarrow>
     (\<exists>r sd st'. NT_SUCCESS r \<and> r \<noteq> STATUS_REPARSE \<and>
       (info = FILE_OPENED \<and> FspFileSystemOpenCheck fs True st = Some (r, g, sd, st')
        \<or> info \<in> {FILE_SUPERSEDED, FILE_OVERWRITTEN} \<and> FspFileSystemOverwriteCheck fs True st = Some (r, g, sd, st')))"

text \<open>The disposition alone.\<close>

definition by_disposition ::
  "('s, 'sd) file_system \<Rightarrow> 's create_state \<Rightarrow> (ntstatus \<times> 's create_state) option" where
  "by_disposition fs st =
     (if disposition (Create_Req st) = FILE_CREATE then FspFileSystemOpCreate_FileCreate fs st
      else if disposition (Create_Req st) = FILE_OPEN then FspFileSystemOpCreate_FileOpen fs st
      else if disposition (Create_Req st) = FILE_OPEN_IF then FspFileSystemOpCreate_FileOpenIf fs st
      else if disposition (Create_Req st) = FILE_OVERWRITE then FspFileSystemOpCreate_FileOverwrite fs st
      else if disposition (Create_Req st) = FILE_OVERWRITE_IF \<or> disposition (Create_Req st) = FILE_SUPERSEDE
      then FspFileSystemOpCreate_FileOverwriteIf fs st
      else Some (STATUS_INVALID_PARAMETER, st))"

lemma disposition_ok:
  assumes "by_disposition fs st = Some z" "name_ok (Create_Req st)" "rsp_fresh (Op_Rsp st)"
  shows "op_ok fs (open_grants fs st) st z"
proof -
  have e: "STATUS_INVALID_PARAMETER \<noteq> STATUS_SUCCESS" by simp
  show ?thesis
    using assms create_file_ok [of fs True True st z "open_grants fs st"] file_open_ok [of fs st z "open_grants fs st"]
      file_open_if_ok [of fs st z "open_grants fs st"] file_overwrite_ok [of fs st z "open_grants fs st"]
      file_overwrite_if_ok [of fs st z "open_grants fs st"] op_failed [OF owes_refl e, of fs "open_grants fs st" st]
    unfolding by_disposition_def FspFileSystemOpCreate_FileCreate_def open_grants_def
    by (auto split: if_splits)
qed

lemma disposition_returns_to:
  assumes "by_disposition fs st = Some (r, st1)" "name_ok (Create_Req st)" "rsp_fresh (Op_Rsp st)"
  shows "owes (no_reparse (Checks fs)) st 0 0 st1" "name_ok (Create_Req st1)"
proof -
  show o: "owes (no_reparse (Checks fs)) st 0 0 st1" using disposition_ok [OF assms] by (simp add: op_ok_def)
  show "name_ok (Create_Req st1)" using owes_req [OF o] assms(2) by simp
qed

text \<open>The operation is the disposition, and a look at the file after a failure.\<close>

lemma create_op_eq:
  assumes "\<not> (Create fs = None \<and> CreateEx fs = None \<or> Open fs = None \<or>
      Overwrite (Interface fs) = None \<and> OverwriteEx (Interface fs) = None)" "\<not> OpenTargetDirectory (Create_Req st)"
  shows "FspFileSystemOpCreate fs st = do {
      (r, st1) \<leftarrow> by_disposition fs st;
      if r = STATUS_OBJECT_NAME_NOT_FOUND then FspFileSystemOpCreate_NotFoundCheck fs st1
      else if r = STATUS_OBJECT_NAME_COLLISION then FspFileSystemOpCreate_CollisionCheck fs st1 else Some (r, st1) }"
  unfolding FspFileSystemOpCreate_def if_not_P [OF assms(1)] if_not_P [OF assms(2)] by_disposition_def Let_def ..

lemma create_op_ok:
  assumes "FspFileSystemOpCreate fs st = Some y" "name_ok (Create_Req st)" "rsp_fresh (Op_Rsp st)"
  shows "op_ok fs (if OpenTargetDirectory (Create_Req st) then \<lambda>_ _. True else open_grants fs st) st y"
proof (cases "Create fs = None \<and> CreateEx fs = None \<or> Open fs = None \<or>
    Overwrite (Interface fs) = None \<and> OverwriteEx (Interface fs) = None")
  case True
  have e: "STATUS_INVALID_DEVICE_REQUEST \<noteq> STATUS_SUCCESS" by simp
  show ?thesis using True assms(1) op_failed [OF owes_refl e] by (auto simp: FspFileSystemOpCreate_def)
next
  case False
  show ?thesis
  proof (cases "OpenTargetDirectory (Create_Req st)")
    case True
    then have "FspFileSystemOpCreate_FileOpenTargetDirectory fs st = Some y"
      using assms(1) [unfolded FspFileSystemOpCreate_def if_not_P [OF False]] by simp
    then show ?thesis using True target_directory_ok [OF _ assms(2,3)] by simp
  next
    case no: False
    obtain r st1 where z: "by_disposition fs st = Some (r, st1)" and c: "(if r = STATUS_OBJECT_NAME_NOT_FOUND
        then FspFileSystemOpCreate_NotFoundCheck fs st1 else if r = STATUS_OBJECT_NAME_COLLISION
        then FspFileSystemOpCreate_CollisionCheck fs st1 else Some (r, st1)) = Some y"
      using assms(1) by (auto simp: create_op_eq [OF False no] bind_eq_Some_conv)
    note o = disposition_returns_to [OF z assms(2,3)]
    obtain r' st' where y: "y = (r', st')" by (cases y)
    have last: "op_ok fs Q st y" if "owes (no_reparse (Checks fs)) st1 0 0 st' \<and> r' \<noteq> STATUS_SUCCESS" for Q
      using that owes_trans [OF o(1), of 0 0 st'] by (auto simp: y intro: op_failed)
    show ?thesis
      using c last not_found_ok [OF _ o(2), of fs r' st'] collision_ok [of fs st1 r' st']
        disposition_ok [OF z assms(2,3)] no by (auto simp: y split: if_splits)
  qed
qed

section \<open>The operation returns\<close>

lemma check_access_returns:
  "settles (Checks fs) \<Longrightarrow> name_ok (Create_Req st) \<Longrightarrow> check_access fs cp tr D want st \<noteq> None"
  using check_returns [of "Checks fs" "Create_Req st" cp tr D want "(Op_Fs st, Op_Mem st)"]
  by (auto simp: check_access_def)

lemma then_returns: "m \<noteq> None \<Longrightarrow> \<exists>y. (do { x \<leftarrow> m; Some (f x) }) = Some y"
  by auto

lemma create_check_returns:
  assumes "settles (Checks fs)" "name_ok (Create_Req st)"
  shows "\<exists>y. FspFileSystemCreateCheck fs tr st = Some y"
proof -
  have "\<exists>y. (if a then do { x \<leftarrow> (if b then Some y1 else if c then Some y2 else check_access fs True tr D1 True st); Some (f x) }
      else do { x \<leftarrow> (if d then Some y1 else check_access fs True tr D2 False st); Some (h x) }) = Some y" for a b c d y1 y2 D1 D2 f h
    by (cases a; cases b; cases c; cases d) (simp_all add: then_returns check_access_returns [OF assms] del: not_None_eq split_paired_Ex)
  then show ?thesis unfolding FspFileSystemCreateCheck_def Let_def .
qed

lemma open_check_returns:
  "settles (Checks fs) \<Longrightarrow> name_ok (Create_Req st) \<Longrightarrow> \<exists>y. FspFileSystemOpenCheck fs tr st = Some y"
  unfolding FspFileSystemOpenCheck_def Let_def by (intro then_returns check_access_returns)

lemma overwrite_check_returns:
  "settles (Checks fs) \<Longrightarrow> name_ok (Create_Req st) \<Longrightarrow> \<exists>y. FspFileSystemOverwriteCheck fs tr st = Some y"
  unfolding FspFileSystemOverwriteCheck_def Let_def by (intro then_returns check_access_returns)

lemma target_check_returns:
  "settles (Checks fs) \<Longrightarrow> name_ok (Create_Req st) \<Longrightarrow> \<exists>y. FspFileSystemOpenTargetDirectoryCheck fs st = Some y"
  unfolding FspFileSystemOpenTargetDirectoryCheck_def Let_def by (intro then_returns check_access_returns)

lemma call_open_returns: "Open fs \<noteq> None \<Longrightarrow> \<exists>y. call_open fs name options g st = Some y"
  by (auto simp: call_open_def simp del: split_paired_Ex)

lemma call_create_returns:
  "Create fs \<noteq> None \<or> CreateEx fs \<noteq> None \<Longrightarrow> \<exists>y. call_create fs d g st = Some y"
  by (cases "Create fs"; cases "CreateEx fs") (simp_all add: call_create_def Let_def del: split_paired_Ex)

lemma finish_open_returns: "rsp_fresh (Op_Rsp st) \<Longrightarrow> finish_open fs sd f info g answer st \<noteq> None"
  using finish_open_ok by fastforce

lemma create_file_returns:
  assumes s: "settles (Checks fs)" "name_ok (Create_Req st)" "rsp_fresh (Op_Rsp st)"
    and o: "Create fs \<noteq> None \<or> CreateEx fs \<noteq> None"
  shows "create_file fs tr keep st \<noteq> None"
proof -
  obtain r g parent st1 where k: "FspFileSystemCreateCheck fs tr st = Some (r, g, parent, st1)"
    using create_check_returns [OF s(1,2)] by (metis prod_cases4)
  obtain r2 obj st2 where d: "FspCreateSecurityDescriptor fs parent st1 = (r2, obj, st2)" by (metis prod_cases3)
  let ?st3 = "FspDeleteSecurityDescriptor parent By_FspAccessCheckEx st2"
  obtain r4 fc i n st4 where a: "call_create fs obj g ?st3 = Some (r4, fc, i, n, st4)"
    using call_create_returns [OF o] by (metis prod_cases5)
  have f: "r \<noteq> STATUS_REPARSE \<Longrightarrow> rsp_fresh (Op_Rsp st4)"
    using create_check_ok [OF k s(2)] create_descriptor_ok [OF d] call_create_ok [OF a] s(3)
    by (auto simp: checked_def)
  show ?thesis
    unfolding create_file_def k bind.bind_lunit prod.case Let_def d a
    using f by (cases keep) (simp_all add: finish_open_returns del: not_None_eq)
qed

lemma open_returns:
  assumes "checked fs st (r, g, sd, st1)" "r \<noteq> STATUS_REPARSE" "rsp_fresh (Op_Rsp st)" "Open fs \<noteq> None"
  shows "\<exists>r2 c i n st2. call_open fs name options g st1 = Some (r2, c, i, n, st2) \<and> rsp_fresh (Op_Rsp st2)"
proof -
  obtain r2 c i n st2 where a: "call_open fs name options g st1 = Some (r2, c, i, n, st2)"
    using call_open_returns [OF assms(4)] by (metis prod_cases5)
  then show ?thesis using call_open_ok [OF a] assms by (auto simp: checked_def)
qed

lemma file_open_returns:
  assumes s: "settles (Checks fs)" "name_ok (Create_Req st)" "rsp_fresh (Op_Rsp st)" and o: "Open fs \<noteq> None"
  shows "FspFileSystemOpCreate_FileOpen fs st \<noteq> None"
proof -
  obtain r g sd st1 where k: "FspFileSystemOpenCheck fs True st = Some (r, g, sd, st1)"
    using open_check_returns [OF s(1,2)] by (metis prod_cases4)
  show ?thesis
  proof (cases "\<not> NT_SUCCESS r \<or> r = STATUS_REPARSE")
    case True
    then show ?thesis by (simp add: FspFileSystemOpCreate_FileOpen_def k)
  next
    case False
    then obtain r2 c i n st2 where
      "call_open fs (request_name st1) (CreateOptions (Create_Req st1)) g st1 = Some (r2, c, i, n, st2)" "rsp_fresh (Op_Rsp st2)"
      using open_returns [OF open_check_ok [OF k s(2)] _ s(3) o] by blast
    then show ?thesis
      using False by (simp add: finish_open_returns FspFileSystemOpCreate_FileOpen_def k del: not_None_eq)
  qed
qed

lemma file_open_if_returns:
  assumes s: "settles (Checks fs)" "name_ok (Create_Req st)" "rsp_fresh (Op_Rsp st)"
    and o: "Open fs \<noteq> None" "Create fs \<noteq> None \<or> CreateEx fs \<noteq> None"
  shows "FspFileSystemOpCreate_FileOpenIf fs st \<noteq> None"
proof -
  obtain r g sd st1 where k: "FspFileSystemOpenCheck fs True st = Some (r, g, sd, st1)"
    using open_check_returns [OF s(1,2)] by (metis prod_cases4)
  note ch = open_check_ok [OF k s(2)]
  have c: "create_file fs False True st' \<noteq> None" if "owes (no_reparse (Checks fs)) st m p st'" "rsp_fresh (Op_Rsp st')" for m p st'
    using create_file_returns [OF s(1) _ that(2) o(2)] s(2) owes_req [OF that(1)] by simp
  have o1: "owes (no_reparse (Checks fs)) st (owned sd By_FspAccessCheckEx By_FspAccessCheckEx) 0 st1"
    using ch by (simp add: checked_def)
  show ?thesis
  proof (cases "\<not> NT_SUCCESS r \<or> r = STATUS_REPARSE")
    case True
    have "r \<noteq> STATUS_REPARSE \<Longrightarrow> rsp_fresh (Op_Rsp st1)" using ch s(3) by (simp add: checked_def)
    then show ?thesis
      using True c [OF o1] by (cases "r = STATUS_REPARSE") (simp_all add: FspFileSystemOpCreate_FileOpenIf_def k del: not_None_eq)
  next
    case False
    then obtain r2 fc i n st2 where
      a: "call_open fs (request_name st1) (CreateOptions (Create_Req st1)) g st1 = Some (r2, fc, i, n, st2)" "rsp_fresh (Op_Rsp st2)"
      using open_returns [OF ch _ s(3) o(1)] by blast
    have "create_file fs False True (FspDeleteSecurityDescriptor sd By_FspAccessCheckEx st2) \<noteq> None"
      using open_after_check(2) [OF ch _ _ s(3) a(1)] a(2) False by (intro c) simp_all
    then show ?thesis
      using False a by (simp add: finish_open_returns FspFileSystemOpCreate_FileOpenIf_def Let_def k del: not_None_eq)
  qed
qed

lemma file_overwrite_returns:
  assumes s: "settles (Checks fs)" "name_ok (Create_Req st)" "rsp_fresh (Op_Rsp st)" and o: "Open fs \<noteq> None"
  shows "FspFileSystemOpCreate_FileOverwrite fs st \<noteq> None"
proof -
  obtain r g sd st1 where k: "FspFileSystemOverwriteCheck fs True st = Some (r, g, sd, st1)"
    using overwrite_check_returns [OF s(1,2)] by (metis prod_cases4)
  show ?thesis
  proof (cases "\<not> NT_SUCCESS r \<or> r = STATUS_REPARSE")
    case True
    then show ?thesis by (simp add: FspFileSystemOpCreate_FileOverwrite_def k)
  next
    case False
    then obtain r2 c i n st2 where
      "call_open fs (request_name st1) (CreateOptions (Create_Req st1)) g st1 = Some (r2, c, i, n, st2)" "rsp_fresh (Op_Rsp st2)"
      using open_returns [OF overwrite_checked(1) [OF k s(2)] _ s(3) o] by blast
    then show ?thesis
      using False by (simp add: finish_open_returns FspFileSystemOpCreate_FileOverwrite_def k del: not_None_eq)
  qed
qed

lemma file_overwrite_if_returns:
  assumes s: "settles (Checks fs)" "name_ok (Create_Req st)" "rsp_fresh (Op_Rsp st)"
    and o: "Open fs \<noteq> None" "Create fs \<noteq> None \<or> CreateEx fs \<noteq> None"
  shows "FspFileSystemOpCreate_FileOverwriteIf fs st \<noteq> None"
proof -
  obtain r g sd st1 where k: "FspFileSystemOverwriteCheck fs True st = Some (r, g, sd, st1)"
    using overwrite_check_returns [OF s(1,2)] by (metis prod_cases4)
  note ch = overwrite_checked [OF k s(2)]
  have c: "create_file fs False False st' \<noteq> None" if "owes (no_reparse (Checks fs)) st m p st'" "rsp_fresh (Op_Rsp st')" for m p st'
    using create_file_returns [OF s(1) _ that(2) o(2)] s(2) owes_req [OF that(1)] by simp
  show ?thesis
  proof (cases "\<not> NT_SUCCESS r \<or> r = STATUS_REPARSE")
    case True
    have "r \<noteq> STATUS_REPARSE \<Longrightarrow> rsp_fresh (Op_Rsp st1)" using ch s(3) by (simp add: checked_def)
    then show ?thesis
      using True c [OF ch(2)]
      by (cases "r = STATUS_REPARSE") (simp_all add: FspFileSystemOpCreate_FileOverwriteIf_def Let_def k del: not_None_eq)
  next
    case False
    then obtain r2 fc i n st2 where
      a: "call_open fs (request_name st1) (CreateOptions (Create_Req st1)) g st1 = Some (r2, fc, i, n, st2)" "rsp_fresh (Op_Rsp st2)"
      using open_returns [OF ch(1) _ s(3) o(1)] by blast
    have "owes (no_reparse (Checks fs)) st 0 0 st2"
      using open_after_check(2) [OF ch(1) _ _ s(3) a(1)] False by (simp add: FspDeleteSecurityDescriptor_def)
    then have "create_file fs False False st2 \<noteq> None" using a(2) by (intro c)
    then show ?thesis
      using False a by (simp add: finish_open_returns FspFileSystemOpCreate_FileOverwriteIf_def Let_def k del: not_None_eq)
  qed
qed

lemma target_directory_returns:
  assumes s: "settles (Checks fs)" "name_ok (Create_Req st)" "rsp_fresh (Op_Rsp st)" and o: "Open fs \<noteq> None"
  shows "FspFileSystemOpCreate_FileOpenTargetDirectory fs st \<noteq> None"
proof -
  obtain r g sd st1 where k: "FspFileSystemOpenTargetDirectoryCheck fs st = Some (r, g, sd, st1)"
    using target_check_returns [OF s(1,2)] by (metis prod_cases4)
  have ch: "checked fs st (r, g, None, st1)" "owes (no_reparse (Checks fs)) st 0 0 st1"
    using target_check_ok [OF k s(2)] target_no_descriptor [OF k s(2)] by (simp_all add: checked_def)
  note u = FspFileSystemOpCreate_FileOpenTargetDirectory_def k bind.bind_lunit prod.case
  show ?thesis
  proof (cases "\<not> NT_SUCCESS r \<or> r = STATUS_REPARSE")
    case True
    then show ?thesis by (simp add: u)
  next
    case False
    obtain Parent Suffix buf where p: "FspPathSuffix (Name_Buffer (Create_Req st1)) True = Some (Parent, Suffix, buf)"
      using suffix_returns [of "Name_Buffer (Create_Req st1)" True] owes_req [OF ch(2)] s(2) by (auto simp: name_ok_def)
    have f: "rsp_fresh (Op_Rsp st1)" using ch(1) s(3) False by (simp add: checked_def)
    let ?st2 = "st1\<lparr>Create_Req := (Create_Req st1)\<lparr>Name_Buffer := buf\<rparr>\<rparr>"
    obtain r2 fc i n st3 where a: "call_open fs (if Parent = Root_path then [0x5c] else cstr buf 0)
        ((CreateOptions (Create_Req st1) OR FILE_DIRECTORY_FILE) AND NOT FILE_NON_DIRECTORY_FILE) g ?st2 = Some (r2, fc, i, n, st3)"
      using call_open_returns [OF o] by (metis prod_cases5)
    have "rsp_fresh (Op_Rsp st3)" using call_open_ok [OF a] f by simp
    then show ?thesis
      unfolding u if_not_P [OF False] p Let_def a
      by (cases "NT_SUCCESS r2") (simp_all add: case_prod_beta finish_open_returns del: not_None_eq)
  qed
qed

lemma not_found_returns:
  assumes "name_ok (Create_Req st)"
  shows "FspFileSystemOpCreate_NotFoundCheck fs st \<noteq> None"
proof (cases "NamedStream (Create_Req st) = 0")
  case False
  let ?b = "Name_Buffer (Create_Req st)"
  let ?i = "unat (NamedStream (Create_Req st)) div 2"
  have i: "?i < length ?b" "?b[?i := 0, ?i := 0x3a] = ?b" "0 \<in> set ?b"
    using assms False by (simp_all add: name_ok_def list_update_same_conv)
  obtain k where k: "FspPathSuffixIndex ?b = Some k"
    using suffix_returns [OF i(3), of True] by (auto simp: FspPathSuffixIndex_def)
  show ?thesis
    unfolding FspFileSystemOpCreate_NotFoundCheck_def Let_def
    using i k by (auto simp: case_prod_beta simp del: not_None_eq)
qed (simp add: FspFileSystemOpCreate_NotFoundCheck_def Let_def)

lemma collision_returns:
  assumes "name_ok (Create_Req st)"
  shows "FspFileSystemOpCreate_CollisionCheck fs st \<noteq> None"
proof -
  obtain k where k: "FspPathSuffixIndex (Name_Buffer (Create_Req st)) = Some k"
    using suffix_returns [of "Name_Buffer (Create_Req st)" True] assms by (auto simp: FspPathSuffixIndex_def name_ok_def)
  show ?thesis
    unfolding FspFileSystemOpCreate_CollisionCheck_def Let_def
    using k by (auto simp: case_prod_beta simp del: not_None_eq)
qed

lemma create_op_returns:
  assumes s: "settles (Checks fs)" "name_ok (Create_Req st)" "rsp_fresh (Op_Rsp st)"
  shows "FspFileSystemOpCreate fs st \<noteq> None"
proof (cases "Create fs = None \<and> CreateEx fs = None \<or> Open fs = None \<or>
    Overwrite (Interface fs) = None \<and> OverwriteEx (Interface fs) = None")
  case True
  then show ?thesis by (auto simp: FspFileSystemOpCreate_def)
next
  case False
  then have o: "Open fs \<noteq> None" "Create fs \<noteq> None \<or> CreateEx fs \<noteq> None" by auto
  show ?thesis
  proof (cases "OpenTargetDirectory (Create_Req st)")
    case True
    then show ?thesis
      unfolding FspFileSystemOpCreate_def if_not_P [OF False]
      using target_directory_returns [OF s o(1)] by (simp del: not_None_eq)
  next
    case no: False
    have "by_disposition fs st \<noteq> None"
      unfolding by_disposition_def FspFileSystemOpCreate_FileCreate_def
      using create_file_returns [OF s o(2)] file_open_returns [OF s o(1)] file_open_if_returns [OF s o]
        file_overwrite_returns [OF s o(1)] file_overwrite_if_returns [OF s o]
      by (simp del: not_None_eq)
    then obtain r st1 where d: "by_disposition fs st = Some (r, st1)" by fastforce
    show ?thesis
      unfolding create_op_eq [OF False no] d
      using disposition_returns_to(2) [OF d s(2,3)] by (simp add: not_found_returns collision_returns del: not_None_eq)
  qed
qed

end
