(* ===== verification/FsOps.thy ===== *)
theory FsOps
  imports FsRequest DirBuf
begin

text \<open>
  The operations on open files and on the volume (\<open>src/dll/fsop.c\<close>): each calls the file system and
  puts its answer into the response. \<open>None\<close> is a call of a null pointer, a check that does not return, or
  an access outside a buffer.
\<close>

section \<open>The response\<close>

definition set_file_info :: "file_info \<Rightarrow> 's op_state \<Rightarrow> 's op_state" where
  "set_file_info info st = st\<lparr>Op_Rsp := (Op_Rsp st)\<lparr>Rsp_FileInfo := info\<rparr>\<rparr>"

definition set_volume_info :: "volume_info \<Rightarrow> 's op_state \<Rightarrow> 's op_state" where
  "set_volume_info info st = st\<lparr>Op_Rsp := (Op_Rsp st)\<lparr>Rsp_VolumeInfo := info\<rparr>\<rparr>"

definition set_transferred :: "u32 \<Rightarrow> 's op_state \<Rightarrow> 's op_state" where
  "set_transferred n st = st\<lparr>Op_Rsp := (Op_Rsp st)\<lparr>Information := n\<rparr>\<rparr>"

text \<open>What the file system wrote at the start of the response's buffer.\<close>

definition set_buffer :: "bytes \<Rightarrow> 's op_state \<Rightarrow> 's op_state" where
  "set_buffer data st = st\<lparr>Op_Rsp := (Op_Rsp st)\<lparr>Rsp_Buffer := write_front (Rsp_Buffer (Op_Rsp st)) data\<rparr>\<rparr>"

text \<open>\<open>Response->Size\<close> and the descriptor of the buffer, for \<open>n\<close> bytes.\<close>

definition set_data :: "nat \<Rightarrow> 's op_state \<Rightarrow> 's op_state" where
  "set_data n st = st\<lparr>Op_Rsp := (Op_Rsp st)\<lparr>Rsp_Size := of_nat (RSP_HEADER + n),
     Rsp_Data := \<lparr>Buf_Offset = 0, Buf_Size = of_nat n\<rparr>\<rparr>\<rparr>"

abbreviation (input) STATUS_PENDING :: ntstatus where "STATUS_PENDING \<equiv> 0x103"
abbreviation (input) STATUS_EA_LIST_INCONSISTENT :: ntstatus where "STATUS_EA_LIST_INCONSISTENT \<equiv> 0x80000014"
abbreviation (input) STATUS_BUFFER_TOO_SMALL :: ntstatus where "STATUS_BUFFER_TOO_SMALL \<equiv> 0xC0000023"
abbreviation (input) STATUS_INVALID_SECURITY_DESCR :: ntstatus where "STATUS_INVALID_SECURITY_DESCR \<equiv> 0xC0000079"
abbreviation (input) STATUS_OBJECT_PATH_NOT_FOUND :: ntstatus where "STATUS_OBJECT_PATH_NOT_FOUND \<equiv> 0xC000003A"

text \<open>What the operations with a file information do with the answer of the file system.\<close>

definition take_file_info :: "((ntstatus \<times> file_info) \<times> 's) \<Rightarrow> 's op_state \<Rightarrow> ntstatus \<times> 's op_state" where
  "take_file_info a st =
     (let ((Result, FileInfo), s) = a; st = st\<lparr>Op_Fs := s\<rparr>
      in if \<not> NT_SUCCESS Result then (Result, st) else (STATUS_SUCCESS, set_file_info FileInfo st))"

definition take_volume_info :: "((ntstatus \<times> volume_info) \<times> 's) \<Rightarrow> 's op_state \<Rightarrow> ntstatus \<times> 's op_state" where
  "take_volume_info a st =
     (let ((Result, VolumeInfo), s) = a; st = st\<lparr>Op_Fs := s\<rparr>
      in if \<not> NT_SUCCESS Result then (Result, st) else (STATUS_SUCCESS, set_volume_info VolumeInfo st))"

text \<open>The operations with data: \<open>overflow\<close> is the status that replaces \<open>STATUS_BUFFER_OVERFLOW\<close>.\<close>

definition take_data ::
  "ntstatus \<Rightarrow> ((ntstatus \<times> bytes \<times> nat) \<times> 's) \<Rightarrow> 's op_state \<Rightarrow> ntstatus \<times> 's op_state" where
  "take_data overflow a st =
     (let ((Result, data, n), s) = a; st = set_buffer data (st\<lparr>Op_Fs := s\<rparr>)
      in if \<not> NT_SUCCESS Result then (if Result \<noteq> STATUS_BUFFER_OVERFLOW then Result else overflow, st)
         else (STATUS_SUCCESS, set_data n st))"

section \<open>Open files\<close>

definition FspFileSystemOpOverwrite ::
  "('s, 'sd) file_system \<Rightarrow> full_context \<Rightarrow> overwrite_request \<Rightarrow> 's op_state \<Rightarrow> ntstatus \<times> 's op_state" where
  "FspFileSystemOpOverwrite fs c req st =
     (let i = Interface fs; ctx = ValOfFileContext fs c;
          call = (case OverwriteEx i of
              Some f \<Rightarrow> Some (f (Op_Fs st) ctx (Overwrite_FileAttributes req) (Overwrite_Supersede req)
                (Overwrite_AllocationSize req) (if Overwrite_Ea req \<noteq> [] then Some (Overwrite_Ea req) else None))
            | None \<Rightarrow> (case Overwrite i of
                Some f \<Rightarrow> Some (f (Op_Fs st) ctx (Overwrite_FileAttributes req) (Overwrite_Supersede req)
                  (Overwrite_AllocationSize req))
              | None \<Rightarrow> None))
      in case call of
           None \<Rightarrow> (STATUS_INVALID_DEVICE_REQUEST, st)
         | Some ((Result, FileInfo), s) \<Rightarrow>
             if \<not> NT_SUCCESS Result
             then (Result, st\<lparr>Op_Fs := (case Close i of None \<Rightarrow> s | Some f \<Rightarrow> f s ctx)\<rparr>)
             else (STATUS_SUCCESS, set_file_info FileInfo (st\<lparr>Op_Fs := s\<rparr>)))"

definition cleanup_flags :: "cleanup_request \<Rightarrow> u32" where
  "cleanup_flags req = (if Cleanup_Delete req then 0x01 else 0) OR
     (if Cleanup_SetAllocationSize req then 0x02 else 0) OR
     (if Cleanup_SetArchiveBit req then 0x10 else 0) OR
     (if Cleanup_SetLastAccessTime req then 0x20 else 0) OR
     (if Cleanup_SetLastWriteTime req then 0x40 else 0) OR
     (if Cleanup_SetChangeTime req then 0x80 else 0)"

definition FspFileSystemOpCleanup ::
  "('s, 'sd) file_system \<Rightarrow> full_context \<Rightarrow> cleanup_request \<Rightarrow> 's op_state \<Rightarrow> ntstatus \<times> 's op_state" where
  "FspFileSystemOpCleanup fs c req st =
     (STATUS_SUCCESS, st\<lparr>Op_Fs := (case Cleanup (Interface fs) of
        None \<Rightarrow> Op_Fs st
      | Some f \<Rightarrow> f (Op_Fs st) (ValOfFileContext fs c) (Cleanup_FileName req) (cleanup_flags req))\<rparr>)"

definition FspFileSystemOpClose ::
  "('s, 'sd) file_system \<Rightarrow> full_context \<Rightarrow> 's op_state \<Rightarrow> ntstatus \<times> 's op_state" where
  "FspFileSystemOpClose fs c st =
     (STATUS_SUCCESS, st\<lparr>Op_Fs := (case Close (Interface fs) of
        None \<Rightarrow> Op_Fs st
      | Some f \<Rightarrow> f (Op_Fs st) (ValOfFileContext fs c))\<rparr>)"

definition FspFileSystemOpRead ::
  "('s, 'sd) file_system \<Rightarrow> full_context \<Rightarrow> io_request \<Rightarrow> 's op_state \<Rightarrow> ntstatus \<times> 's op_state" where
  "FspFileSystemOpRead fs c req st =
     (case Read (Interface fs) of
        None \<Rightarrow> (STATUS_INVALID_DEVICE_REQUEST, st)
      | Some f \<Rightarrow>
          (let ((Result, BytesTransferred), s) = f (Op_Fs st) (ValOfFileContext fs c) (Io_Address req) (Io_Offset req)
                 (Io_Length req);
               st = st\<lparr>Op_Fs := s\<rparr>
           in if \<not> NT_SUCCESS Result then (Result, st)
              else (Result, if Result \<noteq> STATUS_PENDING then set_transferred BytesTransferred st else st)))"

definition FspFileSystemOpWrite ::
  "('s, 'sd) file_system \<Rightarrow> full_context \<Rightarrow> io_request \<Rightarrow> 's op_state \<Rightarrow> ntstatus \<times> 's op_state" where
  "FspFileSystemOpWrite fs c req st =
     (case Write (Interface fs) of
        None \<Rightarrow> (STATUS_INVALID_DEVICE_REQUEST, st)
      | Some f \<Rightarrow>
          (let ((Result, BytesTransferred, FileInfo), s) = f (Op_Fs st) (ValOfFileContext fs c) (Io_Address req)
                 (Io_Offset req) (Io_Length req) (Io_Offset req = - 1) (Io_Constrained req);
               st = st\<lparr>Op_Fs := s\<rparr>
           in if \<not> NT_SUCCESS Result then (Result, st)
              else (Result, if Result \<noteq> STATUS_PENDING
                then set_file_info FileInfo (set_transferred BytesTransferred st) else st)))"

text \<open>Without \<open>Flush\<close> the operation calls \<open>GetFileInfo\<close>, whether the file system has it or not.\<close>

definition FspFileSystemOpFlushBuffers ::
  "('s, 'sd) file_system \<Rightarrow> full_context \<Rightarrow> 's op_state \<Rightarrow> (ntstatus \<times> 's op_state) option" where
  "FspFileSystemOpFlushBuffers fs c st = do {
     f \<leftarrow> (case Flush (Interface fs) of None \<Rightarrow> GetFileInfo (Interface fs) | Some f \<Rightarrow> Some f);
     Some (take_file_info (f (Op_Fs st) (ValOfFileContext fs c)) st) }"

definition FspFileSystemOpQueryInformation ::
  "('s, 'sd) file_system \<Rightarrow> full_context \<Rightarrow> 's op_state \<Rightarrow> ntstatus \<times> 's op_state" where
  "FspFileSystemOpQueryInformation fs c st =
     (case GetFileInfo (Interface fs) of
        None \<Rightarrow> (STATUS_INVALID_DEVICE_REQUEST, st)
      | Some f \<Rightarrow> take_file_info (f (Op_Fs st) (ValOfFileContext fs c)) st)"

section \<open>Renaming and deleting\<close>

text \<open>The request that the access check of a rename is given.\<close>

definition rename_request :: "set_information_request \<Rightarrow> create_request" where
  "rename_request req = \<lparr>Kind = FspFsctlTransactCreateKind, Name_Buffer = Rename_NewFileName req @ [0], NamedStream = 0,
     UserMode = True, HasTraversePrivilege = False, HasRestorePrivilege = False, HasTrailingBackslash = False,
     OpenTargetDirectory = False, AcceptsSecurityDescriptor = False,
     CreateOptions = (if FileInformationClass req = 65 \<and> FlagOn (RenameEx_Flags req) 0x40 then 0 else FILE_DELETE_ON_CLOSE)
       OR FILE_OPEN_REPARSE_POINT,
     Create_FileAttributes = 0, DesiredAccess = 0, Create_GrantedAccess = 0, AccessToken = Rename_AccessToken req,
     Creator_Descriptor = None, Create_AllocationSize = 0, Ea = [], EaIsReparsePoint = False\<rparr>"

text \<open>\<open>Size\<close> is the allocation: the 88 bytes of a request, and the name with its terminator.\<close>

definition FspFileSystemRenameCheck ::
  "('s, 'sd) file_system \<Rightarrow> set_information_request \<Rightarrow> 's op_state \<Rightarrow> (ntstatus \<times> 's op_state) option" where
  "FspFileSystemRenameCheck fs req st =
     (if \<not> Security.MemAlloc (Checks fs) (88 + 2 * (length (Rename_NewFileName req) + 1))
      then Some (STATUS_INSUFFICIENT_RESOURCES, st)
      else do {
        let st = st\<lparr>Op_Mem := Op_Mem st + 1\<rparr>;
        (Result, GrantedAccess, _, _, s, live) \<leftarrow>
          FspAccessCheck (Checks fs) False False DELETE (rename_request req) (Op_Fs st, Op_Mem st);
        let st = st\<lparr>Op_Fs := s, Op_Mem := live - 1\<rparr>;
        Some (if Result = STATUS_REPARSE then STATUS_SUCCESS else Result, st) })"

definition set_disposition ::
  "('s, 'sd) file_system \<Rightarrow> file_context \<Rightarrow> set_information_request \<Rightarrow> 's \<Rightarrow> (ntstatus \<times> file_info) \<times> 's" where
  "set_disposition fs ctx req s =
     (let i = Interface fs; Flags = DispositionEx_Flags req;
          (Result, FileInfo, s, break) =
            (case GetFileInfo i of
               Some f \<Rightarrow>
                 if Flags AND 0x11 = 1 then
                   let ((Result, FileInfo), s) = f s ctx
                   in if NT_SUCCESS Result \<and> FlagOn (Info_FileAttributes FileInfo) FILE_ATTRIBUTE_READONLY
                      then (STATUS_CANNOT_DELETE, FileInfo, s, True) else (Result, FileInfo, s, False)
                 else (STATUS_INVALID_DEVICE_REQUEST, zero_file_info, s, False)
             | None \<Rightarrow> (STATUS_INVALID_DEVICE_REQUEST, zero_file_info, s, False))
      in if break then ((Result, FileInfo), s)
         else case SetDelete i of
           Some f \<Rightarrow> (let (Result, s) = f s ctx (SetInfo_FileName req) (FlagOn Flags 1) in ((Result, FileInfo), s))
         | None \<Rightarrow>
             (case CanDelete i of
                Some f \<Rightarrow>
                  if FlagOn Flags 1 then (let (Result, s) = f s ctx (SetInfo_FileName req) in ((Result, FileInfo), s))
                  else ((STATUS_SUCCESS, FileInfo), s)
              | None \<Rightarrow> ((Result, FileInfo), s)))"

definition set_rename ::
  "('s, 'sd) file_system \<Rightarrow> file_context \<Rightarrow> set_information_request \<Rightarrow> 's op_state \<Rightarrow> (ntstatus \<times> 's op_state) option" where
  "set_rename fs ctx req st =
     (case Rename (Interface fs) of
        None \<Rightarrow> Some (STATUS_INVALID_DEVICE_REQUEST, st)
      | Some f \<Rightarrow> do {
          (Result, st) \<leftarrow> (if Rename_AccessToken req \<noteq> 0 then FspFileSystemRenameCheck fs req st else Some (STATUS_SUCCESS, st));
          if \<not> NT_SUCCESS Result \<and> Result \<noteq> STATUS_OBJECT_PATH_NOT_FOUND \<and> Result \<noteq> STATUS_OBJECT_NAME_NOT_FOUND
          then Some (Result, st)
          else let (Result, s) = f (Op_Fs st) ctx (SetInfo_FileName req) (Rename_NewFileName req) (Rename_AccessToken req \<noteq> 0)
               in Some (Result, st\<lparr>Op_Fs := s\<rparr>) })"

definition FspFileSystemOpSetInformation ::
  "('s, 'sd) file_system \<Rightarrow> full_context \<Rightarrow> set_information_request \<Rightarrow> 's op_state \<Rightarrow> (ntstatus \<times> 's op_state) option" where
  "FspFileSystemOpSetInformation fs c req st =
     (let i = Interface fs; ctx = ValOfFileContext fs c; class = FileInformationClass req;
          none = ((STATUS_INVALID_DEVICE_REQUEST, zero_file_info), Op_Fs st)
      in if class = 4 then Some (take_file_info (case SetBasicInfo i of
             None \<Rightarrow> none
           | Some f \<Rightarrow> f (Op_Fs st) ctx (Basic_FileAttributes req) (Basic_CreationTime req) (Basic_LastAccessTime req)
               (Basic_LastWriteTime req) (Basic_ChangeTime req)) st)
         else if class = 19 then Some (take_file_info (case SetFileSize i of
             None \<Rightarrow> none
           | Some f \<Rightarrow> f (Op_Fs st) ctx (SetInfo_AllocationSize req) True) st)
         else if class = 20 then Some (take_file_info (case SetFileSize i of
             None \<Rightarrow> none
           | Some f \<Rightarrow> f (Op_Fs st) ctx (SetInfo_FileSize req) False) st)
         else if class = 13 \<or> class = 64 then Some (take_file_info (set_disposition fs ctx req (Op_Fs st)) st)
         else if class = 10 \<or> class = 65 then do {
             (Result, st) \<leftarrow> set_rename fs ctx req st;
             Some (take_file_info ((Result, zero_file_info), Op_Fs st) st) }
         else Some (STATUS_INVALID_DEVICE_REQUEST, st))"

section \<open>Extended attributes, volumes and directories\<close>

definition FspFileSystemOpQueryEa ::
  "('s, 'sd) file_system \<Rightarrow> full_context \<Rightarrow> 's op_state \<Rightarrow> ntstatus \<times> 's op_state" where
  "FspFileSystemOpQueryEa fs c st =
     (case GetEa (Interface fs) of
        None \<Rightarrow> (STATUS_INVALID_DEVICE_REQUEST, st)
      | Some f \<Rightarrow>
          (let ((Result, data, n), s) = f (Op_Fs st) (ValOfFileContext fs c)
           in take_data STATUS_EA_LIST_INCONSISTENT ((Result, data, unat n), s) st))"

definition FspFileSystemOpSetEa ::
  "('s, 'sd) file_system \<Rightarrow> full_context \<Rightarrow> bytes \<Rightarrow> 's op_state \<Rightarrow> ntstatus \<times> 's op_state" where
  "FspFileSystemOpSetEa fs c ea st =
     (case SetEa (Interface fs) of
        None \<Rightarrow> (STATUS_INVALID_DEVICE_REQUEST, st)
      | Some f \<Rightarrow> take_file_info (f (Op_Fs st) (ValOfFileContext fs c) ea) st)"

definition FspFileSystemOpQueryVolumeInformation ::
  "('s, 'sd) file_system \<Rightarrow> 's op_state \<Rightarrow> ntstatus \<times> 's op_state" where
  "FspFileSystemOpQueryVolumeInformation fs st =
     (case GetVolumeInfo (Interface fs) of
        None \<Rightarrow> (STATUS_INVALID_DEVICE_REQUEST, st)
      | Some f \<Rightarrow> take_volume_info (f (Op_Fs st)) st)"

definition FspFileSystemOpSetVolumeInformation ::
  "('s, 'sd) file_system \<Rightarrow> u32 \<Rightarrow> wstr \<Rightarrow> 's op_state \<Rightarrow> ntstatus \<times> 's op_state" where
  "FspFileSystemOpSetVolumeInformation fs FsInformationClass label st =
     (if FsInformationClass = 2 then
        (case SetVolumeLabel (Interface fs) of
           None \<Rightarrow> (STATUS_INVALID_DEVICE_REQUEST, st)
         | Some f \<Rightarrow> take_volume_info (f (Op_Fs st) label) st)
      else (STATUS_INVALID_DEVICE_REQUEST, st))"

text \<open>
  One entry of a directory by its name: the answer is the entry, or nothing, and the end marker. The
  result is the status, the caller's memory and the bytes transferred.
\<close>

definition FspFileSystemOpQueryDirectory_GetDirInfoByName ::
  "('s \<Rightarrow> file_context \<Rightarrow> wstr \<Rightarrow> (ntstatus \<times> bytes) \<times> 's) \<Rightarrow> 's \<Rightarrow> file_context \<Rightarrow> wstr \<Rightarrow> bytes \<Rightarrow> u32 \<Rightarrow>
   ((ntstatus \<times> bytes \<times> u32) \<times> 's) option" where
  "FspFileSystemOpQueryDirectory_GetDirInfoByName get s ctx FileName memory Len =
     (let ((Result, DirInfo), s) = get s ctx FileName
      in if NT_SUCCESS Result then do {
           (added, memory, BytesTransferred) \<leftarrow> FspFileSystemAddDirInfo (Some DirInfo) memory Len 0;
           (_, memory, BytesTransferred) \<leftarrow>
             (if added then FspFileSystemAddDirInfo None memory Len BytesTransferred else Some (False, memory, BytesTransferred));
           Some ((Result, memory, BytesTransferred), s) }
         else if Result = STATUS_OBJECT_NAME_NOT_FOUND then do {
           (_, memory, BytesTransferred) \<leftarrow> FspFileSystemAddDirInfo None memory Len 0;
           Some ((STATUS_SUCCESS, memory, BytesTransferred), s) }
         else Some ((Result, memory, 0), s))"

text \<open>The result has the caller's memory, in which the entries are written.\<close>

definition FspFileSystemOpQueryDirectory ::
  "('s, 'sd) file_system \<Rightarrow> full_context \<Rightarrow> query_directory_request \<Rightarrow> 's op_state \<Rightarrow> (ntstatus \<times> bytes \<times> 's op_state) option" where
  "FspFileSystemOpQueryDirectory fs c req st =
     (case ReadDirectory (Interface fs) of
        None \<Rightarrow> Some (STATUS_INVALID_DEVICE_REQUEST, Dir_Memory req, st)
      | Some read \<Rightarrow> do {
          ((Result, memory, BytesTransferred), s) \<leftarrow>
            (case (GetDirInfoByName (Interface fs), Dir_Pattern req) of
               (Some get, Some name) \<Rightarrow>
                 if Dir_PatternIsFileName req
                 then FspFileSystemOpQueryDirectory_GetDirInfoByName get (Op_Fs st) (ValOfFileContext fs c) name
                   (Dir_Memory req) (Dir_Length req)
                 else Some (read (Op_Fs st) (ValOfFileContext fs c) (Dir_Pattern req) (Dir_Marker req) (Dir_Memory req) (Dir_Length req))
             | _ \<Rightarrow> Some (read (Op_Fs st) (ValOfFileContext fs c) (Dir_Pattern req) (Dir_Marker req) (Dir_Memory req) (Dir_Length req)));
          let st = st\<lparr>Op_Fs := s\<rparr>;
          Some (Result, memory, if NT_SUCCESS Result \<and> Result \<noteq> STATUS_PENDING then set_transferred BytesTransferred st else st) })"

section \<open>Controls, security and streams\<close>

abbreviation (input) FSCTL_SET_REPARSE_POINT :: u32 where "FSCTL_SET_REPARSE_POINT \<equiv> 0x900A4"
abbreviation (input) FSCTL_GET_REPARSE_POINT :: u32 where "FSCTL_GET_REPARSE_POINT \<equiv> 0x900A8"
abbreviation (input) FSCTL_DELETE_REPARSE_POINT :: u32 where "FSCTL_DELETE_REPARSE_POINT \<equiv> 0x900AC"

text \<open>\<open>sizeof(REPARSE_DATA_BUFFER)\<close> is 24; the status of the file system is returned as it is.\<close>

definition FspFileSystemOpFileSystemControl ::
  "('s, 'sd) file_system \<Rightarrow> full_context \<Rightarrow> control_request \<Rightarrow> 's op_state \<Rightarrow> ntstatus \<times> 's op_state" where
  "FspFileSystemOpFileSystemControl fs c req st =
     (let i = Interface fs; ctx = ValOfFileContext fs c
      in if ControlCode req = FSCTL_GET_REPARSE_POINT then
           (case GetReparsePoint i of
              None \<Rightarrow> (STATUS_INVALID_DEVICE_REQUEST, st)
            | Some f \<Rightarrow>
                (let st = set_buffer (replicate 24 0) st;
                     ((Result, data, Size), s) = f (Op_Fs st) ctx (Control_FileName req);
                     st = set_buffer data (st\<lparr>Op_Fs := s\<rparr>)
                 in (Result, if NT_SUCCESS Result then set_data Size st else st)))
         else if ControlCode req = FSCTL_SET_REPARSE_POINT then
           (case SetReparsePoint i of
              None \<Rightarrow> (STATUS_INVALID_DEVICE_REQUEST, st)
            | Some f \<Rightarrow>
                (let (Result, s) = f (Op_Fs st) ctx (Control_FileName req) (Control_Buffer req) in (Result, st\<lparr>Op_Fs := s\<rparr>)))
         else if ControlCode req = FSCTL_DELETE_REPARSE_POINT then
           (case DeleteReparsePoint i of
              None \<Rightarrow> (STATUS_INVALID_DEVICE_REQUEST, st)
            | Some f \<Rightarrow>
                (let (Result, s) = f (Op_Fs st) ctx (Control_FileName req) (Control_Buffer req) in (Result, st\<lparr>Op_Fs := s\<rparr>)))
         else (STATUS_INVALID_DEVICE_REQUEST, st))"

definition FspFileSystemOpDeviceControl ::
  "('s, 'sd) file_system \<Rightarrow> full_context \<Rightarrow> control_request \<Rightarrow> 's op_state \<Rightarrow> ntstatus \<times> 's op_state" where
  "FspFileSystemOpDeviceControl fs c req st =
     (case Control (Interface fs) of
        None \<Rightarrow> (STATUS_INVALID_DEVICE_REQUEST, st)
      | Some f \<Rightarrow>
          (let ((Result, data, n), s) = f (Op_Fs st) (ValOfFileContext fs c) (ControlCode req) (Control_Buffer req)
                 (Control_OutputLength req)
           in take_data STATUS_BUFFER_TOO_SMALL ((Result, data, unat n), s) st))"

definition FspFileSystemOpQuerySecurity ::
  "('s, 'sd) file_system \<Rightarrow> full_context \<Rightarrow> 's op_state \<Rightarrow> ntstatus \<times> 's op_state" where
  "FspFileSystemOpQuerySecurity fs c st =
     (case GetSecurity (Interface fs) of
        None \<Rightarrow> (STATUS_INVALID_DEVICE_REQUEST, st)
      | Some f \<Rightarrow> take_data STATUS_INVALID_SECURITY_DESCR (f (Op_Fs st) (ValOfFileContext fs c)) st)"

definition FspFileSystemOpSetSecurity ::
  "('s, 'sd) file_system \<Rightarrow> full_context \<Rightarrow> u32 \<Rightarrow> bytes \<Rightarrow> 's op_state \<Rightarrow> ntstatus \<times> 's op_state" where
  "FspFileSystemOpSetSecurity fs c info descriptor st =
     (case SetSecurity (Interface fs) of
        None \<Rightarrow> (STATUS_INVALID_DEVICE_REQUEST, st)
      | Some f \<Rightarrow> (let (Result, s) = f (Op_Fs st) (ValOfFileContext fs c) info descriptor in (Result, st\<lparr>Op_Fs := s\<rparr>)))"

definition FspFileSystemOpQueryStreamInformation ::
  "('s, 'sd) file_system \<Rightarrow> full_context \<Rightarrow> 's op_state \<Rightarrow> ntstatus \<times> 's op_state" where
  "FspFileSystemOpQueryStreamInformation fs c st =
     (case GetStreamInfo (Interface fs) of
        None \<Rightarrow> (STATUS_INVALID_DEVICE_REQUEST, st)
      | Some f \<Rightarrow>
          (let ((Result, data, n), s) = f (Op_Fs st) (ValOfFileContext fs c)
           in take_data STATUS_BUFFER_OVERFLOW ((Result, data, unat n), s) st))"

end
