(* ===== verification/Dispatch.thy ===== *)
theory Dispatch
  imports FsCreateProps FsOps
begin

text \<open>
  The threads of the dispatcher (\<open>FspFileSystemDispatcherThread\<close>, \<open>src/dll/fs.c\<close>): each sends its
  last response and gets the next request, enters the guard, runs the operation, leaves the guard and
  finishes the response. The threads share the file system and the lock of the guard, and any of them
  may take the next step.
\<close>

section \<open>One request\<close>

definition begin_response :: "u64 \<Rightarrow> request \<Rightarrow> response \<Rightarrow> response" where
  "begin_response hint r rsp =
     (clear_response rsp)\<lparr>Rsp_Size := of_nat RSP_HEADER, Rsp_Kind := request_kind r, Rsp_Hint := hint\<rparr>"

text \<open>\<open>FileSystem->Operations[Request->Kind]\<close>, as \<open>FspFileSystemCreate\<close> fills it.\<close>

fun has_operation :: "request \<Rightarrow> bool" where
  "has_operation (Other_Request _) \<longleftrightarrow> False"
| "has_operation _ \<longleftrightarrow> True"

text \<open>The create operation runs with its request as part of the state.\<close>

definition run_create ::
  "('s, 'sd) file_system \<Rightarrow> create_request \<Rightarrow> 's op_state \<Rightarrow> (ntstatus \<times> 's op_state) option" where
  "run_create fs req st = do {
     (Result, st) \<leftarrow> FspFileSystemOpCreate fs
       \<lparr>Op_Fs = Op_Fs st, Op_Mem = Op_Mem st, Op_Private = Op_Private st, Op_Rsp = Op_Rsp st, Create_Req = req\<rparr>;
     Some (Result, \<lparr>Op_Fs = Op_Fs st, Op_Mem = Op_Mem st, Op_Private = Op_Private st, Op_Rsp = Op_Rsp st\<rparr>) }"

fun run_operation ::
  "('s, 'sd) file_system \<Rightarrow> request \<Rightarrow> 's op_state \<Rightarrow> (ntstatus \<times> 's op_state) option" where
  "run_operation fs (Create_Request req) st = run_create fs req st"
| "run_operation fs (Overwrite_Request c req) st = Some (FspFileSystemOpOverwrite fs c req st)"
| "run_operation fs (Cleanup_Request c req) st = Some (FspFileSystemOpCleanup fs c req st)"
| "run_operation fs (Close_Request c) st = Some (FspFileSystemOpClose fs c st)"
| "run_operation fs (Read_Request c req) st = Some (FspFileSystemOpRead fs c req st)"
| "run_operation fs (Write_Request c req) st = Some (FspFileSystemOpWrite fs c req st)"
| "run_operation fs (QueryInformation_Request c) st = Some (FspFileSystemOpQueryInformation fs c st)"
| "run_operation fs (SetInformation_Request c req) st = FspFileSystemOpSetInformation fs c req st"
| "run_operation fs (QueryEa_Request c) st = Some (FspFileSystemOpQueryEa fs c st)"
| "run_operation fs (SetEa_Request c ea) st = Some (FspFileSystemOpSetEa fs c ea st)"
| "run_operation fs (FlushBuffers_Request c) st = FspFileSystemOpFlushBuffers fs c st"
| "run_operation fs QueryVolumeInformation_Request st = Some (FspFileSystemOpQueryVolumeInformation fs st)"
| "run_operation fs (SetVolumeInformation_Request class label) st =
     Some (FspFileSystemOpSetVolumeInformation fs class label st)"
| "run_operation fs (QueryDirectory_Request c req) st = do {
     (Result, _, st) \<leftarrow> FspFileSystemOpQueryDirectory fs c req st;
     Some (Result, st) }"
| "run_operation fs (FileSystemControl_Request c req) st = Some (FspFileSystemOpFileSystemControl fs c req st)"
| "run_operation fs (DeviceControl_Request c req) st = Some (FspFileSystemOpDeviceControl fs c req st)"
| "run_operation fs (QuerySecurity_Request c) st = Some (FspFileSystemOpQuerySecurity fs c st)"
| "run_operation fs (SetSecurity_Request c info sd) st = Some (FspFileSystemOpSetSecurity fs c info sd st)"
| "run_operation fs (QueryStreamInformation_Request c) st = Some (FspFileSystemOpQueryStreamInformation fs c st)"
| "run_operation fs (Other_Request k) st = None"

text \<open>
  The end of the loop's body: a response that is too long becomes an error, one that is pending is
  not sent (its size is 0), and any other is padded with zeros to a multiple of 8. A size below that of
  the header would let the padding run into the header: \<open>None\<close>.
\<close>

definition finish_response :: "u64 \<Rightarrow> request \<Rightarrow> response \<Rightarrow> response option" where
  "finish_response hint r rsp =
     (let Size = unat (Rsp_Size rsp); ResponseSize = align8 Size
      in if RSP_SIZEMAX < ResponseSize
         then Some ((begin_response hint r rsp)\<lparr>Status := STATUS_INVALID_DEVICE_REQUEST\<rparr>)
         else if Status rsp = STATUS_PENDING then Some (clear_response rsp)
         else if Size < RSP_HEADER then None
         else do {
           buf \<leftarrow> buf_put (Rsp_Buffer rsp) (Size - RSP_HEADER) (replicate (ResponseSize - Size) 0);
           Some (rsp\<lparr>Rsp_Size := of_nat ResponseSize, Rsp_Buffer := buf\<rparr>) })"

section \<open>The threads\<close>

text \<open>Where a thread is in the body of its loop.\<close>

datatype position = Transact | Received u64 request | Entered u64 request | Ran u64 request

type_synonym thread = "position \<times> response"

text \<open>
  The state of all threads; \<open>D_Received\<close>, \<open>D_Sent\<close> and \<open>D_Pended\<close> record the hints and kinds of the requests
  that came from the driver, of the responses sent to it, and of those that the file system will send itself.
\<close>

type_synonym ticket = "u64 \<times> u32"

record 's dispatcher =
  D_Fs :: 's
  D_Mem :: int
  D_Private :: int
  D_Lock :: srw_lock
  D_Threads :: "thread list"
  D_Received :: "ticket multiset"
  D_Sent :: "ticket multiset"
  D_Pended :: "ticket multiset"

definition ticket :: "u64 \<Rightarrow> request \<Rightarrow> ticket" where
  "ticket hint r = (hint, request_kind r)"

definition sent :: "response \<Rightarrow> ticket multiset" where
  "sent rsp = (if Rsp_Size rsp = 0 then {#} else {#(Rsp_Hint rsp, Rsp_Kind rsp)#})"

text \<open>The request is left to the file system: its operation returned \<open>STATUS_PENDING\<close>, in a response not too long.\<close>

definition pended :: "u64 \<Rightarrow> request \<Rightarrow> response \<Rightarrow> ticket multiset" where
  "pended hint r rsp =
     (if Status rsp = STATUS_PENDING \<and> align8 (unat (Rsp_Size rsp)) \<le> RSP_SIZEMAX then {#ticket hint r#} else {#})"

definition op_state_of :: "'s dispatcher \<Rightarrow> response \<Rightarrow> 's op_state" where
  "op_state_of d rsp = \<lparr>Op_Fs = D_Fs d, Op_Mem = D_Mem d, Op_Private = D_Private d, Op_Rsp = rsp\<rparr>"

text \<open>
  \<open>admit\<close> is the status of \<open>EnterOperation\<close>: \<open>STATUS_SUCCESS\<close> for the guard of the library; the FUSE layer's
  may refuse an operation, without taking the lock.
\<close>

inductive dispatch_step ::
  "('s, 'sd) file_system \<Rightarrow> guard_functions \<Rightarrow> guard_strategy \<Rightarrow> (request \<Rightarrow> ntstatus) \<Rightarrow>
   's dispatcher \<Rightarrow> 's dispatcher \<Rightarrow> bool"
  for fs f strategy admit where
  transact: "i < length (D_Threads d) \<Longrightarrow> D_Threads d ! i = (Transact, rsp) \<Longrightarrow>
     dispatch_step fs f strategy admit d
       (d\<lparr>D_Threads := (D_Threads d)[i := (Received hint r, begin_response hint r rsp)],
          D_Sent := D_Sent d + sent rsp, D_Received := add_mset (ticket hint r) (D_Received d)\<rparr>)"
| transact_nothing: "i < length (D_Threads d) \<Longrightarrow> D_Threads d ! i = (Transact, rsp) \<Longrightarrow>
     dispatch_step fs f strategy admit d
       (d\<lparr>D_Threads := (D_Threads d)[i := (Transact, clear_response rsp)], D_Sent := D_Sent d + sent rsp\<rparr>)"
| reject: "i < length (D_Threads d) \<Longrightarrow> D_Threads d ! i = (Received hint r, rsp) \<Longrightarrow>
     status = (if has_operation r then admit r else STATUS_INVALID_DEVICE_REQUEST) \<Longrightarrow> \<not> NT_SUCCESS status \<Longrightarrow>
     finish_response hint r (rsp\<lparr>Status := status\<rparr>) = Some rsp' \<Longrightarrow>
     dispatch_step fs f strategy admit d (d\<lparr>D_Threads := (D_Threads d)[i := (Transact, rsp')]\<rparr>)"
| enter: "i < length (D_Threads d) \<Longrightarrow> D_Threads d ! i = (Received hint r, rsp) \<Longrightarrow> has_operation r \<Longrightarrow>
     NT_SUCCESS (admit r) \<Longrightarrow> op_enter f strategy r (D_Lock d) = Some l \<Longrightarrow>
     dispatch_step fs f strategy admit d
       (d\<lparr>D_Threads := (D_Threads d)[i := (Entered hint r, rsp\<lparr>Status := admit r\<rparr>)], D_Lock := l\<rparr>)"
| run: "i < length (D_Threads d) \<Longrightarrow> D_Threads d ! i = (Entered hint r, rsp) \<Longrightarrow>
     run_operation fs r (op_state_of d rsp) = Some (status, st) \<Longrightarrow>
     dispatch_step fs f strategy admit d
       (d\<lparr>D_Threads := (D_Threads d)[i := (Ran hint r, (Op_Rsp st)\<lparr>Status := status\<rparr>)],
          D_Fs := Op_Fs st, D_Mem := Op_Mem st, D_Private := Op_Private st\<rparr>)"
| leave: "i < length (D_Threads d) \<Longrightarrow> D_Threads d ! i = (Ran hint r, rsp) \<Longrightarrow>
     op_leave f strategy r (D_Lock d) = Some l \<Longrightarrow> finish_response hint r rsp = Some rsp' \<Longrightarrow>
     dispatch_step fs f strategy admit d
       (d\<lparr>D_Threads := (D_Threads d)[i := (Transact, rsp')], D_Lock := l,
          D_Pended := D_Pended d + pended hint r rsp\<rparr>)"

inductive_cases dispatch_step_cases: "dispatch_step fs f strategy admit d d'"

text \<open>\<open>n\<close> threads start with an empty response and the lock free.\<close>

definition fresh_dispatcher :: "nat \<Rightarrow> response \<Rightarrow> 's \<Rightarrow> 's dispatcher \<Rightarrow> bool" where
  "fresh_dispatcher n rsp s d \<longleftrightarrow>
     d = \<lparr>D_Fs = s, D_Mem = 0, D_Private = 0, D_Lock = OpGuard.Unlocked,
       D_Threads = replicate n (Transact, clear_response rsp), D_Received = {#}, D_Sent = {#}, D_Pended = {#}\<rparr>"

definition dispatch_reachable ::
  "('s, 'sd) file_system \<Rightarrow> guard_functions \<Rightarrow> guard_strategy \<Rightarrow> (request \<Rightarrow> ntstatus) \<Rightarrow> 's dispatcher \<Rightarrow> bool" where
  "dispatch_reachable fs f strategy admit d \<longleftrightarrow>
     (\<exists>n rsp s d0. fresh_dispatcher n rsp s d0 \<and> length (Rsp_Buffer rsp) = RSP_BUFFER_SIZEMAX \<and>
       (dispatch_step fs f strategy admit)\<^sup>*\<^sup>* d0 d)"

end
