(* ===== verification/DispatchProps.thy ===== *)
theory DispatchProps
  imports Dispatch
begin

text \<open>
  What every operation keeps of its response, and the composition of the dispatcher's threads with the
  guard: requests and responses correspond, and conflicting operations do not run together.
\<close>

section \<open>The header of the response\<close>

text \<open>The operations leave the response's hint and kind and the length of its buffer alone.\<close>

definition header :: "response \<Rightarrow> u64 \<times> u32 \<times> nat" where
  "header rsp = (Rsp_Hint rsp, Rsp_Kind rsp, length (Rsp_Buffer rsp))"

abbreviation same_header :: "('s, 'a) op_state_scheme \<Rightarrow> ('t, 'b) op_state_scheme \<Rightarrow> bool" where
  "same_header st st' \<equiv> header (Op_Rsp st') = header (Op_Rsp st)"

lemma resolve_header: "FspFileSystemCallResolveReparsePoints fs i st = (r, st') \<Longrightarrow> same_header st st'"
  by (auto simp: FspFileSystemCallResolveReparsePoints_def Let_def header_def split: option.splits prod.splits if_splits)

lemma check_header:
  "check_access fs cp tr D want st = Some y \<Longrightarrow> header (Op_Rsp (snd (snd (snd y)))) = header (Op_Rsp st)"
  by (auto simp: check_access_def bind_eq_Some_conv)

lemma finish_check_header [simp]:
  "header (Op_Rsp (snd (snd (snd (finish_check fs grant y))))) = header (Op_Rsp (snd (snd (snd y))))"
proof -
  obtain r g sd st where y: "y = (r, g, sd, st)" by (cases y)
  obtain r1 st1 where c: "FspFileSystemCallResolveReparsePoints fs g st = (r1, st1)" by fastforce
  show ?thesis using resolve_header [OF c] by (simp add: finish_check_def y c)
qed

lemma create_check_header:
  "FspFileSystemCreateCheck fs tr st = Some y \<Longrightarrow> header (Op_Rsp (snd (snd (snd y)))) = header (Op_Rsp st)"
  by (auto simp: FspFileSystemCreateCheck_def Let_def bind_eq_Some_conv split: if_splits dest!: check_header)

lemma open_check_header:
  "FspFileSystemOpenCheck fs tr st = Some y \<Longrightarrow> header (Op_Rsp (snd (snd (snd y)))) = header (Op_Rsp st)"
  by (auto simp: FspFileSystemOpenCheck_def Let_def bind_eq_Some_conv dest!: check_header)

lemma overwrite_check_header:
  "FspFileSystemOverwriteCheck fs tr st = Some y \<Longrightarrow> header (Op_Rsp (snd (snd (snd y)))) = header (Op_Rsp st)"
  by (auto simp: FspFileSystemOverwriteCheck_def Let_def bind_eq_Some_conv dest!: check_header)

lemma target_check_header:
  "FspFileSystemOpenTargetDirectoryCheck fs st = Some y \<Longrightarrow> header (Op_Rsp (snd (snd (snd y)))) = header (Op_Rsp st)"
  by (auto simp: FspFileSystemOpenTargetDirectoryCheck_def Let_def bind_eq_Some_conv dest!: check_header)

lemmas checks_header = create_check_header open_check_header overwrite_check_header target_check_header

lemma take_answer_header: "take_answer a st = (r, c, i, n, st') \<Longrightarrow> same_header st st'"
  by (auto simp: take_answer_def header_def split: prod.splits)

lemma call_header:
  "call_open fs name options g st = Some (r, c, i, n, st') \<Longrightarrow> same_header st st'"
  "call_create fs d g st = Some (r, c, i, n, st') \<Longrightarrow> same_header st st'"
  by (auto simp: call_open_def call_create_def Let_def bind_eq_Some_conv split: option.splits dest!: take_answer_header)

lemma descriptor_header:
  assumes "FspFileSystemOpCreate_SetOpenDescriptor d rsp = Some rsp'"
  shows "header rsp' = header rsp"
proof -
  define Offset where "Offset = (of_nat (align8 (unat (Buf_Size (Opened_FileName rsp)))) :: u16)"
  define Size where "Size = (of_nat (length d) :: u16)"
  show ?thesis
    using assms unfolding FspFileSystemOpCreate_SetOpenDescriptor_def Let_def Offset_def [symmetric] Size_def [symmetric]
    by (auto simp: bind_eq_Some_conv header_def split: if_splits dest: buf_put_length)
qed

lemma set_opened_header [simp]: "header (set_opened fs info c g i rsp) = header rsp"
    "header (set_normalized_name n rsp) = header rsp"
  by (simp_all add: set_opened_def set_normalized_name_def header_def)

lemma finish_open_header:
  assumes "finish_open fs sd f info g answer st = Some (r, st')"
  shows "same_header st st'"
proof -
  obtain c i n where a: "answer = (c, i, n)" by (cases answer)
  note o = assms [unfolded finish_open_def a prod.case Let_def]
  obtain rsp where rsp: "(case sd of None \<Rightarrow> Some (set_normalized_name n (Op_Rsp st))
      | Some d \<Rightarrow> FspFileSystemOpCreate_SetOpenDescriptor (DescriptorBytes fs d) (set_normalized_name n (Op_Rsp st))) = Some rsp"
    using o by (auto simp: bind_eq_Some_conv)
  have "header rsp = header (set_normalized_name n (Op_Rsp st))"
    using rsp descriptor_header by (auto split: option.splits)
  then show ?thesis using o [unfolded rsp] by auto
qed

lemma create_descriptor_header: "FspCreateSecurityDescriptor fs parent st = (r, sd, st') \<Longrightarrow> same_header st st'"
  by (auto simp: FspCreateSecurityDescriptor_def Let_def split: if_splits sum.splits)

lemma create_file_header:
  assumes "create_file fs tr keep st = Some (r, st')"
  shows "same_header st st'"
proof -
  obtain r1 g1 parent st1 where k: "FspFileSystemCreateCheck fs tr st = Some (r1, g1, parent, st1)"
    using assms by (auto simp: create_file_def bind_eq_Some_conv)
  obtain r2 obj st2 where d: "FspCreateSecurityDescriptor fs parent st1 = (r2, obj, st2)" by (metis prod_cases3)
  have h: "same_header st st1" "same_header st1 st2"
    using create_check_header [OF k] create_descriptor_header [OF d] by simp_all
  then show ?thesis
    using assms unfolding create_file_def k bind.bind_lunit prod.case d Let_def
    by (auto simp: bind_eq_Some_conv split: if_splits dest!: call_header finish_open_header)
qed

text \<open>A check, and what follows it.\<close>

lemma after_check_header:
  assumes "do { (r, g, sd, st1) \<leftarrow> check; rest r g sd st1 } = Some (r', st')"
    and "\<And>y. check = Some y \<Longrightarrow> header (Op_Rsp (snd (snd (snd y)))) = header (Op_Rsp st)"
    and "\<And>r g sd st1. rest r g sd st1 = Some (r', st') \<Longrightarrow> same_header st1 st'"
  shows "same_header st st'"
proof -
  obtain r g sd st1 where c: "check = Some (r, g, sd, st1)" "rest r g sd st1 = Some (r', st')"
    using assms(1) by (auto simp: bind_eq_Some_conv)
  show ?thesis using assms(2) [OF c(1)] assms(3) [OF c(2)] by simp
qed

lemma after_open_header:
  assumes "do { (r, c, i, n, st1) \<leftarrow> call_open fs name options g st; rest r c i n st1 } = Some (r', st')"
    and "\<And>r c i n st1. rest r c i n st1 = Some (r', st') \<Longrightarrow> same_header st1 st'"
  shows "same_header st st'"
proof -
  obtain r c i n st1 where c: "call_open fs name options g st = Some (r, c, i, n, st1)" "rest r c i n st1 = Some (r', st')"
    using assms(1) by (auto simp: bind_eq_Some_conv)
  show ?thesis using call_header(1) [OF c(1)] assms(2) [OF c(2)] by simp
qed

lemma open_header:
  assumes "FspFileSystemOpCreate_FileOpen fs st = Some (r, st')"
  shows "same_header st st'"
proof (rule after_check_header [OF assms [unfolded FspFileSystemOpCreate_FileOpen_def Let_def]], goal_cases)
  case (1 y)
  then show ?case by (rule open_check_header)
next
  case (2 r1 g sd st1)
  then show ?case
    by (cases "\<not> NT_SUCCESS r1 \<or> r1 = STATUS_REPARSE")
      (auto elim!: after_open_header split: if_splits dest!: finish_open_header create_file_header)
qed

lemma open_if_header:
  assumes "FspFileSystemOpCreate_FileOpenIf fs st = Some (r, st')"
  shows "same_header st st'"
proof (rule after_check_header [OF assms [unfolded FspFileSystemOpCreate_FileOpenIf_def Let_def]], goal_cases)
  case (1 y)
  then show ?case by (rule open_check_header)
next
  case (2 r1 g sd st1)
  then show ?case
    by (cases "\<not> NT_SUCCESS r1 \<or> r1 = STATUS_REPARSE")
      (auto elim!: after_open_header split: if_splits dest!: finish_open_header create_file_header)
qed

lemma overwrite_header:
  assumes "FspFileSystemOpCreate_FileOverwrite fs st = Some (r, st')"
  shows "same_header st st'"
proof (rule after_check_header [OF assms [unfolded FspFileSystemOpCreate_FileOverwrite_def Let_def]], goal_cases)
  case (1 y)
  then show ?case by (rule overwrite_check_header)
next
  case (2 r1 g sd st1)
  then show ?case
    by (cases "\<not> NT_SUCCESS r1 \<or> r1 = STATUS_REPARSE")
      (auto elim!: after_open_header split: if_splits dest!: finish_open_header create_file_header)
qed

lemma overwrite_if_header:
  assumes "FspFileSystemOpCreate_FileOverwriteIf fs st = Some (r, st')"
  shows "same_header st st'"
proof (rule after_check_header [OF assms [unfolded FspFileSystemOpCreate_FileOverwriteIf_def Let_def]], goal_cases)
  case (1 y)
  then show ?case by (rule overwrite_check_header)
next
  case (2 r1 g sd st1)
  then show ?case
    by (cases "\<not> NT_SUCCESS r1 \<or> r1 = STATUS_REPARSE")
      (auto elim!: after_open_header split: if_splits dest!: finish_open_header create_file_header)
qed

lemma disposition_header: "by_disposition fs st = Some (r, st') \<Longrightarrow> same_header st st'"
  using create_file_header open_header open_if_header overwrite_header overwrite_if_header
  unfolding by_disposition_def FspFileSystemOpCreate_FileCreate_def
  by (auto split: if_splits)

lemma target_header:
  assumes "FspFileSystemOpCreate_FileOpenTargetDirectory fs st = Some (r, st')"
  shows "same_header st st'"
proof -
  obtain r1 g sd st1 where k: "FspFileSystemOpenTargetDirectoryCheck fs st = Some (r1, g, sd, st1)"
    using assms by (auto simp: FspFileSystemOpCreate_FileOpenTargetDirectory_def bind_eq_Some_conv)
  note c1 = assms [unfolded FspFileSystemOpCreate_FileOpenTargetDirectory_def k bind.bind_lunit prod.case]
  show ?thesis
  proof (cases "\<not> NT_SUCCESS r1 \<or> r1 = STATUS_REPARSE")
    case True
    then show ?thesis using c1 target_check_header [OF k] by simp
  next
    case False
    note c2 = c1 [unfolded if_not_P [OF False]]
    obtain Parent Suffix buf where p: "FspPathSuffix (Name_Buffer (Create_Req st1)) True = Some (Parent, Suffix, buf)"
      using c2 by (auto simp: bind_eq_Some_conv)
    note c3 = c2 [unfolded p bind.bind_lunit prod.case Let_def]
    obtain r2 c i n st3 where a: "call_open fs (if Parent = Root_path then [0x5c] else cstr buf 0)
        ((CreateOptions (Create_Req st1) OR FILE_DIRECTORY_FILE) AND NOT FILE_NON_DIRECTORY_FILE) g
        (st1\<lparr>Create_Req := (Create_Req st1)\<lparr>Name_Buffer := buf\<rparr>\<rparr>) = Some (r2, c, i, n, st3)"
      using c3 by (auto simp: bind_eq_Some_conv)
    define st4 where "st4 = st3\<lparr>Create_Req := (Create_Req st3)\<lparr>Name_Buffer := FspPathCombine (Name_Buffer (Create_Req st3)) Suffix\<rparr>\<rparr>"
    have h: "same_header st st4" using target_check_header [OF k] call_header(1) [OF a] by (simp add: st4_def)
    note c4 = c3 [unfolded a bind.bind_lunit prod.case, folded st4_def]
    show ?thesis
    proof (cases "NT_SUCCESS r2")
      case False
      then show ?thesis using c4 h by simp
    next
      case True
      then have n: "\<not> \<not> NT_SUCCESS r2" by simp
      obtain info st5 where five: "(if GetSecurityByName (Checks fs) \<noteq> None
          then let ((r, _), s) = GetAttributesByName fs (Op_Fs st4) (request_name st4)
            in (if NT_SUCCESS r then FILE_EXISTS else FILE_DOES_NOT_EXIST, st4\<lparr>Op_Fs := s\<rparr>)
          else (FILE_OPENED, st4)) = (info, st5)" by (rule prod.exhaust)
      have "same_header st4 st5" using five by (auto split: if_splits prod.splits)
      moreover have "finish_open fs None By_FspAccessCheckEx info g (c, i, n) st5 = Some (r, st')"
        using c4 [unfolded if_not_P [OF n] five [unfolded Let_def] prod.case] .
      ultimately show ?thesis using h finish_open_header by metis
    qed
  qed
qed

lemma resolve_last_header:
  assumes "do { i \<leftarrow> index; let (r, st) = FspFileSystemCallResolveReparsePoints fs i st;
      Some (if r \<noteq> STATUS_REPARSE then e else STATUS_REPARSE, st) } = Some (r, st')"
  shows "same_header st st'"
proof -
  obtain i where i: "index = Some i" using assms by (auto simp: bind_eq_Some_conv)
  obtain r1 st1 where c: "FspFileSystemCallResolveReparsePoints fs i st = (r1, st1)" by fastforce
  show ?thesis using assms resolve_header [OF c] by (auto simp: i c)
qed

lemma not_found_header:
  assumes "FspFileSystemOpCreate_NotFoundCheck fs st = Some (r, st')"
  shows "same_header st st'"
proof -
  let ?req = "Create_Req st"
  let ?i = "unat (NamedStream ?req) div 2"
  obtain q attr s where a: "GetAttributesByName fs (Op_Fs st) (cstr ((Name_Buffer ?req)[?i := 0]) 0) = ((q, attr), s)"
    by (metis prod.collapse)
  define st1 where "st1 = st\<lparr>Op_Fs := s, Create_Req := ?req\<lparr>Name_Buffer := (Name_Buffer ?req)[?i := 0, ?i := 0x3a]\<rparr>\<rparr>"
  have h: "same_header st st1" by (simp add: st1_def)
  note c = assms [unfolded FspFileSystemOpCreate_NotFoundCheck_def Let_def a prod.case, folded st1_def]
  show ?thesis
    using c h resolve_last_header [unfolded Let_def, where st = st1] by (auto split: if_splits)
qed

lemma collision_header:
  assumes "FspFileSystemOpCreate_CollisionCheck fs st = Some (r, st')"
  shows "same_header st st'"
proof -
  obtain q attr s where a: "GetAttributesByName fs (Op_Fs st) (request_name st) = ((q, attr), s)"
    by (metis prod.collapse)
  note c = assms [unfolded FspFileSystemOpCreate_CollisionCheck_def Let_def a prod.case]
  show ?thesis
    using c resolve_last_header [unfolded Let_def, where st = "st\<lparr>Op_Fs := s\<rparr>"]
    by (auto split: if_splits)
qed

lemma create_op_header:
  assumes "FspFileSystemOpCreate fs st = Some (r, st')"
  shows "same_header st st'"
proof (cases "Create fs = None \<and> CreateEx fs = None \<or> Open fs = None \<or>
    Overwrite (Interface fs) = None \<and> OverwriteEx (Interface fs) = None")
  case True
  then show ?thesis using assms by (auto simp: FspFileSystemOpCreate_def)
next
  case False
  show ?thesis
  proof (cases "OpenTargetDirectory (Create_Req st)")
    case True
    then show ?thesis
      using assms [unfolded FspFileSystemOpCreate_def if_not_P [OF False]] target_header by simp
  next
    case no: False
    obtain r1 st1 where d: "by_disposition fs st = Some (r1, st1)"
      using assms by (auto simp: create_op_eq [OF False no] bind_eq_Some_conv)
    show ?thesis
      using assms [unfolded create_op_eq [OF False no] d] disposition_header [OF d]
      by (auto split: if_splits dest!: not_found_header collision_header)
  qed
qed

lemma run_create_header:
  assumes "run_create fs req st = Some (r, st')"
  shows "same_header st st'"
proof -
  define cst where "cst = \<lparr>Op_Fs = Op_Fs st, Op_Mem = Op_Mem st, Op_Private = Op_Private st, Op_Rsp = Op_Rsp st, Create_Req = req\<rparr>"
  obtain st1 where c: "FspFileSystemOpCreate fs cst = Some (r, st1)" "Op_Rsp st' = Op_Rsp st1"
    using assms by (auto simp: run_create_def cst_def [symmetric] bind_eq_Some_conv)
  show ?thesis using create_op_header [OF c(1)] c(2) by (simp add: cst_def)
qed

lemma set_header [simp]:
  "header (Op_Rsp (set_file_info i st)) = header (Op_Rsp st)" "header (Op_Rsp (set_volume_info v st)) = header (Op_Rsp st)"
  "header (Op_Rsp (set_transferred n st)) = header (Op_Rsp st)" "header (Op_Rsp (set_buffer data st)) = header (Op_Rsp st)"
  "header (Op_Rsp (set_data k st)) = header (Op_Rsp st)"
  by (simp_all add: set_file_info_def set_volume_info_def set_transferred_def set_buffer_def set_data_def header_def)

lemma take_header [simp]:
  "header (Op_Rsp (snd (take_file_info a st))) = header (Op_Rsp st)"
  "header (Op_Rsp (snd (take_volume_info b st))) = header (Op_Rsp st)"
  "header (Op_Rsp (snd (take_data e c st))) = header (Op_Rsp st)"
  by (simp_all add: take_file_info_def take_volume_info_def take_data_def Let_def split: prod.split)

lemma operation_headers [simp]:
  "header (Op_Rsp (snd (FspFileSystemOpOverwrite fs c oreq st))) = header (Op_Rsp st)"
  "header (Op_Rsp (snd (FspFileSystemOpCleanup fs c creq st))) = header (Op_Rsp st)"
  "header (Op_Rsp (snd (FspFileSystemOpClose fs c st))) = header (Op_Rsp st)"
  "header (Op_Rsp (snd (FspFileSystemOpRead fs c ioreq st))) = header (Op_Rsp st)"
  "header (Op_Rsp (snd (FspFileSystemOpWrite fs c ioreq st))) = header (Op_Rsp st)"
  "header (Op_Rsp (snd (FspFileSystemOpQueryInformation fs c st))) = header (Op_Rsp st)"
  "header (Op_Rsp (snd (FspFileSystemOpQueryEa fs c st))) = header (Op_Rsp st)"
  "header (Op_Rsp (snd (FspFileSystemOpSetEa fs c ea st))) = header (Op_Rsp st)"
  "header (Op_Rsp (snd (FspFileSystemOpQueryVolumeInformation fs st))) = header (Op_Rsp st)"
  "header (Op_Rsp (snd (FspFileSystemOpSetVolumeInformation fs class label st))) = header (Op_Rsp st)"
  by (auto simp: FspFileSystemOpOverwrite_def FspFileSystemOpCleanup_def FspFileSystemOpClose_def FspFileSystemOpRead_def
      FspFileSystemOpWrite_def FspFileSystemOpQueryInformation_def FspFileSystemOpQueryEa_def FspFileSystemOpSetEa_def
      FspFileSystemOpQueryVolumeInformation_def FspFileSystemOpSetVolumeInformation_def Let_def
      split: option.split prod.split)

lemma control_headers [simp]:
  "header (Op_Rsp (snd (FspFileSystemOpFileSystemControl fs c req st))) = header (Op_Rsp st)"
  "header (Op_Rsp (snd (FspFileSystemOpDeviceControl fs c req st))) = header (Op_Rsp st)"
  "header (Op_Rsp (snd (FspFileSystemOpQuerySecurity fs c st))) = header (Op_Rsp st)"
  "header (Op_Rsp (snd (FspFileSystemOpSetSecurity fs c info sd st))) = header (Op_Rsp st)"
  "header (Op_Rsp (snd (FspFileSystemOpQueryStreamInformation fs c st))) = header (Op_Rsp st)"
  by (auto simp: FspFileSystemOpFileSystemControl_def FspFileSystemOpDeviceControl_def FspFileSystemOpQuerySecurity_def
      FspFileSystemOpSetSecurity_def FspFileSystemOpQueryStreamInformation_def Let_def split: option.split prod.split)

lemma rename_check_header: "FspFileSystemRenameCheck fs req st = Some (r, st') \<Longrightarrow> same_header st st'"
  by (auto simp: FspFileSystemRenameCheck_def Let_def bind_eq_Some_conv split: if_splits)

lemma rename_header: "set_rename fs ctx req st = Some (r, st') \<Longrightarrow> same_header st st'"
  by (auto simp: set_rename_def Let_def bind_eq_Some_conv split: option.splits if_splits prod.splits
      dest!: rename_check_header)

lemma set_information_header:
  assumes "FspFileSystemOpSetInformation fs c req st = Some (r, st')"
  shows "same_header st st'"
proof -
  have taken: "same_header st st1" if "take_file_info a st = (r, st1)" for a st1
    using take_header(1) [of a st] that by simp
  have renamed: "same_header st st1"
    if "set_rename fs ctx req st = Some (q, st2)" "take_file_info a st2 = (r, st1)" for ctx q a st2 st1
    using take_header(1) [of a st2] rename_header [OF that(1)] that(2) by simp
  show ?thesis
    using assms taken renamed unfolding FspFileSystemOpSetInformation_def Let_def
    by (auto simp: bind_eq_Some_conv split: if_splits)
qed

lemma flush_header: "FspFileSystemOpFlushBuffers fs c st = Some y \<Longrightarrow> header (Op_Rsp (snd y)) = header (Op_Rsp st)"
  by (auto simp: FspFileSystemOpFlushBuffers_def bind_eq_Some_conv)

lemma query_directory_header:
  "FspFileSystemOpQueryDirectory fs c req st = Some (r, memory, st') \<Longrightarrow> same_header st st'"
  by (auto simp: FspFileSystemOpQueryDirectory_def Let_def bind_eq_Some_conv split: option.splits if_splits)

lemma operation_header:
  assumes "run_operation fs r st = Some (status, st')"
  shows "same_header st st'"
proof (cases r)
  case (Create_Request req)
  then show ?thesis using assms run_create_header by simp
next
  case (SetInformation_Request c req)
  then show ?thesis using assms set_information_header by simp
next
  case (FlushBuffers_Request c)
  then show ?thesis using assms flush_header by fastforce
next
  case (QueryDirectory_Request c req)
  then show ?thesis using assms by (auto simp: bind_eq_Some_conv dest!: query_directory_header)
qed (use assms in \<open>auto dest!: arg_cong [of _ "(status, st')" "\<lambda>y. header (Op_Rsp (snd y))"]\<close>)

section \<open>Finishing a response\<close>

lemma begin_header [simp]: "header (begin_response hint r rsp) = (hint, request_kind r, length (Rsp_Buffer rsp))"
    "Rsp_Size (begin_response hint r rsp) = of_nat RSP_HEADER"
  by (simp_all add: begin_response_def header_def clear_response_def)

lemma clear_header [simp]: "Rsp_Size (clear_response rsp) = 0" "Rsp_Buffer (clear_response rsp) = Rsp_Buffer rsp"
  by (simp_all add: clear_response_def)

lemma header_status [simp]: "header (rsp\<lparr>Status := s\<rparr>) = header rsp" "header (rsp\<lparr>Rsp_Size := n\<rparr>) = header rsp"
  by (simp_all add: header_def)

text \<open>A response that can be sent, or is not sent at all.\<close>

definition sendable :: "response \<Rightarrow> bool" where
  "sendable rsp \<longleftrightarrow> length (Rsp_Buffer rsp) = RSP_BUFFER_SIZEMAX \<and> 8 dvd unat (Rsp_Size rsp) \<and>
     (Rsp_Size rsp = 0 \<or> RSP_HEADER \<le> unat (Rsp_Size rsp) \<and> unat (Rsp_Size rsp) \<le> RSP_SIZEMAX)"

lemma sendable_clear: "length (Rsp_Buffer rsp) = RSP_BUFFER_SIZEMAX \<Longrightarrow> sendable (clear_response rsp)"
  by (simp add: sendable_def)

text \<open>The response that is sent is the operation's, padded.\<close>

definition answer_padded :: "response \<Rightarrow> response \<Rightarrow> bool" where
  "answer_padded rsp rsp' \<longleftrightarrow>
     rsp' = rsp\<lparr>Rsp_Size := of_nat (align8 (unat (Rsp_Size rsp))), Rsp_Buffer := Rsp_Buffer rsp'\<rparr> \<and>
     take (unat (Rsp_Size rsp) - RSP_HEADER) (Rsp_Buffer rsp') = take (unat (Rsp_Size rsp) - RSP_HEADER) (Rsp_Buffer rsp)"

lemma finish_response_ok:
  assumes f: "finish_response hint r rsp = Some rsp'" and h: "header rsp = (hint, request_kind r, RSP_BUFFER_SIZEMAX)"
  shows "sendable rsp' \<and> (Rsp_Size rsp' \<noteq> 0 \<longrightarrow> (Rsp_Hint rsp', Rsp_Kind rsp') = ticket hint r)
    \<and> (Rsp_Size rsp' = 0 \<longleftrightarrow> Status rsp = STATUS_PENDING \<and> align8 (unat (Rsp_Size rsp)) \<le> RSP_SIZEMAX)
    \<and> (align8 (unat (Rsp_Size rsp)) \<le> RSP_SIZEMAX \<and> Status rsp \<noteq> STATUS_PENDING \<longrightarrow> answer_padded rsp rsp')"
proof -
  define n where "n = unat (Rsp_Size rsp)"
  have e: "finish_response hint r rsp = (if RSP_SIZEMAX < align8 n
      then Some ((begin_response hint r rsp)\<lparr>Status := STATUS_INVALID_DEVICE_REQUEST\<rparr>)
      else if Status rsp = STATUS_PENDING then Some (clear_response rsp)
      else if n < RSP_HEADER then None
      else do {
        buf \<leftarrow> buf_put (Rsp_Buffer rsp) (n - RSP_HEADER) (replicate (align8 n - n) 0);
        Some (rsp\<lparr>Rsp_Size := of_nat (align8 n), Rsp_Buffer := buf\<rparr>) })"
    by (simp add: finish_response_def Let_def n_def)
  have len: "length (Rsp_Buffer rsp) = RSP_BUFFER_SIZEMAX" using h by (simp add: header_def)
  consider "RSP_SIZEMAX < align8 n" | "align8 n \<le> RSP_SIZEMAX" "Status rsp = STATUS_PENDING"
    | "align8 n \<le> RSP_SIZEMAX" "Status rsp \<noteq> STATUS_PENDING" by linarith
  then show ?thesis
  proof cases
    case 1
    then have "rsp' = (begin_response hint r rsp)\<lparr>Status := STATUS_INVALID_DEVICE_REQUEST\<rparr>" using f by (simp add: e)
    then show ?thesis using len 1 by (simp add: sendable_def begin_response_def clear_response_def ticket_def n_def)
  next
    case 2
    then have "rsp' = clear_response rsp" using f by (simp add: e)
    then show ?thesis using sendable_clear [OF len] 2 by (simp add: n_def)
  next
    case 3
    then obtain buf where b: "buf_put (Rsp_Buffer rsp) (n - RSP_HEADER) (replicate (align8 n - n) 0) = Some buf"
        "rsp' = rsp\<lparr>Rsp_Size := of_nat (align8 n), Rsp_Buffer := buf\<rparr>" "RSP_HEADER \<le> n"
      using f by (auto simp: e bind_eq_Some_conv not_less split: if_splits)
    have u: "unat (of_nat (align8 n) :: u16) = align8 n"
      unfolding unat_of_nat by (intro mod_less) (use 3(1) in simp)
    have "RSP_HEADER \<le> align8 n" "8 dvd align8 n" using b(3) align8_bounds(1) [of n] by (simp_all add: align8_def)
    moreover from this(1) u have "(of_nat (align8 n) :: u16) \<noteq> 0" by (metis not_numeral_le_zero unat_0)
    moreover have "take (n - RSP_HEADER) buf = take (n - RSP_HEADER) (Rsp_Buffer rsp)"
      using b(1) by (auto simp: buf_put_def split: if_splits)
    then have "answer_padded rsp rsp'" unfolding b(2) answer_padded_def n_def by simp
    ultimately show ?thesis
      using h u 3 buf_put_length [OF b(1)] unfolding b(2) sendable_def by (simp add: header_def ticket_def)
  qed
qed

section \<open>Sums over the threads\<close>

lemma sum_update:
  fixes g :: "'a \<Rightarrow> 'b multiset"
  assumes "i < length xs"
  shows "sum_list (map g (xs[i := y])) + g (xs ! i) = sum_list (map g xs) + g y"
  using assms
proof (induction xs arbitrary: i)
  case (Cons x xs)
  show ?case
  proof (cases i)
    case (Suc k)
    then have "sum_list (map g (xs[k := y])) + g (xs ! k) = sum_list (map g xs) + g y"
      using Cons.IH [of k] Cons.prems by simp
    then show ?thesis using Suc by (simp add: add.assoc)
  qed (simp add: add.commute add.left_commute)
qed simp

lemma sum_split:
  fixes g :: "'a \<Rightarrow> 'b multiset"
  assumes "i < length xs"
  shows "\<exists>rest. sum_list (map g xs) = g (xs ! i) + rest"
  using assms
proof (induction xs arbitrary: i)
  case (Cons x xs)
  show ?case
  proof (cases i)
    case (Suc k)
    then obtain rest where "sum_list (map g xs) = g (xs ! k) + rest" using Cons by auto
    then show ?thesis using Suc by (intro exI [of _ "g x + rest"]) (simp add: ac_simps)
  qed auto
qed simp

lemma sum_split2:
  fixes g :: "'a \<Rightarrow> 'b multiset"
  assumes "i < length xs" "j < length xs" "i \<noteq> j"
  shows "\<exists>rest. sum_list (map g xs) = g (xs ! i) + (g (xs ! j) + rest)"
  using assms
proof (induction xs arbitrary: i j)
  case (Cons x xs)
  show ?case
  proof (cases i)
    case 0
    then obtain k where "j = Suc k" "k < length xs" using Cons.prems by (cases j) auto
    then show ?thesis using 0 sum_split [of k xs g] by auto
  next
    case (Suc k)
    show ?thesis
    proof (cases j)
      case 0
      then show ?thesis using Suc sum_split [of k xs g] Cons.prems by (auto simp: ac_simps)
    next
      case (Suc l)
      then obtain rest where "sum_list (map g xs) = g (xs ! k) + (g (xs ! l) + rest)"
        using Cons.IH [of k l] Cons.prems \<open>i = Suc k\<close> by auto
      then show ?thesis using Suc \<open>i = Suc k\<close> by (intro exI [of _ "g x + rest"]) (simp add: ac_simps)
    qed
  qed
qed simp

section \<open>The invariant\<close>

text \<open>The request that a thread has in hand, or the response that it will send next.\<close>

fun outstanding :: "thread \<Rightarrow> ticket multiset" where
  "outstanding (Transact, rsp) = sent rsp"
| "outstanding (Received hint r, rsp) = {#ticket hint r#}"
| "outstanding (Entered hint r, rsp) = {#ticket hint r#}"
| "outstanding (Ran hint r, rsp) = {#ticket hint r#}"

text \<open>The operation that a thread has entered and not left.\<close>

fun in_flight :: "thread \<Rightarrow> request multiset" where
  "in_flight (Entered hint r, rsp) = {#r#}"
| "in_flight (Ran hint r, rsp) = {#r#}"
| "in_flight _ = {#}"

fun thread_ok :: "thread \<Rightarrow> bool" where
  "thread_ok (Transact, rsp) \<longleftrightarrow> sendable rsp"
| "thread_ok (Received hint r, rsp) \<longleftrightarrow> header rsp = (hint, request_kind r, RSP_BUFFER_SIZEMAX)"
| "thread_ok (Entered hint r, rsp) \<longleftrightarrow> header rsp = (hint, request_kind r, RSP_BUFFER_SIZEMAX)"
| "thread_ok (Ran hint r, rsp) \<longleftrightarrow> header rsp = (hint, request_kind r, RSP_BUFFER_SIZEMAX)"

definition all_outstanding :: "'s dispatcher \<Rightarrow> ticket multiset" where
  "all_outstanding d = sum_list (map outstanding (D_Threads d))"

definition all_in_flight :: "'s dispatcher \<Rightarrow> request multiset" where
  "all_in_flight d = sum_list (map in_flight (D_Threads d))"

definition dispatch_inv :: "guard_functions \<Rightarrow> guard_strategy \<Rightarrow> 's dispatcher \<Rightarrow> bool" where
  "dispatch_inv f strategy d \<longleftrightarrow>
     srw.guarded (guard_of f strategy) (D_Lock d) (all_in_flight d) \<and>
     D_Received d = D_Sent d + D_Pended d + all_outstanding d \<and>
     (\<forall>t\<in>set (D_Threads d). thread_ok t)"

lemma threads_ok_update:
  "\<forall>t\<in>set ts. thread_ok t \<Longrightarrow> thread_ok t' \<Longrightarrow> \<forall>t\<in>set (ts[i := t']). thread_ok t"
  using set_update_subset_insert [of ts i t'] by auto

text \<open>The sums after thread \<open>i\<close> has moved.\<close>

lemma moved:
  assumes "i < length (D_Threads d)" "D_Threads d ! i = t"
  shows "all_in_flight (d\<lparr>D_Threads := (D_Threads d)[i := t']\<rparr>) + in_flight t = all_in_flight d + in_flight t'"
    "all_outstanding (d\<lparr>D_Threads := (D_Threads d)[i := t']\<rparr>) + outstanding t = all_outstanding d + outstanding t'"
  using sum_update [OF assms(1), of in_flight t'] sum_update [OF assms(1), of outstanding t'] assms(2)
  by (simp_all add: all_in_flight_def all_outstanding_def)

lemma sums_other [simp]:
  "all_in_flight (d\<lparr>D_Sent := a\<rparr>) = all_in_flight d" "all_in_flight (d\<lparr>D_Received := a\<rparr>) = all_in_flight d"
  "all_in_flight (d\<lparr>D_Pended := a\<rparr>) = all_in_flight d" "all_in_flight (d\<lparr>D_Lock := l\<rparr>) = all_in_flight d"
  "all_in_flight (d\<lparr>D_Fs := s\<rparr>) = all_in_flight d" "all_in_flight (d\<lparr>D_Mem := m\<rparr>) = all_in_flight d"
  "all_in_flight (d\<lparr>D_Private := m\<rparr>) = all_in_flight d"
  "all_outstanding (d\<lparr>D_Sent := a\<rparr>) = all_outstanding d" "all_outstanding (d\<lparr>D_Received := a\<rparr>) = all_outstanding d"
  "all_outstanding (d\<lparr>D_Pended := a\<rparr>) = all_outstanding d" "all_outstanding (d\<lparr>D_Lock := l\<rparr>) = all_outstanding d"
  "all_outstanding (d\<lparr>D_Fs := s\<rparr>) = all_outstanding d" "all_outstanding (d\<lparr>D_Mem := m\<rparr>) = all_outstanding d"
  "all_outstanding (d\<lparr>D_Private := m\<rparr>) = all_outstanding d"
  by (simp_all add: all_in_flight_def all_outstanding_def)

lemma balance:
  fixes R :: "'a multiset"
  assumes "R' + (S + P + a) = R + (S' + P' + b)" "X' + a = X + b" "R = S + P + X"
  shows "R' = S' + P' + X'"
proof -
  have "S + P + (R' + a) = S + P + (S' + P' + (X + b))"
    using assms(1) unfolding assms(3) by (simp only: add.assoc add.commute add.left_commute)
  then have "R' + a = S' + P' + X' + a" unfolding assms(2) [symmetric] by (simp add: add.assoc)
  then show ?thesis by simp
qed

text \<open>A step of thread \<open>i\<close>, told by what it does to the sums.\<close>

lemma dispatch_inv_moved:
  assumes inv: "dispatch_inv f strategy d" and i: "i < length (D_Threads d)" "D_Threads d ! i = t"
    and threads: "D_Threads d' = (D_Threads d)[i := t']" and ok: "thread_ok t \<Longrightarrow> thread_ok t'"
    and guarded: "srw.guarded (guard_of f strategy) (D_Lock d) (all_in_flight d) \<Longrightarrow>
      srw.guarded (guard_of f strategy) (D_Lock d') (all_in_flight d')"
    and tickets: "D_Received d' + (D_Sent d + D_Pended d + outstanding t) =
      D_Received d + (D_Sent d' + D_Pended d' + outstanding t')"
  shows "dispatch_inv f strategy d'"
proof -
  have "thread_ok t" using inv i by (metis dispatch_inv_def nth_mem)
  then have "\<forall>t\<in>set (D_Threads d'). thread_ok t"
    unfolding threads by (intro threads_ok_update) (use inv ok in \<open>auto simp: dispatch_inv_def\<close>)
  moreover have "all_outstanding d' + outstanding t = all_outstanding d + outstanding t'"
    using moved(2) [OF i, of t'] by (simp add: all_outstanding_def threads)
  then have "D_Received d' = D_Sent d' + D_Pended d' + all_outstanding d'"
    using balance [OF tickets] inv by (simp add: dispatch_inv_def)
  ultimately show ?thesis using inv guarded by (simp add: dispatch_inv_def)
qed

lemma dispatch_inv_step:
  assumes "dispatch_step fs f strategy admit d d'" "dispatch_inv f strategy d"
  shows "dispatch_inv f strategy d'"
  using assms(1)
proof cases
  case (transact i rsp hint r)
  show ?thesis
    by (rule dispatch_inv_moved [OF assms(2) transact(2,3), where t' = "(Received hint r, begin_response hint r rsp)"])
      (use moved(1) [OF transact(2,3), of "(Received hint r, begin_response hint r rsp)"] in
        \<open>simp_all add: transact(1) sendable_def\<close>)
next
  case (transact_nothing i rsp)
  show ?thesis
    by (rule dispatch_inv_moved [OF assms(2) transact_nothing(2,3), where t' = "(Transact, clear_response rsp)"])
      (use moved(1) [OF transact_nothing(2,3), of "(Transact, clear_response rsp)"] in
        \<open>simp_all add: transact_nothing(1) sendable_def sent_def\<close>)
next
  case (reject i hint r rsp status rsp')
  have ok: "thread_ok (Received hint r, rsp)" using assms(2) reject(2,3) by (metis dispatch_inv_def nth_mem)
  note f = finish_response_ok [OF reject(6)]
  have "Status (rsp\<lparr>Status := status\<rparr>) \<noteq> STATUS_PENDING" using reject(5) by (auto simp: NT_SUCCESS_def)
  then have "Rsp_Size rsp' \<noteq> 0" using f ok by simp
  then show ?thesis
    by (intro dispatch_inv_moved [OF assms(2) reject(2,3), where t' = "(Transact, rsp')"])
      (use moved(1) [OF reject(2,3), of "(Transact, rsp')"] f ok in \<open>simp_all add: reject(1) sent_def\<close>)
next
  case (enter i hint r rsp l)
  have m: "all_in_flight d' = add_mset r (all_in_flight d)"
    using moved(1) [OF enter(2,3), of "(Entered hint r, rsp\<lparr>Status := admit r\<rparr>)"] by (simp add: enter(1))
  show ?thesis
    by (rule dispatch_inv_moved [OF assms(2) enter(2,3), where t' = "(Entered hint r, rsp\<lparr>Status := admit r\<rparr>)"])
      (use m enter(6) srw.guarded_enter in \<open>simp_all add: enter(1) op_enter_leave\<close>)
next
  case (run i hint r rsp status st)
  show ?thesis
    by (rule dispatch_inv_moved [OF assms(2) run(2,3), where t' = "(Ran hint r, (Op_Rsp st)\<lparr>Status := status\<rparr>)"])
      (use moved(1) [OF run(2,3), of "(Ran hint r, (Op_Rsp st)\<lparr>Status := status\<rparr>)"] operation_header [OF run(4)] in
        \<open>simp_all add: run(1) op_state_of_def\<close>)
next
  case (leave i hint r rsp l rsp')
  have ok: "thread_ok (Ran hint r, rsp)" using assms(2) leave(2,3) by (metis dispatch_inv_def nth_mem)
  note f = finish_response_ok [OF leave(5)]
  have m: "all_in_flight d = add_mset r (all_in_flight d')"
    using moved(1) [OF leave(2,3), of "(Transact, rsp')"] by (simp add: leave(1))
  show ?thesis
    by (rule dispatch_inv_moved [OF assms(2) leave(2,3), where t' = "(Transact, rsp')"])
      (use m leave(4) srw.guarded_leave [of "guard_of f strategy" "D_Lock d" r "all_in_flight d'"] f ok in
        \<open>auto simp: leave(1) op_enter_leave sent_def pended_def\<close>)
qed

end
