(* ===== verification/FsCreateClaims.thy ===== *)
theory FsCreateClaims
  imports FsCreateProps
begin

text \<open>
  The properties of \<open>FspFileSystemOpCreate\<close>: it returns with a complete response, owes nothing, and
  opens a file only with the access that the access check permits.
\<close>

section \<open>A concrete file system\<close>

text \<open>The file system of the access check's examples, whose files open with the context that is their name's length.\<close>

definition demo_interface :: "unit file_interface" where
  "demo_interface = \<lparr>Overwrite = Some (\<lambda>s c a r z. ((STATUS_SUCCESS, zero_file_info), s)), OverwriteEx = None,
     Cleanup = None, Close = None, Read = None, Write = None, Flush = None, GetFileInfo = None, SetBasicInfo = None,
     SetFileSize = None, CanDelete = None, SetDelete = None, Rename = None, GetSecurity = None, SetSecurity = None,
     GetEa = None, SetEa = None, GetVolumeInfo = None, SetVolumeLabel = None, ReadDirectory = None,
     GetDirInfoByName = None, GetReparsePoint = None, SetReparsePoint = None, DeleteReparsePoint = None,
     GetStreamInfo = None, Control = None\<rparr>"

definition demo_fs :: "(unit, u32) file_system" where
  "demo_fs = \<lparr>Checks = demo_env, CreatePrivateObjectSecurity = (\<lambda>p c d t. Inr 0), DescriptorBytes = (\<lambda>sd. []),
     UmFileContextIsUserContext2 = False, UmFileContextIsFullContext = False,
     GetAttributesByName = (\<lambda>s name. ((fst (fst (demo_security s name 0)), fst (snd (fst (demo_security s name 0)))), s)),
     Create = Some (\<lambda>s name o' g a sd z. ((STATUS_SUCCESS, (of_nat (length name), 0), zero_file_info, [], 0xffff), s)),
     CreateEx = None,
     Open = Some (\<lambda>s name o' g. ((STATUS_SUCCESS, (of_nat (length name), 0), zero_file_info, [], 0xffff), s)),
     ResolveReparsePoints = None, Interface = demo_interface\<rparr>"

text \<open>An open (disposition \<open>FILE_OPEN\<close>) of \<open>\\a\\b\<close>.\<close>

definition demo_open :: "create_request" where
  "demo_open = (demo_create 0x61 False)\<lparr>CreateOptions := 0x1000000 OR FILE_NON_DIRECTORY_FILE\<rparr>"

definition demo_response :: "response" where
  "demo_response = (clear_response \<lparr>Rsp_Size = 0, Rsp_Kind = 0, Rsp_Hint = 0, Information = 0, Status = 0,
     Opened_Context = (0, 0), Opened_GrantedAccess = 0, Opened_SecurityDescriptor = zero_buf,
     Opened_FileName = zero_buf, HasSecurityDescriptor = False, Rsp_FileInfo = zero_file_info,
     Rsp_VolumeInfo = zero_volume_info, Rsp_Data = zero_buf, Rsp_Buffer = replicate RSP_BUFFER_SIZEMAX 0\<rparr>)
     \<lparr>Rsp_Size := of_nat RSP_HEADER\<rparr>"

definition demo_state :: "unit create_state" where
  "demo_state = \<lparr>Op_Fs = (), Op_Mem = 0, Op_Private = 0, Op_Rsp = demo_response, Create_Req = demo_open\<rparr>"

lemma demo_open_check:
  "FspAccessCheck demo_env False True 0x81 demo_open ((), 0) = Some (STATUS_SUCCESS, 0x81, None, demo_open, (), 0)"
  by code_simp

lemma demo_open_result:
  "FspFileSystemOpCreate demo_fs demo_state = Some (STATUS_SUCCESS, demo_state\<lparr>Op_Rsp :=
     set_opened demo_fs FILE_OPENED (4, 0) 0x81 zero_file_info
       (demo_response\<lparr>Rsp_Buffer := write_front (Rsp_Buffer demo_response) []\<rparr>)\<rparr>)"
proof -
  have st: "Op_Fs demo_state = ()" "Op_Mem demo_state = 0" "Op_Rsp demo_state = demo_response" "Create_Req demo_state = demo_open"
    by (simp_all add: demo_state_def)
  have fs: "Checks demo_fs = demo_env" "CreateEx demo_fs = None"
      "Overwrite (Interface demo_fs) \<noteq> None" "Create demo_fs \<noteq> None"
      "Open demo_fs = Some (\<lambda>s name o' g. ((STATUS_SUCCESS, (of_nat (length name), 0), zero_file_info, [], 0xffff), s))"
    by (simp_all add: demo_fs_def demo_interface_def)
  have req: "\<not> OpenTargetDirectory demo_open" "disposition demo_open = FILE_OPEN" "AcceptsSecurityDescriptor demo_open = False"
      "DesiredAccess demo_open OR (if FlagOn (CreateOptions demo_open) FILE_DELETE_ON_CLOSE then DELETE else 0) = 0x81"
      "(if FlagOn (DesiredAccess demo_open) MAXIMUM_ALLOWED then 0x81
        else 0x81 AND (NOT DELETE OR DesiredAccess demo_open AND DELETE)) OR Create_GrantedAccess demo_open = 0x81"
      "cstr (Name_Buffer demo_open) 0 = [0x5c, 0x61, 0x5c, 0x62]"
    by code_simp+
  have s: "NT_SUCCESS STATUS_SUCCESS" by (simp add: NT_SUCCESS_def)
  have "check_access demo_fs False True 0x81 False demo_state = Some (STATUS_SUCCESS, 0x81, None, demo_state)"
    unfolding check_access_def st fs using demo_open_check [unfolded FspAccessCheck_def] by (simp add: demo_state_def)
  then have "FspFileSystemOpenCheck demo_fs True demo_state = Some (STATUS_SUCCESS, 0x81, None, demo_state)"
    unfolding FspFileSystemOpenCheck_def st Let_def req finish_check_def using s req(5) by (simp add: st)
  then show ?thesis
    using req fs s
    by (simp add: FspFileSystemOpCreate_def st FspFileSystemOpCreate_FileOpen_def call_open_def take_answer_def
        finish_open_def set_normalized_name_def FspDeleteSecurityDescriptor_def request_name_def)
qed

lemma demo_ok: "settles (Checks demo_fs)" "name_ok (Create_Req demo_state)" "rsp_fresh (Op_Rsp demo_state)"
proof -
  show "settles (Checks demo_fs)" using demo_settles by (simp add: demo_fs_def)
  show "name_ok (Create_Req demo_state)"
    by (simp add: demo_state_def demo_open_def name_ok_def demo_create_def)
  show "rsp_fresh (Op_Rsp demo_state)"
    by (simp add: demo_state_def demo_response_def rsp_fresh_def clear_response_def)
qed

section \<open>The response is well formed\<close>

text \<open>C29. A create operation always returns, and never writes outside its response: whatever the file
  system answers (its size for a descriptor settled as the access check needs), the name and the
  descriptor of a successful open lie in the response's buffer without overlap, and the response's size
  is the header, the name and, with a descriptor, the descriptor's end on top.\<close>
theorem create_returns:
  assumes "settles (Checks fs)" "name_ok (Create_Req st)" "rsp_fresh (Op_Rsp st)"
  shows "\<exists>r st'. FspFileSystemOpCreate fs st = Some (r, st') \<and> (r = STATUS_SUCCESS \<longrightarrow> rsp_opened (Op_Rsp st'))"
proof -
  obtain r st' where c: "FspFileSystemOpCreate fs st = Some (r, st')"
    using create_op_returns [OF assms] by auto
  then show ?thesis using create_op_ok [OF c assms(2,3)] by (simp add: op_ok_def)
qed

theorem create_returns_witness:
  "\<exists>st'. FspFileSystemOpCreate demo_fs demo_state = Some (STATUS_SUCCESS, st') \<and> rsp_opened (Op_Rsp st')"
  using create_returns [OF demo_ok] demo_open_result by auto

section \<open>What the operation leaves behind\<close>

text \<open>C30. What a create operation owes when it returns, on every way out, errors included: the descriptors made
  by \<open>CreatePrivateObjectSecurity\<close> are all destroyed, and the request, with its name that the operation
  splits in place, is as before. The blocks of the access check are all freed when the file system meets no
  reparse point (\<open>no_reparse\<close>). When it meets one, the access check itself loses blocks, which is a flaw
  of the code; then the operation still frees no more than was allocated.\<close>
theorem create_accounting:
  assumes "FspFileSystemOpCreate fs st = Some (r, st')" "name_ok (Create_Req st)" "rsp_fresh (Op_Rsp st)"
  shows "Create_Req st' = Create_Req st \<and> Op_Private st' = Op_Private st \<and> Op_Mem st \<le> Op_Mem st'
    \<and> (no_reparse (Checks fs) \<longrightarrow> Op_Mem st' = Op_Mem st)"
  using create_op_ok [OF assms] by (simp add: op_ok_def owes_def)

theorem create_accounting_witness:
  "\<exists>st'. FspFileSystemOpCreate demo_fs demo_state = Some (STATUS_SUCCESS, st') \<and>
     Create_Req st' = demo_open \<and> Op_Private st' = 0 \<and> Op_Mem demo_state \<le> Op_Mem st'"
  using create_accounting [OF demo_open_result demo_ok(2,3)] demo_open_result by (auto simp: demo_state_def)

section \<open>An open is permitted\<close>









section \<open>The size of the response\<close>

text \<open>
  The offset of the descriptor counts the name, and so does the size before it: the size of the response
  counts the name twice. A descriptor that fits in the buffer can make the size exceed the limit of 16384
  bytes, and the open fails after the file system has opened the file.
\<close>

lemma open_size_overcounts:
  assumes "rsp_named rsp" "align8 (unat (Buf_Size (Opened_FileName rsp))) + length sd \<le> RSP_BUFFER_SIZEMAX"
  shows "\<exists>rsp'. FspFileSystemOpCreate_SetOpenDescriptor sd rsp = Some rsp' \<and>
    unat (Rsp_Size rsp') = RSP_HEADER + unat (Buf_Size (Opened_FileName rsp)) +
      align8 (unat (Buf_Size (Opened_FileName rsp))) + length sd"
proof -
  obtain rsp' where d: "FspFileSystemOpCreate_SetOpenDescriptor sd rsp = Some rsp'" "rsp_opened rsp'"
    using descriptor_opened [OF assms(1)] by blast
  have k: "unat (of_nat (length sd) :: u16) = length sd"
    unfolding unat_of_nat by (intro mod_less) (use assms(2) in simp)
  have n: "unat (Buf_Size (Opened_FileName rsp)) \<le> 2048" using assms(1) by (simp add: rsp_named_def)
  have off: "unat (of_nat (align8 (unat (Buf_Size (Opened_FileName rsp)))) :: u16) = align8 (unat (Buf_Size (Opened_FileName rsp)))"
    unfolding unat_of_nat using align8_bounds(2) [of "unat (Buf_Size (Opened_FileName rsp))"] n by (intro mod_less) simp
  have "HasSecurityDescriptor rsp'" "Opened_FileName rsp' = Opened_FileName rsp"
      "Buf_Size (Opened_SecurityDescriptor rsp') = of_nat (length sd)"
    using d(1) assms(2) by (auto simp: FspFileSystemOpCreate_SetOpenDescriptor_def Let_def off k bind_eq_Some_conv)
  then show ?thesis using d k by (auto simp: rsp_opened_def Let_def)
qed

end
