(* ===== verification/DispatchClaims.thy ===== *)
theory DispatchClaims
  imports DispatchProps FsCreateClaims
begin

text \<open>The property of the whole dispatcher, with an example of its steps.\<close>

lemma dispatch_reachable_inv:
  assumes "dispatch_reachable fs f strategy admit d"
  shows "dispatch_inv f strategy d"
proof -
  obtain n rsp s d0 where d0: "fresh_dispatcher n rsp s d0" "length (Rsp_Buffer rsp) = RSP_BUFFER_SIZEMAX"
      "(dispatch_step fs f strategy admit)\<^sup>*\<^sup>* d0 d"
    using assms by (auto simp: dispatch_reachable_def)
  have "sum_list (map in_flight (replicate n (Transact, clear_response rsp))) = {#}"
      "sum_list (map outstanding (replicate n (Transact, clear_response rsp))) = {#}"
    by (induction n) (simp_all add: sent_def)
  then have inv0: "dispatch_inv f strategy d0"
    using d0(1,2) srw.guarded_fresh
    by (simp add: fresh_dispatcher_def dispatch_inv_def all_in_flight_def all_outstanding_def sendable_clear)
  from d0(3) show ?thesis by (induction rule: rtranclp_induct) (auto intro: inv0 dispatch_inv_step)
qed

lemma in_flight_single: "r \<in># in_flight t \<Longrightarrow> in_flight t = {#r#}"
  by (induction t rule: in_flight.induct) auto

text \<open>C32. Whatever steps the threads of the dispatcher take, in whatever order, with the guard of the library
  or that of the FUSE layer: every request that came from the driver, told by its hint and kind, has been
  answered exactly once, or its operation returned \<open>STATUS_PENDING\<close> and the file system keeps it, or exactly one
  thread has it in hand; a response is withheld only for \<open>STATUS_PENDING\<close>, and any other that is not too long is
  sent as the operation made it, padded; a response that is sent has a size between its header and 16384 bytes, a
  multiple of 8; two threads are never inside operations of which one changes the names of the file system and the
  other changes or reads them; and no thread is ever stuck leaving the guard.\<close>
theorem dispatcher_answers:
  assumes "dispatch_reachable fs f strategy admit d"
  shows "D_Received d = D_Sent d + D_Pended d + all_outstanding d
    \<and> (\<forall>i rsp. i < length (D_Threads d) \<longrightarrow> D_Threads d ! i = (Transact, rsp) \<longrightarrow> sendable rsp)
    \<and> (\<forall>i j r r'. i < length (D_Threads d) \<longrightarrow> j < length (D_Threads d) \<longrightarrow> i \<noteq> j \<longrightarrow> strategy \<noteq> Other_strategy \<longrightarrow>
        r \<in># in_flight (D_Threads d ! i) \<longrightarrow> r' \<in># in_flight (D_Threads d ! j) \<longrightarrow> changes_names f r \<longrightarrow>
        \<not> changes_names f r' \<and> \<not> reads_names f r')
    \<and> (\<forall>i hint r rsp. i < length (D_Threads d) \<longrightarrow> D_Threads d ! i = (Ran hint r, rsp) \<longrightarrow>
        op_leave f strategy r (D_Lock d) \<noteq> None)
    \<and> (\<forall>i hint r rsp rsp'. i < length (D_Threads d) \<longrightarrow> D_Threads d ! i = (Ran hint r, rsp) \<longrightarrow>
        finish_response hint r rsp = Some rsp' \<longrightarrow>
        (Rsp_Size rsp' = 0 \<longleftrightarrow> Status rsp = STATUS_PENDING \<and> align8 (unat (Rsp_Size rsp)) \<le> RSP_SIZEMAX) \<and>
        (align8 (unat (Rsp_Size rsp)) \<le> RSP_SIZEMAX \<and> Status rsp \<noteq> STATUS_PENDING \<longrightarrow> answer_padded rsp rsp'))"
proof (intro conjI allI impI)
  note inv = dispatch_reachable_inv [OF assms]
  show "D_Received d = D_Sent d + D_Pended d + all_outstanding d" using inv by (simp add: dispatch_inv_def)
  show "sendable rsp" if "i < length (D_Threads d)" "D_Threads d ! i = (Transact, rsp)" for i rsp
    using inv that nth_mem [OF that(1)] by (force simp: dispatch_inv_def)
next
  fix i j r r'
  note g = dispatch_reachable_inv [OF assms, unfolded dispatch_inv_def, THEN conjunct1]
  assume ij: "i < length (D_Threads d)" "j < length (D_Threads d)" "i \<noteq> j" and s: "strategy \<noteq> Other_strategy"
    and r: "r \<in># in_flight (D_Threads d ! i)" "r' \<in># in_flight (D_Threads d ! j)" and c: "changes_names f r"
  obtain rest where "all_in_flight d = in_flight (D_Threads d ! i) + (in_flight (D_Threads d ! j) + rest)"
    using sum_split2 [OF ij, of in_flight] by (auto simp: all_in_flight_def)
  then have "\<exists>rest. all_in_flight d = add_mset r (add_mset r' rest)"
    using in_flight_single [OF r(1)] in_flight_single [OF r(2)] by auto
  then have n: "guard_of f strategy r' = No_guard"
    using srw.guarded_exclusive [OF g _ guard_names(1) [OF s c]] by blast
  show "\<not> changes_names f r'" "\<not> reads_names f r'" using guard_names(2) [OF s, of f r'] n by blast+
next
  fix i hint r rsp
  note g = dispatch_reachable_inv [OF assms, unfolded dispatch_inv_def, THEN conjunct1]
  assume i: "i < length (D_Threads d)" "D_Threads d ! i = (Ran hint r, rsp)"
  obtain rest where "all_in_flight d = add_mset r rest"
    using sum_split [OF i(1), of in_flight] i(2) by (auto simp: all_in_flight_def)
  then show "op_leave f strategy r (D_Lock d) \<noteq> None"
    using srw.guarded_leave [of "guard_of f strategy" "D_Lock d" r rest] g by (auto simp: op_enter_leave)
next
  fix i hint r rsp rsp'
  assume i: "i < length (D_Threads d)" "D_Threads d ! i = (Ran hint r, rsp)" and f: "finish_response hint r rsp = Some rsp'"
  have "thread_ok (Ran hint r, rsp)" using dispatch_reachable_inv [OF assms] i by (metis dispatch_inv_def nth_mem)
  then have h: "header rsp = (hint, request_kind r, RSP_BUFFER_SIZEMAX)" by simp
  show "Rsp_Size rsp' = 0 \<longleftrightarrow> Status rsp = STATUS_PENDING \<and> align8 (unat (Rsp_Size rsp)) \<le> RSP_SIZEMAX"
    using finish_response_ok [OF f h] by blast
  show "answer_padded rsp rsp'" if "align8 (unat (Rsp_Size rsp)) \<le> RSP_SIZEMAX \<and> Status rsp \<noteq> STATUS_PENDING"
    using finish_response_ok [OF f h] that by blast
qed

text \<open>One thread gets a request for the volume's information and enters its operation.\<close>

definition demo_dispatcher :: "unit dispatcher" where
  "demo_dispatcher = \<lparr>D_Fs = (), D_Mem = 0, D_Private = 0, D_Lock = OpGuard.Unlocked,
     D_Threads = replicate 1 (Transact, clear_response demo_response), D_Received = {#}, D_Sent = {#}, D_Pended = {#}\<rparr>"

theorem dispatcher_answers_witness:
  "\<exists>d. dispatch_reachable demo_fs Library_guard Fine (\<lambda>_. STATUS_SUCCESS) d \<and>
     all_outstanding d = {#(7, 12)#} \<and> D_Lock d = OpGuard.Shared 1"
proof -
  let ?step = "dispatch_step demo_fs Library_guard Fine (\<lambda>_. STATUS_SUCCESS)"
  let ?r = QueryVolumeInformation_Request
  define d1 where "d1 = demo_dispatcher\<lparr>D_Threads := (D_Threads demo_dispatcher)
      [0 := (Received 7 ?r, begin_response 7 ?r (clear_response demo_response))],
    D_Sent := D_Sent demo_dispatcher + sent (clear_response demo_response),
    D_Received := add_mset (ticket 7 ?r) (D_Received demo_dispatcher)\<rparr>"
  define d2 where "d2 = d1\<lparr>D_Threads := (D_Threads d1)
      [0 := (Entered 7 ?r, (begin_response 7 ?r (clear_response demo_response))\<lparr>Status := STATUS_SUCCESS\<rparr>)],
    D_Lock := OpGuard.Shared 1\<rparr>"
  have "?step demo_dispatcher d1"
    unfolding d1_def by (rule dispatch_step.transact) (simp_all add: demo_dispatcher_def)
  moreover have "?step d1 d2"
    unfolding d2_def
    by (rule dispatch_step.enter [where r = ?r and hint = 7])
      (simp_all add: d1_def demo_dispatcher_def NT_SUCCESS_def FspFileSystemOpEnter_def guard_def)
  moreover have "length (Rsp_Buffer demo_response) = RSP_BUFFER_SIZEMAX"
    by (simp add: demo_response_def)
  moreover have "fresh_dispatcher 1 demo_response () demo_dispatcher"
    by (simp add: fresh_dispatcher_def demo_dispatcher_def)
  ultimately have r: "dispatch_reachable demo_fs Library_guard Fine (\<lambda>_. STATUS_SUCCESS) d2"
    unfolding dispatch_reachable_def by (meson converse_rtranclp_into_rtranclp r_into_rtranclp)
  have "D_Received d2 = {#(7, 12)#}" "D_Sent d2 = {#}" "D_Pended d2 = {#}" "D_Lock d2 = OpGuard.Shared 1"
    by (simp_all add: d2_def d1_def demo_dispatcher_def ticket_def sent_def)
  then show ?thesis using dispatcher_answers [OF r] r by auto
qed

end
