(* ===== verification/FsReparse.thy ===== *)
theory FsReparse
  imports PathOps
begin

text \<open>
  Finding and resolving reparse points on the way to a file (\<open>FspFileSystemFindReparsePoint\<close> and
  \<open>FspFileSystemResolveReparsePoints\<close>, \<open>src/dll/fsop.c\<close>): a path is resolved component by component
  in the buffer of the answer, symbolic links and the components \<open>.\<close> and \<open>..\<close> replaced in place. The path is
  the memory from \<open>TargetPath\<close> to the terminator, a pointer into it a position. A file system answers
  \<open>GetReparsePointByName\<close> with a status and what it wrote of the reparse data; a substitute name is whole
  characters. \<open>None\<close> is a read behind the path.
\<close>

section \<open>Data\<close>

abbreviation (input) STATUS_NOT_A_REPARSE_POINT :: ntstatus where "STATUS_NOT_A_REPARSE_POINT \<equiv> 0xC0000275"
abbreviation (input) STATUS_REPARSE_POINT_NOT_RESOLVED :: ntstatus where "STATUS_REPARSE_POINT_NOT_RESOLVED \<equiv> 0xC0000280"
abbreviation (input) STATUS_IO_REPARSE_DATA_INVALID :: ntstatus where "STATUS_IO_REPARSE_DATA_INVALID \<equiv> 0xC0000278"
abbreviation (input) STATUS_REPARSE :: ntstatus where "STATUS_REPARSE \<equiv> 0x104"
abbreviation (input) STATUS_OBJECT_NAME_NOT_FOUND :: ntstatus where "STATUS_OBJECT_NAME_NOT_FOUND \<equiv> 0xC0000034"
abbreviation (input) STATUS_OBJECT_PATH_NOT_FOUND :: ntstatus where "STATUS_OBJECT_PATH_NOT_FOUND \<equiv> 0xC000003A"
abbreviation (input) IO_REPARSE_TAG_SYMLINK :: u32 where "IO_REPARSE_TAG_SYMLINK \<equiv> 0xA000000C"
abbreviation (input) IO_REPARSE_TAG_MOUNT_POINT :: u32 where "IO_REPARSE_TAG_MOUNT_POINT \<equiv> 0xA0000003"

text \<open>
  \<open>REPARSE_DATA_BUFFER\<close>: the tag, for a symbolic link the flag \<open>SYMLINK_FLAG_RELATIVE\<close> and the substitute
  name, and all of its bytes.
\<close>

record reparse_data =
  ReparseTag :: u32
  Link_Relative :: bool
  SubstituteName :: wstr
  Reparse_Bytes :: bytes

text \<open>The callback: the status and the reparse data, if it wrote them; the flag is \<open>IsDirectory\<close>.\<close>

type_synonym 's get_reparse_point = "'s \<Rightarrow> wstr \<Rightarrow> bool \<Rightarrow> (ntstatus \<times> reparse_data option) \<times> 's"

text \<open>
  The results: an error; the path as a symbolic link, absolute or not, with \<open>PIoStatus->Information\<close>; or
  reparse data of another kind, with its \<open>Reserved\<close> field if it is set.
\<close>

datatype reparse_result =
    Reparse_error ntstatus
  | Reparse_path wstr bool u32
  | Reparse_data bytes "u16 option" u32

section \<open>Positions in a path\<close>

definition string_at :: "wstr \<Rightarrow> nat \<Rightarrow> bool" where
  "string_at m pos \<longleftrightarrow> 0 \<in> set (drop pos m)"

definition skip_seps :: "wstr \<Rightarrow> nat \<Rightarrow> nat" where
  "skip_seps m pos = pos + length (takeWhile (\<lambda>c. c = 0x5c) (drop pos m))"

text \<open>The end of the component at a position: a separator, a colon or the terminator.\<close>

definition component_end :: "wstr \<Rightarrow> nat \<Rightarrow> nat" where
  "component_end m pos = pos + length (takeWhile (\<lambda>c. c \<noteq> 0x5c \<and> c \<noteq> 0 \<and> c \<noteq> 0x3a) (drop pos m))"

text \<open>\<open>while (TargetPath < p) { p--; if (P *p) break; }\<close>\<close>

fun back_until :: "(u16 \<Rightarrow> bool) \<Rightarrow> wstr \<Rightarrow> nat \<Rightarrow> nat" where
  "back_until P m 0 = 0"
| "back_until P m (Suc p) = (if P (m ! p) then p else back_until P m p)"

text \<open>The string at a position with its terminator, which \<open>memmove\<close> moves.\<close>

definition strz :: "wstr \<Rightarrow> nat \<Rightarrow> wstr" where
  "strz m pos = cstr m pos @ [0]"

lemma back_until_le: "back_until P m p \<le> p"
  by (induction p) auto

lemma length_takeWhile_less: "\<exists>x\<in>set xs. \<not> P x \<Longrightarrow> length (takeWhile P xs) < length xs"
  by (induction xs) auto

lemma skip_seps_le: "pos \<le> skip_seps m pos"
  by (simp add: skip_seps_def)

lemma component_end_le: "pos \<le> component_end m pos"
  by (simp add: component_end_def)

lemma skip_seps_less:
  assumes "string_at m pos"
  shows "skip_seps m pos < length m" "m ! skip_seps m pos \<noteq> 0x5c" "string_at m (skip_seps m pos)"
proof -
  let ?n = "length (takeWhile (\<lambda>c. c = 0x5c) (drop pos m))"
  have n: "?n < length (drop pos m)"
    using assms unfolding string_at_def by (intro length_takeWhile_less) force
  then show "skip_seps m pos < length m" by (simp add: skip_seps_def)
  show "m ! skip_seps m pos \<noteq> 0x5c" using nth_length_takeWhile [OF n] n by (simp add: skip_seps_def)
  have "0 \<in> set (takeWhile (\<lambda>c. c = 0x5c) (drop pos m)) \<union> set (dropWhile (\<lambda>c. c = 0x5c) (drop pos m))"
    using assms unfolding string_at_def by (metis set_append takeWhile_dropWhile_id)
  moreover have "0 \<notin> set (takeWhile (\<lambda>c. c = (0x5c :: u16)) (drop pos m))" by (auto dest: set_takeWhileD)
  ultimately show "string_at m (skip_seps m pos)"
    by (simp add: string_at_def skip_seps_def dropWhile_eq_drop add.commute)
qed

lemma component_end_less:
  assumes "string_at m pos"
  shows "component_end m pos < length m" "m ! component_end m pos \<in> {0x5c, 0, 0x3a}" "string_at m (component_end m pos)"
proof -
  let ?P = "\<lambda>c :: u16. c \<noteq> 0x5c \<and> c \<noteq> 0 \<and> c \<noteq> 0x3a"
  have n: "length (takeWhile ?P (drop pos m)) < length (drop pos m)"
    using assms unfolding string_at_def by (intro length_takeWhile_less) force
  then show "component_end m pos < length m" by (simp add: component_end_def)
  show "m ! component_end m pos \<in> {0x5c, 0, 0x3a}" using nth_length_takeWhile [OF n] n by (auto simp: component_end_def)
  have "0 \<in> set (takeWhile ?P (drop pos m)) \<union> set (dropWhile ?P (drop pos m))"
    using assms unfolding string_at_def by (metis set_append takeWhile_dropWhile_id)
  moreover have "0 \<notin> set (takeWhile ?P (drop pos m))" by (auto dest: set_takeWhileD)
  ultimately show "string_at m (component_end m pos)"
    by (simp add: string_at_def component_end_def dropWhile_eq_drop add.commute)
qed

text \<open>A step over the separators and a component moves on.\<close>

lemma component_progress:
  assumes "string_at m pos" "m ! component_end m (skip_seps m pos) = 0x5c"
  shows "pos < component_end m (skip_seps m pos)"
proof -
  have "component_end m (skip_seps m pos) \<noteq> skip_seps m pos" using assms skip_seps_less(2) [OF assms(1)] by metis
  then show ?thesis using skip_seps_le [of pos m] component_end_le [of "skip_seps m pos" m] by linarith
qed

lemma component_shortens:
  assumes "string_at m pos" "m ! component_end m (skip_seps m pos) = 0x5c"
  shows "length m - component_end m (skip_seps m pos) < length m - pos"
  using component_progress [OF assms] component_end_less(1) [OF skip_seps_less(3) [OF assms(1)]] by linarith

lemma strz_length: "string_at m pos \<Longrightarrow> length (strz m pos) \<le> length m - pos"
proof -
  assume "string_at m pos"
  then have "length (takeWhile (\<lambda>c. c \<noteq> 0) (drop pos m)) < length (drop pos m)"
    unfolding string_at_def by (intro length_takeWhile_less) auto
  then show ?thesis by (simp add: strz_def cstr_def)
qed

section \<open>Finding a reparse point\<close>

function find_loop ::
  "'s get_reparse_point \<Rightarrow> 's \<Rightarrow> wstr \<Rightarrow> nat \<Rightarrow> (u32 option \<times> 's) option" where
  "find_loop get s m pos =
     (let l = skip_seps m pos; r = component_end m l
      in if \<not> string_at m pos then None
         else if m ! r = 0x5c then
           let ((Result, _), s) = get s (cstr (m[r := 0]) 0) True
           in if Result = STATUS_NOT_A_REPARSE_POINT then find_loop get s m r
              else if \<not> NT_SUCCESS Result then Some (None, s)
              else Some (Some (of_nat l), s)
         else Some (None, s))"
  by pat_completeness auto
termination
  by (relation "measure (\<lambda>(get, s, m, pos). length m - pos)")
    (simp_all add: component_shortens)

text \<open>\<open>None\<close> of the inner option is the result \<open>FALSE\<close>.\<close>

definition FspFileSystemFindReparsePoint ::
  "'s get_reparse_point \<Rightarrow> 's \<Rightarrow> wstr \<Rightarrow> (u32 option \<times> 's) option" where
  "FspFileSystemFindReparsePoint get s FileName = find_loop get s (FileName @ [0]) 0"

section \<open>Resolving reparse points\<close>

text \<open>A component \<open>.\<close> or \<open>..\<close>, and the position from which the remainder replaces it.\<close>

definition dot_target :: "wstr \<Rightarrow> nat \<Rightarrow> nat \<Rightarrow> nat option" where
  "dot_target m l r =
     (if m ! l = 0x2e \<and> r = l + 1 then Some (back_until (\<lambda>c. c = 0x5c) m l)
      else if m ! l = 0x2e \<and> m ! (l + 1) = 0x2e \<and> r = l + 2
      then Some (back_until (\<lambda>c. c = 0x5c) m (back_until (\<lambda>c. c \<noteq> 0x5c) m l))
      else None)"

text \<open>
  The path after \<open>reparse:\<close>: the target and the remainder from \<open>RemainderPath\<close> behind the first \<open>new\<close>
  characters; \<open>None\<close> if it does not fit in the \<open>Size\<close> bytes of the buffer, of which 20 are in front of the path.
\<close>

definition replace_path :: "nat \<Rightarrow> wstr \<Rightarrow> nat \<Rightarrow> wstr \<Rightarrow> nat \<Rightarrow> wstr option" where
  "replace_path Size m new target r =
     (if 20 + 2 * (new + length target + length (strz m r)) > Size then None
      else Some (take new m @ target @ strz m r))"

text \<open>The two exits: the path as a symbolic link, and reparse data of another kind.\<close>

definition symlink_exit :: "wstr \<Rightarrow> bool \<Rightarrow> reparse_data \<Rightarrow> reparse_result" where
  "symlink_exit m absolute data = Reparse_path (cstr m 0) absolute (ReparseTag data)"

definition reparse_data_exit :: "nat \<Rightarrow> wstr \<Rightarrow> nat \<Rightarrow> reparse_data \<Rightarrow> reparse_result" where
  "reparse_data_exit Size m r data =
     (if length (Reparse_Bytes data) > Size
      then Reparse_error (if ReparseTag data \<noteq> IO_REPARSE_TAG_SYMLINK then STATUS_IO_REPARSE_DATA_INVALID
        else STATUS_REPARSE_POINT_NOT_RESOLVED)
      else Reparse_data (Reparse_Bytes data)
        (if ReparseTag data = IO_REPARSE_TAG_MOUNT_POINT then Some (of_nat (2 * length (cstr m r))) else None)
        (ReparseTag data))"

lemma replace_path_length:
  "replace_path Size m new target r = Some m' \<Longrightarrow> new \<le> length m \<Longrightarrow>
     20 + 2 * length m' \<le> Size \<and> length m' = new + length target + length (strz m r)"
  by (auto simp: replace_path_def split: if_splits)

lemma dot_target_less: "dot_target m l r = Some n \<Longrightarrow> n < r"
  using back_until_le [of "\<lambda>c. c = 0x5c" m l] back_until_le [of "\<lambda>c. c \<noteq> 0x5c" m l]
    back_until_le [of "\<lambda>c. c = 0x5c" m "back_until (\<lambda>c. c \<noteq> 0x5c) m l"]
  by (auto simp: dot_target_def split: if_splits)

lemma dot_shortens:
  assumes "replace_path Size m new [] (component_end m (skip_seps m pos)) = Some m'"
    and "dot_target m (skip_seps m pos) (component_end m (skip_seps m pos)) = Some new" "string_at m pos"
  shows "length m' < length m"
proof -
  let ?r = "component_end m (skip_seps m pos)"
  have r: "?r < length m" "string_at m ?r" using component_end_less skip_seps_less(3) [OF assms(3)] by blast+
  have n: "new < ?r" by (rule dot_target_less [OF assms(2)])
  show ?thesis using replace_path_length [OF assms(1)] strz_length [OF r(2)] n r(1) by simp
qed

lemma component_passed:
  assumes "string_at m pos" "m ! component_end m (skip_seps m pos) = 0x5c \<or> flag"
  shows "length m - component_end m (skip_seps m pos) + of_bool (m ! component_end m (skip_seps m pos) = 0x5c \<and> flag) <
    length m - pos + of_bool flag"
proof (cases "m ! component_end m (skip_seps m pos) = 0x5c")
  case True
  then show ?thesis using component_shortens [OF assms(1) True] by simp
next
  case False
  then show ?thesis
    using assms skip_seps_le [of pos m] component_end_le [of "skip_seps m pos" m] by (simp add: le_trans diff_le_mono2)
qed

text \<open>
  The loop: \<open>tries\<close> is \<open>MaxTries\<close>, \<open>resolve_last\<close> the flag \<open>ResolveLastPathComponent\<close> and \<open>last0\<close> its initial
  value; \<open>data\<close> is the content of \<open>ReparseData\<close>.
\<close>

function resolve_loop ::
  "'s get_reparse_point \<Rightarrow> nat \<Rightarrow> bool \<Rightarrow> nat \<Rightarrow> wstr \<Rightarrow> nat \<Rightarrow> bool \<Rightarrow> reparse_data \<Rightarrow> 's \<Rightarrow> (reparse_result \<times> 's) option" where
  "resolve_loop get Size last0 tries m pos resolve_last data s =
     (let l = skip_seps m pos; r = component_end m l; directory = (m ! r = 0x5c)
      in if \<not> string_at m pos then None
         else if \<not> directory \<and> \<not> resolve_last then Some (symlink_exit m False data, s)
         else let resolve_last = (directory \<and> resolve_last)
         in case dot_target m l r of
           Some new \<Rightarrow>
             (case replace_path Size m new [] r of
                None \<Rightarrow> Some (Reparse_error STATUS_REPARSE_POINT_NOT_RESOLVED, s)
              | Some m \<Rightarrow> resolve_loop get Size last0 tries m new last0 data s)
         | None \<Rightarrow>
             let ((Result, written), s) = get s (cstr (m[r := 0]) 0) directory;
                 data = (case written of None \<Rightarrow> data | Some d \<Rightarrow> d)
             in if Result = STATUS_NOT_A_REPARSE_POINT then resolve_loop get Size last0 tries m r resolve_last data s
                else if Result = STATUS_OBJECT_NAME_NOT_FOUND \<and> \<not> directory then Some (symlink_exit m False data, s)
                else if \<not> NT_SUCCESS Result
                then Some (Reparse_error (if Result \<noteq> STATUS_OBJECT_NAME_NOT_FOUND then STATUS_OBJECT_PATH_NOT_FOUND
                  else Result), s)
                else if ReparseTag data \<noteq> IO_REPARSE_TAG_SYMLINK then Some (reparse_data_exit Size m r data, s)
                else if tries \<le> 1 then Some (Reparse_error STATUS_REPARSE_POINT_NOT_RESOLVED, s)
                else
                  (let target = SubstituteName data; rooted = (target \<noteq> [] \<and> hd target = 0x5c)
                   in case replace_path Size m (if rooted then 0 else l) target r of
                     None \<Rightarrow> Some (Reparse_error STATUS_REPARSE_POINT_NOT_RESOLVED, s)
                   | Some m \<Rightarrow>
                       if \<not> Link_Relative data \<and> rooted then Some (symlink_exit m True data, s)
                       else resolve_loop get Size last0 (tries - 1) m (if rooted then 0 else l) last0 data s))"
  by pat_completeness auto

text \<open>
  The loop ends: a symbolic link uses up a try, a dot component shortens the path, and a component that is
  no reparse point is passed, the last one by clearing the flag.
\<close>

termination
  by (relation "measures [\<lambda>(get, Size, last0, tries, m, pos, resolve_last, data, s). tries,
      \<lambda>(get, Size, last0, tries, m, pos, resolve_last, data, s). length m,
      \<lambda>(get, Size, last0, tries, m, pos, resolve_last, data, s). length m - pos + of_bool resolve_last]")
    (auto simp: component_passed dest: dot_shortens)

declare resolve_loop.simps [simp del] find_loop.simps [simp del]

text \<open>One round of the loop.\<close>

lemma resolve_exit:
  "string_at m pos \<Longrightarrow> m ! component_end m (skip_seps m pos) \<noteq> 0x5c \<Longrightarrow> \<not> flag \<Longrightarrow>
     resolve_loop get Size last0 tries m pos flag data s = Some (symlink_exit m False data, s)"
  by (simp add: resolve_loop.simps Let_def)

lemma resolve_dot:
  "string_at m pos \<Longrightarrow> m ! component_end m (skip_seps m pos) = 0x5c \<or> flag \<Longrightarrow>
     dot_target m (skip_seps m pos) (component_end m (skip_seps m pos)) = Some new \<Longrightarrow>
     resolve_loop get Size last0 tries m pos flag data s =
       (case replace_path Size m new [] (component_end m (skip_seps m pos)) of
          None \<Rightarrow> Some (Reparse_error STATUS_REPARSE_POINT_NOT_RESOLVED, s)
        | Some m \<Rightarrow> resolve_loop get Size last0 tries m new last0 data s)"
  by (subst resolve_loop.simps) (auto simp: Let_def)

lemma resolve_ask:
  assumes "string_at m pos" "m ! component_end m (skip_seps m pos) = 0x5c \<or> flag"
    "dot_target m (skip_seps m pos) (component_end m (skip_seps m pos)) = None"
    "get s (cstr (m[component_end m (skip_seps m pos) := 0]) 0) (m ! component_end m (skip_seps m pos) = 0x5c) =
       ((Result, written), s')"
    "data' = (case written of None \<Rightarrow> data | Some d \<Rightarrow> d)"
    "rooted = (SubstituteName data' \<noteq> [] \<and> hd (SubstituteName data') = 0x5c)"
    "new = (if rooted then 0 else skip_seps m pos)"
  shows "resolve_loop get Size last0 tries m pos flag data s =
       (if Result = STATUS_NOT_A_REPARSE_POINT
        then resolve_loop get Size last0 tries m (component_end m (skip_seps m pos))
          (m ! component_end m (skip_seps m pos) = 0x5c \<and> flag) data' s'
        else if Result = STATUS_OBJECT_NAME_NOT_FOUND \<and> m ! component_end m (skip_seps m pos) \<noteq> 0x5c
        then Some (symlink_exit m False data', s')
        else if \<not> NT_SUCCESS Result
        then Some (Reparse_error (if Result \<noteq> STATUS_OBJECT_NAME_NOT_FOUND then STATUS_OBJECT_PATH_NOT_FOUND
          else Result), s')
        else if ReparseTag data' \<noteq> IO_REPARSE_TAG_SYMLINK
        then Some (reparse_data_exit Size m (component_end m (skip_seps m pos)) data', s')
        else if tries \<le> 1 then Some (Reparse_error STATUS_REPARSE_POINT_NOT_RESOLVED, s')
        else (case replace_path Size m new (SubstituteName data') (component_end m (skip_seps m pos)) of
            None \<Rightarrow> Some (Reparse_error STATUS_REPARSE_POINT_NOT_RESOLVED, s')
          | Some m \<Rightarrow>
              if \<not> Link_Relative data' \<and> rooted then Some (symlink_exit m True data', s')
              else resolve_loop get Size last0 (tries - 1) m new last0 data' s'))"
proof -
  have c: "\<not> \<not> string_at m pos" "\<not> (m ! component_end m (skip_seps m pos) \<noteq> 0x5c \<and> \<not> flag)"
    using assms(1,2) by simp_all
  show ?thesis
    unfolding resolve_loop.simps [of get Size last0 tries m pos flag data s] Let_def if_not_P [OF c(1)] if_not_P [OF c(2)]
      assms(3) option.case assms(4) prod.case assms(5) [symmetric] assms(6) [symmetric] assms(7) [symmetric] ..
qed

definition FspFileSystemResolveReparsePointsInternal ::
  "'s get_reparse_point \<Rightarrow> reparse_data \<Rightarrow> nat \<Rightarrow> wstr \<Rightarrow> u32 \<Rightarrow> bool \<Rightarrow> 's \<Rightarrow> (reparse_result \<times> 's) option" where
  "FspFileSystemResolveReparsePointsInternal get data Size FileName ReparsePointIndex ResolveLastPathComponent s =
     (if 20 + 2 * (length FileName + 1) > Size then Some (Reparse_error STATUS_REPARSE_POINT_NOT_RESOLVED, s)
      else resolve_loop get Size ResolveLastPathComponent 32 (FileName @ [0]) (unat ReparsePointIndex)
        ResolveLastPathComponent data s)"

text \<open>\<open>fresh\<close> is the content of the memory that \<open>MemAlloc\<close> returns, \<open>None\<close> if it fails.\<close>

definition FspFileSystemResolveReparsePoints ::
  "'s get_reparse_point \<Rightarrow> reparse_data option \<Rightarrow> nat \<Rightarrow> wstr \<Rightarrow> u32 \<Rightarrow> bool \<Rightarrow> 's \<Rightarrow> (reparse_result \<times> 's) option" where
  "FspFileSystemResolveReparsePoints get fresh Size FileName ReparsePointIndex ResolveLastPathComponent s =
     (case fresh of
        None \<Rightarrow> Some (Reparse_error STATUS_INSUFFICIENT_RESOURCES, s)
      | Some data \<Rightarrow> FspFileSystemResolveReparsePointsInternal get data Size FileName ReparsePointIndex
          ResolveLastPathComponent s)"

end
