(* ===== verification/FsReparseProps.thy ===== *)
theory FsReparseProps
  imports FsReparse
begin

text \<open>The resolution of reparse points: it stays in its buffer, and the path it gives is resolved.\<close>

section \<open>The resolution returns\<close>

lemma string_at_replaced: "new \<le> length m \<Longrightarrow> string_at (take new m @ target @ strz m r) new"
  by (simp add: string_at_def strz_def)

text \<open>What a result says of the buffer of \<open>Size\<close> bytes.\<close>

fun result_fits :: "nat \<Rightarrow> reparse_result \<Rightarrow> bool" where
  "result_fits Size (Reparse_error e) \<longleftrightarrow> True"
| "result_fits Size (Reparse_path p absolute tag) \<longleftrightarrow> 20 + 2 * (length p + 1) \<le> Size"
| "result_fits Size (Reparse_data bs reserved tag) \<longleftrightarrow> length bs \<le> Size"

lemma exit_fits: "string_at m 0 \<Longrightarrow> 20 + 2 * length m \<le> Size \<Longrightarrow> result_fits Size (symlink_exit m a data)"
  using strz_length [of m 0] by (simp add: symlink_exit_def strz_def)

lemma data_fits: "result_fits Size (reparse_data_exit Size m r data)"
  by (simp add: reparse_data_exit_def)

lemma string_at_start: "string_at m pos \<Longrightarrow> string_at m 0"
  by (auto simp: string_at_def dest: in_set_dropD)

text \<open>The induction that the loop's termination gives, with its three ways to go on.\<close>

lemma resolve_induct [consumes 1, case_names round]:
  assumes "string_at m pos"
    and step: "\<And>(tries :: nat) m pos flag data s. string_at m pos \<Longrightarrow>
      (\<And>new m'. m ! component_end m (skip_seps m pos) = 0x5c \<or> flag \<Longrightarrow>
        dot_target m (skip_seps m pos) (component_end m (skip_seps m pos)) = Some new \<Longrightarrow>
        replace_path Size m new [] (component_end m (skip_seps m pos)) = Some m' \<Longrightarrow> P tries m' new last0 data s) \<Longrightarrow>
      (\<And>data' s'. m ! component_end m (skip_seps m pos) = 0x5c \<or> flag \<Longrightarrow>
        P tries m (component_end m (skip_seps m pos)) (m ! component_end m (skip_seps m pos) = 0x5c \<and> flag) data' s') \<Longrightarrow>
      (\<And>new m' target data' s'. m ! component_end m (skip_seps m pos) = 0x5c \<or> flag \<Longrightarrow> \<not> tries \<le> 1 \<Longrightarrow>
        new = (if target \<noteq> [] \<and> hd target = 0x5c then 0 else skip_seps m pos) \<Longrightarrow>
        replace_path Size m new target (component_end m (skip_seps m pos)) = Some m' \<Longrightarrow>
        P (tries - 1) m' new last0 data' s') \<Longrightarrow>
      P tries m pos flag data s"
  shows "P tries m pos flag data s"
  using assms(1)
proof (induction "(tries, m, pos, flag, data, s)" arbitrary: tries m pos flag data s
    rule: wf_induct_rule [OF wf_measures [of "[\<lambda>(tries :: nat, m, pos, flag, data, s). tries, \<lambda>(tries, m, pos, flag, data, s). length m,
      \<lambda>(tries, m, pos, flag, data, s). length m - pos + of_bool flag]"]])
  case (1 tries m pos flag data s)
  let ?r = "component_end m (skip_seps m pos)"
  have r: "?r < length m" "string_at m ?r" and l: "skip_seps m pos < length m"
    using component_end_less skip_seps_less [OF 1(2)] by auto
  show ?case
  proof (rule step [OF 1(2)])
    fix new m'
    assume d: "m ! ?r = 0x5c \<or> flag" "dot_target m (skip_seps m pos) ?r = Some new" "replace_path Size m new [] ?r = Some m'"
    have "new \<le> length m" using dot_target_less [OF d(2)] r(1) by simp
    then have "string_at m' new" using d(3) string_at_replaced [of new m "[]"] by (auto simp: replace_path_def split: if_splits)
    then show "P tries m' new last0 data s" using dot_shortens [OF d(3,2) 1(2)] by (intro 1(1)) auto
  next
    fix data' s'
    assume "m ! ?r = 0x5c \<or> flag"
    from component_passed [OF 1(2) this] r(2) show "P tries m ?r (m ! ?r = 0x5c \<and> flag) data' s'" by (intro 1(1)) auto
  next
    fix new m' target data' s'
    assume t: "\<not> tries \<le> 1" "new = (if target \<noteq> [] \<and> hd target = 0x5c then 0 else skip_seps m pos)"
      "replace_path Size m new target ?r = Some m'"
    have "string_at m' new"
      using t(2,3) l string_at_replaced [of new m target] by (auto simp: replace_path_def split: if_splits)
    then show "P (tries - 1) m' new last0 data' s'" using t(1) by (intro 1(1)) auto
  qed
qed

lemma replaced_fits: "replace_path Size m new target r = Some m' \<Longrightarrow> new \<le> length m \<Longrightarrow> 20 + 2 * length m' \<le> Size"
  using replace_path_length by blast

lemma resolve_loop_fits:
  "string_at m pos \<Longrightarrow> 20 + 2 * length m \<le> Size \<Longrightarrow>
     \<exists>res s'. resolve_loop get Size last0 tries m pos flag data s = Some (res, s') \<and> result_fits Size res"
proof (induction tries m pos flag data s rule: resolve_induct [where Size = Size and ?last0.0 = last0])
  case (round tries m pos flag data s)
  let ?l = "skip_seps m pos"
  let ?r = "component_end m ?l"
  note e = exit_fits [OF string_at_start [OF round(1)] round(5)]
  have l: "?l \<le> length m" "?r \<le> length m"
    using component_end_less(1) skip_seps_less [OF round(1)] by (auto intro: less_imp_le)
  show ?case
  proof (cases "m ! ?r = 0x5c \<or> flag")
    case False
    then have "resolve_loop get Size last0 tries m pos flag data s = Some (symlink_exit m False data, s)"
      by (intro resolve_exit [OF round(1)]) auto
    then show ?thesis using e by simp
  next
    case go: True
    show ?thesis
    proof (cases "dot_target m ?l ?r")
      case (Some new)
      have n: "new \<le> length m" using dot_target_less [OF Some] l(2) by simp
      show ?thesis
        unfolding resolve_dot [OF round(1) go Some]
        using round(2) [OF go Some] replaced_fits [OF _ n] by (auto split: option.split)
    next
      case None
      obtain q w s' where g: "get s (cstr (m[?r := 0]) 0) (m ! ?r = 0x5c) = ((q, w), s')" by (metis prod.collapse)
      define data' where "data' = (case w of None \<Rightarrow> data | Some d \<Rightarrow> d)"
      define rooted where "rooted = (SubstituteName data' \<noteq> [] \<and> hd (SubstituteName data') = 0x5c)"
      define new where "new = (if rooted then 0 else ?l)"
      have n: "new \<le> length m" using l(1) by (simp add: new_def)
      have fin: "\<exists>res s''. Some (res', s2) = Some (res, s'') \<and> result_fits Size res" if "result_fits Size res'" for res' s2
        using that by blast
      have again: "\<exists>res s''. resolve_loop get Size last0 (tries - 1) m' new last0 data' s' = Some (res, s'') \<and> result_fits Size res"
        if "\<not> tries \<le> 1" "replace_path Size m new (SubstituteName data') ?r = Some m'" for m'
        using round(4) [OF go that(1) _ that(2)] replaced_fits [OF that(2) n] by (simp add: new_def rooted_def)
      have absolute: "result_fits Size (symlink_exit m' True data')"
        if "replace_path Size m new (SubstituteName data') ?r = Some m'" for m'
        using that n string_at_replaced [of new m] string_at_start replaced_fits [OF that n]
        by (intro exit_fits) (auto simp: replace_path_def split: if_splits)
      show ?thesis
        unfolding resolve_ask [where get = get and s = s and data = data, OF round(1) go None g data'_def rooted_def new_def]
        using round(3) [OF go round(5), of data' s'] fin e data_fits again absolute
        by (auto split: option.split)
    qed
  qed
qed

section \<open>The path is resolved\<close>

text \<open>The last component of a path, and the ends of the components that are followed by a separator.\<close>

definition last_component :: "wstr \<Rightarrow> wstr" where
  "last_component p = rev (takeWhile (\<lambda>c. c \<noteq> 0x5c) (rev p))"

definition boundary :: "wstr \<Rightarrow> nat \<Rightarrow> bool" where
  "boundary m i \<longleftrightarrow> 0 < i \<and> i < length m \<and> m ! i = 0x5c \<and> m ! (i - 1) \<noteq> 0x5c"

text \<open>
  \<open>ans\<close> is what the file system answers, whatever its state; a directory on the way is good if it is no reparse
  point and not \<open>.\<close> or \<open>..\<close>.
\<close>

definition good :: "(wstr \<Rightarrow> bool \<Rightarrow> ntstatus) \<Rightarrow> wstr \<Rightarrow> bool" where
  "good ans p \<longleftrightarrow> ans p True = STATUS_NOT_A_REPARSE_POINT \<and> last_component p \<noteq> [0x2e] \<and> last_component p \<noteq> [0x2e, 0x2e]"

lemma last_component_at:
  assumes "l \<le> r" "r \<le> length m" "l = 0 \<or> m ! (l - 1) = 0x5c" "\<forall>i. l \<le> i \<longrightarrow> i < r \<longrightarrow> m ! i \<noteq> 0x5c"
  shows "last_component (take r m) = take (r - l) (drop l m)"
proof -
  let ?c = "take (r - l) (drop l m)"
  have t: "take r m = take l m @ ?c" using assms(1) by (metis le_add_diff_inverse take_add)
  have "x \<noteq> 0x5c" if x: "x \<in> set ?c" for x
  proof -
    obtain k where k: "k < length ?c" "x = ?c ! k" using x unfolding in_set_conv_nth by blast
    have "l + k < r" using k(1) assms(2) by simp
    moreover have "x = m ! (l + k)" using k assms(1,2) by simp
    ultimately show ?thesis using assms(4) by simp
  qed
  then have c: "takeWhile (\<lambda>c. c \<noteq> 0x5c) (rev ?c @ rev (take l m)) = rev ?c @ takeWhile (\<lambda>c. c \<noteq> 0x5c) (rev (take l m))"
    by (intro takeWhile_append2) auto
  have "takeWhile (\<lambda>c. c \<noteq> 0x5c) (rev (take l m)) = []"
  proof (cases l)
    case (Suc k)
    then have "take l m = take k m @ [0x5c]"
      using assms(1-3) by (simp add: take_Suc_conv_app_nth)
    then show ?thesis by simp
  qed simp
  then show ?thesis unfolding last_component_def t rev_append c by simp
qed

text \<open>What the skipped separators and the component consist of.\<close>

lemma skipped: "pos \<le> i \<Longrightarrow> i < skip_seps m pos \<Longrightarrow> i < length m \<Longrightarrow> m ! i = 0x5c"
proof -
  assume i: "pos \<le> i" "i < skip_seps m pos" "i < length m"
  let ?t = "takeWhile (\<lambda>c. c = 0x5c) (drop pos m)"
  have k: "i - pos < length ?t" using i by (simp add: skip_seps_def)
  have "?t ! (i - pos) = 0x5c" using nth_mem [OF k, THEN set_takeWhileD] by simp
  then show ?thesis unfolding takeWhile_nth [OF k] using i by simp
qed

lemma component_chars:
  "l \<le> i \<Longrightarrow> i < component_end m l \<Longrightarrow> i < length m \<Longrightarrow> m ! i \<noteq> 0x5c \<and> m ! i \<noteq> 0 \<and> m ! i \<noteq> 0x3a"
proof -
  assume i: "l \<le> i" "i < component_end m l" "i < length m"
  let ?t = "takeWhile (\<lambda>c. c \<noteq> 0x5c \<and> c \<noteq> 0 \<and> c \<noteq> 0x3a) (drop l m)"
  have k: "i - l < length ?t" using i by (simp add: component_end_def)
  have "?t ! (i - l) \<noteq> 0x5c \<and> ?t ! (i - l) \<noteq> 0 \<and> ?t ! (i - l) \<noteq> 0x3a"
    using nth_mem [OF k, THEN set_takeWhileD] by simp
  then show ?thesis unfolding takeWhile_nth [OF k] using i by simp
qed

text \<open>
  The invariant: in front of the position there is no terminator and no colon, and every directory is good;
  and the position is at the start of a component, or at an end whose name has been asked for.
\<close>

definition plain_before :: "wstr \<Rightarrow> nat \<Rightarrow> bool" where
  "plain_before m n \<longleftrightarrow> (\<forall>i<n. m ! i \<noteq> 0 \<and> m ! i \<noteq> 0x3a)"

definition good_before :: "(wstr \<Rightarrow> bool \<Rightarrow> ntstatus) \<Rightarrow> wstr \<Rightarrow> nat \<Rightarrow> bool" where
  "good_before ans m n \<longleftrightarrow> (\<forall>i. boundary m i \<longrightarrow> i \<le> n \<longrightarrow> good ans (take i m))"

definition at_start :: "(wstr \<Rightarrow> bool \<Rightarrow> ntstatus) \<Rightarrow> wstr \<Rightarrow> nat \<Rightarrow> bool" where
  "at_start ans m pos \<longleftrightarrow> pos = 0 \<or> m ! (pos - 1) = 0x5c \<or> m ! pos = 0x5c \<or>
     m ! pos \<in> {0, 0x3a} \<and> (ans (take pos m) True = STATUS_NOT_A_REPARSE_POINT \<or> ans (take pos m) False = STATUS_NOT_A_REPARSE_POINT)"

definition loop_inv :: "(wstr \<Rightarrow> bool \<Rightarrow> ntstatus) \<Rightarrow> bool \<Rightarrow> wstr \<Rightarrow> nat \<Rightarrow> bool \<Rightarrow> bool" where
  "loop_inv ans last0 m pos flag \<longleftrightarrow>
     string_at m pos \<and> plain_before m pos \<and> good_before ans m pos \<and> at_start ans m pos \<and> (flag \<longrightarrow> last0) \<and>
     (last0 \<and> \<not> flag \<longrightarrow> m ! pos \<in> {0, 0x3a} \<and> ans (take pos m) False = STATUS_NOT_A_REPARSE_POINT)"

text \<open>What the invariant gives for the next component.\<close>

lemma inv_component:
  assumes "loop_inv ans last0 m pos flag" and l_def: "l = skip_seps m pos" and r_def: "r = component_end m l"
  shows "pos \<le> l" "l \<le> r" "r < length m" "plain_before m r" "\<And>i. boundary m i \<Longrightarrow> i < r \<Longrightarrow> good ans (take i m)"
    "l = 0 \<or> m ! (l - 1) = 0x5c \<or> l = r \<and> pos = l \<and> m ! l \<in> {0, 0x3a}"
proof -
  have s: "string_at m pos" using assms(1) by (simp add: loop_inv_def)
  show le: "pos \<le> l" "l \<le> r" by (simp_all add: l_def r_def skip_seps_le component_end_le)
  have l: "l < length m" "m ! l \<noteq> 0x5c" "string_at m l" using skip_seps_less [OF s] by (simp_all add: l_def)
  show r: "r < length m" using component_end_less(1) [OF l(3)] by (simp add: r_def)
  show "plain_before m r"
    unfolding plain_before_def
  proof (intro allI impI)
    fix i assume i: "i < r"
    consider "i < pos" | "pos \<le> i" "i < l" | "l \<le> i" by linarith
    then show "m ! i \<noteq> 0 \<and> m ! i \<noteq> 0x3a"
    proof cases
      case 1
      then show ?thesis using assms(1) by (simp add: loop_inv_def plain_before_def)
    next
      case 2
      then have "m ! i = 0x5c" using skipped [of pos i m] i r by (simp add: l_def)
      then show ?thesis by simp
    next
      case 3
      then show ?thesis using component_chars [of l i m] i r by (simp add: r_def)
    qed
  qed
  show "good ans (take i m)" if b: "boundary m i" "i < r" for i
  proof -
    have "\<not> l \<le> i" using component_chars [of l i m] b r by (auto simp: r_def boundary_def)
    moreover have "\<not> (pos < i \<and> i < l)"
    proof
      assume i: "pos < i \<and> i < l"
      have "m ! (i - 1) = 0x5c" by (rule skipped [of pos]) (use i r b(2) in \<open>auto simp: l_def\<close>)
      then show False using b(1) by (simp add: boundary_def)
    qed
    ultimately have "i \<le> pos" by linarith
    then show ?thesis using assms(1) b(1) by (simp add: loop_inv_def good_before_def)
  qed
  show "l = 0 \<or> m ! (l - 1) = 0x5c \<or> l = r \<and> pos = l \<and> m ! l \<in> {0, 0x3a}"
  proof (cases "pos < l")
    case True
    then show ?thesis using skipped [of pos "l - 1" m] l(1) by (simp add: l_def)
  next
    case False
    then have e: "pos = l" using le by simp
    have "l = r" if "m ! l \<in> {0, 0x3a}"
    proof (rule ccontr)
      assume "l \<noteq> r"
      then have "l < component_end m l" using le(2) by (simp add: r_def)
      then show False using component_chars [of l l m] l(1) that by auto
    qed
    then show ?thesis using assms(1) l(2) e by (auto simp: loop_inv_def at_start_def)
  qed
qed

text \<open>The new path agrees with the old one up to \<open>new\<close>.\<close>

lemma replaced_inv:
  assumes inv: "loop_inv ans last0 m pos flag" "l = skip_seps m pos" "r = component_end m l"
    and m': "m' = take new m @ target @ strz m r" and new: "new \<le> r"
    and start: "at_start ans m' new"
    and at: "boundary m' new \<Longrightarrow> good ans (take new m)"
  shows "loop_inv ans last0 m' new last0"
proof -
  note c = inv_component [OF inv]
  have n: "new \<le> length m" using new c(3) by simp
  have same: "m' ! i = m ! i" if "i < new" for i using that n by (simp add: m' nth_append)
  have t: "take i m' = take i m" if "i \<le> new" for i using that n by (simp add: m' take_append min_def)
  have "string_at m' new" using string_at_replaced [OF n] m' by simp
  moreover have "plain_before m' new"
    using c(4) new same by (simp add: plain_before_def)
  moreover have "good_before ans m' new"
    unfolding good_before_def
  proof (intro allI impI)
    fix i assume b: "boundary m' i" "i \<le> new"
    show "good ans (take i m')"
    proof (cases "i = new")
      case True
      then show ?thesis using at b t by simp
    next
      case False
      then have "boundary m i" using b same [of i] same [of "i - 1"] n by (auto simp: boundary_def)
      then show ?thesis using c(5) [of i] b(2) False new t [of i] by simp
    qed
  qed
  ultimately show ?thesis using start by (simp add: loop_inv_def)
qed

text \<open>The start of what \<open>memmove\<close> moved.\<close>

lemma strz_start:
  assumes "r < length m" "m ! r \<in> {0x5c, 0, 0x3a}"
  shows "strz m r ! 0 = m ! r"
  using assms by (auto simp: strz_def cstr_def Cons_nth_drop_Suc [symmetric])

lemma back_until_stop: "back_until P m p = 0 \<or> P (m ! back_until P m p) \<and> back_until P m p < p"
  by (induction p) auto

lemma dot_target_stop: "dot_target m l r = Some new \<Longrightarrow> new = 0 \<or> m ! new = 0x5c"
  using back_until_stop [of "\<lambda>c. c = 0x5c" m] by (auto simp: dot_target_def split: if_splits)

lemma dot_inv:
  assumes inv: "loop_inv ans last0 m pos flag" "l = skip_seps m pos" "r = component_end m l"
    and d: "dot_target m l r = Some new" and m': "m' = take new m @ strz m r"
  shows "loop_inv ans last0 m' new last0"
proof (rule replaced_inv [OF inv, where target = "[]"])
  note c = inv_component [OF inv]
  have n: "new < r" by (rule dot_target_less [OF d])
  have s: "string_at m l" using inv(1) skip_seps_less(3) by (simp add: inv(2) loop_inv_def)
  have r: "m ! r \<in> {0x5c, 0, 0x3a}" using component_end_less(2) [OF s] by (simp add: inv(3))
  have m'n: "m' ! new = m ! r" "take new m' = take new m"
    using n c(3) strz_start [OF c(3) r] by (simp_all add: m' nth_append)
  have g: "good ans (take new m)" if "0 < new" "m ! (new - 1) \<noteq> 0x5c"
    using c(5) [of new] dot_target_stop [OF d] that n c(3) by (simp add: boundary_def)
  have same: "0 < new \<Longrightarrow> m' ! (new - 1) = m ! (new - 1)" using n c(3) by (simp add: m' nth_append)
  show "m' = take new m @ [] @ strz m r" "new \<le> r" using m' n by simp_all
  show "at_start ans m' new"
    unfolding at_start_def m'n using same g r by (auto simp: good_def)
  show "good ans (take new m)" if "boundary m' new"
    using g that same by (auto simp: boundary_def)
qed

lemma link_inv:
  assumes inv: "loop_inv ans last0 m pos flag" "l = skip_seps m pos" "r = component_end m l"
    and new: "new = (if target \<noteq> [] \<and> hd target = 0x5c then 0 else l)" and m': "m' = take new m @ target @ strz m r"
    and start: "l = 0 \<or> m ! (l - 1) = 0x5c"
  shows "loop_inv ans last0 m' new last0"
proof (rule replaced_inv [OF inv m'])
  note c = inv_component [OF inv]
  show "new \<le> r" using c(2) by (simp add: new)
  have same: "0 < new \<Longrightarrow> m' ! (new - 1) = m ! (new - 1)" using c(2,3) by (simp add: m' nth_append new)
  then show "at_start ans m' new" using start by (auto simp: at_start_def new split: if_splits)
  show "good ans (take new m)" if "boundary m' new"
    using that same start by (auto simp: boundary_def new split: if_splits)
qed

text \<open>
  A path is resolved if every directory on the way, up to a colon, is good, and if the last component was
  to be resolved too, the whole name is no reparse point or does not exist.
\<close>

definition resolved :: "(wstr \<Rightarrow> bool \<Rightarrow> ntstatus) \<Rightarrow> bool \<Rightarrow> wstr \<Rightarrow> bool" where
  "resolved ans last0 p \<longleftrightarrow>
     (\<forall>i. boundary p i \<longrightarrow> 0x3a \<notin> set (take i p) \<longrightarrow> good ans (take i p)) \<and>
     (last0 \<longrightarrow> ans (takeWhile (\<lambda>c. c \<noteq> 0x3a) p) False \<in> {STATUS_NOT_A_REPARSE_POINT, STATUS_OBJECT_NAME_NOT_FOUND})"

lemma exit_resolved:
  assumes inv: "loop_inv ans last0 m pos flag" "l = skip_seps m pos" "r = component_end m l"
    and r: "m ! r \<noteq> 0x5c" and name: "last0 \<Longrightarrow> ans (take r m) False \<in> {STATUS_NOT_A_REPARSE_POINT, STATUS_OBJECT_NAME_NOT_FOUND}"
  shows "resolved ans last0 (cstr m 0)"
proof -
  note c = inv_component [OF inv]
  define p where "p = cstr m 0"
  have pm: "p ! i = m ! i" "m ! i \<noteq> 0" "i < length m" if "i < length p" for i
  proof -
    have j: "i < length (takeWhile (\<lambda>c. c \<noteq> 0) m)" using that by (simp add: p_def cstr_def)
    show "p ! i = m ! i" using takeWhile_nth [OF j] by (simp add: p_def cstr_def)
    then show "m ! i \<noteq> 0" using nth_mem [OF j, THEN set_takeWhileD] by (simp add: p_def cstr_def)
    show "i < length m" using less_le_trans [OF j length_takeWhile_le] .
  qed
  have "string_at m l" using inv(1) skip_seps_less(3) by (simp add: inv(2) loop_inv_def)
  then have mr: "m ! r \<in> {0, 0x3a}" using component_end_less(2) r by (auto simp: inv(3))
  have len: "r \<le> length p"
    unfolding p_def cstr_def drop_0
    by (rule ccontr) (use c(3,4) nth_length_takeWhile [of "\<lambda>c. c \<noteq> 0" m] in \<open>auto simp: plain_before_def not_le\<close>)
  have take: "take i p = take i m" if "i \<le> length p" for i
  proof -
    have "i \<le> length m" using that length_takeWhile_le [of "\<lambda>c. c \<noteq> 0" m] by (simp add: p_def cstr_def)
    then show ?thesis using that pm(1) by (intro nth_equalityI) simp_all
  qed
  have e: "takeWhile (\<lambda>c. c \<noteq> 0x3a) p = take r m"
    unfolding take [OF len, symmetric]
    using c(4) pm len mr by (intro takeWhile_eq_take_P_nth) (auto simp: plain_before_def)
  have "good ans (take i p)" if b: "boundary p i" "0x3a \<notin> set (take i p)" for i
  proof -
    have i: "i < length p" using b(1) by (simp add: boundary_def)
    have "i \<le> r"
    proof (rule ccontr)
      assume "\<not> i \<le> r"
      then have lt: "r < i" "r < length p" using i by simp_all
      then have "p ! r = 0x3a" using pm [OF lt(2)] mr by auto
      then have "0x3a \<in> set (take i p)" using lt i by (auto simp: in_set_conv_nth intro!: exI [of _ r])
      then show False using b(2) by blast
    qed
    moreover have "m ! i = 0x5c" "m ! (i - 1) \<noteq> 0x5c" "0 < i" "i < length m"
      using b(1) pm [OF i] pm [of "i - 1"] i by (auto simp: boundary_def)
    moreover from this r have "i \<noteq> r" by metis
    ultimately have "boundary m i" "i < r" by (simp_all add: boundary_def)
    then show ?thesis using c(5) take i by simp
  qed
  then show ?thesis using name e unfolding resolved_def p_def [symmetric] by simp
qed

lemma asked_name:
  assumes "plain_before m r" "r < length m"
  shows "cstr (m[r := 0]) 0 = take r m"
proof -
  have "m[r := 0] = take r m @ 0 # drop (Suc r) m" using assms(2) by (simp add: upd_conv_take_nth_drop)
  moreover have "0 \<notin> set (take r m)" using assms by (auto simp: plain_before_def in_set_conv_nth)
  ultimately show ?thesis by (simp add: cstr_string)
qed

lemma not_dots:
  assumes "dot_target m l r = None" "l < r" "r < length m"
  shows "take (r - l) (drop l m) \<noteq> [0x2e]" "take (r - l) (drop l m) \<noteq> [0x2e, 0x2e]"
proof -
  let ?c = "take (r - l) (drop l m)"
  have n: "length ?c = r - l" "\<And>k. k < r - l \<Longrightarrow> ?c ! k = m ! (l + k)" using assms(2,3) by simp_all
  show "?c \<noteq> [0x2e]"
  proof
    assume c: "?c = [0x2e]"
    then have "r = l + 1" using n(1) assms(2) by simp
    moreover have "m ! l = 0x2e" using n(2) [of 0] c assms(2) by simp
    ultimately show False using assms(1) by (simp add: dot_target_def)
  qed
  show "?c \<noteq> [0x2e, 0x2e]"
  proof
    assume c: "?c = [0x2e, 0x2e]"
    then have "r = l + 2" using n(1) assms(2) by simp
    moreover have "?c ! 0 = 0x2e" "?c ! 1 = 0x2e" unfolding c by simp_all
    moreover have "?c ! 0 = m ! l" "?c ! 1 = m ! (l + 1)" using n(2) [of 0] n(2) [of 1] calculation(1) by simp_all
    ultimately show False using assms(1) by (simp add: dot_target_def)
  qed
qed

lemma passed_inv:
  assumes inv: "loop_inv ans last0 m pos flag" "l = skip_seps m pos" "r = component_end m l"
    and go: "m ! r = 0x5c \<or> flag" and d: "dot_target m l r = None"
    and a: "ans (take r m) (m ! r = 0x5c) = STATUS_NOT_A_REPARSE_POINT"
  shows "loop_inv ans last0 m r (m ! r = 0x5c \<and> flag)"
proof -
  note c = inv_component [OF inv]
  have s: "string_at m l" "m ! l \<noteq> 0x5c" using inv(1) skip_seps_less(2,3) by (simp_all add: inv(2) loop_inv_def)
  note e = component_end_less [OF s(1), folded inv(3)]
  have "good ans (take i m)" if b: "boundary m i" "i \<le> r" for i
  proof (cases "i = r")
    case False
    then show ?thesis using c(5) b by simp
  next
    case True
    then have r: "m ! r = 0x5c" "0 < r" using b(1) by (simp_all add: boundary_def)
    then have lr: "l < r" "l = 0 \<or> m ! (l - 1) = 0x5c" using s(2) c(2,6) by (auto simp: le_less)
    have comp: "last_component (take r m) = take (r - l) (drop l m)"
      by (rule last_component_at) (use lr c(2,3) component_chars [of l _ m] in \<open>auto simp: inv(3)\<close>)
    show ?thesis using a r(1) comp True not_dots [OF d lr(1) c(3)] by (simp add: good_def)
  qed
  moreover have "m ! pos \<in> {0, 0x3a} \<Longrightarrow> m ! r \<noteq> 0x5c"
  proof -
    assume p: "m ! pos \<in> {0, 0x3a}"
    have "pos = l" using skipped [of pos pos m] c(1-3) p by (fastforce simp: inv(2))
    moreover have "l = r" using component_chars [of l l m] c(2,3) p calculation by (fastforce simp: inv(3))
    ultimately show "m ! r \<noteq> 0x5c" using p by auto
  qed
  ultimately show ?thesis
    using inv(1) c(4) e a go by (auto simp: loop_inv_def good_before_def at_start_def)
qed

text \<open>How the loop can go on to a relative path after it has asked for a name.\<close>

lemma resolve_ask_path:
  assumes "string_at m pos" "l = skip_seps m pos" "r = component_end m l" "m ! r = 0x5c \<or> flag" "dot_target m l r = None"
    and "get s (cstr (m[r := 0]) 0) (m ! r = 0x5c) = ((q, w), s1)"
    and res: "resolve_loop get Size last0 tries m pos flag data s = Some (Reparse_path p False tag, s')"
  obtains (passed) data' where "q = STATUS_NOT_A_REPARSE_POINT"
      "resolve_loop get Size last0 tries m r (m ! r = 0x5c \<and> flag) data' s1 = Some (Reparse_path p False tag, s')"
  | (missing) "q = STATUS_OBJECT_NAME_NOT_FOUND" "m ! r \<noteq> 0x5c" "p = cstr m 0"
  | (link) m' new target data' where "q \<noteq> STATUS_NOT_A_REPARSE_POINT" "\<not> tries \<le> 1"
      "new = (if target \<noteq> [] \<and> hd target = 0x5c then 0 else l)" "replace_path Size m new target r = Some m'"
      "resolve_loop get Size last0 (tries - 1) m' new last0 data' s1 = Some (Reparse_path p False tag, s')"
proof -
  define data' where "data' = (case w of None \<Rightarrow> data | Some d \<Rightarrow> d)"
  define rooted where "rooted = (SubstituteName data' \<noteq> [] \<and> hd (SubstituteName data') = 0x5c)"
  define new where "new = (if rooted then 0 else l)"
  note u = resolve_ask [where get = get and s = s and data = data, OF assms(1), folded assms(2), folded assms(3),
    OF assms(4-6) data'_def rooted_def new_def, of Size last0 tries]
  show ?thesis
    using res unfolding u
    by (auto simp: reparse_data_exit_def symlink_exit_def new_def rooted_def split: if_splits option.splits
        intro: passed missing link)
qed

text \<open>A link that is followed starts a component.\<close>

lemma link_start:
  assumes inv: "loop_inv ans last0 m pos flag" "l = skip_seps m pos" "r = component_end m l"
    and go: "m ! r = 0x5c \<or> flag" and a: "ans (take r m) (m ! r = 0x5c) \<noteq> STATUS_NOT_A_REPARSE_POINT"
    and consistent: "\<And>name. ans name True = STATUS_NOT_A_REPARSE_POINT \<Longrightarrow> ans name False = STATUS_NOT_A_REPARSE_POINT"
  shows "l = 0 \<or> m ! (l - 1) = 0x5c"
proof (rule ccontr)
  assume no: "\<not> ?thesis"
  then have e: "l = r" "pos = l" "m ! l \<in> {0, 0x3a}" using inv_component(6) [OF inv] by blast+
  then have "ans (take r m) False = STATUS_NOT_A_REPARSE_POINT"
    using inv(1) no consistent by (auto simp: loop_inv_def at_start_def)
  then show False using a e by auto
qed

lemma resolve_loop_resolved:
  assumes stable: "\<And>s name d. fst (fst (get s name d)) = ans name d"
    and consistent: "\<And>name. ans name True = STATUS_NOT_A_REPARSE_POINT \<Longrightarrow> ans name False = STATUS_NOT_A_REPARSE_POINT"
    and "string_at m pos"
  shows "loop_inv ans last0 m pos flag \<Longrightarrow>
     resolve_loop get Size last0 tries m pos flag data s = Some (Reparse_path p False tag, s') \<Longrightarrow> resolved ans last0 p"
  using assms(3)
proof (induction tries m pos flag data s arbitrary: p tag s' rule: resolve_induct [where Size = Size and ?last0.0 = last0])
  case (round tries m pos flag data s)
  define l where "l = skip_seps m pos"
  define r where "r = component_end m l"
  note inv = round(5) l_def r_def
  note c = inv_component [OF inv]
  have r': "component_end m (skip_seps m pos) = r" by (simp add: r_def l_def)
  note IH = round(2-4) [unfolded r', folded l_def]
  have mr: "m ! pos \<in> {0, 0x3a} \<Longrightarrow> pos = r"
    using c(1-3) skipped [of pos pos m] component_chars [of l l m] by (fastforce simp: l_def r_def)
  show ?case
  proof (cases "m ! r = 0x5c \<or> flag")
    case False
    then have "resolve_loop get Size last0 tries m pos flag data s = Some (symlink_exit m False data, s)"
      using round(1) by (intro resolve_exit) (simp_all add: r')
    then have p: "p = cstr m 0" using round(6) by (simp add: symlink_exit_def)
    have "last0 \<Longrightarrow> ans (take r m) False = STATUS_NOT_A_REPARSE_POINT"
      using round(5) False mr by (auto simp: loop_inv_def)
    then show ?thesis unfolding p using False by (intro exit_resolved [OF inv]) simp_all
  next
    case go: True
    show ?thesis
    proof (cases "dot_target m l r")
      case (Some new)
      note u = resolve_dot [where get = get and s = s and data = data, OF round(1), unfolded r', folded l_def, OF go Some,
        of Size last0 tries]
      obtain m' where m': "replace_path Size m new [] r = Some m'"
        using round(6) unfolding u by (auto split: option.splits)
      have "loop_inv ans last0 m' new last0"
        by (rule dot_inv [OF inv Some]) (use m' in \<open>auto simp: replace_path_def split: if_splits\<close>)
      then show ?thesis using IH(1) [OF go Some m'] round(6) u m' by simp
    next
      case None
      obtain q w s1 where g: "get s (cstr (m[r := 0]) 0) (m ! r = 0x5c) = ((q, w), s1)" by (metis prod.collapse)
      have q: "ans (take r m) (m ! r = 0x5c) = q"
        using stable [of s "take r m" "m ! r = 0x5c"] g asked_name [OF c(4,3)] by simp
      from round(1) l_def r_def go None g round(6) show ?thesis
      proof (cases rule: resolve_ask_path)
        case (passed data')
        have "loop_inv ans last0 m r (m ! r = 0x5c \<and> flag)"
          by (rule passed_inv [OF inv go None]) (use q passed in simp)
        then show ?thesis using passed(2) by (rule IH(2) [OF go])
      next
        case missing
        then show ?thesis using q by (auto intro: exit_resolved [OF inv])
      next
        case (link m' new target data')
        have "loop_inv ans last0 m' new last0"
          by (rule link_inv [OF inv link(3) _ link_start [OF inv go _ consistent]])
            (use link(1,4) q in \<open>auto simp: replace_path_def split: if_splits\<close>)
        then show ?thesis using link(5) by (rule IH(3) [OF go link(2,3) [folded l_def] link(4)])
      qed
    qed
  qed
qed

end
