(* ===== verification/FsReparseClaims.thy ===== *)
theory FsReparseClaims
  imports FsReparseProps
begin

text \<open>The properties of finding and resolving reparse points, with examples.\<close>

section \<open>Finding a reparse point\<close>

text \<open>
  An index at which the resolution can start: at the start of a component, behind directories that are good.
\<close>

definition resolve_start :: "(wstr \<Rightarrow> bool \<Rightarrow> ntstatus) \<Rightarrow> wstr \<Rightarrow> nat \<Rightarrow> bool" where
  "resolve_start ans p n \<longleftrightarrow>
     n \<le> length p \<and> (n = 0 \<or> p ! (n - 1) = 0x5c) \<and> 0x3a \<notin> set (take n p) \<and>
     (\<forall>i. boundary p i \<longrightarrow> i \<le> n \<longrightarrow> good ans (take i p))"

definition dot_free :: "wstr \<Rightarrow> bool" where
  "dot_free p \<longleftrightarrow> (\<forall>i. boundary p i \<longrightarrow> last_component (take i p) \<noteq> [0x2e] \<and> last_component (take i p) \<noteq> [0x2e, 0x2e])"

lemma boundary_snoc [simp]: "boundary (p @ [0]) i \<longleftrightarrow> boundary p i"
  by (auto simp: boundary_def nth_append)

lemma boundary_take: "boundary p i \<Longrightarrow> take i (p @ q) = take i p"
  by (simp add: boundary_def)

lemma loop_inv_start:
  assumes "resolve_start ans p n" "0 \<notin> set p"
  shows "loop_inv ans last0 (p @ [0]) n last0"
proof -
  have n: "n \<le> length p" using assms(1) by (simp add: resolve_start_def)
  have "p ! i \<noteq> 0 \<and> p ! i \<noteq> 0x3a" if "i < n" for i
  proof -
    have "p ! i \<in> set (take n p)" using that n by (force simp: in_set_conv_nth)
    then have "p ! i \<in> set (take n p)" "p ! i \<in> set p" by (auto dest: in_set_takeD)
    then show ?thesis using assms by (auto simp: resolve_start_def)
  qed
  then have "plain_before (p @ [0]) n" using n by (simp add: plain_before_def nth_append)
  moreover have "at_start ans (p @ [0]) n" using assms(1) n by (auto simp: at_start_def resolve_start_def nth_append)
  moreover have "good_before ans (p @ [0]) n" using assms(1) by (simp add: good_before_def resolve_start_def boundary_take del: take_append)
  moreover have "string_at (p @ [0]) n" using n by (simp add: string_at_def)
  ultimately show ?thesis by (simp add: loop_inv_def)
qed

lemma dot_target_component:
  assumes "dot_target m l r \<noteq> None" "l < r" "r < length m"
  shows "take (r - l) (drop l m) \<in> {[0x2e], [0x2e, 0x2e]}"
proof -
  have "drop l m = m ! l # drop (Suc l) m" using assms by (simp add: Cons_nth_drop_Suc)
  moreover have "drop (Suc l) m = m ! Suc l # drop (Suc (Suc l)) m" if "Suc l < r"
    using that assms(3) by (simp add: Cons_nth_drop_Suc)
  ultimately show ?thesis using assms(1) by (auto simp: dot_target_def split: if_splits)
qed

lemma find_induct [case_names step]:
  assumes "\<And>pos s. (\<And>s'. m ! component_end m (skip_seps m pos) = 0x5c \<Longrightarrow> string_at m pos \<Longrightarrow>
      P (component_end m (skip_seps m pos)) s') \<Longrightarrow> P pos s"
  shows "P pos s"
proof (induction "length m - pos" arbitrary: pos s rule: less_induct)
  case less
  show ?case by (rule assms) (use less component_shortens in blast)
qed

text \<open>What \<open>find_loop\<close> gives: the component at the index is a reparse point, and what is in front of it is good.\<close>

lemma find_loop_found:
  assumes stable: "\<And>s name d. fst (fst (get s name d)) = ans name d"
    and dots: "\<And>i. boundary m i \<Longrightarrow> last_component (take i m) \<noteq> [0x2e] \<and> last_component (take i m) \<noteq> [0x2e, 0x2e]"
  shows "loop_inv ans False m pos False \<Longrightarrow> find_loop get s m pos = Some (Some index, s') \<Longrightarrow>
     \<exists>l. index = of_nat l \<and> l < component_end m l \<and> component_end m l < length m \<and> m ! component_end m l = 0x5c
       \<and> (l = 0 \<or> m ! (l - 1) = 0x5c) \<and> plain_before m l \<and> good_before ans m l
       \<and> NT_SUCCESS (ans (take (component_end m l) m) True)"
proof (induction pos s rule: find_induct [where m = m])
  case (step pos s)
  define l where "l = skip_seps m pos"
  define r where "r = component_end m l"
  note inv = step(2) l_def r_def
  note c = inv_component [OF inv]
  have at: "string_at m pos" using step(2) by (simp add: loop_inv_def)
  have l: "m ! l \<noteq> 0x5c" using skip_seps_less(2) [OF at] by (simp add: l_def)
  obtain q w s1 where g: "get s (cstr (m[r := 0]) 0) True = ((q, w), s1)" by (metis prod.collapse)
  have n: "cstr (m[r := 0]) 0 = take r m" by (rule asked_name [OF c(4,3)])
  have q: "ans (take r m) True = q" using stable [of s "take r m" True] g n by simp
  have r': "component_end m (skip_seps m pos) = r" by (simp add: r_def l_def)
  have sep: "m ! r = 0x5c" using step(3) at by (subst (asm) find_loop.simps) (auto simp: Let_def r' split: if_splits)
  have lr: "l < r" using c(2) l sep by (metis le_neq_implies_less)
  have start: "l = 0 \<or> m ! (l - 1) = 0x5c" using c(6) lr by auto
  show ?case
  proof (cases "q = STATUS_NOT_A_REPARSE_POINT")
    case True
    have "last_component (take r m) = take (r - l) (drop l m)"
      by (rule last_component_at) (use lr c(3) start component_chars [of l _ m] in \<open>auto simp: r_def\<close>)
    moreover have b: "boundary m r" using sep lr c(3) component_chars [of l "r - 1" m] by (auto simp: boundary_def r_def)
    ultimately have "dot_target m l r = None" using dot_target_component [OF _ lr c(3)] dots [OF b] by force
    then have "loop_inv ans False m r False"
      using passed_inv [OF inv] sep q True by simp
    moreover have "find_loop get s1 m r = Some (Some index, s')"
      using step(3) at by (subst (asm) find_loop.simps) (simp add: Let_def l_def [symmetric] r_def [symmetric] sep g True)
    ultimately show ?thesis using step(1) [of s1] sep at by (simp add: r')
  next
    case False
    then have "NT_SUCCESS q \<and> index = of_nat l"
      using step(3) at by (subst (asm) find_loop.simps) (auto simp: Let_def l_def [symmetric] r_def [symmetric] sep g split: if_splits)
    moreover have "plain_before m l" using c(4) lr by (simp add: plain_before_def)
    moreover have "good_before ans m l" using c(5) lr by (simp add: good_before_def)
    ultimately show ?thesis using lr c(3) sep start q by (auto simp: r_def)
  qed
qed

lemma resolve_start_drop:
  assumes "plain_before (p @ [0]) n" "good_before ans (p @ [0]) n" "n \<le> length p" "n = 0 \<or> (p @ [0]) ! (n - 1) = 0x5c"
  shows "resolve_start ans p n"
proof -
  have "n = 0 \<or> p ! (n - 1) = 0x5c" using assms(3,4) by (cases n) (auto simp: nth_append)
  moreover have "0x3a \<notin> set (take n p)"
    using assms(1,3) by (auto simp: plain_before_def in_set_conv_nth nth_append)
  ultimately show ?thesis
    using assms(2,3) unfolding resolve_start_def good_before_def by (simp add: boundary_take del: take_append)
qed

text \<open>C33. If the answers of the file system to a name do not change while it is asked, a reparse point that is found
  on the way of a name without \<open>.\<close> and \<open>..\<close> is the first one: every directory in front of it has answered that
  it is none, it has answered with success, and its index is that of the start of its component, where the
  resolution can go on.\<close>
theorem find_reparse_point:
  assumes "\<And>s name d. fst (fst (get s name d)) = ans name d" and "0 \<notin> set FileName" "dot_free FileName"
    and "length FileName < 2 ^ 32" and "FspFileSystemFindReparsePoint get s FileName = Some (Some index, s')"
  shows "resolve_start ans FileName (unat index) \<and>
     (\<exists>r. unat index < r \<and> boundary FileName r \<and> 0x5c \<notin> set (drop (unat index) (take r FileName)) \<and>
       NT_SUCCESS (ans (take r FileName) True))"
proof -
  let ?m = "FileName @ [0]"
  have d: "\<And>i. boundary ?m i \<Longrightarrow> last_component (take i ?m) \<noteq> [0x2e] \<and> last_component (take i ?m) \<noteq> [0x2e, 0x2e]"
    using assms(3) by (simp add: dot_free_def boundary_take del: take_append)
  have "loop_inv ans False ?m 0 False"
    using assms(2) by (intro loop_inv_start) (simp_all add: resolve_start_def boundary_def)
  from find_loop_found [where get = get and ans = ans, OF assms(1) d this assms(5) [unfolded FspFileSystemFindReparsePoint_def]]
  obtain l where l: "index = of_nat l" "l < component_end ?m l" "component_end ?m l < length ?m" "?m ! component_end ?m l = 0x5c"
      "l = 0 \<or> ?m ! (l - 1) = 0x5c" "plain_before ?m l" "good_before ans ?m l" "NT_SUCCESS (ans (take (component_end ?m l) ?m) True)"
    by blast
  define r where "r = component_end ?m l"
  have r: "r < length FileName" using l(3,4) by (cases "r = length FileName") (simp_all add: r_def [symmetric])
  have u: "unat index = l" using l(1,2,3) assms(4) by (simp add: unat_of_nat take_bit_nat_eq_self)
  have "?m ! (r - 1) \<noteq> 0x5c" using component_chars [of l "r - 1" ?m] l(2,3) by (simp add: r_def)
  then have "boundary ?m r" using l(2,4) r by (auto simp: boundary_def r_def)
  moreover have "0x5c \<notin> set (drop l (take r FileName))"
  proof
    assume "0x5c \<in> set (drop l (take r FileName))"
    then obtain k where "l + k < r" "FileName ! (l + k) = 0x5c" using r by (auto simp: in_set_conv_nth) (metis add.commute less_diff_conv)
    then show False using component_chars [of l "l + k" ?m] r by (simp add: r_def nth_append)
  qed
  moreover have "resolve_start ans FileName l"
    using l(2,5-7) r by (intro resolve_start_drop) (simp_all add: r_def)
  ultimately show ?thesis using l(2,8) r by (intro conjI exI [of _ r]) (simp_all add: u r_def [symmetric])
qed

text \<open>An example: \<open>\a\<close> is a link to \<open>b\<close>, every other name is that of a plain file.\<close>

definition demo_link :: reparse_data where
  "demo_link = \<lparr>ReparseTag = IO_REPARSE_TAG_SYMLINK, Link_Relative = True, SubstituteName = [0x62], Reparse_Bytes = []\<rparr>"

definition demo_answer :: "wstr \<Rightarrow> bool \<Rightarrow> ntstatus" where
  "demo_answer name directory = (if name = [0x5c, 0x61] then STATUS_SUCCESS else STATUS_NOT_A_REPARSE_POINT)"

definition demo_get :: "unit get_reparse_point" where
  "demo_get s name directory =
     ((demo_answer name directory, if name = [0x5c, 0x61] then Some demo_link else None), s)"

lemma demo_dot_free: "dot_free [0x5c, 0x61, 0x5c, 0x63]"
  unfolding dot_free_def
proof (intro allI impI)
  fix i
  assume "boundary [0x5c, 0x61, 0x5c, 0x63] i"
  then have "i = 2" by (cases "i < 4") (auto simp: boundary_def less_Suc_eq numeral_eq_Suc)
  then show "last_component (take i [0x5c, 0x61, 0x5c, 0x63]) \<noteq> [0x2e] \<and>
      last_component (take i [0x5c, 0x61, 0x5c, 0x63]) \<noteq> [0x2e, 0x2e]"
    by (simp add: last_component_def)
qed

theorem find_reparse_point_witness:
  "resolve_start demo_answer [0x5c, 0x61, 0x5c, 0x63] (unat (1 :: u32)) \<and>
     (\<exists>r. unat (1 :: u32) < r \<and> boundary [0x5c, 0x61, 0x5c, 0x63] r \<and>
       (0x5c :: u16) \<notin> set (drop (unat (1 :: u32)) (take r [0x5c, 0x61, 0x5c, 0x63])) \<and>
       NT_SUCCESS (demo_answer (take r [0x5c, 0x61, 0x5c, 0x63]) True))"
proof (rule find_reparse_point [where get = demo_get and s = "()" and s' = "()"])
  show "FspFileSystemFindReparsePoint demo_get () [0x5c, 0x61, 0x5c, 0x63] = Some (Some 1, ())" by code_simp
qed (simp_all add: demo_get_def demo_dot_free)

section \<open>Resolving reparse points\<close>

text \<open>C34. Resolving the reparse points of a name from an index inside it returns, whatever the file system answers,
  also on a cycle of links: it reads nothing behind the path, and what it returns fits into the buffer of the
  caller, a path with its header of 20 bytes and its terminator.\<close>
theorem resolve_returns:
  assumes "unat ReparsePointIndex \<le> length FileName"
  shows "\<exists>res s'. FspFileSystemResolveReparsePoints get fresh Size FileName ReparsePointIndex last0 s = Some (res, s')
    \<and> result_fits Size res"
proof (cases fresh)
  case None
  then show ?thesis by (simp add: FspFileSystemResolveReparsePoints_def)
next
  case (Some data)
  have "string_at (FileName @ [0]) (unat ReparsePointIndex)" using assms by (simp add: string_at_def)
  from resolve_loop_fits [OF this, where Size = Size and get = get and ?last0.0 = last0 and tries = 32 and flag = last0 and data = data and s = s]
  show ?thesis
    by (simp add: Some FspFileSystemResolveReparsePoints_def FspFileSystemResolveReparsePointsInternal_def)
qed

theorem resolve_returns_witness:
  "\<exists>res s'. FspFileSystemResolveReparsePoints demo_get (Some demo_link) 100 [0x5c, 0x61] 1 True () = Some (res, s')
    \<and> result_fits 100 res"
  by (rule resolve_returns) simp

text \<open>C35. If the answers of the file system to a name do not change while it is asked, and a name that is no reparse
  point as a directory is none as a file, then a name that is resolved from a start such as the one that was found,
  and comes back as a relative path, is resolved: no directory on the way is a reparse point, \<open>.\<close> or \<open>..\<close>,
  and if the last component was to be resolved too, the name is no reparse point or does not exist.\<close>
theorem resolve_resolved:
  assumes "\<And>s name d. fst (fst (get s name d)) = ans name d"
    and "\<And>name. ans name True = STATUS_NOT_A_REPARSE_POINT \<Longrightarrow> ans name False = STATUS_NOT_A_REPARSE_POINT"
    and "resolve_start ans FileName (unat ReparsePointIndex)" "0 \<notin> set FileName"
    and "FspFileSystemResolveReparsePoints get fresh Size FileName ReparsePointIndex last0 s =
      Some (Reparse_path p False tag, s')"
  shows "resolved ans last0 p"
proof -
  have inv: "loop_inv ans last0 (FileName @ [0]) (unat ReparsePointIndex) last0" by (rule loop_inv_start [OF assms(3,4)])
  obtain data where r: "resolve_loop get Size last0 32 (FileName @ [0]) (unat ReparsePointIndex) last0 data s =
      Some (Reparse_path p False tag, s')"
    using assms(5)
    by (auto simp: FspFileSystemResolveReparsePoints_def FspFileSystemResolveReparsePointsInternal_def
        split: option.splits if_splits)
  have at: "string_at (FileName @ [0]) (unat ReparsePointIndex)" using inv unfolding loop_inv_def by blast
  show ?thesis by (rule resolve_loop_resolved [where get = get, OF assms(1,2) at inv r])
qed

theorem resolve_resolved_witness: "resolved demo_answer True [0x5c, 0x62, 0x5c, 0x63]"
proof (rule resolve_resolved [where get = demo_get and FileName = "[0x5c, 0x61, 0x5c, 0x63]" and ReparsePointIndex = 1
      and fresh = "Some demo_link" and Size = 100 and s = "()" and s' = "()" and tag = IO_REPARSE_TAG_SYMLINK])
  show "resolve_start demo_answer [0x5c, 0x61, 0x5c, 0x63] (unat (1 :: u32))"
    by (auto simp: resolve_start_def boundary_def le_Suc_eq)
  show "FspFileSystemResolveReparsePoints demo_get (Some demo_link) 100 [0x5c, 0x61, 0x5c, 0x63] 1 True () =
      Some (Reparse_path [0x5c, 0x62, 0x5c, 0x63] False IO_REPARSE_TAG_SYMLINK, ())" by code_simp
qed (simp_all add: demo_get_def demo_answer_def)

end
