(* ===== verification/FsEa.thy ===== *)
theory FsEa
  imports DirBuf FsReparse
begin

text \<open>
  The helpers of \<open>src/dll/fsop.c\<close> for file systems: lists of streams and notifications, which have the form of
  a directory listing, lists of extended attributes
  (\<open>FspFileSystemEnumerateEa\<close>, \<open>FspFileSystemAddEa\<close>), byte for byte, and
  \<open>FspFileSystemCanReplaceReparsePoint\<close>. An entry has a header of 8 bytes (\<open>NextEntryOffset\<close>,
  \<open>Flags\<close>, \<open>EaNameLength\<close>, \<open>EaValueLength\<close>), the name with a terminator, and the value. \<open>None\<close> is an
  access outside the buffer, or a loop that does not end.
\<close>

section \<open>Entries\<close>

text \<open>The fields of the entry that a buffer starts with.\<close>

definition ea_next :: "bytes \<Rightarrow> nat option" where
  "ea_next e = map_option (\<lambda>h. unat (le_dec h :: u32)) (buf_slice e 0 4)"

definition ea_name_length :: "bytes \<Rightarrow> nat option" where
  "ea_name_length e = map_option (\<lambda>h. unat (le_dec h :: u8)) (buf_slice e 5 1)"

definition ea_value_length :: "bytes \<Rightarrow> nat option" where
  "ea_value_length e = map_option (\<lambda>h. unat (le_dec h :: u16)) (buf_slice e 6 2)"

text \<open>The name as a C string, and the value.\<close>

definition ea_name :: "bytes \<Rightarrow> bytes option" where
  "ea_name e = (if 0 \<in> set (drop 8 e) then Some (takeWhile (\<lambda>c. c \<noteq> 0) (drop 8 e)) else None)"

definition ea_value :: "bytes \<Rightarrow> bytes option" where
  "ea_value e = do { n \<leftarrow> ea_name_length e; v \<leftarrow> ea_value_length e; buf_slice e (8 + n + 1) v }"

section \<open>Enumeration\<close>

text \<open>
  The callback gets the memory from the entry on. \<open>FSP_NEXT_EA\<close> goes to the end after an entry whose
  \<open>NextEntryOffset\<close> is zero.
\<close>

function enumerate_ea_loop ::
  "('s \<Rightarrow> bytes \<Rightarrow> (ntstatus \<times> 's) option) \<Rightarrow> bytes \<Rightarrow> nat \<Rightarrow> nat \<Rightarrow> ntstatus \<Rightarrow> 's \<Rightarrow> (ntstatus \<times> 's) option" where
  "enumerate_ea_loop EnumerateEa b pos end Result s =
     (if pos < end then
        (case EnumerateEa s (drop pos b) of
           None \<Rightarrow> None
         | Some (Result, s) \<Rightarrow>
             if \<not> NT_SUCCESS Result then Some (Result, s)
             else (case ea_next (drop pos b) of
                 None \<Rightarrow> None
               | Some n \<Rightarrow> enumerate_ea_loop EnumerateEa b (if n \<noteq> 0 then pos + n else end) end Result s))
      else Some (Result, s))"
  by pat_completeness auto
termination by (relation "measure (\<lambda>(_, _, pos, end, _, _). end - pos)") auto

declare enumerate_ea_loop.simps [simp del]

definition FspFileSystemEnumerateEa ::
  "('s \<Rightarrow> bytes \<Rightarrow> (ntstatus \<times> 's) option) \<Rightarrow> bytes \<Rightarrow> u32 \<Rightarrow> 's \<Rightarrow> (ntstatus \<times> 's) option" where
  "FspFileSystemEnumerateEa EnumerateEa Ea EaLength s = enumerate_ea_loop EnumerateEa Ea 0 (unat EaLength) STATUS_SUCCESS s"

section \<open>Adding an entry\<close>

text \<open>The loop that finds the last entry: \<open>while (EaEnd > Ea + Ea->NextEntryOffset)\<close>.\<close>

partial_function (option) last_ea_loop :: "bytes \<Rightarrow> nat \<Rightarrow> nat \<Rightarrow> nat option" where
  "last_ea_loop b pos end =
     (case ea_next (drop pos b) of
        None \<Rightarrow> None
      | Some n \<Rightarrow> if end > pos + n then last_ea_loop b (pos + n) end else Some pos)"

text \<open>The result, the buffer and \<open>*PBytesTransferred\<close>; a null \<open>SingleEa\<close> ends the list.\<close>

definition FspFileSystemAddEa :: "bytes option \<Rightarrow> bytes \<Rightarrow> u32 \<Rightarrow> u32 \<Rightarrow> (bool \<times> bytes \<times> u32) option" where
  "FspFileSystemAddEa SingleEa Ea Length BytesTransferred =
     (case SingleEa of
        Some e \<Rightarrow> do {
          n \<leftarrow> ea_name_length e;
          v \<leftarrow> ea_value_length e;
          let EaPtr = unat (FSP_FSCTL_ALIGN_UP BytesTransferred 4);
          let EaLen = 8 + n + 1 + v;
          if unat Length < EaPtr + EaLen then Some (False, Ea, BytesTransferred)
          else do {
            src \<leftarrow> buf_slice e 0 EaLen;
            Ea \<leftarrow> buf_put Ea EaPtr src;
            Ea \<leftarrow> buf_put Ea EaPtr (le_enc 4 (FSP_FSCTL_ALIGN_UP (of_nat EaLen) 4));
            Some (True, Ea, of_nat (EaPtr + EaLen)) } }
      | None \<Rightarrow>
          if 8 \<le> BytesTransferred then do {
            last \<leftarrow> last_ea_loop Ea 0 (unat BytesTransferred);
            Ea \<leftarrow> buf_put Ea last (le_enc 4 (0 :: u32));
            Some (True, Ea, BytesTransferred) }
          else Some (True, Ea, BytesTransferred))"

section \<open>Streams and notifications\<close>

definition FspFileSystemAddStreamInfo :: "bytes option \<Rightarrow> bytes \<Rightarrow> u32 \<Rightarrow> u32 \<Rightarrow> (bool \<times> bytes \<times> u32) option" where
  "FspFileSystemAddStreamInfo StreamInfo = FspFileSystemAddXxxInfo StreamInfo"

definition FspFileSystemAddNotifyInfo :: "bytes option \<Rightarrow> bytes \<Rightarrow> u32 \<Rightarrow> u32 \<Rightarrow> (bool \<times> bytes \<times> u32) option" where
  "FspFileSystemAddNotifyInfo NotifyInfo = FspFileSystemAddXxxInfo NotifyInfo"

section \<open>Replacing a reparse point\<close>

abbreviation (input) STATUS_IO_REPARSE_TAG_MISMATCH :: ntstatus where "STATUS_IO_REPARSE_TAG_MISMATCH \<equiv> 0xC0000277"
abbreviation (input) STATUS_REPARSE_ATTRIBUTE_CONFLICT :: ntstatus where "STATUS_REPARSE_ATTRIBUTE_CONFLICT \<equiv> 0xC00002B2"

text \<open>
  The tag of the data, \<open>IsReparseTagMicrosoft\<close>, and the 32-bit parts of the GUID behind the header of 8 bytes.
  The four parts of the code are at 0, 4, 8 and 12: \<open>Data2\<close> is read with \<open>Data3\<close>.
\<close>

definition reparse_tag :: "bytes \<Rightarrow> u32" where
  "reparse_tag d = le_dec (take 4 d)"

definition reparse_guid :: "bytes \<Rightarrow> u32 list" where
  "reparse_guid d = map (\<lambda>i. le_dec (take 4 (drop (8 + i) d))) [0, 4, 8, 12]"

definition FspFileSystemCanReplaceReparsePoint :: "bytes \<Rightarrow> bytes \<Rightarrow> ntstatus" where
  "FspFileSystemCanReplaceReparsePoint CurrentReparseData ReplaceReparseData =
     (if 4 > length CurrentReparseData \<or> 4 > length ReplaceReparseData then STATUS_IO_REPARSE_DATA_INVALID
      else if reparse_tag CurrentReparseData \<noteq> reparse_tag ReplaceReparseData then STATUS_IO_REPARSE_TAG_MISMATCH
      else if \<not> bit (reparse_tag CurrentReparseData) 31 \<and>
          (24 > length CurrentReparseData \<or> 24 > length ReplaceReparseData \<or>
           reparse_guid CurrentReparseData \<noteq> reparse_guid ReplaceReparseData)
      then STATUS_REPARSE_ATTRIBUTE_CONFLICT
      else STATUS_SUCCESS)"

end
