(* ===== verification/FsEaProps.thy ===== *)
theory FsEaProps
  imports FsEa DirBufProps
begin

text \<open>Lists of extended attributes: what is added one by one is enumerated, in order.\<close>

section \<open>Entries\<close>

text \<open>An attribute: its flags, its name and its value.\<close>

type_synonym ea_item = "u8 \<times> bytes \<times> bytes"

definition ea_ok :: "ea_item \<Rightarrow> bool" where
  "ea_ok = (\<lambda>(flags, n, v). 0 \<notin> set n \<and> length n < 256 \<and> length v < 65536)"

definition ea_bytes :: "u32 \<Rightarrow> ea_item \<Rightarrow> bytes" where
  "ea_bytes nx = (\<lambda>(flags, n, v).
     le_enc 4 nx @ [flags] @ le_enc 1 (of_nat (length n) :: u8) @ le_enc 2 (of_nat (length v) :: u16) @ n @ 0 # v)"

definition ea_length :: "ea_item \<Rightarrow> nat" where
  "ea_length = (\<lambda>(flags, n, v). 8 + length n + 1 + length v)"

definition pad4 :: "nat \<Rightarrow> nat" where
  "pad4 n = (n + 3) div 4 * 4"

lemma pad4_le: "n \<le> pad4 n" "pad4 n \<le> n + 3" "4 dvd pad4 n"
  by (simp_all add: pad4_def)

lemma pad4_add: "4 dvd p \<Longrightarrow> pad4 (p + n) = p + pad4 n"
proof (elim dvdE)
  fix k assume p: "p = 4 * k"
  have "(4 * k + (n + 3)) div 4 = k + (n + 3) div 4" by simp
  then show "pad4 (p + n) = p + pad4 n" by (simp add: pad4_def p add.assoc)
qed

lemma length_ea_bytes [simp]: "length (ea_bytes nx e) = ea_length e"
  by (cases e) (simp add: ea_bytes_def ea_length_def)

lemma ea_length_bound: "ea_ok e \<Longrightarrow> 8 < ea_length e \<and> ea_length e < 66000"
  by (cases e) (simp add: ea_ok_def ea_length_def)

text \<open>The fields of an entry that a buffer starts with.\<close>

lemma le_dec_enc_append: "LENGTH('a) \<le> 8 * n \<Longrightarrow> le_dec (take n (le_enc n w @ rest)) = (w :: 'a::len word)"
  by (simp add: le_dec_enc)

lemma ea_fields:
  assumes "ea_ok (flags, n, v)"
  shows "ea_next (ea_bytes nx (flags, n, v) @ rest) = Some (unat nx)"
    and "ea_name_length (ea_bytes nx (flags, n, v) @ rest) = Some (length n)"
    and "ea_value_length (ea_bytes nx (flags, n, v) @ rest) = Some (length v)"
    and "ea_name (ea_bytes nx (flags, n, v) @ rest) = Some n"
    and "ea_value (ea_bytes nx (flags, n, v) @ rest) = Some v"
proof -
  define m where "m = length n"
  define k where "k = length v"
  define E where "E = ea_bytes nx (flags, n, v) @ rest"
  have b: "m < 256" "k < 65536" "0 \<notin> set n" using assms by (simp_all add: ea_ok_def m_def k_def)
  have e: "E = le_enc 4 nx @ [flags] @ le_enc 1 (of_nat m :: u8) @ le_enc 2 (of_nat k :: u16) @ n @ 0 # v @ rest"
    by (simp add: E_def ea_bytes_def m_def k_def)
  have d: "take 4 E = le_enc 4 nx" "take 1 (drop 5 E) = le_enc 1 (of_nat m :: u8)"
      "take 2 (drop 6 E) = le_enc 2 (of_nat k :: u16)" "drop 8 E = n @ 0 # v @ rest" "length E = 9 + m + k + length rest"
    unfolding e by (simp_all add: m_def k_def)
  have "drop (8 + m + 1) E = drop (Suc m) (drop 8 E)"
    unfolding drop_drop by (rule arg_cong [of _ _ "\<lambda>k. drop k E"]) simp
  then have d9: "drop (8 + m + 1) E = v @ rest" unfolding d(4) by (simp add: m_def)
  have s: "buf_slice E 0 4 = Some (le_enc 4 nx)" "buf_slice E 5 1 = Some (le_enc 1 (of_nat m :: u8))"
      "buf_slice E 6 2 = Some (le_enc 2 (of_nat k :: u16))" "buf_slice E (8 + m + 1) k = Some v"
    unfolding buf_slice_def d d9 drop_0 by (simp_all add: k_def)
  have n: "ea_next E = Some (unat nx)" "ea_name_length E = Some m" "ea_value_length E = Some k"
    using b(1,2) unfolding ea_next_def ea_name_length_def ea_value_length_def s
    by (simp_all add: le_dec_enc unat_of_nat take_bit_nat_eq_self)
  show "ea_next (ea_bytes nx (flags, n, v) @ rest) = Some (unat nx)"
    "ea_name_length (ea_bytes nx (flags, n, v) @ rest) = Some (length n)"
    "ea_value_length (ea_bytes nx (flags, n, v) @ rest) = Some (length v)"
    using n unfolding E_def m_def k_def by blast+
  show "ea_name (ea_bytes nx (flags, n, v) @ rest) = Some n"
    using b(3) unfolding E_def [symmetric] ea_name_def d by (simp add: takeWhile_append)
  show "ea_value (ea_bytes nx (flags, n, v) @ rest) = Some v"
    unfolding E_def [symmetric] ea_value_def n using s(4) by simp
qed

section \<open>A list in a buffer\<close>

text \<open>The entries at a position, and \<open>BytesTransferred\<close> behind them; the last one may end the list.\<close>

fun ea_stored :: "bool \<Rightarrow> bytes \<Rightarrow> nat \<Rightarrow> ea_item list \<Rightarrow> nat \<Rightarrow> bool" where
  "ea_stored ended b pos [] bt \<longleftrightarrow> bt = pos"
| "ea_stored ended b pos [e] bt \<longleftrightarrow> ea_ok e \<and> bt = pos + ea_length e \<and>
     buf_slice b pos (ea_length e) = Some (ea_bytes (if ended then 0 else of_nat (pad4 (ea_length e))) e)"
| "ea_stored ended b pos (e # es) bt \<longleftrightarrow> ea_ok e \<and>
     buf_slice b pos (ea_length e) = Some (ea_bytes (of_nat (pad4 (ea_length e))) e) \<and>
     ea_stored ended b (pos + pad4 (ea_length e)) es bt"

lemma unat_pad4: "ea_ok e \<Longrightarrow> unat (of_nat (pad4 (ea_length e)) :: u32) = pad4 (ea_length e)"
  using ea_length_bound [of e] pad4_le(2) [of "ea_length e"] by (simp add: unat_of_nat take_bit_nat_eq_self)

lemma ea_stored_bounds: "ea_stored ended b pos es bt \<Longrightarrow> es \<noteq> [] \<Longrightarrow> pos + 8 < bt \<and> bt \<le> length b"
  by (induction ended b pos es bt rule: ea_stored.induct)
    (auto simp: buf_slice_def split: if_splits dest: ea_length_bound)

text \<open>The entry at a position, as the buffer from there on.\<close>

lemma slice_append: "buf_slice b pos n = Some x \<Longrightarrow> \<exists>rest. drop pos b = x @ rest"
  by (auto simp: buf_slice_def split: if_splits) (metis append_take_drop_id)

section \<open>Adding entries\<close>

lemma unat_align_4: "unat x + 3 < 2 ^ 32 \<Longrightarrow> unat (FSP_FSCTL_ALIGN_UP x 4) = pad4 (unat x)"
proof -
  assume x: "unat x + 3 < 2 ^ 32"
  have "(y :: u32) AND NOT 3 = push_bit 2 (drop_bit 2 y)" for y
  proof -
    have m: "(3 :: u32) = mask 2" by (simp add: mask_eq_exp_minus_1)
    show ?thesis unfolding m by (rule bit_word_eqI) (auto simp: bit_simps not_less dest!: le_Suc_ex)
  qed
  then have "unat (y AND NOT 3) = unat y div 4 * 4" for y :: u32
    using unat32_less [of y] by (simp add: push_bit_eq_mult drop_bit_eq_div unat_word_ariths unat_div)
  moreover have "unat (x + 3) = unat x + 3" using x by (simp add: unat_word_ariths)
  ultimately show ?thesis by (simp add: FSP_FSCTL_ALIGN_UP_def pad4_def)
qed

text \<open>A write behind a slice does not change it.\<close>

lemma put_slice: "buf_put b p src = Some b' \<Longrightarrow> pos + n \<le> p \<Longrightarrow> buf_slice b' pos n = buf_slice b pos n"
  by (auto simp: buf_put_def buf_slice_def min_def drop_take split: if_splits)

lemma ea_stored_cons:
  "es \<noteq> [] \<Longrightarrow> ea_stored ended b pos (e # es) bt \<longleftrightarrow> ea_ok e \<and>
     buf_slice b pos (ea_length e) = Some (ea_bytes (of_nat (pad4 (ea_length e))) e) \<and>
     ea_stored ended b (pos + pad4 (ea_length e)) es bt"
  by (cases es) simp_all

lemma put_stored:
  assumes "buf_put b p src = Some b'"
  shows "ea_stored ended b pos es bt \<Longrightarrow> bt \<le> p \<Longrightarrow> ea_stored ended b' pos es bt"
proof (induction es arbitrary: pos)
  case (Cons e es)
  show ?case
  proof (cases "es = []")
    case True
    then show ?thesis using Cons.prems put_slice [OF assms, of pos "ea_length e"] by simp
  next
    case False
    then have s: "ea_stored ended b (pos + pad4 (ea_length e)) es bt" using Cons.prems(1) by (simp add: ea_stored_cons)
    have "pos + ea_length e \<le> p"
      using ea_stored_bounds [OF s False] pad4_le(1) [of "ea_length e"] Cons.prems(2) by linarith
    then show ?thesis
      using Cons.IH [OF s Cons.prems(2)] Cons.prems(1) put_slice [OF assms, of pos "ea_length e"] False
      by (simp add: ea_stored_cons)
  qed
qed simp

text \<open>An entry behind those that are stored.\<close>

lemma stored_snoc:
  assumes "ea_ok e" "buf_slice b (pos + pad4 (bt - pos)) (ea_length e) =
      Some (ea_bytes (if ended then 0 else of_nat (pad4 (ea_length e))) e)"
  shows "ea_stored False b pos es bt \<Longrightarrow> 4 dvd pos \<Longrightarrow> pos \<le> bt \<Longrightarrow>
     ea_stored ended b pos (es @ [e]) (pos + pad4 (bt - pos) + ea_length e)"
  using assms(2)
proof (induction es arbitrary: pos)
  case Nil
  then show ?case using assms(1) by (simp add: pad4_def)
next
  case (Cons x es)
  show ?case
  proof (cases "es = []")
    case True
    then show ?thesis using Cons.prems assms(1) by simp
  next
    case False
    let ?p = "pos + pad4 (ea_length x)"
    have s: "ea_stored False b ?p es bt" using Cons.prems(1) False by (simp add: ea_stored_cons)
    have le: "?p \<le> bt" using ea_stored_bounds [OF s False] by simp
    have "pad4 (bt - pos) = pad4 (ea_length x) + pad4 (bt - ?p)"
      using pad4_add [OF pad4_le(3), of "ea_length x" "bt - ?p"] le by simp
    then have at: "pos + pad4 (bt - pos) = ?p + pad4 (bt - ?p)" by simp
    have "ea_stored ended b ?p (es @ [e]) (?p + pad4 (bt - ?p) + ea_length e)"
      by (rule Cons.IH [OF s _ le Cons.prems(4) [unfolded at]]) (use Cons.prems(2) pad4_le(3) in simp)
    then show ?thesis using Cons.prems(1) False unfolding at by (simp add: ea_stored_cons)
  qed
qed

lemma put_get_slice: "buf_put b p src = Some b' \<Longrightarrow> buf_slice b' p (length src) = Some src"
  by (auto simp: buf_put_def buf_slice_def split: if_splits)

text \<open>\<open>NextEntryOffset\<close> is set in place.\<close>

lemma put_next:
  assumes "buf_slice b p (ea_length e) = Some (ea_bytes nx e)" "buf_put b p (le_enc 4 nx') = Some b'"
  shows "buf_slice b' p (ea_length e) = Some (ea_bytes nx' e)"
proof -
  obtain X where X: "\<And>n. ea_bytes n e = le_enc 4 n @ X" by (cases e) (simp add: ea_bytes_def)
  have l: "ea_length e = 4 + length X" using length_ea_bytes [of 0 e] X by simp
  have t: "take (ea_length e) (drop p b) = le_enc 4 nx @ X" and n: "p + ea_length e \<le> length b"
    using assms(1) X by (auto simp: buf_slice_def split: if_splits)
  have "take (length X) (drop (p + 4) b) = X"
    using arg_cong [OF t, of "drop 4"] by (simp add: l drop_take add.commute)
  moreover have "b' = take p b @ le_enc 4 nx' @ drop (p + 4) b"
    using assms(2) by (auto simp: buf_put_def split: if_splits)
  ultimately show ?thesis using n by (simp add: buf_slice_def X l)
qed

lemma add_ea_ok:
  assumes "ea_ok e" "unat Len \<le> length b" "unat Len + 3 < 2 ^ 32"
    and "ea_stored False b 0 es (unat bt)" "pad4 (unat bt) + ea_length e \<le> unat Len"
  shows "\<exists>b' bt'. FspFileSystemAddEa (Some (ea_bytes nx e)) b Len bt = Some (True, b', bt') \<and> length b' = length b \<and>
    unat bt' = pad4 (unat bt) + ea_length e \<and> ea_stored False b' 0 (es @ [e]) (unat bt')"
proof -
  let ?p = "pad4 (unat bt)"
  have al: "unat (FSP_FSCTL_ALIGN_UP bt 4) = ?p"
    using assms(3,5) pad4_le(1) [of "unat bt"] by (intro unat_align_4) simp
  have sz: "ea_length e < 66000" using ea_length_bound [OF assms(1)] by simp
  have w: "w = of_nat k" if "unat w = k" for w :: u32 and k using that by (metis of_nat_unat ucast_id)
  have al': "FSP_FSCTL_ALIGN_UP (of_nat (ea_length e)) 4 = of_nat (pad4 (ea_length e))"
    using sz unat_align_4 [of "of_nat (ea_length e)"] by (intro w) (simp add: unat_of_nat take_bit_nat_eq_self)
  obtain fl n v where e: "e = (fl, n, v)" by (cases e)
  have f: "ea_name_length (ea_bytes nx e) = Some (length n)" "ea_value_length (ea_bytes nx e) = Some (length v)"
    "8 + length n + 1 + length v = ea_length e" "buf_slice (ea_bytes nx e) 0 (ea_length e) = Some (ea_bytes nx e)"
    using assms(1) ea_fields [of fl n v nx "[]"] length_ea_bytes [of nx e]
    by (simp_all add: e ea_length_def buf_slice_def del: length_ea_bytes)
  have f3: "9 + length n + length v = ea_length e" using f(3) by simp
  have fit: "?p + ea_length e \<le> length b" using assms(2,5) by simp
  obtain b1 where b1: "buf_put b ?p (ea_bytes nx e) = Some b1" using fit by (simp add: buf_put_def)
  have l1: "length b1 = length b" by (rule buf_put_length [OF b1])
  define nx' where "nx' = (of_nat (pad4 (ea_length e)) :: u32)"
  obtain b2 where b2: "buf_put b1 ?p (le_enc 4 nx') = Some b2"
    using fit l1 ea_length_bound [OF assms(1)] by (simp add: buf_put_def)
  define bt' where "bt' = (of_nat (?p + ea_length e) :: u32)"
  have u: "unat bt' = ?p + ea_length e"
    using assms(3,5) unfolding bt'_def by (simp add: unat_of_nat take_bit_nat_eq_self del: of_nat_add)
  have "FspFileSystemAddEa (Some (ea_bytes nx e)) b Len bt = Some (True, b2, bt')"
    using assms(5) b1 b2 unfolding FspFileSystemAddEa_def nx'_def bt'_def
    by (simp add: f(1,2,4) f3 al al' Let_def not_less del: of_nat_add buf_put_Some buf_slice_Some)
  moreover have "buf_slice b2 ?p (ea_length e) = Some (ea_bytes nx' e)"
    using put_next [OF _ b2] put_get_slice [OF b1] by simp
  moreover have "ea_stored False b2 0 es (unat bt)"
    by (rule put_stored [OF b2 put_stored [OF b1 assms(4)]]) (simp_all add: pad4_le)
  ultimately show ?thesis
    using stored_snoc [OF assms(1), of b2 0 "unat bt" False es] buf_put_length [OF b2] l1 u by (simp add: nx'_def)
qed

text \<open>Ending the list.\<close>

lemma last_ea_ok:
  "ea_stored False b pos es bt \<Longrightarrow> es \<noteq> [] \<Longrightarrow>
     \<exists>p. last_ea_loop b pos bt = Some p \<and> pos \<le> p \<and> p + 8 < bt \<and>
       (\<forall>b'. buf_put b p (le_enc 4 (0 :: u32)) = Some b' \<longrightarrow> ea_stored True b' pos es bt)"
proof (induction es arbitrary: pos)
  case (Cons e es)
  obtain fl n v where e: "e = (fl, n, v)" by (cases e)
  have ok: "ea_ok e" using Cons.prems(1) by (cases es) simp_all
  have sl: "buf_slice b pos (ea_length e) = Some (ea_bytes (of_nat (pad4 (ea_length e))) e)"
    using Cons.prems(1) by (cases es) simp_all
  obtain rest where r: "drop pos b = ea_bytes (of_nat (pad4 (ea_length e))) e @ rest" using slice_append [OF sl] by blast
  have nx: "ea_next (drop pos b) = Some (pad4 (ea_length e))"
    using ea_fields(1) [of fl n v] ok unat_pad4 [OF ok] unfolding r e by simp
  show ?case
  proof (cases "es = []")
    case True
    have "last_ea_loop b pos bt = Some pos"
      using Cons.prems(1) True nx pad4_le(1) [of "ea_length e"] by (subst last_ea_loop.simps) simp
    moreover have "pos + 8 < bt" using ea_stored_bounds [OF Cons.prems] by simp
    ultimately show ?thesis using Cons.prems(1) True put_next [OF sl] by auto
  next
    case False
    let ?p = "pos + pad4 (ea_length e)"
    have s: "ea_stored False b ?p es bt" using Cons.prems(1) False by (simp add: ea_stored_cons)
    obtain p where p: "last_ea_loop b ?p bt = Some p" "?p \<le> p" "p + 8 < bt"
        "\<forall>b'. buf_put b p (le_enc 4 (0 :: u32)) = Some b' \<longrightarrow> ea_stored True b' ?p es bt"
      using Cons.IH [OF s False] by blast
    have "last_ea_loop b pos bt = Some p"
      using p(1) ea_stored_bounds [OF s False] nx by (subst last_ea_loop.simps) simp
    moreover have "ea_stored True b' pos (e # es) bt" if b': "buf_put b p (le_enc 4 (0 :: u32)) = Some b'" for b'
      using p(2,4) b' ok sl put_slice [OF b', of pos "ea_length e"] pad4_le(1) [of "ea_length e"] False
      by (simp add: ea_stored_cons)
    ultimately show ?thesis using p(2,3) by (intro exI [of _ p]) simp
  qed
qed simp

section \<open>Enumerating\<close>

lemma enumerate_ok:
  assumes cb: "\<And>s e nx rest. ea_ok e \<Longrightarrow> cb s (ea_bytes nx e @ rest) = Some (STATUS_SUCCESS, g e s)"
  shows "ea_stored True b pos es bt \<Longrightarrow> bt \<le> length b \<Longrightarrow>
     enumerate_ea_loop cb b pos bt STATUS_SUCCESS s = Some (STATUS_SUCCESS, fold g es s)"
proof (induction es arbitrary: pos s)
  case Nil
  then show ?case by (simp add: enumerate_ea_loop.simps)
next
  case (Cons e es)
  obtain fl n v where e: "e = (fl, n, v)" by (cases e)
  have ok: "ea_ok e" using Cons.prems(1) by (cases es) simp_all
  define nx where "nx = (if es = [] then 0 else of_nat (pad4 (ea_length e)) :: u32)"
  have sl: "buf_slice b pos (ea_length e) = Some (ea_bytes nx e)"
    using Cons.prems(1) by (cases es) (simp_all add: nx_def)
  obtain rest where r: "drop pos b = ea_bytes nx e @ rest" using slice_append [OF sl] by blast
  have n: "ea_next (drop pos b) = Some (unat nx)" using ea_fields(1) [of fl n v] ok unfolding r e by simp
  have lt: "pos < bt" using ea_stored_bounds [OF Cons.prems(1)] by simp
  have step: "enumerate_ea_loop cb b pos bt STATUS_SUCCESS s =
      enumerate_ea_loop cb b (if unat nx \<noteq> 0 then pos + unat nx else bt) bt STATUS_SUCCESS (g e s)"
    using lt n cb [OF ok] unfolding enumerate_ea_loop.simps [of cb b pos] r by simp
  show ?case
  proof (cases "es = []")
    case True
    then show ?thesis unfolding step by (simp add: nx_def enumerate_ea_loop.simps)
  next
    case False
    have "unat nx = pad4 (ea_length e)" using False unat_pad4 [OF ok] by (simp add: nx_def)
    moreover have "0 < pad4 (ea_length e)" using ea_length_bound [OF ok] pad4_le(1) [of "ea_length e"] by simp
    ultimately show ?thesis
      using Cons.IH [of "pos + pad4 (ea_length e)"] Cons.prems False unfolding step by (simp add: ea_stored_cons)
  qed
qed

section \<open>The round trip\<close>

text \<open>Adding attributes one by one, and ending the list.\<close>

fun add_eas :: "ea_item list \<Rightarrow> bytes \<Rightarrow> u32 \<Rightarrow> u32 \<Rightarrow> (bool \<times> bytes \<times> u32) option" where
  "add_eas [] b Len bt = FspFileSystemAddEa None b Len bt"
| "add_eas (e # es) b Len bt =
     (case FspFileSystemAddEa (Some (ea_bytes 0 e)) b Len bt of
        Some (True, b, bt) \<Rightarrow> add_eas es b Len bt
      | r \<Rightarrow> r)"

text \<open>A callback that collects names and values.\<close>

definition collect_ea :: "(bytes \<times> bytes) list \<Rightarrow> bytes \<Rightarrow> (ntstatus \<times> (bytes \<times> bytes) list) option" where
  "collect_ea xs e = do { n \<leftarrow> ea_name e; v \<leftarrow> ea_value e; Some (STATUS_SUCCESS, xs @ [(n, v)]) }"

definition eas_length :: "nat \<Rightarrow> ea_item list \<Rightarrow> nat" where
  "eas_length n es = fold (\<lambda>e n. pad4 n + ea_length e) es n"

lemma eas_length_ge: "n \<le> eas_length n es"
proof (induction es arbitrary: n)
  case (Cons e es)
  have "n \<le> pad4 n + ea_length e" using pad4_le(1) [of n] by simp
  also have "\<dots> \<le> eas_length n (e # es)" using Cons.IH [of "pad4 n + ea_length e"] by (simp add: eas_length_def)
  finally show ?case .
qed (simp add: eas_length_def)

lemma add_eas_ok:
  "list_all ea_ok es \<Longrightarrow> eas_length (unat bt) es \<le> unat Len \<Longrightarrow> unat Len \<le> length b \<Longrightarrow> unat Len + 3 < 2 ^ 32 \<Longrightarrow>
     ea_stored False b 0 es0 (unat bt) \<Longrightarrow> (es0 = [] \<longrightarrow> bt = 0) \<Longrightarrow>
     \<exists>b' bt'. add_eas es b Len bt = Some (True, b', bt') \<and> unat bt' \<le> length b' \<and> ea_stored True b' 0 (es0 @ es) (unat bt')"
proof (induction es arbitrary: b bt es0)
  case Nil
  show ?case
  proof (cases "es0 = []")
    case True
    then show ?thesis using Nil.prems by (simp add: FspFileSystemAddEa_def)
  next
    case False
    note bd = ea_stored_bounds [OF Nil.prems(5) False]
    obtain p where p: "last_ea_loop b 0 (unat bt) = Some p" "p + 8 < unat bt"
        "\<forall>b'. buf_put b p (le_enc 4 (0 :: u32)) = Some b' \<longrightarrow> ea_stored True b' 0 es0 (unat bt)"
      using last_ea_ok [OF Nil.prems(5) False] by blast
    obtain b' where b': "buf_put b p (le_enc 4 (0 :: u32)) = Some b'" using p(2) bd by (simp add: buf_put_def)
    have "8 \<le> bt" using p(2) by (simp add: word_le_nat_alt)
    then show ?thesis
      using p(1,3) b' bd buf_put_length [OF b'] by (simp add: FspFileSystemAddEa_def del: buf_put_Some)
  qed
next
  case (Cons e es)
  have ok: "ea_ok e" using Cons.prems(1) by simp
  have fit: "pad4 (unat bt) + ea_length e \<le> unat Len"
    using Cons.prems(2) eas_length_ge [of "pad4 (unat bt) + ea_length e" es] by (simp add: eas_length_def)
  obtain b' bt' where b': "FspFileSystemAddEa (Some (ea_bytes 0 e)) b Len bt = Some (True, b', bt')" "length b' = length b"
      "unat bt' = pad4 (unat bt) + ea_length e" "ea_stored False b' 0 (es0 @ [e]) (unat bt')"
    using add_ea_ok [OF ok Cons.prems(3,4,5) fit] by blast
  show ?case using Cons.IH [of bt' b' "es0 @ [e]"] Cons.prems b' by (simp add: eas_length_def)
qed

text \<open>C36. Extended attributes that are added one after the other to a buffer with room for them, and then ended, are all
  added, and enumerating the result gives back their names and values, all of them and in order: no entry
  overwrites another, the offsets lead from each to the next, and the last one ends the list.\<close>
theorem ea_round_trip:
  assumes "list_all ea_ok es" "eas_length 0 es \<le> unat Len" "unat Len \<le> length b" "unat Len + 3 < 2 ^ 32"
  shows "\<exists>b' bt. add_eas es b Len 0 = Some (True, b', bt) \<and> unat bt \<le> length b' \<and>
    FspFileSystemEnumerateEa collect_ea b' bt [] = Some (STATUS_SUCCESS, map snd es)"
proof -
  obtain b' bt where b': "add_eas es b Len 0 = Some (True, b', bt)" "unat bt \<le> length b'" "ea_stored True b' 0 es (unat bt)"
    using add_eas_ok [where bt = 0 and ?es0.0 = "[]", OF assms(1) _ assms(3,4)] assms(2) by auto
  have cb: "collect_ea s (ea_bytes nx e @ rest) = Some (STATUS_SUCCESS, s @ [snd e])" if "ea_ok e" for s e nx rest
    using that ea_fields [of "fst e" "fst (snd e)" "snd (snd e)" nx rest] by (simp add: collect_ea_def)
  have "fold (\<lambda>e s. s @ [snd e]) es s = s @ map snd es" for s by (induction es arbitrary: s) simp_all
  then show ?thesis
    using b' enumerate_ok [where cb = collect_ea and g = "\<lambda>e s. s @ [snd e]" and s = "[]", OF cb b'(3,2)]
    by (simp add: FspFileSystemEnumerateEa_def)
qed

theorem ea_round_trip_witness:
  "\<exists>b' bt. add_eas [(0, [0x61], [1, 2]), (0, [0x62, 0x63], [])] (replicate 100 0xff) 100 0 = Some (True, b', bt) \<and>
    unat bt \<le> length b' \<and>
    FspFileSystemEnumerateEa collect_ea b' bt [] = Some (STATUS_SUCCESS, [([0x61], [1, 2]), ([0x62, 0x63], [])])"
  using ea_round_trip [of "[(0, [0x61], [1, 2]), (0, [0x62, 0x63], [])]" 100 "replicate 100 0xff"]
  by (simp add: ea_ok_def eas_length_def ea_length_def pad4_def)

end
