(* ===== verification/FuseFs.thy ===== *)
theory FuseFs
  imports FsRequest FsReparse Perm PosixPath
begin

text \<open>
  The FUSE layer as a file system (\<open>src/dll/fuse/fuse_intf.c\<close>): its data, the calls of the FUSE file
  system, and what it finds out about a file: information, security, reparse points. A FUSE path is
  the bytes before its terminator. A FUSE file system is a record of functions over a state of its
  own, \<open>None\<close> where an operation is missing; it answers with its error, what it writes through the
  pointers it is given, and its new state. The layer counts its own allocations in \<open>Fuse_Mem\<close>.
\<close>

section \<open>Data\<close>

record fuse_stat =
  St_mode :: u32
  St_uid :: u32
  St_gid :: u32
  St_rdev :: u32
  St_size :: u64
  St_ino :: u64
  St_atim :: "u64 \<times> u64"
  St_mtim :: "u64 \<times> u64"
  St_ctim :: "u64 \<times> u64"
  St_birthtim :: "u64 \<times> u64"
  St_flags :: u32

record fuse_statvfs =
  F_frsize :: u64
  F_blocks :: u64
  F_bfree :: u64

record fuse_file_info =
  Fi_flags :: u32
  Fi_fh :: u64
  Fi_direct_io :: bool

text \<open>The user and group of the context that a FUSE operation sees.\<close>

record caller =
  Caller_uid :: u32
  Caller_gid :: u32

text \<open>
  The operations on paths. The caller is the same for all calls of one request, but for \<open>symlink\<close> and
  \<open>mknod\<close>, which get it as an argument. A directory is listed by calling a filler for one entry after
  the other until it returns non-zero: \<open>readdir\<close> and \<open>getdir\<close> give the entries, and for the number of calls
  made the error and the new state.
\<close>

type_synonym dir_entry = "bytes \<times> fuse_stat option"

record 's fuse_path_operations =
  op_getattr :: "('s \<Rightarrow> bytes \<Rightarrow> (int \<times> fuse_stat) \<times> 's) option"
  op_readlink :: "('s \<Rightarrow> bytes \<Rightarrow> nat \<Rightarrow> (int \<times> bytes) \<times> 's) option"
  op_getpath :: "('s \<Rightarrow> bytes \<Rightarrow> nat \<Rightarrow> fuse_file_info option \<Rightarrow> (int \<times> bytes) \<times> 's) option"
  op_mknod :: "(caller \<Rightarrow> 's \<Rightarrow> bytes \<Rightarrow> u32 \<Rightarrow> u32 \<Rightarrow> int \<times> 's) option"
  op_mkdir :: "('s \<Rightarrow> bytes \<Rightarrow> u32 \<Rightarrow> int \<times> 's) option"
  op_symlink :: "(caller \<Rightarrow> 's \<Rightarrow> bytes \<Rightarrow> bytes \<Rightarrow> int \<times> 's) option"
  op_unlink :: "('s \<Rightarrow> bytes \<Rightarrow> int \<times> 's) option"
  op_rmdir :: "('s \<Rightarrow> bytes \<Rightarrow> int \<times> 's) option"
  op_rename :: "('s \<Rightarrow> bytes \<Rightarrow> bytes \<Rightarrow> int \<times> 's) option"
  op_chmod :: "('s \<Rightarrow> bytes \<Rightarrow> u32 \<Rightarrow> int \<times> 's) option"
  op_chown :: "('s \<Rightarrow> bytes \<Rightarrow> u32 \<Rightarrow> u32 \<Rightarrow> int \<times> 's) option"
  op_truncate :: "('s \<Rightarrow> bytes \<Rightarrow> u64 \<Rightarrow> int \<times> 's) option"
  op_utimens :: "('s \<Rightarrow> bytes \<Rightarrow> u64 \<times> u64 \<Rightarrow> u64 \<times> u64 \<Rightarrow> int \<times> 's) option"
  op_utime :: "('s \<Rightarrow> bytes \<Rightarrow> u64 \<Rightarrow> u64 \<Rightarrow> int \<times> 's) option"
  op_setcrtime :: "('s \<Rightarrow> bytes \<Rightarrow> u64 \<times> u64 \<Rightarrow> int \<times> 's) option"
  op_setchgtime :: "('s \<Rightarrow> bytes \<Rightarrow> u64 \<times> u64 \<Rightarrow> int \<times> 's) option"
  op_chflags :: "('s \<Rightarrow> bytes \<Rightarrow> u32 \<Rightarrow> int \<times> 's) option"
  op_access :: "('s \<Rightarrow> bytes \<Rightarrow> u32 \<Rightarrow> int \<times> 's) option"
  op_statfs :: "('s \<Rightarrow> bytes \<Rightarrow> (int \<times> fuse_statvfs) \<times> 's) option"
  op_listxattr :: "('s \<Rightarrow> bytes \<Rightarrow> nat \<Rightarrow> (int \<times> bytes) \<times> 's) option"
  op_getxattr :: "('s \<Rightarrow> bytes \<Rightarrow> bytes \<Rightarrow> nat \<Rightarrow> (int \<times> bytes) \<times> 's) option"
  op_setxattr :: "('s \<Rightarrow> bytes \<Rightarrow> bytes \<Rightarrow> bytes \<Rightarrow> int \<times> 's) option"
  op_removexattr :: "('s \<Rightarrow> bytes \<Rightarrow> bytes \<Rightarrow> int \<times> 's) option"
  op_getdir :: "('s \<Rightarrow> bytes \<Rightarrow> dir_entry list \<times> (nat \<Rightarrow> int \<times> 's)) option"

text \<open>The operations on an open file; \<open>create\<close>, \<open>open\<close> and \<open>opendir\<close> change the information they get.\<close>

record 's fuse_file_operations =
  op_fgetattr :: "('s \<Rightarrow> bytes \<Rightarrow> fuse_file_info \<Rightarrow> (int \<times> fuse_stat) \<times> 's) option"
  op_create :: "('s \<Rightarrow> bytes \<Rightarrow> u32 \<Rightarrow> fuse_file_info \<Rightarrow> (int \<times> fuse_file_info) \<times> 's) option"
  op_open :: "('s \<Rightarrow> bytes \<Rightarrow> fuse_file_info \<Rightarrow> (int \<times> fuse_file_info) \<times> 's) option"
  op_opendir :: "('s \<Rightarrow> bytes \<Rightarrow> fuse_file_info \<Rightarrow> (int \<times> fuse_file_info) \<times> 's) option"
  op_release :: "('s \<Rightarrow> bytes \<Rightarrow> fuse_file_info \<Rightarrow> int \<times> 's) option"
  op_releasedir :: "('s \<Rightarrow> bytes \<Rightarrow> fuse_file_info \<Rightarrow> int \<times> 's) option"
  op_flush :: "('s \<Rightarrow> bytes \<Rightarrow> fuse_file_info \<Rightarrow> int \<times> 's) option"
  op_fsync :: "('s \<Rightarrow> bytes \<Rightarrow> fuse_file_info \<Rightarrow> int \<times> 's) option"
  op_fsyncdir :: "('s \<Rightarrow> bytes \<Rightarrow> fuse_file_info \<Rightarrow> int \<times> 's) option"
  op_ftruncate :: "('s \<Rightarrow> bytes \<Rightarrow> u64 \<Rightarrow> fuse_file_info \<Rightarrow> int \<times> 's) option"
  op_read :: "('s \<Rightarrow> bytes \<Rightarrow> u32 \<Rightarrow> u64 \<Rightarrow> fuse_file_info \<Rightarrow> (int \<times> bytes) \<times> 's) option"
  op_write :: "('s \<Rightarrow> bytes \<Rightarrow> bytes \<Rightarrow> u64 \<Rightarrow> fuse_file_info \<Rightarrow> int \<times> 's) option"
  op_readdir :: "('s \<Rightarrow> bytes \<Rightarrow> fuse_file_info \<Rightarrow> dir_entry list \<times> (nat \<Rightarrow> int \<times> 's)) option"
  op_ioctl :: "('s \<Rightarrow> bytes \<Rightarrow> u32 \<Rightarrow> fuse_file_info \<Rightarrow> bytes \<Rightarrow> (int \<times> bytes) \<times> 's) option"

text \<open>
  What the layer asks of Windows: the conversions of strings, which give the string without its terminator,
  the last error, memory and what it holds, and the identities of users.
\<close>

record fuse_host =
  Wide_to_utf8 :: "wstr \<Rightarrow> bytes option"
  Utf8_to_wide :: "bytes \<Rightarrow> wstr option"
  Last_error :: ntstatus
  Alloc :: "nat \<Rightarrow> bool"
  Fresh_reparse :: reparse_data
  Posix_env :: posix_env

text \<open>\<open>struct fuse\<close>: a value with a \<open>set_\<close> flag is optional.\<close>

record 's fuse =
  Host :: fuse_host
  Path_ops :: "'s fuse_path_operations"
  File_ops :: "'s fuse_file_operations"
  Cygwin :: bool
  set_umask :: "u32 option"
  set_create_umask :: "u32 option"
  set_create_file_umask :: "u32 option"
  set_create_dir_umask :: "u32 option"
  set_uid :: "u32 option"
  set_gid :: "u32 option"
  add_write_ea_access :: bool
  rellinks :: bool
  dothidden :: bool
  conn_want :: u32
  has_symlinks :: bool
  has_slashdot :: bool
  FlushOnCleanup :: bool
  SectorSize :: u16
  SectorsPerAllocationUnit :: u16
  CaseSensitiveSearch :: bool
  MaxComponentLength :: u16
  Label :: wstr
  FileSecurity :: "security_descriptor option"

record 's fuse_state =
  Fuse_Fs :: 's
  Fuse_Mem :: int

abbreviation (input) FSP_FUSE_CAP_READDIR_PLUS :: nat where "FSP_FUSE_CAP_READDIR_PLUS \<equiv> 21"
abbreviation (input) FSP_FUSE_CAP_STAT_EX :: nat where "FSP_FUSE_CAP_STAT_EX \<equiv> 23"
abbreviation (input) FSP_FUSE_CAP_DELETE_ACCESS :: nat where "FSP_FUSE_CAP_DELETE_ACCESS \<equiv> 24"
abbreviation (input) S_IFMT :: u32 where "S_IFMT \<equiv> 0xf000"
abbreviation (input) S_IFIFO :: u32 where "S_IFIFO \<equiv> 0x1000"
abbreviation (input) S_IFCHR :: u32 where "S_IFCHR \<equiv> 0x2000"
abbreviation (input) S_IFDIR :: u32 where "S_IFDIR \<equiv> 0x4000"
abbreviation (input) S_IFBLK :: u32 where "S_IFBLK \<equiv> 0x6000"
abbreviation (input) S_IFLNK :: u32 where "S_IFLNK \<equiv> 0xa000"
abbreviation (input) S_IFSOCK :: u32 where "S_IFSOCK \<equiv> 0xc000"
abbreviation (input) IO_REPARSE_TAG_NFS :: u32 where "IO_REPARSE_TAG_NFS \<equiv> 0x80000014"
abbreviation (input) FILE_ATTRIBUTE_HIDDEN :: u32 where "FILE_ATTRIBUTE_HIDDEN \<equiv> 0x2"
abbreviation (input) FILE_ATTRIBUTE_SYSTEM :: u32 where "FILE_ATTRIBUTE_SYSTEM \<equiv> 0x4"
abbreviation (input) FILE_ATTRIBUTE_ARCHIVE :: u32 where "FILE_ATTRIBUTE_ARCHIVE \<equiv> 0x20"
abbreviation (input) FSP_FUSE_UF_HIDDEN :: u32 where "FSP_FUSE_UF_HIDDEN \<equiv> 0x8000"
abbreviation (input) FSP_FUSE_UF_READONLY :: u32 where "FSP_FUSE_UF_READONLY \<equiv> 0x1000"
abbreviation (input) FSP_FUSE_UF_SYSTEM :: u32 where "FSP_FUSE_UF_SYSTEM \<equiv> 0x80"
abbreviation (input) FSP_FUSE_UF_ARCHIVE :: u32 where "FSP_FUSE_UF_ARCHIVE \<equiv> 0x800"
abbreviation (input) STATUS_BUFFER_TOO_SMALL :: ntstatus where "STATUS_BUFFER_TOO_SMALL \<equiv> 0xC0000023"
abbreviation (input) STATUS_UNSUCCESSFUL :: ntstatus where "STATUS_UNSUCCESSFUL \<equiv> 0xC0000001"

section \<open>Errors\<close>

text \<open>The tables of \<open>errno.i\<close>.\<close>

definition errno_windows :: "(int \<times> ntstatus) list" where
  "errno_windows = [
    (0, 0), (1, 0xC0000022), (2, 0xC0000034), (3, 0xC000007A), (4, 0xC0000120), (5, 0xC0000185),
    (6, 0xC0000098), (7, 0xC000009A), (8, 0xC000007B), (9, 0xC0000008), (12, 0xC000009A),
    (13, 0xC0000022), (14, 0xC0000005), (16, 0x80000011), (17, 0xC0000035), (18, 0xC00000D4),
    (19, 0xC000000E), (20, 0xC0000103), (21, 0xC00000BA), (22, 0xC000000D), (23, 0xC000011F),
    (24, 0xC000011F), (27, 0xC000007F), (28, 0xC000007F), (29, 0xC000000D), (30, 0xC00000A2),
    (31, 0xC0000265), (32, 0xC000014B), (33, 0xC000000D), (34, 0xC000000D), (36, 0xC0000194),
    (38, 0xC0000106), (39, 0xC0000055), (40, 0xC0000010), (41, 0xC0000101), (42, 0xC000000D),
    (100, 0xC0000238), (103, 0xC000023B), (105, 0xC0000120), (106, 0xC0000241), (107, 0xC0000236),
    (108, 0xC000020D), (110, 0xC000023D), (113, 0xC000023B), (114, 0xC0000280), (116, 0xC0000350),
    (117, 0xC000020D), (118, 0xC000023C), (119, 0xC000009A), (120, 0xC0000011), (121, 0xC000023A),
    (126, 0xC000023A), (128, 0xC0000008), (138, 0xC0000210)]"

definition errno_cygwin :: "(int \<times> ntstatus) list" where
  "errno_cygwin = [
    (0, 0), (1, 0xC0000022), (2, 0xC0000034), (3, 0xC000007A), (4, 0xC0000120), (5, 0xC0000185),
    (6, 0xC0000098), (7, 0xC000009A), (8, 0xC000007B), (9, 0xC0000008), (12, 0xC000009A),
    (13, 0xC0000022), (14, 0xC0000005), (16, 0x80000011), (17, 0xC0000035), (18, 0xC00000D4),
    (19, 0xC000000E), (20, 0xC0000103), (21, 0xC00000BA), (22, 0xC000000D), (23, 0xC000011F),
    (24, 0xC000011F), (27, 0xC000007F), (28, 0xC000007F), (29, 0xC000000D), (30, 0xC00000A2),
    (31, 0xC0000265), (32, 0xC000014B), (33, 0xC000000D), (34, 0xC000000D), (45, 0xC0000194),
    (91, 0xC0000106), (46, 0xC0000055), (88, 0xC0000010), (90, 0xC0000101), (138, 0xC000000D),
    (112, 0xC0000238), (120, 0xC000023B), (140, 0xC0000120), (113, 0xC0000241), (111, 0xC0000236),
    (104, 0xC000020D), (118, 0xC000023D), (127, 0xC000023B), (92, 0xC0000280), (115, 0xC0000350),
    (126, 0xC000020D), (114, 0xC000023C), (105, 0xC000009A), (61, 0xC0000011), (67, 0xC000023A),
    (128, 0xC000023A), (108, 0xC0000008), (116, 0xC0000210)]"

definition fsp_fuse_ntstatus_from_errno :: "'s fuse \<Rightarrow> int \<Rightarrow> ntstatus" where
  "fsp_fuse_ntstatus_from_errno f err =
     (case map_of (if Cygwin f then errno_cygwin else errno_windows) (if 0 > err then - err else err) of
        None \<Rightarrow> STATUS_ACCESS_DENIED
      | Some Result \<Rightarrow> Result)"

section \<open>Calls and memory\<close>

definition fuse_call :: "('s \<Rightarrow> 'a \<times> 's) \<Rightarrow> 's fuse_state \<Rightarrow> 'a \<times> 's fuse_state" where
  "fuse_call op st = (let (r, s) = op (Fuse_Fs st) in (r, st\<lparr>Fuse_Fs := s\<rparr>))"

definition fuse_alloc :: "'s fuse \<Rightarrow> nat \<Rightarrow> 's fuse_state \<Rightarrow> 's fuse_state option" where
  "fuse_alloc f n st = (if Alloc (Host f) n then Some (st\<lparr>Fuse_Mem := Fuse_Mem st + 1\<rparr>) else None)"

definition fuse_free :: "'s fuse_state \<Rightarrow> 's fuse_state" where
  "fuse_free st = st\<lparr>Fuse_Mem := Fuse_Mem st - 1\<rparr>"

definition windows_to_posix :: "'s fuse \<Rightarrow> wstr \<Rightarrow> bool \<Rightarrow> ntstatus + bytes" where
  "windows_to_posix f WindowsPath Translate =
     map_sum id (takeWhile (\<lambda>c. c \<noteq> 0))
       (the (FspPosixMapWindowsToPosixPathEx (\<lambda>w. map_option (\<lambda>p. p @ [0]) (Wide_to_utf8 (Host f) w))
          (Alloc (Host f)) (Last_error (Host f)) WindowsPath Translate))"

definition posix_to_windows :: "'s fuse \<Rightarrow> bytes \<Rightarrow> ntstatus + wstr" where
  "posix_to_windows f PosixPath =
     map_sum id (takeWhile (\<lambda>c. c \<noteq> 0))
       (the (FspPosixMapPosixToWindowsPathEx (\<lambda>p. map_option (\<lambda>w. w @ [0]) (Utf8_to_wide (Host f) p))
          (Alloc (Host f)) (Last_error (Host f)) PosixPath True))"

text \<open>Strings are terminated, so the translation never leaves them.\<close>

lemma to_posix_loop_terminated: "0 \<in> set p \<Longrightarrow> to_posix_loop p \<noteq> None"
proof (induction "length p" arbitrary: p rule: less_induct)
  case less
  have IH: "\<exists>q. to_posix_loop p' = Some q" if "length p' < length p" "0 \<in> set p'" for p'
    using less(1) [OF that] by (simp add: not_None_eq)
  obtain c p1 where p: "p = c # p1" using less(2) by (cases p) auto
  consider "c = 0" | "c = 0x5c" | "c = 0xef" | "c \<noteq> 0" "c \<noteq> 0x5c" "c \<noteq> 0xef" by blast
  then show ?case
  proof cases
    case 3
    then have in1: "0 \<in> set p1" using less(2) p by auto
    then obtain d p2 where p1: "p1 = d # p2" by (cases p1) auto
    obtain q1 where q1: "to_posix_loop p1 = Some q1" using IH [of p1] in1 p by auto
    show ?thesis
    proof (cases "0xfc AND d = 0x80")
      case True
      then have in2: "0 \<in> set p2" using in1 p1 by auto
      then obtain e p3 where p2: "p2 = e # p3" by (cases p2) auto
      have "\<exists>q. to_posix_loop p3 = Some q" if "0xc0 AND e = 0x80"
        using that IH [of p3] in2 p p1 p2 by auto
      then show ?thesis using True q1 unfolding p p1 p2 3 by (auto simp: Let_def)
    next
      case False
      then show ?thesis using q1 unfolding p p1 3 by simp
    qed
  qed (use IH [of p1] less(2) p in auto)
qed

lemma to_windows_loop_terminated: "0 \<in> set p \<Longrightarrow> to_windows_loop p \<noteq> None"
  by (induction p) auto

lemma translations_defined:
  "FspPosixMapWindowsToPosixPathEx (\<lambda>w. map_option (\<lambda>p. p @ [0]) (Wide_to_utf8 (Host f) w)) alloc e w Translate \<noteq> None"
  "FspPosixMapPosixToWindowsPathEx (\<lambda>p. map_option (\<lambda>w. w @ [0]) (Utf8_to_wide (Host f) p)) alloc e p Translate \<noteq> None"
  using to_posix_loop_terminated [of "_ @ [0]"] to_windows_loop_terminated [of "_ @ [0]"]
  by (auto simp: FspPosixMapWindowsToPosixPathEx_def FspPosixMapPosixToWindowsPathEx_def split: option.splits)

definition FspPosixMapWindowsToPosixPath :: "'s fuse \<Rightarrow> wstr \<Rightarrow> 's fuse_state \<Rightarrow> (ntstatus + bytes) \<times> 's fuse_state" where
  "FspPosixMapWindowsToPosixPath f WindowsPath st =
     (case windows_to_posix f WindowsPath True of
        Inl Result \<Rightarrow> (Inl Result, st)
      | Inr p \<Rightarrow> (Inr p, st\<lparr>Fuse_Mem := Fuse_Mem st + 1\<rparr>))"

definition FspPosixMapPosixToWindowsPath :: "'s fuse \<Rightarrow> bytes \<Rightarrow> 's fuse_state \<Rightarrow> (ntstatus + wstr) \<times> 's fuse_state" where
  "FspPosixMapPosixToWindowsPath f PosixPath st =
     (case posix_to_windows f PosixPath of
        Inl Result \<Rightarrow> (Inl Result, st)
      | Inr w \<Rightarrow> (Inr w, st\<lparr>Fuse_Mem := Fuse_Mem st + 1\<rparr>))"

end
