(* ===== verification/FuseInfo.thy ===== *)
theory FuseInfo
  imports FuseFs
begin

text \<open>
  What the FUSE layer finds out about a file (\<open>src/dll/fuse/fuse_intf.c\<close>): \<open>fsp_fuse_intf_GetFileInfoFunnel\<close>,
  reparse points, whether a symbolic link leads to a directory, and security.
\<close>

section \<open>Attributes and times\<close>

definition fsp_fuse_intf_MapFileAttributesToFlags :: "u32 \<Rightarrow> u32" where
  "fsp_fuse_intf_MapFileAttributesToFlags FileAttributes =
     (if FlagOn FileAttributes FILE_ATTRIBUTE_READONLY then FSP_FUSE_UF_READONLY else 0) OR
     (if FlagOn FileAttributes FILE_ATTRIBUTE_HIDDEN then FSP_FUSE_UF_HIDDEN else 0) OR
     (if FlagOn FileAttributes FILE_ATTRIBUTE_SYSTEM then FSP_FUSE_UF_SYSTEM else 0) OR
     (if FlagOn FileAttributes FILE_ATTRIBUTE_ARCHIVE then FSP_FUSE_UF_ARCHIVE else 0)"

definition fsp_fuse_intf_MapFlagsToFileAttributes :: "u32 \<Rightarrow> u32" where
  "fsp_fuse_intf_MapFlagsToFileAttributes flags =
     (if FlagOn flags FSP_FUSE_UF_READONLY then FILE_ATTRIBUTE_READONLY else 0) OR
     (if FlagOn flags FSP_FUSE_UF_HIDDEN then FILE_ATTRIBUTE_HIDDEN else 0) OR
     (if FlagOn flags FSP_FUSE_UF_SYSTEM then FILE_ATTRIBUTE_SYSTEM else 0) OR
     (if FlagOn flags FSP_FUSE_UF_ARCHIVE then FILE_ATTRIBUTE_ARCHIVE else 0)"

text \<open>
  The two conversions of times of \<open>inc/winfsp/winfsp.h\<close>: seconds and nanoseconds, or units of 100 ns since 1601.
  The words \<open>'w\<close> are \<open>__int3264\<close>: 64 bits wide, and 32 bits on the x86 build, where the casts truncate. The
  FUSE layer is modelled as it is built for 64 bits. The arithmetic is on \<open>INT64\<close>; where that overflows, which
  C leaves undefined, the model wraps around.
\<close>

definition FspPosixFileTimeToUnixTime :: "u64 \<Rightarrow> 'w::len word \<times> 'w word" where
  "FspPosixFileTimeToUnixTime FileTime0 =
     (let FileTime = FileTime0 - 116444736000000000
      in (word_of_int (sint FileTime sdiv 10000000), word_of_int (sint FileTime smod 10000000 * 100)))"

definition FspPosixUnixTimeToFileTime :: "'w::len word \<times> 'w word \<Rightarrow> u64" where
  "FspPosixUnixTimeToFileTime UnixTime =
     word_of_int (sint (fst UnixTime)) * 10000000 + word_of_int (sint (snd UnixTime) sdiv 100) + 116444736000000000"

section \<open>File information\<close>

definition get_stat ::
  "'s fuse \<Rightarrow> bytes \<Rightarrow> fuse_file_info option \<Rightarrow> 's fuse_state \<Rightarrow> (ntstatus + fuse_stat) \<times> 's fuse_state" where
  "get_stat f PosixPath fi st =
     (let answer = (\<lambda>((err, stbuf), st). (if err \<noteq> 0 then Inl (fsp_fuse_ntstatus_from_errno f err) else Inr stbuf, st))
      in case (op_fgetattr (File_ops f), fi, op_getattr (Path_ops f)) of
        (Some fgetattr, Some i, getattr) \<Rightarrow>
          if Fi_fh i \<noteq> - 1 then answer (fuse_call (\<lambda>s. fgetattr s PosixPath i) st)
          else (case getattr of
              Some getattr \<Rightarrow> answer (fuse_call (\<lambda>s. getattr s PosixPath) st)
            | None \<Rightarrow> (Inl STATUS_INVALID_DEVICE_REQUEST, st))
      | (_, _, Some getattr) \<Rightarrow> answer (fuse_call (\<lambda>s. getattr s PosixPath) st)
      | (_, _, None) \<Rightarrow> (Inl STATUS_INVALID_DEVICE_REQUEST, st))"

definition override_stat :: "'s fuse \<Rightarrow> fuse_stat \<Rightarrow> fuse_stat" where
  "override_stat f stbuf =
     stbuf\<lparr>St_mode := (case set_umask f of None \<Rightarrow> St_mode stbuf
         | Some umask \<Rightarrow> St_mode stbuf AND S_IFMT OR 0x1ff AND NOT umask),
       St_uid := (case set_uid f of None \<Rightarrow> St_uid stbuf | Some uid \<Rightarrow> uid),
       St_gid := (case set_gid f of None \<Rightarrow> St_gid stbuf | Some gid \<Rightarrow> gid)\<rparr>"

text \<open>The part of a path behind its last slash.\<close>

definition posix_basename :: "bytes \<Rightarrow> bytes" where
  "posix_basename p = rev (takeWhile (\<lambda>c. c \<noteq> 0x2f) (rev p))"

definition FSP_FUSE_HAS_SYMLINKS :: "'s fuse \<Rightarrow> bool" where
  "FSP_FUSE_HAS_SYMLINKS f \<longleftrightarrow> has_symlinks f"

definition AllocationUnit :: "'s fuse \<Rightarrow> u64" where
  "AllocationUnit f = ucast (SectorSize f) * ucast (SectorsPerAllocationUnit f)"

definition allocation_size :: "'s fuse \<Rightarrow> u64 \<Rightarrow> u64" where
  "allocation_size f FileSize = (FileSize + AllocationUnit f - 1) div AllocationUnit f * AllocationUnit f"

text \<open>
  The attributes and the tag of a type of file; \<open>check\<close> is \<open>fsp_fuse_intf_CheckSymlinkDirectory\<close>, \<open>None\<close> if the
  caller does not want it.
\<close>

definition type_attributes ::
  "'s fuse \<Rightarrow> ('s fuse_state \<Rightarrow> bool \<times> 's fuse_state) option \<Rightarrow> u32 \<Rightarrow> 's fuse_state \<Rightarrow> (u32 \<times> u32) \<times> 's fuse_state" where
  "type_attributes f check mode st =
     (let t = mode AND S_IFMT
      in if t = S_IFDIR then ((FILE_ATTRIBUTE_DIRECTORY, 0), st)
         else if t = S_IFIFO \<or> t = S_IFCHR \<or> t = S_IFBLK \<or> t = S_IFSOCK
         then ((FILE_ATTRIBUTE_REPARSE_POINT, IO_REPARSE_TAG_NFS), st)
         else if t = S_IFLNK \<and> FSP_FUSE_HAS_SYMLINKS f then
           (case check of
              None \<Rightarrow> ((FILE_ATTRIBUTE_REPARSE_POINT, IO_REPARSE_TAG_SYMLINK), st)
            | Some check \<Rightarrow>
                let (directory, st) = check st
                in ((FILE_ATTRIBUTE_REPARSE_POINT OR (if directory then FILE_ATTRIBUTE_DIRECTORY else 0),
                     IO_REPARSE_TAG_SYMLINK), st))
         else ((0, 0), st))"

text \<open>The result: the user, the group, the mode and the device, and the information.\<close>

definition fill_file_info :: "'s fuse \<Rightarrow> bytes \<Rightarrow> fuse_stat \<Rightarrow> u32 \<times> u32 \<Rightarrow> file_info" where
  "fill_file_info f PosixPath stbuf attrs =
     zero_file_info\<lparr>
       Info_FileAttributes := fst attrs OR
         (if bit (conn_want f) FSP_FUSE_CAP_STAT_EX then fsp_fuse_intf_MapFlagsToFileAttributes (St_flags stbuf) else 0) OR
         (if dothidden f \<and> take 1 (posix_basename PosixPath) = [0x2e] then FILE_ATTRIBUTE_HIDDEN else 0),
       Info_ReparseTag := snd attrs,
       Info_FileSize := St_size stbuf,
       Info_AllocationSize := allocation_size f (St_size stbuf),
       Info_CreationTime := FspPosixUnixTimeToFileTime (St_birthtim stbuf),
       Info_LastAccessTime := FspPosixUnixTimeToFileTime (St_atim stbuf),
       Info_LastWriteTime := FspPosixUnixTimeToFileTime (St_mtim stbuf),
       Info_ChangeTime := FspPosixUnixTimeToFileTime (St_ctim stbuf),
       Info_IndexNumber := St_ino stbuf\<rparr>"

record fuse_info =
  FI_Uid :: u32
  FI_Gid :: u32
  FI_Mode :: u32
  FI_Dev :: u32
  FI_Info :: file_info

definition fsp_fuse_intf_GetFileInfoFunnel ::
  "'s fuse \<Rightarrow> bytes \<Rightarrow> fuse_file_info option \<Rightarrow> fuse_stat option \<Rightarrow> ('s fuse_state \<Rightarrow> bool \<times> 's fuse_state) option \<Rightarrow>
   's fuse_state \<Rightarrow> (ntstatus + fuse_info) \<times> 's fuse_state" where
  "fsp_fuse_intf_GetFileInfoFunnel f PosixPath fi stbufp check st =
     (case (case stbufp of Some stbuf \<Rightarrow> (Inr stbuf, st) | None \<Rightarrow> get_stat f PosixPath fi st) of
        (Inl Result, st) \<Rightarrow> (Inl Result, st)
      | (Inr stbuf, st) \<Rightarrow>
          let stbuf = override_stat f stbuf;
              (attrs, st) = type_attributes f check (St_mode stbuf) st
          in (Inr \<lparr>FI_Uid = St_uid stbuf, FI_Gid = St_gid stbuf, FI_Mode = St_mode stbuf, FI_Dev = St_rdev stbuf,
                FI_Info = fill_file_info f PosixPath stbuf attrs\<rparr>, st))"

section \<open>Reparse points\<close>

text \<open>
  The target of a symbolic link as \<open>readlink\<close> gives it, in a buffer of \<open>Size\<close> bytes. The code calls \<open>readlink\<close>
  without a test: \<open>fuse_loop.c\<close> sets \<open>has_symlinks\<close> only for a file system that has it, and nothing else leads here,
  so the first branch is never taken.
\<close>

definition fsp_fuse_intf_GetReparsePointSymlink ::
  "'s fuse \<Rightarrow> bytes \<Rightarrow> nat \<Rightarrow> 's fuse_state \<Rightarrow> (ntstatus + wstr) \<times> 's fuse_state" where
  "fsp_fuse_intf_GetReparsePointSymlink f PosixPath Size st =
     (case op_readlink (Path_ops f) of
        None \<Rightarrow> (Inl STATUS_INVALID_DEVICE_REQUEST, st)
      | Some readlink \<Rightarrow>
          let ((err, target), st) = fuse_call (\<lambda>s. readlink s PosixPath 1024) st;
              PosixTargetPath = takeWhile (\<lambda>c. c \<noteq> 0) target
          in if err = - 22 then (Inl STATUS_NOT_A_REPARSE_POINT, st)
             else if err \<noteq> 0 then (Inl (fsp_fuse_ntstatus_from_errno f err), st)
             else if take 1 PosixTargetPath = [0x2f] \<and> \<not> rellinks f then (Inl STATUS_ACCESS_DENIED, st)
             else case FspPosixMapPosixToWindowsPath f PosixTargetPath st of
               (Inl Result, st) \<Rightarrow> (Inl Result, st)
             | (Inr TargetPath, st) \<Rightarrow>
                 (if 2 * length TargetPath > Size then Inl STATUS_BUFFER_TOO_SMALL else Inr TargetPath, fuse_free st))"

text \<open>The type of an NFS reparse point.\<close>

definition NFS_SPECFILE :: "u32 \<Rightarrow> u64" where
  "NFS_SPECFILE mode =
     (if mode AND S_IFMT = S_IFIFO then 0x4F464946
      else if mode AND S_IFMT = S_IFCHR then 0x524843
      else if mode AND S_IFMT = S_IFBLK then 0x4b4c42
      else 0x4B434F53)"

text \<open>The reparse data in bytes; the field \<open>Reserved\<close> keeps what the memory holds.\<close>

definition reparse_header :: "u32 \<Rightarrow> nat \<Rightarrow> u16 \<Rightarrow> bytes" where
  "reparse_header tag ReparseDataLength Reserved =
     le_enc 4 tag @ le_enc 2 (of_nat ReparseDataLength :: u16) @ le_enc 2 Reserved"

definition nfs_reparse_data :: "u32 \<Rightarrow> u32 \<Rightarrow> u16 \<Rightarrow> reparse_data" where
  "nfs_reparse_data mode Dev Reserved =
     (let device = (mode AND S_IFMT = S_IFCHR \<or> mode AND S_IFMT = S_IFBLK);
          data = le_enc 8 (NFS_SPECFILE mode) @
            (if device then le_enc 4 (drop_bit 16 Dev AND 0xffff) @ le_enc 4 (Dev AND 0xffff) else [])
      in \<lparr>ReparseTag = IO_REPARSE_TAG_NFS, Link_Relative = False, SubstituteName = [],
          Reparse_Bytes = reparse_header IO_REPARSE_TAG_NFS (length data) Reserved @ data\<rparr>)"

definition wstr_bytes :: "wstr \<Rightarrow> bytes" where
  "wstr_bytes w = concat (map (le_enc 2) w)"

definition symlink_reparse_data :: "wstr \<Rightarrow> u16 \<Rightarrow> reparse_data" where
  "symlink_reparse_data TargetPath Reserved =
     (let Size = 2 * length TargetPath; n = (of_nat Size :: u16)
      in \<lparr>ReparseTag = IO_REPARSE_TAG_SYMLINK, Link_Relative = True, SubstituteName = TargetPath,
          Reparse_Bytes = reparse_header IO_REPARSE_TAG_SYMLINK (12 + Size) Reserved @
            le_enc 2 (0 :: u16) @ le_enc 2 n @ le_enc 2 (0 :: u16) @ le_enc 2 n @ le_enc 4 (1 :: u32) @ wstr_bytes TargetPath\<rparr>)"

text \<open>
  \<open>buffer\<close> is the size of the buffer and its \<open>Reserved\<close> field, \<open>None\<close> for a null pointer;
  \<open>resolve\<close> are the two elements of \<open>PResolveFileAttributes\<close>.
\<close>

definition fsp_fuse_intf_GetReparsePointEx ::
  "'s fuse \<Rightarrow> bytes \<Rightarrow> fuse_file_info option \<Rightarrow> (nat \<times> u16) option \<Rightarrow> (u32 \<times> u32) option \<Rightarrow> 's fuse_state \<Rightarrow>
   ((ntstatus \<times> reparse_data option) \<times> (u32 \<times> u32) option) \<times> 's fuse_state" where
  "fsp_fuse_intf_GetReparsePointEx f PosixPath fi buffer resolve st =
     (let finish = (\<lambda>mode Dev resolve st.
        (case buffer of
           None \<Rightarrow> (((STATUS_SUCCESS, None), resolve), st)
         | Some (Size, Reserved) \<Rightarrow>
             if mode AND S_IFMT = S_IFLNK then
               (if 8 + 12 > Size then (((STATUS_BUFFER_TOO_SMALL, None), resolve), st)
                else case fsp_fuse_intf_GetReparsePointSymlink f PosixPath (Size - 20) st of
                  (Inl Result, st) \<Rightarrow> (((Result, None), resolve), st)
                | (Inr TargetPath, st) \<Rightarrow> (((STATUS_SUCCESS, Some (symlink_reparse_data TargetPath Reserved)), resolve), st))
             else
               let data = nfs_reparse_data mode Dev Reserved
               in if length (Reparse_Bytes data) > Size then (((STATUS_BUFFER_TOO_SMALL, None), resolve), st)
                  else (((STATUS_SUCCESS, Some data), resolve), st)))
      in if map_option fst resolve = Some FILE_ATTRIBUTE_REPARSE_POINT
         then finish S_IFLNK 0 (map_option (\<lambda>(_, second). (0, second)) resolve) st
         else case fsp_fuse_intf_GetFileInfoFunnel f PosixPath fi None None st of
           (Inl Result, st) \<Rightarrow> (((Result, None), resolve), st)
         | (Inr i, st) \<Rightarrow>
             let attr = Info_FileAttributes (FI_Info i)
             in if \<not> FlagOn attr FILE_ATTRIBUTE_REPARSE_POINT
                then (((STATUS_NOT_A_REPARSE_POINT, None), map_option (\<lambda>(first, _). (first, attr)) resolve), st)
                else finish (FI_Mode i) (FI_Dev i) resolve st)"

text \<open>The callback of the library's own functions: \<open>Context\<close> is \<open>PResolveFileAttributes\<close>, part of the state.\<close>

definition fsp_fuse_intf_GetReparsePointByName ::
  "'s fuse \<Rightarrow> (nat \<times> u16) option \<Rightarrow> ('s fuse_state \<times> (u32 \<times> u32) option) get_reparse_point" where
  "fsp_fuse_intf_GetReparsePointByName f buffer s FileName IsDirectory =
     (let (st, resolve) = s
      in case FspPosixMapWindowsToPosixPath f FileName st of
        (Inl Result, st) \<Rightarrow> ((Result, None), (st, resolve))
      | (Inr PosixPath, st) \<Rightarrow>
          let ((answer, resolve), st) = fsp_fuse_intf_GetReparsePointEx f PosixPath None buffer resolve st
          in (answer, (fuse_free st, resolve)))"

section \<open>Directories behind symbolic links\<close>

definition is_directory :: "int \<Rightarrow> fuse_stat \<Rightarrow> bool" where
  "is_directory err stbuf \<longleftrightarrow> err = 0 \<and> St_mode stbuf AND S_IFMT = S_IFDIR"

definition getattr_directory :: "'s fuse \<Rightarrow> bytes \<Rightarrow> 's fuse_state \<Rightarrow> bool \<times> 's fuse_state" where
  "getattr_directory f PosixPath st =
     (case op_getattr (Path_ops f) of
        None \<Rightarrow> (False, st)
      | Some getattr \<Rightarrow>
          let ((err, stbuf), st) = fuse_call (\<lambda>s. getattr s PosixPath) st in (is_directory err stbuf, st))"

text \<open>The index behind the last backslash.\<close>

definition last_index :: "wstr \<Rightarrow> nat" where
  "last_index w = length w - length (takeWhile (\<lambda>c. c \<noteq> 0x5c) (rev w))"

text \<open>
  The link is resolved from its last component on, with the answer that it is a link prepared; the buffer on
  the stack has 2070 bytes. The resolution never reads behind the path (\<open>None\<close>), since the index is inside it.
\<close>

definition link_resolves_to_directory :: "'s fuse \<Rightarrow> wstr \<Rightarrow> 's fuse_state \<Rightarrow> bool \<times> 's fuse_state" where
  "link_resolves_to_directory f WindowsPath st =
     (let fresh = (if Alloc (Host f) 16256 then Some (Fresh_reparse (Host f)) else None)
      in case FspFileSystemResolveReparsePoints (fsp_fuse_intf_GetReparsePointByName f (Some (16256, 0))) fresh 2070
           WindowsPath (of_nat (last_index WindowsPath)) True (st, Some (FILE_ATTRIBUTE_REPARSE_POINT, - 1)) of
        None \<Rightarrow> (False, st)
      | Some (Reparse_path p absolute tag, (st, Some (_, attr))) \<Rightarrow>
          if attr \<noteq> - 1 then (FlagOn attr FILE_ATTRIBUTE_DIRECTORY, st)
          else (case FspPosixMapWindowsToPosixPath f p st of
              (Inl Result, st) \<Rightarrow> (False, st)
            | (Inr PosixResolvedPath, st) \<Rightarrow>
                let (directory, st) = getattr_directory f PosixResolvedPath st in (directory, fuse_free st))
      | Some (_, (st, _)) \<Rightarrow> (False, st))"

definition fsp_fuse_intf_CheckSymlinkDirectory :: "'s fuse \<Rightarrow> bytes \<Rightarrow> 's fuse_state \<Rightarrow> bool \<times> 's fuse_state" where
  "fsp_fuse_intf_CheckSymlinkDirectory f PosixPath st =
     (if has_slashdot f then
        (case fuse_alloc f (length PosixPath + 3) st of
           None \<Rightarrow> (False, st)
         | Some st \<Rightarrow>
             let (directory, st) = getattr_directory f (PosixPath @ [0x2f, 0x2e]) st in (directory, fuse_free st))
      else
        (case FspPosixMapPosixToWindowsPath f PosixPath st of
           (Inl Result, st) \<Rightarrow> (False, st)
         | (Inr WindowsPath, st) \<Rightarrow>
             let (directory, st) = link_resolves_to_directory f WindowsPath st in (directory, fuse_free st)))"

definition fsp_fuse_intf_GetFileInfoEx ::
  "'s fuse \<Rightarrow> bytes \<Rightarrow> fuse_file_info option \<Rightarrow> 's fuse_state \<Rightarrow> (ntstatus + fuse_info) \<times> 's fuse_state" where
  "fsp_fuse_intf_GetFileInfoEx f PosixPath fi st =
     fsp_fuse_intf_GetFileInfoFunnel f PosixPath fi None (Some (fsp_fuse_intf_CheckSymlinkDirectory f PosixPath)) st"

section \<open>Security\<close>

definition fsp_fuse_intf_AddWriteEaAccess :: "security_descriptor \<Rightarrow> security_descriptor" where
  "fsp_fuse_intf_AddWriteEaAccess sd =
     sd\<lparr>Dacl := map_option (map (\<lambda>a. if AceType a \<in> {Allowed, Denied} \<and> Mask a AND 0x2 \<noteq> 0
         then a\<lparr>Mask := Mask a OR 0x10\<rparr> else a)) (Dacl sd)\<rparr>"

text \<open>
  The descriptor of a file, which is allocated; \<open>None\<close> is a read outside a domain SID.
\<close>

definition merge_permissions ::
  "'s fuse \<Rightarrow> fuse_info \<Rightarrow> 's fuse_state \<Rightarrow> ((ntstatus + security_descriptor) \<times> 's fuse_state) option" where
  "merge_permissions f i st =
     (case FspPosixMergePermissionsToSecurityDescriptor (Alloc (Host f)) (Last_error (Host f)) (Posix_env (Host f))
         (FI_Uid i) (FI_Gid i) (FI_Mode i) (FileSecurity f) of
        None \<Rightarrow> None
      | Some (Inl Result) \<Rightarrow> Some (Inl Result, st)
      | Some (Inr sd) \<Rightarrow> Some (Inr sd, st\<lparr>Fuse_Mem := Fuse_Mem st + 1\<rparr>))"

text \<open>
  \<open>limit\<close> is \<open>*PSecurityDescriptorSize\<close>, \<open>None\<close> for a null pointer. The result: the status, the attributes, the
  size and the descriptor that is copied if the buffer is not null.
\<close>

definition fsp_fuse_intf_GetSecurityEx ::
  "'s fuse \<Rightarrow> bytes \<Rightarrow> fuse_file_info option \<Rightarrow> nat option \<Rightarrow> 's fuse_state \<Rightarrow>
   ((ntstatus \<times> u32 option \<times> nat option \<times> security_descriptor option) \<times> 's fuse_state) option" where
  "fsp_fuse_intf_GetSecurityEx f PosixPath fi limit st =
     (case fsp_fuse_intf_GetFileInfoEx f PosixPath fi st of
        (Inl Result, st) \<Rightarrow> Some ((Result, None, limit, None), st)
      | (Inr i, st) \<Rightarrow>
          let attr = Some (Info_FileAttributes (FI_Info i))
          in case limit of
            None \<Rightarrow> Some ((STATUS_SUCCESS, attr, None, None), st)
          | Some n \<Rightarrow>
              (case merge_permissions f i st of
                 None \<Rightarrow> None
               | Some (Inl Result, st) \<Rightarrow> Some ((Result, None, limit, None), st)
               | Some (Inr sd, st) \<Rightarrow>
                   let st = fuse_free st
                   in if relative_size sd > n then Some ((STATUS_BUFFER_OVERFLOW, None, Some (relative_size sd), None), st)
                      else Some ((STATUS_SUCCESS, attr, Some (relative_size sd),
                        Some (if add_write_ea_access f then fsp_fuse_intf_AddWriteEaAccess sd else sd)), st)))"

text \<open>
  \<open>fsp_fuse_intf_GetSecurityByName\<close>; the index of a reparse point on the way overwrites the attributes. The inner
  \<open>None\<close> of the search cannot happen.
\<close>

definition fsp_fuse_intf_GetSecurityByName ::
  "'s fuse \<Rightarrow> wstr \<Rightarrow> nat option \<Rightarrow> 's fuse_state \<Rightarrow>
   ((ntstatus \<times> u32 option \<times> nat option \<times> security_descriptor option) \<times> 's fuse_state) option" where
  "fsp_fuse_intf_GetSecurityByName f FileName limit st =
     (case FspPosixMapWindowsToPosixPath f FileName st of
        (Inl Result, st) \<Rightarrow> Some ((Result, None, limit, None), st)
      | (Inr PosixPath, st) \<Rightarrow>
          (case fsp_fuse_intf_GetSecurityEx f PosixPath None limit st of
             None \<Rightarrow> None
           | Some ((Result, attr, limit, sd), st) \<Rightarrow>
               if \<not> NT_SUCCESS Result \<and> Result \<noteq> STATUS_OBJECT_NAME_NOT_FOUND \<and> Result \<noteq> STATUS_OBJECT_PATH_NOT_FOUND
               then Some ((Result, attr, limit, sd), fuse_free st)
               else if FSP_FUSE_HAS_SYMLINKS f then
                 (case FspFileSystemFindReparsePoint (fsp_fuse_intf_GetReparsePointByName f None) (st, None) FileName of
                    None \<Rightarrow> None
                  | Some (Some index, (st, _)) \<Rightarrow> Some ((STATUS_REPARSE, Some index, limit, sd), fuse_free st)
                  | Some (None, (st, _)) \<Rightarrow> Some ((if NT_SUCCESS Result then STATUS_SUCCESS else Result, attr, limit, sd), fuse_free st))
               else Some ((if NT_SUCCESS Result then STATUS_SUCCESS else Result, attr, limit, sd), fuse_free st)))"

end
