(* ===== verification/FuseOpen.thy ===== *)
theory FuseOpen
  imports FuseInfo FsEa OpGuard
begin

text \<open>
  The FUSE layer around a request (\<open>fsp_fuse_op_enter\<close>, \<open>fsp_fuse_op_leave\<close>), and the operations that open
  and close files (\<open>src/dll/fuse/fuse_intf.c\<close>). \<open>None\<close> is a call of a null pointer or an access outside memory.
\<close>

section \<open>The context of a request\<close>

record fuse_context =
  Ctx_uid :: u32
  Ctx_gid :: u32
  Ctx_pid :: u32
  Ctx_umask :: u32
  Ctx_PosixPath :: "bytes option"

text \<open>
  What is read of the access token: the user and the group, or why not. \<open>winpid_to_pid\<close> is the identity if the
  environment has none.
\<close>

definition token_uidgid ::
  "(u64 \<Rightarrow> ntstatus + u32 \<times> u32) \<Rightarrow> u64 \<Rightarrow> ntstatus + u32 \<times> u32 \<times> u32" where
  "token_uidgid get Token =
     (if Token = 0 then Inr (- 1, - 1, - 1)
      else case get (Token AND 0xffffffff) of
        Inl Result \<Rightarrow> Inl Result
      | Inr (Uid, Gid) \<Rightarrow> Inr (Uid, Gid, ucast (drop_bit 32 Token)))"

text \<open>The name that is translated, the request with its name split, and where \<open>FspPathCombine\<close> joins it again.\<close>

definition op_name :: "request \<Rightarrow> (wstr option \<times> u64 \<times> request \<times> nat option) option" where
  "op_name Request =
     (case Request of
        Create_Request req \<Rightarrow>
          if OpenTargetDirectory req then do {
            (Remain, Suffix, buf) \<leftarrow> FspPathSuffix (Name_Buffer req) True;
            let name = (case Remain of Root_path \<Rightarrow> [0x5c] | In_path i \<Rightarrow> cstr buf i);
            Some (Some name, AccessToken req, Create_Request (req\<lparr>Name_Buffer := buf\<rparr>), Some Suffix) }
          else Some (Some (cstr (Name_Buffer req) 0), AccessToken req, Request, None)
      | SetInformation_Request _ req \<Rightarrow>
          if FileInformationClass req = 10 \<or> FileInformationClass req = 65
          then Some (Some (Rename_NewFileName req), Rename_AccessToken req, Request, None)
          else Some (None, 0, Request, None)
      | _ \<Rightarrow> Some (None, 0, Request, None))"

definition join_name :: "request \<Rightarrow> nat option \<Rightarrow> request" where
  "join_name Request Suffix =
     (case (Request, Suffix) of
        (Create_Request req, Some n) \<Rightarrow> Create_Request (req\<lparr>Name_Buffer := FspPathCombine (Name_Buffer req) n\<rparr>)
      | _ \<Rightarrow> Request)"

text \<open>
  \<open>ctx0\<close> is the context of the thread, \<open>None\<close> if there is no memory for it. The guard is taken last, by
  \<open>fsp_fuse_op_enter_lock\<close>; an error leaves no path allocated.
\<close>

definition fsp_fuse_op_enter ::
  "'s fuse \<Rightarrow> (u64 \<Rightarrow> ntstatus + u32 \<times> u32) \<Rightarrow> (u32 \<Rightarrow> u32) \<Rightarrow> fuse_context option \<Rightarrow> request \<Rightarrow> 's fuse_state \<Rightarrow>
   ((ntstatus + fuse_context) \<times> request \<times> 's fuse_state) option" where
  "fsp_fuse_op_enter f get winpid_to_pid ctx0 Request st =
     (case op_name Request of
        None \<Rightarrow> None
      | Some (FileName, Token, Request, Suffix) \<Rightarrow>
          (case (case FileName of None \<Rightarrow> (Inr None, st)
             | Some name \<Rightarrow> (let (r, st) = FspPosixMapWindowsToPosixPath f name st in (map_sum id Some r, st))) of
             (Inl Result, st) \<Rightarrow> Some (Inl Result, join_name Request Suffix, st)
           | (Inr path, st) \<Rightarrow>
               let Request = join_name Request Suffix;
                   fail = (\<lambda>Result. Some (Inl Result, Request, if path = None then st else fuse_free st))
               in case token_uidgid get Token of
                 Inl Result \<Rightarrow> fail Result
               | Inr (Uid, Gid, Pid) \<Rightarrow>
                   (case ctx0 of
                      None \<Rightarrow> fail STATUS_INSUFFICIENT_RESOURCES
                    | Some ctx \<Rightarrow>
                        Some (Inr (ctx\<lparr>Ctx_uid := Uid, Ctx_gid := Gid, Ctx_pid := winpid_to_pid Pid,
                          Ctx_PosixPath := path\<rparr>), Request, st))))"

definition fsp_fuse_op_leave :: "fuse_context \<Rightarrow> 's fuse_state \<Rightarrow> fuse_context \<times> 's fuse_state" where
  "fsp_fuse_op_leave ctx st =
     (ctx\<lparr>Ctx_uid := - 1, Ctx_gid := - 1, Ctx_pid := - 1, Ctx_PosixPath := None\<rparr>,
      if Ctx_PosixPath ctx = None then st else fuse_free st)"

section \<open>Open files\<close>

record fuse_file_desc =
  Desc_PosixPath :: bytes
  IsDirectory :: bool
  IsReparsePoint :: bool
  OpenFlags :: u32
  FileHandle :: u64
  DirBuffer :: "dirbuf option"

definition desc_fi :: "fuse_file_desc \<Rightarrow> fuse_file_info" where
  "desc_fi d = \<lparr>Fi_flags = OpenFlags d, Fi_fh = FileHandle d, Fi_direct_io = False\<rparr>"

definition FUSE_FILE_INFO :: "bool \<Rightarrow> fuse_file_info \<Rightarrow> fuse_file_info option" where
  "FUSE_FILE_INFO directory fi = (if directory then None else Some fi)"

definition desc_file_info :: "'s fuse \<Rightarrow> fuse_file_desc \<Rightarrow> 's fuse_state \<Rightarrow> (ntstatus + fuse_info) \<times> 's fuse_state" where
  "desc_file_info f d st =
     fsp_fuse_intf_GetFileInfoEx f (Desc_PosixPath d) (FUSE_FILE_INFO (IsDirectory d) (desc_fi d)) st"

text \<open>A call that gives an error only, and its status.\<close>

definition err_call :: "'s fuse \<Rightarrow> ('s \<Rightarrow> int \<times> 's) \<Rightarrow> 's fuse_state \<Rightarrow> ntstatus \<times> 's fuse_state" where
  "err_call f op st = (let (err, st) = fuse_call op st in (fsp_fuse_ntstatus_from_errno f err, st))"

text \<open>A call that opens a file.\<close>

definition open_call ::
  "'s fuse \<Rightarrow> ('s \<Rightarrow> (int \<times> fuse_file_info) \<times> 's) \<Rightarrow> 's fuse_state \<Rightarrow> (ntstatus \<times> fuse_file_info) \<times> 's fuse_state" where
  "open_call f op st = (let ((err, fi), st) = fuse_call op st in ((fsp_fuse_ntstatus_from_errno f err, fi), st))"

text \<open>A call whose result does not matter, if the file system has it.\<close>

definition optional_call :: "('s \<Rightarrow> int \<times> 's) option \<Rightarrow> 's fuse_state \<Rightarrow> 's fuse_state" where
  "optional_call op st = (case op of None \<Rightarrow> st | Some op \<Rightarrow> snd (fuse_call op st))"

definition release_file :: "'s fuse \<Rightarrow> bool \<Rightarrow> bytes \<Rightarrow> fuse_file_info \<Rightarrow> 's fuse_state \<Rightarrow> 's fuse_state" where
  "release_file f directory p fi st =
     optional_call (map_option (\<lambda>op s. op s p fi) (if directory then op_releasedir (File_ops f) else op_release (File_ops f))) st"

text \<open>\<open>!NT_SUCCESS(Result) && STATUS_INVALID_DEVICE_REQUEST != Result\<close>.\<close>

definition failed :: "ntstatus \<Rightarrow> bool" where
  "failed Result \<longleftrightarrow> \<not> NT_SUCCESS Result \<and> Result \<noteq> STATUS_INVALID_DEVICE_REQUEST"

definition change_flags :: "'s fuse \<Rightarrow> bytes \<Rightarrow> bool \<Rightarrow> u32 \<Rightarrow> 's fuse_state \<Rightarrow> ntstatus \<times> 's fuse_state" where
  "change_flags f p wanted FileAttributes st =
     (case op_chflags (Path_ops f) of
        Some chflags \<Rightarrow>
          if wanted \<and> bit (conn_want f) FSP_FUSE_CAP_STAT_EX
          then err_call f (\<lambda>s. chflags s p (fsp_fuse_intf_MapFileAttributesToFlags FileAttributes)) st
          else (STATUS_SUCCESS, st)
      | None \<Rightarrow> (STATUS_SUCCESS, st))"

section \<open>Extended attributes\<close>

abbreviation (input) STATUS_EAS_NOT_SUPPORTED :: ntstatus where "STATUS_EAS_NOT_SUPPORTED \<equiv> 0xC000004F"

definition fsp_fuse_intf_SetEaEntry ::
  "'s fuse \<Rightarrow> bytes \<Rightarrow> 's fuse_state \<Rightarrow> bytes \<Rightarrow> (ntstatus \<times> 's fuse_state) option" where
  "fsp_fuse_intf_SetEaEntry f PosixPath st SingleEa = do {
     v \<leftarrow> ea_value_length SingleEa;
     name \<leftarrow> ea_name SingleEa;
     if v \<noteq> 0 then do {
       value \<leftarrow> ea_value SingleEa;
       setxattr \<leftarrow> op_setxattr (Path_ops f);
       Some (err_call f (\<lambda>s. setxattr s PosixPath name value) st) }
     else do {
       removexattr \<leftarrow> op_removexattr (Path_ops f);
       Some (STATUS_SUCCESS, snd (fuse_call (\<lambda>s. removexattr s PosixPath name) st)) } }"

definition supports_eas :: "'s fuse \<Rightarrow> bool" where
  "supports_eas f \<longleftrightarrow> op_listxattr (Path_ops f) \<noteq> None \<and> op_getxattr (Path_ops f) \<noteq> None \<and>
     op_setxattr (Path_ops f) \<noteq> None \<and> op_removexattr (Path_ops f) \<noteq> None"

section \<open>Creating a file\<close>

definition create_mode :: "'s fuse \<Rightarrow> fuse_context \<Rightarrow> bool \<Rightarrow> u32 \<Rightarrow> u32" where
  "create_mode f ctx directory Mode =
     (case (if directory then set_create_dir_umask f else set_create_file_umask f) of
        Some umask \<Rightarrow> 0x1ff AND NOT umask
      | None \<Rightarrow> (case set_create_umask f of Some umask \<Rightarrow> 0x1ff AND NOT umask | None \<Rightarrow> Mode AND NOT (Ctx_umask ctx)))"

definition create_fi :: "'s fuse \<Rightarrow> fuse_file_info" where
  "create_fi f = \<lparr>Fi_flags = (if Cygwin f then 0x200 OR 0x800 OR 2 else 0x100 OR 0x400 OR 2), Fi_fh = 0, Fi_direct_io = False\<rparr>"

text \<open>The call that makes and opens the file: its status, and what the file system makes of the information.\<close>

definition create_open ::
  "'s fuse \<Rightarrow> fuse_context \<Rightarrow> bool \<Rightarrow> bytes \<Rightarrow> u32 \<Rightarrow> 's fuse_state \<Rightarrow> (ntstatus \<times> fuse_file_info) \<times> 's fuse_state" where
  "create_open f ctx directory p Mode st =
     (let fi = create_fi f;
          made = (\<lambda>(Result, st) open_it. if Result \<noteq> STATUS_SUCCESS then ((Result, fi), st) else open_it st)
      in if directory then
           (case op_mkdir (Path_ops f) of
              None \<Rightarrow> ((STATUS_INVALID_DEVICE_REQUEST, fi), st)
            | Some mkdir \<Rightarrow>
                made (err_call f (\<lambda>s. mkdir s p Mode) st)
                  (\<lambda>st. case op_opendir (File_ops f) of
                     None \<Rightarrow> ((STATUS_SUCCESS, fi\<lparr>Fi_fh := - 1\<rparr>), st)
                   | Some opendir \<Rightarrow> open_call f (\<lambda>s. opendir s p fi) st))
         else
           (case (op_create (File_ops f), op_mknod (Path_ops f), op_open (File_ops f)) of
              (Some create, _, _) \<Rightarrow> open_call f (\<lambda>s. create s p Mode fi) st
            | (None, Some mknod, Some open) \<Rightarrow>
                made (err_call f (\<lambda>s. mknod \<lparr>Caller_uid = Ctx_uid ctx, Caller_gid = Ctx_gid ctx\<rparr> s p Mode 0) st)
                  (\<lambda>st. open_call f (\<lambda>s. open s p fi) st)
            | _ \<Rightarrow> ((STATUS_INVALID_DEVICE_REQUEST, fi), st)))"

text \<open>\<open>fsp_fuse_intf_GetOpenFileInfoPath\<close>; \<open>limit\<close> is \<open>NormalizedNameSize\<close>.\<close>

definition fsp_fuse_intf_GetOpenFileInfoPath ::
  "'s fuse \<Rightarrow> bytes \<Rightarrow> fuse_file_info option \<Rightarrow> nat \<Rightarrow> 's fuse_state \<Rightarrow> wstr option \<times> 's fuse_state" where
  "fsp_fuse_intf_GetOpenFileInfoPath f p fi limit st =
     (case op_getpath (Path_ops f) of
        None \<Rightarrow> (None, st)
      | Some getpath \<Rightarrow>
          let ((err, name), st) = fuse_call (\<lambda>s. getpath s p 1024 fi) st
          in if err \<noteq> 0 then (None, st)
             else (case FspPosixMapPosixToWindowsPath f (takeWhile (\<lambda>c. c \<noteq> 0) name) st of
                 (Inl Result, st) \<Rightarrow> (None, st)
               | (Inr w, st) \<Rightarrow> (if limit \<ge> 2 * length w then Some w else None, fuse_free st)))"

text \<open>
  What a successful open gives: the file, its information, \<open>DisableCache\<close>, and the normalized name. The path of
  the context becomes the one of the file.
\<close>

record fuse_opened =
  Opened_Desc :: fuse_file_desc
  Opened_Info :: file_info
  DisableCache :: bool
  Opened_Name :: "wstr option"

definition opened_file ::
  "'s fuse \<Rightarrow> fuse_context \<Rightarrow> bytes \<Rightarrow> bool \<Rightarrow> fuse_file_info \<Rightarrow> file_info \<Rightarrow> nat \<Rightarrow> 's fuse_state \<Rightarrow>
   (ntstatus + fuse_opened) \<times> fuse_context \<times> 's fuse_state" where
  "opened_file f ctx p reparse fi info limit st =
     (let d = \<lparr>Desc_PosixPath = p, IsDirectory = FlagOn (Info_FileAttributes info) FILE_ATTRIBUTE_DIRECTORY,
            IsReparsePoint = reparse, OpenFlags = Fi_flags fi, FileHandle = Fi_fh fi, DirBuffer = None\<rparr>;
          (name, st) = (if \<not> CaseSensitiveSearch f
            then fsp_fuse_intf_GetOpenFileInfoPath f p (if Fi_fh fi \<noteq> - 1 then Some fi else None) limit st
            else (None, st))
      in (Inr \<lparr>Opened_Desc = d, Opened_Info = info, DisableCache = Fi_direct_io fi, Opened_Name = name\<rparr>,
          ctx\<lparr>Ctx_PosixPath := None\<rparr>, st))"

text \<open>\<open>created\<close> is the part of \<open>fsp_fuse_intf_Create\<close> behind \<open>Opened = TRUE\<close>, up to the information about the file.\<close>

definition created ::
  "'s fuse \<Rightarrow> fuse_context \<Rightarrow> bytes \<Rightarrow> bool \<Rightarrow> u32 \<Rightarrow> u32 \<Rightarrow> u32 \<Rightarrow> bytes option \<Rightarrow> fuse_file_info \<Rightarrow> 's fuse_state \<Rightarrow>
   ((ntstatus + fuse_info) \<times> 's fuse_state) option" where
  "created f ctx p directory FileAttributes Uid Gid EaBuffer fi st =
     (let (Result, st) = change_flags f p (FileAttributes \<noteq> 0)
            (if directory then FileAttributes else FileAttributes OR FILE_ATTRIBUTE_ARCHIVE) st
      in if failed Result then Some (Inl Result, st)
         else
           let (Result, st) = (case op_chown (Path_ops f) of
                 Some chown \<Rightarrow>
                   if Uid \<noteq> Ctx_uid ctx \<or> Gid \<noteq> Ctx_gid ctx then err_call f (\<lambda>s. chown s p Uid Gid) st
                   else (STATUS_SUCCESS, st)
               | None \<Rightarrow> (STATUS_SUCCESS, st))
           in if failed Result then Some (Inl Result, st)
              else case (case EaBuffer of None \<Rightarrow> Some (STATUS_SUCCESS, st)
                  | Some b \<Rightarrow> FspFileSystemEnumerateEa (fsp_fuse_intf_SetEaEntry f p) b (of_nat (length b)) st) of
                None \<Rightarrow> None
              | Some (Result, st) \<Rightarrow>
                  if failed Result then Some (Inl Result, st)
                  else Some (fsp_fuse_intf_GetFileInfoEx f p (FUSE_FILE_INFO directory fi) st))"

definition fsp_fuse_intf_Create ::
  "'s fuse \<Rightarrow> fuse_context \<Rightarrow> u32 \<Rightarrow> u32 \<Rightarrow> security_descriptor option \<Rightarrow> bytes option \<Rightarrow> bool \<Rightarrow> nat \<Rightarrow> 's fuse_state \<Rightarrow>
   ((ntstatus + fuse_opened) \<times> fuse_context \<times> 's fuse_state) option" where
  "fsp_fuse_intf_Create f ctx Options FileAttributes SecurityDescriptor ExtraBuffer ExtraBufferIsReparsePoint limit st =
     (let directory = FlagOn Options FILE_DIRECTORY_FILE
      in if ExtraBuffer \<noteq> None \<and> \<not> ExtraBufferIsReparsePoint \<and> \<not> supports_eas f
         then Some (Inl STATUS_EAS_NOT_SUPPORTED, ctx, st)
         else if ExtraBuffer \<noteq> None \<and> ExtraBufferIsReparsePoint then Some (Inl STATUS_INVALID_PARAMETER, ctx, st)
         else case fuse_alloc f 32 st of
           None \<Rightarrow> Some (Inl STATUS_INSUFFICIENT_RESOURCES, ctx, st)
         | Some st \<Rightarrow>
             (case (case SecurityDescriptor of
                 None \<Rightarrow> (STATUS_SUCCESS, Ctx_uid ctx, Ctx_gid ctx, 0x1ff)
               | Some sd \<Rightarrow> FspPosixMapSecurityDescriptorToPermissions (Posix_env (Host f)) sd None None) of
                (Result, Uid, Gid, Mode) \<Rightarrow>
                  if \<not> NT_SUCCESS Result then Some (Inl Result, ctx, fuse_free st)
                  else (case Ctx_PosixPath ctx of
                      None \<Rightarrow> None
                    | Some p \<Rightarrow>
                        let ((Result, fi), st) = create_open f ctx directory p (create_mode f ctx directory Mode) st
                        in if \<not> NT_SUCCESS Result then Some (Inl Result, ctx, fuse_free st)
                           else (case created f ctx p directory FileAttributes Uid Gid ExtraBuffer fi st of
                               None \<Rightarrow> None
                             | Some (Inl Result, st) \<Rightarrow>
                                 Some (Inl Result, ctx, fuse_free (release_file f directory p fi st))
                             | Some (Inr i, st) \<Rightarrow> Some (opened_file f ctx p False fi (FI_Info i) limit st)))))"

section \<open>Opening a file\<close>

definition open_flags :: "u32 \<Rightarrow> u32" where
  "open_flags GrantedAccess =
     (if GrantedAccess AND 3 = 2 then 1 else if GrantedAccess AND 3 = 3 then 2 else 0)"

definition delete_access :: "'s fuse \<Rightarrow> bytes \<Rightarrow> 's fuse_state \<Rightarrow> ntstatus \<times> 's fuse_state" where
  "delete_access f p st =
     (case op_access (Path_ops f) of
        Some access \<Rightarrow>
          if bit (conn_want f) FSP_FUSE_CAP_DELETE_ACCESS then
            let (Result, st) = err_call f (\<lambda>s. access s p 0x40000000) st
            in (if failed Result then (if Result = STATUS_ACCESS_DENIED then STATUS_CANNOT_DELETE else Result)
                else STATUS_SUCCESS, st)
          else (STATUS_SUCCESS, st)
      | None \<Rightarrow> (STATUS_SUCCESS, st))"

definition open_open ::
  "'s fuse \<Rightarrow> bytes \<Rightarrow> u32 \<Rightarrow> u32 \<Rightarrow> 's fuse_state \<Rightarrow> (ntstatus \<times> fuse_file_info) \<times> 's fuse_state" where
  "open_open f p attr GrantedAccess st =
     (let fi = \<lparr>Fi_flags = open_flags GrantedAccess, Fi_fh = 0, Fi_direct_io = False\<rparr>
      in if FlagOn attr FILE_ATTRIBUTE_REPARSE_POINT then ((STATUS_SUCCESS, fi\<lparr>Fi_fh := - 1\<rparr>), st)
         else if FlagOn attr FILE_ATTRIBUTE_DIRECTORY then
           (case op_opendir (File_ops f) of
              Some opendir \<Rightarrow> open_call f (\<lambda>s. opendir s p fi) st
            | None \<Rightarrow> ((STATUS_SUCCESS, fi\<lparr>Fi_fh := - 1\<rparr>), st))
         else
           let fi = (if FlagOn GrantedAccess 4 \<and> Fi_flags fi = 0 then fi\<lparr>Fi_flags := 1\<rparr> else fi)
           in (case op_open (File_ops f) of
                 Some open \<Rightarrow> open_call f (\<lambda>s. open s p fi) st
               | None \<Rightarrow> ((STATUS_INVALID_DEVICE_REQUEST, fi), st)))"

definition fsp_fuse_intf_Open ::
  "'s fuse \<Rightarrow> fuse_context \<Rightarrow> u32 \<Rightarrow> u32 \<Rightarrow> nat \<Rightarrow> 's fuse_state \<Rightarrow>
   ((ntstatus + fuse_opened) \<times> fuse_context \<times> 's fuse_state) option" where
  "fsp_fuse_intf_Open f ctx Options GrantedAccess limit st =
     (case Ctx_PosixPath ctx of
        None \<Rightarrow> None
      | Some p \<Rightarrow>
          let (Result, st) = (if FlagOn Options FILE_DELETE_ON_CLOSE then delete_access f p st else (STATUS_SUCCESS, st))
          in if \<not> NT_SUCCESS Result then Some (Inl Result, ctx, st)
             else (case fsp_fuse_intf_GetFileInfoEx f p None st of
                 (Inl Result, st) \<Rightarrow> Some (Inl Result, ctx, st)
               | (Inr i, st) \<Rightarrow>
                   (case fuse_alloc f 32 st of
                      None \<Rightarrow> Some (Inl STATUS_INSUFFICIENT_RESOURCES, ctx, st)
                    | Some st \<Rightarrow>
                        let attr = Info_FileAttributes (FI_Info i);
                            ((Result, fi), st) = open_open f p attr GrantedAccess st
                        in if \<not> NT_SUCCESS Result then Some (Inl Result, ctx, fuse_free st)
                           else Some (opened_file f ctx p (FlagOn attr FILE_ATTRIBUTE_REPARSE_POINT) fi (FI_Info i) limit st))))"

section \<open>Closing a file\<close>

definition fsp_fuse_intf_Cleanup :: "'s fuse \<Rightarrow> fuse_file_desc \<Rightarrow> u32 \<Rightarrow> 's fuse_state \<Rightarrow> 's fuse_state" where
  "fsp_fuse_intf_Cleanup f d Flags st =
     (let p = Desc_PosixPath d;
          st = (if FlushOnCleanup f \<and> \<not> IsDirectory d \<and> \<not> IsReparsePoint d
            then optional_call (map_option (\<lambda>op s. op s p (desc_fi d)) (op_flush (File_ops f))) st else st)
      in if FlagOn Flags 1 then
           (if IsDirectory d \<and> \<not> IsReparsePoint d then optional_call (map_option (\<lambda>op s. op s p) (op_rmdir (Path_ops f))) st
            else optional_call (map_option (\<lambda>op s. op s p) (op_unlink (Path_ops f))) st)
         else st)"

text \<open>The buffer of the directory, the path and the file itself are freed.\<close>

definition fsp_fuse_intf_Close :: "'s fuse \<Rightarrow> fuse_file_desc \<Rightarrow> 's fuse_state \<Rightarrow> 's fuse_state" where
  "fsp_fuse_intf_Close f d st =
     (let p = Desc_PosixPath d;
          st = (if IsReparsePoint d then st
            else if IsDirectory d then release_file f True p (desc_fi d) st
            else
              let st = (if \<not> FlushOnCleanup f
                then optional_call (map_option (\<lambda>op s. op s p (desc_fi d)) (op_flush (File_ops f))) st else st)
              in release_file f False p (desc_fi d) st)
      in fuse_free (fuse_free st))"

end
