(* ===== verification/FuseFile.thy ===== *)
theory FuseFile
  imports FuseOpen
begin

text \<open>
  The operations of the FUSE layer on open files and on the volume (\<open>src/dll/fuse/fuse_intf.c\<close>). \<open>None\<close> is a call
  of a null pointer, an access outside memory, or the free of a pointer that was never set.
\<close>

abbreviation (input) STATUS_END_OF_FILE :: ntstatus where "STATUS_END_OF_FILE \<equiv> 0xC0000011"
abbreviation (input) STATUS_DIRECTORY_NOT_EMPTY :: ntstatus where "STATUS_DIRECTORY_NOT_EMPTY \<equiv> 0xC0000101"
abbreviation (input) STATUS_DEVICE_BUSY :: ntstatus where "STATUS_DEVICE_BUSY \<equiv> 0x80000011"
abbreviation (input) STATUS_INTERNAL_ERROR :: ntstatus where "STATUS_INTERNAL_ERROR \<equiv> 0xC00000E5"
abbreviation (input) STATUS_IO_REPARSE_TAG_MISMATCH :: ntstatus where "STATUS_IO_REPARSE_TAG_MISMATCH \<equiv> 0xC0000277"

section \<open>Reading and writing\<close>

text \<open>The status, and the data that is read.\<close>

definition fsp_fuse_intf_Read ::
  "'s fuse \<Rightarrow> fuse_file_desc \<Rightarrow> u64 \<Rightarrow> u32 \<Rightarrow> 's fuse_state \<Rightarrow> (ntstatus + bytes) \<times> 's fuse_state" where
  "fsp_fuse_intf_Read f d Offset Len st =
     (if IsDirectory d \<or> IsReparsePoint d then (Inl STATUS_ACCESS_DENIED, st)
      else case op_read (File_ops f) of
        None \<Rightarrow> (Inl STATUS_INVALID_DEVICE_REQUEST, st)
      | Some read \<Rightarrow>
          let ((n, data), st) = fuse_call (\<lambda>s. read s (Desc_PosixPath d) Len Offset (desc_fi d)) st
          in (if 0 < n then Inr (take (nat n) data)
              else if n = 0 then Inl STATUS_END_OF_FILE
              else Inl (fsp_fuse_ntstatus_from_errno f n), st))"

text \<open>Where a write goes: the offset and the end; \<open>None\<close> if it is constrained and behind the file.\<close>

definition write_range :: "u64 \<Rightarrow> u64 \<Rightarrow> u32 \<Rightarrow> bool \<Rightarrow> bool \<Rightarrow> (u64 \<times> u64) option" where
  "write_range FileSize Offset Len WriteToEndOfFile ConstrainedIo =
     (if ConstrainedIo then
        (if Offset \<ge> FileSize then None
         else Some (Offset, if Offset + ucast Len > FileSize then FileSize else Offset + ucast Len))
      else
        let Offset = (if WriteToEndOfFile then FileSize else Offset) in Some (Offset, Offset + ucast Len))"

definition resize :: "'s fuse \<Rightarrow> u64 \<Rightarrow> file_info \<Rightarrow> file_info" where
  "resize f FileSize info = info\<lparr>Info_FileSize := FileSize, Info_AllocationSize := allocation_size f FileSize\<rparr>"

text \<open>\<open>*PBytesTransferred\<close> is written unless the range is empty.\<close>

definition fsp_fuse_intf_Write ::
  "'s fuse \<Rightarrow> fuse_file_desc \<Rightarrow> bytes \<Rightarrow> u64 \<Rightarrow> bool \<Rightarrow> bool \<Rightarrow> 's fuse_state \<Rightarrow>
   (ntstatus + u32 option \<times> file_info) \<times> 's fuse_state" where
  "fsp_fuse_intf_Write f d data Offset WriteToEndOfFile ConstrainedIo st =
     (if IsDirectory d \<or> IsReparsePoint d then (Inl STATUS_ACCESS_DENIED, st)
      else case op_write (File_ops f) of
        None \<Rightarrow> (Inl STATUS_INVALID_DEVICE_REQUEST, st)
      | Some write \<Rightarrow>
          (case desc_file_info f d st of
             (Inl Result, st) \<Rightarrow> (Inl Result, st)
           | (Inr i, st) \<Rightarrow>
               let info = FI_Info i
               in case write_range (Info_FileSize info) Offset (of_nat (length data)) WriteToEndOfFile ConstrainedIo of
                 None \<Rightarrow> (Inr (None, info), st)
               | Some (Offset, EndOffset) \<Rightarrow>
                   let (n, st) = fuse_call (\<lambda>s. write s (Desc_PosixPath d) (take (unat (EndOffset - Offset)) data) Offset (desc_fi d)) st
                   in if 0 > n then (Inl (fsp_fuse_ntstatus_from_errno f n), st)
                      else
                        let End = Offset + of_int n;
                            info = resize f (if End > Info_FileSize info then End else Info_FileSize info) info
                        in (Inr (Some (of_int n), info), st)))"

text \<open>\<open>None\<close> is the volume, which FUSE cannot flush; its information is not written.\<close>

definition fsp_fuse_intf_Flush ::
  "'s fuse \<Rightarrow> fuse_file_desc option \<Rightarrow> 's fuse_state \<Rightarrow> (ntstatus + file_info option) \<times> 's fuse_state" where
  "fsp_fuse_intf_Flush f d st =
     (case d of
        None \<Rightarrow> (Inr None, st)
      | Some d \<Rightarrow>
          let p = Desc_PosixPath d;
              sync = (if IsDirectory d then op_fsyncdir (File_ops f) else op_fsync (File_ops f));
              (Result, st) =
                (if IsReparsePoint d then (STATUS_ACCESS_DENIED, st)
                 else case sync of None \<Rightarrow> (STATUS_SUCCESS, st) | Some sync \<Rightarrow> err_call f (\<lambda>s. sync s p (desc_fi d)) st)
          in if \<not> NT_SUCCESS Result then (Inl Result, st)
             else (case desc_file_info f d st of
                 (Inl Result, st) \<Rightarrow> (Inl Result, st)
               | (Inr i, st) \<Rightarrow> (Inr (Some (FI_Info i)), st)))"

section \<open>Information\<close>

definition fsp_fuse_intf_GetFileInfo ::
  "'s fuse \<Rightarrow> fuse_file_desc \<Rightarrow> 's fuse_state \<Rightarrow> (ntstatus + file_info) \<times> 's fuse_state" where
  "fsp_fuse_intf_GetFileInfo f d st = (let (r, st) = desc_file_info f d st in (map_sum id FI_Info r, st))"

definition fsp_fuse_intf_GetVolumeInfo :: "'s fuse \<Rightarrow> 's fuse_state \<Rightarrow> (ntstatus + volume_info) \<times> 's fuse_state" where
  "fsp_fuse_intf_GetVolumeInfo f st =
     (let info = (\<lambda>b. \<lparr>TotalSize = F_blocks b * F_frsize b, FreeSize = F_bfree b * F_frsize b, VolumeLabel = Label f\<rparr>)
      in case op_statfs (Path_ops f) of
        None \<Rightarrow> (Inr (info \<lparr>F_frsize = 0, F_blocks = 0, F_bfree = 0\<rparr>), st)
      | Some statfs \<Rightarrow>
          let ((err, b), st) = fuse_call (\<lambda>s. statfs s [0x2f]) st
          in (if err \<noteq> 0 then Inl (fsp_fuse_ntstatus_from_errno f err) else Inr (info b), st))"

definition fsp_fuse_intf_SetVolumeLabel :: "wstr \<Rightarrow> ntstatus" where
  "fsp_fuse_intf_SetVolumeLabel NewLabel = STATUS_INVALID_PARAMETER"

text \<open>The steps of \<open>fsp_fuse_intf_SetBasicInfo\<close>: the attributes, the two times of \<open>utimens\<close>, and one time of its own.\<close>

definition set_attributes :: "'s fuse \<Rightarrow> fuse_file_desc \<Rightarrow> u32 \<Rightarrow> 's fuse_state \<Rightarrow> ntstatus \<times> 's fuse_state" where
  "set_attributes f d FileAttributes st = change_flags f (Desc_PosixPath d) (FileAttributes \<noteq> - 1) FileAttributes st"

definition set_times :: "'s fuse \<Rightarrow> fuse_file_desc \<Rightarrow> u64 \<Rightarrow> u64 \<Rightarrow> 's fuse_state \<Rightarrow> ntstatus \<times> 's fuse_state" where
  "set_times f d LastAccessTime LastWriteTime st =
     (let p = Desc_PosixPath d
      in if (LastAccessTime \<noteq> 0 \<or> LastWriteTime \<noteq> 0) \<and> (op_utimens (Path_ops f) \<noteq> None \<or> op_utime (Path_ops f) \<noteq> None) then
           (case (if LastAccessTime = 0 \<or> LastWriteTime = 0
               then (let (r, st) = desc_file_info f d st in (map_sum id FI_Info r, st)) else (Inr zero_file_info, st)) of
              (Inl Result, st) \<Rightarrow> (Result, st)
            | (Inr info, st) \<Rightarrow>
                let a = FspPosixFileTimeToUnixTime (if LastAccessTime = 0 then Info_LastAccessTime info else LastAccessTime);
                    w = FspPosixFileTimeToUnixTime (if LastWriteTime = 0 then Info_LastWriteTime info else LastWriteTime)
                in case op_utimens (Path_ops f) of
                  Some utimens \<Rightarrow> err_call f (\<lambda>s. utimens s p a w) st
                | None \<Rightarrow> (case op_utime (Path_ops f) of
                    Some utime \<Rightarrow> err_call f (\<lambda>s. utime s p (fst a) (fst w)) st
                  | None \<Rightarrow> (STATUS_SUCCESS, st)))
         else (STATUS_SUCCESS, st))"

definition set_time ::
  "'s fuse \<Rightarrow> fuse_file_desc \<Rightarrow> ('s \<Rightarrow> bytes \<Rightarrow> u64 \<times> u64 \<Rightarrow> int \<times> 's) option \<Rightarrow> u64 \<Rightarrow> 's fuse_state \<Rightarrow> ntstatus \<times> 's fuse_state" where
  "set_time f d op Time st =
     (case op of
        Some op \<Rightarrow> if Time \<noteq> 0 then err_call f (\<lambda>s. op s (Desc_PosixPath d) (FspPosixFileTimeToUnixTime Time)) st
                   else (STATUS_SUCCESS, st)
      | None \<Rightarrow> (STATUS_SUCCESS, st))"

text \<open>One step after another until one fails.\<close>

definition and_then :: "ntstatus \<times> 's fuse_state \<Rightarrow> ('s fuse_state \<Rightarrow> ntstatus \<times> 's fuse_state) \<Rightarrow> ntstatus \<times> 's fuse_state" where
  "and_then r step = (let (Result, st) = r in if \<not> NT_SUCCESS Result then (Result, st) else step st)"

definition fsp_fuse_intf_SetBasicInfo ::
  "'s fuse \<Rightarrow> fuse_file_desc \<Rightarrow> u32 \<Rightarrow> u64 \<Rightarrow> u64 \<Rightarrow> u64 \<Rightarrow> u64 \<Rightarrow> 's fuse_state \<Rightarrow> (ntstatus + file_info) \<times> 's fuse_state" where
  "fsp_fuse_intf_SetBasicInfo f d FileAttributes CreationTime LastAccessTime LastWriteTime ChangeTime st =
     (let r = set_attributes f d FileAttributes st;
          r = and_then r (set_times f d LastAccessTime LastWriteTime);
          r = and_then r (set_time f d (op_setcrtime (Path_ops f)) CreationTime);
          (Result, st) = and_then r (set_time f d (op_setchgtime (Path_ops f)) ChangeTime)
      in if \<not> NT_SUCCESS Result then (Inl Result, st) else fsp_fuse_intf_GetFileInfo f d st)"

definition truncate_file :: "'s fuse \<Rightarrow> fuse_file_desc \<Rightarrow> u64 \<Rightarrow> 's fuse_state \<Rightarrow> ntstatus \<times> 's fuse_state" where
  "truncate_file f d NewSize st =
     (case (op_ftruncate (File_ops f), op_truncate (Path_ops f)) of
        (Some ftruncate, _) \<Rightarrow> err_call f (\<lambda>s. ftruncate s (Desc_PosixPath d) NewSize (desc_fi d)) st
      | (None, Some trunc) \<Rightarrow> err_call f (\<lambda>s. trunc s (Desc_PosixPath d) NewSize) st
      | (None, None) \<Rightarrow> (STATUS_INVALID_DEVICE_REQUEST, st))"

definition fsp_fuse_intf_SetFileSize ::
  "'s fuse \<Rightarrow> fuse_file_desc \<Rightarrow> u64 \<Rightarrow> bool \<Rightarrow> 's fuse_state \<Rightarrow> (ntstatus + file_info) \<times> 's fuse_state" where
  "fsp_fuse_intf_SetFileSize f d NewSize SetAllocationSize st =
     (if IsDirectory d \<or> IsReparsePoint d then (Inl STATUS_ACCESS_DENIED, st)
      else if op_ftruncate (File_ops f) = None \<and> op_truncate (Path_ops f) = None then (Inl STATUS_INVALID_DEVICE_REQUEST, st)
      else case desc_file_info f d st of
        (Inl Result, st) \<Rightarrow> (Inl Result, st)
      | (Inr i, st) \<Rightarrow>
          if \<not> SetAllocationSize \<or> Info_FileSize (FI_Info i) > NewSize then
            let (Result, st) = truncate_file f d NewSize st
            in (if \<not> NT_SUCCESS Result then Inl Result else Inr (resize f NewSize (FI_Info i)), st)
          else (Inr (FI_Info i), st))"

text \<open>Overwriting removes every extended attribute, and sets those of the request.\<close>

fun remove_xattrs :: "'s fuse \<Rightarrow> bytes \<Rightarrow> ('s \<Rightarrow> bytes \<Rightarrow> bytes \<Rightarrow> int \<times> 's) \<Rightarrow> bytes list \<Rightarrow> 's fuse_state \<Rightarrow> 's fuse_state" where
  "remove_xattrs f p removexattr [] st = st"
| "remove_xattrs f p removexattr (n # ns) st = remove_xattrs f p removexattr ns (snd (fuse_call (\<lambda>s. removexattr s p n) st))"

text \<open>The terminated strings that a list of names consists of.\<close>

fun xattr_names :: "bytes \<Rightarrow> bytes list" where
  "xattr_names [] = []"
| "xattr_names (c # cs) =
     (if c = 0 then [] # xattr_names cs
      else case xattr_names cs of [] \<Rightarrow> [[c]] | n # ns \<Rightarrow> (c # n) # ns)"

definition overwrite_ea ::
  "'s fuse \<Rightarrow> bytes \<Rightarrow> bytes option \<Rightarrow> 's fuse_state \<Rightarrow> (ntstatus \<times> 's fuse_state) option" where
  "overwrite_ea f p EaBuffer st =
     (case EaBuffer of
        None \<Rightarrow> Some (STATUS_SUCCESS, st)
      | Some b \<Rightarrow>
          (case (op_listxattr (Path_ops f), op_removexattr (Path_ops f)) of
             (Some listxattr, Some removexattr) \<Rightarrow>
               if \<not> supports_eas f then Some (STATUS_EAS_NOT_SUPPORTED, st)
               else
                 let ((n, names), st) = fuse_call (\<lambda>s. listxattr s p 3072) st;
                     st = (if 0 < n then remove_xattrs f p removexattr (xattr_names (take (nat n) names)) st else st)
                 in FspFileSystemEnumerateEa (fsp_fuse_intf_SetEaEntry f p) b (of_nat (length b)) st
           | _ \<Rightarrow> Some (STATUS_EAS_NOT_SUPPORTED, st)))"

text \<open>\<open>fi0\<close> is what the stack holds: without \<open>ftruncate\<close> the code does not set \<open>fi\<close> before it asks for the information.\<close>

definition fsp_fuse_intf_Overwrite ::
  "'s fuse \<Rightarrow> fuse_file_info \<Rightarrow> fuse_file_desc \<Rightarrow> u32 \<Rightarrow> bytes option \<Rightarrow> 's fuse_state \<Rightarrow>
   ((ntstatus + file_info) \<times> 's fuse_state) option" where
  "fsp_fuse_intf_Overwrite f fi0 d FileAttributes EaBuffer st =
     (if IsDirectory d \<or> IsReparsePoint d then Some (Inl STATUS_ACCESS_DENIED, st)
      else case overwrite_ea f (Desc_PosixPath d) EaBuffer st of
        None \<Rightarrow> None
      | Some (Result, st) \<Rightarrow>
          if failed Result then Some (Inl Result, st)
          else
            let (Result, st) = truncate_file f d 0 st
            in if \<not> NT_SUCCESS Result then Some (Inl Result, st)
               else
                 let (Result, st) = change_flags f (Desc_PosixPath d) (FileAttributes \<noteq> 0) (FileAttributes OR FILE_ATTRIBUTE_ARCHIVE) st
                 in if failed Result then Some (Inl Result, st)
                    else
                      let fi = (if op_ftruncate (File_ops f) \<noteq> None then desc_fi d else fi0);
                          (r, st) = fsp_fuse_intf_GetFileInfoEx f (Desc_PosixPath d) (FUSE_FILE_INFO (IsDirectory d) fi) st
                      in Some (map_sum id FI_Info r, st))"

end
