(* ===== verification/FuseName.thy ===== *)
theory FuseName
  imports FuseFile
begin

text \<open>
  The operations of the FUSE layer that delete and rename, on security, reparse points and extended attributes,
  and the control codes (\<open>src/dll/fuse/fuse_intf.c\<close>). \<open>None\<close> is a call of a null pointer, an access outside
  memory, or the free of a pointer that was never set.
\<close>

section \<open>Deleting and renaming\<close>

text \<open>
  The filler that looks for a child: \<open>DotFiles\<close>, \<open>HasChild\<close> and the number of calls; it stops at the first child.
\<close>

definition is_dots :: "bytes \<Rightarrow> bool" where
  "is_dots name \<longleftrightarrow> name = [0x2e] \<or> name = [0x2e, 0x2e]"

fun fsp_fuse_intf_CanDeleteAddDirInfo :: "dir_entry list \<Rightarrow> bool \<Rightarrow> nat \<Rightarrow> bool \<times> bool \<times> nat" where
  "fsp_fuse_intf_CanDeleteAddDirInfo [] DotFiles n = (DotFiles, False, n)"
| "fsp_fuse_intf_CanDeleteAddDirInfo ((name, stbuf) # es) DotFiles n =
     (if is_dots name then fsp_fuse_intf_CanDeleteAddDirInfo es True (n + 1) else (DotFiles, True, n + 1))"

text \<open>The listing that \<open>readdir\<close>, or else \<open>getdir\<close>, gives.\<close>

definition list_directory ::
  "'s fuse \<Rightarrow> fuse_file_desc \<Rightarrow> ('s \<Rightarrow> dir_entry list \<times> (nat \<Rightarrow> int \<times> 's)) option" where
  "list_directory f d =
     (case op_readdir (File_ops f) of
        Some readdir \<Rightarrow> Some (\<lambda>s. readdir s (Desc_PosixPath d) (desc_fi d))
      | None \<Rightarrow> map_option (\<lambda>getdir s. getdir s (Desc_PosixPath d)) (op_getdir (Path_ops f)))"

definition fsp_fuse_intf_CanDelete :: "'s fuse \<Rightarrow> fuse_file_desc \<Rightarrow> 's fuse_state \<Rightarrow> ntstatus \<times> 's fuse_state" where
  "fsp_fuse_intf_CanDelete f d st =
     (let (Result, st) = delete_access f (Desc_PosixPath d) st
      in if \<not> NT_SUCCESS Result then (Result, st)
         else if IsDirectory d \<and> \<not> IsReparsePoint d then
           (case list_directory f d of
              None \<Rightarrow> (STATUS_SUCCESS, st)
            | Some readdir \<Rightarrow>
                let (entries, answer) = readdir (Fuse_Fs st);
                    (DotFiles, HasChild, n) = fsp_fuse_intf_CanDeleteAddDirInfo entries False 0;
                    (err, s) = answer n
                in (if HasChild then STATUS_DIRECTORY_NOT_EMPTY
                    else if DotFiles then STATUS_SUCCESS
                    else fsp_fuse_ntstatus_from_errno f err, st\<lparr>Fuse_Fs := s\<rparr>))
         else (STATUS_SUCCESS, st))"

text \<open>The new path is the one of the context; \<open>rename\<close> is called without a test whether the file system has it.\<close>

definition fsp_fuse_intf_Rename ::
  "'s fuse \<Rightarrow> fuse_context \<Rightarrow> fuse_file_desc \<Rightarrow> wstr \<Rightarrow> wstr \<Rightarrow> bool \<Rightarrow> 's fuse_state \<Rightarrow> (ntstatus \<times> 's fuse_state) option" where
  "fsp_fuse_intf_Rename f ctx d FileName NewFileName ReplaceIfExists st = do {
     p \<leftarrow> Ctx_PosixPath ctx;
     let (r, st) = fsp_fuse_intf_GetFileInfoEx f p None st;
     let refused = (case r of
         Inl Result \<Rightarrow>
           if Result \<noteq> STATUS_OBJECT_NAME_NOT_FOUND \<and> Result \<noteq> STATUS_OBJECT_PATH_NOT_FOUND then Some Result else None
       | Inr i \<Rightarrow>
           if CaseSensitiveSearch f \<or> invariant_wcsicmp FileName NewFileName \<noteq> 0 then
             (if \<not> ReplaceIfExists then Some STATUS_OBJECT_NAME_COLLISION
              else if FlagOn (Info_FileAttributes (FI_Info i)) FILE_ATTRIBUTE_DIRECTORY then Some STATUS_ACCESS_DENIED
              else None)
           else None);
     case refused of
       Some Result \<Rightarrow> Some (Result, st)
     | None \<Rightarrow> do {
         rename \<leftarrow> op_rename (Path_ops f);
         Some (err_call f (\<lambda>s. rename s (Desc_PosixPath d) p) st) } }"

section \<open>Security\<close>

definition fsp_fuse_intf_GetSecurity ::
  "'s fuse \<Rightarrow> fuse_file_desc \<Rightarrow> nat option \<Rightarrow> 's fuse_state \<Rightarrow>
   ((ntstatus \<times> u32 option \<times> nat option \<times> security_descriptor option) \<times> 's fuse_state) option" where
  "fsp_fuse_intf_GetSecurity f d limit st =
     fsp_fuse_intf_GetSecurityEx f (Desc_PosixPath d) (FUSE_FILE_INFO (IsDirectory d) (desc_fi d)) limit st"

text \<open>
  \<open>modify\<close> is \<open>FspSetSecurityDescriptor\<close> with the requested change, whose descriptor is freed in the end too.
  \<open>stack\<close> are the two pointers to descriptors as the stack holds them, not null if true: the exit frees both,
  although neither is set before the file has answered, and the second not before \<open>modify\<close> is called.
\<close>

definition change_permissions ::
  "'s fuse \<Rightarrow> bytes \<Rightarrow> u32 \<times> u32 \<times> u32 \<Rightarrow> u32 \<times> u32 \<times> u32 \<Rightarrow> 's fuse_state \<Rightarrow> (ntstatus \<times> 's fuse_state) option" where
  "change_permissions f p old new st =
     (case (old, new) of ((Uid, Gid, Mode), (NewUid, NewGid, NewMode)) \<Rightarrow> do {
        chmod \<leftarrow> op_chmod (Path_ops f);
        let (Result, st) = (if NewMode \<noteq> Mode then err_call f (\<lambda>s. chmod s p NewMode) st else (STATUS_SUCCESS, st));
        Some (if \<not> NT_SUCCESS Result then (Result, st)
          else if NewUid \<noteq> Uid \<or> NewGid \<noteq> Gid then
            (case op_chown (Path_ops f) of
               None \<Rightarrow> (STATUS_SUCCESS, st)
             | Some chown \<Rightarrow> err_call f (\<lambda>s. chown s p NewUid NewGid) st)
          else (STATUS_SUCCESS, st)) })"

definition fsp_fuse_intf_SetSecurity ::
  "'s fuse \<Rightarrow> bool \<times> bool \<Rightarrow> (security_descriptor \<Rightarrow> ntstatus + security_descriptor) \<Rightarrow> fuse_file_desc \<Rightarrow> 's fuse_state \<Rightarrow>
   (ntstatus \<times> 's fuse_state) option" where
  "fsp_fuse_intf_SetSecurity f stack modify d st =
     (if op_chmod (Path_ops f) = None then Some (STATUS_INVALID_DEVICE_REQUEST, st)
      else case desc_file_info f d st of
        (Inl Result, st) \<Rightarrow> if fst stack \<or> snd stack then None else Some (Result, st)
      | (Inr i, st) \<Rightarrow>
          (case merge_permissions f i st of
             None \<Rightarrow> None
           | Some (Inl Result, st) \<Rightarrow> if snd stack then None else Some (Result, st)
           | Some (Inr sd, st) \<Rightarrow>
               (case modify sd of
                  Inl Result \<Rightarrow> Some (Result, fuse_free st)
                | Inr new \<Rightarrow>
                    (case FspPosixMapSecurityDescriptorToPermissions (Posix_env (Host f)) new None None of
                       (Result, NewUid, NewGid, NewMode) \<Rightarrow>
                         if \<not> NT_SUCCESS Result then Some (Result, fuse_free st)
                         else map_option (\<lambda>(Result, st). (Result, fuse_free st))
                           (change_permissions f (Desc_PosixPath d) (FI_Uid i, FI_Gid i, FI_Mode i)
                             (NewUid, NewGid, NewMode) st)))))"

section \<open>Reparse points\<close>

definition fsp_fuse_intf_GetReparsePoint ::
  "'s fuse \<Rightarrow> fuse_file_desc \<Rightarrow> nat \<times> u16 \<Rightarrow> 's fuse_state \<Rightarrow> (ntstatus \<times> reparse_data option) \<times> 's fuse_state" where
  "fsp_fuse_intf_GetReparsePoint f d buffer st =
     (let ((answer, _), st) = fsp_fuse_intf_GetReparsePointEx f (Desc_PosixPath d)
            (FUSE_FILE_INFO (IsDirectory d) (desc_fi d)) (Some buffer) None st
      in (answer, st))"

definition fsp_fuse_intf_ResolveReparsePoints ::
  "'s fuse \<Rightarrow> nat \<Rightarrow> wstr \<Rightarrow> u32 \<Rightarrow> bool \<Rightarrow> 's fuse_state \<Rightarrow> (reparse_result \<times> 's fuse_state) option" where
  "fsp_fuse_intf_ResolveReparsePoints f Size FileName ReparsePointIndex ResolveLastPathComponent st =
     map_option (\<lambda>(r, st, _). (r, st))
       (FspFileSystemResolveReparsePoints (fsp_fuse_intf_GetReparsePointByName f (Some (16256, 0)))
         (if Alloc (Host f) 16256 then Some (Fresh_reparse (Host f)) else None)
         Size FileName ReparsePointIndex ResolveLastPathComponent (st, None))"

definition fsp_fuse_intf_DeleteReparsePoint :: ntstatus where
  "fsp_fuse_intf_DeleteReparsePoint = STATUS_ACCESS_DENIED"

text \<open>
  A hidden name in the directory of a file: \<open>uuid\<close> are the two numbers of a new UUID for every try, \<open>None\<close> if
  there is none.
\<close>

definition hex_digit :: "u32 \<Rightarrow> u8" where
  "hex_digit d = (if d < 10 then ucast d + 0x30 else ucast d + 0x57)"

definition hex8 :: "u32 \<Rightarrow> bytes" where
  "hex8 w = map (\<lambda>i. hex_digit (drop_bit (4 * i) w AND 0xf)) [7, 6, 5, 4, 3, 2, 1, 0]"

definition directory_part :: "bytes \<Rightarrow> bytes" where
  "directory_part p = take (length p - length (posix_basename p)) p"

definition hidden_name :: "bytes \<Rightarrow> u32 \<times> u32 \<Rightarrow> bytes" where
  "hidden_name p uuid = directory_part p @
     [0x2e, 0x66, 0x75, 0x73, 0x65, 0x5f, 0x68, 0x69, 0x64, 0x64, 0x65, 0x6e] @ hex8 (fst uuid) @ hex8 (snd uuid)"

text \<open>\<open>tries\<close> is \<open>maxtries\<close>, not zero. A name that the file system does not know is taken.\<close>

fun hidden_loop ::
  "'s fuse \<Rightarrow> (nat \<Rightarrow> (u32 \<times> u32) option) \<Rightarrow> bytes \<Rightarrow> nat \<Rightarrow> 's fuse_state \<Rightarrow> (ntstatus + bytes) \<times> 's fuse_state" where
  "hidden_loop f uuid p 0 st = (Inl STATUS_DEVICE_BUSY, st)"
| "hidden_loop f uuid p (Suc tries) st =
     (case uuid tries of
        None \<Rightarrow> (Inl STATUS_INTERNAL_ERROR, st)
      | Some u \<Rightarrow>
          (case op_getattr (Path_ops f) of
             None \<Rightarrow> (Inr (hidden_name p u), st)
           | Some getattr \<Rightarrow>
               let ((err, _), st) = fuse_call (\<lambda>s. getattr s (hidden_name p u)) st
               in if err \<noteq> 0 then (Inr (hidden_name p u), st) else hidden_loop f uuid p tries st))"

definition fsp_fuse_intf_NewHiddenName ::
  "'s fuse \<Rightarrow> (nat \<Rightarrow> (u32 \<times> u32) option) \<Rightarrow> bytes \<Rightarrow> 's fuse_state \<Rightarrow> (ntstatus + bytes) \<times> 's fuse_state" where
  "fsp_fuse_intf_NewHiddenName f uuid PosixPath st =
     (case fuse_alloc f (length (directory_part PosixPath) + 29) st of
        None \<Rightarrow> (Inl STATUS_INSUFFICIENT_RESOURCES, st)
      | Some st \<Rightarrow>
          (case hidden_loop f uuid PosixPath 3 st of
             (Inl Result, st) \<Rightarrow> (Inl Result, fuse_free st)
           | (Inr name, st) \<Rightarrow> (Inr name, st)))"

text \<open>
  The reparse data of the request, as far as the code reads it: for a symbolic link the flag and the substitute
  name, for an NFS reparse point its type, the two parts of the device, and the path of a link.
\<close>

record reparse_input =
  In_Tag :: u32
  In_Relative :: bool
  In_Target :: wstr
  In_Nfs_Type :: u64
  In_Nfs_Device :: "u32 \<times> u32"
  In_Nfs_Path :: wstr

text \<open>
  The target of a link, \<open>TargetOnFileSystem\<close> bytes into an absolute one. It is copied to a buffer of 1024
  characters on the stack, of which one is for the terminator: a longer one is written behind it.
\<close>

definition link_target :: "reparse_input \<Rightarrow> u16 \<Rightarrow> (ntstatus + wstr) option" where
  "link_target input TargetOnFileSystem =
     (let fits = (\<lambda>w. if length w < 1024 then Some (Inr (takeWhile (\<lambda>c. c \<noteq> 0) w)) else None);
          path = In_Target input; n = unat TargetOnFileSystem
      in if In_Tag input = IO_REPARSE_TAG_SYMLINK then
           (if \<not> In_Relative input \<and> path \<noteq> [] \<and> hd path = 0x5c then
              (if n = 0 then Some (Inl STATUS_ACCESS_DENIED)
               else if n > 2 * length path then None
               else fits (drop (n div 2) path))
            else fits path)
         else fits (In_Nfs_Path input))"

definition nfs_mode :: "u64 \<Rightarrow> u32 \<times> u32 \<Rightarrow> u32 \<Rightarrow> (u32 \<times> u32) option" where
  "nfs_mode t device mode =
     (let mode = mode AND NOT S_IFMT; Dev = push_bit 16 (fst device) OR snd device
      in if t = 0x4F464946 then Some (mode OR S_IFIFO, 0)
         else if t = 0x4B434F53 then Some (mode OR S_IFSOCK, 0)
         else if t = 0x524843 then Some (mode OR S_IFCHR, Dev)
         else if t = 0x4b4c42 then Some (mode OR S_IFBLK, Dev)
         else None)"

text \<open>The file is replaced by the hidden one: a directory is removed first. The status, and whether it was replaced.\<close>

definition replace_file ::
  "'s fuse \<Rightarrow> fuse_file_desc \<Rightarrow> bytes \<Rightarrow> 's fuse_state \<Rightarrow> (ntstatus \<times> 's fuse_state) option" where
  "replace_file f d hidden st = do {
     rename \<leftarrow> op_rename (Path_ops f);
     unlink \<leftarrow> op_unlink (Path_ops f);
     (Result, st) \<leftarrow>
       (if IsDirectory d then do {
          rmdir \<leftarrow> op_rmdir (Path_ops f);
          let (Result, st) = err_call f (\<lambda>s. rmdir s (Desc_PosixPath d)) st;
          Some (if Result = STATUS_SUCCESS then err_call f (\<lambda>s. rename s hidden (Desc_PosixPath d)) st else (Result, st)) }
        else Some (err_call f (\<lambda>s. rename s hidden (Desc_PosixPath d)) st));
     Some (if Result \<noteq> STATUS_SUCCESS then (Result, snd (fuse_call (\<lambda>s. unlink s hidden) st)) else (Result, st)) }"

text \<open>The hidden file is made with the owner of the file it replaces, then replaces it, and the open file is released.\<close>

definition make_reparse_point ::
  "'s fuse \<Rightarrow> (nat \<Rightarrow> (u32 \<times> u32) option) \<Rightarrow> fuse_file_desc \<Rightarrow> (bytes \<Rightarrow> 's fuse_state \<Rightarrow> (ntstatus \<times> 's fuse_state) option) \<Rightarrow>
   's fuse_state \<Rightarrow> (ntstatus \<times> fuse_file_desc \<times> 's fuse_state) option" where
  "make_reparse_point f uuid d mk st =
     (case fsp_fuse_intf_NewHiddenName f uuid (Desc_PosixPath d) st of
        (Inl Result, st) \<Rightarrow> Some (Result, d, st)
      | (Inr hidden, st) \<Rightarrow> do {
          (Result, st) \<leftarrow> mk hidden st;
          if Result \<noteq> STATUS_SUCCESS then Some (Result, d, fuse_free st)
          else do {
            (Result, st) \<leftarrow> replace_file f d hidden st;
            if Result \<noteq> STATUS_SUCCESS then Some (Result, d, fuse_free st)
            else Some (STATUS_SUCCESS, d\<lparr>IsReparsePoint := True, FileHandle := - 1\<rparr>,
              fuse_free (release_file f (IsDirectory d) (Desc_PosixPath d) (desc_fi d) st)) } })"

text \<open>The two kinds of reparse points; \<open>i\<close> is the information about the file.\<close>

definition set_link ::
  "'s fuse \<Rightarrow> (nat \<Rightarrow> (u32 \<times> u32) option) \<Rightarrow> u16 \<Rightarrow> fuse_file_desc \<Rightarrow> reparse_input \<Rightarrow> fuse_info \<Rightarrow> 's fuse_state \<Rightarrow>
   (ntstatus \<times> fuse_file_desc \<times> 's fuse_state) option" where
  "set_link f uuid TargetOnFileSystem d input i st =
     (case link_target input TargetOnFileSystem of
        None \<Rightarrow> None
      | Some (Inl Result) \<Rightarrow> Some (Result, d, st)
      | Some (Inr TargetPath) \<Rightarrow>
          (case windows_to_posix f TargetPath (In_Tag input = IO_REPARSE_TAG_SYMLINK) of
             Inl Result \<Rightarrow> Some (Result, d, st)
           | Inr target \<Rightarrow>
               map_option (\<lambda>(Result, d, st). (Result, d, fuse_free st))
                 (make_reparse_point f uuid d (\<lambda>hidden st. do {
                    symlink \<leftarrow> op_symlink (Path_ops f);
                    Some (err_call f (\<lambda>s. symlink \<lparr>Caller_uid = FI_Uid i, Caller_gid = FI_Gid i\<rparr> s target hidden) st) })
                    (st\<lparr>Fuse_Mem := Fuse_Mem st + 1\<rparr>))))"

definition set_node ::
  "'s fuse \<Rightarrow> (nat \<Rightarrow> (u32 \<times> u32) option) \<Rightarrow> fuse_file_desc \<Rightarrow> reparse_input \<Rightarrow> fuse_info \<Rightarrow> 's fuse_state \<Rightarrow>
   (ntstatus \<times> fuse_file_desc \<times> 's fuse_state) option" where
  "set_node f uuid d input i st =
     (case nfs_mode (In_Nfs_Type input) (In_Nfs_Device input) (FI_Mode i) of
        None \<Rightarrow> Some (STATUS_IO_REPARSE_DATA_INVALID, d, st)
      | Some (mode, Dev) \<Rightarrow>
          make_reparse_point f uuid d (\<lambda>hidden st. do {
            mknod \<leftarrow> op_mknod (Path_ops f);
            Some (err_call f (\<lambda>s. mknod \<lparr>Caller_uid = FI_Uid i, Caller_gid = FI_Gid i\<rparr> s hidden mode Dev) st) }) st)"

definition fsp_fuse_intf_SetReparsePoint ::
  "'s fuse \<Rightarrow> (nat \<Rightarrow> (u32 \<times> u32) option) \<Rightarrow> u16 \<Rightarrow> fuse_file_desc \<Rightarrow> reparse_input \<Rightarrow> 's fuse_state \<Rightarrow>
   (ntstatus \<times> fuse_file_desc \<times> 's fuse_state) option" where
  "fsp_fuse_intf_SetReparsePoint f uuid TargetOnFileSystem d input st =
     (let ops = Path_ops f;
          nfs = (In_Tag input = IO_REPARSE_TAG_NFS);
          symlink_kind = (In_Tag input = IO_REPARSE_TAG_SYMLINK \<or> nfs \<and> In_Nfs_Type input = 0x14b4e4c);
          missing = (op_rename ops = None \<or> op_unlink ops = None)
      in if symlink_kind \<and> (IsDirectory d \<and> op_rmdir ops = None \<or> op_symlink ops = None \<or> missing)
         then Some (STATUS_INVALID_DEVICE_REQUEST, d, st)
         else if \<not> symlink_kind \<and> nfs \<and> IsDirectory d then Some (STATUS_ACCESS_DENIED, d, st)
         else if \<not> symlink_kind \<and> nfs \<and> (op_mknod ops = None \<or> missing) then Some (STATUS_INVALID_DEVICE_REQUEST, d, st)
         else if \<not> symlink_kind \<and> \<not> nfs then Some (STATUS_IO_REPARSE_TAG_MISMATCH, d, st)
         else case desc_file_info f d st of
           (Inl Result, st) \<Rightarrow> Some (Result, d, st)
         | (Inr i, st) \<Rightarrow>
             if symlink_kind then set_link f uuid TargetOnFileSystem d input i st else set_node f uuid d input i st)"

section \<open>Control codes\<close>

text \<open>The status, the output and \<open>*PBytesTransferred\<close>; the output buffer holds the input first.\<close>

definition FSP_FUSE_IOCTL :: "u32 \<Rightarrow> u32 \<Rightarrow> u32 \<Rightarrow> u32" where
  "FSP_FUSE_IOCTL cmd isiz osiz =
     (if osiz \<noteq> 0 then 0x80000000 else 0) OR (if isiz \<noteq> 0 then 0x40000000 else 0) OR push_bit 16 (isiz OR osiz) OR cmd"

definition fsp_fuse_intf_Control ::
  "'s fuse \<Rightarrow> fuse_file_desc \<Rightarrow> u32 \<Rightarrow> bytes \<Rightarrow> u32 \<Rightarrow> bytes \<Rightarrow> 's fuse_state \<Rightarrow>
   (ntstatus \<times> (bytes \<times> u32) option) \<times> 's fuse_state" where
  "fsp_fuse_intf_Control f d Code InputBuffer OutputBufferLength memory st =
     (let isiz = (of_nat (length InputBuffer) :: u32); osiz = OutputBufferLength
      in case op_ioctl (File_ops f) of
        None \<Rightarrow> ((STATUS_INVALID_DEVICE_REQUEST, None), st)
      | Some ioctl \<Rightarrow>
          if drop_bit 16 Code \<noteq> 0xc657 \<or> isiz \<noteq> 0 \<and> osiz \<noteq> 0 \<and> isiz \<noteq> osiz
          then ((STATUS_INVALID_DEVICE_REQUEST, None), st)
          else
            let data = (if osiz = 0 then InputBuffer else write_front (take (unat osiz) memory) InputBuffer);
                ((err, out), st) = fuse_call (\<lambda>s. ioctl s (Desc_PosixPath d)
                  (FSP_FUSE_IOCTL (drop_bit 2 Code AND 0xfff) isiz osiz) (desc_fi d) data) st
            in ((fsp_fuse_ntstatus_from_errno f err, Some (take (unat osiz) out, osiz)), st))"

section \<open>Extended attributes\<close>

text \<open>
  The list is built in the memory \<open>b\<close> of \<open>EaLength\<close> bytes: \<open>pos\<close> is where the next entry goes, \<open>prev\<close> where the
  one before it is, and \<open>bt\<close> is \<open>*PBytesTransferred\<close>. The value goes right behind the name, before the header
  is written; an attribute without a value, or that fails, is left out.
\<close>

fun get_ea_loop ::
  "'s fuse \<Rightarrow> ('s \<Rightarrow> bytes \<Rightarrow> bytes \<Rightarrow> nat \<Rightarrow> (int \<times> bytes) \<times> 's) \<Rightarrow> bytes \<Rightarrow> nat \<Rightarrow> bytes list \<Rightarrow> bytes \<Rightarrow> nat \<Rightarrow>
   nat option \<Rightarrow> u32 option \<Rightarrow> 's fuse_state \<Rightarrow> (bytes \<times> u32 option \<times> 's fuse_state) option" where
  "get_ea_loop f getxattr p EaLength [] b pos prev bt st = Some (b, bt, st)"
| "get_ea_loop f getxattr p EaLength (name # names) b pos prev bt st =
     (let namesize = length name + 1; EaValue = pos + 8 + namesize
      in if EaValue \<ge> EaLength then Some (b, bt, st)
         else
           let ((n, value), st) = fuse_call (\<lambda>s. getxattr s p name (EaLength - EaValue)) st;
               valuesize = nat n
           in do {
             b \<leftarrow> buf_put b EaValue (take (EaLength - EaValue) value);
             if 0 \<ge> n then get_ea_loop f getxattr p EaLength names b pos prev bt st
             else do {
               b \<leftarrow> buf_put b pos (le_enc 4 (0 :: u32) @ [0] @ le_enc 1 (of_nat (namesize - 1) :: u8) @
                 le_enc 2 (of_nat valuesize :: u16) @ name @ [0]);
               b \<leftarrow> (case prev of None \<Rightarrow> Some b | Some q \<Rightarrow> buf_put b q (le_enc 4 (of_nat (pos - q) :: u32)));
               get_ea_loop f getxattr p EaLength names b (pos + unat (FSP_FSCTL_ALIGN_UP (of_nat (8 + namesize + valuesize)) 4))
                 (Some pos) (Some (of_nat (EaValue + valuesize))) st } })"

definition fsp_fuse_intf_GetEa ::
  "'s fuse \<Rightarrow> fuse_file_desc \<Rightarrow> bytes \<Rightarrow> u32 \<Rightarrow> 's fuse_state \<Rightarrow> (ntstatus \<times> (bytes \<times> u32 option) \<times> 's fuse_state) option" where
  "fsp_fuse_intf_GetEa f d b EaLength st =
     (case (op_listxattr (Path_ops f), op_getxattr (Path_ops f)) of
        (Some listxattr, Some getxattr) \<Rightarrow>
          let ((n, names), st) = fuse_call (\<lambda>s. listxattr s (Desc_PosixPath d) 3072) st
          in if 0 \<ge> n then Some (fsp_fuse_ntstatus_from_errno f n, (b, Some 0), st)
             else map_option (\<lambda>(b, bt, st). (STATUS_SUCCESS, (b, bt), st))
               (get_ea_loop f getxattr (Desc_PosixPath d) (unat EaLength) (xattr_names (take (nat n) names)) b 0 None None st)
      | _ \<Rightarrow> Some (STATUS_INVALID_DEVICE_REQUEST, (b, None), st))"

definition fsp_fuse_intf_SetEa ::
  "'s fuse \<Rightarrow> fuse_file_desc \<Rightarrow> bytes \<Rightarrow> u32 \<Rightarrow> 's fuse_state \<Rightarrow> ((ntstatus + file_info) \<times> 's fuse_state) option" where
  "fsp_fuse_intf_SetEa f d EaBuffer EaLength st =
     (if op_setxattr (Path_ops f) = None \<or> op_removexattr (Path_ops f) = None then Some (Inl STATUS_INVALID_DEVICE_REQUEST, st)
      else case FspFileSystemEnumerateEa (fsp_fuse_intf_SetEaEntry f (Desc_PosixPath d)) EaBuffer EaLength st of
        None \<Rightarrow> None
      | Some (Result, st) \<Rightarrow>
          if \<not> NT_SUCCESS Result then Some (Inl Result, st) else Some (fsp_fuse_intf_GetFileInfo f d st))"

end
