(* ===== verification/FuseProps.thy ===== *)
theory FuseProps
  imports FuseName FsReparseProps
begin

text \<open>
  What the operations of the FUSE layer hold: the open files of the FUSE file system, counted by any measure of its
  state that keeps to the FUSE protocol (the locale \<open>fuse_resources\<close>), and the memory of the layer.
\<close>

section \<open>Errors\<close>

lemma errno_tables:
  "list_all (\<lambda>(e, s). NT_SUCCESS s \<longleftrightarrow> e = 0) errno_windows" "list_all (\<lambda>(e, s). NT_SUCCESS s \<longleftrightarrow> e = 0) errno_cygwin"
  "map_of errno_windows 0 = Some 0" "map_of errno_cygwin 0 = Some 0"
  by (simp_all add: errno_windows_def errno_cygwin_def NT_SUCCESS_def)

lemma table_success:
  assumes "list_all (\<lambda>(e, s). NT_SUCCESS s \<longleftrightarrow> e = (0 :: int)) table" "map_of table 0 = Some 0"
    "map_of table (if 0 > err then - err else err) = Some Result"
  shows "(NT_SUCCESS Result \<longleftrightarrow> err = 0) \<and> (Result = STATUS_SUCCESS \<longleftrightarrow> err = 0)"
proof -
  have "NT_SUCCESS Result \<longleftrightarrow> (if 0 > err then - err else err) = 0"
    using map_of_SomeD [OF assms(3)] assms(1) by (auto simp: list_all_iff)
  then show ?thesis using assms(2,3) by (auto split: if_splits)
qed

text \<open>A status is a success exactly if there is no error; an unknown error is \<open>STATUS_ACCESS_DENIED\<close>.\<close>

lemma from_errno_success [simp]:
  "NT_SUCCESS (fsp_fuse_ntstatus_from_errno f err) \<longleftrightarrow> err = 0"
  "fsp_fuse_ntstatus_from_errno f err = STATUS_SUCCESS \<longleftrightarrow> err = 0"
proof -
  have denied: "\<not> NT_SUCCESS STATUS_ACCESS_DENIED" by (simp add: NT_SUCCESS_def)
  have "(NT_SUCCESS (fsp_fuse_ntstatus_from_errno f err) \<longleftrightarrow> err = 0) \<and>
      (fsp_fuse_ntstatus_from_errno f err = STATUS_SUCCESS \<longleftrightarrow> err = 0)"
  proof (cases "map_of (if Cygwin f then errno_cygwin else errno_windows) (if 0 > err then - err else err)")
    case None
    then have "err \<noteq> 0" using errno_tables(3,4) by (auto split: if_splits)
    then show ?thesis using None denied by (simp add: fsp_fuse_ntstatus_from_errno_def)
  next
    case (Some Result)
    have "list_all (\<lambda>(e, s). NT_SUCCESS s \<longleftrightarrow> e = 0) (if Cygwin f then errno_cygwin else errno_windows)"
      "map_of (if Cygwin f then errno_cygwin else errno_windows) 0 = Some 0"
      using errno_tables by simp_all
    from table_success [OF this Some] show ?thesis using Some by (simp add: fsp_fuse_ntstatus_from_errno_def)
  qed
  then show "NT_SUCCESS (fsp_fuse_ntstatus_from_errno f err) \<longleftrightarrow> err = 0"
    "fsp_fuse_ntstatus_from_errno f err = STATUS_SUCCESS \<longleftrightarrow> err = 0" by blast+
qed

section \<open>Loops keep what their callbacks keep\<close>

lemma find_keeps:
  assumes get: "\<And>s n d r s'. get s n d = (r, s') \<Longrightarrow> P s \<Longrightarrow> P s'"
  shows "find_loop get s m pos = Some (r, s') \<Longrightarrow> P s \<Longrightarrow> P s'"
proof (induction "length m - pos" arbitrary: s pos rule: less_induct)
  case less
  let ?r = "component_end m (skip_seps m pos)"
  have IH: "P s'" if "find_loop get s1 m ?r = Some (r, s')" "P s1" "string_at m pos" "m ! ?r = 0x5c" for s1
    using less(1) [OF component_shortens that(1,2)] that(3,4) by blast
  show ?case
    using less(2,3) get [OF prod.collapse [symmetric]] IH
    by (subst (asm) find_loop.simps) (auto simp: Let_def split: if_splits prod.splits dest: get)
qed

lemma resolve_keeps:
  assumes get: "\<And>s n d r s'. get s n d = (r, s') \<Longrightarrow> P s \<Longrightarrow> P s'"
  shows "string_at m pos \<Longrightarrow> P s \<Longrightarrow> resolve_loop get Size last0 tries m pos flag data s = Some (res, s') \<Longrightarrow> P s'"
proof (induction tries m pos flag data s arbitrary: res s' rule: resolve_induct [where Size = Size and ?last0.0 = last0])
  case (round tries m pos flag data s)
  let ?l = "skip_seps m pos"
  let ?r = "component_end m ?l"
  show ?case
  proof (cases "m ! ?r = 0x5c \<or> flag")
    case False
    then have "resolve_loop get Size last0 tries m pos flag data s = Some (symlink_exit m False data, s)"
      by (intro resolve_exit [OF round(1)]) auto
    then show ?thesis using round(5,6) by simp
  next
    case go: True
    show ?thesis
    proof (cases "dot_target m ?l ?r")
      case (Some new)
      show ?thesis
        using round(6) round(2) [OF go Some] round(5) unfolding resolve_dot [OF round(1) go Some]
        by (auto split: option.splits)
    next
      case None
      obtain q w s1 where g: "get s (cstr (m[?r := 0]) 0) (m ! ?r = 0x5c) = ((q, w), s1)" by (metis prod.collapse)
      define data' where "data' = (case w of None \<Rightarrow> data | Some d \<Rightarrow> d)"
      define rooted where "rooted = (SubstituteName data' \<noteq> [] \<and> hd (SubstituteName data') = 0x5c)"
      define new where "new = (if rooted then 0 else ?l)"
      have P: "P s1" using get [OF g round(5)] .
      have again: "P s''" if "\<not> tries \<le> 1" "replace_path Size m new (SubstituteName data') ?r = Some m'"
        "resolve_loop get Size last0 (tries - 1) m' new last0 data' s1 = Some (res', s'')" for m' res' s''
        using round(4) [OF go that(1) _ that(2) P that(3)] by (simp add: new_def rooted_def)
      have fin: "Some (res', s2) = Some (res, s') \<Longrightarrow> s2 = s1 \<Longrightarrow> P s'" for res' s2 using P by simp
      show ?thesis
        using round(6) round(3) [OF go P] again P
        unfolding resolve_ask [where get = get and s = s and data = data, OF round(1) go None g data'_def rooted_def new_def]
        by (auto split: if_splits option.splits)
    qed
  qed
qed

lemma enumerate_loop_keeps:
  assumes cb: "\<And>s e r s'. cb s e = Some (r, s') \<Longrightarrow> P s \<Longrightarrow> P s'"
  shows "enumerate_ea_loop cb b pos n Result s = Some (r, s') \<Longrightarrow> P s \<Longrightarrow> P s'"
proof (induction "n - pos" arbitrary: pos Result s rule: less_induct)
  case less
  show ?case
  proof (cases "pos < n")
    case True
    then obtain r1 s1 where c: "cb s (drop pos b) = Some (r1, s1)"
      using less(2) by (subst (asm) enumerate_ea_loop.simps) (auto split: option.splits)
    have IH: "P s'" if "enumerate_ea_loop cb b pos' n r1 s1 = Some (r, s')" "pos < pos'" for pos'
      using less(1) [OF _ that(1) cb [OF c less(3)]] that(2) True by simp
    show ?thesis
      using less(2) True c cb [OF c less(3)] IH
      by (subst (asm) enumerate_ea_loop.simps) (auto split: option.splits if_splits)
  next
    case False
    then show ?thesis using less(2,3) by (subst (asm) enumerate_ea_loop.simps) simp
  qed
qed

lemma enumerate_keeps:
  "FspFileSystemEnumerateEa cb b n s = Some (r, s') \<Longrightarrow> (\<And>s e r s'. cb s e = Some (r, s') \<Longrightarrow> P s \<Longrightarrow> P s') \<Longrightarrow> P s \<Longrightarrow> P s'"
  unfolding FspFileSystemEnumerateEa_def using enumerate_loop_keeps .

section \<open>What is held\<close>

text \<open>
  How a call changes a measure of the state of the file system: not at all, by a file that it opens, by one it
  releases. The measure counts the files of a class \<open>K\<close>, which says of a file by its kind (a directory or not),
  path, flags and handle whether it is counted; the flags and the handle of a file that is opened are those that
  the file system answers.
\<close>

type_synonym file_class = "bool \<Rightarrow> bytes \<Rightarrow> u32 \<Rightarrow> u64 \<Rightarrow> bool"

definition keeps :: "('s \<Rightarrow> int) \<Rightarrow> ('s \<Rightarrow> 'a \<times> 's) \<Rightarrow> bool" where
  "keeps Held op \<longleftrightarrow> (\<forall>s. Held (snd (op s)) = Held s)"

definition tally :: "bool \<Rightarrow> int" where
  "tally b = (if b then 1 else 0)"

lemma tally_simps [simp]: "tally True = 1" "tally False = 0"
  by (simp_all add: tally_def)

definition opens :: "('s \<Rightarrow> int) \<Rightarrow> (u32 \<Rightarrow> u64 \<Rightarrow> bool) \<Rightarrow> ('s \<Rightarrow> (int \<times> fuse_file_info) \<times> 's) \<Rightarrow> bool" where
  "opens Held Q op \<longleftrightarrow> (\<forall>s. Held (snd (op s)) = Held s +
     tally (fst (fst (op s)) = 0 \<and> Q (Fi_flags (snd (fst (op s)))) (Fi_fh (snd (fst (op s))))))"

definition releases :: "('s \<Rightarrow> int) \<Rightarrow> bool \<Rightarrow> ('s \<Rightarrow> 'a \<times> 's) \<Rightarrow> bool" where
  "releases Held b op \<longleftrightarrow> (\<forall>s. Held (snd (op s)) = Held s - tally b)"

text \<open>From one state of the layer to another, by so many files and so many blocks of memory.\<close>

definition moved :: "('s \<Rightarrow> int) \<Rightarrow> int \<Rightarrow> int \<Rightarrow> 's fuse_state \<Rightarrow> 's fuse_state \<Rightarrow> bool" where
  "moved Held files blocks st st' \<longleftrightarrow>
     Held (Fuse_Fs st') = Held (Fuse_Fs st) + files \<and> Fuse_Mem st' = Fuse_Mem st + blocks"

lemma moved_refl [simp]: "moved Held 0 0 st st"
  by (simp add: moved_def)

lemma moved_trans:
  "moved Held a b st st' \<Longrightarrow> moved Held a' b' st' st'' \<Longrightarrow> moved Held (a + a') (b + b') st st''"
  by (simp add: moved_def)

text \<open>The operations on paths and files that a file system may have, by what they do to the open files.\<close>

locale fuse_resources =
  fixes f :: "'s fuse" and Held :: "'s \<Rightarrow> int" and K :: file_class
  assumes path_ops:
    "op_getattr (Path_ops f) = Some getattr \<Longrightarrow> keeps Held (\<lambda>s. getattr s p)"
    "op_readlink (Path_ops f) = Some readlink \<Longrightarrow> keeps Held (\<lambda>s. readlink s p n)"
    "op_getpath (Path_ops f) = Some getpath \<Longrightarrow> keeps Held (\<lambda>s. getpath s p n fi)"
    "op_mknod (Path_ops f) = Some mknod \<Longrightarrow> keeps Held (\<lambda>s. mknod who s p mode dev)"
    "op_mkdir (Path_ops f) = Some mkdir \<Longrightarrow> keeps Held (\<lambda>s. mkdir s p mode)"
    "op_symlink (Path_ops f) = Some symlink \<Longrightarrow> keeps Held (\<lambda>s. symlink who s p q)"
    "op_unlink (Path_ops f) = Some unlink \<Longrightarrow> keeps Held (\<lambda>s. unlink s p)"
    "op_rmdir (Path_ops f) = Some rmdir \<Longrightarrow> keeps Held (\<lambda>s. rmdir s p)"
    "op_rename (Path_ops f) = Some rename \<Longrightarrow> keeps Held (\<lambda>s. rename s p q)"
    "op_chmod (Path_ops f) = Some chmod \<Longrightarrow> keeps Held (\<lambda>s. chmod s p mode)"
    "op_chown (Path_ops f) = Some chown \<Longrightarrow> keeps Held (\<lambda>s. chown s p uid gid)"
    "op_truncate (Path_ops f) = Some trunc \<Longrightarrow> keeps Held (\<lambda>s. trunc s p off)"
    "op_utimens (Path_ops f) = Some utimens \<Longrightarrow> keeps Held (\<lambda>s. utimens s p t t')"
    "op_utime (Path_ops f) = Some utime \<Longrightarrow> keeps Held (\<lambda>s. utime s p u u')"
    "op_setcrtime (Path_ops f) = Some setcrtime \<Longrightarrow> keeps Held (\<lambda>s. setcrtime s p t)"
    "op_setchgtime (Path_ops f) = Some setchgtime \<Longrightarrow> keeps Held (\<lambda>s. setchgtime s p t)"
    "op_chflags (Path_ops f) = Some chflags \<Longrightarrow> keeps Held (\<lambda>s. chflags s p mode)"
    "op_access (Path_ops f) = Some access \<Longrightarrow> keeps Held (\<lambda>s. access s p mode)"
    "op_statfs (Path_ops f) = Some statfs \<Longrightarrow> keeps Held (\<lambda>s. statfs s p)"
    "op_listxattr (Path_ops f) = Some listxattr \<Longrightarrow> keeps Held (\<lambda>s. listxattr s p n)"
    "op_getxattr (Path_ops f) = Some getxattr \<Longrightarrow> keeps Held (\<lambda>s. getxattr s p q n)"
    "op_setxattr (Path_ops f) = Some setxattr \<Longrightarrow> keeps Held (\<lambda>s. setxattr s p q q')"
    "op_removexattr (Path_ops f) = Some removexattr \<Longrightarrow> keeps Held (\<lambda>s. removexattr s p q)"
    "op_getdir (Path_ops f) = Some getdir \<Longrightarrow> keeps Held (\<lambda>s. snd (getdir s p) k)"
  and file_ops:
    "op_fgetattr (File_ops f) = Some fgetattr \<Longrightarrow> keeps Held (\<lambda>s. fgetattr s p i)"
    "op_flush (File_ops f) = Some flush \<Longrightarrow> keeps Held (\<lambda>s. flush s p i)"
    "op_fsync (File_ops f) = Some fsync \<Longrightarrow> keeps Held (\<lambda>s. fsync s p i)"
    "op_fsyncdir (File_ops f) = Some fsyncdir \<Longrightarrow> keeps Held (\<lambda>s. fsyncdir s p i)"
    "op_ftruncate (File_ops f) = Some ftruncate \<Longrightarrow> keeps Held (\<lambda>s. ftruncate s p off i)"
    "op_read (File_ops f) = Some read \<Longrightarrow> keeps Held (\<lambda>s. read s p len off i)"
    "op_write (File_ops f) = Some write \<Longrightarrow> keeps Held (\<lambda>s. write s p q off i)"
    "op_readdir (File_ops f) = Some readdir \<Longrightarrow> keeps Held (\<lambda>s. snd (readdir s p i) k)"
    "op_ioctl (File_ops f) = Some ioctl \<Longrightarrow> keeps Held (\<lambda>s. ioctl s p cmd i q)"
  and open_ops:
    "op_create (File_ops f) = Some create \<Longrightarrow> opens Held (K False p) (\<lambda>s. create s p mode i)"
    "op_open (File_ops f) = Some open \<Longrightarrow> opens Held (K False p) (\<lambda>s. open s p i)"
    "op_opendir (File_ops f) = Some opendir \<Longrightarrow> opens Held (K True p) (\<lambda>s. opendir s p i)"
  and release_ops:
    "op_release (File_ops f) = Some release \<Longrightarrow> releases Held (K False p (Fi_flags i) (Fi_fh i)) (\<lambda>s. release s p i)"
    "op_releasedir (File_ops f) = Some releasedir \<Longrightarrow>
      releases Held (K True p (Fi_flags i) (Fi_fh i)) (\<lambda>s. releasedir s p i)"
begin

lemma call_keeps: "fuse_call op st = (r, st') \<Longrightarrow> keeps Held op \<Longrightarrow> moved Held 0 0 st st'"
  by (auto simp: fuse_call_def moved_def keeps_def split: prod.splits dest: spec [of _ "Fuse_Fs st"])

lemma call_state_keeps: "keeps Held op \<Longrightarrow> moved Held 0 0 st (snd (fuse_call op st))"
  using call_keeps [OF prod.collapse [symmetric]] .

lemma err_keeps: "err_call f op st = (r, st') \<Longrightarrow> keeps Held op \<Longrightarrow> moved Held 0 0 st st'"
  by (auto simp: err_call_def split: prod.splits dest: call_keeps)

lemma optional_keeps: "(\<And>op. c = Some op \<Longrightarrow> keeps Held op) \<Longrightarrow> moved Held 0 0 st (optional_call c st)"
  by (cases c) (auto simp: optional_call_def split: prod.splits dest!: call_keeps [OF prod.collapse [symmetric]])

lemma open_opens:
  assumes "open_call f op st = ((Result, fi), st')" "opens Held Q op"
  shows "moved Held (tally (NT_SUCCESS Result \<and> Q (Fi_flags fi) (Fi_fh fi))) 0 st st'"
proof -
  obtain err i s where c: "op (Fuse_Fs st) = ((err, i), s)" by (metis prod.collapse)
  then have "Held s = Held (Fuse_Fs st) + tally (err = 0 \<and> Q (Fi_flags i) (Fi_fh i))" using assms(2) by (auto simp: opens_def dest: spec [of _ "Fuse_Fs st"])
  then show ?thesis using assms(1) c by (auto simp: open_call_def fuse_call_def moved_def)
qed

lemma release_releases:
  assumes "op_release (File_ops f) \<noteq> None" "op_releasedir (File_ops f) \<noteq> None"
  shows "moved Held (- tally (K directory p (Fi_flags fi) (Fi_fh fi))) 0 st (release_file f directory p fi st)"
proof -
  have "moved Held (- tally b) 0 st (snd (fuse_call op st))" if "releases Held b op" for b and op :: "'s \<Rightarrow> int \<times> 's"
    using that by (simp add: fuse_call_def moved_def releases_def case_prod_beta)
  then show ?thesis using assms release_ops
    by (cases directory) (auto simp only: release_file_def optional_call_def if_True if_False option.map option.case not_None_eq)
qed

section \<open>Names and information\<close>

lemma to_posix_moves: "FspPosixMapWindowsToPosixPath f w st = (r, st') \<Longrightarrow> moved Held 0 (case r of Inl _ \<Rightarrow> 0 | Inr _ \<Rightarrow> 1) st st'"
  by (auto simp: FspPosixMapWindowsToPosixPath_def moved_def split: sum.splits)

lemma to_windows_moves: "FspPosixMapPosixToWindowsPath f p st = (r, st') \<Longrightarrow> moved Held 0 (case r of Inl _ \<Rightarrow> 0 | Inr _ \<Rightarrow> 1) st st'"
  by (auto simp: FspPosixMapPosixToWindowsPath_def moved_def split: sum.splits)

lemma alloc_moves: "fuse_alloc f n st = Some st' \<Longrightarrow> moved Held 0 1 st st'"
  by (auto simp: fuse_alloc_def moved_def split: if_splits)

lemma free_fs [simp]: "Fuse_Fs (fuse_free st) = Fuse_Fs st" "Fuse_Mem (fuse_free st) = Fuse_Mem st - 1"
  by (simp_all add: fuse_free_def)

lemma stat_keeps: "get_stat f p fi st = (r, st') \<Longrightarrow> moved Held 0 0 st st'"
  by (auto simp: get_stat_def Let_def split: option.splits prod.splits if_splits
      dest!: call_keeps simp: path_ops file_ops)

lemma directory_keeps: "getattr_directory f p st = (r, st') \<Longrightarrow> moved Held 0 0 st st'"
  by (auto simp: getattr_directory_def Let_def split: option.splits prod.splits dest!: call_keeps simp: path_ops)

lemma funnel_keeps:
  assumes "fsp_fuse_intf_GetFileInfoFunnel f p fi stbufp check st = (r, st')"
    "\<And>c st r st'. check = Some c \<Longrightarrow> c st = (r, st') \<Longrightarrow> moved Held 0 0 st st'"
  shows "moved Held 0 0 st st'"
proof -
  have type: "moved Held 0 0 st1 st2" if "type_attributes f check mode st1 = (a, st2)" for a mode st1 st2
    using that assms(2) by (auto simp: type_attributes_def Let_def split: if_splits option.splits prod.splits)
  show ?thesis
    using assms(1) by (auto simp: fsp_fuse_intf_GetFileInfoFunnel_def Let_def moved_def
        split: option.splits sum.splits prod.splits dest!: type stat_keeps)
qed

lemma symlink_keeps: "fsp_fuse_intf_GetReparsePointSymlink f p n st = (r, st') \<Longrightarrow> moved Held 0 0 st st'"
  by (auto simp: fsp_fuse_intf_GetReparsePointSymlink_def Let_def moved_def
      split: option.splits prod.splits if_splits sum.splits dest!: call_keeps to_windows_moves simp: path_ops)

lemma reparse_keeps: "fsp_fuse_intf_GetReparsePointEx f p fi buffer resolve st = (r, st') \<Longrightarrow> moved Held 0 0 st st'"
  by (auto simp: fsp_fuse_intf_GetReparsePointEx_def Let_def moved_def
      split: option.splits prod.splits if_splits sum.splits dest!: symlink_keeps funnel_keeps)

lemma by_name_keeps:
  assumes "fsp_fuse_intf_GetReparsePointByName f buffer s n d = (r, s')" "moved Held 0 0 st (fst s)"
  shows "moved Held 0 0 st (fst s')"
  using assms by (auto simp: fsp_fuse_intf_GetReparsePointByName_def Let_def moved_def
      split: prod.splits sum.splits dest!: to_posix_moves reparse_keeps)

lemma find_point_keeps:
  "FspFileSystemFindReparsePoint (fsp_fuse_intf_GetReparsePointByName f buffer) s name = Some (r, s') \<Longrightarrow>
     moved Held 0 0 (fst s) (fst s')"
  using find_keeps [where P = "\<lambda>s'. moved Held 0 0 (fst s) (fst s')", OF by_name_keeps]
  by (auto simp: FspFileSystemFindReparsePoint_def)

lemma resolve_string: "resolve_loop get Size last0 tries m pos flag data s = Some r \<Longrightarrow> string_at m pos"
  by (subst (asm) resolve_loop.simps) (auto simp: Let_def split: if_splits)

lemma resolve_points_keeps:
  "FspFileSystemResolveReparsePoints (fsp_fuse_intf_GetReparsePointByName f buffer) fresh n name i flag s = Some (r, s') \<Longrightarrow>
     moved Held 0 0 (fst s) (fst s')"
proof -
  have "moved Held 0 0 (fst s) (fst s')"
    if "resolve_loop (fsp_fuse_intf_GetReparsePointByName f buffer) n flag 32 (name @ [0]) (unat i) flag data s = Some (r, s')" for data
    by (rule resolve_keeps [OF _ resolve_string [OF that] _ that]) (auto dest: by_name_keeps)
  then show "FspFileSystemResolveReparsePoints (fsp_fuse_intf_GetReparsePointByName f buffer) fresh n name i flag s = Some (r, s') \<Longrightarrow>
      moved Held 0 0 (fst s) (fst s')"
    by (auto simp: FspFileSystemResolveReparsePoints_def FspFileSystemResolveReparsePointsInternal_def split: option.splits if_splits)
qed

lemma link_keeps: "link_resolves_to_directory f w st = (r, st') \<Longrightarrow> moved Held 0 0 st st'"
  by (auto simp: link_resolves_to_directory_def Let_def moved_def split: option.splits prod.splits reparse_result.splits
      if_splits sum.splits dest!: resolve_points_keeps to_posix_moves directory_keeps)

lemma symlink_check_keeps: "fsp_fuse_intf_CheckSymlinkDirectory f p st = (r, st') \<Longrightarrow> moved Held 0 0 st st'"
  by (auto simp: fsp_fuse_intf_CheckSymlinkDirectory_def Let_def moved_def split: option.splits prod.splits
      if_splits sum.splits dest!: link_keeps to_windows_moves directory_keeps alloc_moves)

lemma info_keeps: "fsp_fuse_intf_GetFileInfoEx f p fi st = (r, st') \<Longrightarrow> moved Held 0 0 st st'"
  unfolding fsp_fuse_intf_GetFileInfoEx_def by (erule funnel_keeps) (auto dest: symlink_check_keeps)

lemma desc_info_keeps: "desc_file_info f d st = (r, st') \<Longrightarrow> moved Held 0 0 st st'"
  unfolding desc_file_info_def by (rule info_keeps)

section \<open>Opening and closing\<close>

lemma access_keeps: "delete_access f p st = (r, st') \<Longrightarrow> moved Held 0 0 st st'"
  by (auto simp: delete_access_def Let_def split: option.splits prod.splits if_splits dest!: err_keeps simp: path_ops)

lemma flags_keeps: "change_flags f p wanted a st = (r, st') \<Longrightarrow> moved Held 0 0 st st'"
  by (auto simp: change_flags_def split: option.splits if_splits dest!: err_keeps simp: path_ops)

lemma ea_entry_keeps: "fsp_fuse_intf_SetEaEntry f p st e = Some (r, st') \<Longrightarrow> moved Held 0 0 st st'"
  by (auto simp: fsp_fuse_intf_SetEaEntry_def Let_def bind_eq_Some_conv split: if_splits prod.splits
      dest!: err_keeps simp: path_ops call_state_keeps)

lemma moved_0_trans: "moved Held 0 0 st st' \<Longrightarrow> moved Held a b st' st'' \<Longrightarrow> moved Held a b st st''"
  by (simp add: moved_def)

lemma ea_keeps: "FspFileSystemEnumerateEa (fsp_fuse_intf_SetEaEntry f p) b n st = Some (r, st') \<Longrightarrow> moved Held 0 0 st st'"
  by (erule enumerate_keeps) (auto dest: ea_entry_keeps elim: moved_0_trans)

lemma chown_keeps:
  "(case op_chown (Path_ops f) of Some chown \<Rightarrow> if c then err_call f (\<lambda>s. chown s p uid gid) st else (STATUS_SUCCESS, st)
    | None \<Rightarrow> (STATUS_SUCCESS, st)) = (r, st') \<Longrightarrow> moved Held 0 0 st st'"
  by (auto split: option.splits if_splits dest!: err_keeps simp: path_ops)

lemma created_keeps:
  assumes "created f ctx p directory a uid gid ea fi st = Some (r, st')"
  shows "moved Held 0 0 st st'"
proof -
  obtain r1 st1 where 1: "change_flags f p (a \<noteq> 0) (if directory then a else a OR FILE_ATTRIBUTE_ARCHIVE) st = (r1, st1)"
    by (metis prod.collapse)
  obtain r2 st2 where 2: "(case op_chown (Path_ops f) of
        Some chown \<Rightarrow> if uid \<noteq> Ctx_uid ctx \<or> gid \<noteq> Ctx_gid ctx then err_call f (\<lambda>s. chown s p uid gid) st1 else (STATUS_SUCCESS, st1)
      | None \<Rightarrow> (STATUS_SUCCESS, st1)) = (r2, st2)" by (metis prod.collapse)
  note keep = flags_keeps [OF 1] moved_0_trans [OF flags_keeps [OF 1] chown_keeps [OF 2]]
  show ?thesis
    using assms keep unfolding created_def Let_def 1 prod.case 2
    by (auto split: if_splits option.splits prod.splits intro: moved_0_trans dest!: ea_keeps info_keeps)
qed

end

end
