(* ===== verification/FuseHolds.thy ===== *)
theory FuseHolds
  imports FuseProps
begin

text \<open>
  Every operation of the FUSE layer accounts for the files that it opens and the memory that it takes.
\<close>

text \<open>What an open file holds: one file of the file system, unless it is a reparse point; counted if it is of the class.\<close>

definition holds :: "file_class \<Rightarrow> fuse_file_desc \<Rightarrow> int" where
  "holds K d = tally (\<not> IsReparsePoint d \<and> K (IsDirectory d) (Desc_PosixPath d) (OpenFlags d) (FileHandle d))"

text \<open>The file as it was opened: as a given kind, or as the kind it has.\<close>

definition as_kind :: "bool option \<Rightarrow> fuse_file_desc \<Rightarrow> fuse_file_desc" where
  "as_kind kind d = (case kind of None \<Rightarrow> d | Some directory \<Rightarrow> d\<lparr>IsDirectory := directory\<rparr>)"

text \<open>A file system that can open files and directories can release them.\<close>

definition releasable :: "'s fuse \<Rightarrow> bool" where
  "releasable f \<longleftrightarrow> op_opendir (File_ops f) \<noteq> None \<and> op_releasedir (File_ops f) \<noteq> None \<and> op_release (File_ops f) \<noteq> None"

context fuse_resources
begin

section \<open>Opening and closing\<close>

lemma create_open_opens:
  assumes "create_open f ctx directory p Mode st = ((Result, fi), st')" "releasable f"
  shows "moved Held (tally (NT_SUCCESS Result \<and> K directory p (Fi_flags fi) (Fi_fh fi))) 0 st st'"
proof -
  have no: "\<not> NT_SUCCESS STATUS_INVALID_DEVICE_REQUEST" by (simp add: NT_SUCCESS_def)
  have err: "moved Held 0 0 st st1 \<and> (NT_SUCCESS R \<longleftrightarrow> R = 0)" if "err_call f op st = (R, st1)" "keeps Held op" for op R st st1
    using err_keeps [OF that] that(1) by (auto simp: err_call_def split: prod.splits)
  show ?thesis
    using assms no unfolding create_open_def releasable_def Let_def
    by (auto split: option.splits prod.splits if_split_asm dest!: err open_opens simp: path_ops open_ops moved_def)
qed

lemma open_open_opens:
  assumes "open_open f p attr access st = ((Result, fi), st')" "releasable f"
  shows "moved Held (tally (NT_SUCCESS Result \<and> \<not> FlagOn attr FILE_ATTRIBUTE_REPARSE_POINT
     \<and> K (FlagOn attr FILE_ATTRIBUTE_DIRECTORY) p (Fi_flags fi) (Fi_fh fi))) 0 st st'"
proof -
  have no: "\<not> NT_SUCCESS STATUS_INVALID_DEVICE_REQUEST" by (simp add: NT_SUCCESS_def)
  show ?thesis
    using assms no unfolding open_open_def releasable_def Let_def
    by (auto split: option.splits if_split_asm dest!: open_opens simp: open_ops moved_def)
qed

lemma getpath_keeps: "fsp_fuse_intf_GetOpenFileInfoPath f p fi n st = (r, st') \<Longrightarrow> moved Held 0 0 st st'"
  by (auto simp: fsp_fuse_intf_GetOpenFileInfoPath_def Let_def moved_def split: option.splits prod.splits if_splits sum.splits
      dest!: call_keeps to_windows_moves simp: path_ops)

lemma opened_keeps:
  "opened_file f ctx p reparse fi info n st = (r, ctx', st') \<Longrightarrow>
     moved Held 0 0 st st' \<and> ctx' = ctx\<lparr>Ctx_PosixPath := None\<rparr> \<and>
     (\<exists>opened. r = Inr opened \<and> Opened_Desc opened = \<lparr>Desc_PosixPath = p,
        IsDirectory = FlagOn (Info_FileAttributes info) FILE_ATTRIBUTE_DIRECTORY, IsReparsePoint = reparse,
        OpenFlags = Fi_flags fi, FileHandle = Fi_fh fi, DirBuffer = None\<rparr>)"
  by (auto simp: opened_file_def Let_def split: prod.splits if_splits dest!: getpath_keeps)

text \<open>
  An open that fails changes nothing; one that succeeds takes the memory of the file, and the path of the context.
  A file that is created is opened as the kind that the request asks for.
\<close>

definition open_effect where
  "open_effect kind ctx r ctx' st st' \<longleftrightarrow>
     (case r of Inl _ \<Rightarrow> moved Held 0 0 st st' \<and> ctx' = ctx
      | Inr opened \<Rightarrow> moved Held (holds K (as_kind kind (Opened_Desc opened))) 1 st st' \<and> ctx' = ctx\<lparr>Ctx_PosixPath := None\<rparr> \<and>
          Ctx_PosixPath ctx \<noteq> None)"

lemma create_effect:
  assumes "fsp_fuse_intf_Create f ctx Options a sd ea rp n st = Some (r, ctx', st')" "releasable f"
  shows "open_effect (Some (FlagOn Options FILE_DIRECTORY_FILE)) ctx r ctx' st st'"
proof -
  have rel: "moved Held (- tally (K directory p (Fi_flags fi) (Fi_fh fi))) 0 st (release_file f directory p fi st)" for directory p fi st
    using assms(2) by (intro release_releases) (auto simp: releasable_def)
  show ?thesis
    using assms unfolding fsp_fuse_intf_Create_def Let_def open_effect_def
    by (auto split: option.splits prod.splits if_split_asm sum.splits dest!: alloc_moves create_open_opens created_keeps opened_keeps
        simp: moved_def holds_def as_kind_def rel [unfolded moved_def])
qed

lemma open_effect:
  assumes "fsp_fuse_intf_Open f ctx Options access n st = Some (r, ctx', st')" "releasable f"
  shows "open_effect None ctx r ctx' st st'"
proof -
  obtain p where p: "Ctx_PosixPath ctx = Some p" using assms(1) by (auto simp: fsp_fuse_intf_Open_def split: option.splits)
  obtain r1 st1 where 1: "(if FlagOn Options FILE_DELETE_ON_CLOSE then delete_access f p st else (STATUS_SUCCESS, st)) = (r1, st1)"
    by (metis prod.collapse)
  have st1: "moved Held 0 0 st st1" using 1 by (auto split: if_splits dest: access_keeps)
  show ?thesis
    using assms st1 p unfolding fsp_fuse_intf_Open_def Let_def open_effect_def p option.case 1 prod.case
    by (auto split: option.splits prod.splits if_split_asm sum.splits dest!: alloc_moves info_keeps open_open_opens opened_keeps
        simp: moved_def holds_def as_kind_def)
qed

lemma cleanup_keeps: "moved Held 0 0 st (fsp_fuse_intf_Cleanup f d Flags st)"
proof -
  have flush: "moved Held 0 0 st (optional_call (map_option (\<lambda>op s. op s (Desc_PosixPath d) (desc_fi d)) (op_flush (File_ops f))) st)" for st
    by (rule optional_keeps) (auto simp: file_ops)
  have rmdir: "moved Held 0 0 st (optional_call (map_option (\<lambda>op s. op s (Desc_PosixPath d)) (op_rmdir (Path_ops f))) st)" for st
    by (rule optional_keeps) (auto simp: path_ops)
  have unlink: "moved Held 0 0 st (optional_call (map_option (\<lambda>op s. op s (Desc_PosixPath d)) (op_unlink (Path_ops f))) st)" for st
    by (rule optional_keeps) (auto simp: path_ops)
  show ?thesis
    by (auto simp: fsp_fuse_intf_Cleanup_def Let_def intro: moved_0_trans flush rmdir unlink)
qed

lemma close_releases:
  assumes "releasable f"
  shows "moved Held (- holds K d) (- 2) st (fsp_fuse_intf_Close f d st)"
proof -
  have flush: "moved Held 0 0 st (optional_call (map_option (\<lambda>op s. op s (Desc_PosixPath d) (desc_fi d)) (op_flush (File_ops f))) st)" for st
    by (rule optional_keeps) (auto simp: file_ops)
  have rel: "moved Held (- tally (K directory p (Fi_flags fi) (Fi_fh fi))) 0 st (release_file f directory p fi st)" for directory p fi st
    using assms by (intro release_releases) (auto simp: releasable_def)
  show ?thesis
    using rel [unfolded moved_def] flush [unfolded moved_def]
    by (simp add: fsp_fuse_intf_Close_def Let_def moved_def holds_def desc_fi_def)
qed

section \<open>Operations on open files\<close>

lemma read_keeps: "fsp_fuse_intf_Read f d off len st = (r, st') \<Longrightarrow> moved Held 0 0 st st'"
  by (auto simp: fsp_fuse_intf_Read_def Let_def split: if_splits option.splits prod.splits dest!: call_keeps simp: file_ops)

lemma write_keeps: "fsp_fuse_intf_Write f d q off eof con st = (r, st') \<Longrightarrow> moved Held 0 0 st st'"
  by (auto simp: fsp_fuse_intf_Write_def Let_def moved_def split: if_splits option.splits prod.splits sum.splits
      dest!: call_keeps desc_info_keeps simp: file_ops)

lemma flush_keeps: "fsp_fuse_intf_Flush f d st = (r, st') \<Longrightarrow> moved Held 0 0 st st'"
  by (auto simp: fsp_fuse_intf_Flush_def Let_def moved_def split: if_splits option.splits prod.splits sum.splits
      dest!: err_keeps desc_info_keeps simp: file_ops)

lemma file_info_keeps: "fsp_fuse_intf_GetFileInfo f d st = (r, st') \<Longrightarrow> moved Held 0 0 st st'"
  by (auto simp: fsp_fuse_intf_GetFileInfo_def Let_def split: prod.splits dest!: desc_info_keeps)

lemma volume_info_keeps: "fsp_fuse_intf_GetVolumeInfo f st = (r, st') \<Longrightarrow> moved Held 0 0 st st'"
  by (auto simp: fsp_fuse_intf_GetVolumeInfo_def Let_def split: option.splits prod.splits dest!: call_keeps simp: path_ops)

lemma times_keeps: "set_times f d a w st = (r, st') \<Longrightarrow> moved Held 0 0 st st'"
  by (auto simp: set_times_def Let_def moved_def split: if_splits option.splits prod.splits sum.splits
      dest!: err_keeps desc_info_keeps simp: path_ops)

lemma time_keeps:
  "set_time f d (op_setcrtime (Path_ops f)) t st = (r, st') \<Longrightarrow> moved Held 0 0 st st'"
  "set_time f d (op_setchgtime (Path_ops f)) t st = (r, st') \<Longrightarrow> moved Held 0 0 st st'"
  by (auto simp: set_time_def split: if_splits option.splits dest!: err_keeps simp: path_ops)

lemma and_then_keeps:
  "and_then r step = (Result, st') \<Longrightarrow> moved Held 0 0 st (snd r) \<Longrightarrow>
     (\<And>st1 Result st2. step st1 = (Result, st2) \<Longrightarrow> moved Held 0 0 st1 st2) \<Longrightarrow> moved Held 0 0 st st'"
  by (auto simp: and_then_def split: prod.splits if_splits intro: moved_0_trans)

lemma basic_info_keeps:
  assumes "fsp_fuse_intf_SetBasicInfo f d a c la lw ch st = (r, st')"
  shows "moved Held 0 0 st st'"
proof -
  have attr: "moved Held 0 0 st (snd (set_attributes f d a st))"
    unfolding set_attributes_def by (rule flags_keeps [OF prod.collapse [symmetric]])
  obtain r3 st3 where 3: "and_then (and_then (and_then (set_attributes f d a st) (set_times f d la lw))
      (set_time f d (op_setcrtime (Path_ops f)) c)) (set_time f d (op_setchgtime (Path_ops f)) ch) = (r3, st3)" by (metis prod.collapse)
  have step: "moved Held 0 0 st (snd (and_then r g))"
    if "moved Held 0 0 st (snd r)" "\<And>st1 r st2. g st1 = (r, st2) \<Longrightarrow> moved Held 0 0 st1 st2" for r g
    using and_then_keeps [OF prod.collapse [symmetric] that] .
  have "moved Held 0 0 st st3"
    by (rule and_then_keeps [OF 3 step [OF step [OF attr times_keeps] time_keeps(1)] time_keeps(2)])
  then show ?thesis
    using assms 3 by (auto simp: fsp_fuse_intf_SetBasicInfo_def Let_def split: if_splits dest!: file_info_keeps intro: moved_0_trans)
qed

lemma truncate_keeps: "truncate_file f d n st = (r, st') \<Longrightarrow> moved Held 0 0 st st'"
  by (auto simp: truncate_file_def split: option.splits dest!: err_keeps simp: path_ops file_ops)

lemma file_size_keeps: "fsp_fuse_intf_SetFileSize f d n alloc st = (r, st') \<Longrightarrow> moved Held 0 0 st st'"
  by (auto simp: fsp_fuse_intf_SetFileSize_def Let_def moved_def split: if_splits prod.splits sum.splits
      dest!: truncate_keeps desc_info_keeps)

lemma remove_xattrs_keeps:
  "op_removexattr (Path_ops f) = Some removexattr \<Longrightarrow> moved Held 0 0 st (remove_xattrs f p removexattr ns st)"
proof (induction ns arbitrary: st)
  case (Cons n ns)
  show ?case using moved_0_trans [OF call_state_keeps [OF path_ops(23) [OF Cons.prems]] Cons.IH [OF Cons.prems]] by simp
qed simp

lemma overwrite_ea_keeps: "overwrite_ea f p ea st = Some (r, st') \<Longrightarrow> moved Held 0 0 st st'"
  by (auto simp: overwrite_ea_def Let_def moved_def split: option.splits if_splits prod.splits dest!: ea_keeps call_keeps
      simp: path_ops remove_xattrs_keeps [unfolded moved_def, simplified])

lemma overwrite_keeps: "fsp_fuse_intf_Overwrite f fi0 d a ea st = Some (r, st') \<Longrightarrow> moved Held 0 0 st st'"
  by (auto simp: fsp_fuse_intf_Overwrite_def Let_def moved_def split: option.splits if_splits prod.splits
      dest!: overwrite_ea_keeps truncate_keeps flags_keeps info_keeps)

lemma list_keeps:
  assumes "list_directory f d = Some g" "g s = (es, k)" "k n = (e, s')"
  shows "Held s' = Held s"
proof -
  have "Held (snd (snd (g s) n)) = Held s"
    using assms(1) path_ops(24) file_ops(8) by (fastforce simp: list_directory_def keeps_def split: option.splits)
  then show ?thesis using assms(2,3) by simp
qed

lemma can_delete_keeps: "fsp_fuse_intf_CanDelete f d st = (r, st') \<Longrightarrow> moved Held 0 0 st st'"
  by (auto simp: fsp_fuse_intf_CanDelete_def Let_def moved_def split: option.splits if_splits prod.splits
      dest!: access_keeps dest: list_keeps)

lemma rename_keeps:
  assumes "fsp_fuse_intf_Rename f ctx d n n' rep st = Some (r, st')"
  shows "moved Held 0 0 st st'"
proof -
  obtain p r1 st1 where 1: "fsp_fuse_intf_GetFileInfoEx f p None st = (r1, st1)" "Ctx_PosixPath ctx = Some p"
    using assms by (auto simp: fsp_fuse_intf_Rename_def bind_eq_Some_conv) (metis prod.collapse)
  obtain refused :: "ntstatus option" where "(case refused of Some Result \<Rightarrow> Some (Result, st1)
      | None \<Rightarrow> do { rename \<leftarrow> op_rename (Path_ops f); Some (err_call f (\<lambda>s. rename s (Desc_PosixPath d) p) st1) }) = Some (r, st')"
    using assms 1 by (simp add: fsp_fuse_intf_Rename_def Let_def)
  then show ?thesis
    using info_keeps [OF 1(1)]
    by (auto simp: bind_eq_Some_conv split: option.splits dest!: err_keeps simp: path_ops intro: moved_0_trans)
qed

lemma merge_moves: "merge_permissions f i st = Some (r, st') \<Longrightarrow> moved Held 0 (case r of Inl _ \<Rightarrow> 0 | Inr _ \<Rightarrow> 1) st st'"
  by (auto simp: merge_permissions_def moved_def split: option.splits sum.splits)

lemma security_keeps: "fsp_fuse_intf_GetSecurityEx f p fi n st = Some (r, st') \<Longrightarrow> moved Held 0 0 st st'"
  by (auto simp: fsp_fuse_intf_GetSecurityEx_def Let_def moved_def split: option.splits if_splits prod.splits sum.splits
      dest!: info_keeps merge_moves)

lemma security_by_name_keeps: "fsp_fuse_intf_GetSecurityByName f w n st = Some (r, st') \<Longrightarrow> moved Held 0 0 st st'"
  by (auto simp: fsp_fuse_intf_GetSecurityByName_def Let_def moved_def split: option.splits if_splits prod.splits sum.splits
      dest!: security_keeps to_posix_moves find_point_keeps)

lemma change_keeps: "change_permissions f p old new st = Some (r, st') \<Longrightarrow> moved Held 0 0 st st'"
  by (auto simp: change_permissions_def Let_def moved_def bind_eq_Some_conv split: option.splits if_splits prod.splits
      dest!: err_keeps simp: path_ops)

lemma set_security_keeps: "fsp_fuse_intf_SetSecurity f stack modify d st = Some (r, st') \<Longrightarrow> moved Held 0 0 st st'"
  by (auto simp: fsp_fuse_intf_SetSecurity_def moved_def split: option.splits if_splits prod.splits sum.splits
      dest!: desc_info_keeps merge_moves change_keeps)

lemma get_reparse_keeps: "fsp_fuse_intf_GetReparsePoint f d buffer st = (r, st') \<Longrightarrow> moved Held 0 0 st st'"
  by (auto simp: fsp_fuse_intf_GetReparsePoint_def Let_def split: prod.splits dest!: reparse_keeps)

lemma control_keeps: "fsp_fuse_intf_Control f d code q n memory st = (r, st') \<Longrightarrow> moved Held 0 0 st st'"
  by (auto simp: fsp_fuse_intf_Control_def Let_def split: option.splits if_splits prod.splits dest!: call_keeps simp: file_ops)

lemma set_ea_keeps: "fsp_fuse_intf_SetEa f d b n st = Some (r, st') \<Longrightarrow> moved Held 0 0 st st'"
  by (auto simp: fsp_fuse_intf_SetEa_def split: option.splits if_splits prod.splits dest!: ea_keeps intro: moved_0_trans file_info_keeps)

lemma get_ea_loop_keeps:
  assumes "op_getxattr (Path_ops f) = Some getxattr"
  shows "get_ea_loop f getxattr p n names b pos prev bt st = Some (b', bt', st') \<Longrightarrow> moved Held 0 0 st st'"
proof (induction names arbitrary: b pos prev bt st)
  case (Cons name names)
  then show ?case
    by (auto simp: Let_def bind_eq_Some_conv path_ops(21) [OF assms] split: if_splits prod.splits
        dest!: call_keeps intro: moved_0_trans)
qed simp

lemma get_ea_keeps: "fsp_fuse_intf_GetEa f d b n st = Some (r, q, st') \<Longrightarrow> moved Held 0 0 st st'"
  by (auto simp: fsp_fuse_intf_GetEa_def Let_def split: option.splits if_splits prod.splits
      dest!: get_ea_loop_keeps call_keeps simp: path_ops intro: moved_0_trans)

section \<open>Setting a reparse point\<close>

lemma hidden_loop_keeps: "hidden_loop f uuid p tries st = (r, st') \<Longrightarrow> moved Held 0 0 st st'"
proof (induction tries arbitrary: st)
  case (Suc tries)
  then show ?case
    by (auto simp: Let_def path_ops split: option.splits prod.splits if_splits dest!: call_keeps intro: moved_0_trans)
qed simp

lemma hidden_moves: "fsp_fuse_intf_NewHiddenName f uuid p st = (r, st') \<Longrightarrow> moved Held 0 (case r of Inl _ \<Rightarrow> 0 | Inr _ \<Rightarrow> 1) st st'"
  by (auto simp: fsp_fuse_intf_NewHiddenName_def moved_def split: option.splits prod.splits sum.splits
      dest!: alloc_moves hidden_loop_keeps)

lemma replace_keeps:
  assumes "replace_file f d hidden st = Some (r, st')"
  shows "moved Held 0 0 st st'"
proof -
  obtain rename unlink where ops: "op_rename (Path_ops f) = Some rename" "op_unlink (Path_ops f) = Some unlink"
    using assms by (auto simp: replace_file_def bind_eq_Some_conv)
  have keep: "moved Held 0 0 st st'" if "err_call f (\<lambda>s. rename s hidden (Desc_PosixPath d)) st = (r, st')" for st r st'
    by (rule err_keeps [OF that path_ops(9) [OF ops(1)]])
  obtain r1 st1 where 1: "moved Held 0 0 st st1" "(r, st') = (if r1 \<noteq> STATUS_SUCCESS then (r1, snd (fuse_call (\<lambda>s. unlink s hidden) st1)) else (r1, st1))"
  proof (cases "IsDirectory d")
    case False
    obtain r1 st1 where "err_call f (\<lambda>s. rename s hidden (Desc_PosixPath d)) st = (r1, st1)" by (metis prod.collapse)
    with keep [OF this] False show ?thesis using assms ops by (intro that [of st1 r1]) (auto simp: replace_file_def)
  next
    case True
    then obtain rmdir where rm: "op_rmdir (Path_ops f) = Some rmdir" using assms by (auto simp: replace_file_def bind_eq_Some_conv)
    obtain r0 st0 where 0: "err_call f (\<lambda>s. rmdir s (Desc_PosixPath d)) st = (r0, st0)" by (metis prod.collapse)
    note st0 = err_keeps [OF 0 path_ops(8) [OF rm]]
    obtain r1 st1 where 1: "err_call f (\<lambda>s. rename s hidden (Desc_PosixPath d)) st0 = (r1, st1)" by (metis prod.collapse)
    show ?thesis
    proof (cases "r0 = STATUS_SUCCESS")
      case ok: True
      show ?thesis using assms ops rm True 0 1 ok
        by (intro that [OF moved_0_trans [OF st0 keep [OF 1]], of r1]) (simp add: replace_file_def)
    next
      case False
      then show ?thesis using assms ops rm True 0 by (intro that [OF st0, of r0]) (simp add: replace_file_def)
    qed
  qed
  then show ?thesis
    using moved_0_trans [OF 1(1) call_state_keeps [OF path_ops(7) [OF ops(2)]]] by (auto split: if_splits)
qed

text \<open>A file that becomes a reparse point is released; the layer keeps its own memory.\<close>

lemma make_moves:
  assumes "make_reparse_point f uuid d mk st = Some (r, d', st')" "releasable f" "\<not> IsReparsePoint d"
    "\<And>hidden st r st'. mk hidden st = Some (r, st') \<Longrightarrow> moved Held 0 0 st st'"
  shows "moved Held (holds K d' - holds K d) 0 st st'"
proof -
  have rel: "moved Held (- tally (K directory p (Fi_flags fi) (Fi_fh fi))) 0 st (release_file f directory p fi st)" for directory p fi st
    using assms(2) by (intro release_releases) (auto simp: releasable_def)
  show ?thesis
    using assms(1,3) unfolding make_reparse_point_def
    by (auto simp: moved_def bind_eq_Some_conv holds_def desc_fi_def rel [unfolded moved_def] split: prod.splits sum.splits if_splits
        dest!: hidden_moves assms(4) replace_keeps)
qed

lemma set_link_moves:
  assumes "set_link f uuid n d input i st = Some (r, d', st')" "releasable f" "\<not> IsReparsePoint d"
  shows "moved Held (holds K d' - holds K d) 0 st st'"
proof -
  have link: "moved Held 0 0 st st'"
    if "do { symlink \<leftarrow> op_symlink (Path_ops f); Some (err_call f (\<lambda>s. symlink who s target hidden) st) } = Some (r, st')" for who target hidden st r st'
    using that by (auto simp: bind_eq_Some_conv path_ops dest!: err_keeps)
  show ?thesis
    using assms(1) unfolding set_link_def
    by (auto split: option.split_asm sum.split_asm dest!: make_moves [OF _ assms(2,3) link] simp: moved_def)
qed

lemma set_node_moves:
  assumes "set_node f uuid d input i st = Some (r, d', st')" "releasable f" "\<not> IsReparsePoint d"
  shows "moved Held (holds K d' - holds K d) 0 st st'"
proof -
  have node: "moved Held 0 0 st st'"
    if "do { mknod \<leftarrow> op_mknod (Path_ops f); Some (err_call f (\<lambda>s. mknod who s hidden mode Dev) st) } = Some (r, st')" for who mode Dev hidden st r st'
    using that by (auto simp: bind_eq_Some_conv path_ops dest!: err_keeps)
  show ?thesis
    using assms(1) unfolding set_node_def
    by (auto split: option.split_asm prod.split_asm dest!: make_moves [OF _ assms(2,3) node])
qed

lemma set_reparse_moves:
  assumes "fsp_fuse_intf_SetReparsePoint f uuid n d input st = Some (r, d', st')" "releasable f" "\<not> IsReparsePoint d"
  shows "moved Held (holds K d' - holds K d) 0 st st'"
  using assms(1) unfolding fsp_fuse_intf_SetReparsePoint_def Let_def
  by (auto split: if_split_asm sum.split_asm prod.split_asm dest!: desc_info_keeps
      dest: set_link_moves [OF _ assms(2,3)] set_node_moves [OF _ assms(2,3)] intro: moved_0_trans)

end

end
