(* ===== verification/FuseDir.thy ===== *)
theory FuseDir
  imports FuseName
begin

text \<open>
  The listing of directories of the FUSE layer (\<open>src/dll/fuse/fuse_intf.c\<close>): the names that \<open>readdir\<close> gives fill a
  directory buffer, then the buffer is walked to ask for the information of each file and to decode its name.
  \<open>None\<close> is an access outside memory or a wait on a lock that is held.
\<close>

section \<open>Entries\<close>

text \<open>The 72 bytes of \<open>FSP_FSCTL_FILE_INFO\<close>, and an \<open>FSP_FSCTL_DIR_INFO\<close>; its \<open>Padding[0]\<close> is at 80.\<close>

definition file_info_bytes :: "file_info \<Rightarrow> bytes" where
  "file_info_bytes i =
     le_enc 4 (Info_FileAttributes i) @ le_enc 4 (Info_ReparseTag i) @ le_enc 8 (Info_AllocationSize i) @
     le_enc 8 (Info_FileSize i) @ le_enc 8 (Info_CreationTime i) @ le_enc 8 (Info_LastAccessTime i) @
     le_enc 8 (Info_LastWriteTime i) @ le_enc 8 (Info_ChangeTime i) @ le_enc 8 (Info_IndexNumber i) @
     le_enc 4 (Info_HardLinks i) @ le_enc 4 (Info_EaSize i)"

definition dir_info_bytes :: "bytes \<Rightarrow> bool \<Rightarrow> wstr \<Rightarrow> bytes" where
  "dir_info_bytes info filled w =
     le_enc 2 (of_nat (104 + 2 * length w) :: u16) @ replicate 6 0 @ info @
     (if filled then 1 else 0) # replicate 23 0 @ wstr_bytes w"

text \<open>The information that comes with a name; a link is looked at later, because it may lead to a directory.\<close>

definition readdir_plus :: "'s fuse \<Rightarrow> bytes \<Rightarrow> fuse_stat option \<Rightarrow> 's fuse_state \<Rightarrow> file_info option" where
  "readdir_plus f name stbufp st =
     (case stbufp of
        None \<Rightarrow> None
      | Some stbuf \<Rightarrow>
          if bit (conn_want f) FSP_FUSE_CAP_READDIR_PLUS \<and> St_mode stbuf AND S_IFMT \<noteq> S_IFLNK then
            (case fst (fsp_fuse_intf_GetFileInfoFunnel f name None stbufp (Some (fsp_fuse_intf_CheckSymlinkDirectory f name)) st) of
               Inl _ \<Rightarrow> None
             | Inr i \<Rightarrow> Some (FI_Info i))
          else None)"

text \<open>The name of an entry in characters of Windows; \<open>None\<close> is an entry that is passed over.\<close>

definition entry_name :: "'s fuse \<Rightarrow> fuse_file_desc \<Rightarrow> bytes \<Rightarrow> wstr option" where
  "entry_name f d name =
     (if Desc_PosixPath d = [0x2f] \<and> is_dots name then None
      else if length name > 255 * 4 then None
      else if name = [] then None
      else case Utf8_to_wide (Host f) name of
        None \<Rightarrow> None
      | Some w \<Rightarrow> if w = [] \<or> length w > 255 then None else Some w)"

text \<open>The first result tells that the listing shall stop; \<open>Result\<close> is \<open>dh->Result\<close>.\<close>

definition fsp_fuse_intf_AddDirInfo ::
  "'s fuse \<Rightarrow> heap_env \<Rightarrow> fuse_file_desc \<Rightarrow> dir_entry \<Rightarrow> 's fuse_state \<Rightarrow> ntstatus \<Rightarrow> dirbuf \<Rightarrow>
   (bool \<times> ntstatus \<times> dirbuf) option" where
  "fsp_fuse_intf_AddDirInfo f h d e st Result db =
     (case entry_name f d (fst e) of
        None \<Rightarrow> Some (False, Result, db)
      | Some w \<Rightarrow>
          let info = (case readdir_plus f (fst e) (snd e) st of
              None \<Rightarrow> dir_info_bytes (replicate 72 0) False w
            | Some i \<Rightarrow> dir_info_bytes (file_info_bytes i) True w)
          in do {
            ((Result, ok), db) \<leftarrow> FspFileSystemFillDirectoryBuffer h (Some info) db;
            Some (\<not> ok, Result, db) })"

text \<open>\<open>fsp_fuse_intf_AddDirInfoOld\<close>, for \<open>getdir\<close>, has no information about the files.\<close>

definition filler_entries :: "'s fuse \<Rightarrow> dir_entry list \<Rightarrow> dir_entry list" where
  "filler_entries f entries =
     (if op_readdir (File_ops f) = None then map (\<lambda>e. (fst e, None)) entries else entries)"

text \<open>The calls that \<open>readdir\<close> makes, until one tells it to stop, and their number.\<close>

fun add_dir_infos ::
  "'s fuse \<Rightarrow> heap_env \<Rightarrow> fuse_file_desc \<Rightarrow> dir_entry list \<Rightarrow> 's fuse_state \<Rightarrow> nat \<Rightarrow> ntstatus \<Rightarrow> dirbuf \<Rightarrow>
   (nat \<times> ntstatus \<times> dirbuf) option" where
  "add_dir_infos f h d [] st n Result db = Some (n, Result, db)"
| "add_dir_infos f h d (e # es) st n Result db = do {
     (stop, Result, db) \<leftarrow> fsp_fuse_intf_AddDirInfo f h d e st Result db;
     if stop then Some (n + 1, Result, db) else add_dir_infos f h d es st (n + 1) Result db }"

section \<open>The information of the files\<close>

text \<open>The end of the parent of a path, from a position in the path down.\<close>

fun parent_end :: "bytes \<Rightarrow> nat \<Rightarrow> nat" where
  "parent_end p 0 = 0"
| "parent_end p (Suc i) = (if p ! Suc i \<noteq> 0x2f then parent_end p i else Suc i)"

text \<open>The path of an entry of a directory: the directory, its parent, or the name in the directory.\<close>

definition entry_path :: "'s fuse \<Rightarrow> bytes \<Rightarrow> wstr \<Rightarrow> bytes option" where
  "entry_path f p w =
     (let parent = (if 1 < length p then p @ [0x2f] else p)
      in if w = [0x2e] then Some p
         else if w = [0x2e, 0x2e] then
           (let i = parent_end (p @ [0]) (if 1 < length p then length p - 1 else length p)
            in Some (take (if i = 0 then 1 else i) parent))
         else if w = [] then None
         else case Wide_to_utf8 (Host f) w of
           None \<Rightarrow> None
         | Some name \<Rightarrow>
             if name = [] \<or> length name > 255 * 4 then None
             else Some (takeWhile (\<lambda>c. c \<noteq> 0) (parent @ name)))"

text \<open>The entry \<open>info\<close> at \<open>a\<close> after its turn, with its index element; \<open>Inl\<close> ends the walk.\<close>

definition fix_entry :: "'s fuse \<Rightarrow> bytes \<Rightarrow> u32 \<Rightarrow> bytes \<Rightarrow> 's fuse_state \<Rightarrow> (ntstatus + u32 \<times> bytes) \<times> 's fuse_state" where
  "fix_entry f p a info st =
     (let w = DirInfo_FileName info;
          name = wstr_bytes (FspPosixDecodeWindowsPath w (length w));
          odd = drop (104 + 2 * length w) info
      in if info ! 80 \<noteq> 0 then (Inr (a, take 80 info @ 0 # take 23 (drop 81 info) @ name @ odd), st)
         else case entry_path f p w of
           None \<Rightarrow> (Inl STATUS_OBJECT_NAME_INVALID, st)
         | Some path \<Rightarrow>
             (case fsp_fuse_intf_GetFileInfoEx f path None st of
                (Inl _, st) \<Rightarrow> (Inr (FspFileSystemDirectoryBufferEntryInvalid, take 104 info @ name @ odd), st)
              | (Inr i, st) \<Rightarrow>
                  (Inr (a, take 8 info @ file_info_bytes (FI_Info i) @ take 24 (drop 80 info) @ name @ odd), st)))"

text \<open>The walk over the index \<open>as\<close> of the buffer \<open>buf\<close>.\<close>

fun fix_loop ::
  "'s fuse \<Rightarrow> bytes \<Rightarrow> u32 list \<Rightarrow> bytes \<Rightarrow> 's fuse_state \<Rightarrow> (ntstatus \<times> u32 list \<times> bytes \<times> 's fuse_state) option" where
  "fix_loop f p [] buf st = Some (STATUS_SUCCESS, [], buf, st)"
| "fix_loop f p (a # as) buf st = do {
     size \<leftarrow> get16 buf (unat a);
     if unat size < 104 then None
     else do {
       info \<leftarrow> buf_slice buf (unat a) (unat size);
       case fix_entry f p a info st of
         (Inl Result, st) \<Rightarrow> Some (Result, a # as, buf, st)
       | (Inr (a', info), st) \<Rightarrow> do {
           buf \<leftarrow> buf_put buf (unat a) info;
           (Result, as', buf, st) \<leftarrow> fix_loop f p as buf st;
           Some (Result, a' # as', buf, st) } } }"

definition fsp_fuse_intf_FixDirInfo ::
  "'s fuse \<Rightarrow> fuse_file_desc \<Rightarrow> dirbuf \<Rightarrow> 's fuse_state \<Rightarrow> (ntstatus \<times> dirbuf \<times> 's fuse_state) option" where
  "fsp_fuse_intf_FixDirInfo f d db st =
     (case fuse_alloc f (length (Desc_PosixPath d) + 1 + 255 * 4 + 1) st of
        None \<Rightarrow> Some (STATUS_INSUFFICIENT_RESOURCES, db, st)
      | Some st \<Rightarrow>
          let (buf, index, Count) = FspFileSystemPeekInDirectoryBuffer db
          in do {
            (Result, index, buf, st) \<leftarrow> fix_loop f (Desc_PosixPath d) index buf st;
            buf \<leftarrow> buf_put buf (unat (HiMark db)) (bytes32 index);
            Some (Result, db\<lparr>Buffer := map_option (\<lambda>_. buf) (Buffer db)\<rparr>, fuse_free st) })"

section \<open>Listing a directory\<close>

text \<open>The part that runs with the buffer held: the calls of the file system and the walk.\<close>

definition fill_directory ::
  "'s fuse \<Rightarrow> heap_env \<Rightarrow> fuse_file_desc \<Rightarrow> dirbuf \<Rightarrow> 's fuse_state \<Rightarrow> (ntstatus \<times> dirbuf \<times> 's fuse_state) option" where
  "fill_directory f h d db st =
     (case list_directory f d of
        None \<Rightarrow> Some (STATUS_INVALID_DEVICE_REQUEST, db, st)
      | Some readdir \<Rightarrow> do {
          let (entries, answer) = readdir (Fuse_Fs st);
          (n, dh_Result, db) \<leftarrow> add_dir_infos f h d (filler_entries f entries) st 0 STATUS_SUCCESS db;
          let (err, s) = answer n;
          let st = st\<lparr>Fuse_Fs := s\<rparr>;
          let Result = fsp_fuse_ntstatus_from_errno f err;
          if \<not> NT_SUCCESS Result then Some (Result, db, st)
          else if \<not> NT_SUCCESS dh_Result then Some (dh_Result, db, st)
          else fsp_fuse_intf_FixDirInfo f d db st })"

text \<open>
  \<open>Out\<close> is the output with \<open>Len\<close> bytes to use, \<open>bt\<close> is \<open>*PBytesTransferred\<close>; the structure of a directory buffer
  is allocated with \<open>struct_size\<close> bytes.
\<close>

definition fsp_fuse_intf_ReadDirectory ::
  "'s fuse \<Rightarrow> heap_env \<Rightarrow> nat \<Rightarrow> fuse_file_desc \<Rightarrow> wstr option \<Rightarrow> bytes \<Rightarrow> u32 \<Rightarrow> u32 \<Rightarrow> 's fuse_state \<Rightarrow>
   ((ntstatus \<times> bytes \<times> u32) \<times> fuse_file_desc \<times> 's fuse_state) option" where
  "fsp_fuse_intf_ReadDirectory f h struct_size d Marker Out Len bt st =
     (if \<not> IsDirectory d \<or> IsReparsePoint d then Some ((STATUS_ACCESS_DENIED, Out, bt), d, st)
      else do {
        ((Result, acquired), dbp) \<leftarrow>
          FspFileSystemAcquireDirectoryBuffer h struct_size (DirBuffer d) (DirBuffer d) (Marker = None);
        (Result, dbp, st) \<leftarrow>
          (case (acquired, dbp) of
             (True, Some db) \<Rightarrow> do {
               (Result, db, st) \<leftarrow> fill_directory f h d db st;
               db \<leftarrow> FspFileSystemReleaseDirectoryBuffer db;
               Some (Result, Some db, st) }
           | _ \<Rightarrow> Some (Result, dbp, st));
        let d = d\<lparr>DirBuffer := dbp\<rparr>;
        if \<not> NT_SUCCESS Result then Some ((Result, Out, bt), d, st)
        else do {
          (Out, bt) \<leftarrow> FspFileSystemReadDirectoryBuffer dbp Marker Out Len bt;
          Some ((STATUS_SUCCESS, Out, bt), d, st) } })"

section \<open>One entry by its name\<close>

text \<open>The part of a name behind its last backslash.\<close>

definition windows_basename :: "wstr \<Rightarrow> wstr" where
  "windows_basename w = rev (takeWhile (\<lambda>c. c \<noteq> 0x5c) (rev w))"

text \<open>The name that the file system has for a file, where case does not count.\<close>

definition normalized_name :: "'s fuse \<Rightarrow> bytes \<Rightarrow> 's fuse_state \<Rightarrow> wstr option \<times> 's fuse_state" where
  "normalized_name f path st =
     (case (CaseSensitiveSearch f, op_getpath (Path_ops f)) of
        (False, Some getpath) \<Rightarrow>
          let ((err, p), st) = fuse_call (\<lambda>s. getpath s path 1024 None) st
          in if err \<noteq> 0 then (None, st)
             else (case FspPosixMapPosixToWindowsPath f (takeWhile (\<lambda>c. c \<noteq> 0) p) st of
                 (Inl _, st) \<Rightarrow> (None, st)
               | (Inr w, st) \<Rightarrow>
                   let name = windows_basename w
                   in (if 2 * length name \<le> 2 * unat (MaxComponentLength f) then Some name else None, fuse_free st))
      | _ \<Rightarrow> (None, st))"

text \<open>\<open>*DirInfo\<close> is the memory \<open>memory\<close>; only the size, the information and the name are written.\<close>

definition fsp_fuse_intf_GetDirInfoByName ::
  "'s fuse \<Rightarrow> fuse_file_desc \<Rightarrow> wstr \<Rightarrow> bytes \<Rightarrow> 's fuse_state \<Rightarrow> ((ntstatus \<times> bytes) \<times> 's fuse_state) option" where
  "fsp_fuse_intf_GetDirInfoByName f d FileName memory st =
     (if \<not> IsDirectory d \<or> IsReparsePoint d then Some ((STATUS_ACCESS_DENIED, memory), st)
      else case FspPosixMapWindowsToPosixPath f FileName st of
        (Inl _, st) \<Rightarrow> Some ((STATUS_OBJECT_NAME_NOT_FOUND, memory), st)
      | (Inr name, st) \<Rightarrow>
          let p = Desc_PosixPath d; slash = (if 1 < length p then [0x2f] else [])
          in if 2048 \<le> (length p + length slash + length name) * 2
             then Some ((STATUS_OBJECT_NAME_NOT_FOUND, memory), fuse_free st)
             else
               let path = p @ slash @ name; (r, st) = fsp_fuse_intf_GetFileInfoEx f path None st
               in (case r of
                   Inl _ \<Rightarrow> Some ((STATUS_OBJECT_NAME_NOT_FOUND, memory), fuse_free st)
                 | Inr i \<Rightarrow>
                     let (normal, st) = normalized_name f path st;
                         name = (case normal of Some w \<Rightarrow> w | None \<Rightarrow> FileName);
                         Size = (of_nat (104 + 2 * length name) :: u16)
                     in if unat Size < 104 then None
                     else do {
                       memory \<leftarrow> buf_put memory 8 (file_info_bytes (FI_Info i));
                       memory \<leftarrow> buf_put memory 0 (le_enc 2 Size);
                       memory \<leftarrow> buf_put memory 104 (wstr_bytes (take ((unat Size - 104) div 2) name));
                       Some ((STATUS_SUCCESS, memory), fuse_free st) }))"

end
