(* ===== verification/FuseLife.thy ===== *)
theory FuseLife
  imports FuseHolds FuseDir SecuritySpec
begin

text \<open>
  The life of an open file of the FUSE layer: the request that opens it, the operations on it in any order, its close;
  on any file system, beside whose state a log keeps what was opened and released.
\<close>

section \<open>Logging the files that any file system opens\<close>

text \<open>
  What is logged: a file opened or released, by its kind (a directory or not), its path, and the flags and the handle
  that the file system gave it or gets back.
\<close>

datatype file_event = Opened_File bool bytes u32 u64 | Released_File bool bytes u32 u64

text \<open>The files of a class that a log has opened and not released.\<close>

fun event_tally :: "file_class \<Rightarrow> file_event \<Rightarrow> int" where
  "event_tally K (Opened_File directory p flags fh) = tally (K directory p flags fh)"
| "event_tally K (Released_File directory p flags fh) = - tally (K directory p flags fh)"

definition still_open :: "file_class \<Rightarrow> file_event list \<Rightarrow> int" where
  "still_open K log = sum_list (map (event_tally K) log)"

text \<open>A call with a log beside the state: \<open>release\<close> and \<open>releasedir\<close> log what they are called with.\<close>

definition log_keep :: "('s \<Rightarrow> 'a \<times> 's) \<Rightarrow> 's \<times> file_event list \<Rightarrow> 'a \<times> 's \<times> file_event list" where
  "log_keep op s = (let (r, s') = op (fst s) in (r, s', snd s))"

definition log_open ::
  "bool \<Rightarrow> bytes \<Rightarrow> ('s \<Rightarrow> (int \<times> fuse_file_info) \<times> 's) \<Rightarrow> 's \<times> file_event list \<Rightarrow>
   (int \<times> fuse_file_info) \<times> 's \<times> file_event list" where
  "log_open directory p op s =
     (let ((err, i), s') = op (fst s)
      in ((err, i), s', if err = 0 then snd s @ [Opened_File directory p (Fi_flags i) (Fi_fh i)] else snd s))"

definition log_release ::
  "bool \<Rightarrow> bytes \<Rightarrow> fuse_file_info \<Rightarrow> ('s \<Rightarrow> 'a \<times> 's) \<Rightarrow> 's \<times> file_event list \<Rightarrow> 'a \<times> 's \<times> file_event list" where
  "log_release directory p i op s =
     (let (r, s') = op (fst s) in (r, s', snd s @ [Released_File directory p (Fi_flags i) (Fi_fh i)]))"

text \<open>The file system \<open>f\<close> with the log.\<close>

definition logged_path_ops :: "'s fuse_path_operations \<Rightarrow> ('s \<times> file_event list) fuse_path_operations" where
  "logged_path_ops ops = \<lparr>
     op_getattr = map_option (\<lambda>g s p. log_keep (\<lambda>s. g s p) s) (op_getattr ops),
     op_readlink = map_option (\<lambda>g s p n. log_keep (\<lambda>s. g s p n) s) (op_readlink ops),
     op_getpath = map_option (\<lambda>g s p n i. log_keep (\<lambda>s. g s p n i) s) (op_getpath ops),
     op_mknod = map_option (\<lambda>g w s p m d. log_keep (\<lambda>s. g w s p m d) s) (op_mknod ops),
     op_mkdir = map_option (\<lambda>g s p m. log_keep (\<lambda>s. g s p m) s) (op_mkdir ops),
     op_symlink = map_option (\<lambda>g w s p q. log_keep (\<lambda>s. g w s p q) s) (op_symlink ops),
     op_unlink = map_option (\<lambda>g s p. log_keep (\<lambda>s. g s p) s) (op_unlink ops),
     op_rmdir = map_option (\<lambda>g s p. log_keep (\<lambda>s. g s p) s) (op_rmdir ops),
     op_rename = map_option (\<lambda>g s p q. log_keep (\<lambda>s. g s p q) s) (op_rename ops),
     op_chmod = map_option (\<lambda>g s p m. log_keep (\<lambda>s. g s p m) s) (op_chmod ops),
     op_chown = map_option (\<lambda>g s p u v. log_keep (\<lambda>s. g s p u v) s) (op_chown ops),
     op_truncate = map_option (\<lambda>g s p n. log_keep (\<lambda>s. g s p n) s) (op_truncate ops),
     op_utimens = map_option (\<lambda>g s p a w. log_keep (\<lambda>s. g s p a w) s) (op_utimens ops),
     op_utime = map_option (\<lambda>g s p a w. log_keep (\<lambda>s. g s p a w) s) (op_utime ops),
     op_setcrtime = map_option (\<lambda>g s p t. log_keep (\<lambda>s. g s p t) s) (op_setcrtime ops),
     op_setchgtime = map_option (\<lambda>g s p t. log_keep (\<lambda>s. g s p t) s) (op_setchgtime ops),
     op_chflags = map_option (\<lambda>g s p m. log_keep (\<lambda>s. g s p m) s) (op_chflags ops),
     op_access = map_option (\<lambda>g s p m. log_keep (\<lambda>s. g s p m) s) (op_access ops),
     op_statfs = map_option (\<lambda>g s p. log_keep (\<lambda>s. g s p) s) (op_statfs ops),
     op_listxattr = map_option (\<lambda>g s p n. log_keep (\<lambda>s. g s p n) s) (op_listxattr ops),
     op_getxattr = map_option (\<lambda>g s p q n. log_keep (\<lambda>s. g s p q n) s) (op_getxattr ops),
     op_setxattr = map_option (\<lambda>g s p q v. log_keep (\<lambda>s. g s p q v) s) (op_setxattr ops),
     op_removexattr = map_option (\<lambda>g s p q. log_keep (\<lambda>s. g s p q) s) (op_removexattr ops),
     op_getdir = map_option (\<lambda>g s p. (fst (g (fst s) p), \<lambda>k. log_keep (\<lambda>s. snd (g s p) k) s)) (op_getdir ops)\<rparr>"

definition logged_file_ops :: "'s fuse_file_operations \<Rightarrow> ('s \<times> file_event list) fuse_file_operations" where
  "logged_file_ops ops = \<lparr>
     op_fgetattr = map_option (\<lambda>g s p i. log_keep (\<lambda>s. g s p i) s) (op_fgetattr ops),
     op_create = map_option (\<lambda>g s p m i. log_open False p (\<lambda>s. g s p m i) s) (op_create ops),
     op_open = map_option (\<lambda>g s p i. log_open False p (\<lambda>s. g s p i) s) (op_open ops),
     op_opendir = map_option (\<lambda>g s p i. log_open True p (\<lambda>s. g s p i) s) (op_opendir ops),
     op_release = map_option (\<lambda>g s p i. log_release False p i (\<lambda>s. g s p i) s) (op_release ops),
     op_releasedir = map_option (\<lambda>g s p i. log_release True p i (\<lambda>s. g s p i) s) (op_releasedir ops),
     op_flush = map_option (\<lambda>g s p i. log_keep (\<lambda>s. g s p i) s) (op_flush ops),
     op_fsync = map_option (\<lambda>g s p i. log_keep (\<lambda>s. g s p i) s) (op_fsync ops),
     op_fsyncdir = map_option (\<lambda>g s p i. log_keep (\<lambda>s. g s p i) s) (op_fsyncdir ops),
     op_ftruncate = map_option (\<lambda>g s p n i. log_keep (\<lambda>s. g s p n i) s) (op_ftruncate ops),
     op_read = map_option (\<lambda>g s p n off i. log_keep (\<lambda>s. g s p n off i) s) (op_read ops),
     op_write = map_option (\<lambda>g s p q off i. log_keep (\<lambda>s. g s p q off i) s) (op_write ops),
     op_readdir = map_option (\<lambda>g s p i. (fst (g (fst s) p i), \<lambda>k. log_keep (\<lambda>s. snd (g s p i) k) s)) (op_readdir ops),
     op_ioctl = map_option (\<lambda>g s p c i q. log_keep (\<lambda>s. g s p c i q) s) (op_ioctl ops)\<rparr>"

definition logged :: "'s fuse \<Rightarrow> ('s \<times> file_event list) fuse" where
  "logged f = \<lparr>Host = Host f, Path_ops = logged_path_ops (Path_ops f), File_ops = logged_file_ops (File_ops f),
     Cygwin = Cygwin f, set_umask = set_umask f, set_create_umask = set_create_umask f,
     set_create_file_umask = set_create_file_umask f, set_create_dir_umask = set_create_dir_umask f,
     set_uid = set_uid f, set_gid = set_gid f, add_write_ea_access = add_write_ea_access f, rellinks = rellinks f,
     dothidden = dothidden f, conn_want = conn_want f, has_symlinks = has_symlinks f, has_slashdot = has_slashdot f,
     FlushOnCleanup = FlushOnCleanup f, SectorSize = SectorSize f, SectorsPerAllocationUnit = SectorsPerAllocationUnit f,
     CaseSensitiveSearch = CaseSensitiveSearch f, MaxComponentLength = MaxComponentLength f, Label = Label f,
     FileSecurity = FileSecurity f\<rparr>"

lemma log_laws:
  "keeps (\<lambda>s. still_open K (snd s)) (log_keep op)"
  "opens (\<lambda>s. still_open K (snd s)) (K directory p) (log_open directory p op')"
  "releases (\<lambda>s. still_open K (snd s)) (K directory p (Fi_flags i) (Fi_fh i)) (log_release directory p i op)"
  by (simp_all add: keeps_def opens_def releases_def log_keep_def log_open_def log_release_def still_open_def case_prod_beta)

interpretation logged: fuse_resources "logged f" "\<lambda>s. still_open K (snd s)" K for f :: "'s fuse" and K
  by unfold_locales
    (auto simp: logged_def logged_path_ops_def logged_file_ops_def log_laws keeps_def log_keep_def case_prod_unfold Let_def)

section \<open>A request that opens a file\<close>

text \<open>
  The dispatcher enters, runs the operation and leaves (\<open>FspFileSystemDispatcherThread\<close>); an operation that is not
  entered is not left.
\<close>

definition fuse_request where
  "fuse_request f get pid ctx0 Request op st =
     (case fsp_fuse_op_enter f get pid ctx0 Request st of
        None \<Rightarrow> None
      | Some (Inl Result, Request, st) \<Rightarrow> Some (Inl Result, Request, st)
      | Some (Inr ctx, Request, st) \<Rightarrow>
          (case op ctx st of
             None \<Rightarrow> None
           | Some (r, ctx, st) \<Rightarrow> Some (r, Request, snd (fsp_fuse_op_leave ctx st))))"

context fuse_resources
begin

lemma enter_moves:
  assumes "fsp_fuse_op_enter f get pid ctx0 Request st = Some (r, Request', st')"
  shows "moved Held 0 (case r of Inl _ \<Rightarrow> 0 | Inr ctx \<Rightarrow> if Ctx_PosixPath ctx = None then 0 else 1) st st'"
proof -
  obtain FileName Token Request1 Suffix where n: "op_name Request = Some (FileName, Token, Request1, Suffix)"
    using assms by (auto simp: fsp_fuse_op_enter_def split: option.splits)
  obtain q st1 where q: "(case FileName of None \<Rightarrow> (Inr None, st)
      | Some name \<Rightarrow> (let (r, st) = FspPosixMapWindowsToPosixPath f name st in (map_sum id Some r, st))) = (q, st1)"
    by (metis prod.collapse)
  have "moved Held 0 (case q of Inr (Some _) \<Rightarrow> 1 | _ \<Rightarrow> 0) st st1"
    using q by (auto split: option.splits prod.splits sum.splits dest!: to_posix_moves)
  then show ?thesis
    using assms n q unfolding fsp_fuse_op_enter_def n option.case prod.case q Let_def
    by (cases q; cases "token_uidgid get Token"; cases ctx0)
      (auto simp: moved_def split: option.splits prod.splits if_splits)
qed

lemma leave_moves: "moved Held 0 (if Ctx_PosixPath ctx = None then 0 else - 1) st (snd (fsp_fuse_op_leave ctx st))"
  by (simp add: fsp_fuse_op_leave_def moved_def)

lemma request_effect:
  assumes "fuse_request f get pid ctx0 Request op st = Some (r, Request', st')"
    "\<And>ctx st r ctx' st'. op ctx st = Some (r, ctx', st') \<Longrightarrow> open_effect kind ctx r ctx' st st'"
  shows "case r of Inl _ \<Rightarrow> moved Held 0 0 st st'
    | Inr opened \<Rightarrow> moved Held (holds K (as_kind kind (Opened_Desc opened))) 2 st st'"
proof -
  obtain e Request1 st1 where e: "fsp_fuse_op_enter f get pid ctx0 Request st = Some (e, Request1, st1)"
    using assms(1) by (auto simp: fuse_request_def split: option.splits)
  show ?thesis
  proof (cases e)
    case (Inl R)
    then show ?thesis using assms(1) e enter_moves [OF e] by (auto simp: fuse_request_def)
  next
    case (Inr ctx)
    obtain ctx2 st2 where o: "op ctx st1 = Some (r, ctx2, st2)" and st': "st' = snd (fsp_fuse_op_leave ctx2 st2)"
      using assms(1) Inr e by (auto simp: fuse_request_def split: option.splits)
    show ?thesis
      using enter_moves [OF e] assms(2) [OF o] leave_moves [of ctx2 st2] Inr
      by (cases r) (auto simp: open_effect_def moved_def st')
  qed
qed

end

lemma enter_restores:
  assumes "fsp_fuse_op_enter f get pid ctx0 Request st = Some (r, Request', st')"
    "\<And>req. Request = Create_Request req \<Longrightarrow> 0 \<in> set (Name_Buffer req)"
  shows "Request' = Request"
proof -
  obtain FileName Token Request1 Suffix where n: "op_name Request = Some (FileName, Token, Request1, Suffix)"
    using assms by (auto simp: fsp_fuse_op_enter_def split: option.splits)
  have join: "join_name Request1 Suffix = Request"
    using n assms(2) suffix_restores
    by (fastforce simp: op_name_def join_name_def bind_eq_Some_conv split: request.splits if_splits)
  show ?thesis
    using assms(1) join unfolding fsp_fuse_op_enter_def n option.case prod.case Let_def
    by (auto split: option.splits prod.splits sum.splits if_splits)
qed

lemma request_restores:
  assumes "fuse_request f get pid ctx0 Request op st = Some (r, Request', st')"
    "\<And>req. Request = Create_Request req \<Longrightarrow> 0 \<in> set (Name_Buffer req)"
  shows "Request' = Request"
  using assms(1) enter_restores [OF _ assms(2)]
  by (auto simp: fuse_request_def split: option.splits sum.splits)

section \<open>The life of an open file\<close>

text \<open>
  What the operations do to an open file, in any order. A file that is a reparse point already is not made one again:
  the code would release it although it is not open.
\<close>

inductive file_op :: "'s fuse \<Rightarrow> fuse_file_desc \<Rightarrow> 's fuse_state \<Rightarrow> fuse_file_desc \<Rightarrow> 's fuse_state \<Rightarrow> bool" for f d st where
  Read: "fsp_fuse_intf_Read f d off len st = (r, st') \<Longrightarrow> file_op f d st d st'"
| Write: "fsp_fuse_intf_Write f d q off eof con st = (r, st') \<Longrightarrow> file_op f d st d st'"
| Flush: "fsp_fuse_intf_Flush f (Some d) st = (r, st') \<Longrightarrow> file_op f d st d st'"
| GetFileInfo: "fsp_fuse_intf_GetFileInfo f d st = (r, st') \<Longrightarrow> file_op f d st d st'"
| SetBasicInfo: "fsp_fuse_intf_SetBasicInfo f d a c la lw ch st = (r, st') \<Longrightarrow> file_op f d st d st'"
| SetFileSize: "fsp_fuse_intf_SetFileSize f d n alloc st = (r, st') \<Longrightarrow> file_op f d st d st'"
| Overwrite: "fsp_fuse_intf_Overwrite f fi0 d a ea st = Some (r, st') \<Longrightarrow> file_op f d st d st'"
| CanDelete: "fsp_fuse_intf_CanDelete f d st = (r, st') \<Longrightarrow> file_op f d st d st'"
| Rename: "fsp_fuse_intf_Rename f ctx d n n' rep st = Some (r, st') \<Longrightarrow> file_op f d st d st'"
| GetSecurity: "fsp_fuse_intf_GetSecurity f d lim st = Some (r, st') \<Longrightarrow> file_op f d st d st'"
| SetSecurity: "fsp_fuse_intf_SetSecurity f stack modify d st = Some (r, st') \<Longrightarrow> file_op f d st d st'"
| GetReparsePoint: "fsp_fuse_intf_GetReparsePoint f d buffer st = (r, st') \<Longrightarrow> file_op f d st d st'"
| SetReparsePoint: "fsp_fuse_intf_SetReparsePoint f uuid on_fs d input st = Some (r, d', st') \<Longrightarrow> \<not> IsReparsePoint d \<Longrightarrow> file_op f d st d' st'"
| Control: "fsp_fuse_intf_Control f d code q n memory st = (r, st') \<Longrightarrow> file_op f d st d st'"
| GetEa: "fsp_fuse_intf_GetEa f d b n st = Some (r, w, st') \<Longrightarrow> file_op f d st d st'"
| SetEa: "fsp_fuse_intf_SetEa f d b n st = Some (r, st') \<Longrightarrow> file_op f d st d st'"
| ReadDirectory: "fsp_fuse_intf_ReadDirectory f h n d Marker b len bt st = Some (r, d', st') \<Longrightarrow> file_op f d st d' st'"
| GetDirInfoByName: "fsp_fuse_intf_GetDirInfoByName f d name memory st = Some (r, st') \<Longrightarrow> file_op f d st d st'"
| Cleanup: "file_op f d st d (fsp_fuse_intf_Cleanup f d Flags st)"

inductive file_life :: "'s fuse \<Rightarrow> fuse_file_desc \<Rightarrow> 's fuse_state \<Rightarrow> fuse_file_desc \<Rightarrow> 's fuse_state \<Rightarrow> bool" for f d st where
  Opened: "file_life f d st d st"
| Operated: "file_life f d st d1 st1 \<Longrightarrow> file_op f d1 st1 d2 st2 \<Longrightarrow> file_life f d st d2 st2"

context fuse_resources
begin

lemma fix_loop_keeps: "fix_loop f p as buf st = Some (R, as', buf', st') \<Longrightarrow> moved Held 0 0 st st'"
proof (induction as arbitrary: buf st as')
  case (Cons a as)
  have entry: "moved Held 0 0 st st1" if "fix_entry f p a info st = (x, st1)" for info x st1
    using that by (auto simp: fix_entry_def Let_def split: option.splits if_splits prod.splits sum.splits dest!: info_keeps)
  obtain info where "(case fix_entry f p a info st of
        (Inl R, st) \<Rightarrow> Some (R, a # as, buf, st)
      | (Inr (a', info), st) \<Rightarrow> do {
          buf \<leftarrow> buf_put buf (unat a) info;
          (R, as', buf, st) \<leftarrow> fix_loop f p as buf st;
          Some (R, a' # as', buf, st) }) = Some (R, as', buf', st')"
    using Cons.prems by (auto simp: bind_eq_Some_conv split: if_split_asm)
  then show ?case
    by (cases "fix_entry f p a info st"; cases "fst (fix_entry f p a info st)")
      (auto simp: bind_eq_Some_conv intro: entry moved_0_trans [OF entry Cons.IH])
qed simp

lemma fix_dir_info_keeps: "fsp_fuse_intf_FixDirInfo f d db st = Some (R, db', st') \<Longrightarrow> moved Held 0 0 st st'"
  by (auto simp: fsp_fuse_intf_FixDirInfo_def Let_def bind_eq_Some_conv moved_def FspFileSystemPeekInDirectoryBuffer_def
      split: option.split_asm dest!: fix_loop_keeps alloc_moves)

lemma fill_directory_keeps:
  assumes "fill_directory f h d db st = Some (R, db', st')"
  shows "moved Held 0 0 st st'"
proof (cases "list_directory f d")
  case (Some g)
  obtain es k where g: "g (Fuse_Fs st) = (es, k)" by fastforce
  have "moved Held 0 0 st (st\<lparr>Fuse_Fs := snd (k n)\<rparr>)" for n
    using list_keeps [OF Some g, of n "fst (k n)" "snd (k n)"] by (simp add: moved_def)
  with assms show ?thesis
    by (auto simp: fill_directory_def Some g Let_def bind_eq_Some_conv case_prod_beta split: if_split_asm
        dest: fix_dir_info_keeps intro: moved_0_trans)
qed (use assms in \<open>auto simp: fill_directory_def\<close>)

lemma read_directory_keeps:
  "fsp_fuse_intf_ReadDirectory f h n d Marker b len bt st = Some (r, d', st') \<Longrightarrow> moved Held 0 0 st st' \<and> holds K d' = holds K d"
  by (auto simp: fsp_fuse_intf_ReadDirectory_def Let_def bind_eq_Some_conv holds_def
      split: option.split_asm if_split_asm prod.split_asm bool.split_asm dest!: fill_directory_keeps)

lemma dir_info_keeps:
  assumes "fsp_fuse_intf_GetDirInfoByName f d name memory st = Some (r, st')"
  shows "moved Held 0 0 st st'"
proof -
  have normal: "moved Held 0 0 st st1" if "normalized_name f p st = (x, st1)" for p x st st1
    using that by (auto simp: normalized_name_def Let_def moved_def split: option.splits bool.splits prod.splits if_splits sum.splits
        dest!: call_keeps to_windows_moves simp: path_ops)
  show ?thesis
    using assms by (auto simp: fsp_fuse_intf_GetDirInfoByName_def Let_def bind_eq_Some_conv moved_def
        split: prod.split_asm sum.split_asm if_split_asm dest!: normal info_keeps to_posix_moves)
qed

lemma file_op_moves:
  assumes "file_op f d st d' st'" "releasable f"
  shows "moved Held (holds K d' - holds K d) 0 st st'"
  using assms
proof cases
  case GetSecurity
  then show ?thesis by (auto simp: fsp_fuse_intf_GetSecurity_def dest: security_keeps)
next
  case ReadDirectory
  from read_directory_keeps [OF this] show ?thesis by simp
qed (auto dest: read_keeps write_keeps flush_keeps file_info_keeps basic_info_keeps file_size_keeps overwrite_keeps
    can_delete_keeps rename_keeps set_security_keeps get_reparse_keeps set_reparse_moves control_keeps get_ea_keeps dir_info_keeps
    set_ea_keeps simp: cleanup_keeps)

lemma file_life_moves:
  assumes "file_life f d st d' st'" "releasable f"
  shows "moved Held (holds K d' - holds K d) 0 st st'"
  using assms
proof induction
  case (Operated d1 st1 d2 st2)
  then show ?case using file_op_moves [OF Operated.hyps(2)] by (simp add: moved_def)
qed simp

end

lemma releasable_logged: "releasable (logged f) \<longleftrightarrow> releasable f"
  by (simp add: releasable_def logged_def logged_file_ops_def)

end
