(* ===== verification/FuseBytes.thy ===== *)
theory FuseBytes
  imports FuseProps
begin

text \<open>
  An open file as an array of bytes: what reading, writing and setting the size mean, and what the FUSE layer needs
  of the file system so that its operations do that.
\<close>

section \<open>Arrays of bytes\<close>

text \<open>Bytes written at an offset, with zeros in between, and a new size.\<close>

definition overlay :: "bytes \<Rightarrow> nat \<Rightarrow> bytes \<Rightarrow> bytes" where
  "overlay c off q = take off c @ replicate (off - length c) 0 @ q @ drop (off + length q) c"

definition resized :: "bytes \<Rightarrow> nat \<Rightarrow> bytes" where
  "resized c n = take n c @ replicate (n - length c) 0"

text \<open>A write of Windows: at the end of the file, or, if it is constrained, never behind it.\<close>

definition write_bytes :: "bytes \<Rightarrow> nat \<Rightarrow> bytes \<Rightarrow> bool \<Rightarrow> bool \<Rightarrow> bytes" where
  "write_bytes c off q to_end constrained =
     (if constrained then (if off \<ge> length c then c else overlay c off (take (length c - off) q))
      else overlay c (if to_end then length c else off) q)"

definition size_bytes :: "bytes \<Rightarrow> nat \<Rightarrow> bool \<Rightarrow> bytes" where
  "size_bytes c n allocation = (if allocation \<and> n \<ge> length c then c else resized c n)"

lemma length_overlay [simp]: "length (overlay c off q) = max (length c) (off + length q)"
  by (simp add: overlay_def)

lemma length_resized [simp]: "length (resized c n) = n"
  by (simp add: resized_def)

section \<open>Files of a file system\<close>

text \<open>
  A file whose bytes are \<open>contents\<close>: it is a regular file of that size, and its operations read, write and resize
  them, as the FUSE file system interface says.
\<close>

definition byte_file :: "'s fuse \<Rightarrow> fuse_file_desc \<Rightarrow> ('s \<Rightarrow> bytes) \<Rightarrow> bool" where
  "byte_file f d contents \<longleftrightarrow>
     \<not> IsDirectory d \<and> \<not> IsReparsePoint d \<and>
     (\<forall>st. \<exists>stb st'. get_stat f (Desc_PosixPath d) (Some (desc_fi d)) st = (Inr stb, st') \<and>
        St_size stb = of_nat (length (contents (Fuse_Fs st))) \<and> St_mode stb AND S_IFMT = 0x8000 \<and>
        contents (Fuse_Fs st') = contents (Fuse_Fs st)) \<and>
     (\<exists>read. op_read (File_ops f) = Some read \<and>
        (\<forall>s n off. let q = take (unat n) (drop (unat off) (contents s))
           in fst (read s (Desc_PosixPath d) n off (desc_fi d)) = (int (length q), q) \<and>
             contents (snd (read s (Desc_PosixPath d) n off (desc_fi d))) = contents s)) \<and>
     (\<exists>write. op_write (File_ops f) = Some write \<and>
        (\<forall>s q off. q \<noteq> [] \<longrightarrow> fst (write s (Desc_PosixPath d) q off (desc_fi d)) = int (length q) \<and>
           contents (snd (write s (Desc_PosixPath d) q off (desc_fi d))) = overlay (contents s) (unat off) q)) \<and>
     (op_ftruncate (File_ops f) \<noteq> None \<or> op_truncate (Path_ops f) \<noteq> None) \<and>
     (\<forall>st n. fst (truncate_file f d n st) = STATUS_SUCCESS \<and>
        contents (Fuse_Fs (snd (truncate_file f d n st))) = resized (contents (Fuse_Fs st)) (unat n))"

lemma regular_mode: "m AND S_IFMT = 0x8000 \<Longrightarrow> (m AND S_IFMT OR 0x1ff AND NOT u) AND S_IFMT = 0x8000" for m u :: u32
proof -
  assume "m AND S_IFMT = 0x8000"
  moreover have "(0x1ff AND NOT u) AND S_IFMT = 0" by (simp add: and.assoc and.commute and.left_commute flip: and.assoc [of "0x1ff" "S_IFMT"])
  ultimately show ?thesis by (simp add: bit.conj_disj_distrib2)
qed

lemma byte_file_info:
  assumes "byte_file f d contents"
  obtains i st' where "desc_file_info f d st = (Inr i, st')" "Info_FileSize (FI_Info i) = of_nat (length (contents (Fuse_Fs st)))"
    "contents (Fuse_Fs st') = contents (Fuse_Fs st)"
proof -
  obtain stb st' where s: "get_stat f (Desc_PosixPath d) (Some (desc_fi d)) st = (Inr stb, st')"
      "St_size stb = of_nat (length (contents (Fuse_Fs st)))" "St_mode stb AND S_IFMT = 0x8000"
      "contents (Fuse_Fs st') = contents (Fuse_Fs st)" and "\<not> IsDirectory d"
    using assms unfolding byte_file_def by metis
  have m: "St_mode (override_stat f stb) AND S_IFMT = 0x8000"
    using regular_mode [OF s(3)] s(3) by (simp add: override_stat_def split: option.split)
  have "type_attributes f check (St_mode (override_stat f stb)) st' = ((0, 0), st')" for check
    by (simp add: type_attributes_def m)
  then show thesis
    using that s \<open>\<not> IsDirectory d\<close>
    by (simp add: desc_file_info_def FUSE_FILE_INFO_def fsp_fuse_intf_GetFileInfoEx_def fsp_fuse_intf_GetFileInfoFunnel_def Let_def
        fill_file_info_def override_stat_def)
qed

lemma word_of_unat: "unat x = n \<Longrightarrow> x = of_nat n" for x :: "'a :: len word"
  by auto

lemma unat_length: "n < 2 ^ 31 \<Longrightarrow> unat (ucast (of_nat n :: u32) :: u64) = n"
  by (simp add: unsigned_ucast_eq unsigned_of_nat take_bit_nat_eq_self)

section \<open>The operations\<close>

lemma read_refines:
  assumes "byte_file f d contents"
  shows "\<exists>st'. fsp_fuse_intf_Read f d off len st =
      (case take (unat len) (drop (unat off) (contents (Fuse_Fs st))) of [] \<Rightarrow> Inl STATUS_END_OF_FILE | q \<Rightarrow> Inr q, st') \<and>
    contents (Fuse_Fs st') = contents (Fuse_Fs st)"
proof -
  let ?q = "take (unat len) (drop (unat off) (contents (Fuse_Fs st)))"
  obtain read where "op_read (File_ops f) = Some read" and
    r: "fst (read s (Desc_PosixPath d) n off (desc_fi d)) =
        (int (length (take (unat n) (drop (unat off) (contents s)))), take (unat n) (drop (unat off) (contents s)))"
      "contents (snd (read s (Desc_PosixPath d) n off (desc_fi d))) = contents s" for s n off
    using assms unfolding byte_file_def Let_def by metis
  moreover obtain s' where "read (Fuse_Fs st) (Desc_PosixPath d) len off (desc_fi d) = ((int (length ?q), ?q), s')" "contents s' = contents (Fuse_Fs st)"
    using r [of "Fuse_Fs st" len off] by (metis prod.collapse)
  ultimately show ?thesis
    using assms by (cases ?q) (auto simp: fsp_fuse_intf_Read_def fuse_call_def byte_file_def)
qed

lemma size_refines:
  assumes "byte_file f d contents" "length (contents (Fuse_Fs st)) < 2 ^ 63"
  shows "\<exists>info st'. fsp_fuse_intf_SetFileSize f d n alloc st = (Inr info, st') \<and>
    contents (Fuse_Fs st') = size_bytes (contents (Fuse_Fs st)) (unat n) alloc \<and>
    Info_FileSize info = of_nat (length (contents (Fuse_Fs st')))"
proof -
  obtain i st1 where i: "desc_file_info f d st = (Inr i, st1)" "Info_FileSize (FI_Info i) = of_nat (length (contents (Fuse_Fs st)))"
      "contents (Fuse_Fs st1) = contents (Fuse_Fs st)"
    using byte_file_info [OF assms(1)] .
  have lt: "Info_FileSize (FI_Info i) > n \<longleftrightarrow> unat n < length (contents (Fuse_Fs st))"
    using assms(2) by (simp add: i(2) word_less_nat_alt unat_of_nat)
  obtain st2 where t: "truncate_file f d n st1 = (STATUS_SUCCESS, st2)" "contents (Fuse_Fs st2) = resized (contents (Fuse_Fs st1)) (unat n)"
    using assms(1) unfolding byte_file_def by (metis prod.collapse)
  show ?thesis
    using assms(1) i t lt by (auto simp: byte_file_def fsp_fuse_intf_SetFileSize_def size_bytes_def resize_def)
qed

lemma write_refines:
  assumes "byte_file f d contents" "q \<noteq> []" "length q < 2 ^ 31" "length (contents (Fuse_Fs st)) < 2 ^ 62" "unat off < 2 ^ 62"
  shows "\<exists>bt info st'. fsp_fuse_intf_Write f d q off to_end constrained st = (Inr (bt, info), st') \<and>
    contents (Fuse_Fs st') = write_bytes (contents (Fuse_Fs st)) (unat off) q to_end constrained \<and>
    Info_FileSize info = of_nat (length (contents (Fuse_Fs st')))"
proof -
  obtain i st1 where i: "desc_file_info f d st = (Inr i, st1)" "Info_FileSize (FI_Info i) = of_nat (length (contents (Fuse_Fs st)))"
      "contents (Fuse_Fs st1) = contents (Fuse_Fs st)"
    using byte_file_info [OF assms(1)] .
  obtain wr where w: "op_write (File_ops f) = Some wr"
    "\<forall>s q off. q \<noteq> [] \<longrightarrow> fst (wr s (Desc_PosixPath d) q off (desc_fi d)) = int (length q) \<and>
      contents (snd (wr s (Desc_PosixPath d) q off (desc_fi d))) = overlay (contents s) (unat off) q"
    using assms(1) unfolding byte_file_def by metis
  let ?c = "contents (Fuse_Fs st)"
  let ?goal = "\<lambda>c. \<exists>bt info st'. fsp_fuse_intf_Write f d q off to_end constrained st = (Inr (bt, info), st') \<and>
    contents (Fuse_Fs st') = c \<and> Info_FileSize info = of_nat (length (contents (Fuse_Fs st')))"
  have wrote: "\<exists>s'. wr (Fuse_Fs st1) (Desc_PosixPath d) q' o' (desc_fi d) = (int (length q'), s') \<and> contents s' = overlay ?c (unat o') q'"
    if "q' \<noteq> []" for q' o'
    using w(2) that i(3) by (metis prod.collapse)
  have size: "unat (if o' + of_int (int (length q')) > Info_FileSize (FI_Info i) then o' + of_int (int (length q')) else Info_FileSize (FI_Info i)) =
      max (length ?c) (unat o' + length q')" if "unat o' < 2 ^ 62" "length q' < 2 ^ 31" for o' :: u64 and q' :: bytes
    using that assms(4) by (auto simp: i(2) word_less_nat_alt unat_word_ariths unat_of_nat max_def)
  have plain: "\<not> IsDirectory d" "\<not> IsReparsePoint d" using assms(1) by (simp_all add: byte_file_def)
  have range: "?goal (overlay ?c (unat o') q')"
    if "write_range (Info_FileSize (FI_Info i)) off (of_nat (length q)) to_end constrained = Some (o', e')"
      "take (unat (e' - o')) q = q'" "q' \<noteq> []" "unat o' < 2 ^ 62" for o' e' q'
  proof -
    note nonempty = that(3)
    have "length q' < 2 ^ 31" using that(2) assms(3) by auto
    from size [OF that(4) this] have "unat (if o' + of_int (int (length q')) > Info_FileSize (FI_Info i) then o' + of_int (int (length q'))
        else Info_FileSize (FI_Info i)) = length (overlay ?c (unat o') q')" by simp
    then have fs: "(if o' + of_int (int (length q')) > Info_FileSize (FI_Info i) then o' + of_int (int (length q'))
        else Info_FileSize (FI_Info i)) = of_nat (length (overlay ?c (unat o') q'))" by (rule word_of_unat)
    obtain s' where "wr (Fuse_Fs st1) (Desc_PosixPath d) q' o' (desc_fi d) = (int (length q'), s')" "contents s' = overlay ?c (unat o') q'"
      using wrote [OF nonempty] by blast
    then show ?thesis
      using plain i(1) w(1) that(1,2) fs by (auto simp: fsp_fuse_intf_Write_def fuse_call_def resize_def Let_def split: if_splits)
  qed
  show ?thesis
  proof (cases constrained)
    case False
    let ?o = "if to_end then Info_FileSize (FI_Info i) else off"
    have "unat ?o < 2 ^ 62" "unat ?o = (if to_end then length ?c else unat off)"
      using assms(4,5) by (auto simp: i(2) unat_of_nat)
    then show ?thesis
      using range [of ?o "?o + ucast (of_nat (length q) :: u32)" q] assms(2,3) False
      by (simp add: write_range_def Let_def write_bytes_def unat_length)
  next
    case True
    note con = True
    have le: "off \<ge> Info_FileSize (FI_Info i) \<longleftrightarrow> unat off \<ge> length ?c"
      using assms(4) by (simp add: i(2) word_le_nat_alt unat_of_nat)
    show ?thesis
    proof (cases "length ?c \<le> unat off")
      case True
      then show ?thesis
        using con le plain i w(1) by (simp add: fsp_fuse_intf_Write_def write_range_def write_bytes_def)
    next
      case False
      let ?e = "if off + ucast (of_nat (length q) :: u32) > Info_FileSize (FI_Info i) then Info_FileSize (FI_Info i)
        else off + ucast (of_nat (length q) :: u32)"
      have len: "unat (ucast (of_nat (length q) :: u32) :: u64) = length q" using assms(3) by (rule unat_length)
      have sum: "unat (off + ucast (of_nat (length q) :: u32)) = unat off + length q"
        using assms(3,5) by (simp add: unat_word_ariths len)
      have "unat (?e - off) = min (length ?c - unat off) (length q)"
        using False assms(4) sum len by (auto simp: i(2) word_less_nat_alt unat_of_nat unat_sub_if_size word_size min_def)
      then have "take (unat (?e - off)) q = take (length ?c - unat off) q" by (simp add: min_def)
      then show ?thesis
        using range [of off ?e] con le False assms(2,5) by (simp add: write_range_def write_bytes_def)
    qed
  qed
qed

end
