(* ===== verification/FuseSample.thy ===== *)
theory FuseSample
  imports FuseLife FuseBytes PermProps
begin

text \<open>
  A small file system for the FUSE layer, on which the properties are evaluated: the root, and one file in it, whose
  contents are the state.
\<close>

definition zero_stat :: fuse_stat where
  "zero_stat = \<lparr>St_mode = 0, St_uid = 0, St_gid = 0, St_rdev = 0, St_size = 0, St_ino = 0, St_atim = (0, 0), St_mtim = (0, 0),
     St_ctim = (0, 0), St_birthtim = (0, 0), St_flags = 0\<rparr>"

definition one_file_path_ops :: "bytes fuse_path_operations" where
  "one_file_path_ops = \<lparr>
     op_getattr = Some (\<lambda>s p. if p = [0x2f] then ((0, zero_stat\<lparr>St_mode := 0x41ff\<rparr>), s)
       else ((0, zero_stat\<lparr>St_mode := 0x81ff, St_size := of_nat (length s)\<rparr>), s)),
     op_readlink = None, op_getpath = None, op_mknod = None, op_mkdir = None, op_symlink = None, op_unlink = None,
     op_rmdir = None, op_rename = None, op_chmod = None, op_chown = None,
     op_truncate = Some (\<lambda>s p n. (0, resized s (unat n))),
     op_utimens = None, op_utime = None, op_setcrtime = None, op_setchgtime = None, op_chflags = None, op_access = None,
     op_statfs = None, op_listxattr = None, op_getxattr = None, op_setxattr = None, op_removexattr = None, op_getdir = None\<rparr>"

definition one_file_file_ops :: "bytes fuse_file_operations" where
  "one_file_file_ops = \<lparr>
     op_fgetattr = None, op_create = None, op_open = Some (\<lambda>s p i. ((0, i\<lparr>Fi_fh := 7\<rparr>), s)),
     op_opendir = Some (\<lambda>s p i. ((0, i\<lparr>Fi_fh := 8\<rparr>), s)), op_release = Some (\<lambda>s p i. (0, s)),
     op_releasedir = Some (\<lambda>s p i. (0, s)), op_flush = None, op_fsync = None, op_fsyncdir = None, op_ftruncate = None,
     op_read = Some (\<lambda>s p n off i. let q = take (unat n) (drop (unat off) s) in ((int (length q), q), s)),
     op_write = Some (\<lambda>s p q off i. (int (length q), overlay s (unat off) q)),
     op_readdir = Some (\<lambda>s p i. ([([0x2e], None), ([0x61], None)], \<lambda>k. (0, s))), op_ioctl = None\<rparr>"

definition one_file_fs :: "bytes fuse" where
  "one_file_fs = \<lparr>
     Host = \<lparr>Wide_to_utf8 = (\<lambda>w. Some (map ucast w)), Utf8_to_wide = (\<lambda>p. Some (map ucast p)), Last_error = 0,
       Alloc = (\<lambda>_. True), Fresh_reparse = \<lparr>ReparseTag = 0, Link_Relative = False, SubstituteName = [], Reparse_Bytes = []\<rparr>,
       Posix_env = sample_env\<rparr>,
     Path_ops = one_file_path_ops, File_ops = one_file_file_ops,
     Cygwin = False, set_umask = None, set_create_umask = None, set_create_file_umask = None, set_create_dir_umask = None,
     set_uid = None, set_gid = None, add_write_ea_access = False, rellinks = False, dothidden = False, conn_want = 0,
     has_symlinks = False, has_slashdot = False, FlushOnCleanup = False, SectorSize = 512, SectorsPerAllocationUnit = 1,
     CaseSensitiveSearch = True, MaxComponentLength = 255, Label = [], FileSecurity = None\<rparr>"

definition open_root :: create_request where
  "open_root = \<lparr>Kind = 1, Name_Buffer = [0x5c, 0], NamedStream = 0, UserMode = True, HasTraversePrivilege = True,
     HasRestorePrivilege = False, HasTrailingBackslash = False, OpenTargetDirectory = False, AcceptsSecurityDescriptor = True,
     CreateOptions = 0, Create_FileAttributes = 0, DesiredAccess = 1, Create_GrantedAccess = 1, AccessToken = 0,
     Creator_Descriptor = None, Create_AllocationSize = 0, Ea = [], EaIsReparsePoint = False\<rparr>"

lemma root_path: "FspPosixMapWindowsToPosixPath (logged one_file_fs) [0x5c] st = (Inr [0x2f], st\<lparr>Fuse_Mem := Fuse_Mem st + 1\<rparr>)"
  by (simp add: FspPosixMapWindowsToPosixPath_def windows_to_posix_def FspPosixMapWindowsToPosixPathEx_def one_file_fs_def logged_def
     to_posix_loop.simps)

lemmas one_file_simps = logged_def one_file_fs_def logged_path_ops_def one_file_path_ops_def logged_file_ops_def
  one_file_file_ops_def zero_stat_def

abbreviation (input) no_context :: fuse_context where
  "no_context \<equiv> \<lparr>Ctx_uid = 0, Ctx_gid = 0, Ctx_pid = 0, Ctx_umask = 0, Ctx_PosixPath = None\<rparr>"

lemma root_opened:
  "\<exists>opened. fuse_request (logged one_file_fs) (\<lambda>_. Inl 1) id (Some no_context) (Create_Request open_root)
      (\<lambda>ctx. fsp_fuse_intf_Open (logged one_file_fs) ctx 1 1 100) \<lparr>Fuse_Fs = ([1, 2], []), Fuse_Mem = 0\<rparr> =
    Some (Inr opened, Create_Request open_root, \<lparr>Fuse_Fs = ([1, 2], [Opened_File True [0x2f] 0 8]), Fuse_Mem = 2\<rparr>)"
  unfolding fuse_request_def fsp_fuse_op_enter_def op_name_def open_root_def
  by (simp add: root_path token_uidgid_def join_name_def cstr_def)
    (simp add: fsp_fuse_intf_Open_def fsp_fuse_intf_GetFileInfoEx_def fsp_fuse_intf_GetFileInfoFunnel_def get_stat_def Let_def
     one_file_simps fuse_call_def log_keep_def log_open_def override_stat_def type_attributes_def
     FSP_FUSE_HAS_SYMLINKS_def fill_file_info_def open_open_def open_call_def opened_file_def fsp_fuse_op_leave_def FlagOn_def
     fsp_fuse_ntstatus_from_errno_def errno_windows_def fuse_alloc_def fuse_free_def open_flags_def)

text \<open>The file, open.\<close>

definition one_file_desc :: fuse_file_desc where
  "one_file_desc = \<lparr>Desc_PosixPath = [0x2f, 0x61], IsDirectory = False, IsReparsePoint = False, OpenFlags = 2, FileHandle = 7,
     DirBuffer = None\<rparr>"

text \<open>The root, open.\<close>

definition root_desc :: fuse_file_desc where
  "root_desc = \<lparr>Desc_PosixPath = [0x2f], IsDirectory = True, IsReparsePoint = False, OpenFlags = 0, FileHandle = 8,
     DirBuffer = None\<rparr>"

lemma one_file_bytes: "byte_file one_file_fs one_file_desc id"
  by (simp add: byte_file_def one_file_desc_def one_file_simps get_stat_def fuse_call_def truncate_file_def err_call_def Let_def)

end
