(* ===== verification/FuseClaims.thy ===== *)
theory FuseClaims
  imports FuseSample
begin

text \<open>
  The properties of the FUSE layer (\<open>src/dll/fuse/fuse_intf.c\<close>).
\<close>

section \<open>What an open file takes\<close>



section \<open>Times\<close>

lemma sint_of_int_fits:
  fixes w :: "'w::len itself"
  assumes "- (2 ^ (LENGTH('w) - 1)) \<le> x" "x < 2 ^ (LENGTH('w) - 1)"
  shows "sint (word_of_int x :: 'w word) = x"
  using assms by (simp add: sint_sbintrunc' signed_take_bit_int_eq_self)

text \<open>The seconds of a time, towards 1970, and the rest.\<close>

definition since_1970 :: "u64 \<Rightarrow> int" where
  "since_1970 t = sint t - 116444736000000000"

definition unix_seconds :: "u64 \<Rightarrow> int" where
  "unix_seconds t = since_1970 t sdiv 10000000"

lemma smod_second: "\<bar>x smod 10000000\<bar> < 10000000" for x :: int
  using smod_int_range [of 10000000 x] by auto

lemma unix_parts:
  assumes "- (2 ^ 63) \<le> since_1970 t"
  shows "FspPosixFileTimeToUnixTime t = (word_of_int (unix_seconds t), word_of_int (since_1970 t smod 10000000 * 100))"
proof -
  have "since_1970 t < 2 ^ 63" using sint_lt [of t] by (simp add: since_1970_def)
  moreover have "t - 116444736000000000 = word_of_int (since_1970 t)" by (simp add: since_1970_def)
  ultimately have "sint (t - 116444736000000000) = since_1970 t"
    using assms sint_of_int_fits [where 'w = 64, of "since_1970 t"] by simp
  then show ?thesis by (simp add: FspPosixFileTimeToUnixTime_def unix_seconds_def Let_def)
qed

text \<open>The nanoseconds fit in 32 bits, so what the way back gives depends on the seconds alone.\<close>

lemma unix_back:
  fixes w :: "'w::len itself"
  assumes "- (2 ^ 63) \<le> since_1970 t" "32 \<le> LENGTH('w)"
  shows "sint (snd (FspPosixFileTimeToUnixTime t :: 'w word \<times> 'w word)) = since_1970 t smod 10000000 * 100"
    "FspPosixUnixTimeToFileTime (FspPosixFileTimeToUnixTime t :: 'w word \<times> 'w word) =
       t + word_of_int ((sint (word_of_int (unix_seconds t) :: 'w word) - unix_seconds t) * 10000000)"
proof -
  have p: "(2 :: int) ^ 31 \<le> 2 ^ (LENGTH('w) - 1)" using assms(2) by (intro power_increasing) auto
  have n: "\<bar>since_1970 t smod 10000000 * 100\<bar> < 2 ^ 31" using smod_second [of "since_1970 t"] by (simp add: abs_mult)
  show s: "sint (snd (FspPosixFileTimeToUnixTime t :: 'w word \<times> 'w word)) = since_1970 t smod 10000000 * 100"
    unfolding unix_parts [OF assms(1)] snd_conv by (rule sint_of_int_fits) (use n p in linarith)+
  have d: "(since_1970 t smod 10000000 * 100) sdiv 100 = since_1970 t smod 10000000"
    by (simp add: signed_divide_int_def sgn_mult abs_mult mult_sgn_abs)
  have "t = word_of_int (unix_seconds t * 10000000 + since_1970 t smod 10000000 + 116444736000000000)"
    by (simp only: unix_seconds_def sdiv_mult_smod_eq) (simp add: since_1970_def)
  then show "FspPosixUnixTimeToFileTime (FspPosixFileTimeToUnixTime t :: 'w word \<times> 'w word) =
      t + word_of_int ((sint (word_of_int (unix_seconds t) :: 'w word) - unix_seconds t) * 10000000)"
    unfolding FspPosixUnixTimeToFileTime_def s d unfolding unix_parts [OF assms(1)] fst_conv
    by (simp add: algebra_simps)
qed

lemma unix_seconds_bound: "- (2 ^ 63) \<le> since_1970 t \<Longrightarrow> \<bar>unix_seconds t\<bar> \<le> 922337203686"
proof -
  assume "- (2 ^ 63) \<le> since_1970 t"
  moreover have "since_1970 t < 2 ^ 63" using sint_lt [of t] by (simp add: since_1970_def)
  ultimately have "\<bar>since_1970 t\<bar> \<le> 2 ^ 63" by simp
  then have "\<bar>since_1970 t\<bar> div 10000000 \<le> 2 ^ 63 div 10000000" by (rule zdiv_mono1) simp
  then show ?thesis by (simp add: unix_seconds_def signed_divide_int_def abs_mult abs_sgn_eq)
qed

text \<open>C38. Converting a time of Windows to seconds and nanoseconds and back. For every time for which the code's
  subtraction does not overflow (all but those within 369 years of the least \<open>INT64\<close>): with a 64-bit
  \<open>__int3264\<close> the same time comes back, the nanoseconds never reach a second, and from 1970 on they are not
  negative and the seconds are those since then; with the 32-bit \<open>__int3264\<close> of the x86 build the same time
  comes back exactly if its seconds since 1970 fit in 32 bits with sign, that is between 1901 and 2038, and then
  the seconds and nanoseconds are as with 64 bits.\<close>
theorem file_time_round_trip:
  assumes "- (2 ^ 63) \<le> sint t - 116444736000000000"
  shows "FspPosixUnixTimeToFileTime (FspPosixFileTimeToUnixTime t :: u64 \<times> u64) = t \<and>
   \<bar>sint (snd (FspPosixFileTimeToUnixTime t :: u64 \<times> u64))\<bar> < 1000000000 \<and>
   (116444736000000000 \<le> sint t \<longrightarrow>
      0 \<le> sint (snd (FspPosixFileTimeToUnixTime t :: u64 \<times> u64)) \<and>
      sint (fst (FspPosixFileTimeToUnixTime t :: u64 \<times> u64)) = (sint t - 116444736000000000) div 10000000) \<and>
   (let seconds = (sint t - 116444736000000000) sdiv 10000000; fits = (- (2 ^ 31) \<le> seconds \<and> seconds < 2 ^ 31)
    in (FspPosixUnixTimeToFileTime (FspPosixFileTimeToUnixTime t :: u32 \<times> u32) = t \<longleftrightarrow> fits) \<and>
      (fits \<longrightarrow> sint (fst (FspPosixFileTimeToUnixTime t :: u32 \<times> u32)) = seconds \<and>
        sint (snd (FspPosixFileTimeToUnixTime t :: u32 \<times> u32)) = sint (snd (FspPosixFileTimeToUnixTime t :: u64 \<times> u64))))"
    (is "?A \<and> ?B \<and> (_ \<longrightarrow> ?N \<and> ?S) \<and> _")
proof -
  have x: "- (2 ^ 63) \<le> since_1970 t" using assms by (simp add: since_1970_def)
  note b64 = unix_back [where 'w = 64, OF x] and b32 = unix_back [where 'w = 32, OF x]
  let ?s32 = "sint (word_of_int (unix_seconds t) :: u32)"
  note bound = unix_seconds_bound [OF x]
  have s64: "sint (word_of_int (unix_seconds t) :: u64) = unix_seconds t"
    by (rule sint_of_int_fits) (use bound in simp_all)
  have A: ?A using b64(2) by (simp add: s64)
  have B: ?B using b64(1) smod_second [of "since_1970 t"] by (simp add: abs_mult)
  have pos: "?N \<and> ?S" if "116444736000000000 \<le> sint t"
  proof -
    have p: "0 \<le> since_1970 t" using that by (simp add: since_1970_def)
    have "unix_seconds t = since_1970 t div 10000000" using p by (simp add: unix_seconds_def signed_divide_int_def sgn_if)
    then have ?S using s64 by (simp add: unix_parts [OF x] since_1970_def)
    then show ?thesis using b64(1) smod_int_compares(2) [OF p, of 10000000] by simp
  qed
  have fits: "?s32 = unix_seconds t \<longleftrightarrow> - (2 ^ 31) \<le> unix_seconds t \<and> unix_seconds t < 2 ^ 31"
    using sint_of_int_fits [where 'w = 32, of "unix_seconds t"] sint_lt [of "word_of_int (unix_seconds t) :: u32"]
      sint_ge [of "word_of_int (unix_seconds t) :: u32"] by auto
  have "\<bar>?s32\<bar> \<le> 2 ^ 31"
    using sint_lt [of "word_of_int (unix_seconds t) :: u32"] sint_ge [of "word_of_int (unix_seconds t) :: u32"] by simp
  then have "\<bar>?s32 - unix_seconds t\<bar> \<le> 2 ^ 31 + 922337203686" using bound by linarith
  then have small: "\<bar>(?s32 - unix_seconds t) * 10000000\<bar> < 2 ^ 64" unfolding abs_mult by simp
  have zero: "(word_of_int y :: u64) = 0 \<longleftrightarrow> 2 ^ 64 dvd y" for y by (simp add: word_of_int_eq_0_iff)
  have "(word_of_int ((?s32 - unix_seconds t) * 10000000) :: u64) = 0 \<longleftrightarrow> 2 ^ 64 dvd (?s32 - unix_seconds t) * 10000000"
    by (rule zero)
  moreover have "2 ^ 64 dvd (?s32 - unix_seconds t) * 10000000 \<longleftrightarrow> (?s32 - unix_seconds t) * 10000000 = 0"
    using small dvd_imp_le_int [of "(?s32 - unix_seconds t) * 10000000" "2 ^ 64"] by (auto simp del: mult_eq_0_iff)
  ultimately have "(word_of_int ((?s32 - unix_seconds t) * 10000000) :: u64) = 0 \<longleftrightarrow> ?s32 = unix_seconds t" by auto
  then have "FspPosixUnixTimeToFileTime (FspPosixFileTimeToUnixTime t :: u32 \<times> u32) = t \<longleftrightarrow> ?s32 = unix_seconds t"
    using b32(2) by simp
  then show ?thesis
    using A B pos fits b32(1) b64(1) by (simp add: unix_parts [OF x] since_1970_def [symmetric] unix_seconds_def [symmetric] Let_def)
qed

theorem file_time_round_trip_witness:
  "FspPosixUnixTimeToFileTime (FspPosixFileTimeToUnixTime 116444736012345678 :: u64 \<times> u64) = 116444736012345678 \<and>
   FspPosixUnixTimeToFileTime (FspPosixFileTimeToUnixTime 116444736012345678 :: u32 \<times> u32) = 116444736012345678 \<and>
   FspPosixUnixTimeToFileTime (FspPosixFileTimeToUnixTime 137919572480000000 :: u32 \<times> u32) \<noteq> 137919572480000000"
  using file_time_round_trip [of 116444736012345678] file_time_round_trip [of 137919572480000000]
  by (simp add: signed_divide_int_def Let_def)

section \<open>Reading and writing\<close>



end
