(* ===== verification/FuseDirProps.thy ===== *)
theory FuseDirProps
  imports FuseDir FuseProps DirBufSpec
begin

text \<open>
  What the listing of a directory of the FUSE layer does: the names fill the buffer one below the other, and the walk
  over the buffer changes each entry in its place, so that the bytes come out as the list of names does.
\<close>

section \<open>Entries in bytes\<close>

lemma length_file_info_bytes [simp]: "length (file_info_bytes i) = 72"
  by (simp add: file_info_bytes_def)

lemma length_wstr_bytes [simp]: "length (wstr_bytes w) = 2 * length w"
  by (induction w) (simp_all add: wstr_bytes_def)

lemma le_enc_2: "le_enc 2 c = [ucast c, ucast (drop_bit 8 c)]" for c :: u16
  by (simp add: eval_nat_numeral)

lemma wchars_bytes [simp]: "wchars (wstr_bytes w) = w"
proof (induction w)
  case (Cons c w)
  have "le_dec (le_enc 2 c) = c" by (rule le_dec_enc) simp
  then show ?case using Cons by (simp add: wstr_bytes_def le_enc_2)
qed (simp add: wstr_bytes_def)

text \<open>An entry when it is filled in, with the information that came with the name, and when it is listed.\<close>

definition filled_entry :: "wstr \<times> file_info option \<Rightarrow> bytes" where
  "filled_entry e =
     (case e of
        (w, None) \<Rightarrow> dir_info_bytes (replicate 72 0) False w
      | (w, Some i) \<Rightarrow> dir_info_bytes (file_info_bytes i) True w)"

definition listed_entry :: "wstr \<Rightarrow> file_info \<Rightarrow> bytes" where
  "listed_entry w i = dir_info_bytes (file_info_bytes i) False (map to_windows_char w)"

lemma dir_info_laws:
  assumes "length info = 72"
  shows "length (dir_info_bytes info flag w) = 104 + 2 * length w"
    "length w \<le> 255 \<Longrightarrow> DirInfo_Size (dir_info_bytes info flag w) = 104 + 2 * length w"
    "length w \<le> 255 \<Longrightarrow> DirInfo_FileName (dir_info_bytes info flag w) = w"
    "dir_info_bytes info flag w ! 80 = (if flag then 1 else 0)"
proof -
  show len: "length (dir_info_bytes info flag w) = 104 + 2 * length w"
    using assms by (simp add: dir_info_bytes_def)
  show "dir_info_bytes info flag w ! 80 = (if flag then 1 else 0)"
    using assms by (simp add: dir_info_bytes_def nth_append)
  assume w: "length w \<le> 255"
  define n where "n = 104 + 2 * length w"
  have "le_dec (le_enc 2 (of_nat n :: u16)) = (of_nat n :: u16)" by (rule le_dec_enc) simp
  moreover have "take 2 (dir_info_bytes info flag w) = le_enc 2 (of_nat n :: u16)"
    by (simp only: dir_info_bytes_def n_def [symmetric]) simp
  moreover have "n < 65536" using w by (simp add: n_def)
  then have "unat (of_nat n :: u16) = n" by (simp add: unsigned_of_nat take_bit_nat_eq_self)
  ultimately have size: "DirInfo_Size (dir_info_bytes info flag w) = n" by (simp add: DirInfo_Size_def)
  then show "DirInfo_Size (dir_info_bytes info flag w) = 104 + 2 * length w" by (simp add: n_def)
  have "drop 104 (dir_info_bytes info flag w) = wstr_bytes w"
    using assms by (simp add: dir_info_bytes_def)
  then show "DirInfo_FileName (dir_info_bytes info flag w) = w"
    by (simp add: DirInfo_FileName_def size n_def)
qed

lemma filled_entry_laws:
  "length (filled_entry (w, known)) = 104 + 2 * length w"
  "length w \<le> 255 \<Longrightarrow> DirInfo_Size (filled_entry (w, known)) = 104 + 2 * length w"
  "length w \<le> 255 \<Longrightarrow> DirInfo_FileName (filled_entry (w, known)) = w"
  "length w \<le> 255 \<Longrightarrow> valid_info (filled_entry (w, known))"
  by (cases known; simp add: filled_entry_def dir_info_laws valid_info_def)+

lemma listed_entry_laws:
  "length (listed_entry w i) = 104 + 2 * length w"
  "length w \<le> 255 \<Longrightarrow> DirInfo_Size (listed_entry w i) = 104 + 2 * length w"
  "length w \<le> 255 \<Longrightarrow> DirInfo_FileName (listed_entry w i) = map to_windows_char w"
  by (simp_all add: listed_entry_def dir_info_laws)

section \<open>The listing\<close>

text \<open>The names that are accepted, each with the information that came with it.\<close>

definition accepted :: "'s fuse \<Rightarrow> fuse_file_desc \<Rightarrow> dir_entry list \<Rightarrow> 's fuse_state \<Rightarrow> (wstr \<times> file_info option) list" where
  "accepted f d entries st =
     List.map_filter (\<lambda>e. map_option (\<lambda>w. (w, readdir_plus f (fst e) (snd e) st)) (entry_name f d (fst e))) entries"

text \<open>The listing of names in the directory \<open>p\<close>: the status, the entries, and the state of the file system.\<close>

fun listing :: "'s fuse \<Rightarrow> bytes \<Rightarrow> (wstr \<times> file_info option) list \<Rightarrow> 's fuse_state \<Rightarrow> ntstatus \<times> bytes list \<times> 's fuse_state" where
  "listing f p [] st = (STATUS_SUCCESS, [], st)"
| "listing f p ((w, Some i) # es) st = (let (R, l, st) = listing f p es st in (R, listed_entry w i # l, st))"
| "listing f p ((w, None) # es) st =
     (case entry_path f p w of
        None \<Rightarrow> (STATUS_OBJECT_NAME_INVALID, [], st)
      | Some path \<Rightarrow>
          (case fsp_fuse_intf_GetFileInfoEx f path None st of
             (Inl _, st) \<Rightarrow> listing f p es st
           | (Inr i, st) \<Rightarrow> (let (R, l, st) = listing f p es st in (R, listed_entry w (FI_Info i) # l, st))))"

lemma listing_status: "listing f p es st = (R, l, st') \<Longrightarrow> R = STATUS_SUCCESS \<or> R = STATUS_OBJECT_NAME_INVALID"
proof (induction es arbitrary: st l)
  case (Cons e es)
  obtain w known where "e = (w, known)" by fastforce
  with Cons.prems show ?case
    by (cases known) (auto split: option.splits sum.splits prod.splits dest: Cons.IH)
qed simp

lemma accepted_length: "e \<in> set (accepted f d entries st) \<Longrightarrow> length (fst e) \<le> 255"
  by (auto simp: accepted_def map_filter_def entry_name_def split: if_splits option.splits)

section \<open>Filling\<close>

text \<open>The entries lie one below the other, the first of the index on top.\<close>

definition tidy :: "dirbuf \<Rightarrow> bool" where
  "tidy db \<longleftrightarrow> invalid \<notin> set (Index db) \<and>
     sorted_wrt (\<lambda>a b. unat b + length (entry_at (bufbytes db) b) \<le> unat a) (Index db)"

definition filling :: "dirbuf \<Rightarrow> (wstr \<times> file_info option) list \<Rightarrow> bool" where
  "filling db es \<longleftrightarrow> dirbuf_ok db \<and> Lock db = srwlock.Exclusive \<and> unat (Capacity db) \<le> 2 ^ 30 \<and> tidy db \<and>
     db_entries db = map filled_entry (rev es) \<and> used db \<le> 630 * length es"

lemma tidy_entries: "tidy db \<Longrightarrow> db_entries db = map (entry_at (bufbytes db)) (Index db)"
  unfolding tidy_def db_entries_def by (metis (mono_tags, lifting) filter_id_conv)

lemma entry_ok_length: "entry_ok b lo a \<Longrightarrow> lo \<le> length b \<Longrightarrow> length (entry_at b a) = DirInfo_Size (drop (unat a) b)"
  by (auto simp: entry_ok_def entry_at_def)

lemma dirbuf_ok_marks:
  assumes "dirbuf_ok db"
  shows "unat (LoMark db) \<le> unat (HiMark db)" "unat (HiMark db) \<le> length (bufbytes db)"
    "\<And>a. a \<in> set (Index db) \<Longrightarrow> a = invalid \<or> entry_ok (bufbytes db) (unat (LoMark db)) a"
  using assms by (cases "Buffer db"; auto simp: dirbuf_ok_def bufbytes_def Index_def)+

lemma tidy_fill:
  assumes "tidy db" "dirbuf_ok db" "dirbuf_ok db'" "Index db' = LoMark db # Index db"
    "db_entries db' = e # db_entries db" "unat (LoMark db) < 2 ^ 32 - 1"
  shows "tidy db'"
proof -
  have "invalid \<notin> set (Index db')" using assms(1,4,6) by (auto simp: tidy_def)
  moreover from this have "db_entries db' = map (entry_at (bufbytes db')) (Index db')"
    unfolding db_entries_def by (metis (mono_tags, lifting) filter_id_conv)
  then have same: "entry_at (bufbytes db') a = entry_at (bufbytes db) a" if "a \<in> set (Index db)" for a
    using that assms(4,5) tidy_entries [OF assms(1)] by simp
  moreover have "unat a + length (entry_at (bufbytes db) a) \<le> unat (LoMark db)" if "a \<in> set (Index db)" for a
  proof -
    have "entry_ok (bufbytes db) (unat (LoMark db)) a"
      using that assms(1) dirbuf_ok_marks(3) [OF assms(2) that] by (auto simp: tidy_def)
    then show ?thesis using dirbuf_ok_marks(1,2) [OF assms(2)] by (simp add: entry_ok_length) (simp add: entry_ok_def)
  qed
  moreover have "sorted_wrt (\<lambda>a b. unat b + length (entry_at (bufbytes db') b) \<le> unat a) (Index db)"
    using assms(1) same by (auto simp: tidy_def intro: sorted_wrt_mono_rel [rotated])
  ultimately show ?thesis by (simp add: tidy_def assms(4))
qed

lemma filling_step:
  assumes "filling db es" "length w \<le> 255" "length es \<le> 200000"
  shows "\<exists>R ok db'. FspFileSystemFillDirectoryBuffer h (Some (filled_entry (w, known))) db = Some ((R, ok), db') \<and>
    dirbuf_ok db' \<and> Lock db' = srwlock.Exclusive \<and> unat (Capacity db') \<le> 2 ^ 30 \<and>
    (if ok then R = STATUS_SUCCESS \<and> filling db' (es @ [(w, known)])
     else R = STATUS_INSUFFICIENT_RESOURCES \<and> (\<exists>n. \<not> alloc_ok h n))"
proof -
  let ?e = "filled_entry (w, known)"
  have db: "dirbuf_ok db" "Lock db = srwlock.Exclusive" "unat (Capacity db) \<le> 2 ^ 30" "tidy db"
    "db_entries db = map filled_entry (rev es)" "used db \<le> 630 * length es"
    using assms(1) by (simp_all add: filling_def)
  note e = filled_entry_laws [of w known] and p8 = pad8_le(2) [of "DirInfo_Size ?e"]
  from fill_tracks [OF db(1) e(4) disjI1 [OF db(3)], of h] assms(2) obtain R ok db' where
    f: "FspFileSystemFillDirectoryBuffer h (Some ?e) db = Some ((R, ok), db')"
      "dirbuf_ok db'" "Lock db' = Lock db"
      "(R, ok) = (STATUS_SUCCESS, True) \<and> db_entries db' = take (DirInfo_Size ?e) ?e # db_entries db \<and>
         Index db' = LoMark db # Index db \<and> unat (LoMark db') = unat (LoMark db) + pad8 (DirInfo_Size ?e) \<or>
       (R, ok) = (STATUS_INSUFFICIENT_RESOURCES, False) \<and> (\<exists>n. \<not> alloc_ok h n)"
      "unat (Capacity db') \<le> max (max (unat (Capacity db)) 0x100000) (4 * (used db + 70000))"
    by (metis (no_types, lifting) surj_pair)
  have cap: "unat (Capacity db') \<le> 2 ^ 30" using f(5) db(3,6) assms(3) by simp
  have "filling db' (es @ [(w, known)])" if "ok"
  proof -
    have i: "db_entries db' = ?e # db_entries db" "Index db' = LoMark db # Index db"
      "unat (LoMark db') = unat (LoMark db) + pad8 (DirInfo_Size ?e)"
      using that f(4) e(1,2) assms(2) by auto
    have lo: "unat (LoMark db) < 2 ^ 32 - 1"
      using db(6) assms(3) by (simp add: used_def)
    have "tidy db'" using tidy_fill [OF db(4,1) f(2) i(2,1) lo] .
    moreover have "used db' \<le> 630 * length (es @ [(w, known)])"
      using db(6) i(2,3) p8 e(2) assms(2) by (simp add: used_def)
    ultimately show ?thesis using f(2,3) db(2,5) cap i(1) by (simp add: filling_def)
  qed
  then show ?thesis using f(1,2,3,4) db(2) cap by auto
qed

lemma add_dir_info_step:
  assumes "filling db es" "length es \<le> 200000"
  shows "\<exists>stop R' db'. fsp_fuse_intf_AddDirInfo f h d e st STATUS_SUCCESS db = Some (stop, R', db') \<and>
    dirbuf_ok db' \<and> Lock db' = srwlock.Exclusive \<and> unat (Capacity db') \<le> 2 ^ 30 \<and>
    (if stop then \<not> NT_SUCCESS R' \<and> (\<exists>n. \<not> alloc_ok h n) else R' = STATUS_SUCCESS \<and> filling db' (es @ accepted f d [e] st))"
proof (cases "entry_name f d (fst e)")
  case None
  then show ?thesis
    using assms(1) by (intro exI [of _ False]) (simp add: fsp_fuse_intf_AddDirInfo_def accepted_def map_filter_def filling_def)
next
  case (Some w)
  have "length w \<le> 255"
    using Some by (auto simp: entry_name_def split: if_splits option.splits)
  from filling_step [OF assms(1) this assms(2), of h "readdir_plus f (fst e) (snd e) st"] obtain R ok db' where
    "FspFileSystemFillDirectoryBuffer h (Some (filled_entry (w, readdir_plus f (fst e) (snd e) st))) db = Some ((R, ok), db')"
    "dirbuf_ok db'" "Lock db' = srwlock.Exclusive" "unat (Capacity db') \<le> 2 ^ 30"
    "if ok then R = STATUS_SUCCESS \<and> filling db' (es @ [(w, readdir_plus f (fst e) (snd e) st)])
     else R = STATUS_INSUFFICIENT_RESOURCES \<and> (\<exists>n. \<not> alloc_ok h n)"
    by blast
  with Some show ?thesis
    by (intro exI [of _ "\<not> ok"] exI [of _ R] exI [of _ db'], cases "readdir_plus f (fst e) (snd e) st")
      (auto simp: fsp_fuse_intf_AddDirInfo_def accepted_def map_filter_def filled_entry_def NT_SUCCESS_def split: if_splits)
qed

lemma accepted_Cons: "accepted f d (e # es) st = accepted f d [e] st @ accepted f d es st"
  by (simp add: accepted_def map_filter_def)

lemma accepted_le: "length (accepted f d es st) \<le> length es"
  by (simp add: accepted_def map_filter_def)

lemma add_dir_infos_ok:
  assumes "filling db es" "length es + length entries \<le> 200000"
  shows "\<exists>k R' db'. add_dir_infos f h d entries st n STATUS_SUCCESS db = Some (k, R', db') \<and>
    dirbuf_ok db' \<and> Lock db' = srwlock.Exclusive \<and> unat (Capacity db') \<le> 2 ^ 30 \<and>
    (NT_SUCCESS R' \<longrightarrow> k = n + length entries \<and> filling db' (es @ accepted f d entries st)) \<and>
    ((\<forall>n. alloc_ok h n) \<longrightarrow> R' = STATUS_SUCCESS)"
  using assms
proof (induction entries arbitrary: db es n)
  case Nil
  then show ?case by (simp add: accepted_def map_filter_def filling_def)
next
  case (Cons e entries)
  from add_dir_info_step [OF Cons.prems(1), of f h d e st] Cons.prems(2) obtain stop R1 db1 where
    s: "fsp_fuse_intf_AddDirInfo f h d e st STATUS_SUCCESS db = Some (stop, R1, db1)"
      "dirbuf_ok db1" "Lock db1 = srwlock.Exclusive" "unat (Capacity db1) \<le> 2 ^ 30"
      "if stop then \<not> NT_SUCCESS R1 \<and> (\<exists>n. \<not> alloc_ok h n) else R1 = STATUS_SUCCESS \<and> filling db1 (es @ accepted f d [e] st)"
    by auto
  show ?case
  proof (cases stop)
    case True
    then show ?thesis using s by auto
  next
    case False
    have "length (es @ accepted f d [e] st) + length entries \<le> 200000"
      using Cons.prems(2) accepted_le [of f d "[e]" st] by simp
    from Cons.IH [OF _ this, of db1 "n + 1"] s False show ?thesis
      by (auto simp: accepted_Cons [of f d e entries])
  qed
qed

section \<open>The walk\<close>

lemma fix_entry_filled:
  assumes "length w \<le> 255"
  shows "fix_entry f p a (filled_entry (w, Some i)) st = (Inr (a, listed_entry w i), st)"
    "\<exists>skip. length skip = 104 + 2 * length w \<and> DirInfo_Size skip = 104 + 2 * length w \<and>
      fix_entry f p a (filled_entry (w, None)) st =
        (case entry_path f p w of
           None \<Rightarrow> (Inl STATUS_OBJECT_NAME_INVALID, st)
         | Some path \<Rightarrow>
             (case fsp_fuse_intf_GetFileInfoEx f path None st of
                (Inl _, st) \<Rightarrow> (Inr (invalid, skip), st)
              | (Inr i, st) \<Rightarrow> (Inr (a, listed_entry w (FI_Info i)), st)))"
proof -
  let ?n = "map to_windows_char w"
  have d: "FspPosixDecodeWindowsPath w (length w) = ?n" by (simp add: FspPosixDecodeWindowsPath_def)
  show "fix_entry f p a (filled_entry (w, Some i)) st = (Inr (a, listed_entry w i), st)"
    using assms by (simp add: fix_entry_def filled_entry_def dir_info_laws d listed_entry_def)
      (simp add: dir_info_bytes_def)
  define skip where "skip = dir_info_bytes (replicate 72 0) False ?n"
  have "length skip = 104 + 2 * length w \<and> DirInfo_Size skip = 104 + 2 * length w"
    using assms by (simp add: skip_def dir_info_laws)
  moreover have "fix_entry f p a (filled_entry (w, None)) st =
      (case entry_path f p w of
         None \<Rightarrow> (Inl STATUS_OBJECT_NAME_INVALID, st)
       | Some path \<Rightarrow>
           (case fsp_fuse_intf_GetFileInfoEx f path None st of
              (Inl _, st) \<Rightarrow> (Inr (invalid, skip), st)
            | (Inr i, st) \<Rightarrow> (Inr (a, listed_entry w (FI_Info i)), st)))"
    using assms
    by (simp add: fix_entry_def filled_entry_def dir_info_laws d Let_def split: option.split sum.split prod.split)
      (simp add: listed_entry_def dir_info_bytes_def skip_def)
  ultimately show "\<exists>skip. length skip = 104 + 2 * length w \<and> DirInfo_Size skip = 104 + 2 * length w \<and>
      fix_entry f p a (filled_entry (w, None)) st =
        (case entry_path f p w of
           None \<Rightarrow> (Inl STATUS_OBJECT_NAME_INVALID, st)
         | Some path \<Rightarrow>
             (case fsp_fuse_intf_GetFileInfoEx f path None st of
                (Inl _, st) \<Rightarrow> (Inr (invalid, skip), st)
              | (Inr i, st) \<Rightarrow> (Inr (a, listed_entry w (FI_Info i)), st)))"
    by blast
qed

lemma fix_loop_entry:
  assumes "entry_ok buf lo a" "lo \<le> length buf"
  shows "fix_loop f p (a # as) buf st =
    (case fix_entry f p a (entry_at buf a) st of
       (Inl R, st) \<Rightarrow> Some (R, a # as, buf, st)
     | (Inr (a', info), st) \<Rightarrow> do {
         buf \<leftarrow> buf_put buf (unat a) info;
         (R, as', buf, st) \<leftarrow> fix_loop f p as buf st;
         Some (R, a' # as', buf, st) })"
proof -
  let ?n = "DirInfo_Size (drop (unat a) buf)"
  have b: "104 \<le> ?n" "unat a + ?n \<le> length buf" using assms by (auto simp: entry_ok_def)
  have "get16 buf (unat a) = Some (le_dec (take 2 (drop (unat a) buf)) :: u16)"
    using b by (simp add: get16_def)
  moreover have "unat (le_dec (take 2 (drop (unat a) buf)) :: u16) = ?n" by (simp add: DirInfo_Size_def)
  moreover have "buf_slice buf (unat a) ?n = Some (entry_at buf a)" using b by (simp add: entry_at_def)
  ultimately show ?thesis using b by simp
qed

text \<open>An entry that is replaced by one of the same size.\<close>

lemma replaced:
  fixes buf info a
  defines "buf' \<equiv> take (unat a) buf @ info @ drop (unat a + length info) buf"
  assumes "entry_ok buf lo a" "lo \<le> length buf" "length info = length (entry_at buf a)"
    "DirInfo_Size info = length info"
  shows "buf_put buf (unat a) info = Some buf'" "length buf' = length buf" "drop lo buf' = drop lo buf"
    "take (unat a) buf' = take (unat a) buf" "take (length info) (drop (unat a) buf') = info"
proof -
  have b: "unat a + length info \<le> lo"
    using assms(2,4) entry_ok_length [OF assms(2,3)] by (simp add: entry_ok_def)
  moreover have "104 \<le> length info" using assms(2,3,4) by (simp add: entry_ok_length) (simp add: entry_ok_def)
  ultimately show "buf_put buf (unat a) info = Some buf'" using assms(3) by (simp add: buf'_def)
  show "length buf' = length buf" "drop lo buf' = drop lo buf" "take (unat a) buf' = take (unat a) buf"
    "take (length info) (drop (unat a) buf') = info"
    using b assms(3) \<open>104 \<le> length info\<close> by (simp_all add: buf'_def min_def)
qed

lemma entry_at_take: "take n (drop (unat a) b) = e \<Longrightarrow> DirInfo_Size e = n \<Longrightarrow> length e = n \<Longrightarrow> 104 \<le> n \<Longrightarrow>
    entry_at b a = e \<and> DirInfo_Size (drop (unat a) b) = n"
  using DirInfo_Size_take [of n "drop (unat a) b"] by (auto simp: entry_at_def)

text \<open>The entries \<open>as\<close> below a replaced one are as they were.\<close>

definition stacked :: "bytes \<Rightarrow> nat \<Rightarrow> u32 list \<Rightarrow> bool" where
  "stacked buf lo as \<longleftrightarrow> lo \<le> length buf \<and> (\<forall>a \<in> set as. a \<noteq> invalid \<and> entry_ok buf lo a) \<and>
     sorted_wrt (\<lambda>a b. unat b + length (entry_at buf b) \<le> unat a) as"

lemma stacked_below:
  assumes "stacked buf lo (a # as)" "take (unat a) buf' = take (unat a) buf" "length buf' = length buf"
  shows "stacked buf' (unat a) as" "map (entry_at buf') as = map (entry_at buf) as"
proof -
  have low: "b \<noteq> invalid \<and> entry_ok buf' (unat a) b \<and> entry_at buf' b = entry_at buf b" if "b \<in> set as" for b
  proof -
    have b: "entry_ok buf lo b" "unat b + length (entry_at buf b) \<le> unat a" "b \<noteq> invalid" "lo \<le> length buf"
      using that assms(1) by (auto simp: stacked_def)
    then have "entry_ok buf (unat a) b"
      using entry_ok_length [of buf lo b] by (auto simp: entry_ok_def)
    then show ?thesis using entry_agree [OF assms(2)] b(3) by simp
  qed
  have "sorted_wrt (\<lambda>a b. unat b + length (entry_at buf' b) \<le> unat a) as"
    using assms(1) low by (auto simp: stacked_def intro: sorted_wrt_mono_rel [rotated])
  moreover have "unat a \<le> length buf'"
    using assms(1,3) by (auto simp: stacked_def entry_ok_def)
  ultimately show "stacked buf' (unat a) as" using low by (simp add: stacked_def)
  show "map (entry_at buf') as = map (entry_at buf) as" using low by simp
qed

text \<open>What the walk over a part \<open>as\<close> of the index leaves: it changes nothing from \<open>lo\<close> on.\<close>

definition walked where
  "walked lo as buf R as' buf' l \<longleftrightarrow>
     length buf' = length buf \<and> drop lo buf' = drop lo buf \<and> length as' = length as \<and>
     set as' \<subseteq> insert invalid (set as) \<and> (\<forall>a \<in> set as. entry_ok buf' lo a) \<and>
     (R = STATUS_SUCCESS \<longrightarrow> map (entry_at buf') (filter (\<lambda>a. a \<noteq> invalid) as') = l)"

lemma walked_step:
  fixes buf info a
  defines "buf1 \<equiv> take (unat a) buf @ info @ drop (unat a + length info) buf"
  assumes "stacked buf lo (a # as)" "length info = length (entry_at buf a)" "DirInfo_Size info = length info"
    "walked (unat a) as buf1 R as' buf' l1"
    and l: "a' = invalid \<and> l = l1 \<or> a' = a \<and> l = info # l1"
  shows "walked lo (a # as) buf R (a' # as') buf' l"
proof -
  have a: "entry_ok buf lo a" "a \<noteq> invalid" "lo \<le> length buf" using assms(2) by (simp_all add: stacked_def)
  have alo: "104 \<le> length info" "unat a + length info \<le> lo"
    using a(1) entry_ok_length [OF a(1,3)] assms(3) by (auto simp: entry_ok_def)
  note r = replaced [OF a(1,3) assms(3,4), folded buf1_def]
  have keep: "drop (unat a) buf' = drop (unat a) buf1" "length buf' = length buf"
    using assms(5) r(2) by (simp_all add: walked_def)
  have "drop lo buf' = drop (lo - unat a) (drop (unat a) buf')" using alo by simp
  also have "\<dots> = drop lo buf1" unfolding keep(1) using alo by simp
  finally have keep_lo: "drop lo buf' = drop lo buf" using r(3) by simp
  have "take (length info) (drop (unat a) buf') = info" using r(5) unfolding keep(1) .
  from entry_at_take [OF this assms(4) refl alo(1)] have "entry_at buf' a = info" "entry_ok buf' lo a"
    using alo by (auto simp: entry_ok_def)
  moreover have "entry_ok buf' lo b" if "b \<in> set as" for b
    using that assms(5) alo by (auto simp: walked_def intro: entry_ok_mono)
  ultimately show ?thesis using assms(5) keep(2) keep_lo l a(2) by (auto simp: walked_def)
qed

lemma fix_loop_ok:
  assumes "map (entry_at buf) as = map filled_entry es" "stacked buf lo as"
    "\<forall>e \<in> set es. length (fst e) \<le> 255" "listing f p es st = (R, l, st')"
  shows "\<exists>as' buf'. fix_loop f p as buf st = Some (R, as', buf', st') \<and> walked lo as buf R as' buf' l"
  using assms
proof (induction as arbitrary: buf es lo st l)
  case Nil
  then show ?case by (auto simp: walked_def)
next
  case (Cons a as)
  obtain w known es1 where es: "es = (w, known) # es1" using Cons.prems(1) by (cases es) auto
  have w: "length w \<le> 255" using Cons.prems(3) es by simp
  have a: "entry_ok buf lo a" "lo \<le> length buf" using Cons.prems(2) by (simp_all add: stacked_def)
  have at: "entry_at buf a = filled_entry (w, known)" "length (entry_at buf a) = 104 + 2 * length w"
    using Cons.prems(1) es by (auto simp: filled_entry_laws)
  note entry = fix_loop_entry [OF a, of f p as st, unfolded at(1)]
  have step: "\<exists>as' buf'. fix_loop f p (a # as) buf st = Some (R, as', buf', st') \<and> walked lo (a # as) buf R as' buf' l"
    if fixed: "fix_entry f p a (filled_entry (w, known)) st = (Inr (a', info), st1)"
      and info: "length info = 104 + 2 * length w" "DirInfo_Size info = 104 + 2 * length w"
      and rest: "listing f p es1 st1 = (R, l1, st')"
      and l: "a' = invalid \<and> l = l1 \<or> a' = a \<and> l = info # l1" for a' info st1 l1
  proof -
    define buf1 where "buf1 = take (unat a) buf @ info @ drop (unat a + length info) buf"
    have len: "length info = length (entry_at buf a)" "DirInfo_Size info = length info" using info at(2) by simp_all
    note r = replaced [OF a len, folded buf1_def]
    note below = stacked_below [OF Cons.prems(2) r(4,2)]
    have "map (entry_at buf1) as = map filled_entry es1"
      unfolding below(2) using Cons.prems(1) es by simp
    then obtain as' buf' where
      "fix_loop f p as buf1 st1 = Some (R, as', buf', st')" "walked (unat a) as buf1 R as' buf' l1"
      using Cons.IH [OF _ below(1) _ rest] Cons.prems(3) es by auto
    then show ?thesis
      using fixed r(1) walked_step [OF Cons.prems(2) len _ l] unfolding entry buf1_def by auto
  qed
  show ?case
  proof (cases known)
    case (Some i)
    then obtain l1 where "listing f p es1 st = (R, l1, st')" "l = listed_entry w i # l1"
      using Cons.prems(4) es by (auto split: prod.splits)
    with Some w show ?thesis
      by (intro step [OF _ listed_entry_laws(1,2) [of w i]]) (auto simp: fix_entry_filled(1))
  next
    case None
    from fix_entry_filled(2) [OF w, of f p a st] obtain skip where
      skip: "length skip = 104 + 2 * length w" "DirInfo_Size skip = 104 + 2 * length w"
        "fix_entry f p a (filled_entry (w, None)) st =
        (case entry_path f p w of
           None \<Rightarrow> (Inl STATUS_OBJECT_NAME_INVALID, st)
         | Some path \<Rightarrow>
             (case fsp_fuse_intf_GetFileInfoEx f path None st of
                (Inl _, st) \<Rightarrow> (Inr (invalid, skip), st)
              | (Inr i, st) \<Rightarrow> (Inr (a, listed_entry w (FI_Info i)), st)))"
      by blast
    show ?thesis
    proof (cases "entry_path f p w")
      case no_path: None
      have "walked lo (a # as) buf R (a # as) buf l" "R = STATUS_OBJECT_NAME_INVALID" "st' = st"
        using Cons.prems(2,4) es None no_path by (auto simp: walked_def stacked_def)
      then show ?thesis using skip(3) None no_path unfolding entry by auto
    next
      case (Some path)
      obtain r st1 where g: "fsp_fuse_intf_GetFileInfoEx f path None st = (r, st1)" by fastforce
      show ?thesis
      proof (cases r)
        case (Inl R1)
        then show ?thesis
          using Cons.prems(4) es None Some g skip by (intro step [OF _ skip(1,2)]) auto
      next
        case (Inr i)
        then obtain l1 where "listing f p es1 st1 = (R, l1, st')" "l = listed_entry w (FI_Info i) # l1"
          using Cons.prems(4) es None Some g by (auto split: prod.splits)
        with Inr None Some g skip w show ?thesis
          by (intro step [OF _ listed_entry_laws(1,2) [of w "FI_Info i"]]) auto
      qed
    qed
  qed
qed

section \<open>The directory\<close>

lemma tidy_stacked: "dirbuf_ok db \<Longrightarrow> tidy db \<Longrightarrow> stacked (bufbytes db) (unat (LoMark db)) (Index db)"
  using dirbuf_ok_marks [of db] by (auto simp: tidy_def stacked_def)

text \<open>A buffer whose bytes change below \<open>LoMark\<close> only.\<close>

lemma dirbuf_ok_below:
  assumes "dirbuf_ok db" "length buf = length (bufbytes db)"
    "drop (unat (LoMark db)) buf = drop (unat (LoMark db)) (bufbytes db)"
    "\<forall>a \<in> set (Index db). a = invalid \<or> entry_ok buf (unat (LoMark db)) a"
  defines "db' \<equiv> db\<lparr>Buffer := map_option (\<lambda>_. buf) (Buffer db)\<rparr>"
  shows "dirbuf_ok db'" "Index db' = Index db" "bufbytes db' = buf"
proof -
  note m = dirbuf_ok_marks [OF assms(1)]
  have "drop (unat (HiMark db)) buf = drop (unat (HiMark db) - unat (LoMark db)) (drop (unat (LoMark db)) buf)"
    using m(1) by simp
  also have "\<dots> = drop (unat (HiMark db)) (bufbytes db)" unfolding assms(3) using m(1) by simp
  finally have hi: "drop (unat (HiMark db)) buf = drop (unat (HiMark db)) (bufbytes db)" .
  show b: "bufbytes db' = buf" using assms(2) by (cases "Buffer db") (auto simp: bufbytes_def db'_def)
  show i: "Index db' = Index db" using hi unfolding Index_def b by (simp add: db'_def)
  show "dirbuf_ok db'"
    using assms(1,2,4) i unfolding dirbuf_ok_def by (cases "Buffer db") (auto simp: db'_def bufbytes_def)
qed

lemma fix_dir_info_ok:
  assumes "filling db es" "\<forall>e \<in> set es. length (fst e) \<le> 255"
    "listing f (Desc_PosixPath d) (rev es) (st\<lparr>Fuse_Mem := Fuse_Mem st + 1\<rparr>) = (R, l, st2)"
  shows "\<exists>R' db' st'. fsp_fuse_intf_FixDirInfo f d db st = Some (R', db', st') \<and>
    dirbuf_ok db' \<and> Lock db' = srwlock.Exclusive \<and> unat (Capacity db') \<le> 2 ^ 30 \<and>
    (NT_SUCCESS R' \<longrightarrow> R = STATUS_SUCCESS \<and> R' = R \<and> st' = fuse_free st2 \<and> db_entries db' = l) \<and>
    ((\<forall>n. Alloc (Host f) n) \<longrightarrow> R' = R)"
proof (cases "fuse_alloc f (length (Desc_PosixPath d) + 1 + 255 * 4 + 1) st")
  case None
  then show ?thesis
    using assms(1) by (auto simp: fsp_fuse_intf_FixDirInfo_def filling_def NT_SUCCESS_def fuse_alloc_def)
next
  case (Some st1)
  have st1: "st1 = st\<lparr>Fuse_Mem := Fuse_Mem st + 1\<rparr>" using Some by (auto simp: fuse_alloc_def split: if_splits)
  have db: "dirbuf_ok db" "Lock db = srwlock.Exclusive" "unat (Capacity db) \<le> 2 ^ 30" "tidy db"
    "db_entries db = map filled_entry (rev es)" using assms(1) by (simp_all add: filling_def)
  have "map (entry_at (bufbytes db)) (Index db) = map filled_entry (rev es)"
    using db(5) unfolding tidy_entries [OF db(4)] .
  from fix_loop_ok [OF this tidy_stacked [OF db(1,4)] _ assms(3)] assms(2) obtain index buf where
    x: "fix_loop f (Desc_PosixPath d) (Index db) (bufbytes db) st1 = Some (R, index, buf, st2)"
      "walked (unat (LoMark db)) (Index db) (bufbytes db) R index buf l"
    by (auto simp: st1)
  define db1 where "db1 = db\<lparr>Buffer := map_option (\<lambda>_. buf) (Buffer db)\<rparr>"
  have below: "dirbuf_ok db1" "Index db1 = Index db" "bufbytes db1 = buf"
    using dirbuf_ok_below [OF db(1), of buf] x(2) by (auto simp: walked_def db1_def)
  have marks: "HiMark db1 = HiMark db" "LoMark db1 = LoMark db" by (simp_all add: db1_def)
  have "length index = length (Index db1)" "set (drop 0 index) \<subseteq> insert invalid (set (Index db1))"
    using x(2) below(2) by (simp_all add: walked_def)
  from store_index [OF below(1) this(1) _ _ this(2), of "HiMark db"] obtain buf2 where
    p: "buf_put buf (unat (HiMark db)) (bytes32 index) = Some buf2"
    and db2: "let db2 = db1\<lparr>HiMark := HiMark db, Buffer := map_option (\<lambda>_. buf2) (Buffer db1)\<rparr>
     in Index db2 = index \<and> dirbuf_ok db2 \<and> take (unat (HiMark db)) buf2 = take (unat (HiMark db)) buf \<and> bufbytes db2 = buf2"
    by (auto simp: below(3) marks)
  define db2 where "db2 = db\<lparr>Buffer := map_option (\<lambda>_. buf2) (Buffer db)\<rparr>"
  have "db1\<lparr>HiMark := HiMark db, Buffer := map_option (\<lambda>_. buf2) (Buffer db1)\<rparr> = db2"
    by (cases db) (simp add: db1_def db2_def option.map_comp comp_def)
  with db2 have db2': "Index db2 = index" "dirbuf_ok db2" "bufbytes db2 = buf2"
    "take (unat (HiMark db)) buf2 = take (unat (HiMark db)) buf" by (simp_all add: Let_def)
  have "entry_at buf2 a = entry_at buf a" if "a \<in> set index" "a \<noteq> invalid" for a
    using that x(2) entry_agree(2) [OF db2'(4)] entry_ok_mono [of buf "unat (LoMark db)" a] dirbuf_ok_marks(1) [OF db(1)]
    by (auto simp: walked_def)
  then have "R = STATUS_SUCCESS \<Longrightarrow> db_entries db2 = l"
    using x(2) by (auto simp: db_entries_def db2' walked_def)
  moreover have "fsp_fuse_intf_FixDirInfo f d db st = Some (R, db2, fuse_free st2)"
    using Some x(1) p by (simp add: fsp_fuse_intf_FixDirInfo_def FspFileSystemPeekInDirectoryBuffer_def db2_def)
  moreover have "NT_SUCCESS R \<Longrightarrow> R = STATUS_SUCCESS"
    using listing_status [OF assms(3)] by (auto simp: NT_SUCCESS_def)
  ultimately show ?thesis using db2'(2) db(2,3) by (auto simp: db2_def)
qed

text \<open>Between two requests the directory has no buffer, or one that is released.\<close>

definition directory_ready :: "fuse_file_desc \<Rightarrow> bool" where
  "directory_ready d \<longleftrightarrow>
     (case DirBuffer d of
        None \<Rightarrow> True
      | Some db \<Rightarrow> dirbuf_ok db \<and> Lock db = srwlock.Unlocked \<and> unat (Capacity db) \<le> 2 ^ 30 \<and>
          invalid \<notin> set (Index db) \<and> entries_sorted (db_entries db))"

lemma release_capacity: "FspFileSystemReleaseDirectoryBuffer db = Some db' \<Longrightarrow> Capacity db' = Capacity db"
  by (auto simp: FspFileSystemReleaseDirectoryBuffer_def compact_def FspFileSystemSortDirectoryBuffer_def
      bind_eq_Some_conv split: option.splits prod.splits if_splits)

lemma acquired_empty:
  assumes "directory_ready d"
  shows "FspFileSystemAcquireDirectoryBuffer h n (DirBuffer d) (DirBuffer d) True =
      Some ((STATUS_INSUFFICIENT_RESOURCES, False), None) \<and> \<not> alloc_ok h n \<or>
    (\<exists>db. FspFileSystemAcquireDirectoryBuffer h n (DirBuffer d) (DirBuffer d) True = Some ((STATUS_SUCCESS, True), Some db) \<and>
      filling db [])"
proof (cases "DirBuffer d")
  case None
  have "filling \<lparr>Lock = srwlock.Exclusive, InitialCapacity = capacity_hint 0, Capacity = 0, LoMark = 0, HiMark = 0, Buffer = None\<rparr> []"
    using capacity_hint_bounds [of 0] by (simp add: filling_def dirbuf_ok_def tidy_def used_def db_entries_def Index_def bufbytes_def)
  then show ?thesis
    using None by (auto simp: FspFileSystemAcquireDirectoryBuffer_def FspFileSystemAcquireDirectoryBufferEx_def)
next
  case (Some db)
  then have db: "dirbuf_ok db" "Lock db = srwlock.Unlocked" "unat (Capacity db) \<le> 2 ^ 30"
    using assms by (simp_all add: directory_ready_def)
  let ?db = "db\<lparr>Lock := srwlock.Exclusive\<rparr>"
  have "dirbuf_ok ?db" using db(1) by simp
  note r = reset_ok [OF this]
  have e: "Index (?db\<lparr>LoMark := 0, HiMark := Capacity db\<rparr>) = []"
    using db(1) by (cases "Buffer db") (auto simp: dirbuf_ok_def Index_def bufbytes_def)
  have "filling (?db\<lparr>LoMark := 0, HiMark := Capacity db\<rparr>) []"
    unfolding filling_def tidy_def used_def e using r db(3) by simp
  then show ?thesis
    using Some db(2) by (auto simp: FspFileSystemAcquireDirectoryBuffer_def FspFileSystemAcquireDirectoryBufferEx_def AcquireExclusive_def)
qed

lemma fill_directory_ok:
  assumes "filling db []" "list_directory f d = Some readdir" "readdir (Fuse_Fs st) = (entries, answer)"
    "length entries \<le> 200000"
    "listing f (Desc_PosixPath d) (rev (accepted f d (filler_entries f entries) st))
      (st\<lparr>Fuse_Fs := snd (answer (length entries)), Fuse_Mem := Fuse_Mem st + 1\<rparr>) = (R, l, st2)"
  shows "\<exists>R' db' st'. fill_directory f h d db st = Some (R', db', st') \<and>
    dirbuf_ok db' \<and> Lock db' = srwlock.Exclusive \<and> unat (Capacity db') \<le> 2 ^ 30 \<and>
    (NT_SUCCESS R' \<longrightarrow> R = STATUS_SUCCESS \<and> R' = R \<and> st' = fuse_free st2 \<and> db_entries db' = l) \<and>
    ((\<forall>n. alloc_ok h n \<and> Alloc (Host f) n) \<and> fst (answer (length entries)) = 0 \<longrightarrow> R' = R)"
proof -
  let ?es = "filler_entries f entries"
  have len: "length ?es = length entries" by (simp add: filler_entries_def)
  from add_dir_infos_ok [OF assms(1), where entries = ?es and f = f and d = d and st = st and h = h and n = 0] assms(4) obtain k R1 db1 where
    a: "add_dir_infos f h d ?es st 0 STATUS_SUCCESS db = Some (k, R1, db1)"
      "dirbuf_ok db1" "Lock db1 = srwlock.Exclusive" "unat (Capacity db1) \<le> 2 ^ 30"
      "NT_SUCCESS R1 \<Longrightarrow> k = length entries \<and> filling db1 (accepted f d ?es st)"
      "(\<forall>n. alloc_ok h n) \<Longrightarrow> R1 = STATUS_SUCCESS"
    by (auto simp: len)
  obtain err s where k: "answer k = (err, s)" by fastforce
  have eq: "fill_directory f h d db st =
      (if \<not> NT_SUCCESS (fsp_fuse_ntstatus_from_errno f err) then Some (fsp_fuse_ntstatus_from_errno f err, db1, st\<lparr>Fuse_Fs := s\<rparr>)
       else if \<not> NT_SUCCESS R1 then Some (R1, db1, st\<lparr>Fuse_Fs := s\<rparr>)
       else fsp_fuse_intf_FixDirInfo f d db1 (st\<lparr>Fuse_Fs := s\<rparr>))"
    using assms(2,3) a(1) k by (simp add: fill_directory_def Let_def)
  show ?thesis
  proof (cases "NT_SUCCESS (fsp_fuse_ntstatus_from_errno f err) \<and> NT_SUCCESS R1")
    case False
    have "\<not> ((\<forall>n. alloc_ok h n \<and> Alloc (Host f) n) \<and> fst (answer (length entries)) = 0)"
      using False a(5,6) k by auto
    moreover have "fill_directory f h d db st =
        Some (if NT_SUCCESS (fsp_fuse_ntstatus_from_errno f err) then R1 else fsp_fuse_ntstatus_from_errno f err, db1, st\<lparr>Fuse_Fs := s\<rparr>)"
      using eq False by auto
    ultimately show ?thesis using a(2-4) False by auto
  next
    case True
    then have k': "k = length entries" "filling db1 (accepted f d ?es st)" using a(5) by simp_all
    have "\<forall>e \<in> set (accepted f d ?es st). length (fst e) \<le> 255" by (auto dest: accepted_length)
    from fix_dir_info_ok [OF k'(2) this, of f d "st\<lparr>Fuse_Fs := s\<rparr>" R l st2] assms(5) k k'(1)
    show ?thesis unfolding eq using True by auto
  qed
qed

text \<open>A directory whose buffer is filled and released is read from the buffer.\<close>

lemma read_buffer_ok:
  assumes "directory_ready d" "DirBuffer d = Some db" "unat Len \<le> length Out"
    "\<And>m. Marker = Some m \<Longrightarrow> 0 \<notin> set m \<and> distinct_names (db_entries db)"
  shows "\<exists>Out' bt'. FspFileSystemReadDirectoryBuffer (Some db) Marker Out Len bt = Some (Out', bt') \<and>
    read_result (after_marker Marker (db_entries db)) (unat Len) Out (unat bt) Out' (unat bt')"
  using assms by (intro read_ok) (auto simp: directory_ready_def)

end
