(* ===== verification/FuseDirClaims.thy ===== *)
theory FuseDirClaims
  imports FuseDirProps FuseSample
begin

text \<open>
  The listing of directories by the FUSE layer (\<open>src/dll/fuse/fuse_intf.c\<close>) with the directory buffer of the library
  (\<open>src/dll/dirbuf.c\<close>).
\<close>

lemma read_directory_ok:
  assumes "IsDirectory d" "\<not> IsReparsePoint d" "directory_ready d" "list_directory f d = Some readdir"
    "readdir (Fuse_Fs st) = (entries, answer)" "length entries \<le> 200000" "unat Len \<le> length Out"
    "listing f (Desc_PosixPath d) (rev (accepted f d (filler_entries f entries) st))
      (st\<lparr>Fuse_Fs := snd (answer (length entries)), Fuse_Mem := Fuse_Mem st + 1\<rparr>) = (R, l, st2)"
  shows "\<exists>R' Out' bt' d' st'. fsp_fuse_intf_ReadDirectory f h n d None Out Len bt st = Some ((R', Out', bt'), d', st') \<and>
    directory_ready d' \<and>
    ((\<forall>n. alloc_ok h n \<and> Alloc (Host f) n) \<and> fst (answer (length entries)) = 0 \<longrightarrow> R' = R) \<and>
    (NT_SUCCESS R' \<longrightarrow> R = STATUS_SUCCESS \<and> R' = R \<and> st' = fuse_free st2 \<and>
      (\<exists>db. DirBuffer d' = Some db \<and> d' = d\<lparr>DirBuffer := Some db\<rparr> \<and> mset (db_entries db) = mset l \<and>
         entries_sorted (db_entries db) \<and> read_result (db_entries db) (unat Len) Out (unat bt) Out' (unat bt')))"
proof -
  from acquired_empty [OF assms(3), of h n] show ?thesis
  proof
    assume "FspFileSystemAcquireDirectoryBuffer h n (DirBuffer d) (DirBuffer d) True =
      Some ((STATUS_INSUFFICIENT_RESOURCES, False), None) \<and> \<not> alloc_ok h n"
    then show ?thesis
      using assms(1,2) by (auto simp: fsp_fuse_intf_ReadDirectory_def NT_SUCCESS_def directory_ready_def)
  next
    assume "\<exists>db. FspFileSystemAcquireDirectoryBuffer h n (DirBuffer d) (DirBuffer d) True =
      Some ((STATUS_SUCCESS, True), Some db) \<and> filling db []"
    then obtain db where a: "FspFileSystemAcquireDirectoryBuffer h n (DirBuffer d) (DirBuffer d) True =
      Some ((STATUS_SUCCESS, True), Some db)" "filling db []" by blast
    from fill_directory_ok [OF a(2) assms(4-6,8), of h] obtain R1 db1 st1 where
      1: "fill_directory f h d db st = Some (R1, db1, st1)" "dirbuf_ok db1" "Lock db1 = srwlock.Exclusive"
        "unat (Capacity db1) \<le> 2 ^ 30"
        "NT_SUCCESS R1 \<Longrightarrow> R = STATUS_SUCCESS \<and> R1 = R \<and> st1 = fuse_free st2 \<and> db_entries db1 = l"
        "(\<forall>n. alloc_ok h n \<and> Alloc (Host f) n) \<and> fst (answer (length entries)) = 0 \<Longrightarrow> R1 = R"
      by blast
    from release_ok [OF 1(2,3)] obtain db2 where
      2: "FspFileSystemReleaseDirectoryBuffer db1 = Some db2" "Lock db2 = srwlock.Unlocked" "dirbuf_ok db2"
        "invalid \<notin> set (Index db2)" "mset (db_entries db2) = mset (db_entries db1)" "entries_sorted (db_entries db2)"
      by blast
    define d' where "d' = d\<lparr>DirBuffer := Some db2\<rparr>"
    have ready: "directory_ready d'"
      using 2 1(4) release_capacity [OF 2(1)] by (simp add: directory_ready_def d'_def)
    obtain Out' bt' where 3: "FspFileSystemReadDirectoryBuffer (Some db2) None Out Len bt = Some (Out', bt')"
      "read_result (db_entries db2) (unat Len) Out (unat bt) Out' (unat bt')"
      using read_buffer_ok [OF ready _ assms(7), of db2 None bt] by (auto simp: d'_def after_marker_def)
    have "fsp_fuse_intf_ReadDirectory f h n d None Out Len bt st =
        (if NT_SUCCESS R1 then Some ((STATUS_SUCCESS, Out', bt'), d', st1) else Some ((R1, Out, bt), d', st1))"
      using assms(1,2) a(1) 1(1) 2(1) 3(1) by (simp add: fsp_fuse_intf_ReadDirectory_def d'_def Let_def)
    then show ?thesis
      using ready 1(5,6) 2(5,6) 3(2) by (cases "NT_SUCCESS R1") (auto simp: d'_def)
  qed
qed

text \<open>C40. Listing a directory of a FUSE file system from its start, for a directory of at most 200000 entries (without
  this bound the capacity of the directory buffer can wrap around, and the code then writes behind it) and an output
  buffer as long as it is said to be: the listing never leaves the directory buffer and always answers.
  With success the buffer holds exactly the names that the file system gave and that have a form in Windows, without
  those whose information it refuses, each with the information of its file and in characters of Windows; they are in
  the order of their names, and the output is filled with them as far as they fit. It succeeds whenever there is memory
  and the file system does not fail. A later read behind any name, when no two names are equal, asks the file system
  nothing and lists what follows.\<close>
theorem fuse_directory_listing:
  assumes "IsDirectory d" "\<not> IsReparsePoint d" "directory_ready d" "list_directory f d = Some readdir"
    "readdir (Fuse_Fs st) = (entries, answer)" "length entries \<le> 200000" "unat Len \<le> length Out"
    "listing f (Desc_PosixPath d) (rev (accepted f d (filler_entries f entries) st))
      (st\<lparr>Fuse_Fs := snd (answer (length entries)), Fuse_Mem := Fuse_Mem st + 1\<rparr>) = (R, l, st2)"
  shows "\<exists>R' Out' bt' d' st'. fsp_fuse_intf_ReadDirectory f h n d None Out Len bt st = Some ((R', Out', bt'), d', st') \<and>
    directory_ready d' \<and>
    ((\<forall>n. alloc_ok h n \<and> Alloc (Host f) n) \<and> fst (answer (length entries)) = 0 \<longrightarrow> R' = R) \<and>
    (NT_SUCCESS R' \<longrightarrow> R = STATUS_SUCCESS \<and> st' = fuse_free st2 \<and>
      (\<exists>db. DirBuffer d' = Some db \<and> mset (db_entries db) = mset l \<and>
         entries_sorted (db_entries db) \<and> read_result (db_entries db) (unat Len) Out (unat bt) Out' (unat bt') \<and>
         (\<forall>m Out2 Len2 bt2 st3. 0 \<notin> set m \<and> distinct_names (db_entries db) \<and> unat Len2 \<le> length Out2 \<longrightarrow>
            (\<exists>Out3 bt3. fsp_fuse_intf_ReadDirectory f h n d' (Some m) Out2 Len2 bt2 st3 = Some ((STATUS_SUCCESS, Out3, bt3), d', st3) \<and>
               read_result (after_marker (Some m) (db_entries db)) (unat Len2) Out2 (unat bt2) Out3 (unat bt3)))))"
proof -
  from read_directory_ok [OF assms, of h n bt] obtain R' Out' bt' d' st' where
    1: "fsp_fuse_intf_ReadDirectory f h n d None Out Len bt st = Some ((R', Out', bt'), d', st')" "directory_ready d'"
      "(\<forall>n. alloc_ok h n \<and> Alloc (Host f) n) \<and> fst (answer (length entries)) = 0 \<Longrightarrow> R' = R"
      "NT_SUCCESS R' \<Longrightarrow> R = STATUS_SUCCESS \<and> st' = fuse_free st2 \<and>
        (\<exists>db. DirBuffer d' = Some db \<and> d' = d\<lparr>DirBuffer := Some db\<rparr> \<and> mset (db_entries db) = mset l \<and>
          entries_sorted (db_entries db) \<and> read_result (db_entries db) (unat Len) Out (unat bt) Out' (unat bt'))"
    by blast
  have later: "\<exists>Out3 bt3. fsp_fuse_intf_ReadDirectory f h n d' (Some m) Out2 Len2 bt2 st3 = Some ((STATUS_SUCCESS, Out3, bt3), d', st3) \<and>
      read_result (after_marker (Some m) (db_entries db)) (unat Len2) Out2 (unat bt2) Out3 (unat bt3)"
    if "d' = d\<lparr>DirBuffer := Some db\<rparr>" "0 \<notin> set m" "distinct_names (db_entries db)" "unat Len2 \<le> length Out2"
    for db m Out2 Len2 bt2 st3
    using read_buffer_ok [OF 1(2) _ that(4), of db "Some m" bt2] that assms(1,2)
    by (auto simp: fsp_fuse_intf_ReadDirectory_def FspFileSystemAcquireDirectoryBuffer_def
        FspFileSystemAcquireDirectoryBufferEx_def Let_def NT_SUCCESS_def)
  have "R = STATUS_SUCCESS \<and> st' = fuse_free st2 \<and>
      (\<exists>db. DirBuffer d' = Some db \<and> mset (db_entries db) = mset l \<and>
         entries_sorted (db_entries db) \<and> read_result (db_entries db) (unat Len) Out (unat bt) Out' (unat bt') \<and>
         (\<forall>m Out2 Len2 bt2 st3. 0 \<notin> set m \<and> distinct_names (db_entries db) \<and> unat Len2 \<le> length Out2 \<longrightarrow>
            (\<exists>Out3 bt3. fsp_fuse_intf_ReadDirectory f h n d' (Some m) Out2 Len2 bt2 st3 = Some ((STATUS_SUCCESS, Out3, bt3), d', st3) \<and>
               read_result (after_marker (Some m) (db_entries db)) (unat Len2) Out2 (unat bt2) Out3 (unat bt3))))"
    if "NT_SUCCESS R'"
    using 1(4) [OF that] later by blast
  then show ?thesis using 1(1-3) by blast
qed

lemma root_listing:
  "listing one_file_fs [0x2f] (rev (accepted one_file_fs root_desc (filler_entries one_file_fs [([0x2e], None), ([0x61], None)])
     \<lparr>Fuse_Fs = [1, 2], Fuse_Mem = 0\<rparr>)) \<lparr>Fuse_Fs = [1, 2], Fuse_Mem = 1\<rparr> =
   (STATUS_SUCCESS, [listed_entry [0x61] (zero_file_info\<lparr>Info_FileSize := 2, Info_AllocationSize := 512,
      Info_CreationTime := 116444736000000000, Info_LastAccessTime := 116444736000000000,
      Info_LastWriteTime := 116444736000000000, Info_ChangeTime := 116444736000000000\<rparr>)],
    \<lparr>Fuse_Fs = [1, 2], Fuse_Mem = 1\<rparr>)"
  by (simp add: accepted_def filler_entries_def one_file_simps root_desc_def map_filter_def entry_name_def is_dots_def
      readdir_plus_def entry_path_def fsp_fuse_intf_GetFileInfoEx_def fsp_fuse_intf_GetFileInfoFunnel_def get_stat_def
      fuse_call_def override_stat_def type_attributes_def FSP_FUSE_HAS_SYMLINKS_def fill_file_info_def allocation_size_def
      AllocationUnit_def FspPosixUnixTimeToFileTime_def zero_file_info_def)

theorem fuse_directory_listing_witness:
  "\<exists>Out' bt' d' st' db i. fsp_fuse_intf_ReadDirectory one_file_fs \<lparr>alloc_ok = (\<lambda>_. True), fresh_byte = (\<lambda>_. 0)\<rparr> 48 root_desc
     None (replicate 200 0) 200 0 \<lparr>Fuse_Fs = [1, 2], Fuse_Mem = 0\<rparr> = Some ((STATUS_SUCCESS, Out', bt'), d', st') \<and>
     DirBuffer d' = Some db \<and> db_entries db = [listed_entry [0x61] i] \<and> Info_FileSize i = 2 \<and>
     st' = \<lparr>Fuse_Fs = [1, 2], Fuse_Mem = 0\<rparr>"
proof -
  let ?st = "\<lparr>Fuse_Fs = [1, 2], Fuse_Mem = 0\<rparr>" and ?h = "\<lparr>alloc_ok = (\<lambda>_. True), fresh_byte = (\<lambda>_. 0)\<rparr>"
    and ?entries = "[([0x2e], None), ([0x61], None)]"
  define i where "i = zero_file_info\<lparr>Info_FileSize := 2, Info_AllocationSize := 512,
      Info_CreationTime := 116444736000000000, Info_LastAccessTime := 116444736000000000,
      Info_LastWriteTime := 116444736000000000, Info_ChangeTime := 116444736000000000\<rparr>"
  have root: "IsDirectory root_desc" "\<not> IsReparsePoint root_desc" "directory_ready root_desc" "Desc_PosixPath root_desc = [0x2f]"
    by (simp_all add: root_desc_def directory_ready_def)
  have dir: "list_directory one_file_fs root_desc = Some (\<lambda>s. (?entries, \<lambda>k. (0, s)))"
    by (simp add: list_directory_def one_file_simps)
  have "listing one_file_fs (Desc_PosixPath root_desc)
      (rev (accepted one_file_fs root_desc (filler_entries one_file_fs ?entries) ?st))
      (?st\<lparr>Fuse_Fs := snd ((\<lambda>k. (0 :: int, Fuse_Fs ?st)) (length ?entries)), Fuse_Mem := Fuse_Mem ?st + 1\<rparr>) =
    (STATUS_SUCCESS, [listed_entry [0x61] i], \<lparr>Fuse_Fs = [1, 2], Fuse_Mem = 1\<rparr>)"
    using root_listing by (simp add: root(4) i_def)
  note r = fuse_directory_listing [OF root(1-3) dir refl _ _ this, of 200 "replicate 200 0" ?h 48 0]
  have "\<And>n. alloc_ok ?h n \<and> Alloc (Host one_file_fs) n" by (simp add: one_file_fs_def)
  with r obtain Out' bt' d' st' db where
    "fsp_fuse_intf_ReadDirectory one_file_fs ?h 48 root_desc None (replicate 200 0) 200 0 ?st = Some ((STATUS_SUCCESS, Out', bt'), d', st')"
    "DirBuffer d' = Some db" "db_entries db = [listed_entry [0x61] i]" "st' = fuse_free \<lparr>Fuse_Fs = [1, 2], Fuse_Mem = 1\<rparr>"
    by (auto simp: NT_SUCCESS_def)
  moreover have "Info_FileSize i = 2" by (simp add: i_def)
  ultimately show ?thesis by (auto simp: fuse_free_def)
qed

end
