(* ===== verification/Spec2Isabelle.thy ===== *)
theory Spec2Isabelle
  imports DirBufSpec SidProps PermProps PosixPathProps MetaSpec IoqClaims FuseOptClaims NameClaims
    PsBufferClaims PathOps SecurityClaims DispatchClaims FsReparseClaims FsEaProps FuseClaims FuseDirClaims
begin

text \<open>
  Verification of core components of WinFsp, the Windows File System Proxy.

  \<^bold>\<open>The program.\<close> WinFsp lets a user process be a file system. A kernel driver (\<open>src/sys\<close>) takes
  the requests that Windows makes of a file system, queues them, and hands them to the process,
  which runs the user-mode library (\<open>src/dll\<close>); the library checks access, calls the operations that
  the file system implements, and hands the responses back. Parts shared by both are in
  \<open>src/shared\<close>, and a FUSE layer (\<open>src/dll/fuse\<close>) adapts the library to the FUSE interface. The
  development models the parts that carry logic of their own rather than calls of Windows.

  \<^bold>\<open>Conventions.\<close> Machine integers are words of their C width, so sums wrap; a byte buffer is a list
  of bytes, and a definition that may read or write outside its memory, or that may not end, returns
  an option: \<open>None\<close> is the access outside or the loop without end, and the theorems show that it does
  not happen. A status is a 32-bit word, or \<open>Inl\<close> of a sum where the code returns a pointer. What the
  sources only call (memory managers, the security calls of Windows, conversions of strings, the file
  system itself) is an argument of the definitions. \<open>Prelude\<close> has the types, the status codes, byte
  buffers, single bits and the lemmas on lists, options and words that several components use.

  \<^bold>\<open>The components.\<close>

  \<^item> The directory buffer (\<open>src/dll/dirbuf.c\<close>, and \<open>FspFileSystemAddDirInfo\<close> of \<open>src/dll/fsop.c\<close>):
    \<open>QSort\<close> has the in-place quicksort with its stack of 64 positions, \<open>DirBuf\<close> the buffer byte for
    byte (entries from below, the index from above), \<open>DirBufOrder\<close> the order of names, \<open>DirBufProps\<close>
    the invariant of the layout and the abstract value of a buffer, \<open>DirBufRead\<close> the search and the
    copy loop, \<open>DirBufSpec\<close> the contract: filling adds an entry, releasing sorts, reading lists what is
    behind the marker, and no access is outside the buffer.
  \<^item> The string routines of \<open>src/shared/um/minimal.h\<close> that the library uses: \<open>Minimal\<close>.
  \<^item> POSIX interoperation (\<open>src/shared/ku/posix.c\<close>): \<open>Sid\<close> and \<open>SidProps\<close> map user ids to security
    identifiers and back, \<open>Perm\<close> and \<open>PermProps\<close> permission bits to descriptors and back, \<open>PosixPath\<close>
    and \<open>PosixPathProps\<close> names of files.
  \<^item> The metadata cache of the driver (\<open>src/sys/meta.c\<close>): \<open>Meta\<close> has the cache on a heap of
    reference-counted items, \<open>MetaProps\<close> the invariant and the refinement to a bounded queue,
    \<open>MetaSpec\<close> the properties. \<open>Buckets\<close> has the chained hash table that the cache, the request queue
    and the buffer pool share, with its contract as a locale that each of them interprets.
  \<^item> The queue of requests of a volume (\<open>src/sys/ioq.c\<close>): \<open>Ioq\<close> has every operation, \<open>IoqProps\<close> the
    invariant of its three lists, \<open>IoqSteps\<close> the loops, \<open>IoqSpec\<close> the queue under any interleaving of
    the critical sections of all threads, \<open>IoqClaims\<close> the properties.
  \<^item> The pool of transfer buffers (\<open>src/sys/psbuffer.c\<close>): \<open>PsBuffer\<close> has the operations and their
    locked sections, \<open>PsBufferProps\<close> the pool as a concurrent system, \<open>PsBufferSpec\<close> the threads that
    use it, \<open>PsBufferClaims\<close> the properties.
  \<^item> Names of files in the driver (\<open>src/sys/name.c\<close>): \<open>Name\<close>, the grammar of names in \<open>NameProps\<close>, and
    \<open>NameClaims\<close>.
  \<^item> The option parser of the FUSE layer (\<open>src/dll/fuse/fuse_opt.c\<close>): \<open>FuseOpt\<close>, \<open>FuseOptProps\<close>,
    \<open>FuseOptClaims\<close>.
  \<^item> Splitting and joining paths in place (\<open>src/dll/path.c\<close>): \<open>PathOps\<close>.
  \<^item> The access check (\<open>src/dll/security.c\<close>): \<open>Security\<close> has \<open>FspAccessCheckEx\<close> in the parts of its
    body, on a state of the descriptor block, the name in the request and the file system;
    \<open>SecurityProps\<close> shows what each part keeps and establishes, \<open>SecuritySpec\<close> what the whole check
    keeps and what the check of a parent directory establishes about the parent, \<open>SecurityClaims\<close> the properties.
    Memory is accounted for exactly as long as no reparse point is met; the blocks that the code loses at one are bounded.
  \<^item> The operations on requests (\<open>src/dll/fsop.c\<close>): \<open>FsRequest\<close> has requests and responses,
    \<open>FsCreate\<close> the create operation with its checks and dispositions, \<open>FsOps\<close> every other operation;
    the file system is a record of optional calls. \<open>FsCreateProps\<close> shows what each part of the create
    operation keeps of the memory, the request and the response, \<open>FsCreateClaims\<close> the properties.
  \<^item> Finding and resolving reparse points (\<open>src/dll/fsop.c\<close>): \<open>FsReparse\<close>, the induction over the
    loop and its invariant in \<open>FsReparseProps\<close>, \<open>FsReparseClaims\<close>.
  \<^item> Extended attributes, streams and notifications in buffers (\<open>src/dll/fsop.c\<close>): \<open>FsEa\<close> has the
    routines byte for byte, \<open>FsEaProps\<close> the round trip.
  \<^item> The FUSE layer (\<open>src/dll/fuse/fuse_intf.c\<close>): \<open>FuseFs\<close> has the FUSE file system as a record of
    optional operations on a state of its own, the errno tables and the conversion of paths; \<open>FuseInfo\<close>
    times, attributes and reparse points of a file; \<open>FuseOpen\<close> entering and leaving an operation, and
    creating, opening, cleaning up and closing files; \<open>FuseFile\<close> reading, writing, sizes and times;
    \<open>FuseName\<close> deletion, renaming, security, reparse points, control codes and extended attributes;
    \<open>FuseDir\<close> the listing of directories, which fills a directory buffer and walks over its bytes. Each
    operation counts the memory it allocates and frees. \<open>FuseProps\<close> and \<open>FuseHolds\<close> show, inside the
    locale \<open>fuse_resources\<close>, what every operation takes and gives back; \<open>FuseLife\<close> interprets it for any
    file system with a log of the files opened and released beside its state, each with its kind, path, flags and
    handle, and has the life of an open file; \<open>FuseBytes\<close> shows
    that an open file refines an array of bytes; \<open>FuseDirProps\<close> and \<open>FuseDirClaims\<close> show that a listing,
    byte for byte, is that of the names; \<open>FuseSample\<close> is a small file system for the instances, and
    \<open>FuseClaims\<close> has the other properties.
  \<^item> The guard and the dispatcher (\<open>src/dll/fsop.c\<close>, \<open>src/dll/fs.c\<close>, \<open>src/dll/fuse/fuse_intf.c\<close>):
    \<open>OpGuard\<close> has both guards over a locale of reader-writer locks, \<open>Dispatch\<close> the threads that take
    requests, run the operations and answer, \<open>DispatchProps\<close> the invariant of their steps,
    \<open>DispatchClaims\<close> the property of the whole, which composes the operations with the guard.

  \<^bold>\<open>Bounds and fuel.\<close> Loops are recursive functions with a measure, or partial functions whose
  result is shown to exist. The one fuel of the development is the depth of the access check,
  \<open>check_fuel = 2\<close>: the check of a parent directory asks only for rights that never lead to another
  nested check, so more fuel gives the same result (\<open>SecurityClaims.access_check_returns\<close>). The queue
  and the pool are unbounded in threads and steps: their states are those reachable by any finite
  sequence of critical sections. So are the states of the dispatcher, whose threads are a list of any
  length. A response has the 16384 bytes of \<open>FSP_FSCTL_TRANSACT_RSP_SIZEMAX\<close>. The resolution of reparse points
  needs no fuel: a link uses up one of its 32 tries, and everything else shortens the path or passes a component.
  Sums that the code lets wrap limit three properties: the directory buffer is below 2^30 bytes, a FUSE directory has
  at most 200000 entries, and a time is one from which 1970 can be subtracted.

  \<^bold>\<open>Not modelled.\<close> The handlers of the driver (\<open>src/sys/create.c\<close>, \<open>fileinfo.c\<close> and the others)
  marshal requests of the I/O manager and call the kernel; the file nodes of \<open>src/sys/file.c\<close> are
  kernel objects with their oplocks and byte-range locks; mounting, services, the launcher, the
  network provider and the tools call services of Windows; of \<open>fs.c\<close> only the loop of the dispatcher is
  modelled, not the creation and mounting of a file system, the start and stop of its threads and
  \<open>FspFileSystemSendResponse\<close>; the bytes of a directory listing are not kept by the dispatcher. Of
  the FUSE layer the 64-bit builds are modelled (the conversions of times also at the 32 bits of the x86 build), the
  reading of the access token is an argument, and the set-up in \<open>fuse.c\<close>, \<open>fuse_loop.c\<close> and
  \<open>fuse_main.c\<close>, which calls Windows, is left out; tests, samples and bindings are no part of the product.
\<close>

end
